(* ===== verification/Prelude.thy ===== *)
theory Prelude
  imports Complex_Main "HOL-Library.AList"
begin

text \<open>
  Shared vocabulary of the development: Python values as they come off the wire, the string
  patterns of the envelope kernel, time stamps, ordered dictionaries, the collections of
  facts the component theories feed, and the three interfaces several components share
  (severity scales, first-match rule lists, sliding windows).

  Values decoded from JSON are of type \<open>pyval\<close>: the code cannot rely on their shape, and its
  \<open>isinstance\<close> guards are branches of the model. Arguments that the repository's own code passes
  between components are typed, and an \<open>isinstance\<close> guard on such an argument holds by typing.
  A \<open>str\<close> is a \<open>string\<close> (code points up to 255); \<open>bytes\<close> are \<open>string\<close>s too. A dictionary whose
  iteration order can be observed is an association list updated in place (\<open>AList.update\<close> keeps
  the position of an existing key and appends a new one, as Python does); other dictionaries
  are partial functions. A timezone-aware \<open>datetime\<close> and a \<open>timedelta\<close> are integers counting
  microseconds; the sums and differences the code forms of a current time and a configured span
  are taken to stay within the years that \<open>datetime\<close> represents.
\<close>

named_theorems model_simps
  \<open>unfolding equations of the operations of the components\<close>

named_theorems inv_intros
  \<open>preservation of component invariants\<close>


section \<open>Results\<close>

text \<open>A Python call either raises (\<open>Inl\<close>) or returns (\<open>Inr\<close>).\<close>

fun bindE :: "'e + 'a \<Rightarrow> ('a \<Rightarrow> 'e + 'b) \<Rightarrow> 'e + 'b" where
  "bindE (Inl e) f = Inl e"
| "bindE (Inr a) f = f a"

lemma bindE_Inr [simp]: "bindE r f = Inr b \<longleftrightarrow> (\<exists>a. r = Inr a \<and> f a = Inr b)"
  by (cases r) auto

lemma bindE_Inl [simp]:
  "bindE r f = Inl e \<longleftrightarrow> r = Inl e \<or> (\<exists>a. r = Inr a \<and> f a = Inl e)"
  by (cases r) auto

lemma bindE_assoc: "bindE (bindE r f) g = bindE r (\<lambda>x. bindE (f x) g)"
  by (cases r) auto

lemma bindE_prod: "bindE (case p of (a, b) \<Rightarrow> f a b) g = (case p of (a, b) \<Rightarrow> bindE (f a b) g)"
  by (cases p) auto

fun returned :: "'e + 'a \<Rightarrow> bool" where
  "returned (Inl e) = False"
| "returned (Inr a) = True"

lemma returned_iff: "returned r \<longleftrightarrow> (\<exists>a. r = Inr a)"
  by (cases r) auto


section \<open>Python values\<close>

datatype pyfloat = Finite rat | PosInf | NegInf | NaN

datatype pyval =
    PNone
  | PBool bool
  | PInt int
  | PFloat pyfloat
  | PStr string
  | PList "pyval list"
  | PDict "(string \<times> pyval) list"

text \<open>\<open>isinstance\<close> tests. In Python \<open>bool\<close> is a subclass of \<open>int\<close>; most guards of the code
  exclude it explicitly, and \<open>is_int\<close> is that combined test.\<close>

fun is_str :: "pyval \<Rightarrow> bool" where
  "is_str (PStr s) = True"
| "is_str _ = False"

fun is_int :: "pyval \<Rightarrow> bool" where
  "is_int (PInt n) = True"
| "is_int _ = False"

fun is_dict :: "pyval \<Rightarrow> bool" where
  "is_dict (PDict d) = True"
| "is_dict _ = False"

fun is_container :: "pyval \<Rightarrow> bool" where
  "is_container (PDict d) = True"
| "is_container (PList xs) = True"
| "is_container _ = False"

fun str_of :: "pyval \<Rightarrow> string" where
  "str_of (PStr s) = s"
| "str_of _ = []"

fun int_of :: "pyval \<Rightarrow> int" where
  "int_of (PInt n) = n"
| "int_of _ = 0"

fun dict_of :: "pyval \<Rightarrow> (string \<times> pyval) list" where
  "dict_of (PDict d) = d"
| "dict_of _ = []"

lemma is_str_iff: "is_str v \<longleftrightarrow> (\<exists>s. v = PStr s)"
  by (cases v) auto

lemma is_int_iff: "is_int v \<longleftrightarrow> (\<exists>n. v = PInt n)"
  by (cases v) auto

lemma is_dict_iff: "is_dict v \<longleftrightarrow> (\<exists>d. v = PDict d)"
  by (cases v) auto

text \<open>\<open>d[k]\<close> where the key is known to be present, and \<open>d.get(k)\<close>.\<close>

definition item :: "(string \<times> pyval) list \<Rightarrow> string \<Rightarrow> pyval" where
  "item d k = (case map_of d k of None \<Rightarrow> PNone | Some v \<Rightarrow> v)"

definition has_key :: "(string \<times> pyval) list \<Rightarrow> string \<Rightarrow> bool" where
  "has_key d k \<longleftrightarrow> map_of d k \<noteq> None"

lemma item_Some [simp]: "map_of d k = Some v \<Longrightarrow> item d k = v"
  by (simp add: item_def)

text \<open>A string-valued test on a value that may be anything: \<open>isinstance(v, str) and p(v)\<close>.\<close>

fun str_test :: "(string \<Rightarrow> bool) \<Rightarrow> pyval \<Rightarrow> bool" where
  "str_test p (PStr s) = p s"
| "str_test p _ = False"

lemma str_test_iff: "str_test p v \<longleftrightarrow> (\<exists>s. v = PStr s \<and> p s)"
  by (cases v) auto

text \<open>Equality of values as \<open>==\<close> computes it: \<open>True == 1\<close>, an integral float equals the integer,
  \<open>NaN\<close> differs from itself.\<close>

fun num_of :: "pyval \<Rightarrow> rat option" where
  "num_of (PBool b) = Some (if b then 1 else 0)"
| "num_of (PInt n) = Some (of_int n)"
| "num_of (PFloat (Finite q)) = Some q"
| "num_of _ = None"

fun is_nan :: "pyval \<Rightarrow> bool" where
  "is_nan (PFloat NaN) = True"
| "is_nan _ = False"

definition py_eq :: "pyval \<Rightarrow> pyval \<Rightarrow> bool" where
  "py_eq v w \<longleftrightarrow> \<not> is_nan v \<and> \<not> is_nan w \<and>
     (case (num_of v, num_of w) of
        (Some a, Some b) \<Rightarrow> a = b
      | (None, None) \<Rightarrow> v = w
      | _ \<Rightarrow> False)"

lemma py_eq_PStr [simp]: "py_eq (PStr s) w \<longleftrightarrow> w = PStr s"
  by (cases w rule: num_of.cases) (auto simp: py_eq_def)

lemma py_eq_string: "py_eq v (PStr s) \<longleftrightarrow> v = PStr s"
  by (cases v rule: num_of.cases) (auto simp: py_eq_def)

lemma py_eq_PInt [simp]: "py_eq (PInt m) (PInt n) \<longleftrightarrow> m = n"
  by (simp add: py_eq_def)


text \<open>\<open>int(x)\<close> of a float: it truncates toward zero.\<close>

definition trunc :: "rat \<Rightarrow> int" where
  "trunc q = (if 0 \<le> q then floor q else - floor (- q))"


section \<open>Time\<close>

type_synonym datetime = int
type_synonym timedelta = int

definition seconds :: "int \<Rightarrow> timedelta" where
  "seconds n = n * 1000000"

definition minutes :: "int \<Rightarrow> timedelta" where
  "minutes n = seconds (60 * n)"

definition hours :: "int \<Rightarrow> timedelta" where
  "hours n = minutes (60 * n)"

text \<open>\<open>datetime.fromtimestamp(n, tz=UTC)\<close> is defined for the years 1 to 9999 and raises outside.\<close>

definition timestamp_ok :: "int \<Rightarrow> bool" where
  "timestamp_ok n \<longleftrightarrow> -62135596800 \<le> n \<and> n \<le> 253402300799"

text \<open>\<open>timedelta(seconds=n)\<close> raises outside plus or minus 999999999 days.\<close>

definition timedelta_ok :: "int \<Rightarrow> bool" where
  "timedelta_ok n \<longleftrightarrow> -999999999 \<le> n div 86400 \<and> n div 86400 \<le> 999999999"

lemma seconds_le_iff [simp]: "seconds m \<le> seconds n \<longleftrightarrow> m \<le> n"
  by (simp add: seconds_def)

lemma seconds_less_iff [simp]: "seconds m < seconds n \<longleftrightarrow> m < n"
  by (simp add: seconds_def)

lemma seconds_diff: "seconds (m - n) = seconds m - seconds n"
  by (simp add: seconds_def algebra_simps)


section \<open>String patterns\<close>

text \<open>
  The patterns of \<open>verify_envelope.py\<close> are anchored with \<open>^\<close> and \<open>$\<close> and used through
  \<open>re.match\<close>. In Python \<open>$\<close> also matches just before a final newline, so each pattern accepts
  its body and its body followed by one newline.
\<close>

definition newline :: char where
  "newline = CHR 0x0A"

definition re_dollar :: "(string \<Rightarrow> bool) \<Rightarrow> string \<Rightarrow> bool" where
  "re_dollar body s \<longleftrightarrow> body s \<or> (s \<noteq> [] \<and> last s = newline \<and> body (butlast s))"

definition in_range :: "nat \<Rightarrow> nat \<Rightarrow> char \<Rightarrow> bool" where
  "in_range lo hi c \<longleftrightarrow> lo \<le> of_char c \<and> of_char c \<le> hi"

definition is_digit :: "char \<Rightarrow> bool" where
  "is_digit = in_range 48 57"

definition is_alnum :: "char \<Rightarrow> bool" where
  "is_alnum c \<longleftrightarrow> is_digit c \<or> in_range 65 90 c \<or> in_range 97 122 c"

definition is_hex_lower :: "char \<Rightarrow> bool" where
  "is_hex_lower c \<longleftrightarrow> is_digit c \<or> in_range 97 102 c"

definition is_hex :: "char \<Rightarrow> bool" where
  "is_hex c \<longleftrightarrow> is_hex_lower c \<or> in_range 65 70 c"

definition is_spiffe_char :: "char \<Rightarrow> bool" where
  "is_spiffe_char c \<longleftrightarrow> is_alnum c \<or> c \<in> set ''._/-''"

definition is_id_char :: "char \<Rightarrow> bool" where
  "is_id_char c \<longleftrightarrow> is_alnum c \<or> c \<in> set ''._:-''"

definition uuid_pats :: "(char \<Rightarrow> bool) list" where
  "uuid_pats =
     replicate 8 is_hex @ [(=) CHR ''-''] @ replicate 4 is_hex @ [(=) CHR ''-''] @
     [(=) CHR ''7''] @ replicate 3 is_hex @ [(=) CHR ''-''] @
     [\<lambda>c. c \<in> set ''89abAB''] @ replicate 3 is_hex @ [(=) CHR ''-''] @ replicate 12 is_hex"

definition uuid_v7_re :: "string \<Rightarrow> bool" where
  "uuid_v7_re = re_dollar (list_all2 (\<lambda>p c. p c) uuid_pats)"

definition spiffe_prefix :: string where
  "spiffe_prefix = ''spiffe://''"

definition spiffe_id_re :: "string \<Rightarrow> bool" where
  "spiffe_id_re = re_dollar (\<lambda>s. take 9 s = spiffe_prefix \<and> drop 9 s \<noteq> [] \<and>
     list_all is_spiffe_char (drop 9 s))"

definition nonce_re :: "string \<Rightarrow> bool" where
  "nonce_re = re_dollar (\<lambda>s. 16 \<le> length s \<and> length s \<le> 256 \<and> list_all is_id_char s)"

definition kid_re :: "string \<Rightarrow> bool" where
  "kid_re = re_dollar (\<lambda>s. 1 \<le> length s \<and> length s \<le> 128 \<and> list_all is_id_char s)"

definition hex_sha256_re :: "string \<Rightarrow> bool" where
  "hex_sha256_re = re_dollar (\<lambda>s. length s = 64 \<and> list_all is_hex_lower s)"

lemmas pattern_defs =
  re_dollar_def newline_def in_range_def is_digit_def is_alnum_def is_hex_lower_def is_hex_def
  is_spiffe_char_def is_id_char_def uuid_pats_def uuid_v7_re_def spiffe_prefix_def
  spiffe_id_re_def nonce_re_def kid_re_def hex_sha256_re_def


section \<open>Ordered dictionaries\<close>

abbreviation dget :: "('k \<times> 'v) list \<Rightarrow> 'k \<Rightarrow> 'v option" where
  "dget \<equiv> map_of"

abbreviation dset :: "'k \<Rightarrow> 'v \<Rightarrow> ('k \<times> 'v) list \<Rightarrow> ('k \<times> 'v) list" where
  "dset \<equiv> AList.update"

abbreviation ddel :: "'k \<Rightarrow> ('k \<times> 'v) list \<Rightarrow> ('k \<times> 'v) list" where
  "ddel \<equiv> AList.delete"

definition dkeys :: "('k \<times> 'v) list \<Rightarrow> 'k list" where
  "dkeys d = map fst d"

definition dvals :: "('k \<times> 'v) list \<Rightarrow> 'v list" where
  "dvals d = map snd d"

definition dict_wf :: "('k \<times> 'v) list \<Rightarrow> bool" where
  "dict_wf d \<longleftrightarrow> distinct (map fst d)"

lemma dict_wf_Nil [simp]: "dict_wf []"
  by (simp add: dict_wf_def)

lemma dict_wf_dset [simp, inv_intros]: "dict_wf d \<Longrightarrow> dict_wf (dset k v d)"
  by (simp add: dict_wf_def distinct_update)

lemma dict_wf_ddel [simp, inv_intros]: "dict_wf d \<Longrightarrow> dict_wf (ddel k d)"
  by (simp add: dict_wf_def distinct_delete)

lemma set_dset: "set (dset k v d) \<subseteq> insert (k, v) (set d)"
  by (induction d) auto

lemma dget_dset: "dget (dset k v d) = (dget d)(k \<mapsto> v)"
  by (rule update_conv')

lemma dget_ddel: "dget (ddel k d) = (dget d)(k := None)"
  by (rule delete_conv')

lemma set_dvals: "dict_wf d \<Longrightarrow> set (dvals d) = ran (dget d)"
  by (simp add: dvals_def dict_wf_def ran_distinct image_image)

lemma set_dkeys: "set (dkeys d) = dom (dget d)"
  by (simp add: dkeys_def dom_map_of_conv_image_fst)



section \<open>Severity scales\<close>

text \<open>
  Several components fold a sequence of levels into the most severe one, starting from the least
  (\<open>max_state\<close> of the safe-mode engine, \<open>max_class\<close> of the data classification). The order is the
  \<open>linorder\<close> instance of the level type.
\<close>

locale severity_scale =
  fixes bottom :: "'a :: linorder"
    and worst :: "'a list \<Rightarrow> 'a"
  assumes bottom_least: "bottom \<le> x"
    and worst_Nil: "worst [] = bottom"
    and worst_snoc: "worst (xs @ [x]) = (if worst xs < x then x else worst xs)"
begin

lemma worst_Max: "worst xs = Max (insert bottom (set xs))"
proof (induction xs rule: rev_induct)
  case (snoc x xs)
  define M where "M = Max (insert bottom (set xs))"
  have "insert bottom (set (xs @ [x])) = insert x (insert bottom (set xs))" by auto
  then have "Max (insert bottom (set (xs @ [x]))) = max x M"
    unfolding M_def by (simp only: Max_insert finite_insert finite_set) simp
  moreover have "(if M < x then x else M) = max x M" by (auto simp: max_def)
  ultimately show ?case unfolding worst_snoc snoc.IH M_def[symmetric] by simp
qed (simp add: worst_Nil)

lemma worst_upper: "x \<in> set xs \<Longrightarrow> x \<le> worst xs"
  by (simp add: worst_Max)

lemma worst_le_iff: "worst xs \<le> y \<longleftrightarrow> (\<forall>x\<in>set xs. x \<le> y)"
  by (simp add: worst_Max bottom_least)

lemma worst_mem: "worst xs = bottom \<or> worst xs \<in> set xs"
proof -
  have "Max (insert bottom (set xs)) \<in> insert bottom (set xs)" by (rule Max_in) simp_all
  then show ?thesis by (auto simp: worst_Max)
qed

lemma worst_mono: "set xs \<subseteq> set ys \<Longrightarrow> worst xs \<le> worst ys"
  by (auto simp: worst_le_iff intro: worst_upper)

lemma worst_cong: "set xs = set ys \<Longrightarrow> worst xs = worst ys"
  by (simp add: worst_Max)

end


section \<open>First-match rule lists\<close>

text \<open>
  Policies of the repository are ordered lists of rules: the first rule that matches a request
  decides it, and a request that no rule matches gets the default, a denial. \<open>eval rs q\<close> is the
  loop of the component.
\<close>

locale first_match =
  fixes matches :: "'r \<Rightarrow> 'q \<Rightarrow> bool"
    and verdict :: "'r \<Rightarrow> 'q \<Rightarrow> 'd"
    and default :: "'q \<Rightarrow> 'd"
    and eval :: "'r list \<Rightarrow> 'q \<Rightarrow> 'd"
  assumes eval_Nil: "eval [] q = default q"
    and eval_Cons: "eval (r # rs) q = (if matches r q then verdict r q else eval rs q)"
begin

lemma eval_find: "eval rs q = (case find (\<lambda>r. matches r q) rs of None \<Rightarrow> default q | Some r \<Rightarrow> verdict r q)"
  by (induction rs) (simp_all add: eval_Nil eval_Cons)

lemma eval_no_match: "\<forall>r\<in>set rs. \<not> matches r q \<Longrightarrow> eval rs q = default q"
  by (induction rs) (simp_all add: eval_Nil eval_Cons)

lemma eval_append:
  "eval (rs @ rs') q = (if \<exists>r\<in>set rs. matches r q then eval rs q else eval rs' q)"
  by (induction rs) (auto simp: eval_Nil eval_Cons)

lemma eval_not_default:
  assumes "eval rs q \<noteq> default q"
  shows "\<exists>xs r ys. rs = xs @ r # ys \<and> matches r q \<and> (\<forall>x\<in>set xs. \<not> matches x q) \<and> eval rs q = verdict r q"
  using assms
proof (induction rs)
  case (Cons a rs)
  show ?case
  proof (cases "matches a q")
    case True
    then have "eval (a # rs) q = verdict a q" by (simp add: eval_Cons)
    then show ?thesis using True by (intro exI[of _ "[]"] exI[of _ a] exI[of _ rs] conjI) simp_all
  next
    case False
    then have eq: "eval (a # rs) q = eval rs q" by (simp add: eval_Cons)
    then obtain xs r ys where xs: "rs = xs @ r # ys" "matches r q" "\<forall>x\<in>set xs. \<not> matches x q"
      "eval rs q = verdict r q"
      using Cons.IH Cons.prems by metis
    have "a # rs = (a # xs) @ r # ys" "\<forall>x\<in>set (a # xs). \<not> matches x q" using xs False by simp_all
    then show ?thesis using xs(2,4) eq by metis
  qed
qed (simp add: eval_Nil)

text \<open>If at most one rule matches any request, the order of the rules does not matter.\<close>

lemma eval_unique:
  assumes "r \<in> set rs" "matches r q" "\<And>r'. r' \<in> set rs \<Longrightarrow> matches r' q \<Longrightarrow> verdict r' q = verdict r q"
  shows "eval rs q = verdict r q"
  using assms
proof (induction rs)
  case (Cons a rs)
  show ?case
  proof (cases "matches a q")
    case True
    then show ?thesis using Cons.prems(3)[of a] by (simp add: eval_Cons)
  next
    case False
    then have mem: "r \<in> set rs" using Cons.prems(1,2) by auto
    have "verdict r' q = verdict r q" if "r' \<in> set rs" "matches r' q" for r'
      by (rule Cons.prems(3)) (simp_all add: that)
    from Cons.IH[OF mem Cons.prems(2) this] show ?thesis using False by (simp only: eval_Cons if_False)
  qed
qed simp

end


section \<open>Sliding windows\<close>

text \<open>
  A sliding-window limiter keeps the times of recent events, oldest first, and drops from the front
  those that left the window. With a clock that does not run backwards the queue is sorted and
  dropping from the front is filtering.
\<close>

definition trim_before :: "datetime \<Rightarrow> datetime list \<Rightarrow> datetime list" where
  "trim_before cutoff q = dropWhile (\<lambda>t. t < cutoff) q"

lemma trim_before_filter: "sorted q \<Longrightarrow> trim_before cutoff q = filter (\<lambda>t. cutoff \<le> t) q"
proof (induction q)
  case (Cons t q)
  then show ?case
  proof (cases "t < cutoff")
    case False
    then have "filter (\<lambda>t. cutoff \<le> t) q = q" using Cons.prems by (auto simp: filter_id_conv)
    then show ?thesis using False by (simp add: trim_before_def)
  qed (use Cons in \<open>simp add: trim_before_def\<close>)
qed (simp add: trim_before_def)

text \<open>
  \<open>step now s\<close> is one request: whether it is allowed, and the limiter after it. A limiter may also
  count the requests it denies (\<open>counts_denied\<close>). The law: a request is allowed only if the events
  in the window are fewer than the limit, and what the window held stays recorded.
\<close>

locale sliding_window =
  fixes step :: "datetime \<Rightarrow> 's \<Rightarrow> bool \<times> 's"
    and recent :: "'s \<Rightarrow> datetime list"
    and width :: timedelta
    and limit :: nat
    and counts_denied :: bool
  assumes step_allowed: "sorted (recent s) \<Longrightarrow> fst (step now s) \<Longrightarrow>
      length (filter (\<lambda>t. now - width \<le> t) (recent s)) < limit"
    and step_recent: "0 < width \<Longrightarrow> sorted (recent s) \<Longrightarrow> recent (snd (step now s)) =
      filter (\<lambda>t. now - width \<le> t) (recent s) @ (if fst (step now s) \<or> counts_denied then [now] else [])"
begin

text \<open>The times of the requests that were allowed, in order.\<close>

fun granted_times :: "datetime list \<Rightarrow> 's \<Rightarrow> datetime list" where
  "granted_times [] s = []"
| "granted_times (now # nows) s =
     (case step now s of (ok, s') \<Rightarrow> (if ok then [now] else []) @ granted_times nows s')"

lemma step_sorted:
  assumes "0 < width" "sorted (recent s)" "\<forall>t\<in>set (recent s). t \<le> now"
  shows "sorted (recent (snd (step now s)))" "\<forall>t\<in>set (recent (snd (step now s))). t \<le> now"
  using assms by (auto simp: step_recent sorted_append sorted_wrt_filter)

text \<open>\<open>past\<close> are the requests allowed so far; those that can share a window with a later one are still
  recorded.\<close>

lemma granted_bound:
  assumes width: "0 < width"
    and "sorted (recent s)" "\<forall>t\<in>set (recent s). t \<le> now" "sorted (now # nows)"
    and "\<And>c. now - width \<le> c \<Longrightarrow>
      length (filter (\<lambda>t. c \<le> t) past) \<le> length (filter (\<lambda>t. c \<le> t) (recent s))"
    and "\<And>a. length (filter (\<lambda>t. a \<le> t \<and> t \<le> a + width) past) \<le> limit"
    and "\<forall>t\<in>set past. t \<le> now"
  shows "length (filter (\<lambda>t. a \<le> t \<and> t \<le> a + width) (past @ granted_times nows s)) \<le> limit"
  using assms(2-)
proof (induction nows arbitrary: s now past)
  case (Cons n nows)
  obtain ok s' where st: "step n s = (ok, s')" by fastforce
  let ?past = "past @ (if ok then [n] else [])"
  have le: "now \<le> n" "\<forall>t\<in>set (recent s). t \<le> n" using Cons.prems(2,3) by auto
  have rec: "recent s' = filter (\<lambda>t. n - width \<le> t) (recent s) @ (if ok \<or> counts_denied then [n] else [])"
    using step_recent[OF width Cons.prems(1), of n] st by simp
  have s': "sorted (recent s')" "\<forall>t\<in>set (recent s'). t \<le> n"
    using step_sorted[OF width Cons.prems(1) le(2)] st by simp_all
  have keep: "length (filter (\<lambda>t. c \<le> t) ?past) \<le> length (filter (\<lambda>t. c \<le> t) (recent s'))"
    if c: "n - width \<le> c" for c
  proof -
    have "filter (\<lambda>t. c \<le> t) (filter (\<lambda>t. n - width \<le> t) (recent s)) = filter (\<lambda>t. c \<le> t) (recent s)"
      using c by (auto intro: filter_cong)
    moreover have "length (filter (\<lambda>t. c \<le> t) past) \<le> length (filter (\<lambda>t. c \<le> t) (recent s))"
      using Cons.prems(4) c le(1) by simp
    ultimately show ?thesis using rec by auto
  qed
  have bound: "length (filter (\<lambda>t. a \<le> t \<and> t \<le> a + width) ?past) \<le> limit" for a
  proof (cases "ok \<and> a \<le> n \<and> n \<le> a + width")
    case True
    have "length (filter (\<lambda>t. a \<le> t \<and> t \<le> a + width) past) \<le> length (filter (\<lambda>t. n - width \<le> t) past)"
      using True by (induction past) auto
    also have "\<dots> \<le> length (filter (\<lambda>t. n - width \<le> t) (recent s))"
      using Cons.prems(4)[of "n - width"] le(1) by simp
    also have "\<dots> < limit" using step_allowed[OF Cons.prems(1), of n] st True by simp
    finally show ?thesis using True by simp
  next
    case False
    then show ?thesis using Cons.prems(5)[of a] by auto
  qed
  have "\<forall>t\<in>set ?past. t \<le> n" using Cons.prems(6) le(1) by auto
  from Cons.IH[OF s' _ keep bound this] show ?case
    using Cons.prems(3) st by simp
qed simp

lemma window_limit:
  assumes "0 < width" "recent s = []" "sorted nows"
  shows "length (filter (\<lambda>t. a \<le> t \<and> t \<le> a + width) (granted_times nows s)) \<le> limit"
proof (cases nows)
  case (Cons n ns)
  have "length (filter (\<lambda>t. a \<le> t \<and> t \<le> a + width) ([] @ granted_times nows s)) \<le> limit"
    using assms Cons by (intro granted_bound[of s n]) auto
  then show ?thesis by simp
qed simp

end

text \<open>The lower-case hexadecimal digit of a number below 16.\<close>

definition hex_digit :: "nat \<Rightarrow> char" where
  "hex_digit n = char_of (if n < 10 then n + 48 else n + 87)"

end
