(* ===== verification/Deny_Reason.thy ===== *)
theory Deny_Reason
  imports Prelude
begin

text \<open>
  The taxonomy of \<open>deny_reason.py\<close> and the exceptions of the repository.

  \<open>DenyReason\<close> is a \<open>StrEnum\<close>: a member is a string, equal to its value. \<open>deny_reason\<close> wraps that
  string, each member of the source has an abbreviation of the same name, and the lists
  \<open>deny_members_*\<close> are the members in the order of the source. An exception is a class and, for
  the classes that carry one, a deny reason; the human-readable message is not modelled.
\<close>

section \<open>The enumeration\<close>

datatype deny_reason = DenyReason (deny_value: string)

text \<open>Envelope structure\<close>

abbreviation MISSING_REQUIRED_FIELD :: deny_reason where "MISSING_REQUIRED_FIELD \<equiv> DenyReason ''missing_required_field''"
abbreviation UNSUPPORTED_VERSION :: deny_reason where "UNSUPPORTED_VERSION \<equiv> DenyReason ''unsupported_version''"
abbreviation INVALID_MESSAGE_ID :: deny_reason where "INVALID_MESSAGE_ID \<equiv> DenyReason ''invalid_message_id''"
abbreviation INVALID_SENDER_SPIFFE_ID :: deny_reason where "INVALID_SENDER_SPIFFE_ID \<equiv> DenyReason ''invalid_sender_spiffe_id''"
abbreviation INVALID_RECIPIENT_SPIFFE_ID :: deny_reason where "INVALID_RECIPIENT_SPIFFE_ID \<equiv> DenyReason ''invalid_recipient_spiffe_id''"
abbreviation INVALID_NONCE :: deny_reason where "INVALID_NONCE \<equiv> DenyReason ''invalid_nonce''"
abbreviation INVALID_KID :: deny_reason where "INVALID_KID \<equiv> DenyReason ''invalid_kid''"
abbreviation INVALID_PAYLOAD_DIGEST :: deny_reason where "INVALID_PAYLOAD_DIGEST \<equiv> DenyReason ''invalid_payload_digest''"
abbreviation DISALLOWED_ALGORITHM :: deny_reason where "DISALLOWED_ALGORITHM \<equiv> DenyReason ''disallowed_algorithm''"
abbreviation ENVELOPE_NOT_OBJECT :: deny_reason where "ENVELOPE_NOT_OBJECT \<equiv> DenyReason ''envelope_not_object''"
abbreviation ENVELOPE_TOO_DEEP :: deny_reason where "ENVELOPE_TOO_DEEP \<equiv> DenyReason ''envelope_too_deep''"
abbreviation ENVELOPE_NOT_CANONICALIZABLE :: deny_reason where "ENVELOPE_NOT_CANONICALIZABLE \<equiv> DenyReason ''envelope_not_canonicalizable''"
abbreviation VERIFIER_INTERNAL_ERROR :: deny_reason where "VERIFIER_INTERNAL_ERROR \<equiv> DenyReason ''verifier_internal_error''"
abbreviation AUDIT_SINK_FAILURE :: deny_reason where "AUDIT_SINK_FAILURE \<equiv> DenyReason ''audit_sink_failure''"

text \<open>Time window (envelope)\<close>

abbreviation INVALID_TIMESTAMP :: deny_reason where "INVALID_TIMESTAMP \<equiv> DenyReason ''invalid_timestamp''"
abbreviation ISSUED_AT_IN_FUTURE :: deny_reason where "ISSUED_AT_IN_FUTURE \<equiv> DenyReason ''issued_at_in_future''"
abbreviation ENVELOPE_EXPIRED :: deny_reason where "ENVELOPE_EXPIRED \<equiv> DenyReason ''envelope_expired''"
abbreviation INVALID_VALIDITY_WINDOW :: deny_reason where "INVALID_VALIDITY_WINDOW \<equiv> DenyReason ''invalid_validity_window''"
abbreviation ENVELOPE_TTL_EXCEEDED :: deny_reason where "ENVELOPE_TTL_EXCEEDED \<equiv> DenyReason ''envelope_ttl_exceeded''"

text \<open>Crypto (envelope)\<close>

abbreviation PAYLOAD_DIGEST_MISMATCH :: deny_reason where "PAYLOAD_DIGEST_MISMATCH \<equiv> DenyReason ''payload_digest_mismatch''"
abbreviation MISSING_SIGNATURE :: deny_reason where "MISSING_SIGNATURE \<equiv> DenyReason ''missing_signature''"
abbreviation SIGNATURE_ENCODING_INVALID :: deny_reason where "SIGNATURE_ENCODING_INVALID \<equiv> DenyReason ''signature_encoding_invalid''"
abbreviation INVALID_PUBLIC_KEY :: deny_reason where "INVALID_PUBLIC_KEY \<equiv> DenyReason ''invalid_public_key''"
abbreviation SIGNATURE_INVALID :: deny_reason where "SIGNATURE_INVALID \<equiv> DenyReason ''signature_invalid''"

text \<open>Trust store / lookup\<close>

abbreviation UNKNOWN_KID :: deny_reason where "UNKNOWN_KID \<equiv> DenyReason ''unknown_kid''"
abbreviation KEY_EXPIRED :: deny_reason where "KEY_EXPIRED \<equiv> DenyReason ''key_expired''"
abbreviation UNKNOWN_ISSUER_KEY :: deny_reason where "UNKNOWN_ISSUER_KEY \<equiv> DenyReason ''unknown_issuer_key''"
abbreviation ISSUER_KEY_EXPIRED :: deny_reason where "ISSUER_KEY_EXPIRED \<equiv> DenyReason ''issuer_key_expired''"

text \<open>Capability token: structure\<close>

abbreviation CAP_MISSING :: deny_reason where "CAP_MISSING \<equiv> DenyReason ''capability_missing''"
abbreviation CAP_OVERSIZED :: deny_reason where "CAP_OVERSIZED \<equiv> DenyReason ''capability_oversized''"
abbreviation CAP_MALFORMED :: deny_reason where "CAP_MALFORMED \<equiv> DenyReason ''capability_malformed''"
abbreviation CAP_WRONG_ALG :: deny_reason where "CAP_WRONG_ALG \<equiv> DenyReason ''capability_wrong_alg''"
abbreviation CAP_WRONG_TYP :: deny_reason where "CAP_WRONG_TYP \<equiv> DenyReason ''capability_wrong_typ''"
abbreviation CAP_INVALID_KID :: deny_reason where "CAP_INVALID_KID \<equiv> DenyReason ''capability_invalid_kid''"
abbreviation CAP_MISSING_CLAIM :: deny_reason where "CAP_MISSING_CLAIM \<equiv> DenyReason ''capability_missing_claim''"
abbreviation CAP_INVALID_CLAIM :: deny_reason where "CAP_INVALID_CLAIM \<equiv> DenyReason ''capability_invalid_claim''"

text \<open>Capability token: envelope binding\<close>

abbreviation CAP_SUB_MISMATCH :: deny_reason where "CAP_SUB_MISMATCH \<equiv> DenyReason ''capability_sub_mismatch''"
abbreviation CAP_AUD_MISMATCH :: deny_reason where "CAP_AUD_MISMATCH \<equiv> DenyReason ''capability_aud_mismatch''"
abbreviation CAP_SCOPE_MISMATCH :: deny_reason where "CAP_SCOPE_MISMATCH \<equiv> DenyReason ''capability_scope_mismatch''"
abbreviation CAP_DIGEST_MISMATCH :: deny_reason where "CAP_DIGEST_MISMATCH \<equiv> DenyReason ''capability_digest_mismatch''"
abbreviation CAP_RESOURCE_MISMATCH :: deny_reason where "CAP_RESOURCE_MISMATCH \<equiv> DenyReason ''capability_resource_mismatch''"

text \<open>Capability token: time / state\<close>

abbreviation CAP_IAT_AFTER_NBF :: deny_reason where "CAP_IAT_AFTER_NBF \<equiv> DenyReason ''capability_iat_after_nbf''"
abbreviation CAP_NOT_YET_VALID :: deny_reason where "CAP_NOT_YET_VALID \<equiv> DenyReason ''capability_not_yet_valid''"
abbreviation CAP_EXPIRED :: deny_reason where "CAP_EXPIRED \<equiv> DenyReason ''capability_expired''"
abbreviation CAP_INVALID_VALIDITY_WINDOW :: deny_reason where "CAP_INVALID_VALIDITY_WINDOW \<equiv> DenyReason ''capability_invalid_validity_window''"
abbreviation CAP_TTL_EXCEEDED :: deny_reason where "CAP_TTL_EXCEEDED \<equiv> DenyReason ''capability_ttl_exceeded''"
abbreviation CAP_SIGNATURE_INVALID :: deny_reason where "CAP_SIGNATURE_INVALID \<equiv> DenyReason ''capability_signature_invalid''"
abbreviation CAP_REVOKED :: deny_reason where "CAP_REVOKED \<equiv> DenyReason ''capability_revoked''"

text \<open>Replay / rate limiting\<close>

abbreviation REPLAY_DETECTED :: deny_reason where "REPLAY_DETECTED \<equiv> DenyReason ''replay_detected''"
abbreviation RATE_LIMITED :: deny_reason where "RATE_LIMITED \<equiv> DenyReason ''rate_limited''"

text \<open>Discovery\<close>

abbreviation DISCOVERY_MALFORMED :: deny_reason where "DISCOVERY_MALFORMED \<equiv> DenyReason ''discovery_malformed''"
abbreviation DISCOVERY_EXPIRED :: deny_reason where "DISCOVERY_EXPIRED \<equiv> DenyReason ''discovery_expired''"
abbreviation DISCOVERY_SIGNATURE_INVALID :: deny_reason where "DISCOVERY_SIGNATURE_INVALID \<equiv> DenyReason ''discovery_signature_invalid''"
abbreviation DISCOVERY_UNKNOWN_ISSUER :: deny_reason where "DISCOVERY_UNKNOWN_ISSUER \<equiv> DenyReason ''discovery_unknown_issuer''"

text \<open>Admission\<close>

abbreviation ADMISSION_WORKLOAD_NOT_ALLOWED :: deny_reason where "ADMISSION_WORKLOAD_NOT_ALLOWED \<equiv> DenyReason ''admission_workload_not_allowed''"
abbreviation ADMISSION_VERSION_INCOMPATIBLE :: deny_reason where "ADMISSION_VERSION_INCOMPATIBLE \<equiv> DenyReason ''admission_version_incompatible''"

text \<open>Delegation (Phase 2 Track A)\<close>

abbreviation DELEGATION_MALFORMED :: deny_reason where "DELEGATION_MALFORMED \<equiv> DenyReason ''delegation_malformed''"
abbreviation DELEGATION_EXPIRED :: deny_reason where "DELEGATION_EXPIRED \<equiv> DenyReason ''delegation_expired''"
abbreviation DELEGATION_SIGNATURE_INVALID :: deny_reason where "DELEGATION_SIGNATURE_INVALID \<equiv> DenyReason ''delegation_signature_invalid''"
abbreviation DELEGATION_UNKNOWN_ISSUER :: deny_reason where "DELEGATION_UNKNOWN_ISSUER \<equiv> DenyReason ''delegation_unknown_issuer''"
abbreviation DELEGATION_DEPTH_EXCEEDED :: deny_reason where "DELEGATION_DEPTH_EXCEEDED \<equiv> DenyReason ''delegation_depth_exceeded''"
abbreviation DELEGATION_PARENT_MISMATCH :: deny_reason where "DELEGATION_PARENT_MISMATCH \<equiv> DenyReason ''delegation_parent_mismatch''"
abbreviation DELEGATION_SCOPE_ESCALATION :: deny_reason where "DELEGATION_SCOPE_ESCALATION \<equiv> DenyReason ''delegation_scope_escalation''"
abbreviation DELEGATION_AUDIENCE_DRIFT :: deny_reason where "DELEGATION_AUDIENCE_DRIFT \<equiv> DenyReason ''delegation_audience_drift''"
abbreviation DELEGATION_TTL_ESCALATION :: deny_reason where "DELEGATION_TTL_ESCALATION \<equiv> DenyReason ''delegation_ttl_escalation''"

text \<open>Retrieval / context firewall (Phase 2 Track B)\<close>

abbreviation RETRIEVAL_CROSS_TENANT :: deny_reason where "RETRIEVAL_CROSS_TENANT \<equiv> DenyReason ''retrieval_cross_tenant''"
abbreviation RETRIEVAL_CLASS_EXCEEDS_RULE :: deny_reason where "RETRIEVAL_CLASS_EXCEEDS_RULE \<equiv> DenyReason ''retrieval_class_exceeds_rule''"
abbreviation RETRIEVAL_NO_RULE_MATCH :: deny_reason where "RETRIEVAL_NO_RULE_MATCH \<equiv> DenyReason ''retrieval_no_rule_match''"

text \<open>Egress / output DLP (Phase 2 Track C)\<close>

abbreviation EGRESS_DENIED_BY_POLICY :: deny_reason where "EGRESS_DENIED_BY_POLICY \<equiv> DenyReason ''egress_denied_by_policy''"
abbreviation EGRESS_RESTRICTED_NO_EXPORT :: deny_reason where "EGRESS_RESTRICTED_NO_EXPORT \<equiv> DenyReason ''egress_restricted_no_export''"
abbreviation EGRESS_NO_MATRIX_ENTRY :: deny_reason where "EGRESS_NO_MATRIX_ENTRY \<equiv> DenyReason ''egress_no_matrix_entry''"

text \<open>Reviewer workflow (Phase 2 Track C C3)\<close>

abbreviation REVIEW_MALFORMED :: deny_reason where "REVIEW_MALFORMED \<equiv> DenyReason ''review_malformed''"
abbreviation REVIEW_RECORD_MISMATCH :: deny_reason where "REVIEW_RECORD_MISMATCH \<equiv> DenyReason ''review_record_mismatch''"
abbreviation REVIEW_EXPIRED :: deny_reason where "REVIEW_EXPIRED \<equiv> DenyReason ''review_expired''"
abbreviation REVIEW_NOT_YET_VALID :: deny_reason where "REVIEW_NOT_YET_VALID \<equiv> DenyReason ''review_not_yet_valid''"
abbreviation REVIEW_INVALID_VALIDITY_WINDOW :: deny_reason where "REVIEW_INVALID_VALIDITY_WINDOW \<equiv> DenyReason ''review_invalid_validity_window''"
abbreviation REVIEW_TTL_EXCEEDED :: deny_reason where "REVIEW_TTL_EXCEEDED \<equiv> DenyReason ''review_ttl_exceeded''"
abbreviation REVIEW_SIGNATURE_INVALID :: deny_reason where "REVIEW_SIGNATURE_INVALID \<equiv> DenyReason ''review_signature_invalid''"
abbreviation REVIEW_UNKNOWN_ISSUER :: deny_reason where "REVIEW_UNKNOWN_ISSUER \<equiv> DenyReason ''review_unknown_issuer''"
abbreviation REVIEW_REJECTED :: deny_reason where "REVIEW_REJECTED \<equiv> DenyReason ''review_rejected''"

text \<open>Tool policy gate (Phase 2 Track D D2)\<close>

abbreviation TOOL_UNKNOWN :: deny_reason where "TOOL_UNKNOWN \<equiv> DenyReason ''tool_unknown''"
abbreviation TOOL_CALLER_NOT_ALLOWED :: deny_reason where "TOOL_CALLER_NOT_ALLOWED \<equiv> DenyReason ''tool_caller_not_allowed''"
abbreviation TOOL_STEP_UP_REQUIRED :: deny_reason where "TOOL_STEP_UP_REQUIRED \<equiv> DenyReason ''tool_step_up_required''"
abbreviation TOOL_STEP_UP_MISMATCH :: deny_reason where "TOOL_STEP_UP_MISMATCH \<equiv> DenyReason ''tool_step_up_mismatch''"
abbreviation TOOL_STEP_UP_EXPIRED :: deny_reason where "TOOL_STEP_UP_EXPIRED \<equiv> DenyReason ''tool_step_up_expired''"
abbreviation TOOL_STEP_UP_MALFORMED :: deny_reason where "TOOL_STEP_UP_MALFORMED \<equiv> DenyReason ''tool_step_up_malformed''"
abbreviation TOOL_STEP_UP_SIGNATURE_INVALID :: deny_reason where "TOOL_STEP_UP_SIGNATURE_INVALID \<equiv> DenyReason ''tool_step_up_signature_invalid''"
abbreviation TOOL_STEP_UP_UNKNOWN_ISSUER :: deny_reason where "TOOL_STEP_UP_UNKNOWN_ISSUER \<equiv> DenyReason ''tool_step_up_unknown_issuer''"

text \<open>Checkpointed execution (Phase 2 Track E E1)\<close>

abbreviation CHECKPOINT_CAPABILITY_EXPIRED :: deny_reason where "CHECKPOINT_CAPABILITY_EXPIRED \<equiv> DenyReason ''checkpoint_capability_expired''"
abbreviation CHECKPOINT_CAPABILITY_REVOKED :: deny_reason where "CHECKPOINT_CAPABILITY_REVOKED \<equiv> DenyReason ''checkpoint_capability_revoked''"
abbreviation CHECKPOINT_POLICY_EPOCH_MISMATCH :: deny_reason where "CHECKPOINT_POLICY_EPOCH_MISMATCH \<equiv> DenyReason ''checkpoint_policy_epoch_mismatch''"

text \<open>Session tokens (Phase 2 Track E E2)\<close>

abbreviation SESSION_MALFORMED :: deny_reason where "SESSION_MALFORMED \<equiv> DenyReason ''session_malformed''"
abbreviation SESSION_EXPIRED :: deny_reason where "SESSION_EXPIRED \<equiv> DenyReason ''session_expired''"
abbreviation SESSION_NOT_YET_VALID :: deny_reason where "SESSION_NOT_YET_VALID \<equiv> DenyReason ''session_not_yet_valid''"
abbreviation SESSION_INVALID_VALIDITY_WINDOW :: deny_reason where "SESSION_INVALID_VALIDITY_WINDOW \<equiv> DenyReason ''session_invalid_validity_window''"
abbreviation SESSION_TTL_EXCEEDED :: deny_reason where "SESSION_TTL_EXCEEDED \<equiv> DenyReason ''session_ttl_exceeded''"
abbreviation SESSION_SIGNATURE_INVALID :: deny_reason where "SESSION_SIGNATURE_INVALID \<equiv> DenyReason ''session_signature_invalid''"
abbreviation SESSION_UNKNOWN_ISSUER :: deny_reason where "SESSION_UNKNOWN_ISSUER \<equiv> DenyReason ''session_unknown_issuer''"
abbreviation SESSION_RESUME_SEQUENCE_INVALID :: deny_reason where "SESSION_RESUME_SEQUENCE_INVALID \<equiv> DenyReason ''session_resume_sequence_invalid''"
abbreviation SESSION_RESUME_PARENT_MISMATCH :: deny_reason where "SESSION_RESUME_PARENT_MISMATCH \<equiv> DenyReason ''session_resume_parent_mismatch''"
abbreviation SESSION_RESUME_SESSION_MISMATCH :: deny_reason where "SESSION_RESUME_SESSION_MISMATCH \<equiv> DenyReason ''session_resume_session_mismatch''"
abbreviation SESSION_RESUME_SCOPE_DRIFT :: deny_reason where "SESSION_RESUME_SCOPE_DRIFT \<equiv> DenyReason ''session_resume_scope_drift''"
abbreviation SESSION_RESUME_AUDIENCE_DRIFT :: deny_reason where "SESSION_RESUME_AUDIENCE_DRIFT \<equiv> DenyReason ''session_resume_audience_drift''"
abbreviation SESSION_RESUME_SUBJECT_DRIFT :: deny_reason where "SESSION_RESUME_SUBJECT_DRIFT \<equiv> DenyReason ''session_resume_subject_drift''"
abbreviation SESSION_RESUME_LIFETIME_EXCEEDED :: deny_reason where "SESSION_RESUME_LIFETIME_EXCEEDED \<equiv> DenyReason ''session_resume_lifetime_exceeded''"

text \<open>Sybil deterrence (Phase 3 Track A A1)\<close>

abbreviation SYBIL_ISSUER_QUOTA_EXCEEDED :: deny_reason where "SYBIL_ISSUER_QUOTA_EXCEEDED \<equiv> DenyReason ''sybil_issuer_quota_exceeded''"
abbreviation SYBIL_TENANT_QUOTA_EXCEEDED :: deny_reason where "SYBIL_TENANT_QUOTA_EXCEEDED \<equiv> DenyReason ''sybil_tenant_quota_exceeded''"
abbreviation SYBIL_REPUTATION_INSUFFICIENT :: deny_reason where "SYBIL_REPUTATION_INSUFFICIENT \<equiv> DenyReason ''sybil_reputation_insufficient''"
abbreviation SYBIL_ATTESTATION_PROOF_MALFORMED :: deny_reason where "SYBIL_ATTESTATION_PROOF_MALFORMED \<equiv> DenyReason ''sybil_attestation_proof_malformed''"
abbreviation SYBIL_ATTESTATION_BURDEN_INSUFFICIENT :: deny_reason where "SYBIL_ATTESTATION_BURDEN_INSUFFICIENT \<equiv> DenyReason ''sybil_attestation_burden_insufficient''"

text \<open>Discovery propagation (Phase 3 Track A A3)\<close>

abbreviation DISCOVERY_REWOUND :: deny_reason where "DISCOVERY_REWOUND \<equiv> DenyReason ''discovery_rewound''"
abbreviation DISCOVERY_RATE_LIMITED :: deny_reason where "DISCOVERY_RATE_LIMITED \<equiv> DenyReason ''discovery_rate_limited''"

text \<open>Capacity budgets (Phase 3 Track B B1/B2)\<close>

abbreviation BUDGET_POOL_UNKNOWN :: deny_reason where "BUDGET_POOL_UNKNOWN \<equiv> DenyReason ''budget_pool_unknown''"
abbreviation BUDGET_CEILING_EXCEEDED :: deny_reason where "BUDGET_CEILING_EXCEEDED \<equiv> DenyReason ''budget_ceiling_exceeded''"
abbreviation BUDGET_FLOOR_GUARD :: deny_reason where "BUDGET_FLOOR_GUARD \<equiv> DenyReason ''budget_floor_guard''"
abbreviation BUDGET_TENANT_BURST_EXCEEDED :: deny_reason where "BUDGET_TENANT_BURST_EXCEEDED \<equiv> DenyReason ''budget_tenant_burst_exceeded''"

text \<open>Safe-mode engine (Phase 3 Track C C1/C2/C3)\<close>

abbreviation SAFE_MODE_DOWNGRADE_UNAUTHORIZED :: deny_reason where "SAFE_MODE_DOWNGRADE_UNAUTHORIZED \<equiv> DenyReason ''safe_mode_downgrade_unauthorized''"
abbreviation SAFE_MODE_DOWNGRADE_TRIGGERS_ACTIVE :: deny_reason where "SAFE_MODE_DOWNGRADE_TRIGGERS_ACTIVE \<equiv> DenyReason ''safe_mode_downgrade_triggers_active''"
abbreviation SAFE_MODE_TRANSITION_INVALID :: deny_reason where "SAFE_MODE_TRANSITION_INVALID \<equiv> DenyReason ''safe_mode_transition_invalid''"

text \<open>Key rotation (Phase 3 Track D D1)\<close>

abbreviation ROTATION_KID_NOT_ACCEPTED :: deny_reason where "ROTATION_KID_NOT_ACCEPTED \<equiv> DenyReason ''rotation_kid_not_accepted''"
abbreviation ROTATION_PLAN_CONFLICT :: deny_reason where "ROTATION_PLAN_CONFLICT \<equiv> DenyReason ''rotation_plan_conflict''"

text \<open>Recovery / re-admission (Phase 3 Track D D3)\<close>

abbreviation READMISSION_QUARANTINE_UNKNOWN :: deny_reason where "READMISSION_QUARANTINE_UNKNOWN \<equiv> DenyReason ''readmission_quarantine_unknown''"
abbreviation READMISSION_ATTESTATION_MALFORMED :: deny_reason where "READMISSION_ATTESTATION_MALFORMED \<equiv> DenyReason ''readmission_attestation_malformed''"
abbreviation READMISSION_ATTESTATION_MISMATCH :: deny_reason where "READMISSION_ATTESTATION_MISMATCH \<equiv> DenyReason ''readmission_attestation_mismatch''"
abbreviation READMISSION_ATTESTATION_EXPIRED :: deny_reason where "READMISSION_ATTESTATION_EXPIRED \<equiv> DenyReason ''readmission_attestation_expired''"
abbreviation READMISSION_ATTESTATION_SIGNATURE_INVALID :: deny_reason where "READMISSION_ATTESTATION_SIGNATURE_INVALID \<equiv> DenyReason ''readmission_attestation_signature_invalid''"
abbreviation READMISSION_ATTESTATION_UNKNOWN_ISSUER :: deny_reason where "READMISSION_ATTESTATION_UNKNOWN_ISSUER \<equiv> DenyReason ''readmission_attestation_unknown_issuer''"
abbreviation READMISSION_KID_REUSE :: deny_reason where "READMISSION_KID_REUSE \<equiv> DenyReason ''readmission_kid_reuse''"

text \<open>Signed safe-mode artifacts (Phase 3 Track C D3.3)\<close>

abbreviation SAFE_MODE_ARTIFACT_MALFORMED :: deny_reason where "SAFE_MODE_ARTIFACT_MALFORMED \<equiv> DenyReason ''safe_mode_artifact_malformed''"
abbreviation SAFE_MODE_ARTIFACT_SIGNATURE_INVALID :: deny_reason where "SAFE_MODE_ARTIFACT_SIGNATURE_INVALID \<equiv> DenyReason ''safe_mode_artifact_signature_invalid''"
abbreviation SAFE_MODE_ARTIFACT_UNKNOWN_ISSUER :: deny_reason where "SAFE_MODE_ARTIFACT_UNKNOWN_ISSUER \<equiv> DenyReason ''safe_mode_artifact_unknown_issuer''"
abbreviation SAFE_MODE_ARTIFACT_EXPIRED :: deny_reason where "SAFE_MODE_ARTIFACT_EXPIRED \<equiv> DenyReason ''safe_mode_artifact_expired''"

text \<open>Workload identity / SVID (Phase 5 Track A)\<close>

abbreviation SVID_MALFORMED :: deny_reason where "SVID_MALFORMED \<equiv> DenyReason ''svid_malformed''"
abbreviation SVID_SIGNATURE_INVALID :: deny_reason where "SVID_SIGNATURE_INVALID \<equiv> DenyReason ''svid_signature_invalid''"
abbreviation SVID_EXPIRED :: deny_reason where "SVID_EXPIRED \<equiv> DenyReason ''svid_expired''"
abbreviation SVID_NOT_YET_VALID :: deny_reason where "SVID_NOT_YET_VALID \<equiv> DenyReason ''svid_not_yet_valid''"
abbreviation SVID_SPIFFE_MISMATCH :: deny_reason where "SVID_SPIFFE_MISMATCH \<equiv> DenyReason ''svid_spiffe_mismatch''"
abbreviation SVID_UNTRUSTED_ROOT :: deny_reason where "SVID_UNTRUSTED_ROOT \<equiv> DenyReason ''svid_untrusted_root''"
abbreviation SVID_KEY_USAGE_INVALID :: deny_reason where "SVID_KEY_USAGE_INVALID \<equiv> DenyReason ''svid_key_usage_invalid''"

text \<open>Peer admission (Phase 5 Track A)\<close>

abbreviation ADMISSION_PEER_NOT_ALLOWED :: deny_reason where "ADMISSION_PEER_NOT_ALLOWED \<equiv> DenyReason ''admission_peer_not_allowed''"
abbreviation ADMISSION_TIER_MISMATCH :: deny_reason where "ADMISSION_TIER_MISMATCH \<equiv> DenyReason ''admission_tier_mismatch''"
abbreviation ADMISSION_CERT_PIN_MISMATCH :: deny_reason where "ADMISSION_CERT_PIN_MISMATCH \<equiv> DenyReason ''admission_cert_pin_mismatch''"

text \<open>Image attestation (Phase 5 Track D)\<close>

abbreviation IMAGE_SIG_MALFORMED :: deny_reason where "IMAGE_SIG_MALFORMED \<equiv> DenyReason ''image_sig_malformed''"
abbreviation IMAGE_SIG_INVALID :: deny_reason where "IMAGE_SIG_INVALID \<equiv> DenyReason ''image_sig_invalid''"
abbreviation IMAGE_SIG_DIGEST_MISMATCH :: deny_reason where "IMAGE_SIG_DIGEST_MISMATCH \<equiv> DenyReason ''image_sig_digest_mismatch''"
abbreviation IMAGE_SIG_UNKNOWN_SIGNER :: deny_reason where "IMAGE_SIG_UNKNOWN_SIGNER \<equiv> DenyReason ''image_sig_unknown_signer''"

definition deny_members_kernel :: "deny_reason list" where
  "deny_members_kernel =
    [MISSING_REQUIRED_FIELD, UNSUPPORTED_VERSION, INVALID_MESSAGE_ID, INVALID_SENDER_SPIFFE_ID,
     INVALID_RECIPIENT_SPIFFE_ID, INVALID_NONCE, INVALID_KID, INVALID_PAYLOAD_DIGEST,
     DISALLOWED_ALGORITHM, ENVELOPE_NOT_OBJECT, ENVELOPE_TOO_DEEP, ENVELOPE_NOT_CANONICALIZABLE,
     VERIFIER_INTERNAL_ERROR, AUDIT_SINK_FAILURE,
    INVALID_TIMESTAMP, ISSUED_AT_IN_FUTURE, ENVELOPE_EXPIRED, INVALID_VALIDITY_WINDOW,
     ENVELOPE_TTL_EXCEEDED,
    PAYLOAD_DIGEST_MISMATCH, MISSING_SIGNATURE, SIGNATURE_ENCODING_INVALID, INVALID_PUBLIC_KEY,
     SIGNATURE_INVALID,
     UNKNOWN_KID, KEY_EXPIRED, UNKNOWN_ISSUER_KEY, ISSUER_KEY_EXPIRED,
    CAP_MISSING, CAP_OVERSIZED, CAP_MALFORMED, CAP_WRONG_ALG, CAP_WRONG_TYP, CAP_INVALID_KID,
     CAP_MISSING_CLAIM, CAP_INVALID_CLAIM,
    CAP_SUB_MISMATCH, CAP_AUD_MISMATCH, CAP_SCOPE_MISMATCH, CAP_DIGEST_MISMATCH,
     CAP_RESOURCE_MISMATCH,
    CAP_IAT_AFTER_NBF, CAP_NOT_YET_VALID, CAP_EXPIRED, CAP_INVALID_VALIDITY_WINDOW,
     CAP_TTL_EXCEEDED, CAP_SIGNATURE_INVALID, CAP_REVOKED,
     REPLAY_DETECTED, RATE_LIMITED,
     DISCOVERY_MALFORMED, DISCOVERY_EXPIRED, DISCOVERY_SIGNATURE_INVALID, DISCOVERY_UNKNOWN_ISSUER,
     ADMISSION_WORKLOAD_NOT_ALLOWED, ADMISSION_VERSION_INCOMPATIBLE]"

definition deny_members_autonomy :: "deny_reason list" where
  "deny_members_autonomy =
    [DELEGATION_MALFORMED, DELEGATION_EXPIRED, DELEGATION_SIGNATURE_INVALID,
     DELEGATION_UNKNOWN_ISSUER, DELEGATION_DEPTH_EXCEEDED, DELEGATION_PARENT_MISMATCH,
     DELEGATION_SCOPE_ESCALATION, DELEGATION_AUDIENCE_DRIFT, DELEGATION_TTL_ESCALATION,
     RETRIEVAL_CROSS_TENANT, RETRIEVAL_CLASS_EXCEEDS_RULE, RETRIEVAL_NO_RULE_MATCH,
     EGRESS_DENIED_BY_POLICY, EGRESS_RESTRICTED_NO_EXPORT, EGRESS_NO_MATRIX_ENTRY,
    REVIEW_MALFORMED, REVIEW_RECORD_MISMATCH, REVIEW_EXPIRED, REVIEW_NOT_YET_VALID,
     REVIEW_INVALID_VALIDITY_WINDOW, REVIEW_TTL_EXCEEDED, REVIEW_SIGNATURE_INVALID,
     REVIEW_UNKNOWN_ISSUER, REVIEW_REJECTED,
    TOOL_UNKNOWN, TOOL_CALLER_NOT_ALLOWED, TOOL_STEP_UP_REQUIRED, TOOL_STEP_UP_MISMATCH,
     TOOL_STEP_UP_EXPIRED, TOOL_STEP_UP_MALFORMED, TOOL_STEP_UP_SIGNATURE_INVALID,
     TOOL_STEP_UP_UNKNOWN_ISSUER,
     CHECKPOINT_CAPABILITY_EXPIRED, CHECKPOINT_CAPABILITY_REVOKED, CHECKPOINT_POLICY_EPOCH_MISMATCH,
    SESSION_MALFORMED, SESSION_EXPIRED, SESSION_NOT_YET_VALID, SESSION_INVALID_VALIDITY_WINDOW,
     SESSION_TTL_EXCEEDED, SESSION_SIGNATURE_INVALID, SESSION_UNKNOWN_ISSUER,
     SESSION_RESUME_SEQUENCE_INVALID, SESSION_RESUME_PARENT_MISMATCH,
     SESSION_RESUME_SESSION_MISMATCH, SESSION_RESUME_SCOPE_DRIFT, SESSION_RESUME_AUDIENCE_DRIFT,
     SESSION_RESUME_SUBJECT_DRIFT, SESSION_RESUME_LIFETIME_EXCEEDED]"

definition deny_members_resilience :: "deny_reason list" where
  "deny_members_resilience =
    [SYBIL_ISSUER_QUOTA_EXCEEDED, SYBIL_TENANT_QUOTA_EXCEEDED, SYBIL_REPUTATION_INSUFFICIENT,
     SYBIL_ATTESTATION_PROOF_MALFORMED, SYBIL_ATTESTATION_BURDEN_INSUFFICIENT,
     DISCOVERY_REWOUND, DISCOVERY_RATE_LIMITED,
     BUDGET_POOL_UNKNOWN, BUDGET_CEILING_EXCEEDED, BUDGET_FLOOR_GUARD, BUDGET_TENANT_BURST_EXCEEDED,
    SAFE_MODE_DOWNGRADE_UNAUTHORIZED, SAFE_MODE_DOWNGRADE_TRIGGERS_ACTIVE,
     SAFE_MODE_TRANSITION_INVALID,
     ROTATION_KID_NOT_ACCEPTED, ROTATION_PLAN_CONFLICT,
    READMISSION_QUARANTINE_UNKNOWN, READMISSION_ATTESTATION_MALFORMED,
     READMISSION_ATTESTATION_MISMATCH, READMISSION_ATTESTATION_EXPIRED,
     READMISSION_ATTESTATION_SIGNATURE_INVALID, READMISSION_ATTESTATION_UNKNOWN_ISSUER,
     READMISSION_KID_REUSE,
    SAFE_MODE_ARTIFACT_MALFORMED, SAFE_MODE_ARTIFACT_SIGNATURE_INVALID,
     SAFE_MODE_ARTIFACT_UNKNOWN_ISSUER, SAFE_MODE_ARTIFACT_EXPIRED,
    SVID_MALFORMED, SVID_SIGNATURE_INVALID, SVID_EXPIRED, SVID_NOT_YET_VALID,
     SVID_SPIFFE_MISMATCH, SVID_UNTRUSTED_ROOT, SVID_KEY_USAGE_INVALID,
     ADMISSION_PEER_NOT_ALLOWED, ADMISSION_TIER_MISMATCH, ADMISSION_CERT_PIN_MISMATCH,
     IMAGE_SIG_MALFORMED, IMAGE_SIG_INVALID, IMAGE_SIG_DIGEST_MISMATCH, IMAGE_SIG_UNKNOWN_SIGNER]"

definition deny_members :: "deny_reason list" where
  "deny_members = deny_members_kernel @ deny_members_autonomy @ deny_members_resilience"

text \<open>The constructor call \<open>DenyReason(v)\<close>: a member, or \<open>ValueError\<close> (\<open>None\<close>).\<close>

definition deny_of_value :: "string \<Rightarrow> deny_reason option" where
  "deny_of_value v = (if DenyReason v \<in> set deny_members then Some (DenyReason v) else None)"

lemmas deny_member_defs =
  deny_members_def deny_members_kernel_def deny_members_autonomy_def deny_members_resilience_def

lemma deny_of_value_member: "r \<in> set deny_members \<Longrightarrow> deny_of_value (deny_value r) = Some r"
  by (simp add: deny_of_value_def)

lemma ok_not_member: "deny_of_value ''ok'' = None"
  by code_simp


section \<open>Exceptions\<close>

text \<open>
  The exception classes raised or caught by name. All classes but \<open>DiscoveryRecordError\<close>,
  \<open>PolicyBundleError\<close>, \<open>TransportError\<close>, \<open>RepoError\<close> and the standard ones are subclasses of
  \<open>EnvelopeVerificationError\<close>.
\<close>

datatype exn_class =
    EnvelopeVerificationError
  | DelegationError
  | SessionError
  | StepUpError
  | ToolPolicyDenied
  | RateLimitExceededError
  | SignedSafeModeError
  | ReAdmissionError
  | ReviewError
  | ImageSignatureError
  | DiscoveryRecordError
  | PolicyBundleError
  | TransportError
  | RepoError string
  | StdError string

text \<open>\<open>isinstance(exc, EnvelopeVerificationError)\<close>\<close>

fun is_envelope_error :: "exn_class \<Rightarrow> bool" where
  "is_envelope_error DiscoveryRecordError = False"
| "is_envelope_error PolicyBundleError = False"
| "is_envelope_error TransportError = False"
| "is_envelope_error (RepoError n) = False"
| "is_envelope_error (StdError n) = False"
| "is_envelope_error _ = True"

record exn =
  exn_cls :: exn_class
  exn_reason :: "deny_reason option"

text \<open>\<open>EnvelopeVerificationError(message, reason=r)\<close> and the property \<open>reason_code\<close>.\<close>

definition eve :: "deny_reason \<Rightarrow> exn" where
  "eve r = \<lparr>exn_cls = EnvelopeVerificationError, exn_reason = Some r\<rparr>"

definition raise_as :: "exn_class \<Rightarrow> deny_reason \<Rightarrow> exn" where
  "raise_as c r = \<lparr>exn_cls = c, exn_reason = Some r\<rparr>"

definition std_error :: "string \<Rightarrow> exn" where
  "std_error n = \<lparr>exn_cls = StdError n, exn_reason = None\<rparr>"

text \<open>The \<open>ValueError\<close> subclasses of single modules, which carry no reason.\<close>

definition repo_error :: "string \<Rightarrow> exn" where
  "repo_error n = \<lparr>exn_cls = RepoError n, exn_reason = None\<rparr>"

definition reason_code :: "exn \<Rightarrow> string" where
  "reason_code e = (case exn_reason e of Some r \<Rightarrow> deny_value r | None \<Rightarrow> [])"

definition is_eve :: "exn \<Rightarrow> bool" where
  "is_eve e \<longleftrightarrow> is_envelope_error (exn_cls e)"

lemma is_eve_simps [simp]:
  "is_eve (eve r)"
  "is_eve (raise_as c r) = is_envelope_error c"
  "\<not> is_eve (std_error n)" "\<not> is_eve (repo_error n)"
  by (simp_all add: is_eve_def eve_def raise_as_def std_error_def repo_error_def)

lemma exn_cls_simps [simp]:
  "exn_cls (eve r) = EnvelopeVerificationError" "exn_cls (raise_as c r) = c"
  "exn_cls (std_error n) = StdError n" "exn_cls (repo_error n) = RepoError n"
  by (simp_all add: eve_def raise_as_def std_error_def repo_error_def)

lemma reason_code_simps [simp]:
  "reason_code (eve r) = deny_value r"
  "reason_code (raise_as c r) = deny_value r"
  "reason_code (std_error n) = []"
  by (simp_all add: reason_code_def eve_def raise_as_def std_error_def)

lemma exn_inject [simp]:
  "eve r = eve r' \<longleftrightarrow> r = r'"
  "raise_as c r = raise_as c' r' \<longleftrightarrow> c = c' \<and> r = r'"
  by (simp_all add: eve_def raise_as_def)

lemma exn_distinct [simp]: "eve r \<noteq> std_error n" "raise_as c r \<noteq> std_error n"
  by (simp_all add: eve_def raise_as_def std_error_def)

text \<open>\<open>datetime.fromtimestamp\<close> and \<open>timedelta(seconds=...)\<close>, raising outside their range.\<close>

definition fromtimestamp :: "int \<Rightarrow> exn + datetime" where
  "fromtimestamp n =
     (if timestamp_ok n then Inr (seconds n) else Inl (std_error ''ValueError''))"

definition timedelta_seconds :: "int \<Rightarrow> exn + timedelta" where
  "timedelta_seconds n =
     (if timedelta_ok n then Inr (seconds n) else Inl (std_error ''OverflowError''))"

lemma fromtimestamp_Inr: "fromtimestamp n = Inr t \<longleftrightarrow> timestamp_ok n \<and> t = seconds n"
  by (auto simp: fromtimestamp_def)

lemma fromtimestamp_Inl:
  "fromtimestamp n = Inl e \<longleftrightarrow> \<not> timestamp_ok n \<and> e = std_error ''ValueError''"
  by (auto simp: fromtimestamp_def)

lemma timedelta_seconds_Inr: "timedelta_seconds n = Inr t \<longleftrightarrow> timedelta_ok n \<and> t = seconds n"
  by (auto simp: timedelta_seconds_def)

lemma timedelta_ok_timestamps:
  "timestamp_ok m \<Longrightarrow> timestamp_ok n \<Longrightarrow> timedelta_ok (m - n)"
  unfolding timestamp_ok_def timedelta_ok_def by linarith

end
