(* ===== verification/Platform.thy ===== *)
theory Platform
  imports Deny_Reason
begin

text \<open>
  What the components use of third-party and native code, gathered in the record \<open>platform\<close>
  that every operation using it takes as an argument, and the primitives of
  \<open>verify_envelope.py\<close> built directly on it: timestamps, base64url, canonical JSON, keys and
  signatures. \<open>jcs.canonicalize\<close>, \<open>hashlib.sha256\<close>, the PEM loader and the Ed25519 check of
  \<open>cryptography\<close>, the JSON decoder and the ISO 8601 reader and printer of the C library are
  fields of the record; base64 decoding, UTF-8 lengths, time zone conversion and \<open>str.split\<close>
  are definitions.
\<close>

section \<open>The platform\<close>

datatype public_key = Ed25519Key string | OtherKey

text \<open>The value \<open>datetime.fromisoformat\<close> returns: local time, and the UTC offset if there is one.\<close>

datatype iso_time = Naive int | Aware int int

record platform =
  p_canon :: "pyval \<Rightarrow> exn + string"
  p_sha256 :: "string \<Rightarrow> string"
  p_load_pem :: "string \<Rightarrow> exn + public_key"
  p_verify :: "string \<Rightarrow> string \<Rightarrow> string \<Rightarrow> bool"
  p_json_loads :: "string \<Rightarrow> exn + pyval"
  p_fromisoformat :: "string \<Rightarrow> iso_time option"
  p_isoformat :: "datetime \<Rightarrow> string"

text \<open>\<open>except (ValueError, TypeError)\<close>: the two classes and the subclasses of \<open>ValueError\<close> that
  the standard library raises.\<close>

definition value_or_type_error :: "exn \<Rightarrow> bool" where
  "value_or_type_error e \<longleftrightarrow>
     (case exn_cls e of
        StdError n \<Rightarrow> n \<in> {''ValueError'', ''TypeError'', ''UnicodeDecodeError'',
                            ''UnicodeEncodeError'', ''JSONDecodeError'', ''binascii.Error''}
      | _ \<Rightarrow> True)"

text \<open>\<open>d[k]\<close>\<close>

definition getitem :: "(string \<times> pyval) list \<Rightarrow> string \<Rightarrow> exn + pyval" where
  "getitem d k = (case map_of d k of None \<Rightarrow> Inl (std_error ''KeyError'') | Some v \<Rightarrow> Inr v)"

lemma getitem_Inr [simp]: "getitem d k = Inr v \<longleftrightarrow> map_of d k = Some v"
  by (auto simp: getitem_def split: option.splits)

lemma getitem_has_key [simp]: "has_key d k \<Longrightarrow> getitem d k = Inr (item d k)"
  by (auto simp: getitem_def has_key_def item_def)

text \<open>A guard that raises.\<close>

definition guard :: "bool \<Rightarrow> exn \<Rightarrow> exn + unit" where
  "guard b e = (if b then Inr () else Inl e)"

lemma guard_Inr [simp]: "guard b e = Inr u \<longleftrightarrow> b"
  by (simp add: guard_def)

lemma guard_Inl [simp]: "guard b e = Inl e' \<longleftrightarrow> \<not> b \<and> e' = e"
  by (auto simp: guard_def)

text \<open>A sequence of guards, each raising its own exception; the first failing one decides.\<close>

fun guards :: "(bool \<times> exn) list \<Rightarrow> exn + unit" where
  "guards [] = Inr ()"
| "guards ((b, e) # gs) = (if b then guards gs else Inl e)"

lemma guards_Inr [simp]: "guards gs = Inr u \<longleftrightarrow> (\<forall>g\<in>set gs. fst g)"
  by (induction gs rule: guards.induct) auto

declare guards.simps(2) [simp del]

lemma guards_Inl: "guards gs = Inl e \<Longrightarrow> \<exists>b. (b, e) \<in> set gs"
  by (induction gs rule: guards.induct) (auto simp: guards.simps(2) split: if_splits)

lemma guards_cls: "guards gs = Inl e \<Longrightarrow> \<forall>g\<in>set gs. exn_cls (snd g) = c \<Longrightarrow> exn_cls e = c"
  by (auto dest!: guards_Inl)


section \<open>Timestamps\<close>

text \<open>\<open>dt.astimezone(UTC)\<close> leaves the representable years for some local times.\<close>

definition datetime_min :: datetime where
  "datetime_min = seconds (-62135596800)"

definition datetime_max :: datetime where
  "datetime_max = seconds 253402300800 - 1"

definition astimezone_utc :: "int \<Rightarrow> int \<Rightarrow> exn + datetime" where
  "astimezone_utc local offset =
     (let t = local - offset in
      if datetime_min \<le> t \<and> t \<le> datetime_max then Inr t else Inl (std_error ''OverflowError''))"

fun replace_Z :: "string \<Rightarrow> string" where
  "replace_Z [] = []"
| "replace_Z (c # cs) = (if c = CHR ''Z'' then ''+00:00'' else [c]) @ replace_Z cs"

definition parse_rfc3339 :: "platform \<Rightarrow> pyval \<Rightarrow> exn + datetime" where
  "parse_rfc3339 P value =
     (if \<not> is_str value then Inl (eve INVALID_TIMESTAMP)
      else case p_fromisoformat P (replace_Z (str_of value)) of
        None \<Rightarrow> Inl (eve INVALID_TIMESTAMP)
      | Some (Naive t) \<Rightarrow> Inl (eve INVALID_TIMESTAMP)
      | Some (Aware t off) \<Rightarrow> astimezone_utc t off)"

lemma parse_rfc3339_range:
  assumes "parse_rfc3339 P v = Inr t"
  shows "datetime_min \<le> t" "t \<le> datetime_max"
  using assms
  by (auto simp: parse_rfc3339_def astimezone_utc_def Let_def
      split: if_splits option.splits iso_time.splits)


section \<open>Base64url\<close>

text \<open>\<open>base64.urlsafe_b64decode\<close>: the input alphabet with \<open>-\<close> and \<open>_\<close> translated to \<open>+\<close> and
  \<open>/\<close>, then \<open>binascii.a2b_base64\<close> in its non-strict mode, which skips characters outside the
  alphabet and stops at a completed padding.\<close>

definition b64_value :: "char \<Rightarrow> nat option" where
  "b64_value c =
     (let n = of_char c in
      if 65 \<le> n \<and> n \<le> 90 then Some (n - 65)
      else if 97 \<le> n \<and> n \<le> 122 then Some (n - 71)
      else if 48 \<le> n \<and> n \<le> 57 then Some (n + 4)
      else if n = 43 \<or> n = 45 then Some 62
      else if n = 47 \<or> n = 95 then Some 63
      else None)"

fun a2b_base64 :: "nat \<Rightarrow> nat \<Rightarrow> nat \<Rightarrow> string \<Rightarrow> string option" where
  "a2b_base64 quad left pads [] = (if quad = 0 then Some [] else None)"
| "a2b_base64 quad left pads (c # cs) =
     (if c = CHR ''='' then
        (if 2 \<le> quad then
           (if 4 \<le> quad + Suc pads then Some [] else a2b_base64 quad left (Suc pads) cs)
         else a2b_base64 quad left pads cs)
      else case b64_value c of
        None \<Rightarrow> a2b_base64 quad left pads cs
      | Some v \<Rightarrow>
         (if quad = 0 then a2b_base64 1 v 0 cs
          else if quad = 1 then
            map_option ((#) (char_of (left * 4 + v div 16))) (a2b_base64 2 (v mod 16) 0 cs)
          else if quad = 2 then
            map_option ((#) (char_of (left * 16 + v div 4))) (a2b_base64 3 (v mod 4) 0 cs)
          else map_option ((#) (char_of (left * 64 + v))) (a2b_base64 0 0 0 cs)))"

definition is_ascii :: "string \<Rightarrow> bool" where
  "is_ascii s \<longleftrightarrow> (\<forall>c\<in>set s. (of_char c :: nat) < 128)"

definition b64_pad :: "string \<Rightarrow> string" where
  "b64_pad v = v @ replicate ((4 - length v mod 4) mod 4) CHR ''=''"

definition decode_base64url :: "pyval \<Rightarrow> exn + string" where
  "decode_base64url value =
     (if \<not> is_str value \<or> str_of value = [] then Inl (eve SIGNATURE_ENCODING_INVALID)
      else let padded = b64_pad (str_of value) in
        if \<not> is_ascii padded then Inl (eve SIGNATURE_ENCODING_INVALID)
        else case a2b_base64 0 0 0 padded of
          None \<Rightarrow> Inl (eve SIGNATURE_ENCODING_INVALID)
        | Some bs \<Rightarrow> Inr bs)"

lemma decode_base64url_Inl:
  "decode_base64url v = Inl e \<Longrightarrow> e = eve SIGNATURE_ENCODING_INVALID"
  by (auto simp: decode_base64url_def Let_def split: if_splits option.splits)

text \<open>\<open>base64.urlsafe_b64encode(raw).rstrip(b"=")\<close>, what the issuing side of the repository writes.\<close>

definition b64_char :: "nat \<Rightarrow> char" where
  "b64_char v =
     char_of (if v < 26 then v + 65 else if v < 52 then v + 71 else if v < 62 then v - 4
              else if v = 62 then 45 else 95 :: nat)"

fun b64url :: "string \<Rightarrow> string" where
  "b64url [] = []"
| "b64url [a] =
     [b64_char (of_char a div 4), b64_char (of_char a mod 4 * 16)]"
| "b64url [a, b] =
     [b64_char (of_char a div 4), b64_char (of_char a mod 4 * 16 + of_char b div 16),
      b64_char (of_char b mod 16 * 4)]"
| "b64url (a # b # c # cs) =
     b64_char (of_char a div 4) # b64_char (of_char a mod 4 * 16 + of_char b div 16) #
     b64_char (of_char b mod 16 * 4 + of_char c div 64) # b64_char (of_char c mod 64) # b64url cs"

lemma b64_value_char: "v < 64 \<Longrightarrow> b64_value (b64_char v) = Some v"
  by (auto simp: b64_value_def b64_char_def Let_def of_char_of)

lemma b64_char_not_pad: "v < 64 \<Longrightarrow> b64_char v \<noteq> CHR ''=''"
  using b64_value_char[of v] by (auto simp: b64_value_def Let_def)

lemma of_char_256: "(of_char (c :: char) :: nat) < 256"
  using nat_of_char_less_256 [of c] by simp

lemma b64_char_ascii: "v < 64 \<Longrightarrow> (of_char (b64_char v) :: nat) < 128"
  by (auto simp: b64_char_def of_char_of)

lemma a2b_char:
  assumes "v < 64"
  shows "a2b_base64 q l p (b64_char v # cs) =
     (if q = 0 then a2b_base64 1 v 0 cs
      else if q = 1 then map_option ((#) (char_of (l * 4 + v div 16))) (a2b_base64 2 (v mod 16) 0 cs)
      else if q = 2 then map_option ((#) (char_of (l * 16 + v div 4))) (a2b_base64 3 (v mod 4) 0 cs)
      else map_option ((#) (char_of (l * 64 + v))) (a2b_base64 0 0 0 cs))"
  using b64_value_char[OF assms] b64_char_not_pad[OF assms] by simp

lemma a2b_pad:
  "a2b_base64 q l p (CHR ''='' # cs) =
     (if 2 \<le> q \<and> 4 \<le> q + Suc p then Some []
      else a2b_base64 q l (if 2 \<le> q then Suc p else p) cs)"
  by simp

lemma a2b_b64url:
  "a2b_base64 0 0 0 (b64url s @ replicate ((4 - length (b64url s) mod 4) mod 4) CHR ''='') = Some s"
proof (induction s rule: b64url.induct)
  case (2 a)
  have "(of_char a :: nat) div 4 < 64" using of_char_256[of a] by linarith
  moreover have "(of_char a :: nat) mod 4 * 16 < 64" by linarith
  ultimately show ?case by (simp add: a2b_char a2b_pad numeral_2_eq_2 del: a2b_base64.simps(2))
next
  case (3 a b)
  have "(of_char a :: nat) div 4 < 64" "(of_char b :: nat) div 16 < 16"
    using of_char_256[of a] of_char_256[of b] by linarith+
  moreover have "(of_char a :: nat) mod 4 * 16 + of_char b div 16 < 64" using calculation by linarith
  moreover have "(of_char b :: nat) mod 16 * 4 < 64" by linarith
  ultimately show ?case by (simp add: a2b_char a2b_pad numeral_2_eq_2 del: a2b_base64.simps(2))
next
  case (4 a b c cs)
  have "(of_char a :: nat) div 4 < 64" "(of_char b :: nat) div 16 < 16" "(of_char c :: nat) div 64 < 4"
    using of_char_256[of a] of_char_256[of b] of_char_256[of c] by linarith+
  moreover have "(of_char a :: nat) mod 4 * 16 + of_char b div 16 < 64"
    "(of_char b :: nat) mod 16 * 4 + of_char c div 64 < 64" using calculation by linarith+
  moreover have "(of_char c :: nat) mod 64 < 64" by linarith
  ultimately show ?case using "4.IH" by (simp add: a2b_char del: a2b_base64.simps(2))
qed simp

lemma b64url_ascii: "is_ascii (b64url s)"
proof -
  have small: "(of_char (c :: char) :: nat) div 4 < 64" "(of_char c :: nat) div 16 < 16"
    "(of_char c :: nat) div 64 < 4" for c
    using of_char_256[of c] by linarith+
  have sums: "(of_char (a :: char) :: nat) mod 4 * 16 + of_char (b :: char) div 16 < 64"
    "(of_char b :: nat) mod 16 * 4 + of_char (c :: char) div 64 < 64"
    "(of_char a :: nat) mod 4 * 16 < 64" "(of_char b :: nat) mod 16 * 4 < 64"
    "(of_char c :: nat) mod 64 < 64" for a b c
    using small(2)[of b] small(3)[of c] by linarith+
  show ?thesis
    by (induction s rule: b64url.induct) (simp_all add: is_ascii_def b64_char_ascii small sums)
qed

text \<open>Decoding with \<open>decode_base64url\<close> gives back the bytes that were encoded.\<close>

lemma b64url_nonempty: "s \<noteq> [] \<Longrightarrow> b64url s \<noteq> []"
  by (cases s rule: b64url.cases) auto

lemma base64url_roundtrip:
  assumes "s \<noteq> []"
  shows "decode_base64url (PStr (b64url s)) = Inr s"
proof -
  have "b64url s \<noteq> []" using assms by (rule b64url_nonempty)
  moreover have "is_ascii (b64_pad (b64url s))"
    using b64url_ascii[of s] by (auto simp: is_ascii_def b64_pad_def)
  ultimately show ?thesis
    using a2b_b64url[of s] by (simp add: decode_base64url_def b64_pad_def)
qed


section \<open>Python integers\<close>

text \<open>\<open>int.from_bytes(s, "big")\<close>\<close>

definition from_bytes_big :: "string \<Rightarrow> nat" where
  "from_bytes_big s = foldl (\<lambda>n c. n * 256 + of_char c) 0 s"

text \<open>\<open>int(v)\<close>: numbers truncate toward zero; a string is stripped of white space, may have a sign,
  and has decimal digits with single underscores between them, at most 4300 of them.\<close>

definition is_space :: "char \<Rightarrow> bool" where
  "is_space c \<longleftrightarrow> (of_char c :: nat) \<in> {9, 10, 11, 12, 13, 28, 29, 30, 31, 32, 133, 160}"

definition strip_space :: "string \<Rightarrow> string" where
  "strip_space s = rev (dropWhile is_space (rev (dropWhile is_space s)))"

fun digit_groups :: "string \<Rightarrow> nat list option" where
  "digit_groups [] = None"
| "digit_groups [c] = (if is_digit c then Some [of_char c - 48] else None)"
| "digit_groups (c # d # cs) =
     (if \<not> is_digit c then None
      else map_option ((#) (of_char c - 48)) (digit_groups (if d = CHR ''_'' then cs else d # cs)))"

definition parse_int :: "string \<Rightarrow> int option" where
  "parse_int s =
     (let t = strip_space s;
          neg = (t \<noteq> [] \<and> hd t = CHR ''-'');
          body = (if t \<noteq> [] \<and> hd t \<in> {CHR ''-'', CHR ''+''} then tl t else t)
      in case digit_groups body of
           None \<Rightarrow> None
         | Some ds \<Rightarrow>
             if length ds > 4300 then None
             else let n = foldl (\<lambda>n d. 10 * n + int d) 0 ds in Some (if neg then - n else n))"

fun py_int :: "pyval \<Rightarrow> exn + int" where
  "py_int (PInt n) = Inr n"
| "py_int (PBool b) = Inr (if b then 1 else 0)"
| "py_int (PFloat (Finite q)) = Inr (if 0 \<le> q then floor q else - floor (- q))"
| "py_int (PFloat NaN) = Inl (std_error ''ValueError'')"
| "py_int (PFloat x) = Inl (std_error ''OverflowError'')"
| "py_int (PStr s) = (case parse_int s of None \<Rightarrow> Inl (std_error ''ValueError'') | Some n \<Rightarrow> Inr n)"
| "py_int _ = Inl (std_error ''TypeError'')"


section \<open>Sequences of requests\<close>

text \<open>The requests \<open>rs\<close> in order; those that raise leave the store as it is. The result is what
  \<open>target\<close> reads off those that returned, and the store.\<close>

fun submit_all :: "('r \<Rightarrow> 's \<Rightarrow> (exn + unit) \<times> 's) \<Rightarrow> ('r \<Rightarrow> 'a) \<Rightarrow> 'r list \<Rightarrow> 's \<Rightarrow> 'a list \<times> 's" where
  "submit_all submit target [] s = ([], s)"
| "submit_all submit target (r # rs) s =
     (case submit r s of
        (Inl e, s') \<Rightarrow> submit_all submit target rs s'
      | (Inr _, s') \<Rightarrow> (case submit_all submit target rs s' of (js, s'') \<Rightarrow> (target r # js, s'')))"

end
