(* ===== verification/CapabilityToken.thy ===== *)
theory CapabilityToken
  imports Platform
begin

text \<open>
  Capability tokens (\<open>capability_token.py\<close>): the JWT parser, the header and claim checks and
  \<open>verify_capability_token\<close>, with the revocation lists of \<open>revocation_list.py\<close> it consults
  and the trust-store lookup of \<open>trust_store.py\<close>.
\<close>

section \<open>Keys and signatures\<close>

text \<open>\<open>load_ed25519_public_key\<close>, \<open>_verify_ed25519_signature\<close>\<close>

definition load_ed25519_public_key :: "platform \<Rightarrow> string \<Rightarrow> exn + string" where
  "load_ed25519_public_key P pem =
     (case p_load_pem P pem of
        Inl e \<Rightarrow> if value_or_type_error e then Inl (eve INVALID_PUBLIC_KEY) else Inl e
      | Inr OtherKey \<Rightarrow> Inl (eve INVALID_PUBLIC_KEY)
      | Inr (Ed25519Key k) \<Rightarrow> Inr k)"

definition verify_ed25519_signature ::
  "platform \<Rightarrow> string \<Rightarrow> pyval \<Rightarrow> string \<Rightarrow> exn + bool" where
  "verify_ed25519_signature P signing_input signature public_key_pem =
     bindE (decode_base64url signature) (\<lambda>sig_bytes.
     bindE (load_ed25519_public_key P public_key_pem) (\<lambda>key.
     Inr (p_verify P key sig_bytes signing_input)))"


section \<open>Trust store and revocation lists\<close>

record trusted_key =
  tk_pem :: string
  tk_not_after :: "datetime option"

text \<open>\<open>FileSystemTrustStore.__call__\<close>; \<open>wall\<close> is \<open>datetime.now(UTC)\<close>.\<close>

definition trust_store_lookup :: "(string \<rightharpoonup> trusted_key) \<Rightarrow> datetime \<Rightarrow> string \<Rightarrow> exn + string" where
  "trust_store_lookup keys wall kid =
     (case keys kid of
        None \<Rightarrow> Inl (eve UNKNOWN_KID)
      | Some entry \<Rightarrow>
          (case tk_not_after entry of
             Some t \<Rightarrow> if wall > t then Inl (eve KEY_EXPIRED) else Inr (tk_pem entry)
           | None \<Rightarrow> Inr (tk_pem entry)))"

text \<open>\<open>InMemoryRevocationList\<close>\<close>

definition revoke :: "pyval \<Rightarrow> string set \<Rightarrow> (exn + unit) \<times> string set" where
  "revoke jti jtis =
     (if str_test uuid_v7_re jti then (Inr (), insert (str_of jti) jtis)
      else (Inl (std_error ''ValueError''), jtis))"

definition is_revoked :: "string set \<Rightarrow> string \<Rightarrow> exn + bool" where
  "is_revoked jtis jti = Inr (jti \<in> jtis)"


section \<open>Parsing\<close>

definition MAX_TOKEN_BYTES :: nat where
  "MAX_TOKEN_BYTES = 4096"

definition EXPECTED_TYP :: string where
  "EXPECTED_TYP = ''wt-cap+jwt''"

definition EXPECTED_ALG :: string where
  "EXPECTED_ALG = ''EdDSA''"

definition REQUIRED_CLAIMS :: "string list" where
  "REQUIRED_CLAIMS =
     [''iss'', ''sub'', ''aud'', ''scope'', ''iat'', ''nbf'', ''exp'', ''jti'', ''cnf'']"

record capability_claims =
  cl_iss :: string
  cl_sub :: string
  cl_aud :: string
  cl_scope :: string
  cl_iat :: int
  cl_nbf :: int
  cl_exp :: int
  cl_jti :: string
  cl_envelope_digest :: string
  cl_issuer_kid :: string
  cl_resource :: "string option"

text \<open>\<open>len(token.encode("utf-8"))\<close> and \<open>token.split(".")\<close>\<close>

definition utf8_length :: "string \<Rightarrow> nat" where
  "utf8_length s = sum_list (map (\<lambda>c. if (of_char c :: nat) < 128 then 1 else 2) s)"

fun split_on :: "char \<Rightarrow> string \<Rightarrow> string list" where
  "split_on sep [] = [[]]"
| "split_on sep (c # cs) =
     (if c = sep then [] # split_on sep cs
      else case split_on sep cs of [] \<Rightarrow> [[c]] | p # ps \<Rightarrow> (c # p) # ps)"

text \<open>The \<open>except EnvelopeVerificationError\<close> around the three decodings of \<open>parse_jwt\<close>, and
  \<open>except (ValueError, TypeError)\<close> around the two JSON readings.\<close>

definition decode_segments :: "string \<Rightarrow> string \<Rightarrow> string \<Rightarrow> exn + string \<times> string \<times> string" where
  "decode_segments h p s =
     (case bindE (decode_base64url (PStr h)) (\<lambda>hb.
           bindE (decode_base64url (PStr p)) (\<lambda>pb.
           bindE (decode_base64url (PStr s)) (\<lambda>sb. Inr (hb, pb, sb)))) of
        Inl e \<Rightarrow> Inl (eve CAP_MALFORMED)
      | Inr r \<Rightarrow> Inr r)"

definition load_segments :: "platform \<Rightarrow> string \<Rightarrow> string \<Rightarrow> exn + pyval \<times> pyval" where
  "load_segments P hb pb =
     (case bindE (p_json_loads P hb) (\<lambda>header.
           bindE (p_json_loads P pb) (\<lambda>payload. Inr (header, payload))) of
        Inl e \<Rightarrow> if value_or_type_error e then Inl (eve CAP_MALFORMED) else Inl e
      | Inr r \<Rightarrow> Inr r)"

definition parse_jwt ::
  "platform \<Rightarrow> pyval \<Rightarrow>
   exn + (string \<times> pyval) list \<times> (string \<times> pyval) list \<times> string \<times> string" where
  "parse_jwt P token =
     (if \<not> is_str token \<or> str_of token = [] then Inl (eve CAP_MISSING)
      else if utf8_length (str_of token) > MAX_TOKEN_BYTES then Inl (eve CAP_OVERSIZED)
      else case split_on CHR ''.'' (str_of token) of
        [h, p, s] \<Rightarrow>
          bindE (decode_segments h p s) (\<lambda>(hb, pb, sb).
          bindE (load_segments P hb pb) (\<lambda>(header, payload).
            if \<not> is_dict header then Inl (eve CAP_MALFORMED)
            else if \<not> is_dict payload then Inl (eve CAP_MALFORMED)
            else Inr (dict_of header, dict_of payload, h @ ''.'' @ p, sb)))
      | _ \<Rightarrow> Inl (eve CAP_MALFORMED))"

definition check_header :: "(string \<times> pyval) list \<Rightarrow> exn + string" where
  "check_header header =
     (let alg = item header ''alg''; typ = item header ''typ''; kid = item header ''kid'' in
      if \<not> py_eq (PStr EXPECTED_ALG) alg then Inl (eve CAP_WRONG_ALG)
      else if \<not> py_eq (PStr EXPECTED_TYP) typ then Inl (eve CAP_WRONG_TYP)
      else if \<not> str_test kid_re kid then Inl (eve CAP_INVALID_KID)
      else Inr (str_of kid))"

definition nonempty :: "string \<Rightarrow> bool" where
  "nonempty s \<longleftrightarrow> s \<noteq> []"

definition extract_claims :: "(string \<times> pyval) list \<Rightarrow> string \<Rightarrow> exn + capability_claims" where
  "extract_claims payload issuer_kid =
     (let missing = filter (\<lambda>c. \<not> has_key payload c) REQUIRED_CLAIMS;
          iss = item payload ''iss''; sub = item payload ''sub''; aud = item payload ''aud'';
          scope = item payload ''scope''; iat = item payload ''iat''; nbf = item payload ''nbf'';
          exp = item payload ''exp''; jti = item payload ''jti''; cnf = item payload ''cnf'';
          digest = item (dict_of cnf) ''envelope_digest'';
          resource = item payload ''resource''
      in
      if missing \<noteq> [] then Inl (eve CAP_MISSING_CLAIM)
      else if \<not> str_test spiffe_id_re iss then Inl (eve CAP_INVALID_CLAIM)
      else if \<not> str_test spiffe_id_re sub then Inl (eve CAP_INVALID_CLAIM)
      else if \<not> str_test spiffe_id_re aud then Inl (eve CAP_INVALID_CLAIM)
      else if \<not> str_test nonempty scope then Inl (eve CAP_INVALID_CLAIM)
      else if \<not> is_int iat then Inl (eve CAP_INVALID_CLAIM)
      else if \<not> is_int nbf then Inl (eve CAP_INVALID_CLAIM)
      else if \<not> is_int exp then Inl (eve CAP_INVALID_CLAIM)
      else if \<not> str_test uuid_v7_re jti then Inl (eve CAP_INVALID_CLAIM)
      else if \<not> is_dict cnf \<or> \<not> has_key (dict_of cnf) ''envelope_digest''
      then Inl (eve CAP_INVALID_CLAIM)
      else if \<not> str_test hex_sha256_re digest then Inl (eve CAP_INVALID_CLAIM)
      else if has_key payload ''resource'' \<and> \<not> str_test nonempty resource
      then Inl (eve CAP_INVALID_CLAIM)
      else Inr \<lparr>cl_iss = str_of iss, cl_sub = str_of sub, cl_aud = str_of aud,
                cl_scope = str_of scope, cl_iat = int_of iat, cl_nbf = int_of nbf,
                cl_exp = int_of exp, cl_jti = str_of jti, cl_envelope_digest = str_of digest,
                cl_issuer_kid = issuer_kid,
                cl_resource =
                  (if has_key payload ''resource'' then Some (str_of resource) else None)\<rparr>)"


section \<open>Verification\<close>

text \<open>The checks of the claims against the envelope: sender, recipient, purpose, resource and
  payload digest, in this order.\<close>

definition check_binding ::
  "capability_claims \<Rightarrow> (string \<times> pyval) list \<Rightarrow> exn + unit" where
  "check_binding claims envelope =
     bindE (getitem envelope ''sender_spiffe_id'') (\<lambda>sender.
     bindE (guard (py_eq (PStr (cl_sub claims)) sender) (eve CAP_SUB_MISMATCH)) (\<lambda>_.
     bindE (getitem envelope ''recipient_spiffe_id'') (\<lambda>recipient.
     bindE (guard (py_eq (PStr (cl_aud claims)) recipient) (eve CAP_AUD_MISMATCH)) (\<lambda>_.
     bindE (getitem envelope ''purpose_of_use'') (\<lambda>purpose.
     bindE (guard (py_eq (PStr (cl_scope claims)) purpose) (eve CAP_SCOPE_MISMATCH)) (\<lambda>_.
     bindE (guard (case cl_resource claims of
                     None \<Rightarrow> True
                   | Some r \<Rightarrow> py_eq (PStr r) (item envelope ''resource''))
              (eve CAP_RESOURCE_MISMATCH)) (\<lambda>_.
     bindE (getitem envelope ''payload_digest'') (\<lambda>digest.
     guard (py_eq (PStr (cl_envelope_digest claims)) digest) (eve CAP_DIGEST_MISMATCH)))))))))"

definition check_times ::
  "capability_claims \<Rightarrow> datetime \<Rightarrow> timedelta \<Rightarrow> timedelta \<Rightarrow> exn + unit" where
  "check_times claims current max_clock_skew max_capability_ttl =
     bindE (guard (\<not> cl_iat claims > cl_nbf claims) (eve CAP_IAT_AFTER_NBF)) (\<lambda>_.
     bindE (fromtimestamp (cl_nbf claims)) (\<lambda>nbf_dt.
     bindE (fromtimestamp (cl_exp claims)) (\<lambda>exp_dt.
     bindE (guard (\<not> nbf_dt - current > max_clock_skew) (eve CAP_NOT_YET_VALID)) (\<lambda>_.
     bindE (guard (\<not> current - exp_dt > max_clock_skew) (eve CAP_EXPIRED)) (\<lambda>_.
     bindE (guard (\<not> exp_dt \<le> nbf_dt) (eve CAP_INVALID_VALIDITY_WINDOW)) (\<lambda>_.
     guard (\<not> exp_dt - nbf_dt > max_capability_ttl) (eve CAP_TTL_EXCEEDED)))))))"

definition check_revocation :: "(string \<Rightarrow> exn + bool) option \<Rightarrow> string \<Rightarrow> exn + unit" where
  "check_revocation revocation jti =
     (case revocation of
        None \<Rightarrow> Inr ()
      | Some ask \<Rightarrow> bindE (ask jti) (\<lambda>b. guard (\<not> b) (eve CAP_REVOKED)))"

definition verify_capability_token ::
  "platform \<Rightarrow> pyval \<Rightarrow> (string \<times> pyval) list \<Rightarrow> (string \<Rightarrow> string \<Rightarrow> exn + string) \<Rightarrow> datetime \<Rightarrow>
   timedelta \<Rightarrow> timedelta \<Rightarrow> (string \<Rightarrow> exn + bool) option \<Rightarrow> exn + capability_claims" where
  "verify_capability_token P token envelope issuer_lookup current max_clock_skew
       max_capability_ttl revocation =
     bindE (parse_jwt P token) (\<lambda>(header, payload, signing_input, signature_bytes).
     bindE (check_header header) (\<lambda>issuer_kid.
     bindE (extract_claims payload issuer_kid) (\<lambda>claims.
     bindE (check_binding claims envelope) (\<lambda>_.
     bindE (check_times claims current max_clock_skew max_capability_ttl) (\<lambda>_.
     bindE (issuer_lookup (cl_iss claims) issuer_kid) (\<lambda>pem.
     bindE (load_ed25519_public_key P pem) (\<lambda>issuer_key.
     bindE (guard (p_verify P issuer_key signature_bytes signing_input)
              (eve CAP_SIGNATURE_INVALID)) (\<lambda>_.
     bindE (check_revocation revocation (cl_jti claims)) (\<lambda>_.
     Inr claims)))))))))"


section \<open>Facts\<close>

lemma load_key_Inr: "load_ed25519_public_key P pem = Inr k \<longleftrightarrow> p_load_pem P pem = Inr (Ed25519Key k)"
  by (auto simp: load_ed25519_public_key_def split: sum.splits public_key.splits)

lemma check_binding_Inr:
  "check_binding cl env = Inr () \<longleftrightarrow>
     map_of env ''sender_spiffe_id'' = Some (PStr (cl_sub cl)) \<and>
     map_of env ''recipient_spiffe_id'' = Some (PStr (cl_aud cl)) \<and>
     map_of env ''purpose_of_use'' = Some (PStr (cl_scope cl)) \<and>
     map_of env ''payload_digest'' = Some (PStr (cl_envelope_digest cl)) \<and>
     (\<forall>r. cl_resource cl = Some r \<longrightarrow> item env ''resource'' = PStr r)"
  by (auto simp: check_binding_def split: option.splits)

lemma check_times_Inr:
  "check_times cl t skew ttl = Inr () \<longleftrightarrow>
     cl_iat cl \<le> cl_nbf cl \<and> timestamp_ok (cl_nbf cl) \<and> timestamp_ok (cl_exp cl) \<and>
     seconds (cl_nbf cl) \<le> t + skew \<and> t \<le> seconds (cl_exp cl) + skew \<and>
     cl_nbf cl < cl_exp cl \<and> seconds (cl_exp cl) - seconds (cl_nbf cl) \<le> ttl"
  by (auto simp: check_times_def fromtimestamp_Inr)

lemma check_revocation_Inr:
  "check_revocation rl jti = Inr () \<longleftrightarrow> (\<forall>ask. rl = Some ask \<longrightarrow> ask jti = Inr False)"
  by (auto simp: check_revocation_def split: option.splits)

lemma extract_claims_kid: "extract_claims payload kid = Inr cl \<Longrightarrow> cl_issuer_kid cl = kid"
  by (auto simp: extract_claims_def Let_def split: if_splits)

lemma extract_claims_wf:
  assumes "extract_claims payload kid = Inr cl"
  shows "spiffe_id_re (cl_iss cl)" "spiffe_id_re (cl_sub cl)" "spiffe_id_re (cl_aud cl)"
    "cl_scope cl \<noteq> []" "uuid_v7_re (cl_jti cl)" "hex_sha256_re (cl_envelope_digest cl)"
    "cl_resource cl \<noteq> Some []"
  using assms
  by (auto simp: extract_claims_def Let_def str_test_iff nonempty_def split: if_splits)

lemma check_header_Inr: "check_header h = Inr kid \<Longrightarrow> kid_re kid"
  by (auto simp: check_header_def Let_def str_test_iff split: if_splits)

lemmas capability_checks =
  check_binding_Inr check_times_Inr check_revocation_Inr load_key_Inr

lemma verify_capability_token_Inr:
  assumes "verify_capability_token P token env issuer_lookup t skew ttl rl = Inr cl"
  obtains header payload input sig pem key where
    "parse_jwt P token = Inr (header, payload, input, sig)"
    "check_header header = Inr (cl_issuer_kid cl)"
    "extract_claims payload (cl_issuer_kid cl) = Inr cl"
    "check_binding cl env = Inr ()"
    "check_times cl t skew ttl = Inr ()"
    "issuer_lookup (cl_iss cl) (cl_issuer_kid cl) = Inr pem"
    "p_load_pem P pem = Inr (Ed25519Key key)"
    "p_verify P key sig input"
    "check_revocation rl (cl_jti cl) = Inr ()"
proof -
  from assms obtain header payload input sig kid pem key where s:
    "parse_jwt P token = Inr (header, payload, input, sig)" "check_header header = Inr kid"
    "extract_claims payload kid = Inr cl" "check_binding cl env = Inr ()"
    "check_times cl t skew ttl = Inr ()" "issuer_lookup (cl_iss cl) kid = Inr pem"
    "load_ed25519_public_key P pem = Inr key" "p_verify P key sig input"
    "check_revocation rl (cl_jti cl) = Inr ()"
    by (auto simp: verify_capability_token_def)
  have "kid = cl_issuer_kid cl" using extract_claims_kid[OF s(3)] by simp
  then show ?thesis using that s by (simp add: load_key_Inr)
qed

text \<open>The revocation list is asked only about tokens whose signature verified: as long as any
  earlier check fails, the answer does not depend on the list.\<close>

definition cap_pre_revocation ::
  "platform \<Rightarrow> pyval \<Rightarrow> (string \<times> pyval) list \<Rightarrow> (string \<Rightarrow> string \<Rightarrow> exn + string) \<Rightarrow> datetime \<Rightarrow>
   timedelta \<Rightarrow> timedelta \<Rightarrow> exn + capability_claims" where
  "cap_pre_revocation P token env lookup t skew ttl =
     verify_capability_token P token env lookup t skew ttl None"

lemma verify_capability_token_revocation:
  "verify_capability_token P token env lookup t skew ttl rl =
     bindE (cap_pre_revocation P token env lookup t skew ttl) (\<lambda>cl.
     bindE (check_revocation rl (cl_jti cl)) (\<lambda>_. Inr cl))"
  by (simp add: cap_pre_revocation_def verify_capability_token_def bindE_assoc bindE_prod
      check_revocation_def)

text \<open>Only the two lookups and the PEM loader can make the exception anything else than a denial,
  together with timestamps out of range and JSON nested too deep.\<close>

lemma check_binding_Inl: "check_binding cl env = Inl e \<Longrightarrow> is_eve e \<or> e = std_error ''KeyError''"
  by (auto simp: check_binding_def getitem_def split: option.splits)

end
