(* ===== verification/Replay.thy ===== *)
theory Replay
  imports Prelude
begin

text \<open>
  Replay caches of \<open>verify_envelope.py\<close>: \<open>InMemoryReplayCache\<close> and \<open>SQLiteReplayCache\<close>.
  A cache maps \<open>(sender, nonce)\<close> to the time its reservation ends. The wall clock
  (\<open>datetime.now(UTC)\<close>) is the argument \<open>now\<close> of every operation; the lock (or the SQL statement)
  makes each operation one atomic step, so a concurrent run is a list of such steps.
  The locale \<open>replay_reservation\<close> states the contract of the abstract class \<open>ReplayCache\<close>.
\<close>

section \<open>The two implementations\<close>

type_synonym nonce_key = "string \<times> string"
type_synonym replay_cache = "nonce_key \<rightharpoonup> int"

text \<open>\<open>InMemoryReplayCache\<close>: entries end at a time in microseconds.\<close>

definition mem_empty :: replay_cache where
  "mem_empty = Map.empty"

definition mem_purge :: "datetime \<Rightarrow> replay_cache \<Rightarrow> replay_cache" where
  "mem_purge now c = (\<lambda>k. case c k of Some e \<Rightarrow> if e \<le> now then None else Some e | None \<Rightarrow> None)"

definition mem_seen :: "nonce_key \<Rightarrow> datetime \<Rightarrow> replay_cache \<Rightarrow> bool \<times> replay_cache" where
  "mem_seen k now c = (let c' = mem_purge now c in (c' k \<noteq> None, c'))"

definition mem_mark :: "nonce_key \<Rightarrow> timedelta \<Rightarrow> datetime \<Rightarrow> replay_cache \<Rightarrow> replay_cache" where
  "mem_mark k ttl now c = c(k \<mapsto> now + ttl)"

definition mem_mark_if_new ::
  "nonce_key \<Rightarrow> timedelta \<Rightarrow> datetime \<Rightarrow> replay_cache \<Rightarrow> bool \<times> replay_cache" where
  "mem_mark_if_new k ttl now c =
     (let c' = mem_purge now c in
      if c' k \<noteq> None then (False, c') else (True, c'(k \<mapsto> now + ttl)))"

text \<open>\<open>SQLiteReplayCache\<close>: the table \<open>replay_nonces\<close>, whose rows end at a whole second.\<close>

definition sql_now_epoch :: "datetime \<Rightarrow> int" where
  "sql_now_epoch now = now div 1000000"

definition sql_expires_at :: "datetime \<Rightarrow> timedelta \<Rightarrow> int" where
  "sql_expires_at now ttl = sql_now_epoch now + max 0 (ttl div 1000000)"

definition sql_purge :: "datetime \<Rightarrow> replay_cache \<Rightarrow> replay_cache" where
  "sql_purge now c =
     (\<lambda>k. case c k of Some e \<Rightarrow> if e \<le> sql_now_epoch now then None else Some e | None \<Rightarrow> None)"

definition sql_seen :: "nonce_key \<Rightarrow> datetime \<Rightarrow> replay_cache \<Rightarrow> bool \<times> replay_cache" where
  "sql_seen k now c = (let c' = sql_purge now c in (c' k \<noteq> None, c'))"

definition sql_mark :: "nonce_key \<Rightarrow> timedelta \<Rightarrow> datetime \<Rightarrow> replay_cache \<Rightarrow> replay_cache" where
  "sql_mark k ttl now c = c(k \<mapsto> sql_expires_at now ttl)"

definition sql_mark_if_new ::
  "nonce_key \<Rightarrow> timedelta \<Rightarrow> datetime \<Rightarrow> replay_cache \<Rightarrow> bool \<times> replay_cache" where
  "sql_mark_if_new k ttl now c =
     (let c' = sql_purge now c; rowcount = (if c' k = None then 1 else 0) :: nat
      in (rowcount = 1, if c' k = None then c'(k \<mapsto> sql_expires_at now ttl) else c'))"

lemmas replay_defs [model_simps] =
  mem_empty_def mem_purge_def mem_seen_def mem_mark_def mem_mark_if_new_def
  sql_now_epoch_def sql_expires_at_def sql_purge_def sql_seen_def sql_mark_def
  sql_mark_if_new_def

text \<open>Which keys count as reserved at a time, for either cache.\<close>

definition mem_live :: "replay_cache \<Rightarrow> datetime \<Rightarrow> nonce_key \<Rightarrow> bool" where
  "mem_live c now k = (case c k of Some e \<Rightarrow> now < e | None \<Rightarrow> False)"

definition sql_live :: "replay_cache \<Rightarrow> datetime \<Rightarrow> nonce_key \<Rightarrow> bool" where
  "sql_live c now k = (case c k of Some e \<Rightarrow> sql_now_epoch now < e | None \<Rightarrow> False)"

text \<open>A schedule of reservation attempts, each \<open>(key, ttl, wall clock)\<close>, and their answers.\<close>

type_synonym attempt = "nonce_key \<times> timedelta \<times> datetime"

fun run_marks ::
  "(nonce_key \<Rightarrow> timedelta \<Rightarrow> datetime \<Rightarrow> 'c \<Rightarrow> bool \<times> 'c) \<Rightarrow> 'c \<Rightarrow> attempt list \<Rightarrow>
   bool list \<times> 'c" where
  "run_marks mk c [] = ([], c)"
| "run_marks mk c ((k, ttl, now) # as) =
     (let (b, c') = mk k ttl now c; (bs, c'') = run_marks mk c' as in (b # bs, c''))"

definition attempt_time :: "attempt \<Rightarrow> datetime" where
  "attempt_time a = snd (snd a)"


section \<open>The contract\<close>

locale replay_reservation =
  fixes mark :: "nonce_key \<Rightarrow> timedelta \<Rightarrow> datetime \<Rightarrow> 'c \<Rightarrow> bool \<times> 'c"
    and live :: "'c \<Rightarrow> datetime \<Rightarrow> nonce_key \<Rightarrow> bool"
    and clock :: "datetime \<Rightarrow> int"
    and ends :: "datetime \<Rightarrow> timedelta \<Rightarrow> int"
  assumes mark_new: "fst (mark k ttl now c) \<longleftrightarrow> \<not> live c now k"
    and mark_live: "now \<le> now' \<Longrightarrow> live (snd (mark k ttl now c)) now' k' \<longleftrightarrow>
      (if k' = k \<and> \<not> live c now k then clock now' < ends now ttl else live c now' k')"
    and clock_mono: "now \<le> now' \<Longrightarrow> clock now \<le> clock now'"
    and live_mono: "now \<le> now' \<Longrightarrow> live c now' k \<Longrightarrow> live c now k"
begin

lemma mark_reserves:
  assumes "fst (mark k ttl now c)" "now \<le> now'" "clock now' < ends now ttl"
  shows "live (snd (mark k ttl now c)) now' k"
  using assms by (simp add: mark_new mark_live)

lemma mark_keeps: "live c now' k \<Longrightarrow> now \<le> now' \<Longrightarrow> live (snd (mark k' ttl now c)) now' k"
  by (auto simp: mark_live dest: live_mono)

text \<open>A reservation survives any schedule of attempts made up to a time at which it is live.\<close>

lemma run_keeps:
  assumes "live c t k" "\<forall>a\<in>set as. attempt_time a \<le> t"
  shows "live (snd (run_marks mark c as)) t k"
  using assms
proof (induction as arbitrary: c)
  case (Cons a as)
  obtain k' ttl now where a: "a = (k', ttl, now)" by (cases a) auto
  obtain b c' where m: "mark k' ttl now c = (b, c')" by fastforce
  have "now \<le> t" using Cons.prems a by (simp add: attempt_time_def)
  then have "live c' t k" using mark_keeps[OF Cons.prems(1), of now k' ttl] m by simp
  moreover have "\<forall>a\<in>set as. attempt_time a \<le> t" using Cons.prems(2) by simp
  ultimately have "live (snd (run_marks mark c' as)) t k" by (rule Cons.IH)
  then show ?case using a m by (auto split: prod.splits)
qed simp

theorem no_replay:
  assumes first: "fst (mark k ttl t c)"
    and between: "\<forall>a\<in>set as. t \<le> attempt_time a \<and> attempt_time a \<le> t'"
    and later: "t \<le> t'" "clock t' < ends t ttl"
  shows "\<not> fst (mark k ttl' t' (snd (run_marks mark (snd (mark k ttl t c)) as)))"
proof -
  have "live (snd (mark k ttl t c)) t' k"
    using first later by (intro mark_reserves)
  then have "live (snd (run_marks mark (snd (mark k ttl t c)) as)) t' k"
    using between by (intro run_keeps) auto
  then show ?thesis by (simp add: mark_new)
qed

text \<open>Of any number of simultaneous attempts on one fresh key, the first and no other wins.\<close>

lemma losers:
  assumes "live c t k"
  shows "fst (run_marks mark c (replicate n (k, ttl, t))) = replicate n False"
  using assms
proof (induction n arbitrary: c)
  case (Suc n)
  obtain b c' where m: "mark k ttl t c = (b, c')" by fastforce
  have "\<not> b" using mark_new[of k ttl t c] Suc.prems m by simp
  moreover have "live c' t k" using mark_keeps[OF Suc.prems, of t k ttl] m by simp
  ultimately show ?case using Suc.IH[of c'] m by (auto split: prod.splits)
qed simp

theorem exactly_one:
  assumes "\<not> live c t k" "clock t < ends t ttl"
  shows "fst (run_marks mark c (replicate (Suc n) (k, ttl, t))) = True # replicate n False"
proof -
  obtain b c' where m: "mark k ttl t c = (b, c')" by fastforce
  have b: "b" using mark_new[of k ttl t c] assms m by simp
  have "live c' t k" using mark_reserves[of k ttl t c t] assms m b by simp
  then show ?thesis using losers[of c' t k n ttl] m b by (auto split: prod.splits)
qed

text \<open>A reservation whose end is not after the clock is no reservation: the same key wins again.\<close>

theorem expired_wins_again:
  assumes "fst (mark k ttl t c)" "t \<le> t'" "ends t ttl \<le> clock t'"
  shows "fst (mark k ttl' t' (snd (mark k ttl t c)))"
  using assms by (simp add: mark_new mark_live)

end


section \<open>Both caches satisfy the contract\<close>

lemma sql_now_epoch_mono: "now \<le> now' \<Longrightarrow> sql_now_epoch now \<le> sql_now_epoch now'"
  by (simp add: sql_now_epoch_def zdiv_mono1)

interpretation mem_cache: replay_reservation mem_mark_if_new mem_live "\<lambda>t. t" "\<lambda>t d. t + d"
  by unfold_locales
     (auto simp: mem_live_def mem_mark_if_new_def mem_purge_def Let_def split: option.splits if_splits)

interpretation sql_cache: replay_reservation sql_mark_if_new sql_live sql_now_epoch sql_expires_at
proof unfold_locales
  fix k ttl now c
  show "fst (sql_mark_if_new k ttl now c) \<longleftrightarrow> \<not> sql_live c now k"
    by (auto simp: sql_live_def sql_mark_if_new_def sql_purge_def Let_def split: option.splits)
next
  fix now now' :: datetime and k ttl c k'
  assume "now \<le> now'"
  then show "sql_live (snd (sql_mark_if_new k ttl now c)) now' k' \<longleftrightarrow>
      (if k' = k \<and> \<not> sql_live c now k then sql_now_epoch now' < sql_expires_at now ttl
       else sql_live c now' k')"
    using sql_now_epoch_mono[of now now']
    by (auto simp: sql_live_def sql_mark_if_new_def sql_purge_def Let_def
        split: option.splits if_splits)
next
  fix now now' :: datetime assume "now \<le> now'"
  then show "sql_now_epoch now \<le> sql_now_epoch now'" by (rule sql_now_epoch_mono)
next
  fix now now' :: datetime and c k assume "now \<le> now'" "sql_live c now' k"
  then show "sql_live c now k"
    using sql_now_epoch_mono[of now now'] by (auto simp: sql_live_def split: option.splits)
qed

text \<open>Purging changes nothing that is live, so \<open>seen\<close> reports exactly the live keys.\<close>

lemma mem_seen_live: "fst (mem_seen k now c) \<longleftrightarrow> mem_live c now k"
  by (auto simp: mem_seen_def mem_purge_def mem_live_def split: option.splits)

lemma sql_seen_live: "fst (sql_seen k now c) \<longleftrightarrow> sql_live c now k"
  by (auto simp: sql_seen_def sql_purge_def sql_live_def split: option.splits)

end
