(* ===== verification/AuditLog.thy ===== *)
theory AuditLog
  imports Platform
begin

text \<open>
  The hash-chained audit log of \<open>audit.py\<close>: \<open>AuditEvent\<close>, \<open>_build_event\<close>,
  \<open>AuditSink.record\<close> over its two stores (\<open>InMemoryAuditSink\<close>, a list of events, and
  \<open>JsonlAuditSink\<close>, whose \<open>tail_hash\<close> reads the file backwards block by block) and
  \<open>verify_chain\<close>. The locale \<open>audit_store\<close> is the contract of the abstract class
  \<open>AuditSink\<close>: what \<open>record\<close> needs of \<open>tail_hash\<close> and \<open>_append\<close>.
\<close>

section \<open>Events\<close>

record audit_fields =
  ev_timestamp :: string
  ev_event_type :: string
  ev_outcome :: string
  ev_reason :: string
  ev_message_id :: string
  ev_sender :: string
  ev_recipient :: string
  ev_envelope_kid :: string
  ev_issuer_iss :: string
  ev_issuer_kid :: string
  ev_reason_code :: string
  ev_artifact_version :: string

record audit_event = audit_fields +
  ev_prev_hash :: string
  ev_this_hash :: string

definition GENESIS_PREV_HASH :: string where
  "GENESIS_PREV_HASH = replicate 64 CHR ''0''"

definition ALLOWED_OUTCOMES :: "string list" where
  "ALLOWED_OUTCOMES = [''allow'', ''deny'']"

text \<open>The body of the hash, in the order of \<open>_HASHED_FIELDS\<close>.\<close>

definition hashed_fields :: "'a audit_fields_scheme \<Rightarrow> (string \<times> pyval) list" where
  "hashed_fields f =
     [(''timestamp'', PStr (ev_timestamp f)),
      (''event_type'', PStr (ev_event_type f)),
      (''outcome'', PStr (ev_outcome f)),
      (''reason'', PStr (ev_reason f)),
      (''message_id'', PStr (ev_message_id f)),
      (''sender'', PStr (ev_sender f)),
      (''recipient'', PStr (ev_recipient f)),
      (''envelope_kid'', PStr (ev_envelope_kid f)),
      (''issuer_iss'', PStr (ev_issuer_iss f)),
      (''issuer_kid'', PStr (ev_issuer_kid f)),
      (''reason_code'', PStr (ev_reason_code f)),
      (''artifact_version'', PStr (ev_artifact_version f))]"

definition compute_this_hash :: "platform \<Rightarrow> string \<Rightarrow> 'a audit_fields_scheme \<Rightarrow> exn + string" where
  "compute_this_hash P prev f =
     bindE (p_canon P (PDict (hashed_fields f))) (\<lambda>body. Inr (p_sha256 P (prev @ body)))"

definition build_event :: "platform \<Rightarrow> string \<Rightarrow> audit_fields \<Rightarrow> exn + audit_event" where
  "build_event P prev f =
     (if ev_outcome f \<notin> set ALLOWED_OUTCOMES then Inl (std_error ''ValueError'')
      else bindE (compute_this_hash P prev f) (\<lambda>h.
        Inr (audit_fields.extend f \<lparr>ev_prev_hash = prev, ev_this_hash = h\<rparr>)))"

definition fields_of :: "audit_event \<Rightarrow> audit_fields" where
  "fields_of e = audit_fields.truncate e"

lemma hashed_fields_inject: "hashed_fields (f :: audit_fields) = hashed_fields (g :: audit_fields) \<longleftrightarrow> f = g"
  by (cases f; cases g) (simp add: hashed_fields_def)

lemma hashed_fields_of [simp]: "hashed_fields (fields_of e) = hashed_fields e"
  by (cases e) (simp add: fields_of_def audit_fields.truncate_def hashed_fields_def)

lemma compute_this_hash_of: "compute_this_hash P h (fields_of e) = compute_this_hash P h e"
  by (simp add: compute_this_hash_def)

lemma build_event_Inr:
  "build_event P prev f = Inr e \<longleftrightarrow>
     ev_outcome f \<in> set ALLOWED_OUTCOMES \<and> fields_of e = f \<and> ev_prev_hash e = prev \<and>
     compute_this_hash P prev f = Inr (ev_this_hash e)"
  by (cases e; cases f)
     (auto simp: build_event_def fields_of_def audit_fields.truncate_def audit_fields.extend_def)


section \<open>Recording\<close>

text \<open>\<open>AuditSink.record\<close>: the caller's fields, with the time stamp of the call filled in. The
  abstract methods \<open>tail_hash\<close> and \<open>_append\<close> may raise.\<close>

definition utc_stamp :: "platform \<Rightarrow> datetime \<Rightarrow> string" where
  "utc_stamp P t = p_isoformat P t"

definition sink_record ::
  "('s \<Rightarrow> exn + string) \<Rightarrow> (audit_event \<Rightarrow> 's \<Rightarrow> exn option \<times> 's) \<Rightarrow> platform \<Rightarrow> datetime \<Rightarrow>
   audit_fields \<Rightarrow> 's \<Rightarrow> (exn + audit_event) \<times> 's" where
  "sink_record tail_hash push P now f s =
     (case tail_hash s of
        Inl e \<Rightarrow> (Inl e, s)
      | Inr prev \<Rightarrow>
          (case build_event P prev (f\<lparr>ev_timestamp := utc_stamp P now\<rparr>) of
             Inl e \<Rightarrow> (Inl e, s)
           | Inr ev \<Rightarrow>
               (case push ev s of
                  (Some e, s') \<Rightarrow> (Inl e, s')
                | (None, s') \<Rightarrow> (Inr ev, s'))))"

text \<open>\<open>InMemoryAuditSink\<close>\<close>

type_synonym memory_sink = "audit_event list"

definition memory_tail_hash :: "memory_sink \<Rightarrow> exn + string" where
  "memory_tail_hash s = Inr (if s \<noteq> [] then ev_this_hash (last s) else GENESIS_PREV_HASH)"

definition memory_append :: "audit_event \<Rightarrow> memory_sink \<Rightarrow> exn option \<times> memory_sink" where
  "memory_append e s = (None, s @ [e])"

definition memory_record :: "platform \<Rightarrow> datetime \<Rightarrow> audit_fields \<Rightarrow> memory_sink \<Rightarrow>
  (exn + audit_event) \<times> memory_sink" where
  "memory_record = sink_record memory_tail_hash memory_append"

text \<open>\<open>verify_chain\<close>: the first broken link raises \<open>AuditChainError\<close>.\<close>

fun verify_chain_from :: "platform \<Rightarrow> string \<Rightarrow> audit_event list \<Rightarrow> exn + unit" where
  "verify_chain_from P expected_prev [] = Inr ()"
| "verify_chain_from P expected_prev (event # events) =
     (if ev_prev_hash event \<noteq> expected_prev then Inl (std_error ''AuditChainError'')
      else bindE (compute_this_hash P (ev_prev_hash event) event) (\<lambda>recomputed.
        if ev_this_hash event \<noteq> recomputed then Inl (std_error ''AuditChainError'')
        else verify_chain_from P (ev_this_hash event) events))"

definition verify_chain :: "platform \<Rightarrow> audit_event list \<Rightarrow> exn + unit" where
  "verify_chain P events = verify_chain_from P GENESIS_PREV_HASH events"

fun chain_end :: "string \<Rightarrow> audit_event list \<Rightarrow> string" where
  "chain_end h [] = h"
| "chain_end h (e # es) = chain_end (ev_this_hash e) es"

lemma chain_end_append [simp]: "chain_end h (xs @ ys) = chain_end (chain_end h xs) ys"
  by (induction h xs rule: chain_end.induct) auto

lemma chain_end_last: "chain_end h s = (if s = [] then h else ev_this_hash (last s))"
  by (induction h s rule: chain_end.induct) auto

lemma verify_chain_append:
  "verify_chain_from P h (xs @ ys) = Inr () \<longleftrightarrow>
     verify_chain_from P h xs = Inr () \<and> verify_chain_from P (chain_end h xs) ys = Inr ()"
  by (induction P h xs rule: verify_chain_from.induct) auto


text \<open>What is to be covered by the hash of an event, written out: all its fields but the two hashes.\<close>

definition event_body :: "audit_event \<Rightarrow> pyval" where
  "event_body e =
     PDict [(''timestamp'', PStr (ev_timestamp e)), (''event_type'', PStr (ev_event_type e)),
            (''outcome'', PStr (ev_outcome e)), (''reason'', PStr (ev_reason e)),
            (''message_id'', PStr (ev_message_id e)), (''sender'', PStr (ev_sender e)),
            (''recipient'', PStr (ev_recipient e)), (''envelope_kid'', PStr (ev_envelope_kid e)),
            (''issuer_iss'', PStr (ev_issuer_iss e)), (''issuer_kid'', PStr (ev_issuer_kid e)),
            (''reason_code'', PStr (ev_reason_code e)), (''artifact_version'', PStr (ev_artifact_version e))]"

definition hash_input :: "platform \<Rightarrow> audit_event \<Rightarrow> string \<Rightarrow> bool" where
  "hash_input P e input \<longleftrightarrow> (\<exists>body. p_canon P (event_body e) = Inr body \<and> input = ev_prev_hash e @ body)"

text \<open>What the platform is relied on for: different objects have different canonical texts, and a
  digest has 64 characters.\<close>

definition chain_platform :: "platform \<Rightarrow> bool" where
  "chain_platform P \<longleftrightarrow>
     (\<forall>e e' body. p_canon P (event_body e) = Inr body \<longrightarrow> p_canon P (event_body e') = Inr body \<longrightarrow>
        event_body e = event_body e') \<and>
     (\<forall>s. length (p_sha256 P s) = 64)"

text \<open>Two events of the given chains with different hashed texts and the same digest, or one whose
  digest is the genesis value.\<close>

definition chains_collide :: "platform \<Rightarrow> audit_event list \<Rightarrow> audit_event list \<Rightarrow> bool" where
  "chains_collide P xs ys \<longleftrightarrow>
     (\<exists>x\<in>set xs. \<exists>y\<in>set ys. \<exists>a b. hash_input P x a \<and> hash_input P y b \<and> a \<noteq> b \<and> p_sha256 P a = p_sha256 P b) \<or>
     (\<exists>x\<in>set xs \<union> set ys. \<exists>a. hash_input P x a \<and> p_sha256 P a = GENESIS_PREV_HASH)"

lemma chains_collide_mono:
  "chains_collide P xs ys \<Longrightarrow> set xs \<subseteq> set xs' \<Longrightarrow> set ys \<subseteq> set ys' \<Longrightarrow> chains_collide P xs' ys'"
  unfolding chains_collide_def by blast

lemma compute_this_hash_input:
  "compute_this_hash P (ev_prev_hash e) e = Inr h \<longleftrightarrow> (\<exists>a. hash_input P e a \<and> h = p_sha256 P a)"
  by (auto simp: compute_this_hash_def hash_input_def event_body_def hashed_fields_def)

lemma event_body_inject: "event_body e = event_body e' \<longleftrightarrow> fields_of e = fields_of e'"
  by (cases e; cases e') (simp add: event_body_def fields_of_def audit_fields.truncate_def)

lemma hash_input_inject:
  assumes "chain_platform P" "hash_input P x a" "hash_input P y a" "length (ev_prev_hash x) = length (ev_prev_hash y)"
  shows "fields_of x = fields_of y \<and> ev_prev_hash x = ev_prev_hash y"
proof -
  obtain b c where b: "p_canon P (event_body x) = Inr b" "a = ev_prev_hash x @ b"
    and c: "p_canon P (event_body y) = Inr c" "a = ev_prev_hash y @ c"
    using assms(2,3) unfolding hash_input_def by blast
  then have same: "ev_prev_hash x = ev_prev_hash y" "b = c" using assms(4) by simp_all
  then have "event_body x = event_body y" using assms(1) b(1) c(1) unfolding chain_platform_def by blast
  then show ?thesis using same by (simp add: event_body_inject)
qed

lemma audit_event_eqI:
  "fields_of e = fields_of e' \<Longrightarrow> ev_prev_hash e = ev_prev_hash e' \<Longrightarrow>
   ev_this_hash e = ev_this_hash e' \<Longrightarrow> e = e'"
  by (cases e; cases e') (simp add: fields_of_def audit_fields.truncate_def)

lemma verify_chain_snoc:
  "verify_chain P (es @ [e]) = Inr () \<longleftrightarrow>
     verify_chain P es = Inr () \<and> ev_prev_hash e = chain_end GENESIS_PREV_HASH es \<and>
     compute_this_hash P (ev_prev_hash e) (fields_of e) = Inr (ev_this_hash e)"
  by (auto simp: verify_chain_def verify_chain_append compute_this_hash_of)

lemma verified_event:
  assumes "verify_chain P (es @ [e]) = Inr ()"
  obtains a where "hash_input P e a" "ev_this_hash e = p_sha256 P a" "verify_chain P es = Inr ()"
    "ev_prev_hash e = chain_end GENESIS_PREV_HASH es"
  using assms unfolding verify_chain_snoc compute_this_hash_of compute_this_hash_input by blast

lemma chain_end_64: "chain_platform P \<Longrightarrow> verify_chain P es = Inr () \<Longrightarrow> length (chain_end GENESIS_PREV_HASH es) = 64"
proof (cases es rule: rev_cases)
  case (snoc es' e)
  assume P: "chain_platform P" and "verify_chain P es = Inr ()"
  then obtain a where "ev_this_hash e = p_sha256 P a" unfolding snoc by (elim verified_event)
  then show ?thesis using P snoc by (simp add: chain_platform_def)
qed (simp add: GENESIS_PREV_HASH_def)

text \<open>Two chains that verify and end in the same hash are the same chain, unless two of their events
  collide.\<close>

lemma chain_unique:
  assumes P: "chain_platform P"
  shows "verify_chain P xs = Inr () \<Longrightarrow> verify_chain P ys = Inr () \<Longrightarrow>
   chain_end GENESIS_PREV_HASH xs = chain_end GENESIS_PREV_HASH ys \<Longrightarrow>
   xs = ys \<or> chains_collide P xs ys"
proof (induction xs arbitrary: ys rule: rev_induct)
  case Nil
  show ?case
  proof (cases ys rule: rev_cases)
    case ys: (snoc ys' y)
    obtain a where "hash_input P y a" "ev_this_hash y = p_sha256 P a"
      by (rule verified_event[OF Nil(2)[unfolded ys]])
    then show ?thesis using Nil(3) ys by (auto simp: chains_collide_def)
  qed simp
next
  case (snoc x xs)
  obtain a where x: "hash_input P x a" "ev_this_hash x = p_sha256 P a" "verify_chain P xs = Inr ()"
    "ev_prev_hash x = chain_end GENESIS_PREV_HASH xs" by (rule verified_event[OF snoc.prems(1)])
  show ?case
  proof (cases ys rule: rev_cases)
    case Nil
    then show ?thesis using snoc.prems(3) x by (auto simp: chains_collide_def)
  next
    case ys: (snoc ys' y)
    obtain b where y: "hash_input P y b" "ev_this_hash y = p_sha256 P b" "verify_chain P ys' = Inr ()"
      "ev_prev_hash y = chain_end GENESIS_PREV_HASH ys'" by (rule verified_event[OF snoc.prems(2)[unfolded ys]])
    have same: "p_sha256 P a = p_sha256 P b" using snoc.prems(3) ys x y by simp
    show ?thesis
    proof (cases "a = b")
      case True
      have "fields_of x = fields_of y \<and> ev_prev_hash x = ev_prev_hash y"
        by (rule hash_input_inject[OF P x(1)]) (use y True chain_end_64[OF P] x in simp_all)
      moreover from this have "x = y" using x(2) y(2) True by (auto intro: audit_event_eqI)
      moreover have "xs = ys' \<or> chains_collide P xs ys'" using snoc.IH[OF x(3) y(3)] x(4) y(4) calculation by simp
      ultimately show ?thesis using chains_collide_mono[of P xs ys' "xs @ [x]" ys] unfolding ys by auto
    next
      case False
      then have "chains_collide P (xs @ [x]) ys"
        unfolding chains_collide_def ys using x(1) y(1) same by auto
      then show ?thesis ..
    qed
  qed
qed

text \<open>A run of \<open>record\<close> calls on one sink, each with the wall clock of the call.\<close>

fun record_all ::
  "(audit_event \<Rightarrow> 's \<Rightarrow> exn option \<times> 's) \<Rightarrow> ('s \<Rightarrow> exn + string) \<Rightarrow> platform \<Rightarrow>
   (datetime \<times> audit_fields) list \<Rightarrow> 's \<Rightarrow> 's" where
  "record_all app tail P [] s = s"
| "record_all app tail P ((now, f) # fs) s =
     record_all app tail P fs (snd (sink_record tail app P now f s))"


section \<open>The contract of a sink\<close>

text \<open>\<open>events\<close> is what can be read back, \<open>readable\<close> the events the store can write so that they
  can be read back; a failed append loses nothing already recorded.\<close>

locale audit_store =
  fixes tail_hash :: "'s \<Rightarrow> exn + string"
    and push :: "audit_event \<Rightarrow> 's \<Rightarrow> exn option \<times> 's"
    and events :: "'s \<Rightarrow> audit_event list"
    and good :: "'s \<Rightarrow> bool"
    and readable :: "audit_event \<Rightarrow> bool"
  assumes tail_hash: "good s \<Longrightarrow> tail_hash s = Inr h \<Longrightarrow> h = chain_end GENESIS_PREV_HASH (events s)"
    and push_ok: "good s \<Longrightarrow> readable e \<Longrightarrow> push e s = (None, s') \<Longrightarrow> good s' \<and> events s' = events s @ [e]"
    and push_fail: "good s \<Longrightarrow> push e s = (Some x, s') \<Longrightarrow> good s' \<and> events s' = events s"
begin

abbreviation record_in where
  "record_in \<equiv> sink_record tail_hash push"

lemma record_cases:
  assumes "good s" "\<And>ev. readable ev" "record_in P now f s = (r, s')"
  shows "good s'" "events s' = (case r of Inl e \<Rightarrow> events s | Inr ev \<Rightarrow> events s @ [ev])"
  using assms
  by (auto simp: sink_record_def split: sum.splits prod.splits option.splits
      dest: push_ok push_fail)

lemma record_event:
  assumes "good s" "record_in P now f s = (Inr ev, s')"
  shows "fields_of ev = f\<lparr>ev_timestamp := utc_stamp P now\<rparr>"
    "ev_outcome f \<in> set ALLOWED_OUTCOMES"
    "ev_prev_hash ev = chain_end GENESIS_PREV_HASH (events s)"
    "compute_this_hash P (ev_prev_hash ev) ev = Inr (ev_this_hash ev)"
proof -
  obtain h where h: "tail_hash s = Inr h"
    "build_event P h (f\<lparr>ev_timestamp := utc_stamp P now\<rparr>) = Inr ev"
    using assms(2) by (auto simp: sink_record_def split: sum.splits prod.splits option.splits)
  note b = h(2)[unfolded build_event_Inr]
  show "fields_of ev = f\<lparr>ev_timestamp := utc_stamp P now\<rparr>"
    "ev_outcome f \<in> set ALLOWED_OUTCOMES"
    "ev_prev_hash ev = chain_end GENESIS_PREV_HASH (events s)"
    using b tail_hash[OF assms(1) h(1)] by auto
  show "compute_this_hash P (ev_prev_hash ev) ev = Inr (ev_this_hash ev)"
    using b by (metis compute_this_hash_of)
qed

lemma record_chain:
  assumes "good s" "\<And>ev. readable ev" "verify_chain P (events s) = Inr ()"
    "record_in P now f s = (r, s')"
  shows "verify_chain P (events s') = Inr ()"
proof (cases r)
  case (Inl e)
  then show ?thesis using record_cases(2)[OF assms(1,2,4)] assms(3) by simp
next
  case (Inr ev)
  have e: "events s' = events s @ [ev]" using record_cases(2)[OF assms(1,2,4)] Inr by simp
  note r = record_event[OF assms(1) assms(4)[unfolded Inr]]
  have "verify_chain_from P (chain_end GENESIS_PREV_HASH (events s)) [ev] = Inr ()"
    using r(3) r(4) by simp
  then show ?thesis using assms(3) by (simp add: verify_chain_def e verify_chain_append)
qed

text \<open>Any run of \<open>record\<close> calls, failing ones included, leaves a chain that verifies and keeps
  every event already written.\<close>

theorem records_chain:
  assumes "\<And>ev. readable ev" "good s" "verify_chain P (events s) = Inr ()"
  shows "good (record_all push tail_hash P fs s) \<and>
    verify_chain P (events (record_all push tail_hash P fs s)) = Inr () \<and>
    (\<exists>new. events (record_all push tail_hash P fs s) = events s @ new)"
  using assms(2,3)
proof (induction fs arbitrary: s)
  case (Cons x fs)
  obtain now f where x: "x = (now, f)" by fastforce
  obtain r s' where r: "record_in P now f s = (r, s')" by fastforce
  note s' = record_cases[OF Cons.prems(1) assms(1) r] record_chain[OF Cons.prems(1) assms(1) Cons.prems(2) r]
  show ?case
    using Cons.IH[OF s'(1,3)] s'(2) r x by (auto split: sum.splits)
qed simp

end

interpretation memory_sink: audit_store memory_tail_hash memory_append
  "\<lambda>s. s" "\<lambda>s. True" "\<lambda>e. True"
  by unfold_locales (auto simp: memory_tail_hash_def memory_append_def chain_end_last)



section \<open>Properties\<close>

text \<open>C29. Whatever is recorded, rejected outcomes and hashing errors included, the in-memory log
  always verifies.\<close>

theorem memory_log_verifies:
  "verify_chain P (record_all memory_append memory_tail_hash P fs []) = Inr ()"
  using memory_sink.records_chain[OF TrueI TrueI, of P "[]" fs] by (simp add: verify_chain_def)

text \<open>C13. Two logs that verify and end in the same hash are equal, unless they exhibit a collision of the
  digest: an event of the one and an event of the other with different hashed texts and the same
  digest (or an event with the genesis value as its digest), where the hashed text of an event is the
  previous hash and the canonical text of all its other fields. So an insertion, a deletion or a
  change of any field anywhere before a known last event is noticed.\<close>

theorem audit_chain_tamper_evident:
  assumes "chain_platform P" "verify_chain P xs = Inr ()" "verify_chain P ys = Inr ()"
    "chain_end GENESIS_PREV_HASH xs = chain_end GENESIS_PREV_HASH ys"
  shows "xs = ys \<or> chains_collide P xs ys"
  using assms by (rule chain_unique)

definition toy_platform :: platform where
  "toy_platform =
     \<lparr>p_canon = (\<lambda>v. Inr ''body''), p_sha256 = (\<lambda>s. CHR ''h'' # s), p_load_pem = (\<lambda>s. Inr OtherKey),
      p_verify = (\<lambda>k s m. False), p_json_loads = (\<lambda>s. Inr PNone), p_fromisoformat = (\<lambda>s. None),
      p_isoformat = (\<lambda>t. ''now'')\<rparr>"

definition toy_fields :: audit_fields where
  "toy_fields =
     \<lparr>ev_timestamp = [], ev_event_type = ''x'', ev_outcome = ''allow'', ev_reason = ''ok'',
      ev_message_id = [], ev_sender = [], ev_recipient = [], ev_envelope_kid = [],
      ev_issuer_iss = [], ev_issuer_kid = [], ev_reason_code = ''ok'', ev_artifact_version = []\<rparr>"

text \<open>A platform with an injective canonical form and a digest that always collides: two logs that
  differ in the reason code of their first event end in the same hash, and the collision is found in
  them.\<close>

definition quoted :: "string \<Rightarrow> string" where
  "quoted s = concat (map (\<lambda>c. [CHR ''x'', c]) s) @ ''.''"

lemma quoted_append [simp]: "quoted s @ r = quoted s' @ r' \<longleftrightarrow> s = s' \<and> r = r'"
proof (induction s arbitrary: s')
  case Nil
  then show ?case by (cases s') (auto simp: quoted_def)
next
  case (Cons c s)
  then show ?case by (cases s') (auto simp: quoted_def)
qed

lemma quoted_inject [simp]: "quoted s = quoted s' \<longleftrightarrow> s = s'"
  using quoted_append[of s "[]" s' "[]"] by simp

definition toy_chain_platform :: platform where
  "toy_chain_platform = toy_platform
     \<lparr>p_canon := (\<lambda>v. Inr (concat (map (\<lambda>(k, w). quoted (str_of w)) (dict_of v)))),
      p_sha256 := (\<lambda>s. replicate 64 CHR ''h'')\<rparr>"

definition toy_chain :: "string \<Rightarrow> memory_sink" where
  "toy_chain code = record_all memory_append memory_tail_hash toy_chain_platform
     [(0, toy_fields\<lparr>ev_reason_code := code\<rparr>), (1, toy_fields)] []"

lemma toy_chain_platform: "chain_platform toy_chain_platform"
  by (auto simp: chain_platform_def toy_chain_platform_def event_body_def)

theorem audit_chain_tamper_evident_witness:
  "toy_chain ''a'' \<noteq> toy_chain ''b'' \<and> chains_collide toy_chain_platform (toy_chain ''a'') (toy_chain ''b'')"
proof -
  have "verify_chain toy_chain_platform (toy_chain ''a'') = Inr ()" "verify_chain toy_chain_platform (toy_chain ''b'') = Inr ()"
    "chain_end GENESIS_PREV_HASH (toy_chain ''a'') = chain_end GENESIS_PREV_HASH (toy_chain ''b'')"
    "toy_chain ''a'' \<noteq> toy_chain ''b''" by code_simp+
  with audit_chain_tamper_evident[OF toy_chain_platform] show ?thesis by blast
qed

text \<open>Dropping events from the end of a log that verifies leaves a log that verifies: the chain
  alone does not show a truncation of its tail.\<close>

lemma audit_chain_truncation_unnoticed:
  "verify_chain P events = Inr () \<Longrightarrow> verify_chain P (take n events) = Inr ()"
  using verify_chain_append[of P GENESIS_PREV_HASH "take n events" "drop n events"]
  by (simp add: verify_chain_def)

end
