(* ===== verification/Envelope.thy ===== *)
theory Envelope
  imports CapabilityToken Replay AuditLog
begin

text \<open>
  \<open>verify_envelope\<close> of \<open>verify_envelope.py\<close>: the structural bound, the static checks, the time
  window, the digest and signature, the capability token, the replay reservation, and the audit
  events emitted on every path. The replay cache and the audit sink are explicit state; their
  operations, the key lookups and the revocation list are the record \<open>deps\<close>, since callers
  supply them. The facade of \<open>verifier.py\<close> is at the end.
\<close>

section \<open>Configuration and dependencies\<close>

record verification_config =
  max_clock_skew :: timedelta
  max_envelope_ttl :: timedelta
  max_capability_ttl :: timedelta
  max_json_depth :: int

definition DEFAULT_CONFIG :: verification_config where
  "DEFAULT_CONFIG =
     \<lparr>max_clock_skew = seconds 60, max_envelope_ttl = minutes 5, max_capability_ttl = minutes 5,
      max_json_depth = 64\<rparr>"

text \<open>\<open>'c\<close> is the state of the replay cache, \<open>'k\<close> that of the audit sink. Every callback may
  raise. The sink is told the wall clock by itself, so \<open>ev_timestamp\<close> is left empty here.\<close>

record ('c, 'k) deps =
  d_key_lookup :: "string \<Rightarrow> exn + string"
  d_issuer_lookup :: "string \<Rightarrow> string \<Rightarrow> exn + string"
  d_mark_if_new :: "nonce_key \<Rightarrow> timedelta \<Rightarrow> 'c \<Rightarrow> (exn + bool) \<times> 'c"
  d_audit :: "(audit_fields \<Rightarrow> 'k \<Rightarrow> exn option \<times> 'k) option"
  d_revocation :: "(string \<Rightarrow> exn + bool) option"


section \<open>Structural bound\<close>

definition children :: "pyval \<Rightarrow> pyval list" where
  "children v = (case v of PDict d \<Rightarrow> map snd d | PList xs \<Rightarrow> xs | _ \<Rightarrow> [])"

fun py_nodes :: "pyval \<Rightarrow> nat" where
  "py_nodes (PDict d) = Suc (sum_list (map (\<lambda>kv. py_nodes (snd kv)) d))"
| "py_nodes (PList xs) = Suc (sum_list (map py_nodes xs))"
| "py_nodes _ = 1"

lemma py_nodes_children: "is_container v \<Longrightarrow> py_nodes v = Suc (sum_list (map py_nodes (children v)))"
  by (cases v) (auto simp: children_def o_def)

lemma py_nodes_pos: "0 < py_nodes v"
  by (cases v) auto

lemma sum_list_filter_le: "sum_list (map f (filter p xs)) \<le> sum_list (map (f :: 'a \<Rightarrow> nat) xs)"
  by (induction xs) auto

text \<open>The loop of \<open>check_json_depth\<close>; the top of the stack is the head of the list, so the
  children pushed by \<open>extend\<close> end up in reverse order.\<close>

function depth_loop :: "int \<Rightarrow> (pyval \<times> int) list \<Rightarrow> exn + unit" where
  "depth_loop max_depth [] = Inr ()"
| "depth_loop max_depth ((node, depth) # stack) =
     (if \<not> is_container node then depth_loop max_depth stack
      else if depth > max_depth then Inl (eve ENVELOPE_TOO_DEEP)
      else depth_loop max_depth
        (rev (map (\<lambda>child. (child, depth + 1)) (filter is_container (children node))) @ stack))"
  by pat_completeness auto
termination
proof (relation "measure (\<lambda>(m, stack). sum_list (map (\<lambda>(v, n). py_nodes v) stack))")
  fix max_depth node depth and stack :: "(pyval \<times> int) list"
  have "sum_list (map py_nodes (filter is_container (children node))) \<le>
      sum_list (map py_nodes (children node))"
    by (rule sum_list_filter_le)
  moreover assume "\<not> \<not> is_container node"
  ultimately show "((max_depth, rev (map (\<lambda>child. (child, depth + 1))
      (filter is_container (children node))) @ stack), max_depth, (node, depth) # stack)
      \<in> measure (\<lambda>(m, stack). sum_list (map (\<lambda>(v, n). py_nodes v) stack))"
    by (simp add: py_nodes_children sum_list_rev o_def flip: rev_map)
qed (simp_all add: py_nodes_pos)

definition check_json_depth :: "pyval \<Rightarrow> int \<Rightarrow> exn + unit" where
  "check_json_depth value max_depth = depth_loop max_depth [(value, 1)]"


section \<open>Static checks\<close>

definition REQUIRED_FIELDS :: "string list" where
  "REQUIRED_FIELDS =
     [''version'', ''message_id'', ''sender_spiffe_id'', ''recipient_spiffe_id'', ''issued_at'',
      ''expires_at'', ''nonce'', ''capability_token'', ''purpose_of_use'', ''kid'', ''alg'',
      ''payload'', ''payload_digest'', ''signature'']"

definition ALLOWED_ALGORITHMS :: "string set" where
  "ALLOWED_ALGORITHMS = {''Ed25519''}"

definition check_field ::
  "(string \<Rightarrow> bool) \<Rightarrow> (string \<times> pyval) list \<Rightarrow> string \<Rightarrow> deny_reason \<Rightarrow> exn + unit" where
  "check_field p envelope k r =
     bindE (getitem envelope k) (\<lambda>v. guard (str_test p v) (eve r))"

definition validate_static_fields :: "(string \<times> pyval) list \<Rightarrow> exn + unit" where
  "validate_static_fields envelope =
     bindE (getitem envelope ''version'') (\<lambda>version.
     bindE (guard (py_eq (PStr ''v0'') version) (eve UNSUPPORTED_VERSION)) (\<lambda>_.
     bindE (check_field uuid_v7_re envelope ''message_id'' INVALID_MESSAGE_ID) (\<lambda>_.
     bindE (check_field spiffe_id_re envelope ''sender_spiffe_id'' INVALID_SENDER_SPIFFE_ID) (\<lambda>_.
     bindE (check_field spiffe_id_re envelope ''recipient_spiffe_id''
              INVALID_RECIPIENT_SPIFFE_ID) (\<lambda>_.
     bindE (check_field nonce_re envelope ''nonce'' INVALID_NONCE) (\<lambda>_.
     bindE (check_field kid_re envelope ''kid'' INVALID_KID) (\<lambda>_.
     bindE (check_field hex_sha256_re envelope ''payload_digest'' INVALID_PAYLOAD_DIGEST) (\<lambda>_.
     check_field (\<lambda>a. a \<in> ALLOWED_ALGORITHMS) envelope ''alg'' DISALLOWED_ALGORITHM))))))))"


section \<open>Digest and signing input\<close>

definition canonical_json :: "platform \<Rightarrow> pyval \<Rightarrow> exn + string" where
  "canonical_json P v =
     (case p_canon P v of
        Inr b \<Rightarrow> Inr b
      | Inl e \<Rightarrow>
          if is_eve e then Inl e
          else if exn_cls e = StdError ''RecursionError'' then Inl (eve ENVELOPE_TOO_DEEP)
          else Inl (eve ENVELOPE_NOT_CANONICALIZABLE))"

definition digest_payload :: "platform \<Rightarrow> pyval \<Rightarrow> exn + string" where
  "digest_payload P payload = bindE (canonical_json P payload) (\<lambda>b. Inr (p_sha256 P b))"

definition unsigned_part :: "(string \<times> pyval) list \<Rightarrow> (string \<times> pyval) list" where
  "unsigned_part envelope = filter (\<lambda>(k, v). k \<noteq> ''signature'') envelope"

definition canonicalize_envelope_for_signing ::
  "platform \<Rightarrow> (string \<times> pyval) list \<Rightarrow> exn + string" where
  "canonicalize_envelope_for_signing P envelope =
     (if \<not> has_key envelope ''signature'' then Inl (eve MISSING_SIGNATURE)
      else canonical_json P (PDict (unsigned_part envelope)))"


section \<open>Audit context and events\<close>

definition AUDIT_FIELD_MAX_LEN :: nat where
  "AUDIT_FIELD_MAX_LEN = 256"

text \<open>The ellipsis of the truncation marker (U+2026) is the single character \<open>CHR 0x85\<close> here.\<close>

definition TRUNCATED :: string where
  "TRUNCATED = CHR 0x85 # ''<truncated>''"

fun type_name :: "pyval \<Rightarrow> string" where
  "type_name PNone = ''NoneType''"
| "type_name (PBool b) = ''bool''"
| "type_name (PInt n) = ''int''"
| "type_name (PFloat x) = ''float''"
| "type_name (PStr s) = ''str''"
| "type_name (PList xs) = ''list''"
| "type_name (PDict d) = ''dict''"

definition audit_safe :: "pyval \<Rightarrow> string" where
  "audit_safe value =
     (if \<not> is_str value then ''<non-string:'' @ type_name value @ ''>''
      else let s = str_of value in
        if length s > AUDIT_FIELD_MAX_LEN then take AUDIT_FIELD_MAX_LEN s @ TRUNCATED else s)"

record audit_ctx =
  ctx_message_id :: string
  ctx_sender :: string
  ctx_recipient :: string
  ctx_envelope_kid :: string
  ctx_issuer_iss :: string
  ctx_issuer_kid :: string

text \<open>\<open>dict.get(k, "")\<close>\<close>

definition get_or_empty :: "(string \<times> pyval) list \<Rightarrow> string \<Rightarrow> pyval" where
  "get_or_empty d k = (case map_of d k of None \<Rightarrow> PStr [] | Some v \<Rightarrow> v)"

definition initial_ctx :: "pyval \<Rightarrow> audit_ctx" where
  "initial_ctx envelope =
     (let raw = dict_of envelope in
      \<lparr>ctx_message_id = audit_safe (get_or_empty raw ''message_id''),
       ctx_sender = audit_safe (get_or_empty raw ''sender_spiffe_id''),
       ctx_recipient = audit_safe (get_or_empty raw ''recipient_spiffe_id''),
       ctx_envelope_kid = audit_safe (get_or_empty raw ''kid''),
       ctx_issuer_iss = [], ctx_issuer_kid = []\<rparr>)"

text \<open>\<open>_record\<close>: any exception of the sink becomes \<open>AUDIT_SINK_FAILURE\<close>.\<close>

definition record_event ::
  "('c, 'k) deps \<Rightarrow> audit_fields \<Rightarrow> 'k \<Rightarrow> (exn + unit) \<times> 'k" where
  "record_event D f k =
     (case d_audit D of
        None \<Rightarrow> (Inr (), k)
      | Some rc \<Rightarrow>
          (case rc f k of
             (None, k') \<Rightarrow> (Inr (), k')
           | (Some e, k') \<Rightarrow> (Inl (eve AUDIT_SINK_FAILURE), k')))"

text \<open>\<open>_emit\<close> and \<open>_emit_cap\<close>. The human-readable reason of a denial is not modelled: an event's
  \<open>reason\<close> is its \<open>reason_code\<close> here.\<close>

definition envelope_event :: "string \<Rightarrow> string \<Rightarrow> audit_ctx \<Rightarrow> audit_fields" where
  "envelope_event outcome code ctx =
     \<lparr>ev_timestamp = [], ev_event_type = ''envelope.verify'', ev_outcome = outcome,
      ev_reason = code, ev_message_id = ctx_message_id ctx, ev_sender = ctx_sender ctx,
      ev_recipient = ctx_recipient ctx, ev_envelope_kid = ctx_envelope_kid ctx,
      ev_issuer_iss = ctx_issuer_iss ctx, ev_issuer_kid = ctx_issuer_kid ctx,
      ev_reason_code = code, ev_artifact_version = ''envelope/v0''\<rparr>"

definition capability_event ::
  "string \<Rightarrow> string \<Rightarrow> string \<Rightarrow> string \<Rightarrow> audit_ctx \<Rightarrow> audit_fields" where
  "capability_event outcome code cap_iss cap_kid ctx =
     \<lparr>ev_timestamp = [], ev_event_type = ''capability.verify'', ev_outcome = outcome,
      ev_reason = code, ev_message_id = ctx_message_id ctx, ev_sender = ctx_sender ctx,
      ev_recipient = ctx_recipient ctx, ev_envelope_kid = ctx_envelope_kid ctx,
      ev_issuer_iss = cap_iss, ev_issuer_kid = cap_kid,
      ev_reason_code = code, ev_artifact_version = ''wt-cap+jwt''\<rparr>"


section \<open>The verifier\<close>

text \<open>The part of the \<open>try\<close> block before the capability token: it changes no state. Its result
  is the pair of the parsed times. \<open>current\<close> is \<open>now\<close> or the wall clock, in UTC.\<close>

definition check_window ::
  "verification_config \<Rightarrow> datetime \<Rightarrow> datetime \<Rightarrow> datetime \<Rightarrow> exn + unit" where
  "check_window cfg issued_at expires_at current =
     bindE (guard (\<not> issued_at - current > max_clock_skew cfg) (eve ISSUED_AT_IN_FUTURE)) (\<lambda>_.
     bindE (guard (\<not> current - expires_at > max_clock_skew cfg) (eve ENVELOPE_EXPIRED)) (\<lambda>_.
     bindE (guard (\<not> expires_at \<le> issued_at) (eve INVALID_VALIDITY_WINDOW)) (\<lambda>_.
     guard (\<not> expires_at - issued_at > max_envelope_ttl cfg) (eve ENVELOPE_TTL_EXCEEDED))))"

definition verify_front ::
  "platform \<Rightarrow> ('c, 'k) deps \<Rightarrow> verification_config \<Rightarrow> datetime \<Rightarrow> pyval \<Rightarrow>
   exn + datetime \<times> datetime" where
  "verify_front P D cfg current v =
     bindE (guard (is_dict v) (eve ENVELOPE_NOT_OBJECT)) (\<lambda>_.
     bindE (check_json_depth v (max_json_depth cfg)) (\<lambda>_.
     let envelope = dict_of v in
     bindE (guard (filter (\<lambda>k. \<not> has_key envelope k) REQUIRED_FIELDS = [])
              (eve MISSING_REQUIRED_FIELD)) (\<lambda>_.
     bindE (validate_static_fields envelope) (\<lambda>_.
     bindE (getitem envelope ''issued_at'') (\<lambda>ia.
     bindE (parse_rfc3339 P ia) (\<lambda>issued_at.
     bindE (getitem envelope ''expires_at'') (\<lambda>ea.
     bindE (parse_rfc3339 P ea) (\<lambda>expires_at.
     bindE (check_window cfg issued_at expires_at current) (\<lambda>_.
     bindE (getitem envelope ''payload'') (\<lambda>payload.
     bindE (digest_payload P payload) (\<lambda>computed_digest.
     bindE (getitem envelope ''payload_digest'') (\<lambda>payload_digest.
     bindE (guard (py_eq (PStr computed_digest) payload_digest) (eve PAYLOAD_DIGEST_MISMATCH)) (\<lambda>_.
     bindE (canonicalize_envelope_for_signing P envelope) (\<lambda>signing_input.
     bindE (getitem envelope ''kid'') (\<lambda>kid.
     bindE (d_key_lookup D (str_of kid)) (\<lambda>public_key_pem.
     bindE (getitem envelope ''alg'') (\<lambda>alg.
     bindE (if py_eq (PStr ''Ed25519'') alg then
              bindE (getitem envelope ''signature'') (\<lambda>signature.
              bindE (verify_ed25519_signature P signing_input signature public_key_pem) (\<lambda>ok.
              guard ok (eve SIGNATURE_INVALID)))
            else Inr ()) (\<lambda>_.
     Inr (issued_at, expires_at)))))))))))))))))))"

definition verify_cap ::
  "platform \<Rightarrow> ('c, 'k) deps \<Rightarrow> verification_config \<Rightarrow> datetime \<Rightarrow> pyval \<Rightarrow>
   exn + capability_claims" where
  "verify_cap P D cfg current v =
     bindE (getitem (dict_of v) ''capability_token'') (\<lambda>token.
     verify_capability_token P token (dict_of v) (d_issuer_lookup D) current
       (max_clock_skew cfg) (max_capability_ttl cfg) (d_revocation D))"

text \<open>The whole \<open>try\<close> block: result, audit context, cache and sink at its end.\<close>

definition verify_try ::
  "platform \<Rightarrow> ('c, 'k) deps \<Rightarrow> verification_config \<Rightarrow> datetime \<Rightarrow> pyval \<Rightarrow> 'c \<Rightarrow> 'k \<Rightarrow>
   (exn + capability_claims) \<times> audit_ctx \<times> 'c \<times> 'k" where
  "verify_try P D cfg current v c k =
     (let ctx = initial_ctx v in
      case verify_front P D cfg current v of
        Inl e \<Rightarrow> (Inl e, ctx, c, k)
      | Inr (issued_at, expires_at) \<Rightarrow>
          (case verify_cap P D cfg current v of
             Inl e \<Rightarrow>
               if is_eve e then
                 (case record_event D (capability_event ''deny'' (reason_code e) [] [] ctx) k of
                    (Inl e', k') \<Rightarrow> (Inl e', ctx, c, k')
                  | (Inr _, k') \<Rightarrow> (Inl e, ctx, c, k'))
               else (Inl e, ctx, c, k)
           | Inr claims \<Rightarrow>
               (case record_event D
                       (capability_event ''allow'' ''ok'' (cl_iss claims) (cl_issuer_kid claims) ctx) k of
                  (Inl e', k') \<Rightarrow> (Inl e', ctx, c, k')
                | (Inr _, k') \<Rightarrow>
                    let ctx' = ctx\<lparr>ctx_issuer_iss := cl_iss claims,
                                   ctx_issuer_kid := cl_issuer_kid claims\<rparr>;
                        sender = str_of (item (dict_of v) ''sender_spiffe_id'');
                        nonce = str_of (item (dict_of v) ''nonce'');
                        ttl = max (expires_at - current) (seconds 0)
                    in case d_mark_if_new D (sender, nonce) ttl c of
                         (Inl e, c') \<Rightarrow> (Inl e, ctx', c', k')
                       | (Inr False, c') \<Rightarrow> (Inl (eve REPLAY_DETECTED), ctx', c', k')
                       | (Inr True, c') \<Rightarrow> (Inr claims, ctx', c', k'))))"

text \<open>The two handlers and the final event.\<close>

definition deny ::
  "('c, 'k) deps \<Rightarrow> exn \<Rightarrow> audit_ctx \<Rightarrow> 'k \<Rightarrow> (exn + capability_claims) \<times> 'k" where
  "deny D e ctx k =
     (let e' = (if is_eve e then e else eve VERIFIER_INTERNAL_ERROR) in
      case record_event D (envelope_event ''deny'' (reason_code e') ctx) k of
        (Inl x, k') \<Rightarrow> (Inl x, k')
      | (Inr _, k') \<Rightarrow> (Inl e', k'))"

definition verify_envelope ::
  "platform \<Rightarrow> ('c, 'k) deps \<Rightarrow> verification_config \<Rightarrow> datetime \<Rightarrow> pyval \<Rightarrow> 'c \<Rightarrow> 'k \<Rightarrow>
   (exn + capability_claims) \<times> 'c \<times> 'k" where
  "verify_envelope P D cfg current v c k =
     (case verify_try P D cfg current v c k of
        (Inl e, ctx, c', k') \<Rightarrow> (case deny D e ctx k' of (r, k'') \<Rightarrow> (r, c', k''))
      | (Inr claims, ctx, c', k') \<Rightarrow>
          (case record_event D (envelope_event ''allow'' ''ok'' ctx) k' of
             (Inl x, k'') \<Rightarrow> (Inl x, c', k'')
           | (Inr _, k'') \<Rightarrow> (Inr claims, c', k'')))"

text \<open>\<open>Verifier.try_verify\<close>: a result object instead of an exception; foreign exceptions escape.\<close>

record verification_result =
  vr_ok :: bool
  vr_claims :: "capability_claims option"

definition try_verify ::
  "platform \<Rightarrow> ('c, 'k) deps \<Rightarrow> verification_config \<Rightarrow> datetime \<Rightarrow> pyval \<Rightarrow> 'c \<Rightarrow> 'k \<Rightarrow>
   (exn + verification_result) \<times> 'c \<times> 'k" where
  "try_verify P D cfg current v c k =
     (case verify_envelope P D cfg current v c k of
        (Inl e, c', k') \<Rightarrow>
          (if is_eve e then (Inr \<lparr>vr_ok = False, vr_claims = None\<rparr>, c', k') else (Inl e, c', k'))
      | (Inr claims, c', k') \<Rightarrow> (Inr \<lparr>vr_ok = True, vr_claims = Some claims\<rparr>, c', k'))"


section \<open>The depth check\<close>

fun json_depth :: "pyval \<Rightarrow> nat" where
  "json_depth (PDict d) = Suc (foldr max (map (\<lambda>kv. json_depth (snd kv)) d) 0)"
| "json_depth (PList xs) = Suc (foldr max (map json_depth xs) 0)"
| "json_depth _ = 0"

lemma json_depth_container:
  "is_container v \<Longrightarrow> json_depth v = Suc (foldr max (map json_depth (children v)) 0)"
  by (cases v) (auto simp: children_def o_def)

lemma json_depth_scalar: "\<not> is_container v \<Longrightarrow> json_depth v = 0"
  by (cases v) auto

lemma foldr_max_le: "foldr max xs (0::nat) \<le> n \<longleftrightarrow> (\<forall>x\<in>set xs. x \<le> n)"
  by (induction xs) auto

definition depth_ok :: "int \<Rightarrow> pyval \<times> int \<Rightarrow> bool" where
  "depth_ok m = (\<lambda>(v, d). is_container v \<longrightarrow> d + int (json_depth v) \<le> m + 1)"

lemma depth_ok_children:
  assumes "is_container v" "d \<le> m"
  shows "depth_ok m (v, d) \<longleftrightarrow> (\<forall>w\<in>set (children v). depth_ok m (w, d + 1))"
proof -
  have "depth_ok m (v, d) \<longleftrightarrow> foldr max (map json_depth (children v)) 0 \<le> nat (m - d)"
    using assms by (auto simp: depth_ok_def json_depth_container)
  also have "\<dots> \<longleftrightarrow> (\<forall>w\<in>set (children v). json_depth w \<le> nat (m - d))"
    by (simp add: foldr_max_le)
  also have "\<dots> \<longleftrightarrow> (\<forall>w\<in>set (children v). depth_ok m (w, d + 1))"
    using assms(2) by (intro ball_cong refl) (auto simp: depth_ok_def json_depth_scalar nat_le_iff le_nat_iff)
  finally show ?thesis .
qed

lemma depth_loop_spec:
  "depth_loop m stack =
     (if \<forall>x\<in>set stack. depth_ok m x then Inr () else Inl (eve ENVELOPE_TOO_DEEP))"
proof (induction m stack rule: depth_loop.induct)
  case (2 m node d stack)
  consider "\<not> is_container node" | "is_container node" "d > m" | "is_container node" "d \<le> m"
    by linarith
  then show ?case
  proof cases
    case 1
    then show ?thesis using "2.IH"(1) by (simp add: depth_ok_def)
  next
    case 2
    then have "\<not> depth_ok m (node, d)" by (auto simp: depth_ok_def json_depth_container)
    then show ?thesis using 2 by simp
  next
    case 3
    have "(\<forall>w\<in>set (filter is_container (children node)). depth_ok m (w, d + 1)) \<longleftrightarrow>
        depth_ok m (node, d)"
      unfolding depth_ok_children[OF 3] by (auto simp: depth_ok_def)
    then show ?thesis using "2.IH"(2) 3 by auto
  qed
qed simp

lemma check_json_depth_Inr:
  "check_json_depth v m = Inr () \<longleftrightarrow> (is_container v \<longrightarrow> int (json_depth v) \<le> m)"
  by (simp add: check_json_depth_def depth_loop_spec depth_ok_def)


section \<open>What acceptance establishes\<close>

lemma check_field_Inr:
  "check_field p env k r = Inr () \<longleftrightarrow> (\<exists>s. map_of env k = Some (PStr s) \<and> p s)"
  by (auto simp: check_field_def str_test_iff)

text \<open>An envelope whose static fields are in order.\<close>

definition static_ok :: "(string \<times> pyval) list \<Rightarrow> bool" where
  "static_ok env \<longleftrightarrow>
     map_of env ''version'' = Some (PStr ''v0'') \<and>
     (\<exists>s. map_of env ''message_id'' = Some (PStr s) \<and> uuid_v7_re s) \<and>
     (\<exists>s. map_of env ''sender_spiffe_id'' = Some (PStr s) \<and> spiffe_id_re s) \<and>
     (\<exists>s. map_of env ''recipient_spiffe_id'' = Some (PStr s) \<and> spiffe_id_re s) \<and>
     (\<exists>s. map_of env ''nonce'' = Some (PStr s) \<and> nonce_re s) \<and>
     (\<exists>s. map_of env ''kid'' = Some (PStr s) \<and> kid_re s) \<and>
     (\<exists>s. map_of env ''payload_digest'' = Some (PStr s) \<and> hex_sha256_re s) \<and>
     map_of env ''alg'' = Some (PStr ''Ed25519'')"

lemma validate_static_fields_Inr: "validate_static_fields env = Inr () \<longleftrightarrow> static_ok env"
  by (simp add: validate_static_fields_def static_ok_def check_field_Inr ALLOWED_ALGORITHMS_def)

lemma check_window_Inr:
  "check_window cfg ia ea t = Inr () \<longleftrightarrow>
     ia \<le> t + max_clock_skew cfg \<and> t \<le> ea + max_clock_skew cfg \<and> ia < ea \<and>
     ea - ia \<le> max_envelope_ttl cfg"
  by (auto simp: check_window_def)

lemma canonical_json_Inr [simp]: "canonical_json P v = Inr b \<longleftrightarrow> p_canon P v = Inr b"
  by (auto simp: canonical_json_def split: sum.splits)

lemma verify_ed25519_signature_True:
  "verify_ed25519_signature P input sig pem = Inr True \<longleftrightarrow>
     (\<exists>raw key. decode_base64url sig = Inr raw \<and> p_load_pem P pem = Inr (Ed25519Key key) \<and>
        p_verify P key raw input)"
  by (auto simp: verify_ed25519_signature_def load_key_Inr)

text \<open>The signed part of an envelope and its signature, verified under the key of its \<open>kid\<close>.\<close>

definition envelope_signed :: "platform \<Rightarrow> ('c, 'k) deps \<Rightarrow> (string \<times> pyval) list \<Rightarrow> bool" where
  "envelope_signed P D env \<longleftrightarrow>
     (\<exists>sig raw input kid pem key.
        map_of env ''signature'' = Some sig \<and> decode_base64url sig = Inr raw \<and>
        p_canon P (PDict (unsigned_part env)) = Inr input \<and>
        map_of env ''kid'' = Some (PStr kid) \<and> d_key_lookup D kid = Inr pem \<and>
        p_load_pem P pem = Inr (Ed25519Key key) \<and> p_verify P key raw input)"

definition digest_matches :: "platform \<Rightarrow> (string \<times> pyval) list \<Rightarrow> bool" where
  "digest_matches P env \<longleftrightarrow>
     (\<exists>payload b. map_of env ''payload'' = Some payload \<and> p_canon P payload = Inr b \<and>
        map_of env ''payload_digest'' = Some (PStr (p_sha256 P b)))"

definition times_read :: "platform \<Rightarrow> (string \<times> pyval) list \<Rightarrow> datetime \<Rightarrow> datetime \<Rightarrow> bool" where
  "times_read P env ia ea \<longleftrightarrow>
     (\<exists>v w. map_of env ''issued_at'' = Some v \<and> parse_rfc3339 P v = Inr ia \<and>
        map_of env ''expires_at'' = Some w \<and> parse_rfc3339 P w = Inr ea)"

definition front_ok ::
  "platform \<Rightarrow> ('c, 'k) deps \<Rightarrow> verification_config \<Rightarrow> datetime \<Rightarrow> pyval \<Rightarrow> datetime \<Rightarrow> datetime \<Rightarrow>
   bool" where
  "front_ok P D cfg t v ia ea \<longleftrightarrow>
     is_dict v \<and> int (json_depth v) \<le> max_json_depth cfg \<and>
     (\<forall>k\<in>set REQUIRED_FIELDS. has_key (dict_of v) k) \<and> static_ok (dict_of v) \<and>
     times_read P (dict_of v) ia ea \<and> check_window cfg ia ea t = Inr () \<and>
     digest_matches P (dict_of v) \<and> envelope_signed P D (dict_of v)"

lemma verify_front_Inr:
  assumes "verify_front P D cfg t v = Inr (ia, ea)"
  shows "front_ok P D cfg t v ia ea"
proof -
  obtain env where v: "v = PDict env"
    using assms by (auto simp: verify_front_def is_dict_iff)
  note f = assms[unfolded v verify_front_def, simplified, simplified Let_def, simplified]
  have static: "static_ok env" using f by (auto simp: validate_static_fields_Inr)
  then obtain kid where kid: "map_of env ''kid'' = Some (PStr kid)"
    and alg: "map_of env ''alg'' = Some (PStr ''Ed25519'')"
    by (auto simp: static_ok_def)
  show ?thesis
    using f static kid alg
    by (auto simp: v front_ok_def check_json_depth_Inr times_read_def digest_matches_def
        digest_payload_def envelope_signed_def canonicalize_envelope_for_signing_def
        verify_ed25519_signature_True filter_empty_conv split: if_splits)
qed

lemma front_ok_verify:
  assumes "front_ok P D cfg t v ia ea"
  shows "verify_front P D cfg t v = Inr (ia, ea)"
proof -
  obtain env where v: "v = PDict env"
    using assms by (auto simp: front_ok_def is_dict_iff)
  note f = assms[unfolded v front_ok_def, simplified]
  obtain kid where kid: "map_of env ''kid'' = Some (PStr kid)"
    and alg: "map_of env ''alg'' = Some (PStr ''Ed25519'')"
    using f by (auto simp: static_ok_def)
  obtain sig raw input pem key where sig: "map_of env ''signature'' = Some sig"
    "decode_base64url sig = Inr raw" "p_canon P (PDict (unsigned_part env)) = Inr input"
    "d_key_lookup D kid = Inr pem" "p_load_pem P pem = Inr (Ed25519Key key)" "p_verify P key raw input"
    using f kid by (auto simp: envelope_signed_def)
  have "canonicalize_envelope_for_signing P env = Inr input"
    using sig by (simp add: canonicalize_envelope_for_signing_def has_key_def)
  moreover have "verify_ed25519_signature P input sig pem = Inr True"
    using sig by (auto simp: verify_ed25519_signature_True)
  ultimately show ?thesis
    using f kid alg sig
    by (auto simp: v verify_front_def check_json_depth_Inr validate_static_fields_Inr times_read_def
        digest_matches_def digest_payload_def filter_empty_conv)
qed

lemma verify_front_iff: "verify_front P D cfg t v = Inr (ia, ea) \<longleftrightarrow> front_ok P D cfg t v ia ea"
  using verify_front_Inr front_ok_verify by blast

lemma record_event_None: "d_audit D = None \<Longrightarrow> record_event D f k = (Inr (), k)"
  by (simp add: record_event_def)

lemma record_event_Inl: "record_event D f k = (Inl e, k') \<Longrightarrow> e = eve AUDIT_SINK_FAILURE"
  by (auto simp: record_event_def split: option.splits prod.splits)

definition with_issuer :: "audit_ctx \<Rightarrow> capability_claims \<Rightarrow> audit_ctx" where
  "with_issuer ctx cl = ctx\<lparr>ctx_issuer_iss := cl_iss cl, ctx_issuer_kid := cl_issuer_kid cl\<rparr>"

definition reservation_key :: "pyval \<Rightarrow> nonce_key" where
  "reservation_key v =
     (str_of (item (dict_of v) ''sender_spiffe_id''), str_of (item (dict_of v) ''nonce''))"

definition allow_cap_event :: "pyval \<Rightarrow> capability_claims \<Rightarrow> audit_fields" where
  "allow_cap_event v cl =
     capability_event ''allow'' ''ok'' (cl_iss cl) (cl_issuer_kid cl) (initial_ctx v)"

definition allow_event :: "pyval \<Rightarrow> capability_claims \<Rightarrow> audit_fields" where
  "allow_event v cl = envelope_event ''allow'' ''ok'' (with_issuer (initial_ctx v) cl)"

lemma verify_envelope_accepts:
  "verify_envelope P D cfg t v c k = (Inr cl, c', k') \<longleftrightarrow>
     (\<exists>ia ea k1. front_ok P D cfg t v ia ea \<and> verify_cap P D cfg t v = Inr cl \<and>
        record_event D (allow_cap_event v cl) k = (Inr (), k1) \<and>
        d_mark_if_new D (reservation_key v) (max (ea - t) (seconds 0)) c = (Inr True, c') \<and>
        record_event D (allow_event v cl) k1 = (Inr (), k'))"
proof -
  have body: "verify_try P D cfg t v c k = (Inr cl, ctx, c', k1) \<longleftrightarrow>
      (\<exists>ia ea. front_ok P D cfg t v ia ea \<and> verify_cap P D cfg t v = Inr cl \<and>
        record_event D (allow_cap_event v cl) k = (Inr (), k1) \<and>
        d_mark_if_new D (reservation_key v) (max (ea - t) (seconds 0)) c = (Inr True, c') \<and>
        ctx = with_issuer (initial_ctx v) cl)" for ctx k1
  proof (cases "verify_front P D cfg t v")
    case (Inr p)
    then obtain ia ea where f: "verify_front P D cfg t v = Inr (ia, ea)" by (cases p) auto
    then have fo: "front_ok P D cfg t v i e \<longleftrightarrow> i = ia \<and> e = ea" for i e
      by (auto simp: verify_front_iff[symmetric])
    show ?thesis
      by (cases "verify_cap P D cfg t v")
        (auto simp: verify_try_def f fo Let_def allow_cap_event_def with_issuer_def
          reservation_key_def split: sum.splits prod.splits bool.splits)
  qed (auto simp: verify_try_def Let_def verify_front_iff[symmetric])
  show ?thesis
  proof (cases "verify_try P D cfg t v c k")
    case (fields r ctx c1 k1)
    show ?thesis
    proof (cases r)
      case (Inl e)
      then have "verify_envelope P D cfg t v c k \<noteq> (Inr cl, c', k')"
        by (auto simp: verify_envelope_def fields deny_def Let_def split: sum.splits prod.splits)
      moreover have "\<And>ctx k1. verify_try P D cfg t v c k \<noteq> (Inr cl, ctx, c', k1)"
        using fields Inl by simp
      ultimately show ?thesis unfolding body by blast
    next
      case (Inr cl')
      have "verify_envelope P D cfg t v c k = (Inr cl, c', k') \<longleftrightarrow>
          (\<exists>k2. verify_try P D cfg t v c k = (Inr cl, ctx, c', k2) \<and>
             record_event D (envelope_event ''allow'' ''ok'' ctx) k2 = (Inr (), k'))"
        by (auto simp: verify_envelope_def fields Inr split: sum.splits prod.splits)
      also have "\<dots> \<longleftrightarrow> (\<exists>k2. verify_try P D cfg t v c k = (Inr cl, with_issuer (initial_ctx v) cl, c', k2) \<and>
          record_event D (allow_event v cl) k2 = (Inr (), k'))"
        unfolding allow_event_def using body fields by (metis prod.inject)
      finally show ?thesis unfolding body by blast
    qed
  qed
qed

text \<open>Only envelope errors leave the verifier, whatever its callbacks raise.\<close>

lemma verify_envelope_errors:
  "verify_envelope P D cfg t v c k = (Inl e, c', k') \<Longrightarrow> is_eve e"
  by (auto simp: verify_envelope_def deny_def Let_def split: sum.splits prod.splits if_splits
      dest: record_event_Inl)


section \<open>What the audit evs shows\<close>

text \<open>\<open>evs\<close> reads the events out of the sink's state, time stamps blanked.\<close>

definition logs_to :: "(audit_fields \<Rightarrow> 'k \<Rightarrow> exn option \<times> 'k) \<Rightarrow> ('k \<Rightarrow> audit_fields list) \<Rightarrow> bool" where
  "logs_to rc evs \<longleftrightarrow>
     (\<forall>f k. ev_timestamp f = [] \<longrightarrow>
        evs (snd (rc f k)) = (if fst (rc f k) = None then evs k @ [f] else evs k))"

lemma record_event_log:
  assumes "d_audit D = Some rc" "logs_to rc evs" "record_event D f k = (r, k')" "ev_timestamp f = []"
  shows "evs k' = (case r of Inl e \<Rightarrow> evs k | Inr u \<Rightarrow> evs k @ [f])"
  using assms by (auto simp: record_event_def logs_to_def split: prod.splits option.splits)
     (metis fst_conv snd_conv option.distinct(1))+

lemma event_stamps [simp]:
  "ev_timestamp (envelope_event x y ctx) = []"
  "ev_timestamp (capability_event x y a b ctx) = []"
  "ev_timestamp (allow_cap_event v cl) = []" "ev_timestamp (allow_event v cl) = []"
  by (simp_all add: envelope_event_def capability_event_def allow_cap_event_def allow_event_def)

lemma verify_envelope_allow_log:
  assumes "d_audit D = Some rc" "logs_to rc evs"
    and "verify_envelope P D cfg t v c k = (Inr cl, c', k')"
  shows "evs k' = evs k @ [allow_cap_event v cl, allow_event v cl]"
  using assms(3) record_event_log[OF assms(1,2)]
  unfolding verify_envelope_accepts by fastforce

lemma verify_try_log:
  assumes "d_audit D = Some rc" "logs_to rc evs"
    and "verify_try P D cfg t v c k = (r, ctx, c', k')"
  shows "\<exists>pre. evs k' = evs k @ pre \<and> length pre \<le> 1"
    "ctx_message_id ctx = ctx_message_id (initial_ctx v)"
proof -
  note rl = record_event_log[OF assms(1,2)]
  have "(\<exists>pre. evs k' = evs k @ pre \<and> length pre \<le> 1) \<and>
      ctx_message_id ctx = ctx_message_id (initial_ctx v)"
  proof (cases "verify_front P D cfg t v")
    case (Inl e)
    then show ?thesis using assms(3) by (auto simp: verify_try_def Let_def)
  next
    case (Inr p)
    obtain ia ea where p: "p = (ia, ea)" by (cases p)
    show ?thesis
    proof (cases "verify_cap P D cfg t v")
      case (Inl e)
      obtain r1 k1 where r1:
        "record_event D (capability_event ''deny'' (reason_code e) [] [] (initial_ctx v)) k = (r1, k1)"
        by fastforce
      show ?thesis
        using assms(3) Inl Inr p r1 rl[OF r1]
        by (auto simp: verify_try_def Let_def split: sum.splits if_splits)
    next
      case (Inr cl)
      obtain r1 k1 where r1:
        "record_event D (capability_event ''allow'' ''ok'' (cl_iss cl) (cl_issuer_kid cl) (initial_ctx v)) k
           = (r1, k1)"
        by fastforce
      show ?thesis
        using assms(3) Inr \<open>verify_front P D cfg t v = Inr p\<close> p r1 rl[OF r1]
        by (auto simp: verify_try_def Let_def split: sum.splits prod.splits bool.splits)
    qed
  qed
  then show "\<exists>pre. evs k' = evs k @ pre \<and> length pre \<le> 1"
    "ctx_message_id ctx = ctx_message_id (initial_ctx v)" by auto
qed

lemma verify_envelope_deny_log:
  assumes "d_audit D = Some rc" "logs_to rc evs"
    and "verify_envelope P D cfg t v c k = (Inl e, c', k')" "e \<noteq> eve AUDIT_SINK_FAILURE"
  shows "\<exists>pre ctx. evs k' = evs k @ pre @ [envelope_event ''deny'' (reason_code e) ctx] \<and>
    length pre \<le> 1 \<and> ctx_message_id ctx = ctx_message_id (initial_ctx v)"
proof (cases "verify_try P D cfg t v c k")
  case (fields r ctx c1 k1)
  note tl = verify_try_log[OF assms(1,2) fields]
  obtain e0 where e0: "r = Inl e0"
    using assms(3,4) fields
    by (cases r) (auto simp: verify_envelope_def split: sum.splits prod.splits dest: record_event_Inl)
  define e1 where "e1 = (if is_eve e0 then e0 else eve VERIFIER_INTERNAL_ERROR)"
  have "deny D e0 ctx k1 = (Inl e, k')"
    using assms(3) fields e0 by (auto simp: verify_envelope_def split: prod.splits)
  then have "record_event D (envelope_event ''deny'' (reason_code e1) ctx) k1 = (Inr (), k') \<and> e1 = e"
    using assms(4)
    by (auto simp: deny_def Let_def e1_def[symmetric] split: sum.splits prod.splits
        dest: record_event_Inl)
  then have "evs k' = evs k1 @ [envelope_event ''deny'' (reason_code e) ctx]"
    using record_event_log[OF assms(1,2)] by fastforce
  then show ?thesis using tl by fastforce
qed

text \<open>The in-memory sink logs.\<close>

definition memory_audit :: "platform \<Rightarrow> datetime \<Rightarrow> audit_fields \<Rightarrow> memory_sink \<Rightarrow> exn option \<times> memory_sink" where
  "memory_audit P wall f k =
     (case memory_record P wall f k of (Inl e, k') \<Rightarrow> (Some e, k') | (Inr ev, k') \<Rightarrow> (None, k'))"

definition blanked :: "memory_sink \<Rightarrow> audit_fields list" where
  "blanked k = map (\<lambda>e. (fields_of e)\<lparr>ev_timestamp := []\<rparr>) k"

lemma memory_audit_logs: "logs_to (memory_audit P wall) blanked"
  unfolding logs_to_def
proof (intro allI impI)
  fix f :: audit_fields and k assume f: "ev_timestamp f = []"
  obtain r k' where r: "memory_record P wall f k = (r, k')" by fastforce
  note ev = memory_sink.record_cases[OF TrueI TrueI r[unfolded memory_record_def]]
  show "blanked (snd (memory_audit P wall f k)) =
      (if fst (memory_audit P wall f k) = None then blanked k @ [f] else blanked k)"
  proof (cases r)
    case (Inl e)
    then show ?thesis using ev by (simp add: memory_audit_def r)
  next
    case (Inr x)
    have "fields_of x = f\<lparr>ev_timestamp := utc_stamp P wall\<rparr>"
      using memory_sink.record_event(1)[OF TrueI r[unfolded memory_record_def Inr]] .
    then have "(fields_of x)\<lparr>ev_timestamp := []\<rparr> = f" using f by (cases f) simp
    then show ?thesis using ev Inr by (simp add: memory_audit_def r blanked_def)
  qed
qed


section \<open>The verifier on a cache with the replay contract\<close>

text \<open>The replay caches read the wall clock themselves; \<open>wall\<close> is what they read.\<close>

definition atomic_cache ::
  "(nonce_key \<Rightarrow> timedelta \<Rightarrow> datetime \<Rightarrow> 'c \<Rightarrow> bool \<times> 'c) \<Rightarrow> datetime \<Rightarrow>
   nonce_key \<Rightarrow> timedelta \<Rightarrow> 'c \<Rightarrow> (exn + bool) \<times> 'c" where
  "atomic_cache mark wall key ttl c = (case mark key ttl wall c of (b, c') \<Rightarrow> (Inr b, c'))"

end
