(* ===== verification/Artifact.thy ===== *)
theory Artifact
  imports CapabilityToken
begin

text \<open>
  What the verifiers of the signed artifacts share (delegation receipts, session tokens,
  re-admission attestations, safe-mode artifacts): the wrapper that emits one audit event per
  outcome, the arithmetic Python does on unchecked values, and the fields their sink calls carry.
  The values handed to the sink come straight from the artifact and may be anything, so a sink
  call is the list of its keyword arguments.
\<close>

section \<open>Audited verification\<close>

type_synonym kwargs = "(string \<times> pyval) list"
type_synonym 'k kw_sink = "(kwargs \<Rightarrow> 'k \<Rightarrow> exn option \<times> 'k) option"

definition artifact_event ::
  "string \<Rightarrow> string \<Rightarrow> string \<Rightarrow> string \<Rightarrow> pyval \<Rightarrow> pyval \<Rightarrow> pyval \<Rightarrow> pyval \<Rightarrow> pyval \<Rightarrow> pyval \<Rightarrow> kwargs" where
  "artifact_event event_type version outcome code message_id sender recipient kid iss issuer_kid =
     [(''event_type'', PStr event_type), (''outcome'', PStr outcome), (''reason'', PStr code),
      (''reason_code'', PStr code), (''artifact_version'', PStr version),
      (''message_id'', message_id), (''sender'', sender), (''recipient'', recipient),
      (''envelope_kid'', kid), (''issuer_iss'', iss), (''issuer_kid'', issuer_kid)]"

text \<open>\<open>_emit_verify\<close>: a failing sink becomes the module's own error.\<close>

definition emit_kw :: "exn_class \<Rightarrow> 'k kw_sink \<Rightarrow> kwargs \<Rightarrow> 'k \<Rightarrow> (exn + unit) \<times> 'k" where
  "emit_kw cls sink ev k =
     (case sink of
        None \<Rightarrow> (Inr (), k)
      | Some rc \<Rightarrow>
          (case rc ev k of
             (None, k') \<Rightarrow> (Inr (), k')
           | (Some e, k') \<Rightarrow> (Inl (raise_as cls AUDIT_SINK_FAILURE), k')))"

text \<open>\<open>verify_record\<close> and the issuer do not translate an exception of the sink: it leaves as it is.\<close>

definition emit_raw :: "'k kw_sink \<Rightarrow> kwargs \<Rightarrow> 'k \<Rightarrow> (exn + unit) \<times> 'k" where
  "emit_raw sink ev k =
     (case sink of
        None \<Rightarrow> (Inr (), k)
      | Some rc \<Rightarrow> (case rc ev k of (None, k') \<Rightarrow> (Inr (), k') | (Some e, k') \<Rightarrow> (Inl e, k')))"

text \<open>The policy gates: a decision is recorded, and a failing sink replaces it by a denial.\<close>

definition emit_or_deny :: "'k kw_sink \<Rightarrow> kwargs \<Rightarrow> 'd \<Rightarrow> 'd \<Rightarrow> 'k \<Rightarrow> 'd \<times> 'k" where
  "emit_or_deny sink ev failed d k =
     (case sink of
        None \<Rightarrow> (d, k)
      | Some rc \<Rightarrow> (case rc ev k of (None, k') \<Rightarrow> (d, k') | (Some e, k') \<Rightarrow> (failed, k')))"

text \<open>The shape of \<open>verify_receipt\<close>, \<open>verify_session_token\<close>, \<open>verify_resume\<close> and the others:
  the inner check in a \<open>try\<close>, its own error class caught, audited and re-raised, then the allow
  event. An exception of another class passes through without an event.\<close>

definition audited ::
  "exn_class \<Rightarrow> 'k kw_sink \<Rightarrow> (string \<Rightarrow> string \<Rightarrow> kwargs) \<Rightarrow> exn + 'a \<Rightarrow> 'k \<Rightarrow> (exn + 'a) \<times> 'k" where
  "audited cls sink event r k =
     (case r of
        Inl e \<Rightarrow>
          if exn_cls e = cls then
            (case emit_kw cls sink (event ''deny'' (reason_code e)) k of
               (Inl x, k') \<Rightarrow> (Inl x, k')
             | (Inr _, k') \<Rightarrow> (Inl e, k'))
          else (Inl e, k)
      | Inr a \<Rightarrow>
          (case emit_kw cls sink (event ''allow'' ''ok'') k of
             (Inl x, k') \<Rightarrow> (Inl x, k')
           | (Inr _, k') \<Rightarrow> (Inr a, k')))"

lemma audited_Inr:
  "audited cls sink event r k = (Inr a, k') \<longleftrightarrow>
     r = Inr a \<and> emit_kw cls sink (event ''allow'' ''ok'') k = (Inr (), k')"
  by (auto simp: audited_def split: sum.splits prod.splits)

lemma audited_returned: "fst (audited cls sink event r k) = Inr a \<Longrightarrow> r = Inr a"
  by (cases "audited cls sink event r k") (simp add: audited_Inr)

lemma audited_no_sink [simp]: "audited cls None event r k = (r, k)"
  by (auto simp: audited_def emit_kw_def split: sum.splits)

text \<open>\<open>kw_logs rc evs\<close>: a successful call appends its event to the log \<open>evs\<close> reads.\<close>

definition kw_logs :: "(kwargs \<Rightarrow> 'k \<Rightarrow> exn option \<times> 'k) \<Rightarrow> ('k \<Rightarrow> kwargs list) \<Rightarrow> bool" where
  "kw_logs rc evs \<longleftrightarrow>
     (\<forall>f k. evs (snd (rc f k)) = (if fst (rc f k) = None then evs k @ [f] else evs k))"

text \<open>A sink that keeps the list of its calls.\<close>

definition list_sink :: "kwargs \<Rightarrow> kwargs list \<Rightarrow> exn option \<times> kwargs list" where
  "list_sink ev k = (None, k @ [ev])"

lemma list_sink_logs: "kw_logs list_sink (\<lambda>k. k)"
  by (simp add: kw_logs_def list_sink_def)

lemma audited_log:
  assumes "kw_logs rc evs" "audited cls (Some rc) event r k = (r', k')"
  shows "case r' of
      Inr a \<Rightarrow> r = Inr a \<and> evs k' = evs k @ [event ''allow'' ''ok'']
    | Inl e \<Rightarrow> (exn_cls e = cls \<and> evs k' = evs k @ [event ''deny'' (reason_code e)]) \<or>
        (e = raise_as cls AUDIT_SINK_FAILURE \<and> evs k' = evs k) \<or>
        (r = Inl e \<and> exn_cls e \<noteq> cls \<and> k' = k)"
proof -
  have log: "evs k1 = (if x = None then evs k @ [f] else evs k)" if "rc f k = (x, k1)" for f x k1
    using assms(1) that unfolding kw_logs_def by (metis fst_conv snd_conv)
  show ?thesis
    using assms(2) by (auto simp: audited_def emit_kw_def split: sum.splits prod.splits option.splits
        if_splits dest: log)
qed

lemma emit_raw_Inr: "emit_raw sink ev k = (Inr u, k') \<Longrightarrow> sink = None \<or> (\<exists>rc. sink = Some rc \<and> rc ev k = (None, k'))"
  by (auto simp: emit_raw_def split: option.splits prod.splits)

lemma emit_raw_log:
  assumes "kw_logs rc evs" "emit_raw (Some rc) ev k = (x, k1)"
  shows "evs k1 = (case x of Inr u \<Rightarrow> evs k @ [ev] | Inl e \<Rightarrow> evs k)"
proof -
  have "evs (snd (rc ev k)) = (if fst (rc ev k) = None then evs k @ [ev] else evs k)"
    using assms(1) unfolding kw_logs_def by blast
  then show ?thesis using assms(2) by (auto simp: emit_raw_def split: prod.splits option.splits)
qed

lemma emit_or_deny_cases: "fst (emit_or_deny sink ev failed d k) = d \<or> fst (emit_or_deny sink ev failed d k) = failed"
  by (auto simp: emit_or_deny_def split: option.splits prod.splits)

lemma emit_or_deny_log:
  assumes "kw_logs rc evs" "emit_or_deny (Some rc) ev failed d k = (d', k')"
  shows "(d' = d \<and> evs k' = evs k @ [ev]) \<or> (d' = failed \<and> evs k' = evs k)"
proof -
  have "evs (snd (rc ev k)) = (if fst (rc ev k) = None then evs k @ [ev] else evs k)"
    using assms(1) unfolding kw_logs_def by blast
  then show ?thesis using assms(2) by (auto simp: emit_or_deny_def split: prod.splits option.splits)
qed


section \<open>Unchecked values\<close>

text \<open>\<open>bool(v)\<close>\<close>

fun truthy :: "pyval \<Rightarrow> bool" where
  "truthy PNone = False"
| "truthy (PBool b) = b"
| "truthy (PInt n) = (n \<noteq> 0)"
| "truthy (PFloat x) = (x \<noteq> Finite 0)"
| "truthy (PStr s) = (s \<noteq> [])"
| "truthy (PList xs) = (xs \<noteq> [])"
| "truthy (PDict d) = (d \<noteq> [])"

text \<open>\<open>v + n\<close> with an integer \<open>n\<close>; other operands raise \<open>TypeError\<close>. \<open>timedelta(seconds=v)\<close> rounds a
  float to the nearest microsecond, halves to even.\<close>

fun py_add_int :: "pyval \<Rightarrow> int \<Rightarrow> exn + pyval" where
  "py_add_int (PInt m) n = Inr (PInt (m + n))"
| "py_add_int (PBool b) n = Inr (PInt ((if b then 1 else 0) + n))"
| "py_add_int (PFloat (Finite q)) n = Inr (PFloat (Finite (q + of_int n)))"
| "py_add_int (PFloat x) n = Inr (PFloat x)"
| "py_add_int _ n = Inl (std_error ''TypeError'')"

definition round_half_even :: "rat \<Rightarrow> int" where
  "round_half_even q =
     (let f = floor q; d = q - of_int f in
      if d < 1 / 2 then f else if d > 1 / 2 then f + 1 else if even f then f else f + 1)"

fun timedelta_of :: "pyval \<Rightarrow> exn + timedelta" where
  "timedelta_of (PInt n) = timedelta_seconds n"
| "timedelta_of (PBool b) = timedelta_seconds (if b then 1 else 0)"
| "timedelta_of (PFloat (Finite q)) =
     bindE (timedelta_seconds (floor q)) (\<lambda>_. Inr (round_half_even (q * 1000000)))"
| "timedelta_of (PFloat NaN) = Inl (std_error ''ValueError'')"
| "timedelta_of (PFloat x) = Inl (std_error ''OverflowError'')"
| "timedelta_of _ = Inl (std_error ''TypeError'')"

lemma py_add_int_Inr:
  "py_add_int v n = Inr (PInt m) \<Longrightarrow> is_int v \<Longrightarrow> m = int_of v + n"
  by (cases v) auto

text \<open>Any exception of \<open>r\<close> becomes \<open>e\<close> (\<open>except Exception ... raise e\<close>), or only the envelope
  errors (\<open>except EnvelopeVerificationError\<close>).\<close>

definition catch_all :: "exn \<Rightarrow> exn + 'a \<Rightarrow> exn + 'a" where
  "catch_all e r = (case r of Inl x \<Rightarrow> Inl e | Inr a \<Rightarrow> Inr a)"

definition catch_eve :: "exn \<Rightarrow> exn + 'a \<Rightarrow> exn + 'a" where
  "catch_eve e r = (case r of Inl x \<Rightarrow> if is_eve x then Inl e else Inl x | Inr a \<Rightarrow> Inr a)"

lemma catch_Inr [simp]:
  "catch_all e r = Inr a \<longleftrightarrow> r = Inr a"
  "catch_eve e r = Inr a \<longleftrightarrow> r = Inr a"
  by (auto simp: catch_all_def catch_eve_def split: sum.splits)

lemma catch_all_Inl [simp]: "catch_all e r = Inl x \<longleftrightarrow> \<not> returned r \<and> x = e"
  by (cases r) (auto simp: catch_all_def)


section \<open>Windows and signatures\<close>

text \<open>The check of \<open>iat <= nbf <= exp\<close>, the lifetime and the current time that step-up attestations,
  review decisions and re-admission attestations share; the arguments are the errors for an
  invalid window, a lifetime too long, a time too early and one too late.\<close>

definition numeric_window ::
  "exn \<Rightarrow> exn \<Rightarrow> exn \<Rightarrow> exn \<Rightarrow> int \<Rightarrow> int \<Rightarrow> int \<Rightarrow> datetime \<Rightarrow> timedelta \<Rightarrow> timedelta \<Rightarrow> exn + unit" where
  "numeric_window invalid long early late iat nbf expiry current max_clock_skew max_ttl =
     bindE (guard (\<not> (iat > nbf \<or> nbf > expiry)) invalid) (\<lambda>_.
     bindE (timedelta_seconds (expiry - nbf)) (\<lambda>ttl.
     bindE (guard (\<not> ttl > max_ttl) long) (\<lambda>_.
     bindE (fromtimestamp nbf) (\<lambda>nbf_dt.
     bindE (fromtimestamp expiry) (\<lambda>exp_dt.
     guards [(\<not> current + max_clock_skew < nbf_dt, early), (\<not> current - max_clock_skew > exp_dt, late)])))))"

lemma numeric_window_Inr:
  "numeric_window invalid long early late iat nbf expiry current skew max_ttl = Inr u \<longleftrightarrow>
     iat \<le> nbf \<and> nbf \<le> expiry \<and> seconds (expiry - nbf) \<le> max_ttl \<and> seconds nbf \<le> current + skew \<and>
     current \<le> seconds expiry + skew \<and> timestamp_ok nbf \<and> timestamp_ok expiry"
  by (auto simp: numeric_window_def fromtimestamp_Inr timedelta_seconds_Inr intro: timedelta_ok_timestamps)

text \<open>The key of the issuer, and its signature of the canonical body; \<open>unknown\<close> is the error for an
  issuer the lookup denies, \<open>invalid\<close> the one for a bad signature.\<close>

definition issuer_signature ::
  "platform \<Rightarrow> (string \<Rightarrow> string \<Rightarrow> exn + string) \<Rightarrow> exn \<Rightarrow> exn \<Rightarrow> string \<Rightarrow> string \<Rightarrow> pyval \<Rightarrow> pyval \<Rightarrow> exn + unit" where
  "issuer_signature P issuer_lookup unknown invalid iss kid signature body =
     bindE (catch_eve unknown (issuer_lookup iss kid)) (\<lambda>pem.
     bindE (load_ed25519_public_key P pem) (\<lambda>key.
     bindE (catch_eve invalid (decode_base64url signature)) (\<lambda>sig_bytes.
     bindE (p_canon P body) (\<lambda>input.
     guard (p_verify P key sig_bytes input) invalid))))"

definition signed_by ::
  "platform \<Rightarrow> (string \<Rightarrow> string \<Rightarrow> exn + string) \<Rightarrow> string \<Rightarrow> string \<Rightarrow> pyval \<Rightarrow> pyval \<Rightarrow> bool" where
  "signed_by P issuer_lookup iss kid signature body \<longleftrightarrow>
     (\<exists>pem key raw input. issuer_lookup iss kid = Inr pem \<and> p_load_pem P pem = Inr (Ed25519Key key) \<and>
        decode_base64url signature = Inr raw \<and> p_canon P body = Inr input \<and> p_verify P key raw input)"

lemma issuer_signature_Inr:
  "issuer_signature P issuer_lookup unknown invalid iss kid signature body = Inr u \<longleftrightarrow>
   signed_by P issuer_lookup iss kid signature body"
  by (auto simp: issuer_signature_def signed_by_def load_key_Inr)

text \<open>Signing: the canonical body under the private key, as unpadded base64url. In \<open>key_pair\<close> what
  \<open>sign\<close> writes is not empty and passes the check under \<open>key\<close>.\<close>

definition sign_body :: "platform \<Rightarrow> (string \<Rightarrow> string) \<Rightarrow> pyval \<Rightarrow> exn + pyval" where
  "sign_body P sign body = bindE (p_canon P body) (\<lambda>input. Inr (PStr (b64url (sign input))))"

definition key_pair :: "platform \<Rightarrow> (string \<Rightarrow> string) \<Rightarrow> string \<Rightarrow> bool" where
  "key_pair P sign key \<longleftrightarrow> (\<forall>m. sign m \<noteq> [] \<and> p_verify P key (sign m) m)"

text \<open>What the signed artifacts have in common: the signature is not part of the signed body, and the
  reader inverts the dictionary of the fields.\<close>

locale signed_artifact =
  fixes body :: "'a \<Rightarrow> pyval"
    and signature :: "'a \<Rightarrow> pyval"
    and sign_with :: "platform \<Rightarrow> (string \<Rightarrow> string) \<Rightarrow> 'a \<Rightarrow> exn + 'a"
    and wire :: "'a \<Rightarrow> pyval"
    and parse :: "platform \<Rightarrow> string \<Rightarrow> exn + 'a"
  assumes sign_with: "sign_with P sign a = Inr a' \<Longrightarrow>
      sign_body P sign (body a) = Inr (signature a') \<and> body a' = body a"
    and parse_wire: "p_json_loads P data = Inr (wire a) \<Longrightarrow> parse P data = Inr a"
begin

lemma signed:
  assumes "sign_with P sign a = Inr a'" "key_pair P sign key" "issuer_lookup iss kid = Inr pem"
    "p_load_pem P pem = Inr (Ed25519Key key)"
  shows "signed_by P issuer_lookup iss kid (signature a') (body a')"
proof -
  obtain input where "p_canon P (body a) = Inr input" "signature a' = PStr (b64url (sign input))"
    using sign_with[OF assms(1)] by (auto simp: sign_body_def)
  then show ?thesis
    using sign_with[OF assms(1)] assms(2-4) by (auto simp: signed_by_def key_pair_def base64url_roundtrip)
qed

lemma transmitted:
  assumes "sign_with P sign a = Inr a'" "key_pair P sign key" "issuer_lookup iss kid = Inr pem"
    "p_load_pem P pem = Inr (Ed25519Key key)" "p_json_loads P data = Inr (wire a')"
  shows "parse P data = Inr a' \<and> signed_by P issuer_lookup iss kid (signature a') (body a')"
  using parse_wire[OF assms(5)] signed[where issuer_lookup = issuer_lookup and iss = iss and kid = kid, OF assms(1-4)] by blast

end

text \<open>Shape tests of the artifact fields.\<close>

definition opt_uuid :: "pyval \<Rightarrow> bool" where
  "opt_uuid v \<longleftrightarrow> is_str v \<and> (str_of v \<noteq> [] \<longrightarrow> uuid_v7_re (str_of v))"

end
