(* ===== verification/Demo.thy ===== *)
theory Demo
  imports Artifact
begin

text \<open>
  A concrete platform and a capability token on which properties are instantiated: a canonicalizer
  and a hash that are constant, one trusted key, whose signature check accepts the signature bytes
  \<open>[0]\<close>, and a token accepted by every check.
\<close>

definition demo_uuid :: string where
  "demo_uuid = ''01890000-0000-7000-8000-000000000000''"

definition demo_digest :: string where
  "demo_digest = replicate 64 CHR ''0''"

definition demo_header :: pyval where
  "demo_header = PDict [(''alg'', PStr ''EdDSA''), (''typ'', PStr ''wt-cap+jwt''), (''kid'', PStr ''ik'')]"

definition demo_payload :: pyval where
  "demo_payload =
     PDict [(''iss'', PStr ''spiffe://i''), (''sub'', PStr ''spiffe://a''), (''aud'', PStr ''spiffe://b''),
            (''scope'', PStr ''read''), (''iat'', PInt 0), (''nbf'', PInt 0), (''exp'', PInt 300),
            (''jti'', PStr demo_uuid), (''cnf'', PDict [(''envelope_digest'', PStr demo_digest)])]"

definition demo_platform :: platform where
  "demo_platform =
     \<lparr>p_canon = (\<lambda>v. Inr ''c''), p_sha256 = (\<lambda>s. demo_digest),
      p_load_pem = (\<lambda>pem. if pem = ''pem'' then Inr (Ed25519Key ''key'')
                          else Inl (std_error ''ValueError'')),
      p_verify = (\<lambda>key sig input. key = ''key'' \<and> sig = [CHR 0x00]),
      p_json_loads = (\<lambda>s. if s = [CHR 0x00] then Inr demo_header else Inr demo_payload),
      p_fromisoformat = (\<lambda>s. if s = ''t0'' then Some (Aware 0 0)
                             else if s = ''t1'' then Some (Aware (seconds 300) 0) else None),
      p_isoformat = (\<lambda>t. ''now'')\<rparr>"

definition demo_claims :: capability_claims where
  "demo_claims =
     \<lparr>cl_iss = ''spiffe://i'', cl_sub = ''spiffe://a'', cl_aud = ''spiffe://b'', cl_scope = ''read'',
      cl_iat = 0, cl_nbf = 0, cl_exp = 300, cl_jti = demo_uuid, cl_envelope_digest = demo_digest,
      cl_issuer_kid = ''ik'', cl_resource = None\<rparr>"

lemma demo_signature_bytes: "decode_base64url (PStr ''AA'') = Inr [CHR 0x00]"
  by (simp add: decode_base64url_def b64_pad_def is_ascii_def b64_value_def numeral_2_eq_2 char_of_def)

lemma demo_signed: "signed_by demo_platform (\<lambda>iss kid. Inr ''pem'') iss kid (PStr ''AA'') body"
  by (simp add: signed_by_def demo_signature_bytes) (simp add: demo_platform_def)

end
