(* ===== verification/EnvelopeDemo.thy ===== *)
theory EnvelopeDemo
  imports Envelope Demo
begin

text \<open>
  An envelope accepted by every check on the platform of \<open>Demo\<close>, and the dependencies it is
  verified with: the in-memory cache, the in-memory sink and an empty revocation list.
\<close>

definition demo_envelope :: pyval where
  "demo_envelope =
     PDict [(''version'', PStr ''v0''), (''message_id'', PStr demo_uuid),
            (''sender_spiffe_id'', PStr ''spiffe://a''), (''recipient_spiffe_id'', PStr ''spiffe://b''),
            (''issued_at'', PStr ''t0''), (''expires_at'', PStr ''t1''),
            (''nonce'', PStr ''0123456789abcdef''), (''capability_token'', PStr ''AA.AQ.AA''),
            (''purpose_of_use'', PStr ''read''), (''kid'', PStr ''k1''), (''alg'', PStr ''Ed25519''),
            (''payload'', PDict [(''x'', PInt 1)]), (''payload_digest'', PStr demo_digest),
            (''signature'', PStr ''AA'')]"

definition demo_deps :: "datetime \<Rightarrow> (replay_cache, memory_sink) deps" where
  "demo_deps wall =
     \<lparr>d_key_lookup = (\<lambda>kid. Inr ''pem''), d_issuer_lookup = (\<lambda>iss kid. Inr ''pem''),
      d_mark_if_new = atomic_cache mem_mark_if_new wall,
      d_audit = Some (memory_audit demo_platform wall),
      d_revocation = Some (is_revoked {})\<rparr>"

end
