(* ===== verification/EnvelopeProps.thy ===== *)
theory EnvelopeProps
  imports EnvelopeDemo
begin

text \<open>
  The properties of envelope verification: what acceptance establishes, that every failure is a
  denial, what the audit log holds after each outcome, and how long a replay is refused.
\<close>

lemma demo_run:
  "fst (verify_envelope demo_platform (demo_deps 0) DEFAULT_CONFIG 0 demo_envelope mem_empty []) =
     Inr demo_claims"
  by code_simp

lemma demo_accepts:
  obtains c' k' where
    "verify_envelope demo_platform (demo_deps 0) DEFAULT_CONFIG 0 demo_envelope mem_empty [] =
       (Inr demo_claims, c', k')"
  using demo_run by (metis prod.collapse)

section \<open>Acceptance\<close>

text \<open>The token parses, and its signature verifies under the key its issuer registered for the
  \<open>kid\<close> of its header.\<close>

definition token_signed :: "platform \<Rightarrow> ('c, 'k) deps \<Rightarrow> (string \<times> pyval) list \<Rightarrow> capability_claims \<Rightarrow> bool" where
  "token_signed P D env cl \<longleftrightarrow>
     (\<exists>token header payload input sig pem key.
        map_of env ''capability_token'' = Some token \<and>
        parse_jwt P token = Inr (header, payload, input, sig) \<and>
        check_header header = Inr (cl_issuer_kid cl) \<and>
        extract_claims payload (cl_issuer_kid cl) = Inr cl \<and>
        d_issuer_lookup D (cl_iss cl) (cl_issuer_kid cl) = Inr pem \<and>
        p_load_pem P pem = Inr (Ed25519Key key) \<and> p_verify P key sig input)"

text \<open>C2. An accepted envelope is a JSON object within the depth bound, its static fields are well
  formed, it is inside its validity window up to the clock skew, its payload digest is the hash of
  its payload, its signature verifies under the key of its \<open>kid\<close>, its capability token is signed by its issuer, names its
  sender, recipient, purpose and payload digest and is inside its own window, the token is not
  revoked, and its nonce was free and is now reserved.\<close>

theorem verify_envelope_sound:
  assumes "verify_envelope P D cfg t v c k = (Inr cl, c', k')"
  shows "\<exists>env ia ea. v = PDict env \<and> int (json_depth v) \<le> max_json_depth cfg \<and> static_ok env \<and>
    times_read P env ia ea \<and>
    ia \<le> t + max_clock_skew cfg \<and> t \<le> ea + max_clock_skew cfg \<and> ia < ea \<and>
    ea - ia \<le> max_envelope_ttl cfg \<and>
    digest_matches P env \<and> envelope_signed P D env \<and> token_signed P D env cl \<and>
    map_of env ''sender_spiffe_id'' = Some (PStr (cl_sub cl)) \<and>
    map_of env ''recipient_spiffe_id'' = Some (PStr (cl_aud cl)) \<and>
    map_of env ''purpose_of_use'' = Some (PStr (cl_scope cl)) \<and>
    map_of env ''payload_digest'' = Some (PStr (cl_envelope_digest cl)) \<and>
    (\<forall>r. cl_resource cl = Some r \<longrightarrow> item env ''resource'' = PStr r) \<and>
    seconds (cl_nbf cl) \<le> t + max_clock_skew cfg \<and> t \<le> seconds (cl_exp cl) + max_clock_skew cfg \<and>
    cl_iat cl \<le> cl_nbf cl \<and> cl_nbf cl < cl_exp cl \<and>
    seconds (cl_exp cl) - seconds (cl_nbf cl) \<le> max_capability_ttl cfg \<and>
    (\<forall>ask. d_revocation D = Some ask \<longrightarrow> ask (cl_jti cl) = Inr False) \<and>
    d_mark_if_new D (reservation_key v) (max (ea - t) (seconds 0)) c = (Inr True, c')"
proof -
  obtain ia ea where front: "front_ok P D cfg t v ia ea" and cap: "verify_cap P D cfg t v = Inr cl"
    and mark: "d_mark_if_new D (reservation_key v) (max (ea - t) (seconds 0)) c = (Inr True, c')"
    using assms by (auto simp: verify_envelope_accepts)
  obtain env where v: "v = PDict env" using front by (auto simp: front_ok_def is_dict_iff)
  obtain token where token: "map_of env ''capability_token'' = Some token" and
    "verify_capability_token P token env (d_issuer_lookup D) t (max_clock_skew cfg)
       (max_capability_ttl cfg) (d_revocation D) = Inr cl"
    using cap by (auto simp: verify_cap_def v)
  note parts = verify_capability_token_Inr[OF this(2)]
  have "token_signed P D env cl"
    by (rule parts) (unfold token_signed_def, use token in blast)
  moreover have "check_binding cl env = Inr ()"
    "check_times cl t (max_clock_skew cfg) (max_capability_ttl cfg) = Inr ()"
    "check_revocation (d_revocation D) (cl_jti cl) = Inr ()"
    by (rule parts; assumption)+
  ultimately show ?thesis
    using front mark by (auto simp: v front_ok_def check_window_Inr capability_checks)
qed

theorem verify_envelope_sound_witness:
  "\<exists>env. demo_envelope = PDict env \<and> envelope_signed demo_platform (demo_deps 0) env \<and>
     map_of env ''sender_spiffe_id'' = Some (PStr (cl_sub demo_claims))"
  by (rule demo_accepts) (drule verify_envelope_sound, blast)

text \<open>C8. Whatever the callbacks raise, only an \<open>EnvelopeVerificationError\<close> leaves the verifier.\<close>

theorem verify_envelope_fail_closed:
  "fst (verify_envelope P D cfg t v c k) = Inl e \<Longrightarrow> is_eve e"
  using verify_envelope_errors by (metis prod.collapse)

theorem verify_envelope_fail_closed_witness:
  "is_eve (eve ENVELOPE_NOT_OBJECT)"
  by (rule verify_envelope_fail_closed
        [of demo_platform "demo_deps 0" DEFAULT_CONFIG 0 PNone mem_empty "[]"]) code_simp

text \<open>\<open>Verifier.try_verify\<close> always returns a result object, and it carries claims exactly when
  the verifier returned them.\<close>

lemma try_verify_total:
  "\<exists>r. fst (try_verify P D cfg t v c k) = Inr r \<and>
     (vr_ok r = returned (fst (verify_envelope P D cfg t v c k))) \<and>
     (vr_claims r \<noteq> None \<longleftrightarrow> vr_ok r)"
  by (cases "verify_envelope P D cfg t v c k" rule: prod.exhaust; cases "fst (verify_envelope P D cfg t v c k)")
     (auto simp: try_verify_def dest: verify_envelope_errors)

text \<open>C22. The depth check, a loop over an explicit stack, accepts exactly the values whose nesting
  is within the bound.\<close>

theorem check_json_depth_correct:
  "check_json_depth v m =
     (if is_container v \<and> int (json_depth v) > m then Inl (eve ENVELOPE_TOO_DEEP) else Inr ())"
  by (simp add: check_json_depth_def depth_loop_spec depth_ok_def)


section \<open>Audit\<close>

text \<open>C6. With an audit sink, an envelope is accepted only if both allow events were written, the
  capability event before the envelope event.\<close>

theorem verify_envelope_allow_audited:
  assumes "d_audit D = Some rc" "logs_to rc evs"
    and "verify_envelope P D cfg t v c k = (Inr cl, c', k')"
  shows "evs k' = evs k @ [allow_cap_event v cl, allow_event v cl]"
  using assms by (rule verify_envelope_allow_log)

theorem verify_envelope_allow_audited_witness:
  "blanked (snd (snd (verify_envelope demo_platform (demo_deps 0) DEFAULT_CONFIG 0 demo_envelope
     mem_empty []))) = [allow_cap_event demo_envelope demo_claims, allow_event demo_envelope demo_claims]"
proof (rule demo_accepts)
  fix c' k' assume run: "verify_envelope demo_platform (demo_deps 0) DEFAULT_CONFIG 0 demo_envelope
      mem_empty [] = (Inr demo_claims, c', k')"
  have "d_audit (demo_deps 0) = Some (memory_audit demo_platform 0)" by (simp add: demo_deps_def)
  from verify_envelope_allow_audited[OF this memory_audit_logs run]
  show ?thesis by (simp add: run blanked_def)
qed

text \<open>With an audit sink, every denial leaves a deny event for its message with its reason code
  as the last event, after at most one capability event, unless the sink itself failed.\<close>

lemma verify_envelope_deny_audited:
  assumes "d_audit D = Some rc" "logs_to rc evs"
    and "verify_envelope P D cfg t v c k = (Inl e, c', k')" "e \<noteq> eve AUDIT_SINK_FAILURE"
  shows "\<exists>pre ctx. evs k' = evs k @ pre @ [envelope_event ''deny'' (reason_code e) ctx] \<and>
    length pre \<le> 1 \<and> ctx_message_id ctx = ctx_message_id (initial_ctx v)"
  using assms by (rule verify_envelope_deny_log)

section \<open>Replay\<close>

lemma accepted_reservation:
  assumes "d_mark_if_new D = atomic_cache mark wall"
    and "verify_envelope P D cfg t v c k = (Inr cl, c', k')"
  obtains env ia ea where "v = PDict env" "times_read P env ia ea"
    "fst (mark (reservation_key v) (max (ea - t) (seconds 0)) wall c)"
    "c' = snd (mark (reservation_key v) (max (ea - t) (seconds 0)) wall c)"
proof -
  obtain ia ea where f: "front_ok P D cfg t v ia ea"
    and "atomic_cache mark wall (reservation_key v) (max (ea - t) (seconds 0)) c = (Inr True, c')"
    using assms by (auto simp: verify_envelope_accepts)
  then have "fst (mark (reservation_key v) (max (ea - t) (seconds 0)) wall c)"
    "c' = snd (mark (reservation_key v) (max (ea - t) (seconds 0)) wall c)"
    by (auto simp: atomic_cache_def split: prod.splits)
  moreover obtain env where "v = PDict env" "times_read P env ia ea"
    using f by (auto simp: front_ok_def is_dict_iff)
  ultimately show ?thesis by (rule that[rotated 2])
qed

text \<open>C3. After an acceptance with the in-memory cache, whatever other reservations are made in
  between, no envelope with the same sender and nonce is accepted while the clock is before the
  first envelope's \<open>expires_at\<close>.\<close>

theorem replay_rejected:
  assumes "d_mark_if_new D = atomic_cache mem_mark_if_new t"
    and "verify_envelope P D cfg t v c k = (Inr cl, c', k')"
    and "v = PDict env" "times_read P env ia ea" "t \<le> t'" "t' < ea"
    and "\<forall>a\<in>set as. t \<le> attempt_time a \<and> attempt_time a \<le> t'"
    and "d_mark_if_new D' = atomic_cache mem_mark_if_new t'"
    and "reservation_key v' = reservation_key v"
  shows "\<not> returned (fst (verify_envelope P' D' cfg' t' v' (snd (run_marks mem_mark_if_new c' as)) k2))"
proof -
  obtain env' ia' ea' where "v = PDict env'" and tr: "times_read P env' ia' ea'"
    and m: "fst (mem_mark_if_new (reservation_key v) (max (ea' - t) (seconds 0)) t c)"
    "c' = snd (mem_mark_if_new (reservation_key v) (max (ea' - t) (seconds 0)) t c)"
    using accepted_reservation[OF assms(1,2)] by metis
  then have "ea' = ea" using assms(3,4) by (auto simp: times_read_def)
  then have "\<not> fst (mem_mark_if_new (reservation_key v) ttl' t' (snd (run_marks mem_mark_if_new c' as)))"
    for ttl'
    using mem_cache.no_replay[OF m(1) assms(7,5)] assms(6) m(2) by simp
  then have "\<not> fst (mem_mark_if_new (reservation_key v') ttl' t' (snd (run_marks mem_mark_if_new c' as)))"
    for ttl' using assms(9) by simp
  then have "verify_envelope P' D' cfg' t' v' (snd (run_marks mem_mark_if_new c' as)) k2 \<noteq> (Inr cl', c2, k3)"
    for cl' c2 k3
    using accepted_reservation[OF assms(8)] by metis
  then show ?thesis by (metis returned_iff prod.collapse)
qed

lemma demo_times:
  "map_of (dict_of demo_envelope) ''issued_at'' = Some (PStr ''t0'') \<and>
   parse_rfc3339 demo_platform (PStr ''t0'') = Inr 0 \<and>
   map_of (dict_of demo_envelope) ''expires_at'' = Some (PStr ''t1'') \<and>
   parse_rfc3339 demo_platform (PStr ''t1'') = Inr (seconds 300)"
  by code_simp

theorem replay_rejected_witness:
  "\<not> returned (fst (verify_envelope demo_platform (demo_deps 1) DEFAULT_CONFIG 1 demo_envelope
     (snd (run_marks mem_mark_if_new (fst (snd (verify_envelope demo_platform (demo_deps 0)
       DEFAULT_CONFIG 0 demo_envelope mem_empty []))) [])) []))"
proof (rule demo_accepts)
  fix c' k' assume run: "verify_envelope demo_platform (demo_deps 0) DEFAULT_CONFIG 0 demo_envelope
      mem_empty [] = (Inr demo_claims, c', k')"
  show ?thesis unfolding run fst_conv snd_conv
    by (rule replay_rejected[OF _ run])
       (use demo_times in \<open>auto simp: demo_deps_def times_read_def demo_envelope_def seconds_def\<close>)
qed

text \<open>The reservation ends at \<open>expires_at\<close> although the verifier accepts envelopes for another
  \<open>max_clock_skew\<close>: under the default configuration the same envelope is accepted twice, the second
  time at its \<open>expires_at\<close>, with the cache left by the first acceptance.\<close>

lemma replay_accepted_within_skew:
  "case verify_envelope demo_platform (demo_deps 0) DEFAULT_CONFIG 0 demo_envelope mem_empty [] of
     (r, c1, k1) \<Rightarrow>
       r = Inr demo_claims \<and>
       fst (verify_envelope demo_platform (demo_deps (seconds 300)) DEFAULT_CONFIG (seconds 300)
              demo_envelope c1 k1) = Inr demo_claims"
  by code_simp

end
