(* ===== verification/AuditFile.thy ===== *)
theory AuditFile
  imports AuditLog
begin

text \<open>
  \<open>JsonlAuditSink\<close> of \<open>audit.py\<close>: the append-only file of JSON lines, as the string of its
  bytes. \<open>tail_hash\<close> reads blocks of 4096 bytes backwards from the end until it holds a full last
  line; \<open>read_all\<close> reads the file line by line; \<open>_append\<close> writes one line, or fails with the error
  of the operating system and writes nothing.
\<close>

section \<open>The file\<close>

type_synonym jsonl_file = string

text \<open>\<open>bytes.rstrip(b"\\n")\<close>, \<open>rsplit(b"\\n", 1)[-1]\<close>\<close>

definition rstrip_nl :: "string \<Rightarrow> string" where
  "rstrip_nl s = rev (dropWhile ((=) newline) (rev s))"

definition after_last_nl :: "string \<Rightarrow> string" where
  "after_last_nl s = rev (takeWhile ((\<noteq>) newline) (rev s))"

text \<open>The loop of \<open>tail_hash\<close>: \<open>offset\<close> is the offset of the part of the file already in \<open>data\<close>.\<close>

function read_back :: "string \<Rightarrow> nat \<Rightarrow> string \<Rightarrow> string" where
  "read_back content offset data =
     (if offset = 0 then data
      else let n = min 4096 offset; offset' = offset - n; data' = take n (drop offset' content) @ data in
        if newline \<in> set (rstrip_nl data') then data' else read_back content offset' data')"
  by auto
termination read_back by (relation "measure (\<lambda>(content, offset, data). offset)") auto

declare read_back.simps [simp del]

definition jsonl_last_line :: "jsonl_file \<Rightarrow> string" where
  "jsonl_last_line content = after_last_nl (rstrip_nl (read_back content (length content) []))"

definition subscript_str :: "pyval \<Rightarrow> string \<Rightarrow> exn + string" where
  "subscript_str v k =
     (if \<not> is_dict v then Inl (std_error ''TypeError'')
      else bindE (getitem (dict_of v) k) (\<lambda>h.
        if is_str h then Inr (str_of h) else Inl (std_error ''AttributeError'')))"

definition jsonl_tail_hash :: "platform \<Rightarrow> jsonl_file \<Rightarrow> exn + string" where
  "jsonl_tail_hash P content =
     (if content = [] then Inr GENESIS_PREV_HASH
      else let last_line = jsonl_last_line content in
        if last_line = [] then Inr GENESIS_PREV_HASH
        else bindE (p_json_loads P last_line) (\<lambda>v. subscript_str v ''this_hash''))"

text \<open>\<open>json.dumps\<close> of a string (\<open>ensure_ascii\<close>) and of an object of strings.\<close>

definition json_escape :: "char \<Rightarrow> string" where
  "json_escape c =
     (let n = of_char c :: nat in
      if n = 34 then [CHR 0x5C, CHR 0x22]
      else if n = 92 then [CHR 0x5C, CHR 0x5C]
      else if n = 10 then [CHR 0x5C, CHR ''n'']
      else if n = 13 then [CHR 0x5C, CHR ''r'']
      else if n = 9 then [CHR 0x5C, CHR ''t'']
      else if n = 12 then [CHR 0x5C, CHR ''f'']
      else if n = 8 then [CHR 0x5C, CHR ''b'']
      else if 32 \<le> n \<and> n \<le> 126 then [c]
      else [CHR 0x5C, CHR ''u'', CHR ''0'', CHR ''0'', hex_digit (n div 16), hex_digit (n mod 16)])"

definition json_string :: "string \<Rightarrow> string" where
  "json_string s = [CHR 0x22] @ concat (map json_escape s) @ [CHR 0x22]"

fun join_with :: "string \<Rightarrow> string list \<Rightarrow> string" where
  "join_with sep [] = []"
| "join_with sep [x] = x"
| "join_with sep (x # y # xs) = x @ sep @ join_with sep (y # xs)"

definition json_object :: "(string \<times> string) list \<Rightarrow> string" where
  "json_object d =
     ''{'' @ join_with '','' (map (\<lambda>(k, v). json_string k @ '':'' @ json_string v) d) @ ''}''"

text \<open>\<open>AuditEvent.to_dict\<close>: the fields in declaration order.\<close>

definition event_to_dict :: "audit_event \<Rightarrow> (string \<times> string) list" where
  "event_to_dict e =
     [(''timestamp'', ev_timestamp e), (''event_type'', ev_event_type e),
      (''outcome'', ev_outcome e), (''reason'', ev_reason e), (''message_id'', ev_message_id e),
      (''sender'', ev_sender e), (''recipient'', ev_recipient e),
      (''envelope_kid'', ev_envelope_kid e), (''issuer_iss'', ev_issuer_iss e),
      (''issuer_kid'', ev_issuer_kid e), (''prev_hash'', ev_prev_hash e),
      (''this_hash'', ev_this_hash e), (''reason_code'', ev_reason_code e),
      (''artifact_version'', ev_artifact_version e)]"

definition event_line :: "audit_event \<Rightarrow> string" where
  "event_line e = json_object (event_to_dict e)"

text \<open>\<open>io\<close> is the error of opening or writing the file, if there is one.\<close>

definition jsonl_append :: "exn option \<Rightarrow> audit_event \<Rightarrow> jsonl_file \<Rightarrow> exn option \<times> jsonl_file" where
  "jsonl_append io e content =
     (case io of Some x \<Rightarrow> (Some x, content) | None \<Rightarrow> (None, content @ event_line e @ [newline]))"

definition jsonl_record :: "platform \<Rightarrow> exn option \<Rightarrow> datetime \<Rightarrow> audit_fields \<Rightarrow> jsonl_file \<Rightarrow>
  (exn + audit_event) \<times> jsonl_file" where
  "jsonl_record P io = sink_record (jsonl_tail_hash P) (jsonl_append io) P"

text \<open>\<open>read_all\<close>: the lines of the text file (a carriage return ends a line too; that CR LF then
  counts twice does not matter, since empty lines are skipped), stripped, each a JSON object whose keys are
  the fields of \<open>AuditEvent\<close> (\<open>AuditEvent(**record)\<close> raises on others). The class does not check
  the values, so the result is the dictionaries.\<close>

fun split_lines :: "string \<Rightarrow> string \<Rightarrow> string list" where
  "split_lines cur [] = (if cur = [] then [] else [cur])"
| "split_lines cur (c # cs) =
     (if c = newline \<or> c = CHR 0x0D then cur # split_lines [] cs else split_lines (cur @ [c]) cs)"

definition event_keys :: "string list" where
  "event_keys =
     [''timestamp'', ''event_type'', ''outcome'', ''reason'', ''message_id'', ''sender'',
      ''recipient'', ''envelope_kid'', ''issuer_iss'', ''issuer_kid'', ''prev_hash'',
      ''this_hash'', ''reason_code'', ''artifact_version'']"

definition setdefault :: "string \<Rightarrow> pyval \<Rightarrow> (string \<times> pyval) list \<Rightarrow> (string \<times> pyval) list" where
  "setdefault k v d = (if has_key d k then d else dset k v d)"

definition load_event :: "pyval \<Rightarrow> exn + (string \<times> pyval) list" where
  "load_event v =
     (if \<not> is_dict v then Inl (std_error ''AttributeError'')
      else let d = setdefault ''artifact_version'' (PStr [])
                     (setdefault ''reason_code'' (PStr []) (dict_of v)) in
        if set (dkeys d) = set event_keys then Inr d else Inl (std_error ''TypeError''))"

fun load_lines :: "platform \<Rightarrow> string list \<Rightarrow> exn + (string \<times> pyval) list list" where
  "load_lines P [] = Inr []"
| "load_lines P (line # lines) =
     (if strip_space line = [] then load_lines P lines
      else bindE (p_json_loads P (strip_space line)) (\<lambda>v.
        bindE (load_event v) (\<lambda>d.
        bindE (load_lines P lines) (\<lambda>ds. Inr (d # ds)))))"

definition jsonl_read_all :: "platform \<Rightarrow> jsonl_file \<Rightarrow> exn + (string \<times> pyval) list list" where
  "jsonl_read_all P content = load_lines P (split_lines [] content)"

definition event_of_dict :: "(string \<times> pyval) list \<Rightarrow> audit_event" where
  "event_of_dict d =
     \<lparr>ev_timestamp = str_of (item d ''timestamp''), ev_event_type = str_of (item d ''event_type''),
      ev_outcome = str_of (item d ''outcome''), ev_reason = str_of (item d ''reason''),
      ev_message_id = str_of (item d ''message_id''), ev_sender = str_of (item d ''sender''),
      ev_recipient = str_of (item d ''recipient''),
      ev_envelope_kid = str_of (item d ''envelope_kid''),
      ev_issuer_iss = str_of (item d ''issuer_iss''), ev_issuer_kid = str_of (item d ''issuer_kid''),
      ev_reason_code = str_of (item d ''reason_code''),
      ev_artifact_version = str_of (item d ''artifact_version''),
      ev_prev_hash = str_of (item d ''prev_hash''), ev_this_hash = str_of (item d ''this_hash'')\<rparr>"

definition jsonl_events :: "platform \<Rightarrow> jsonl_file \<Rightarrow> audit_event list" where
  "jsonl_events P content =
     (case jsonl_read_all P content of Inl e \<Rightarrow> [] | Inr ds \<Rightarrow> map event_of_dict ds)"


section \<open>The backward reader finds the last line\<close>

lemma rstrip_nl_append:
  "rstrip_nl y \<noteq> [] \<Longrightarrow> rstrip_nl (x @ y) = x @ rstrip_nl y"
  by (auto simp: rstrip_nl_def dropWhile_append dropWhile_eq_Nil_conv)

lemma after_last_nl_append: "newline \<in> set y \<Longrightarrow> after_last_nl (x @ y) = after_last_nl y"
  by (auto simp: after_last_nl_def takeWhile_append)

lemma read_back_last_line:
  "offset \<le> length content \<Longrightarrow> data = drop offset content \<Longrightarrow>
   after_last_nl (rstrip_nl (read_back content offset data)) = after_last_nl (rstrip_nl content)"
proof (induction content offset data rule: read_back.induct)
  case (1 content offset data)
  define n where "n = min 4096 offset"
  have "drop offset content = drop n (drop (offset - n) content)"
    by (simp add: n_def)
  then have d: "take n (drop (offset - n) content) @ data = drop (offset - n) content"
    using "1.prems"(2) append_take_drop_id by metis
  show ?case
  proof (cases "offset = 0 \<or> newline \<notin> set (rstrip_nl (drop (offset - n) content))")
    case True
    then show ?thesis
      using "1.IH"[OF _ n_def refl refl] "1.prems" d
      by (subst read_back.simps) (auto simp: Let_def n_def[symmetric])
  next
    case False
    let ?y = "drop (offset - n) content"
    have "rstrip_nl content = take (offset - n) content @ rstrip_nl ?y"
      using False rstrip_nl_append[of ?y "take (offset - n) content"] by fastforce
    then have "after_last_nl (rstrip_nl content) = after_last_nl (rstrip_nl ?y)"
      using False by (simp add: after_last_nl_append)
    then show ?thesis
      using False d by (subst read_back.simps) (simp add: Let_def n_def[symmetric])
  qed
qed

lemma jsonl_last_line_spec: "jsonl_last_line content = after_last_nl (rstrip_nl content)"
  unfolding jsonl_last_line_def by (rule read_back_last_line) simp_all


section \<open>The file is an audit store\<close>

text \<open>An event is readable if the JSON decoder reads its line back as the object written.\<close>

definition readable_event :: "platform \<Rightarrow> audit_event \<Rightarrow> bool" where
  "readable_event P e \<longleftrightarrow>
     p_json_loads P (event_line e) =
       Inr (PDict (map (\<lambda>(k, v). (k, PStr v)) (event_to_dict e)))"

definition file_lines :: "audit_event list \<Rightarrow> jsonl_file" where
  "file_lines es = concat (map (\<lambda>e. event_line e @ [newline]) es)"

definition jsonl_good :: "platform \<Rightarrow> jsonl_file \<Rightarrow> bool" where
  "jsonl_good P content \<longleftrightarrow> (\<exists>es. content = file_lines es \<and> (\<forall>e\<in>set es. readable_event P e))"

lemma hex_digit_printable: "n < 16 \<Longrightarrow> (of_char (hex_digit n) :: nat) \<in> {32..126}"
  by (auto simp: hex_digit_def of_char_of)

lemma json_escape_printable:
  assumes "x \<in> set (json_escape c)" shows "(of_char x :: nat) \<in> {32..126}"
proof -
  have "(of_char c :: nat) div 16 < 16" using of_char_256[of c] by linarith
  then show ?thesis
    using assms hex_digit_printable[of "of_char c div 16"] hex_digit_printable[of "of_char c mod 16"]
    by (auto simp: json_escape_def Let_def split: if_splits)
qed

definition printable :: "string \<Rightarrow> bool" where
  "printable s \<longleftrightarrow> (\<forall>c\<in>set s. (of_char c :: nat) \<in> {32..126})"

lemma printable_simps [simp]:
  "printable []"
  "printable (c # s) \<longleftrightarrow> (of_char c :: nat) \<in> {32..126} \<and> printable s"
  "printable (s @ t) \<longleftrightarrow> printable s \<and> printable t"
  by (auto simp: printable_def)

lemma printable_json_string: "printable (json_string s)"
  by (auto simp: json_string_def printable_def dest: json_escape_printable)

lemma printable_join: "printable sep \<Longrightarrow> \<forall>x\<in>set xs. printable x \<Longrightarrow> printable (join_with sep xs)"
  by (induction sep xs rule: join_with.induct) auto

lemma printable_json_object: "printable (json_object d)"
  by (auto simp: json_object_def printable_json_string intro!: printable_join)

lemma json_object_no_nl: "newline \<notin> set (json_object d)" "CHR 0x0D \<notin> set (json_object d)"
  using printable_json_object[of d] by (auto simp: printable_def newline_def)

lemma json_object_ends: "\<exists>body. json_object d = CHR ''{'' # body @ ''}''"
  by (simp add: json_object_def)

lemma json_object_neq [simp]: "json_object d \<noteq> []"
  using json_object_ends[of d] by auto

lemma strip_json_object [simp]: "strip_space (json_object d) = json_object d"
  using json_object_ends[of d] by (auto simp: strip_space_def is_space_def)

lemma split_lines_line:
  "newline \<notin> set l \<Longrightarrow> CHR 0x0D \<notin> set l \<Longrightarrow>
   split_lines cur (l @ newline # rest) = (cur @ l) # split_lines [] rest"
  by (induction l arbitrary: cur) auto

lemma split_json_lines: "split_lines [] (concat (map (\<lambda>d. json_object d @ [newline]) ds)) = map json_object ds"
  by (induction ds) (simp_all add: split_lines_line json_object_no_nl)

lemmas event_line_ends = json_object_ends[of "event_to_dict e" for e, folded event_line_def]
lemmas event_line_no_nl = json_object_no_nl[of "event_to_dict e" for e, folded event_line_def]

lemma event_line_neq [simp]: "event_line e \<noteq> []" and strip_event_line [simp]: "strip_space (event_line e) = event_line e"
  by (simp_all add: event_line_def)

lemma split_file_lines: "split_lines [] (file_lines es) = map event_line es"
  by (induction es) (simp_all add: file_lines_def split_lines_line event_line_no_nl)

lemma after_last_nl_line: "newline \<notin> set l \<Longrightarrow> after_last_nl l = l"
  proof -
  assume "newline \<notin> set l"
  then have "takeWhile ((\<noteq>) newline) (rev l) = rev l"
    by (auto simp: takeWhile_eq_all_conv)
  then show ?thesis by (simp only: after_last_nl_def rev_rev_ident)
qed

lemma last_line_file:
  "jsonl_last_line (file_lines (es @ [e])) = event_line e"
proof -
  have r: "rstrip_nl (event_line e @ [newline]) = event_line e"
    using event_line_ends[of e] by (auto simp: rstrip_nl_def newline_def)
  have f: "file_lines (es @ [e]) = file_lines es @ event_line e @ [newline]"
    by (simp add: file_lines_def)
  have "rstrip_nl (file_lines (es @ [e])) = file_lines es @ event_line e"
    unfolding f using rstrip_nl_append[of "event_line e @ [newline]"] r by simp
  moreover have "after_last_nl (file_lines es @ event_line e) = event_line e"
  proof (cases es rule: rev_cases)
    case Nil
    then show ?thesis by (simp add: file_lines_def after_last_nl_line event_line_no_nl)
  next
    case (snoc xs x)
    have "takeWhile ((\<noteq>) newline) (rev (event_line e) @ newline # ys) = rev (event_line e)" for ys
      using event_line_no_nl[of e] by (subst takeWhile_append2) auto
    then show ?thesis using snoc by (simp add: file_lines_def after_last_nl_def)
  qed
  ultimately show ?thesis by (simp add: jsonl_last_line_spec)
qed

lemma dict_of_strings: "map_of (map (\<lambda>(k, v). (k, PStr v)) d) k = map_option PStr (map_of d k)"
  by (induction d) auto

lemma jsonl_tail_hash_file:
  assumes "\<forall>e\<in>set es. readable_event P e"
  shows "jsonl_tail_hash P (file_lines es) = Inr (chain_end GENESIS_PREV_HASH es)"
proof (cases es rule: rev_cases)
  case Nil
  then show ?thesis by (simp add: jsonl_tail_hash_def file_lines_def)
next
  case (snoc xs e)
  have "file_lines es \<noteq> []" by (simp add: snoc file_lines_def)
  moreover have "jsonl_last_line (file_lines es) = event_line e" by (simp only: snoc last_line_file)
  moreover have "p_json_loads P (event_line e) =
      Inr (PDict (map (\<lambda>(k, v). (k, PStr v)) (event_to_dict e)))"
    using assms snoc by (simp add: readable_event_def)
  moreover have "getitem (map (\<lambda>(k, v). (k, PStr v)) (event_to_dict e)) ''this_hash'' =
      Inr (PStr (ev_this_hash e))"
    by (simp add: dict_of_strings event_to_dict_def)
  ultimately show ?thesis by (simp add: jsonl_tail_hash_def subscript_str_def Let_def snoc)
qed

lemma load_event_line:
  "load_event (PDict (map (\<lambda>(k, v). (k, PStr v)) (event_to_dict e))) =
     Inr (map (\<lambda>(k, v). (k, PStr v)) (event_to_dict e))"
  by (simp add: load_event_def setdefault_def has_key_def Let_def dkeys_def event_to_dict_def
      event_keys_def)

lemma event_of_dict_to_dict: "event_of_dict (map (\<lambda>(k, v). (k, PStr v)) (event_to_dict e)) = e"
  by (cases e) (simp add: event_of_dict_def event_to_dict_def item_def)

lemma load_lines_events:
  "\<forall>e\<in>set es. readable_event P e \<Longrightarrow>
   load_lines P (map event_line es) =
     Inr (map (\<lambda>e. map (\<lambda>(k, v). (k, PStr v)) (event_to_dict e)) es)"
  by (induction es) (simp_all add: readable_event_def load_event_line)

lemma jsonl_events_file:
  assumes "\<forall>e\<in>set es. readable_event P e"
  shows "jsonl_events P (file_lines es) = es"
  by (simp add: jsonl_events_def jsonl_read_all_def split_file_lines load_lines_events[OF assms]
      o_def event_of_dict_to_dict)

interpretation jsonl_sink: audit_store "jsonl_tail_hash P" "jsonl_append io" "jsonl_events P"
  "jsonl_good P" "readable_event P" for P io
proof unfold_locales
  fix s h assume "jsonl_good P s" "jsonl_tail_hash P s = Inr h"
  then show "h = chain_end GENESIS_PREV_HASH (jsonl_events P s)"
    by (auto simp: jsonl_good_def jsonl_tail_hash_file jsonl_events_file)
next
  fix s s' e assume g: "jsonl_good P s" and r: "readable_event P e" "jsonl_append io e s = (None, s')"
  then obtain es where es: "s = file_lines es" "\<forall>e\<in>set (es @ [e]). readable_event P e"
    by (auto simp: jsonl_good_def)
  have "s' = file_lines (es @ [e])"
    using r es by (auto simp: jsonl_append_def file_lines_def split: option.splits)
  moreover from this have "jsonl_good P s'" unfolding jsonl_good_def using es(2) by blast
  ultimately show "jsonl_good P s' \<and> jsonl_events P s' = jsonl_events P s @ [e]"
    using es jsonl_events_file[OF es(2)] jsonl_events_file[of es P] by simp
next
  fix s s' e x assume "jsonl_good P s" "jsonl_append io e s = (Some x, s')"
  then show "jsonl_good P s' \<and> jsonl_events P s' = jsonl_events P s"
    by (auto simp: jsonl_append_def split: option.splits)
qed



section \<open>Properties\<close>

text \<open>The block-wise backward reader of \<open>tail_hash\<close> returns the last line of the file, however
  long the file and its lines are.\<close>

lemma jsonl_last_line_correct:
  "jsonl_last_line content = after_last_nl (rstrip_nl content)"
  by (rule jsonl_last_line_spec)

text \<open>A file of event lines that the JSON decoder reads back is read back by \<open>read_all\<close> as the
  events written, and its \<open>tail_hash\<close> is the hash of the last of them.\<close>

lemma jsonl_roundtrip:
  assumes "\<forall>e\<in>set es. readable_event P e"
  shows "jsonl_events P (file_lines es) = es \<and>
    jsonl_tail_hash P (file_lines es) = Inr (chain_end GENESIS_PREV_HASH es)"
  using jsonl_events_file[OF assms] jsonl_tail_hash_file[OF assms] by blast

end
