(* ===== verification/Delegation.thy ===== *)
theory Delegation
  imports Artifact Demo
begin

text \<open>
  Delegation receipts (\<open>delegation_receipt.py\<close>): one hop of a chain of delegations, its shape, the
  non-escalation checks against the parent, its time window and its signature. The fields of a
  receipt come from \<open>from_json\<close> and are unchecked until \<open>_validate_shape\<close>.
\<close>

section \<open>Receipts\<close>

record delegation_receipt =
  dr_chain_id :: pyval
  dr_hop_index :: pyval
  dr_parent_jti :: pyval
  dr_delegator_iss :: pyval
  dr_delegate_iss :: pyval
  dr_scope :: pyval
  dr_aud :: pyval
  dr_iat :: pyval
  dr_nbf :: pyval
  dr_exp :: pyval
  dr_jti :: pyval
  dr_delegator_kid :: pyval
  dr_signature :: pyval

text \<open>\<open>ParentClaims\<close>; \<open>pc_hop_index\<close> is -1 when the parent is a capability token.\<close>

record parent_claims =
  pc_jti :: string
  pc_sub :: string
  pc_aud :: string
  pc_scope :: string
  pc_iat :: int
  pc_exp :: int
  pc_hop_index :: int

definition parent_from_capability_claims :: "capability_claims \<Rightarrow> parent_claims" where
  "parent_from_capability_claims cl =
     \<lparr>pc_jti = cl_jti cl, pc_sub = cl_sub cl, pc_aud = cl_aud cl, pc_scope = cl_scope cl,
      pc_iat = cl_iat cl, pc_exp = cl_exp cl, pc_hop_index = -1\<rparr>"

text \<open>Built from a receipt that was verified, whose fields have the types of the class.\<close>

definition parent_from_receipt :: "delegation_receipt \<Rightarrow> parent_claims" where
  "parent_from_receipt r =
     \<lparr>pc_jti = str_of (dr_jti r), pc_sub = str_of (dr_delegate_iss r), pc_aud = str_of (dr_aud r),
      pc_scope = str_of (dr_scope r), pc_iat = int_of (dr_iat r), pc_exp = int_of (dr_exp r),
      pc_hop_index = int_of (dr_hop_index r)\<rparr>"

record delegation_config =
  dc_max_clock_skew :: timedelta
  dc_max_receipt_ttl :: timedelta
  dc_max_chain_depth :: int

definition DEFAULT_DELEGATION_CONFIG :: delegation_config where
  "DEFAULT_DELEGATION_CONFIG =
     \<lparr>dc_max_clock_skew = seconds 60, dc_max_receipt_ttl = minutes 5, dc_max_chain_depth = 3\<rparr>"

abbreviation derr :: "deny_reason \<Rightarrow> exn" where
  "derr \<equiv> raise_as DelegationError"

definition delegation_body :: "delegation_receipt \<Rightarrow> pyval" where
  "delegation_body r =
     PDict [(''typ'', PStr ''wt-delegation/v0''), (''chain_id'', dr_chain_id r),
            (''hop_index'', dr_hop_index r), (''parent_jti'', dr_parent_jti r),
            (''delegator_iss'', dr_delegator_iss r), (''delegator_kid'', dr_delegator_kid r),
            (''delegate_iss'', dr_delegate_iss r), (''scope'', dr_scope r), (''aud'', dr_aud r),
            (''iat'', dr_iat r), (''nbf'', dr_nbf r), (''exp'', dr_exp r), (''jti'', dr_jti r)]"

definition sign_receipt :: "platform \<Rightarrow> (string \<Rightarrow> string) \<Rightarrow> delegation_receipt \<Rightarrow> exn + delegation_receipt" where
  "sign_receipt P sign r =
     bindE (sign_body P sign (delegation_body r)) (\<lambda>s. Inr (r\<lparr>dr_signature := s\<rparr>))"

text \<open>\<open>to_dict\<close> and \<open>from_json\<close>\<close>

definition receipt_object :: "delegation_receipt \<Rightarrow> pyval" where
  "receipt_object r =
     PDict [(''chain_id'', dr_chain_id r), (''hop_index'', dr_hop_index r), (''parent_jti'', dr_parent_jti r),
            (''delegator_iss'', dr_delegator_iss r), (''delegate_iss'', dr_delegate_iss r), (''scope'', dr_scope r),
            (''aud'', dr_aud r), (''iat'', dr_iat r), (''nbf'', dr_nbf r), (''exp'', dr_exp r), (''jti'', dr_jti r),
            (''delegator_kid'', dr_delegator_kid r), (''signature'', dr_signature r)]"

definition receipt_fields :: "string list" where
  "receipt_fields =
     [''chain_id'', ''hop_index'', ''parent_jti'', ''delegator_iss'', ''delegator_kid'',
      ''delegate_iss'', ''scope'', ''aud'', ''iat'', ''nbf'', ''exp'', ''jti'', ''signature'']"

definition delegation_from_json :: "platform \<Rightarrow> string \<Rightarrow> exn + delegation_receipt" where
  "delegation_from_json P data =
     (case p_json_loads P data of
        Inl e \<Rightarrow> if value_or_type_error e then Inl (derr DELEGATION_MALFORMED) else Inl e
      | Inr obj \<Rightarrow>
          if \<not> is_dict obj then Inl (derr DELEGATION_MALFORMED)
          else let d = dict_of obj in
            if filter (\<lambda>k. \<not> has_key d k) receipt_fields \<noteq> [] then Inl (derr DELEGATION_MALFORMED)
            else Inr \<lparr>dr_chain_id = item d ''chain_id'', dr_hop_index = item d ''hop_index'',
                      dr_parent_jti = item d ''parent_jti'',
                      dr_delegator_iss = item d ''delegator_iss'',
                      dr_delegate_iss = item d ''delegate_iss'', dr_scope = item d ''scope'',
                      dr_aud = item d ''aud'', dr_iat = item d ''iat'', dr_nbf = item d ''nbf'',
                      dr_exp = item d ''exp'', dr_jti = item d ''jti'',
                      dr_delegator_kid = item d ''delegator_kid'',
                      dr_signature = item d ''signature''\<rparr>)"


section \<open>Verification\<close>

interpretation receipts: signed_artifact delegation_body dr_signature sign_receipt receipt_object delegation_from_json
  by unfold_locales (auto simp: sign_receipt_def delegation_body_def receipt_object_def delegation_from_json_def
      receipt_fields_def has_key_def item_def Let_def)

definition delegation_shape :: "delegation_receipt \<Rightarrow> exn + unit" where
  "delegation_shape r =
     (let m = derr DELEGATION_MALFORMED; hop = int_of (dr_hop_index r);
          pj = str_of (dr_parent_jti r) in
      guards
       [(str_test uuid_v7_re (dr_chain_id r), m), (str_test uuid_v7_re (dr_jti r), m),
        (is_int (dr_hop_index r), m), (\<not> hop < 0, m),
        (str_test spiffe_id_re (dr_delegator_iss r), m),
        (str_test spiffe_id_re (dr_delegate_iss r), m),
        (str_test spiffe_id_re (dr_aud r), m), (str_test nonempty (dr_scope r), m),
        (str_test kid_re (dr_delegator_kid r), m), (is_str (dr_parent_jti r), m),
        (opt_uuid (dr_parent_jti r), m),
        (\<not> (hop = 0 \<and> pj \<noteq> []), m), (\<not> (hop > 0 \<and> pj = []), m),
        (is_int (dr_iat r), m), (is_int (dr_nbf r), m), (is_int (dr_exp r), m)])"

text \<open>The checks against the parent. After the shape check the fields have their types.\<close>

definition check_parent :: "delegation_receipt \<Rightarrow> parent_claims option \<Rightarrow> exn + unit" where
  "check_parent r parent =
     (if int_of (dr_hop_index r) = 0 then
        guard (parent = None) (derr DELEGATION_PARENT_MISMATCH)
      else case parent of
        None \<Rightarrow> Inl (derr DELEGATION_PARENT_MISMATCH)
      | Some p \<Rightarrow>
          guards
           [(str_of (dr_parent_jti r) = pc_jti p, derr DELEGATION_PARENT_MISMATCH),
            (\<not> (pc_hop_index p \<ge> 0 \<and> int_of (dr_hop_index r) \<noteq> pc_hop_index p + 1),
             derr DELEGATION_PARENT_MISMATCH),
            (str_of (dr_delegator_iss r) = pc_sub p, derr DELEGATION_PARENT_MISMATCH),
            (str_of (dr_scope r) = pc_scope p, derr DELEGATION_SCOPE_ESCALATION),
            (str_of (dr_aud r) = pc_aud p, derr DELEGATION_AUDIENCE_DRIFT),
            (\<not> (int_of (dr_iat r) < pc_iat p \<or> int_of (dr_exp r) > pc_exp p),
             derr DELEGATION_TTL_ESCALATION)])"

definition delegation_window ::
  "delegation_receipt \<Rightarrow> delegation_config \<Rightarrow> datetime \<Rightarrow> exn + unit" where
  "delegation_window r cfg current =
     bindE (guard (\<not> int_of (dr_iat r) > int_of (dr_nbf r)) (derr DELEGATION_MALFORMED)) (\<lambda>_.
     bindE (fromtimestamp (int_of (dr_nbf r))) (\<lambda>nbf_dt.
     bindE (fromtimestamp (int_of (dr_exp r))) (\<lambda>exp_dt.
     guards
      [(\<not> exp_dt \<le> nbf_dt, derr DELEGATION_EXPIRED),
       (\<not> exp_dt - nbf_dt > dc_max_receipt_ttl cfg, derr DELEGATION_EXPIRED),
       (\<not> nbf_dt - current > dc_max_clock_skew cfg, derr DELEGATION_EXPIRED),
       (\<not> current - exp_dt > dc_max_clock_skew cfg, derr DELEGATION_EXPIRED)])))"

definition delegation_signature ::
  "platform \<Rightarrow> (string \<Rightarrow> string \<Rightarrow> exn + string) \<Rightarrow> delegation_receipt \<Rightarrow> exn + unit" where
  "delegation_signature P issuer_lookup r =
     bindE (guard (truthy (dr_signature r)) (derr DELEGATION_MALFORMED)) (\<lambda>_.
     bindE (catch_all (derr DELEGATION_MALFORMED) (decode_base64url (dr_signature r))) (\<lambda>sig_bytes.
     bindE (catch_all (derr DELEGATION_UNKNOWN_ISSUER)
              (issuer_lookup (str_of (dr_delegator_iss r)) (str_of (dr_delegator_kid r)))) (\<lambda>pem.
     bindE (catch_all (derr DELEGATION_UNKNOWN_ISSUER) (load_ed25519_public_key P pem)) (\<lambda>key.
     bindE (p_canon P (delegation_body r)) (\<lambda>body.
     guard (p_verify P key sig_bytes body) (derr DELEGATION_SIGNATURE_INVALID))))))"

definition verify_receipt_inner ::
  "platform \<Rightarrow> (string \<Rightarrow> string \<Rightarrow> exn + string) \<Rightarrow> delegation_config \<Rightarrow> datetime \<Rightarrow>
   parent_claims option \<Rightarrow> delegation_receipt \<Rightarrow> exn + delegation_receipt" where
  "verify_receipt_inner P issuer_lookup cfg current parent r =
     bindE (delegation_shape r) (\<lambda>_.
     bindE (guard (\<not> int_of (dr_hop_index r) \<ge> dc_max_chain_depth cfg)
              (derr DELEGATION_DEPTH_EXCEEDED)) (\<lambda>_.
     bindE (check_parent r parent) (\<lambda>_.
     bindE (delegation_window r cfg current) (\<lambda>_.
     bindE (delegation_signature P issuer_lookup r) (\<lambda>_. Inr r)))))"

definition delegation_event :: "delegation_receipt \<Rightarrow> string \<Rightarrow> string \<Rightarrow> kwargs" where
  "delegation_event r outcome code =
     artifact_event ''delegation.verify'' ''wt-delegation/v0'' outcome code (dr_jti r)
       (dr_delegator_iss r) (dr_delegate_iss r) (dr_delegator_kid r) (dr_delegator_iss r)
       (dr_delegator_kid r)"

definition verify_receipt ::
  "platform \<Rightarrow> (string \<Rightarrow> string \<Rightarrow> exn + string) \<Rightarrow> delegation_config \<Rightarrow> 'k kw_sink \<Rightarrow> datetime \<Rightarrow>
   parent_claims option \<Rightarrow> delegation_receipt \<Rightarrow> 'k \<Rightarrow> (exn + delegation_receipt) \<times> 'k" where
  "verify_receipt P issuer_lookup cfg sink current parent r k =
     audited DelegationError sink (delegation_event r)
       (verify_receipt_inner P issuer_lookup cfg current parent r) k"

text \<open>A chain as its callers verify it: every receipt against the claims of the one before. The
  receipts come with the times at which they are checked.\<close>

fun verify_hops ::
  "platform \<Rightarrow> (string \<Rightarrow> string \<Rightarrow> exn + string) \<Rightarrow> delegation_config \<Rightarrow> 'k kw_sink \<Rightarrow>
   parent_claims option \<Rightarrow> (datetime \<times> delegation_receipt) list \<Rightarrow> 'k \<Rightarrow> bool" where
  "verify_hops P lookup cfg sink parent [] k = True"
| "verify_hops P lookup cfg sink parent ((t, r) # rs) k =
     (case verify_receipt P lookup cfg sink t parent r k of
        (Inl e, k') \<Rightarrow> False
      | (Inr r', k') \<Rightarrow> verify_hops P lookup cfg sink (Some (parent_from_receipt r')) rs k')"


section \<open>Facts\<close>

lemma delegation_shape_types:
  assumes "delegation_shape r = Inr ()"
  shows "is_int (dr_hop_index r)" "0 \<le> int_of (dr_hop_index r)" "is_str (dr_scope r)"
    "is_str (dr_aud r)" "is_str (dr_delegator_iss r)" "is_str (dr_delegate_iss r)" "is_str (dr_jti r)"
    "is_int (dr_iat r)" "is_int (dr_exp r)"
    "int_of (dr_hop_index r) = 0 \<longleftrightarrow> str_of (dr_parent_jti r) = []"
  using assms by (auto simp: delegation_shape_def Let_def str_test_iff)

lemma verify_receipt_inner_Inr:
  "verify_receipt_inner P lookup cfg t parent r = Inr r' \<longleftrightarrow>
     r' = r \<and> delegation_shape r = Inr () \<and> int_of (dr_hop_index r) < dc_max_chain_depth cfg \<and>
     check_parent r parent = Inr () \<and> delegation_window r cfg t = Inr () \<and>
     delegation_signature P lookup r = Inr ()"
  by (auto simp: verify_receipt_inner_def not_le)

lemma check_parent_Some:
  "check_parent r (Some p) = Inr () \<longleftrightarrow>
     int_of (dr_hop_index r) \<noteq> 0 \<and> str_of (dr_parent_jti r) = pc_jti p \<and>
     (0 \<le> pc_hop_index p \<longrightarrow> int_of (dr_hop_index r) = pc_hop_index p + 1) \<and>
     str_of (dr_delegator_iss r) = pc_sub p \<and> str_of (dr_scope r) = pc_scope p \<and>
     str_of (dr_aud r) = pc_aud p \<and> pc_iat p \<le> int_of (dr_iat r) \<and> int_of (dr_exp r) \<le> pc_exp p"
  by (auto simp: check_parent_def)

text \<open>One verified hop under a parent escalates nothing.\<close>

definition contained :: "delegation_receipt \<Rightarrow> parent_claims \<Rightarrow> bool" where
  "contained r p \<longleftrightarrow>
     str_of (dr_scope r) = pc_scope p \<and> str_of (dr_aud r) = pc_aud p \<and>
     pc_iat p \<le> int_of (dr_iat r) \<and> int_of (dr_exp r) \<le> pc_exp p"

fun linked :: "string \<Rightarrow> delegation_receipt list \<Rightarrow> bool" where
  "linked sub [] = True"
| "linked sub (r # rs) =
     (str_of (dr_delegator_iss r) = sub \<and> linked (str_of (dr_delegate_iss r)) rs)"

text \<open>One receipt under another: it names it as its parent, its delegator is the other's delegate, and
  it has the same scope and audience and a window inside the other's.\<close>

definition narrows :: "delegation_receipt \<Rightarrow> delegation_receipt \<Rightarrow> bool" where
  "narrows r r' \<longleftrightarrow>
     str_of (dr_parent_jti r') = str_of (dr_jti r) \<and>
     int_of (dr_hop_index r') = int_of (dr_hop_index r) + 1 \<and>
     str_of (dr_delegator_iss r') = str_of (dr_delegate_iss r) \<and>
     str_of (dr_scope r') = str_of (dr_scope r) \<and> str_of (dr_aud r') = str_of (dr_aud r) \<and>
     int_of (dr_iat r) \<le> int_of (dr_iat r') \<and> int_of (dr_exp r') \<le> int_of (dr_exp r)"

lemma check_parent_narrows:
  "check_parent r' (Some (parent_from_receipt r)) = Inr () \<Longrightarrow> 0 \<le> int_of (dr_hop_index r) \<Longrightarrow> narrows r r'"
  by (simp add: check_parent_Some parent_from_receipt_def narrows_def)

lemma verify_hops_Cons:
  assumes "verify_hops P lookup cfg sink parent ((t, r) # rs) k"
  obtains k' where "delegation_shape r = Inr ()" "check_parent r parent = Inr ()"
    "int_of (dr_hop_index r) < dc_max_chain_depth cfg"
    "verify_hops P lookup cfg sink (Some (parent_from_receipt r)) rs k'"
  using assms
  by (auto simp: verify_receipt_def audited_Inr verify_receipt_inner_Inr split: prod.splits sum.splits)

lemma verify_hops_narrows:
  "verify_hops P lookup cfg sink parent rs k \<Longrightarrow> successively narrows (map snd rs)"
proof (induction rs arbitrary: parent k)
  case (Cons x rs)
  obtain t r where x: "x = (t, r)" by (cases x)
  obtain k' where v: "delegation_shape r = Inr ()"
      "verify_hops P lookup cfg sink (Some (parent_from_receipt r)) rs k'"
    by (rule verify_hops_Cons[OF Cons.prems[unfolded x]])
  note ih = Cons.IH[OF v(2)]
  show ?case
  proof (cases rs)
    case (Cons y ys)
    obtain t' r' where y: "y = (t', r')" by (cases y)
    have "check_parent r' (Some (parent_from_receipt r)) = Inr ()"
      by (rule verify_hops_Cons[OF v(2)[unfolded Cons y]])
    from check_parent_narrows[OF this delegation_shape_types(2)[OF v(1)]] ih show ?thesis
      by (simp add: x y Cons)
  qed simp
qed simp

lemma verify_hops_first:
  assumes "verify_hops P lookup cfg sink (Some p) rs k" "rs \<noteq> []"
  shows "str_of (dr_parent_jti (snd (hd rs))) = pc_jti p"
proof -
  obtain t r ys where rs: "rs = (t, r) # ys" using assms(2) by (metis list.exhaust surj_pair)
  have "check_parent r (Some p) = Inr ()" by (rule verify_hops_Cons[OF assms(1)[unfolded rs]])
  then show ?thesis by (simp add: check_parent_Some rs)
qed

lemma contained_trans:
  "contained r p \<Longrightarrow> contained r' (parent_from_receipt r) \<Longrightarrow> contained r' p"
  by (auto simp: contained_def parent_from_receipt_def)

lemma verify_hops_contained:
  "verify_hops P lookup cfg sink (Some p) rs k \<Longrightarrow>
   (\<forall>x\<in>set rs. contained (snd x) p) \<and> linked (pc_sub p) (map snd rs) \<and>
   (rs \<noteq> [] \<longrightarrow> max 0 (pc_hop_index p) + int (length rs) < dc_max_chain_depth cfg)"
proof (induction rs arbitrary: p k)
  case (Cons x rs)
  obtain t r where x: "x = (t, r)" by (cases x)
  obtain k' where hop: "delegation_shape r = Inr ()" "check_parent r (Some p) = Inr ()"
      "int_of (dr_hop_index r) < dc_max_chain_depth cfg"
    and rest: "verify_hops P lookup cfg sink (Some (parent_from_receipt r)) rs k'"
    by (rule verify_hops_Cons[OF Cons.prems[unfolded x]])
  have p: "contained r p" "str_of (dr_delegator_iss r) = pc_sub p"
    "max 0 (pc_hop_index p) + 1 \<le> int_of (dr_hop_index r)"
    using hop delegation_shape_types(2)[of r] by (auto simp: check_parent_Some contained_def)
  note ih = Cons.IH[OF rest]
  have "pc_hop_index (parent_from_receipt r) = int_of (dr_hop_index r)"
    "pc_sub (parent_from_receipt r) = str_of (dr_delegate_iss r)"
    by (simp_all add: parent_from_receipt_def)
  then show ?case
    using ih p hop x contained_trans[OF p(1)] by (cases "rs = []") auto
qed simp



section \<open>Properties\<close>

text \<open>C17. A chain of receipts under a capability token cannot escalate: every receipt of it has the
  token's scope and audience and a window inside the token's; each names the hop before as its parent,
  is numbered after it, has that hop's delegate as its delegator (the first has the token's subject and
  names the token) and a window inside that hop's window, so that no receipt outlives the one it was
  given under; and the chain is shorter than \<open>max_chain_depth\<close>.\<close>

theorem delegation_chain_no_escalation:
  assumes "verify_hops P lookup cfg sink (Some (parent_from_capability_claims cl)) rs k"
  shows "(\<forall>r\<in>set (map snd rs). str_of (dr_scope r) = cl_scope cl \<and> str_of (dr_aud r) = cl_aud cl \<and>
      cl_iat cl \<le> int_of (dr_iat r) \<and> int_of (dr_exp r) \<le> cl_exp cl) \<and>
    linked (cl_sub cl) (map snd rs) \<and> successively narrows (map snd rs) \<and>
    (rs \<noteq> [] \<longrightarrow> str_of (dr_parent_jti (snd (hd rs))) = cl_jti cl \<and> int (length rs) < dc_max_chain_depth cfg)"
  using verify_hops_contained[OF assms] verify_hops_narrows[OF assms] verify_hops_first[OF assms]
  by (auto simp: contained_def parent_from_capability_claims_def)

definition demo_receipt :: "nat \<Rightarrow> delegation_receipt" where
  "demo_receipt n =
     \<lparr>dr_chain_id = PStr demo_uuid, dr_hop_index = PInt (int n), dr_parent_jti = PStr demo_uuid,
      dr_delegator_iss = PStr ''spiffe://a'', dr_delegate_iss = PStr ''spiffe://a'',
      dr_scope = PStr ''read'', dr_aud = PStr ''spiffe://b'', dr_iat = PInt 0, dr_nbf = PInt 0,
      dr_exp = PInt 300, dr_jti = PStr demo_uuid, dr_delegator_kid = PStr ''ik'',
      dr_signature = PStr ''AA''\<rparr>"

theorem delegation_chain_no_escalation_witness:
  "linked ''spiffe://a'' [demo_receipt 1, demo_receipt 2] \<and> narrows (demo_receipt 1) (demo_receipt 2)"
proof -
  have "verify_hops demo_platform (\<lambda>i k. Inr ''pem'') DEFAULT_DELEGATION_CONFIG None
      (Some (parent_from_capability_claims demo_claims))
      [(0, demo_receipt 1), (0, demo_receipt 2)] ()" by code_simp
  from delegation_chain_no_escalation[OF this] show ?thesis by (simp add: demo_claims_def)
qed

text \<open>With an audit sink each call of \<open>verify_receipt\<close> writes one event with its outcome, or
  raises because the sink failed, or raises an exception that is no \<open>DelegationError\<close> and writes
  nothing.\<close>

lemma verify_receipt_audited:
  assumes "kw_logs rc evs" "verify_receipt P lookup cfg (Some rc) t parent r k = (r', k')"
  shows "case r' of
      Inr a \<Rightarrow> evs k' = evs k @ [delegation_event r ''allow'' ''ok'']
    | Inl e \<Rightarrow>
        (exn_cls e = DelegationError \<and> evs k' = evs k @ [delegation_event r ''deny'' (reason_code e)]) \<or>
        (e = derr AUDIT_SINK_FAILURE \<and> evs k' = evs k) \<or>
        (exn_cls e \<noteq> DelegationError \<and> evs k' = evs k)"
  using audited_log[OF assms(1) assms(2)[unfolded verify_receipt_def]]
  by (auto split: sum.splits)

text \<open>A receipt whose \<open>nbf\<close> is outside the years of \<open>datetime\<close> makes \<open>verify_receipt\<close> raise a plain
  \<open>ValueError\<close>, and no event is written.\<close>

lemma delegation_foreign_exception:
  "verify_receipt demo_platform (\<lambda>i k. Inr ''pem'') DEFAULT_DELEGATION_CONFIG (Some list_sink) 0 None
     ((demo_receipt 0)\<lparr>dr_parent_jti := PStr [], dr_nbf := PInt 999999999999\<rparr>) [] =
     (Inl (std_error ''ValueError''), [])"
  by code_simp

end
