(* ===== verification/Session.thy ===== *)
theory Session
  imports Artifact Demo
begin

text \<open>
  Session tokens (\<open>session_token.py\<close>): opening tokens and resumes, verified one by one, and the
  chain a session forms. As with receipts the fields of a token come from the wire.
\<close>

section \<open>Tokens\<close>

record session_token =
  st_session_id :: pyval
  st_seq :: pyval
  st_parent_jti :: pyval
  st_iss :: pyval
  st_iss_kid :: pyval
  st_sub :: pyval
  st_aud :: pyval
  st_scope :: pyval
  st_iat :: pyval
  st_nbf :: pyval
  st_exp :: pyval
  st_jti :: pyval
  st_signature :: pyval

abbreviation serr :: "deny_reason \<Rightarrow> exn" where
  "serr \<equiv> raise_as SessionError"

definition session_body :: "session_token \<Rightarrow> pyval" where
  "session_body t =
     PDict [(''typ'', PStr ''wt-session/v0''), (''session_id'', st_session_id t),
            (''seq'', st_seq t), (''parent_jti'', st_parent_jti t), (''iss'', st_iss t),
            (''iss_kid'', st_iss_kid t), (''sub'', st_sub t), (''aud'', st_aud t),
            (''scope'', st_scope t), (''iat'', st_iat t), (''nbf'', st_nbf t), (''exp'', st_exp t),
            (''jti'', st_jti t)]"

definition sign_session :: "platform \<Rightarrow> (string \<Rightarrow> string) \<Rightarrow> session_token \<Rightarrow> exn + session_token" where
  "sign_session P sign t =
     bindE (sign_body P sign (session_body t)) (\<lambda>s. Inr (t\<lparr>st_signature := s\<rparr>))"

definition session_object :: "session_token \<Rightarrow> pyval" where
  "session_object t =
     PDict [(''session_id'', st_session_id t), (''seq'', st_seq t), (''parent_jti'', st_parent_jti t),
            (''iss'', st_iss t), (''iss_kid'', st_iss_kid t), (''sub'', st_sub t), (''aud'', st_aud t),
            (''scope'', st_scope t), (''iat'', st_iat t), (''nbf'', st_nbf t), (''exp'', st_exp t),
            (''jti'', st_jti t), (''signature'', st_signature t)]"

definition session_fields :: "string list" where
  "session_fields =
     [''session_id'', ''seq'', ''parent_jti'', ''iss'', ''iss_kid'', ''sub'', ''aud'', ''scope'',
      ''iat'', ''nbf'', ''exp'', ''jti'', ''signature'']"

definition session_from_json :: "platform \<Rightarrow> string \<Rightarrow> exn + session_token" where
  "session_from_json P data =
     (case p_json_loads P data of
        Inl e \<Rightarrow> if value_or_type_error e then Inl (serr SESSION_MALFORMED) else Inl e
      | Inr obj \<Rightarrow>
          if \<not> is_dict obj then Inl (serr SESSION_MALFORMED)
          else let d = dict_of obj in
            if filter (\<lambda>k. \<not> has_key d k) session_fields \<noteq> [] then Inl (serr SESSION_MALFORMED)
            else Inr \<lparr>st_session_id = item d ''session_id'', st_seq = item d ''seq'',
                      st_parent_jti = item d ''parent_jti'', st_iss = item d ''iss'',
                      st_iss_kid = item d ''iss_kid'', st_sub = item d ''sub'',
                      st_aud = item d ''aud'', st_scope = item d ''scope'', st_iat = item d ''iat'',
                      st_nbf = item d ''nbf'', st_exp = item d ''exp'', st_jti = item d ''jti'',
                      st_signature = item d ''signature''\<rparr>)"

interpretation sessions: signed_artifact session_body st_signature sign_session session_object session_from_json
  by unfold_locales (auto simp: sign_session_def session_body_def session_object_def session_from_json_def
      session_fields_def has_key_def item_def Let_def)


section \<open>Verification\<close>

definition session_shape :: "session_token \<Rightarrow> exn + unit" where
  "session_shape t =
     (let m = serr SESSION_MALFORMED; sq = int_of (st_seq t); pj = str_of (st_parent_jti t) in
      guards
       [(str_test uuid_v7_re (st_session_id t), m), (str_test uuid_v7_re (st_jti t), m),
        (is_int (st_seq t), m), (\<not> sq < 0, m),
        (is_str (st_parent_jti t), m), (opt_uuid (st_parent_jti t), m),
        (\<not> (sq = 0 \<and> pj \<noteq> []), m), (\<not> (sq > 0 \<and> pj = []), m),
        (str_test spiffe_id_re (st_iss t), m), (str_test kid_re (st_iss_kid t), m),
        (str_test spiffe_id_re (st_sub t), m), (str_test spiffe_id_re (st_aud t), m),
        (str_test nonempty (st_scope t), m),
        (is_int (st_iat t), m), (is_int (st_nbf t), m), (is_int (st_exp t), m),
        (str_test nonempty (st_signature t), m)])"

definition session_window ::
  "session_token \<Rightarrow> datetime \<Rightarrow> timedelta \<Rightarrow> timedelta \<Rightarrow> exn + unit" where
  "session_window t current max_clock_skew max_token_ttl =
     numeric_window (serr SESSION_INVALID_VALIDITY_WINDOW) (serr SESSION_TTL_EXCEEDED)
       (serr SESSION_NOT_YET_VALID) (serr SESSION_EXPIRED)
       (int_of (st_iat t)) (int_of (st_nbf t)) (int_of (st_exp t)) current max_clock_skew max_token_ttl"

definition session_signature ::
  "platform \<Rightarrow> (string \<Rightarrow> string \<Rightarrow> exn + string) \<Rightarrow> session_token \<Rightarrow> exn + unit" where
  "session_signature P issuer_lookup t =
     issuer_signature P issuer_lookup (serr SESSION_UNKNOWN_ISSUER) (serr SESSION_SIGNATURE_INVALID)
       (str_of (st_iss t)) (str_of (st_iss_kid t)) (st_signature t) (session_body t)"

record session_limits =
  sl_max_clock_skew :: timedelta
  sl_max_token_ttl :: timedelta
  sl_max_session_lifetime :: timedelta

definition DEFAULT_SESSION_LIMITS :: session_limits where
  "DEFAULT_SESSION_LIMITS =
     \<lparr>sl_max_clock_skew = seconds 60, sl_max_token_ttl = minutes 5,
      sl_max_session_lifetime = hours 1\<rparr>"

definition verify_session_inner ::
  "platform \<Rightarrow> (string \<Rightarrow> string \<Rightarrow> exn + string) \<Rightarrow> session_limits \<Rightarrow> datetime \<Rightarrow> session_token \<Rightarrow>
   exn + session_token" where
  "verify_session_inner P issuer_lookup L current t =
     bindE (session_shape t) (\<lambda>_.
     bindE (session_window t current (sl_max_clock_skew L) (sl_max_token_ttl L)) (\<lambda>_.
     bindE (session_signature P issuer_lookup t) (\<lambda>_. Inr t)))"

definition session_event :: "session_token \<Rightarrow> string \<Rightarrow> string \<Rightarrow> kwargs" where
  "session_event t outcome code =
     artifact_event ''session.verify'' ''wt-session/v0'' outcome code (st_jti t) (st_sub t)
       (st_aud t) (st_iss_kid t) (st_iss t) (st_iss_kid t)"

definition verify_session_token ::
  "platform \<Rightarrow> (string \<Rightarrow> string \<Rightarrow> exn + string) \<Rightarrow> session_limits \<Rightarrow> 'k kw_sink \<Rightarrow> datetime \<Rightarrow>
   session_token \<Rightarrow> 'k \<Rightarrow> (exn + session_token) \<times> 'k" where
  "verify_session_token P issuer_lookup L sink current t k =
     audited SessionError sink (session_event t) (verify_session_inner P issuer_lookup L current t) k"

text \<open>\<open>_verify_resume_inner\<close> compares the new token with the previous one before its shape is
  checked, so the comparisons and the additions work on unchecked values.\<close>

definition resume_rules :: "session_token \<Rightarrow> session_token \<Rightarrow> exn + unit" where
  "resume_rules t prev =
     bindE (guards
       [(py_eq (st_session_id t) (st_session_id prev), serr SESSION_RESUME_SESSION_MISMATCH),
        (py_eq (st_parent_jti t) (st_jti prev), serr SESSION_RESUME_PARENT_MISMATCH)]) (\<lambda>_.
     bindE (py_add_int (st_seq prev) 1) (\<lambda>next_seq.
     guards
       [(py_eq (st_seq t) next_seq, serr SESSION_RESUME_SEQUENCE_INVALID),
        (py_eq (st_sub t) (st_sub prev), serr SESSION_RESUME_SUBJECT_DRIFT),
        (py_eq (st_aud t) (st_aud prev), serr SESSION_RESUME_AUDIENCE_DRIFT),
        (py_eq (st_scope t) (st_scope prev), serr SESSION_RESUME_SCOPE_DRIFT)]))"

definition verify_resume_inner ::
  "platform \<Rightarrow> (string \<Rightarrow> string \<Rightarrow> exn + string) \<Rightarrow> session_limits \<Rightarrow> datetime \<Rightarrow> session_token \<Rightarrow> int \<Rightarrow>
   session_token \<Rightarrow> exn + session_token" where
  "verify_resume_inner P issuer_lookup L current prev session_opened_at t =
     bindE (resume_rules t prev) (\<lambda>_.
     bindE (py_add_int (st_exp t) (- session_opened_at)) (\<lambda>d.
     bindE (timedelta_of d) (\<lambda>cumulative.
     bindE (guard (\<not> cumulative > sl_max_session_lifetime L)
              (serr SESSION_RESUME_LIFETIME_EXCEEDED)) (\<lambda>_.
     bindE (fst (verify_session_token P issuer_lookup L None current t ())) (\<lambda>_. Inr t)))))"

definition verify_resume ::
  "platform \<Rightarrow> (string \<Rightarrow> string \<Rightarrow> exn + string) \<Rightarrow> session_limits \<Rightarrow> 'k kw_sink \<Rightarrow> datetime \<Rightarrow>
   session_token \<Rightarrow> int \<Rightarrow> session_token \<Rightarrow> 'k \<Rightarrow> (exn + session_token) \<times> 'k" where
  "verify_resume P issuer_lookup L sink current prev session_opened_at t k =
     audited SessionError sink (session_event t)
       (verify_resume_inner P issuer_lookup L current prev session_opened_at t) k"

text \<open>A session: an opening token and its resumes, each verified against the one before, with the
  time of each call. \<open>opened\<close> is the \<open>session_opened_at\<close> the caller keeps.\<close>

fun verify_resumes ::
  "platform \<Rightarrow> (string \<Rightarrow> string \<Rightarrow> exn + string) \<Rightarrow> session_limits \<Rightarrow> 'k kw_sink \<Rightarrow> int \<Rightarrow>
   session_token \<Rightarrow> (datetime \<times> session_token) list \<Rightarrow> 'k \<Rightarrow> bool" where
  "verify_resumes P lookup L sink opened prev [] k = True"
| "verify_resumes P lookup L sink opened prev ((now, t) # ts) k =
     (case verify_resume P lookup L sink now prev opened t k of
        (Inl e, k') \<Rightarrow> False
      | (Inr t', k') \<Rightarrow> verify_resumes P lookup L sink opened t' ts k')"


section \<open>Facts\<close>

lemma session_shape_types:
  assumes "session_shape t = Inr ()"
  shows "is_str (st_session_id t)" "is_str (st_jti t)" "is_int (st_seq t)" "0 \<le> int_of (st_seq t)"
    "is_str (st_sub t)" "is_str (st_aud t)" "is_str (st_scope t)" "is_int (st_iat t)"
    "is_int (st_nbf t)" "is_int (st_exp t)" "is_str (st_parent_jti t)"
  using assms by (auto simp: session_shape_def Let_def str_test_iff)

lemma session_window_Inr:
  "session_window t now skew ttl = Inr () \<longleftrightarrow>
     int_of (st_iat t) \<le> int_of (st_nbf t) \<and> int_of (st_nbf t) \<le> int_of (st_exp t) \<and>
     seconds (int_of (st_exp t) - int_of (st_nbf t)) \<le> ttl \<and>
     timestamp_ok (int_of (st_nbf t)) \<and> timestamp_ok (int_of (st_exp t)) \<and>
     seconds (int_of (st_nbf t)) \<le> now + skew \<and> now - skew \<le> seconds (int_of (st_exp t))"
  by (auto simp: session_window_def numeric_window_Inr)

lemma verify_session_inner_Inr:
  "verify_session_inner P lookup L now t = Inr t' \<longleftrightarrow>
     t' = t \<and> session_shape t = Inr () \<and>
     session_window t now (sl_max_clock_skew L) (sl_max_token_ttl L) = Inr () \<and>
     session_signature P lookup t = Inr ()"
  by (auto simp: verify_session_inner_def)

lemma py_eq_str: "is_str v \<Longrightarrow> py_eq v w \<longleftrightarrow> w = v"
  by (auto simp: is_str_iff)

text \<open>What a verified resume keeps of the token before it, once that one has integer \<open>seq\<close>.\<close>

definition resumes :: "session_limits \<Rightarrow> int \<Rightarrow> session_token \<Rightarrow> session_token \<Rightarrow> bool" where
  "resumes L opened prev t \<longleftrightarrow>
     st_session_id t = st_session_id prev \<and> st_parent_jti t = st_jti prev \<and>
     st_seq t = PInt (int_of (st_seq prev) + 1) \<and> st_sub t = st_sub prev \<and>
     st_aud t = st_aud prev \<and> st_scope t = st_scope prev \<and>
     seconds (int_of (st_exp t) - opened) \<le> sl_max_session_lifetime L"

lemma verify_resume_inner_Inr:
  assumes "verify_resume_inner P lookup L now prev opened t = Inr t'" "is_int (st_seq prev)"
  shows "t' = t" "verify_session_inner P lookup L now t = Inr t" "resumes L opened prev t"
proof -
  obtain n where n: "st_seq prev = PInt n" using assms(2) by (auto simp: is_int_iff)
  have v: "verify_session_inner P lookup L now t = Inr t"
    using assms(1)
    by (auto simp: verify_resume_inner_def verify_session_token_def verify_session_inner_Inr)
  note ty = session_shape_types[of t]
  have shape: "session_shape t = Inr ()" using v by (simp add: verify_session_inner_Inr)
  obtain m e where m: "st_seq t = PInt m" "st_exp t = PInt e"
    using ty(3,10)[OF shape] by (auto simp: is_int_iff)
  show "t' = t" "verify_session_inner P lookup L now t = Inr t"
    using assms(1) v by (auto simp: verify_resume_inner_def)
  show "resumes L opened prev t"
    using assms(1) n m ty(1,5,6,7,11)[OF shape]
    by (auto simp: verify_resume_inner_def resume_rules_def resumes_def py_eq_str
        timedelta_seconds_Inr)
qed

lemma verify_resumes_chain:
  "verify_resumes P lookup L sink opened prev ts k \<Longrightarrow> is_int (st_seq prev) \<Longrightarrow>
   i < length ts \<Longrightarrow>
   resumes L opened ((prev # map snd ts) ! i) (map snd ts ! i) \<and>
   verify_session_inner P lookup L (fst (ts ! i)) (map snd ts ! i) = Inr (map snd ts ! i)"
proof (induction ts arbitrary: prev k i)
  case (Cons x ts)
  obtain now t where x: "x = (now, t)" by (cases x)
  obtain t' k' where v: "verify_resume P lookup L sink now prev opened t k = (Inr t', k')"
    and rest: "verify_resumes P lookup L sink opened t' ts k'"
    using Cons.prems(1) x by (auto split: prod.splits sum.splits)
  have "verify_resume_inner P lookup L now prev opened t = Inr t'"
    using v by (simp add: verify_resume_def audited_Inr)
  note r = verify_resume_inner_Inr[OF this Cons.prems(2)]
  have "is_int (st_seq t)" using r(3) by (simp add: resumes_def)
  note ih = Cons.IH[OF rest[unfolded r(1)] this]
  show ?case using r x ih Cons.prems(3) by (cases i) auto
qed simp

text \<open>Every token of a session keeps its identity, subject, audience and scope.\<close>

lemma resumes_steps:
  assumes "\<forall>i<length ts. resumes L opened ((prev # ts) ! i) (ts ! i)" "is_int (st_seq prev)"
  shows "i < length ts \<Longrightarrow>
    st_session_id (ts ! i) = st_session_id prev \<and> st_sub (ts ! i) = st_sub prev \<and>
    st_aud (ts ! i) = st_aud prev \<and> st_scope (ts ! i) = st_scope prev \<and>
    int_of (st_seq (ts ! i)) = int_of (st_seq prev) + int i + 1 \<and>
    st_parent_jti (ts ! i) = st_jti ((prev # ts) ! i) \<and>
    seconds (int_of (st_exp (ts ! i)) - opened) \<le> sl_max_session_lifetime L"
proof (induction i)
  case 0
  then show ?case using assms(1) by (auto simp: resumes_def)
next
  case (Suc i)
  have "resumes L opened ((prev # ts) ! Suc i) (ts ! Suc i)" using assms(1) Suc.prems by blast
  then show ?case using Suc.IH Suc.prems by (auto simp: resumes_def)
qed


section \<open>Properties\<close>

text \<open>C32. In a session whose resumes all verified, every token has the session id, subject, audience
  and scope of the opening token, the sequence numbers count up by one, each token names the token
  before it, and no token outlives the session's lifetime.\<close>

theorem session_chain_invariant:
  assumes "verify_resumes P lookup L sink opened prev ts k" "is_int (st_seq prev)"
    "i < length ts" "tok = map snd ts ! i"
  shows "st_session_id tok = st_session_id prev \<and> st_sub tok = st_sub prev \<and>
    st_aud tok = st_aud prev \<and> st_scope tok = st_scope prev \<and>
    int_of (st_seq tok) = int_of (st_seq prev) + int i + 1 \<and>
    st_parent_jti tok = st_jti ((prev # map snd ts) ! i) \<and>
    seconds (int_of (st_exp tok) - opened) \<le> sl_max_session_lifetime L"
  using resumes_steps[of "map snd ts" L opened prev i] verify_resumes_chain[OF assms(1,2)] assms(2-4)
  by simp

definition demo_session :: "nat \<Rightarrow> session_token" where
  "demo_session n =
     \<lparr>st_session_id = PStr demo_uuid, st_seq = PInt (int n),
      st_parent_jti = PStr (if n = 0 then [] else demo_uuid), st_iss = PStr ''spiffe://i'',
      st_iss_kid = PStr ''ik'', st_sub = PStr ''spiffe://a'', st_aud = PStr ''spiffe://b'',
      st_scope = PStr ''read'', st_iat = PInt 0, st_nbf = PInt 0, st_exp = PInt 300,
      st_jti = PStr demo_uuid, st_signature = PStr ''AA''\<rparr>"

theorem session_chain_invariant_witness:
  "int_of (st_seq (demo_session 2)) = int_of (st_seq (demo_session 0)) + int 1 + 1"
proof -
  have "verify_resumes demo_platform (\<lambda>i k. Inr ''pem'') DEFAULT_SESSION_LIMITS None 0
      (demo_session 0) [(0, demo_session 1), (1, demo_session 2)] ()" by code_simp
  from session_chain_invariant[OF this, of 1 "demo_session 2"] show ?thesis
    by (simp add: demo_session_def)
qed

text \<open>A verified token is inside its window up to the skew, within the maximal lifetime, and its
  signature verifies under the key of its issuer.\<close>

lemma session_token_sound:
  assumes "fst (verify_session_token P lookup L sink now t k) = Inr t'"
  shows "t' = t \<and> int_of (st_iat t) \<le> int_of (st_nbf t) \<and>
    seconds (int_of (st_nbf t)) \<le> now + sl_max_clock_skew L \<and>
    now - sl_max_clock_skew L \<le> seconds (int_of (st_exp t)) \<and>
    seconds (int_of (st_exp t)) - seconds (int_of (st_nbf t)) \<le> sl_max_token_ttl L \<and>
    signed_by P lookup (str_of (st_iss t)) (str_of (st_iss_kid t)) (st_signature t) (session_body t)"
proof -
  have "verify_session_inner P lookup L now t = Inr t'"
    using assms unfolding verify_session_token_def by (rule audited_returned)
  then show ?thesis
    by (auto simp: verify_session_inner_Inr session_window_Inr session_signature_def issuer_signature_Inr
        seconds_diff)
qed

text \<open>An issuer key that does not load makes the verifier raise a plain
  \<open>EnvelopeVerificationError\<close>, which the \<open>except SessionError\<close> misses: no event is written.\<close>

lemma session_key_error_unaudited:
  "verify_session_token demo_platform (\<lambda>i k. Inr ''broken'') DEFAULT_SESSION_LIMITS
     (Some list_sink) 0 (demo_session 0) [] = (Inl (eve INVALID_PUBLIC_KEY), [])"
  by code_simp

end
