(* ===== verification/SafeMode.thy ===== *)
theory SafeMode
  imports Deny_Reason
begin

text \<open>
  The safe-mode engine (\<open>safe_mode_engine.py\<close>): a state machine over five severity levels driven
  by active triggers. \<open>observe\<close>, \<open>clear\<close> and \<open>downgrade\<close> are its transitions; the relation
  \<open>sm_step\<close> and reachability from the engine's default state carry the invariant.
\<close>

section \<open>Levels and triggers\<close>

datatype safe_mode_state = S0_NORMAL | S1_GUARDED | S2_RESTRICTED | S3_QUARANTINE | S4_LOCKDOWN

fun state_rank :: "safe_mode_state \<Rightarrow> nat" where
  "state_rank S0_NORMAL = 0"
| "state_rank S1_GUARDED = 1"
| "state_rank S2_RESTRICTED = 2"
| "state_rank S3_QUARANTINE = 3"
| "state_rank S4_LOCKDOWN = 4"

definition is_more_severe_state :: "safe_mode_state \<Rightarrow> safe_mode_state \<Rightarrow> bool" where
  "is_more_severe_state a b \<longleftrightarrow> state_rank a > state_rank b"

lemma state_rank_inject: "state_rank a = state_rank b \<longleftrightarrow> a = b"
  by (cases a; cases b) auto

instantiation safe_mode_state :: linorder
begin

definition less_eq_safe_mode_state :: "safe_mode_state \<Rightarrow> safe_mode_state \<Rightarrow> bool" where
  "less_eq_safe_mode_state a b \<longleftrightarrow> state_rank a \<le> state_rank b"

definition less_safe_mode_state :: "safe_mode_state \<Rightarrow> safe_mode_state \<Rightarrow> bool" where
  "less_safe_mode_state a b \<longleftrightarrow> state_rank a < state_rank b"

instance
  by standard (auto simp: less_eq_safe_mode_state_def less_safe_mode_state_def state_rank_inject)

end

lemma more_severe_iff [simp]: "is_more_severe_state a b \<longleftrightarrow> b < a"
  by (simp add: is_more_severe_state_def less_safe_mode_state_def)

lemma S0_least [simp]: "S0_NORMAL \<le> s"
  by (simp add: less_eq_safe_mode_state_def)

definition max_state :: "safe_mode_state list \<Rightarrow> safe_mode_state" where
  "max_state states =
     foldl (\<lambda>best s. if state_rank s > state_rank best then s else best) S0_NORMAL states"

datatype trigger_category = CRYPTO_TRUST | AUTHORIZATION | DATA_PROTECTION | AVAILABILITY

fun category_rank :: "trigger_category \<Rightarrow> nat" where
  "category_rank AVAILABILITY = 0"
| "category_rank DATA_PROTECTION = 1"
| "category_rank AUTHORIZATION = 2"
| "category_rank CRYPTO_TRUST = 3"

definition is_higher_authority :: "trigger_category \<Rightarrow> trigger_category \<Rightarrow> bool" where
  "is_higher_authority a b \<longleftrightarrow> category_rank a > category_rank b"

datatype trigger_kind =
    CLOCK_TRUST_FAILURE | LEDGER_DIVERGENCE | POLICY_ROLLBACK | REVOCATION_UNCERTAINTY
  | ANOMALY_QUARANTINE

fun kind_value :: "trigger_kind \<Rightarrow> string" where
  "kind_value CLOCK_TRUST_FAILURE = ''clock_trust_failure''"
| "kind_value LEDGER_DIVERGENCE = ''ledger_divergence''"
| "kind_value POLICY_ROLLBACK = ''policy_rollback''"
| "kind_value REVOCATION_UNCERTAINTY = ''revocation_uncertainty''"
| "kind_value ANOMALY_QUARANTINE = ''anomaly_quarantine''"

fun default_profile_for :: "trigger_kind \<Rightarrow> safe_mode_state \<times> trigger_category" where
  "default_profile_for CLOCK_TRUST_FAILURE = (S3_QUARANTINE, CRYPTO_TRUST)"
| "default_profile_for LEDGER_DIVERGENCE = (S4_LOCKDOWN, CRYPTO_TRUST)"
| "default_profile_for POLICY_ROLLBACK = (S2_RESTRICTED, AUTHORIZATION)"
| "default_profile_for REVOCATION_UNCERTAINTY = (S2_RESTRICTED, AUTHORIZATION)"
| "default_profile_for ANOMALY_QUARANTINE = (S3_QUARANTINE, DATA_PROTECTION)"

record trigger =
  tr_kind :: trigger_kind
  tr_category :: trigger_category
  tr_minimum_state :: safe_mode_state
  tr_observed_at :: datetime
  tr_detail :: string

text \<open>\<open>Trigger.__post_init__\<close>; the other guards hold by typing.\<close>

definition new_trigger :: "trigger \<Rightarrow> exn + trigger" where
  "new_trigger t =
     (if tr_minimum_state t = S0_NORMAL then Inl (repo_error ''SafeModeEngineError'') else Inr t)"

definition trigger_for ::
  "trigger_kind \<Rightarrow> datetime \<Rightarrow> string \<Rightarrow> safe_mode_state option \<Rightarrow> trigger_category option \<Rightarrow>
   exn + trigger" where
  "trigger_for kind observed_at detail minimum_state category =
     (case default_profile_for kind of (default_state, default_category) \<Rightarrow>
        new_trigger
          \<lparr>tr_kind = kind,
           tr_category = (case category of Some c \<Rightarrow> c | None \<Rightarrow> default_category),
           tr_minimum_state = (case minimum_state of Some s \<Rightarrow> s | None \<Rightarrow> default_state),
           tr_observed_at = observed_at, tr_detail = detail\<rparr>)"

record downgrade_approval =
  da_approver_iss :: string
  da_approver_kid :: string
  da_authority :: trigger_category
  da_issued_at :: datetime
  da_detail :: string

datatype transition_cause = Trigger | Clear | Downgrade

record state_transition =
  tn_from :: safe_mode_state
  tn_to :: safe_mode_state
  tn_at :: datetime
  tn_cause :: transition_cause
  tn_active_kinds :: "trigger_kind list"
  tn_detail :: string

text \<open>\<open>repr\<close> of a \<open>str\<close>, for the detail of a downgrade.\<close>

definition repr_hex :: "nat \<Rightarrow> char" where
  "repr_hex n = char_of (if n < 10 then n + 48 else n + 87)"

definition repr_char :: "char \<Rightarrow> char \<Rightarrow> string" where
  "repr_char quote c =
     (let n = of_char c :: nat in
      if c = quote \<or> n = 92 then [CHR 0x5C, c]
      else if n = 10 then [CHR 0x5C, CHR ''n'']
      else if n = 13 then [CHR 0x5C, CHR ''r'']
      else if n = 9 then [CHR 0x5C, CHR ''t'']
      else if n < 32 \<or> (127 \<le> n \<and> n \<le> 160) \<or> n = 173
      then [CHR 0x5C, CHR ''x'', repr_hex (n div 16), repr_hex (n mod 16)]
      else [c])"

definition py_repr :: "string \<Rightarrow> string" where
  "py_repr s =
     (let quote = (if CHR 0x27 \<in> set s \<and> CHR 0x22 \<notin> set s then CHR 0x22 else CHR 0x27)
      in [quote] @ concat (map (repr_char quote) s) @ [quote])"


section \<open>The engine\<close>

record engine =
  en_current :: safe_mode_state
  en_active :: "(trigger_kind \<times> trigger) list"

definition new_engine :: engine where
  "new_engine = \<lparr>en_current = S0_NORMAL, en_active = []\<rparr>"

definition compute_state :: "engine \<Rightarrow> safe_mode_state" where
  "compute_state e =
     (if en_active e = [] then S0_NORMAL else max_state (map tr_minimum_state (dvals (en_active e))))"

definition maybe_transition ::
  "safe_mode_state \<Rightarrow> safe_mode_state \<Rightarrow> transition_cause \<Rightarrow> datetime \<Rightarrow> string \<Rightarrow>
   engine \<Rightarrow> state_transition option \<times> engine" where
  "maybe_transition previous new_state cause moment detail e =
     (if new_state = previous then (None, e)
      else (Some \<lparr>tn_from = previous, tn_to = new_state, tn_at = moment, tn_cause = cause,
                  tn_active_kinds = dkeys (en_active e), tn_detail = detail\<rparr>,
            e\<lparr>en_current := new_state\<rparr>))"

definition observe :: "trigger \<Rightarrow> engine \<Rightarrow> state_transition option \<times> engine" where
  "observe t e =
     (let previous = en_current e; detail = kind_value (tr_kind t) @ '': '' @ tr_detail t in
      case dget (en_active e) (tr_kind t) of
        Some existing \<Rightarrow>
          if \<not> is_more_severe_state (tr_minimum_state t) (tr_minimum_state existing) then (None, e)
          else let e' = e\<lparr>en_active := dset (tr_kind t) t (en_active e)\<rparr> in
            maybe_transition previous (compute_state e') Trigger (tr_observed_at t) detail e'
      | None \<Rightarrow>
          let e' = e\<lparr>en_active := dset (tr_kind t) t (en_active e)\<rparr> in
            maybe_transition previous (compute_state e') Trigger (tr_observed_at t) detail e')"

definition clear ::
  "trigger_kind \<Rightarrow> datetime \<Rightarrow> string \<Rightarrow> engine \<Rightarrow> state_transition option \<times> engine" where
  "clear kind moment detail e =
     (if dget (en_active e) kind = None then (None, e)
      else let e' = e\<lparr>en_active := ddel kind (en_active e)\<rparr>; previous = en_current e in
        maybe_transition previous (compute_state e') Clear moment
          (''cleared '' @ kind_value kind @ '': '' @ detail) e')"

text \<open>The three refusals of \<open>downgrade\<close>, which the code tells apart by their messages.\<close>

datatype downgrade_error = TargetMoreSevere | Unauthorized | TriggersActive

definition downgrade ::
  "safe_mode_state \<Rightarrow> downgrade_approval \<Rightarrow> engine \<Rightarrow>
   (downgrade_error + state_transition) \<times> engine" where
  "downgrade to_state approval e =
     (if is_more_severe_state to_state (en_current e) then (Inl TargetMoreSevere, e)
      else if \<exists>t\<in>set (dvals (en_active e)). is_higher_authority (tr_category t) (da_authority approval)
      then (Inl Unauthorized, e)
      else let floor = compute_state e in
        if is_more_severe_state floor to_state then (Inl TriggersActive, e)
        else (Inr \<lparr>tn_from = en_current e, tn_to = to_state, tn_at = da_issued_at approval,
                   tn_cause = Downgrade, tn_active_kinds = dkeys (en_active e),
                   tn_detail = ''downgrade authorized by '' @ py_repr (da_approver_iss approval) @
                     '': '' @ da_detail approval\<rparr>,
              e\<lparr>en_current := to_state\<rparr>))"

definition require_authorized_downgrade ::
  "safe_mode_state \<Rightarrow> downgrade_approval \<Rightarrow> engine \<Rightarrow>
   (deny_reason option + state_transition) \<times> engine" where
  "require_authorized_downgrade to_state approval e =
     (case downgrade to_state approval e of
        (Inr t, e') \<Rightarrow> (Inr t, e')
      | (Inl Unauthorized, e') \<Rightarrow> (Inl (Some SAFE_MODE_DOWNGRADE_UNAUTHORIZED), e')
      | (Inl TriggersActive, e') \<Rightarrow> (Inl (Some SAFE_MODE_DOWNGRADE_TRIGGERS_ACTIVE), e')
      | (Inl TargetMoreSevere, e') \<Rightarrow> (Inl None, e'))"


section \<open>The engine's state is the most severe active trigger\<close>

lemma max_state_snoc: "max_state (xs @ [x]) = (if max_state xs < x then x else max_state xs)"
  by (simp add: max_state_def less_safe_mode_state_def)

interpretation max_state: severity_scale S0_NORMAL max_state
  by unfold_locales (simp_all add: max_state_snoc, simp add: max_state_def)

definition levels :: "engine \<Rightarrow> safe_mode_state list" where
  "levels e = map tr_minimum_state (dvals (en_active e))"

lemma compute_state_max: "compute_state e = max_state (levels e)"
  by (simp add: compute_state_def levels_def dvals_def max_state.worst_Nil)

definition engine_inv :: "engine \<Rightarrow> bool" where
  "engine_inv e \<longleftrightarrow>
     dict_wf (en_active e) \<and> (\<forall>(k, t)\<in>set (en_active e). tr_kind t = k \<and> tr_minimum_state t \<noteq> S0_NORMAL) \<and>
     en_current e = compute_state e"

lemma engine_inv_new [simp, inv_intros]: "engine_inv new_engine"
  by (simp add: engine_inv_def new_engine_def compute_state_def)

lemma maybe_transition_state:
  "en_current (snd (maybe_transition p n c moment d e)) = (if n = p then en_current e else n)"
  "en_active (snd (maybe_transition p n c moment d e)) = en_active e"
  by (simp_all add: maybe_transition_def)

lemma compute_state_cong: "en_active e = en_active e' \<Longrightarrow> compute_state e = compute_state e'"
  by (simp add: compute_state_def)

lemma set_ddel_subset: "set (ddel k d) \<subseteq> set d"
  by (auto simp: AList.delete_eq)

lemma engine_inv_rebase:
  assumes "engine_inv e" "dict_wf act"
    and "\<forall>(k, t)\<in>set act. tr_kind t = k \<and> tr_minimum_state t \<noteq> S0_NORMAL"
  shows "engine_inv (snd (maybe_transition (en_current e) (compute_state (e\<lparr>en_active := act\<rparr>)) c moment d
      (e\<lparr>en_active := act\<rparr>)))"
  using assms by (auto simp: engine_inv_def maybe_transition_def compute_state_def)

lemma engine_inv_observe [inv_intros]:
  assumes "engine_inv e" "tr_minimum_state t \<noteq> S0_NORMAL"
  shows "engine_inv (snd (observe t e))"
proof -
  let ?act = "dset (tr_kind t) t (en_active e)"
  have "dict_wf ?act" using assms(1) by (simp add: engine_inv_def)
  moreover have "\<forall>(k, t)\<in>set ?act. tr_kind t = k \<and> tr_minimum_state t \<noteq> S0_NORMAL"
    using assms set_dset[of "tr_kind t" t "en_active e"] by (fastforce simp: engine_inv_def)
  ultimately show ?thesis
    using engine_inv_rebase[OF assms(1), of ?act Trigger "tr_observed_at t"] assms(1)
    by (auto simp: observe_def Let_def split: option.splits)
qed

lemma engine_inv_clear [inv_intros]:
  assumes "engine_inv e"
  shows "engine_inv (snd (clear kind moment d e))"
proof -
  let ?act = "ddel kind (en_active e)"
  have "dict_wf ?act" using assms by (simp add: engine_inv_def)
  moreover have "\<forall>(k, t)\<in>set ?act. tr_kind t = k \<and> tr_minimum_state t \<noteq> S0_NORMAL"
    using assms set_ddel_subset[of kind "en_active e"] by (fastforce simp: engine_inv_def)
  ultimately show ?thesis
    using engine_inv_rebase[OF assms, of ?act Clear moment] assms
    by (auto simp: clear_def Let_def)
qed

lemma downgrade_same:
  assumes "engine_inv e" "downgrade s a e = (Inr t, e')"
  shows "s = en_current e" "e' = e"
proof -
  have "s \<le> en_current e" "en_current e \<le> s"
    using assms by (auto simp: downgrade_def Let_def engine_inv_def split: if_splits)
  then show "s = en_current e" by simp
  then show "e' = e" using assms(2) by (auto simp: downgrade_def Let_def split: if_splits)
qed

lemma downgrade_error_same: "downgrade s a e = (Inl x, e') \<Longrightarrow> e' = e"
  by (auto simp: downgrade_def Let_def split: if_splits)

lemma engine_inv_downgrade [inv_intros]:
  "engine_inv e \<Longrightarrow> engine_inv (snd (downgrade s a e))"
  by (cases "downgrade s a e" rule: prod.exhaust; cases "fst (downgrade s a e)")
     (auto dest: downgrade_same downgrade_error_same)

text \<open>The steps an engine takes; triggers are built by their constructor.\<close>

inductive sm_step :: "engine \<Rightarrow> engine \<Rightarrow> bool" where
  sm_observe: "new_trigger t = Inr t' \<Longrightarrow> sm_step e (snd (observe t' e))"
| sm_clear: "sm_step e (snd (clear kind moment d e))"
| sm_downgrade: "sm_step e (snd (downgrade s a e))"

inductive_cases sm_stepE: "sm_step e e'"

inductive sm_reachable :: "engine \<Rightarrow> bool" where
  sm_init: "sm_reachable new_engine"
| sm_next: "sm_reachable e \<Longrightarrow> sm_step e e' \<Longrightarrow> sm_reachable e'"

lemma sm_step_inv: "sm_step e e' \<Longrightarrow> engine_inv e \<Longrightarrow> engine_inv e'"
  by (erule sm_stepE) (auto simp: new_trigger_def split: if_splits intro: inv_intros)

lemma sm_reachable_inv: "sm_reachable e \<Longrightarrow> engine_inv e"
  by (induction rule: sm_reachable.induct) (auto intro: sm_step_inv)



section \<open>Properties\<close>

text \<open>C35. In every reachable engine the current state is the most severe state that an active trigger
  requires: no trigger is masked, and a state above normal is justified by an active trigger.\<close>

theorem safe_mode_current_is_worst:
  assumes "sm_reachable e"
  shows "en_current e = max_state (levels e) \<and>
    (\<forall>t\<in>set (dvals (en_active e)). tr_minimum_state t \<le> en_current e) \<and>
    (en_current e \<noteq> S0_NORMAL \<longrightarrow> (\<exists>t\<in>set (dvals (en_active e)). tr_minimum_state t = en_current e)) \<and>
    (en_active e \<noteq> [] \<longrightarrow> en_current e \<noteq> S0_NORMAL)"
proof -
  have inv: "engine_inv e" using assms by (rule sm_reachable_inv)
  then have c: "en_current e = max_state (levels e)" by (simp add: engine_inv_def compute_state_max)
  have up: "\<forall>t\<in>set (dvals (en_active e)). tr_minimum_state t \<le> en_current e"
    using max_state.worst_upper[of _ "levels e"] c by (simp add: levels_def)
  moreover have "en_current e = S0_NORMAL \<or> (\<exists>t\<in>set (dvals (en_active e)). tr_minimum_state t = en_current e)"
    using max_state.worst_mem[of "levels e"] c by (auto simp: levels_def)
  moreover have "en_current e \<noteq> S0_NORMAL" if "en_active e \<noteq> []"
  proof -
    obtain k t where "(k, t) \<in> set (en_active e)" using \<open>en_active e \<noteq> []\<close> by (cases "en_active e") auto
    then have "t \<in> set (dvals (en_active e))" "tr_minimum_state t \<noteq> S0_NORMAL"
      using inv by (force simp: dvals_def engine_inv_def)+
    then show ?thesis using up by (auto simp: less_eq_safe_mode_state_def)
      (metis state_rank.simps(1) le_zero_eq state_rank_inject)
  qed
  ultimately show ?thesis using c by blast
qed

definition demo_trigger :: trigger where
  "demo_trigger =
     \<lparr>tr_kind = POLICY_ROLLBACK, tr_category = AUTHORIZATION, tr_minimum_state = S2_RESTRICTED,
      tr_observed_at = 0, tr_detail = []\<rparr>"

definition demo_engine :: engine where
  "demo_engine = snd (observe demo_trigger new_engine)"

lemma demo_engine_reachable: "sm_reachable demo_engine"
  unfolding demo_engine_def
  by (rule sm_next[OF sm_init], rule sm_observe[of demo_trigger]) (simp add: new_trigger_def demo_trigger_def)

theorem safe_mode_current_is_worst_witness:
  "en_current demo_engine = max_state (levels demo_engine) \<and> en_current demo_engine = S2_RESTRICTED"
  using safe_mode_current_is_worst[OF demo_engine_reachable]
  by (simp add: demo_engine_def observe_def new_engine_def demo_trigger_def maybe_transition_def
      compute_state_def max_state_def dvals_def Let_def)

text \<open>A downgrade that the engine accepts in a reachable state never changes that state: its floor,
  the state required by the active triggers, is always the current state.\<close>

lemma downgrade_is_vacuous:
  assumes "sm_reachable e" "downgrade s a e = (Inr t, e')"
  shows "s = en_current e \<and> e' = e"
  using downgrade_same[OF sm_reachable_inv[OF assms(1)] assms(2)] by simp

text \<open>An engine built with a state above normal and no trigger is lowered by its first trigger.\<close>

lemma observe_lowers_seeded_state:
  "en_current (snd (observe demo_trigger \<lparr>en_current = S4_LOCKDOWN, en_active = []\<rparr>)) = S2_RESTRICTED"
  by code_simp

end
