(* ===== verification/SignedSafeMode.thy ===== *)
theory SignedSafeMode
  imports SafeMode Artifact Demo
begin

text \<open>
  Signed safe-mode artifacts (\<open>signed_safe_mode.py\<close>): attested state transitions and signed
  downgrade approvals, and \<open>verified_downgrade\<close>, which runs the engine's downgrade under a
  verified approval. States, categories and kinds are enumerations once parsed; the other fields
  come from the wire.
\<close>

section \<open>Enumerations as strings\<close>

fun state_value :: "safe_mode_state \<Rightarrow> string" where
  "state_value S0_NORMAL = ''s0_normal''"
| "state_value S1_GUARDED = ''s1_guarded''"
| "state_value S2_RESTRICTED = ''s2_restricted''"
| "state_value S3_QUARANTINE = ''s3_quarantine''"
| "state_value S4_LOCKDOWN = ''s4_lockdown''"

fun category_value :: "trigger_category \<Rightarrow> string" where
  "category_value CRYPTO_TRUST = ''crypto_trust''"
| "category_value AUTHORIZATION = ''authorization''"
| "category_value DATA_PROTECTION = ''data_protection''"
| "category_value AVAILABILITY = ''availability''"

definition all_states :: "safe_mode_state list" where
  "all_states = [S0_NORMAL, S1_GUARDED, S2_RESTRICTED, S3_QUARANTINE, S4_LOCKDOWN]"

definition all_categories :: "trigger_category list" where
  "all_categories = [CRYPTO_TRUST, AUTHORIZATION, DATA_PROTECTION, AVAILABILITY]"

definition all_kinds :: "trigger_kind list" where
  "all_kinds =
     [CLOCK_TRUST_FAILURE, LEDGER_DIVERGENCE, POLICY_ROLLBACK, REVOCATION_UNCERTAINTY,
      ANOMALY_QUARANTINE]"

text \<open>\<open>SafeModeState(v)\<close> and the like: the member with that value, or \<open>ValueError\<close>.\<close>

definition enum_of :: "('a \<Rightarrow> string) \<Rightarrow> 'a list \<Rightarrow> pyval \<Rightarrow> 'a option" where
  "enum_of val members v = (if is_str v then find (\<lambda>m. val m = str_of v) members else None)"


section \<open>Attested transitions\<close>

record signed_transition =
  sx_from_state :: safe_mode_state
  sx_to_state :: safe_mode_state
  sx_transition_at :: pyval
  sx_cause :: pyval
  sx_active_kinds :: "pyval list"
  sx_detail :: pyval
  sx_attester_iss :: pyval
  sx_attester_kid :: pyval
  sx_jti :: pyval
  sx_signature :: pyval

abbreviation sserr :: "deny_reason \<Rightarrow> exn" where
  "sserr \<equiv> raise_as SignedSafeModeError"

definition transition_body :: "signed_transition \<Rightarrow> pyval" where
  "transition_body x =
     PDict [(''typ'', PStr ''wt-safe-mode-transition/v0''),
            (''from_state'', PStr (state_value (sx_from_state x))),
            (''to_state'', PStr (state_value (sx_to_state x))),
            (''transition_at'', sx_transition_at x), (''cause'', sx_cause x),
            (''active_kinds'', PList (sx_active_kinds x)), (''detail'', sx_detail x),
            (''attester_iss'', sx_attester_iss x), (''attester_kid'', sx_attester_kid x),
            (''jti'', sx_jti x)]"

fun cause_value :: "transition_cause \<Rightarrow> string" where
  "cause_value Trigger = ''trigger''"
| "cause_value Clear = ''clear''"
| "cause_value Downgrade = ''downgrade''"

text \<open>\<open>sorted\<close> on strings: insertion into a list ordered by code points.\<close>

fun str_le :: "string \<Rightarrow> string \<Rightarrow> bool" where
  "str_le [] t = True"
| "str_le (c # s) [] = False"
| "str_le (c # s) (d # t) =
     ((of_char c :: nat) < of_char d \<or> (c = d \<and> str_le s t))"

fun str_insert :: "string \<Rightarrow> string list \<Rightarrow> string list" where
  "str_insert s [] = [s]"
| "str_insert s (t # ts) = (if str_le s t then s # t # ts else t # str_insert s ts)"

definition str_sorted :: "string list \<Rightarrow> string list" where
  "str_sorted ss = foldr str_insert ss []"

definition from_transition ::
  "state_transition \<Rightarrow> string \<Rightarrow> string \<Rightarrow> string \<Rightarrow> signed_transition" where
  "from_transition t attester_iss attester_kid jti =
     \<lparr>sx_from_state = tn_from t, sx_to_state = tn_to t,
      sx_transition_at = PInt (if tn_at t \<ge> 0 then tn_at t div 1000000 else - ((- tn_at t) div 1000000)),
      sx_cause = PStr (cause_value (tn_cause t)),
      sx_active_kinds = map PStr (str_sorted (map kind_value (tn_active_kinds t))),
      sx_detail = PStr (tn_detail t), sx_attester_iss = PStr attester_iss, sx_attester_kid = PStr attester_kid,
      sx_jti = PStr jti, sx_signature = PStr []\<rparr>"

definition sign_transition :: "platform \<Rightarrow> (string \<Rightarrow> string) \<Rightarrow> signed_transition \<Rightarrow> exn + signed_transition" where
  "sign_transition P sign x =
     bindE (sign_body P sign (transition_body x)) (\<lambda>s. Inr (x\<lparr>sx_signature := s\<rparr>))"

definition transition_object :: "signed_transition \<Rightarrow> pyval" where
  "transition_object x =
     PDict [(''from_state'', PStr (state_value (sx_from_state x))), (''to_state'', PStr (state_value (sx_to_state x))),
            (''transition_at'', sx_transition_at x), (''cause'', sx_cause x),
            (''active_kinds'', PList (sx_active_kinds x)), (''detail'', sx_detail x),
            (''attester_iss'', sx_attester_iss x), (''attester_kid'', sx_attester_kid x), (''jti'', sx_jti x),
            (''signature'', sx_signature x)]"

definition transition_shape :: "signed_transition \<Rightarrow> exn + unit" where
  "transition_shape x =
     (let m = sserr SAFE_MODE_ARTIFACT_MALFORMED in
      guards
       ([(is_int (sx_transition_at x), m),
         (sx_cause x \<in> {PStr ''trigger'', PStr ''clear'', PStr ''downgrade''}, m)] @
        map (\<lambda>k. (enum_of kind_value all_kinds k \<noteq> None, m)) (sx_active_kinds x) @
        [(is_str (sx_detail x), m), (str_test spiffe_id_re (sx_attester_iss x), m),
         (str_test kid_re (sx_attester_kid x), m), (str_test uuid_v7_re (sx_jti x), m),
         (str_test nonempty (sx_signature x), m)]))"

text \<open>Key lookup and signature check, the same for both artifacts.\<close>

definition safe_mode_signature ::
  "platform \<Rightarrow> (string \<Rightarrow> string \<Rightarrow> exn + string) \<Rightarrow> pyval \<Rightarrow> pyval \<Rightarrow> pyval \<Rightarrow> pyval \<Rightarrow> exn + unit" where
  "safe_mode_signature P issuer_lookup iss kid signature body =
     issuer_signature P issuer_lookup (sserr SAFE_MODE_ARTIFACT_UNKNOWN_ISSUER)
       (sserr SAFE_MODE_ARTIFACT_SIGNATURE_INVALID) (str_of iss) (str_of kid) signature body"

definition verify_transition ::
  "platform \<Rightarrow> (string \<Rightarrow> string \<Rightarrow> exn + string) \<Rightarrow> signed_transition \<Rightarrow> exn + signed_transition" where
  "verify_transition P issuer_lookup x =
     bindE (transition_shape x) (\<lambda>_.
     bindE (safe_mode_signature P issuer_lookup (sx_attester_iss x) (sx_attester_kid x)
              (sx_signature x) (transition_body x)) (\<lambda>_. Inr x))"

text \<open>\<open>tuple(v)\<close>\<close>

fun py_iter :: "pyval \<Rightarrow> exn + pyval list" where
  "py_iter (PList xs) = Inr xs"
| "py_iter (PStr s) = Inr (map (\<lambda>c. PStr [c]) s)"
| "py_iter (PDict d) = Inr (map (\<lambda>(k, v). PStr k) d)"
| "py_iter _ = Inl (std_error ''TypeError'')"

definition transition_fields :: "string list" where
  "transition_fields =
     [''from_state'', ''to_state'', ''transition_at'', ''cause'', ''active_kinds'', ''detail'',
      ''attester_iss'', ''attester_kid'', ''jti'', ''signature'']"

text \<open>Reading an artifact: a JSON object with the required fields.\<close>

definition artifact_object :: "platform \<Rightarrow> string list \<Rightarrow> string \<Rightarrow> exn + (string \<times> pyval) list" where
  "artifact_object P required data =
     (case p_json_loads P data of
        Inl e \<Rightarrow>
          if value_or_type_error e then Inl (sserr SAFE_MODE_ARTIFACT_MALFORMED) else Inl e
      | Inr obj \<Rightarrow>
          if \<not> is_dict obj then Inl (sserr SAFE_MODE_ARTIFACT_MALFORMED)
          else if filter (\<lambda>k. \<not> has_key (dict_of obj) k) required \<noteq> []
          then Inl (sserr SAFE_MODE_ARTIFACT_MALFORMED)
          else Inr (dict_of obj))"

definition transition_from_json :: "platform \<Rightarrow> string \<Rightarrow> exn + signed_transition" where
  "transition_from_json P data =
     bindE (artifact_object P transition_fields data) (\<lambda>d.
       case (enum_of state_value all_states (item d ''from_state''),
             enum_of state_value all_states (item d ''to_state'')) of
         (Some fs, Some ts) \<Rightarrow>
           bindE (py_iter (item d ''active_kinds'')) (\<lambda>ks.
           Inr \<lparr>sx_from_state = fs, sx_to_state = ts, sx_transition_at = item d ''transition_at'',
                sx_cause = item d ''cause'', sx_active_kinds = ks, sx_detail = item d ''detail'',
                sx_attester_iss = item d ''attester_iss'', sx_attester_kid = item d ''attester_kid'',
                sx_jti = item d ''jti'', sx_signature = item d ''signature''\<rparr>)
       | _ \<Rightarrow> Inl (sserr SAFE_MODE_ARTIFACT_MALFORMED))"


section \<open>Downgrade approvals\<close>

record signed_approval =
  sa_approver_iss :: pyval
  sa_approver_kid :: pyval
  sa_authority :: trigger_category
  sa_issued_at :: pyval
  sa_nbf :: pyval
  sa_exp :: pyval
  sa_detail :: pyval
  sa_jti :: pyval
  sa_signature :: pyval

definition approval_body :: "signed_approval \<Rightarrow> pyval" where
  "approval_body a =
     PDict [(''typ'', PStr ''wt-safe-mode-downgrade/v0''), (''approver_iss'', sa_approver_iss a),
            (''approver_kid'', sa_approver_kid a),
            (''authority'', PStr (category_value (sa_authority a))),
            (''issued_at'', sa_issued_at a), (''nbf'', sa_nbf a), (''exp'', sa_exp a),
            (''detail'', sa_detail a), (''jti'', sa_jti a)]"

definition sign_downgrade_approval :: "platform \<Rightarrow> (string \<Rightarrow> string) \<Rightarrow> signed_approval \<Rightarrow> exn + signed_approval" where
  "sign_downgrade_approval P sign a =
     bindE (sign_body P sign (approval_body a)) (\<lambda>s. Inr (a\<lparr>sa_signature := s\<rparr>))"

definition approval_object :: "signed_approval \<Rightarrow> pyval" where
  "approval_object a =
     PDict [(''approver_iss'', sa_approver_iss a), (''approver_kid'', sa_approver_kid a),
            (''authority'', PStr (category_value (sa_authority a))), (''issued_at'', sa_issued_at a),
            (''nbf'', sa_nbf a), (''exp'', sa_exp a), (''detail'', sa_detail a), (''jti'', sa_jti a),
            (''signature'', sa_signature a)]"

definition approval_shape :: "signed_approval \<Rightarrow> exn + unit" where
  "approval_shape a =
     (let m = sserr SAFE_MODE_ARTIFACT_MALFORMED;
          ia = int_of (sa_issued_at a); nbf = int_of (sa_nbf a); exp = int_of (sa_exp a) in
      guards
       [(str_test spiffe_id_re (sa_approver_iss a), m), (str_test kid_re (sa_approver_kid a), m),
        (is_int (sa_issued_at a), m), (is_int (sa_nbf a), m), (is_int (sa_exp a), m),
        (\<not> (ia > nbf \<or> nbf > exp), m), (is_str (sa_detail a), m),
        (str_test uuid_v7_re (sa_jti a), m), (str_test nonempty (sa_signature a), m)])"

definition approval_window ::
  "signed_approval \<Rightarrow> datetime \<Rightarrow> timedelta \<Rightarrow> timedelta \<Rightarrow> exn + unit" where
  "approval_window a current max_clock_skew max_approval_ttl =
     (let nbf = int_of (sa_nbf a); exp = int_of (sa_exp a) in
      bindE (timedelta_seconds (exp - nbf)) (\<lambda>ttl.
      bindE (guard (\<not> ttl > max_approval_ttl) (sserr SAFE_MODE_ARTIFACT_MALFORMED)) (\<lambda>_.
      bindE (fromtimestamp nbf) (\<lambda>nbf_dt.
      bindE (fromtimestamp exp) (\<lambda>exp_dt.
      guards
       [(\<not> current + max_clock_skew < nbf_dt, sserr SAFE_MODE_ARTIFACT_EXPIRED),
        (\<not> current - max_clock_skew > exp_dt, sserr SAFE_MODE_ARTIFACT_EXPIRED)])))))"

definition verify_downgrade_approval ::
  "platform \<Rightarrow> (string \<Rightarrow> string \<Rightarrow> exn + string) \<Rightarrow> datetime \<Rightarrow> timedelta \<Rightarrow> timedelta \<Rightarrow>
   signed_approval \<Rightarrow> exn + signed_approval" where
  "verify_downgrade_approval P issuer_lookup current max_clock_skew max_approval_ttl a =
     bindE (approval_shape a) (\<lambda>_.
     bindE (approval_window a current max_clock_skew max_approval_ttl) (\<lambda>_.
     bindE (safe_mode_signature P issuer_lookup (sa_approver_iss a) (sa_approver_kid a)
              (sa_signature a) (approval_body a)) (\<lambda>_. Inr a)))"

text \<open>\<open>verified_downgrade\<close> raises the verifier's exceptions, or the refusals of the engine.\<close>

datatype downgrade_failure = ArtifactError exn | EngineError downgrade_error

definition verified_downgrade ::
  "platform \<Rightarrow> (string \<Rightarrow> string \<Rightarrow> exn + string) \<Rightarrow> datetime \<Rightarrow> timedelta \<Rightarrow> timedelta \<Rightarrow>
   safe_mode_state \<Rightarrow> signed_approval \<Rightarrow> engine \<Rightarrow>
   (downgrade_failure + state_transition) \<times> engine" where
  "verified_downgrade P issuer_lookup current max_clock_skew max_approval_ttl to_state a e =
     (case bindE (verify_downgrade_approval P issuer_lookup current max_clock_skew max_approval_ttl a)
             (\<lambda>_. fromtimestamp (int_of (sa_issued_at a))) of
        Inl x \<Rightarrow> (Inl (ArtifactError x), e)
      | Inr issued_at \<Rightarrow>
          (case downgrade to_state
                  \<lparr>da_approver_iss = str_of (sa_approver_iss a),
                   da_approver_kid = str_of (sa_approver_kid a), da_authority = sa_authority a,
                   da_issued_at = issued_at, da_detail = str_of (sa_detail a)\<rparr> e of
             (Inl x, e') \<Rightarrow> (Inl (EngineError x), e')
           | (Inr t, e') \<Rightarrow> (Inr t, e')))"

definition approval_fields :: "string list" where
  "approval_fields =
     [''approver_iss'', ''approver_kid'', ''authority'', ''issued_at'', ''nbf'', ''exp'', ''detail'',
      ''jti'', ''signature'']"

definition approval_from_json :: "platform \<Rightarrow> string \<Rightarrow> exn + signed_approval" where
  "approval_from_json P data =
     bindE (artifact_object P approval_fields data) (\<lambda>d.
       case enum_of category_value all_categories (item d ''authority'') of
         None \<Rightarrow> Inl (sserr SAFE_MODE_ARTIFACT_MALFORMED)
       | Some auth \<Rightarrow>
           Inr \<lparr>sa_approver_iss = item d ''approver_iss'', sa_approver_kid = item d ''approver_kid'',
                sa_authority = auth, sa_issued_at = item d ''issued_at'', sa_nbf = item d ''nbf'',
                sa_exp = item d ''exp'', sa_detail = item d ''detail'', sa_jti = item d ''jti'',
                sa_signature = item d ''signature''\<rparr>)"


section \<open>Facts\<close>

lemma enum_of_value:
  "s \<in> set all_states \<Longrightarrow> enum_of state_value all_states (PStr (state_value s)) = Some s"
  by (cases s) (simp_all add: enum_of_def all_states_def)

lemma all_states_all [simp]: "s \<in> set all_states" "c \<in> set all_categories" "k \<in> set all_kinds"
  by (cases s, simp_all add: all_states_def) (cases c, simp_all add: all_categories_def,
      cases k, simp_all add: all_kinds_def)

lemma kind_values_known: "enum_of kind_value all_kinds (PStr (kind_value k)) = Some k"
  by (cases k) (simp_all add: enum_of_def all_kinds_def)

lemma safe_mode_signature_Inr:
  "safe_mode_signature P lookup iss kid signature body = Inr () \<longleftrightarrow>
     signed_by P lookup (str_of iss) (str_of kid) signature body"
  by (simp add: safe_mode_signature_def issuer_signature_Inr)

lemma category_value_known: "enum_of category_value all_categories (PStr (category_value c)) = Some c"
  by (cases c) (simp_all add: enum_of_def all_categories_def)

interpretation transitions: signed_artifact transition_body sx_signature sign_transition transition_object transition_from_json
  by unfold_locales (auto simp: sign_transition_def transition_body_def transition_object_def transition_from_json_def
      artifact_object_def transition_fields_def has_key_def item_def enum_of_value)

interpretation approvals: signed_artifact approval_body sa_signature sign_downgrade_approval approval_object approval_from_json
  by unfold_locales (auto simp: sign_downgrade_approval_def approval_body_def approval_object_def approval_from_json_def
      artifact_object_def approval_fields_def has_key_def item_def category_value_known)

lemma verify_downgrade_approval_Inr:
  assumes "verify_downgrade_approval P lookup now skew ttl a = Inr a'"
  shows "a' = a" "int_of (sa_nbf a) \<le> int_of (sa_exp a)"
    "seconds (int_of (sa_nbf a)) \<le> now + skew" "now - skew \<le> seconds (int_of (sa_exp a))"
    "seconds (int_of (sa_exp a) - int_of (sa_nbf a)) \<le> ttl"
    "safe_mode_signature P lookup (sa_approver_iss a) (sa_approver_kid a) (sa_signature a)
       (approval_body a) = Inr ()"
  using assms
  by (auto simp: verify_downgrade_approval_def approval_shape_def approval_window_def Let_def
      fromtimestamp_Inr timedelta_seconds_Inr)



section \<open>Properties\<close>

text \<open>A signed downgrade takes effect only under an approval whose signature verifies under its
  approver's key, inside its validity window and the maximal lifetime, whose authority no active
  trigger outranks, and only to a state between the one the active triggers require and the
  current one.\<close>

lemma verified_downgrade_sound:
  assumes "verified_downgrade P lookup now skew ttl s a e = (Inr t, e')"
  shows "e' = e\<lparr>en_current := s\<rparr> \<and> compute_state e \<le> s \<and> s \<le> en_current e \<and>
    (\<forall>x\<in>set (dvals (en_active e)). \<not> is_higher_authority (tr_category x) (sa_authority a)) \<and>
    seconds (int_of (sa_nbf a)) \<le> now + skew \<and> now - skew \<le> seconds (int_of (sa_exp a)) \<and>
    seconds (int_of (sa_exp a) - int_of (sa_nbf a)) \<le> ttl \<and>
    signed_by P lookup (str_of (sa_approver_iss a)) (str_of (sa_approver_kid a)) (sa_signature a) (approval_body a)"
proof -
  obtain a' where "verify_downgrade_approval P lookup now skew ttl a = Inr a'"
    using assms by (cases "verify_downgrade_approval P lookup now skew ttl a")
      (auto simp: verified_downgrade_def)
  note v = verify_downgrade_approval_Inr[OF this]
  have "\<exists>da. da_authority da = sa_authority a \<and> downgrade s da e = (Inr t, e')"
    using assms by (auto simp: verified_downgrade_def split: sum.splits prod.splits)
       (metis downgrade_approval.select_convs(3))
  then have "e' = e\<lparr>en_current := s\<rparr> \<and> compute_state e \<le> s \<and> s \<le> en_current e \<and>
      (\<forall>x\<in>set (dvals (en_active e)). \<not> is_higher_authority (tr_category x) (sa_authority a))"
    by (auto simp: downgrade_def Let_def split: if_splits)
  then show ?thesis using v by (simp add: safe_mode_signature_Inr)
qed

end
