(* ===== verification/Budgets.thy ===== *)
theory Budgets
  imports Deny_Reason
begin

text \<open>
  Capacity budgets (\<open>capacity_budgets.py\<close>): pools with a reserved floor and a ceiling, tenants
  with a reserve and a burst, and the in-flight counters of a \<open>BudgetController\<close>. Each operation
  takes the controller and returns it changed. The locale \<open>quota_controller\<close> is what the
  rebalancer relies on; it has one interpretation for pool ceilings and one for tenant bursts.
\<close>

section \<open>Controller\<close>

record budget_pool =
  bp_name :: string
  bp_reserved :: int
  bp_ceiling :: int

record tenant_budget =
  tb_pool :: string
  tb_tenant :: string
  tb_reserve :: int
  tb_burst :: int

record controller =
  bc_total :: int
  bc_pools :: "budget_pool list"
  bc_tenants :: "tenant_budget list"
  bc_in_pool :: "string \<rightharpoonup> int"
  bc_in_tenant :: "string \<times> string \<rightharpoonup> int"

record budget_decision =
  bd_allowed :: bool
  bd_reason_code :: string

abbreviation budget_error :: exn where
  "budget_error \<equiv> repo_error ''CapacityBudgetError''"

text \<open>The \<open>__post_init__\<close> guards of the three classes.\<close>

definition pool_ok :: "budget_pool \<Rightarrow> bool" where
  "pool_ok p \<longleftrightarrow> bp_name p \<noteq> [] \<and> 0 \<le> bp_reserved p \<and> bp_reserved p \<le> bp_ceiling p"

definition tenant_budget_ok :: "tenant_budget \<Rightarrow> bool" where
  "tenant_budget_ok t \<longleftrightarrow>
     tb_pool t \<noteq> [] \<and> tb_tenant t \<noteq> [] \<and> 0 \<le> tb_reserve t \<and> tb_reserve t \<le> tb_burst t"

definition tb_key :: "tenant_budget \<Rightarrow> string \<times> string" where
  "tb_key t = (tb_pool t, tb_tenant t)"

definition build_controller ::
  "int \<Rightarrow> budget_pool list \<Rightarrow> tenant_budget list \<Rightarrow> exn + controller" where
  "build_controller capacity pools tenants =
     (if \<not> list_all pool_ok pools \<or> \<not> list_all tenant_budget_ok tenants then Inl budget_error
      else if capacity < 0 then Inl budget_error
      else if \<not> distinct (map bp_name pools) then Inl budget_error
      else if sum_list (map bp_reserved pools) > capacity then Inl budget_error
      else if \<not> list_all (\<lambda>t. tb_pool t \<in> set (map bp_name pools)) tenants then Inl budget_error
      else if \<not> distinct (map tb_key tenants) then Inl budget_error
      else Inr \<lparr>bc_total = capacity, bc_pools = pools, bc_tenants = tenants,
                bc_in_pool = Map.empty, bc_in_tenant = Map.empty\<rparr>)"

definition pool_by_name :: "controller \<Rightarrow> string \<Rightarrow> budget_pool option" where
  "pool_by_name c name = find (\<lambda>p. bp_name p = name) (bc_pools c)"

definition tenant_budget_for :: "controller \<Rightarrow> string \<Rightarrow> string \<Rightarrow> tenant_budget option" where
  "tenant_budget_for c pool tenant =
     find (\<lambda>t. tb_pool t = pool \<and> tb_tenant t = tenant) (bc_tenants c)"

definition get0 :: "('a \<rightharpoonup> int) \<Rightarrow> 'a \<Rightarrow> int" where
  "get0 m k = (case m k of None \<Rightarrow> 0 | Some n \<Rightarrow> n)"

definition others_reserved :: "controller \<Rightarrow> string \<Rightarrow> int" where
  "others_reserved c pool =
     sum_list (map bp_reserved (filter (\<lambda>p. bp_name p \<noteq> pool) (bc_pools c)))"


section \<open>Operations\<close>

definition denied :: "deny_reason \<Rightarrow> budget_decision" where
  "denied r = \<lparr>bd_allowed = False, bd_reason_code = deny_value r\<rparr>"

definition granted :: budget_decision where
  "granted = \<lparr>bd_allowed = True, bd_reason_code = ''ok''\<rparr>"

text \<open>The budget of the tenant that an acquisition is charged to, if it has one.\<close>

definition charged :: "controller \<Rightarrow> string \<Rightarrow> string option \<Rightarrow> tenant_budget option" where
  "charged c pool tenant =
     (case tenant of None \<Rightarrow> None | Some t \<Rightarrow> tenant_budget_for c pool t)"

definition acquire ::
  "string \<Rightarrow> int \<Rightarrow> string option \<Rightarrow> controller \<Rightarrow> (exn + budget_decision) \<times> controller" where
  "acquire pool cost tenant c =
     (if cost < 1 then (Inl budget_error, c)
      else case pool_by_name c pool of
        None \<Rightarrow> (Inr (denied BUDGET_POOL_UNKNOWN), c)
      | Some p \<Rightarrow>
          let current_pool = get0 (bc_in_pool c) pool in
          if current_pool + cost > bp_ceiling p then (Inr (denied BUDGET_CEILING_EXCEEDED), c)
          else if current_pool + cost > bp_reserved p \<and>
                  current_pool + cost > bc_total c - others_reserved c pool
          then (Inr (denied BUDGET_FLOOR_GUARD), c)
          else case charged c pool tenant of
            None \<Rightarrow>
              (Inr granted, c\<lparr>bc_in_pool := (bc_in_pool c)(pool \<mapsto> current_pool + cost)\<rparr>)
          | Some tb \<Rightarrow>
              let key = tb_key tb in
              if get0 (bc_in_tenant c) key + cost > tb_burst tb
              then (Inr (denied BUDGET_TENANT_BURST_EXCEEDED), c)
              else (Inr granted,
                    c\<lparr>bc_in_pool := (bc_in_pool c)(pool \<mapsto> current_pool + cost),
                      bc_in_tenant :=
                        (bc_in_tenant c)(key \<mapsto> get0 (bc_in_tenant c) key + cost)\<rparr>))"

text \<open>\<open>release\<close> lowers the pool's counter before it checks the tenant's.\<close>

definition release ::
  "string \<Rightarrow> int \<Rightarrow> string option \<Rightarrow> controller \<Rightarrow> (exn + unit) \<times> controller" where
  "release pool cost tenant c =
     (if cost < 1 then (Inl budget_error, c)
      else case pool_by_name c pool of
        None \<Rightarrow> (Inl budget_error, c)
      | Some p \<Rightarrow>
          let current = get0 (bc_in_pool c) pool in
          if cost > current then (Inl budget_error, c)
          else let c' = c\<lparr>bc_in_pool := (bc_in_pool c)(pool \<mapsto> current - cost)\<rparr> in
            case charged c pool tenant of
              None \<Rightarrow> (Inr (), c')
            | Some tb \<Rightarrow>
                let key = tb_key tb; ct = get0 (bc_in_tenant c) key in
                if cost > ct then (Inl budget_error, c')
                else (Inr (), c'\<lparr>bc_in_tenant := (bc_in_tenant c)(key \<mapsto> ct - cost)\<rparr>))"

text \<open>The rebuilt tuples of \<open>adjust_ceiling\<close> and \<open>adjust_tenant_burst\<close>.\<close>

definition set_ceiling :: "string \<Rightarrow> int \<Rightarrow> budget_pool list \<Rightarrow> budget_pool list" where
  "set_ceiling pool n ps = map (\<lambda>p. if bp_name p = pool then p\<lparr>bp_ceiling := n\<rparr> else p) ps"

definition set_burst :: "string \<Rightarrow> string \<Rightarrow> int \<Rightarrow> tenant_budget list \<Rightarrow> tenant_budget list" where
  "set_burst pool tenant n ts =
     map (\<lambda>t. if tb_pool t = pool \<and> tb_tenant t = tenant then t\<lparr>tb_burst := n\<rparr> else t) ts"

definition adjust_ceiling :: "string \<Rightarrow> int \<Rightarrow> controller \<Rightarrow> (exn + unit) \<times> controller" where
  "adjust_ceiling pool new_ceiling c =
     (if new_ceiling < 0 then (Inl budget_error, c)
      else case pool_by_name c pool of
        None \<Rightarrow> (Inl budget_error, c)
      | Some existing \<Rightarrow>
          if new_ceiling < bp_reserved existing then (Inl budget_error, c)
          else if new_ceiling < get0 (bc_in_pool c) pool then (Inl budget_error, c)
          else if new_ceiling + others_reserved c pool > bc_total c then (Inl budget_error, c)
          else (Inr (), c\<lparr>bc_pools := set_ceiling pool new_ceiling (bc_pools c)\<rparr>))"

definition adjust_tenant_burst ::
  "string \<Rightarrow> string \<Rightarrow> int \<Rightarrow> controller \<Rightarrow> (exn + unit) \<times> controller" where
  "adjust_tenant_burst pool tenant new_burst c =
     (if new_burst < 0 then (Inl budget_error, c)
      else case tenant_budget_for c pool tenant of
        None \<Rightarrow> (Inl budget_error, c)
      | Some existing \<Rightarrow>
          if new_burst < tb_reserve existing then (Inl budget_error, c)
          else if new_burst < get0 (bc_in_tenant c) (pool, tenant) then (Inl budget_error, c)
          else (Inr (), c\<lparr>bc_tenants := set_burst pool tenant new_burst (bc_tenants c)\<rparr>))"


section \<open>Invariant\<close>

text \<open>\<open>max_for_pool\<close>: what the other pools' floors leave to a pool.\<close>

definition max_for_pool :: "controller \<Rightarrow> string \<Rightarrow> int" where
  "max_for_pool c pool = bc_total c - others_reserved c pool"

definition pools_inv :: "controller \<Rightarrow> bool" where
  "pools_inv c \<longleftrightarrow>
     list_all pool_ok (bc_pools c) \<and> distinct (map bp_name (bc_pools c)) \<and>
     sum_list (map bp_reserved (bc_pools c)) \<le> bc_total c \<and>
     (\<forall>p\<in>set (bc_pools c). 0 \<le> get0 (bc_in_pool c) (bp_name p) \<and>
        get0 (bc_in_pool c) (bp_name p) \<le> bp_ceiling p \<and>
        get0 (bc_in_pool c) (bp_name p) \<le> max_for_pool c (bp_name p))"

definition tenants_inv :: "controller \<Rightarrow> bool" where
  "tenants_inv c \<longleftrightarrow>
     list_all tenant_budget_ok (bc_tenants c) \<and> distinct (map tb_key (bc_tenants c)) \<and>
     (\<forall>t\<in>set (bc_tenants c). tb_pool t \<in> set (map bp_name (bc_pools c))) \<and>
     (\<forall>t\<in>set (bc_tenants c). 0 \<le> get0 (bc_in_tenant c) (tb_key t) \<and>
        get0 (bc_in_tenant c) (tb_key t) \<le> tb_burst t)"

definition controller_inv :: "controller \<Rightarrow> bool" where
  "controller_inv c \<longleftrightarrow> pools_inv c \<and> tenants_inv c"

lemma find_Some_mem: "find P xs = Some x \<Longrightarrow> x \<in> set xs \<and> P x"
  by (auto simp: find_Some_iff)

lemma find_distinct:
  "distinct (map f xs) \<Longrightarrow> find (\<lambda>x. f x = k) xs = Some x \<longleftrightarrow> x \<in> set xs \<and> f x = k"
  by (induction xs) auto

lemma pool_by_name_Some: "pool_by_name c n = Some p \<Longrightarrow> p \<in> set (bc_pools c) \<and> bp_name p = n"
  unfolding pool_by_name_def by (rule find_Some_mem)

lemma pool_by_name_iff:
  "pools_inv c \<Longrightarrow> pool_by_name c n = Some p \<longleftrightarrow> p \<in> set (bc_pools c) \<and> bp_name p = n"
  unfolding pool_by_name_def by (rule find_distinct) (simp add: pools_inv_def)

lemma tenant_budget_for_Some:
  "tenant_budget_for c p t = Some tb \<Longrightarrow> tb \<in> set (bc_tenants c) \<and> tb_pool tb = p \<and> tb_tenant tb = t"
  unfolding tenant_budget_for_def by (drule find_Some_mem) simp

lemma tenant_budget_for_iff:
  "tenants_inv c \<Longrightarrow> tenant_budget_for c p t = Some tb \<longleftrightarrow> tb \<in> set (bc_tenants c) \<and> tb_key tb = (p, t)"
proof -
  assume "tenants_inv c"
  then have "distinct (map tb_key (bc_tenants c))" by (simp add: tenants_inv_def)
  moreover have "tenant_budget_for c p t = find (\<lambda>x. tb_key x = (p, t)) (bc_tenants c)"
    by (simp add: tenant_budget_for_def tb_key_def)
  ultimately show ?thesis by (simp add: find_distinct)
qed

lemma charged_Some: "charged c p t = Some tb \<Longrightarrow> tb \<in> set (bc_tenants c)"
  by (auto simp: charged_def dest: tenant_budget_for_Some split: option.splits)

lemma get0_upd [simp]: "get0 (m(k \<mapsto> n)) k' = (if k' = k then n else get0 m k')"
  by (simp add: get0_def)

lemma others_reserved_upd [simp]:
  "others_reserved (c\<lparr>bc_in_pool := m\<rparr>) n = others_reserved c n"
  "others_reserved (c\<lparr>bc_in_pool := m, bc_in_tenant := m'\<rparr>) n = others_reserved c n"
  "others_reserved (c\<lparr>bc_tenants := ts\<rparr>) n = others_reserved c n"
  by (simp_all add: others_reserved_def)

lemma max_for_pool_upd [simp]:
  "max_for_pool (c\<lparr>bc_in_pool := m\<rparr>) n = max_for_pool c n"
  "max_for_pool (c\<lparr>bc_in_pool := m, bc_in_tenant := m'\<rparr>) n = max_for_pool c n"
  "max_for_pool (c\<lparr>bc_tenants := ts\<rparr>) n = max_for_pool c n"
  by (simp_all add: max_for_pool_def)

lemma sum_reserved_split:
  assumes "distinct (map bp_name ps)" "p \<in> set ps"
  shows "sum_list (map bp_reserved ps) =
    bp_reserved p + sum_list (map bp_reserved (filter (\<lambda>q. bp_name q \<noteq> bp_name p) ps))"
  using assms
proof (induction ps)
  case (Cons a ps)
  show ?case
  proof (cases "p = a")
    case True
    have "filter (\<lambda>q. bp_name q \<noteq> bp_name a) ps = ps"
      using Cons.prems(1) by (auto simp: filter_id_conv) (metis image_eqI)
    then show ?thesis using True by simp
  next
    case False
    then have "bp_name a \<noteq> bp_name p" using Cons.prems by auto
    then show ?thesis using Cons False by simp
  qed
qed simp

lemma reserved_le_max:
  assumes "pools_inv c" "p \<in> set (bc_pools c)"
  shows "bp_reserved p \<le> max_for_pool c (bp_name p)"
  using assms sum_reserved_split[of "bc_pools c" p]
  by (auto simp: pools_inv_def max_for_pool_def others_reserved_def)

lemma build_controller_inv:
  assumes "build_controller capacity ps ts = Inr c"
  shows "controller_inv c"
proof -
  have c: "c = \<lparr>bc_total = capacity, bc_pools = ps, bc_tenants = ts, bc_in_pool = Map.empty,
      bc_in_tenant = Map.empty\<rparr>"
    and ok: "list_all pool_ok ps" "list_all tenant_budget_ok ts" "distinct (map bp_name ps)"
      "sum_list (map bp_reserved ps) \<le> capacity" "distinct (map tb_key ts)"
      "\<forall>t\<in>set ts. tb_pool t \<in> set (map bp_name ps)"
    using assms by (auto simp: build_controller_def list_all_iff split: if_splits)
  have "0 \<le> max_for_pool c (bp_name p)" if "p \<in> set ps" for p
  proof -
    have "0 \<le> bp_reserved p" using ok(1) that by (auto simp: list_all_iff pool_ok_def)
    then show ?thesis
      using sum_reserved_split[OF ok(3) that] ok(4) by (simp add: c max_for_pool_def others_reserved_def)
  qed
  then show ?thesis
    using ok by (auto simp: controller_inv_def pools_inv_def tenants_inv_def c get0_def list_all_iff
        pool_ok_def tenant_budget_ok_def)
qed


section \<open>Every operation keeps the invariant\<close>

lemma acquire_inv [inv_intros]:
  assumes "controller_inv c"
  shows "controller_inv (snd (acquire pool cost tenant c))"
proof (cases "fst (acquire pool cost tenant c) = Inr granted")
  case False
  then have "snd (acquire pool cost tenant c) = c"
    by (auto simp: acquire_def Let_def split: option.splits if_splits)
  then show ?thesis using assms by simp
next
  case True
  define n where "n = get0 (bc_in_pool c) pool + cost"
  obtain p where p: "pool_by_name c pool = Some p" and cost: "1 \<le> cost"
    and bound: "n \<le> bp_ceiling p" "n \<le> bp_reserved p \<or> n \<le> max_for_pool c pool"
    using True by (auto simp: acquire_def Let_def n_def max_for_pool_def denied_def granted_def
        split: option.splits if_splits)
  have inv: "pools_inv c" "tenants_inv c" using assms by (auto simp: controller_inv_def)
  have mem: "p \<in> set (bc_pools c)" "bp_name p = pool" using pool_by_name_Some[OF p] by auto
  have le: "n \<le> max_for_pool c pool" "n \<le> bp_ceiling p"
    using bound reserved_le_max[OF inv(1) mem(1)] mem(2) by auto
  have uniq: "q = p" if "q \<in> set (bc_pools c)" "bp_name q = pool" for q
    using that p pool_by_name_iff[OF inv(1)] by (metis option.inject)
  have pools: "pools_inv (c\<lparr>bc_in_pool := (bc_in_pool c)(pool \<mapsto> n)\<rparr>)"
    using inv(1) le cost uniq n_def by (fastforce simp: pools_inv_def)
  show ?thesis
  proof (cases "charged c pool tenant")
    case None
    then have "snd (acquire pool cost tenant c) = c\<lparr>bc_in_pool := (bc_in_pool c)(pool \<mapsto> n)\<rparr>"
      using True p by (auto simp: acquire_def Let_def n_def denied_def granted_def split: if_splits)
    then show ?thesis using pools inv(2) by (simp add: controller_inv_def tenants_inv_def)
  next
    case (Some tb)
    let ?m = "(bc_in_tenant c)(tb_key tb \<mapsto> get0 (bc_in_tenant c) (tb_key tb) + cost)"
    have tb: "get0 (bc_in_tenant c) (tb_key tb) + cost \<le> tb_burst tb"
      and c': "snd (acquire pool cost tenant c) =
        c\<lparr>bc_in_pool := (bc_in_pool c)(pool \<mapsto> n), bc_in_tenant := ?m\<rparr>"
      using True p Some by (auto simp: acquire_def Let_def n_def denied_def granted_def split: if_splits)
    have mem: "tb \<in> set (bc_tenants c)" using charged_Some[OF Some] .
    have same: "t = tb" if "t \<in> set (bc_tenants c)" "tb_key t = tb_key tb" for t
      using inv(2) that mem by (simp add: tenants_inv_def distinct_map inj_on_def)
    have "tenants_inv (c\<lparr>bc_in_pool := (bc_in_pool c)(pool \<mapsto> n), bc_in_tenant := ?m\<rparr>)"
      using inv(2) tb cost mem same by (fastforce simp: tenants_inv_def)
    then show ?thesis
      using pools unfolding c' by (simp add: controller_inv_def pools_inv_def)
  qed
qed

lemma release_inv [inv_intros]:
  assumes "controller_inv c"
  shows "controller_inv (snd (release pool cost tenant c))"
proof (cases "snd (release pool cost tenant c) = c")
  case True
  then show ?thesis using assms by simp
next
  case False
  define n where "n = get0 (bc_in_pool c) pool - cost"
  have n: "0 \<le> n" "1 \<le> cost"
    using False by (auto simp: release_def Let_def n_def split: option.splits if_splits)
  have inv: "pools_inv c" "tenants_inv c" using assms by (auto simp: controller_inv_def)
  have pools: "pools_inv (c\<lparr>bc_in_pool := (bc_in_pool c)(pool \<mapsto> n)\<rparr>)"
    using inv(1) n n_def by (fastforce simp: pools_inv_def)
  consider "snd (release pool cost tenant c) = c\<lparr>bc_in_pool := (bc_in_pool c)(pool \<mapsto> n)\<rparr>"
    | tb where "charged c pool tenant = Some tb" "cost \<le> get0 (bc_in_tenant c) (tb_key tb)"
        "snd (release pool cost tenant c) = c\<lparr>bc_in_pool := (bc_in_pool c)(pool \<mapsto> n),
           bc_in_tenant := (bc_in_tenant c)(tb_key tb \<mapsto> get0 (bc_in_tenant c) (tb_key tb) - cost)\<rparr>"
    using False by (auto simp: release_def Let_def n_def split: option.splits if_splits)
  then show ?thesis
  proof cases
    case 1
    then show ?thesis using pools inv(2) by (simp add: controller_inv_def tenants_inv_def)
  next
    case (2 tb)
    have "tenants_inv (c\<lparr>bc_in_pool := (bc_in_pool c)(pool \<mapsto> n), bc_in_tenant :=
        (bc_in_tenant c)(tb_key tb \<mapsto> get0 (bc_in_tenant c) (tb_key tb) - cost)\<rparr>)"
      using inv(2) 2(2) n(2) by (fastforce simp: tenants_inv_def)
    then show ?thesis using pools unfolding 2(3) by (simp add: controller_inv_def pools_inv_def)
  qed
qed

text \<open>The quota of a pool or tenant, and the values it may be set to.\<close>

definition ceiling_of :: "controller \<Rightarrow> string \<Rightarrow> int option" where
  "ceiling_of c pool = map_option bp_ceiling (pool_by_name c pool)"

definition burst_of :: "controller \<Rightarrow> string \<times> string \<Rightarrow> int option" where
  "burst_of c key = map_option tb_burst (tenant_budget_for c (fst key) (snd key))"

definition ceiling_allowed :: "controller \<Rightarrow> string \<Rightarrow> int \<Rightarrow> bool" where
  "ceiling_allowed c pool n =
     (case pool_by_name c pool of
        None \<Rightarrow> False
      | Some p \<Rightarrow> 0 \<le> n \<and> bp_reserved p \<le> n \<and> get0 (bc_in_pool c) pool \<le> n \<and> n \<le> max_for_pool c pool)"

definition burst_allowed :: "controller \<Rightarrow> string \<times> string \<Rightarrow> int \<Rightarrow> bool" where
  "burst_allowed c key n =
     (case tenant_budget_for c (fst key) (snd key) of
        None \<Rightarrow> False
      | Some t \<Rightarrow> 0 \<le> n \<and> tb_reserve t \<le> n \<and> get0 (bc_in_tenant c) key \<le> n)"

definition adjust_burst :: "string \<times> string \<Rightarrow> int \<Rightarrow> controller \<Rightarrow> (exn + unit) \<times> controller" where
  "adjust_burst key = adjust_tenant_burst (fst key) (snd key)"

lemma find_map_upd:
  "(\<And>x. P (f x) = P x) \<Longrightarrow> find P (map (\<lambda>x. if Q x then f x else x) xs) =
     map_option (\<lambda>x. if Q x then f x else x) (find P xs)"
  by (induction xs) auto

lemma set_ceiling_names [simp]:
  "map bp_name (set_ceiling pool n ps) = map bp_name ps"
  "map bp_reserved (set_ceiling pool n ps) = map bp_reserved ps"
  "bp_name ` set (set_ceiling pool n ps) = bp_name ` set ps"
  "map bp_reserved (filter (\<lambda>p. bp_name p \<noteq> q) (set_ceiling pool n ps)) =
     map bp_reserved (filter (\<lambda>p. bp_name p \<noteq> q) ps)"
  by (induction ps) (auto simp: set_ceiling_def)

lemma pool_by_name_set [simp]:
  "pool_by_name (c\<lparr>bc_pools := set_ceiling pool n (bc_pools c)\<rparr>) q =
     map_option (\<lambda>p. if bp_name p = pool then p\<lparr>bp_ceiling := n\<rparr> else p) (pool_by_name c q)"
  unfolding pool_by_name_def set_ceiling_def by (simp add: find_map_upd)

lemma others_reserved_set [simp]:
  "others_reserved (c\<lparr>bc_pools := set_ceiling pool n ps\<rparr>) q = others_reserved (c\<lparr>bc_pools := ps\<rparr>) q"
  by (simp add: others_reserved_def)

lemma max_for_pool_set [simp]:
  "max_for_pool (c\<lparr>bc_pools := set_ceiling pool n (bc_pools c)\<rparr>) q = max_for_pool c q"
  by (simp add: max_for_pool_def)

lemma set_burst_names [simp]:
  "map tb_key (set_burst pool tenant n ts) = map tb_key ts"
  "tb_key ` set (set_burst pool tenant n ts) = tb_key ` set ts"
  by (induction ts) (auto simp: set_burst_def tb_key_def)

lemma tenant_budget_for_set [simp]:
  "tenant_budget_for (c\<lparr>bc_tenants := set_burst pool tenant n (bc_tenants c)\<rparr>) p t =
     map_option (\<lambda>x. if tb_pool x = pool \<and> tb_tenant x = tenant then x\<lparr>tb_burst := n\<rparr> else x)
       (tenant_budget_for c p t)"
  unfolding tenant_budget_for_def set_burst_def by (simp add: find_map_upd)

lemma lookups_frame [simp]:
  "tenant_budget_for (c\<lparr>bc_pools := ps\<rparr>) p t = tenant_budget_for c p t"
  "pool_by_name (c\<lparr>bc_tenants := ts\<rparr>) p = pool_by_name c p"
  by (simp_all add: tenant_budget_for_def pool_by_name_def)


section \<open>The interface the rebalancer uses\<close>

fun apply_all ::
  "('k \<Rightarrow> int \<Rightarrow> 's \<Rightarrow> (exn + unit) \<times> 's) \<Rightarrow> ('k \<times> int) list \<Rightarrow> 's \<Rightarrow> (exn + unit) \<times> 's" where
  "apply_all adj [] s = (Inr (), s)"
| "apply_all adj ((k, n) # cs) s =
     (case adj k n s of (Inl e, s') \<Rightarrow> (Inl e, s') | (Inr _, s') \<Rightarrow> apply_all adj cs s')"

locale quota_controller =
  fixes adj :: "'k \<Rightarrow> int \<Rightarrow> 's \<Rightarrow> (exn + unit) \<times> 's"
    and quota :: "'s \<Rightarrow> 'k \<Rightarrow> int option"
    and allowed :: "'s \<Rightarrow> 'k \<Rightarrow> int \<Rightarrow> bool"
    and good :: "'s \<Rightarrow> bool"
  assumes adj_ok: "good s \<Longrightarrow> allowed s k n \<Longrightarrow> fst (adj k n s) = Inr ()"
    and adj_refused: "good s \<Longrightarrow> \<not> allowed s k n \<Longrightarrow> adj k n s = (Inl budget_error, s)"
    and adj_quota: "good s \<Longrightarrow> allowed s k n \<Longrightarrow>
      quota (snd (adj k n s)) k' = (if k' = k then Some n else quota s k')"
    and adj_allowed: "good s \<Longrightarrow> allowed s k n \<Longrightarrow> allowed (snd (adj k n s)) k' m = allowed s k' m"
    and adj_good: "good s \<Longrightarrow> good (snd (adj k n s))"
begin

lemma adj_result: "good s \<Longrightarrow> allowed s k n \<Longrightarrow> adj k n s = (Inr (), snd (adj k n s))"
  using adj_ok[of s k n] by (cases "adj k n s") simp

lemma apply_all_good: "good s \<Longrightarrow> good (snd (apply_all adj cs s))"
proof (induction cs arbitrary: s)
  case (Cons x cs)
  obtain k n where x: "x = (k, n)" by fastforce
  obtain r s' where r: "adj k n s = (r, s')" by fastforce
  have "good s'" using adj_good[OF Cons.prems, of k n] r by simp
  then show ?case using Cons.IH[of s'] r x by (cases r) auto
qed simp

lemma apply_all_ok:
  "good s \<Longrightarrow> \<forall>(k, n)\<in>set cs. allowed s k n \<Longrightarrow> fst (apply_all adj cs s) = Inr ()"
proof (induction cs arbitrary: s)
  case (Cons x cs)
  obtain k n where x: "x = (k, n)" by fastforce
  have a: "allowed s k n" using Cons.prems(2) x by simp
  note r = adj_result[OF Cons.prems(1) a]
  have "\<forall>(k', m)\<in>set cs. allowed (snd (adj k n s)) k' m"
    using Cons.prems(2) adj_allowed[OF Cons.prems(1) a] by auto
  then have "fst (apply_all adj cs (snd (adj k n s))) = Inr ()"
    by (rule Cons.IH[OF adj_good[OF Cons.prems(1)]])
  then show ?case unfolding x apply_all.simps by (subst r) simp
qed simp

lemma apply_all_quota:
  "good s \<Longrightarrow> \<forall>(k, n)\<in>set cs. allowed s k n \<Longrightarrow> distinct (map fst cs) \<Longrightarrow>
   quota (snd (apply_all adj cs s)) k =
     (case map_of cs k of Some n \<Rightarrow> Some n | None \<Rightarrow> quota s k)"
proof (induction cs arbitrary: s)
  case (Cons x cs)
  obtain k1 n where x: "x = (k1, n)" by fastforce
  have a: "allowed s k1 n" using Cons.prems(2) x by simp
  note r = adj_result[OF Cons.prems(1) a]
  have "\<forall>(k', m)\<in>set cs. allowed (snd (adj k1 n s)) k' m"
    using Cons.prems(2) adj_allowed[OF Cons.prems(1) a] by auto
  then have "quota (snd (apply_all adj cs (snd (adj k1 n s)))) k =
      (case map_of cs k of Some n \<Rightarrow> Some n | None \<Rightarrow> quota (snd (adj k1 n s)) k)"
    using Cons.IH[OF adj_good[OF Cons.prems(1)]] Cons.prems(3) by simp
  moreover have "map_of cs k1 = None" using Cons.prems(3) x by (simp add: map_of_eq_None_iff)
  ultimately show ?case
    unfolding x apply_all.simps by (subst r) (auto simp: adj_quota[OF Cons.prems(1) a] split: option.splits)
qed simp

end

lemma set_ceiling_mem:
  "q' \<in> set (set_ceiling pool n ps) \<Longrightarrow>
   \<exists>q\<in>set ps. q' = (if bp_name q = pool then q\<lparr>bp_ceiling := n\<rparr> else q)"
  by (induction ps) (auto simp: set_ceiling_def)

lemma set_burst_mem:
  "q' \<in> set (set_burst pool tenant n ts) \<Longrightarrow>
   \<exists>q\<in>set ts. q' = (if tb_pool q = pool \<and> tb_tenant q = tenant then q\<lparr>tb_burst := n\<rparr> else q)"
  by (induction ts) (auto simp: set_burst_def)

lemma controller_ceiling_inv:
  assumes "controller_inv c" "ceiling_allowed c pool n"
  shows "controller_inv (c\<lparr>bc_pools := set_ceiling pool n (bc_pools c)\<rparr>)" (is "controller_inv ?c")
proof -
  have inv: "pools_inv c" "tenants_inv c" using assms(1) by (auto simp: controller_inv_def)
  obtain p where p: "pool_by_name c pool = Some p"
    and n: "0 \<le> n" "bp_reserved p \<le> n" "get0 (bc_in_pool c) pool \<le> n" "n \<le> max_for_pool c pool"
    using assms(2) by (auto simp: ceiling_allowed_def split: option.splits)
  have uniq: "q = p" if "q \<in> set (bc_pools c)" "bp_name q = pool" for q
    using that p pool_by_name_iff[OF inv(1)] by (metis option.inject)
  have new: "pool_ok q' \<and> 0 \<le> get0 (bc_in_pool c) (bp_name q') \<and>
      get0 (bc_in_pool c) (bp_name q') \<le> bp_ceiling q' \<and> get0 (bc_in_pool c) (bp_name q') \<le> max_for_pool c (bp_name q')"
    if mem: "q' \<in> set (set_ceiling pool n (bc_pools c))" for q'
  proof -
    obtain q where q: "q \<in> set (bc_pools c)" "q' = (if bp_name q = pool then q\<lparr>bp_ceiling := n\<rparr> else q)"
      using set_ceiling_mem[OF mem] by blast
    have "pool_ok q" "0 \<le> get0 (bc_in_pool c) (bp_name q)" "get0 (bc_in_pool c) (bp_name q) \<le> bp_ceiling q"
      "get0 (bc_in_pool c) (bp_name q) \<le> max_for_pool c (bp_name q)"
      using inv(1) q(1) by (auto simp: pools_inv_def list_all_iff)
    then show ?thesis using q n uniq[OF q(1)] by (cases "bp_name q = pool") (auto simp: pool_ok_def)
  qed
  have "pools_inv ?c"
    using inv(1) new by (auto simp: pools_inv_def list_all_iff)
  moreover have "tenants_inv ?c" using inv(2) by (simp add: tenants_inv_def)
  ultimately show ?thesis by (simp add: controller_inv_def)
qed

lemma controller_burst_inv:
  assumes "controller_inv c" "burst_allowed c (pool, tenant) n"
  shows "controller_inv (c\<lparr>bc_tenants := set_burst pool tenant n (bc_tenants c)\<rparr>)" (is "controller_inv ?c")
proof -
  have inv: "pools_inv c" "tenants_inv c" using assms(1) by (auto simp: controller_inv_def)
  obtain p where p: "tenant_budget_for c pool tenant = Some p"
    and n: "0 \<le> n" "tb_reserve p \<le> n" "get0 (bc_in_tenant c) (pool, tenant) \<le> n"
    using assms(2) by (auto simp: burst_allowed_def split: option.splits)
  have uniq: "q = p" if "q \<in> set (bc_tenants c)" "tb_key q = (pool, tenant)" for q
    using that p tenant_budget_for_iff[OF inv(2)] by (metis option.inject)
  have new: "tenant_budget_ok q' \<and> tb_pool q' \<in> set (map bp_name (bc_pools c)) \<and>
      0 \<le> get0 (bc_in_tenant c) (tb_key q') \<and> get0 (bc_in_tenant c) (tb_key q') \<le> tb_burst q'"
    if mem: "q' \<in> set (set_burst pool tenant n (bc_tenants c))" for q'
  proof -
    obtain q where q: "q \<in> set (bc_tenants c)"
      "q' = (if tb_pool q = pool \<and> tb_tenant q = tenant then q\<lparr>tb_burst := n\<rparr> else q)"
      using set_burst_mem[OF mem] by blast
    have "tenant_budget_ok q" "0 \<le> get0 (bc_in_tenant c) (tb_key q)"
      "get0 (bc_in_tenant c) (tb_key q) \<le> tb_burst q" "tb_pool q \<in> set (map bp_name (bc_pools c))"
      using inv(2) q(1) by (auto simp: tenants_inv_def list_all_iff)
    then show ?thesis using q n uniq[OF q(1)]
      by (cases "tb_pool q = pool \<and> tb_tenant q = tenant") (auto simp: tenant_budget_ok_def tb_key_def)
  qed
  have "tenants_inv ?c"
    using inv(2) new by (auto simp: tenants_inv_def list_all_iff)
  moreover have "pools_inv ?c" using inv(1) by (simp add: pools_inv_def)
  ultimately show ?thesis by (simp add: controller_inv_def)
qed

lemma adjust_ceiling_cases:
  "adjust_ceiling pool n c =
     (if ceiling_allowed c pool n then (Inr (), c\<lparr>bc_pools := set_ceiling pool n (bc_pools c)\<rparr>)
      else (Inl budget_error, c))"
  by (auto simp: adjust_ceiling_def ceiling_allowed_def max_for_pool_def split: option.splits)

lemma adjust_burst_cases:
  "adjust_burst key n c =
     (if burst_allowed c key n
      then (Inr (), c\<lparr>bc_tenants := set_burst (fst key) (snd key) n (bc_tenants c)\<rparr>)
      else (Inl budget_error, c))"
  by (auto simp: adjust_burst_def adjust_tenant_burst_def burst_allowed_def split: option.splits)

lemma ceiling_of_set:
  "ceiling_of (c\<lparr>bc_pools := set_ceiling pool n (bc_pools c)\<rparr>) q =
     (if q = pool \<and> ceiling_of c q \<noteq> None then Some n else ceiling_of c q)"
  by (cases "pool_by_name c q") (auto simp: ceiling_of_def dest: pool_by_name_Some)

lemma burst_of_set:
  "burst_of (c\<lparr>bc_tenants := set_burst (fst key) (snd key) n (bc_tenants c)\<rparr>) q =
     (if q = key \<and> burst_of c q \<noteq> None then Some n else burst_of c q)"
  by (cases "tenant_budget_for c (fst q) (snd q)")
     (auto simp: burst_of_def prod_eq_iff dest!: tenant_budget_for_Some)

lemma ceiling_allowed_known: "ceiling_allowed c pool n \<Longrightarrow> ceiling_of c pool \<noteq> None"
  by (auto simp: ceiling_allowed_def ceiling_of_def split: option.splits)

lemma burst_allowed_known: "burst_allowed c key n \<Longrightarrow> burst_of c key \<noteq> None"
  by (auto simp: burst_allowed_def burst_of_def split: option.splits)

lemma burst_frame [simp]:
  "burst_allowed (c\<lparr>bc_pools := ps\<rparr>) key n = burst_allowed c key n"
  "burst_of (c\<lparr>bc_pools := ps\<rparr>) key = burst_of c key"
  by (auto simp: burst_allowed_def burst_of_def split: option.splits)

interpretation ceilings: quota_controller adjust_ceiling ceiling_of ceiling_allowed controller_inv
proof unfold_locales
  fix c pool n q m assume a: "ceiling_allowed c pool n"
  show "ceiling_of (snd (adjust_ceiling pool n c)) q = (if q = pool then Some n else ceiling_of c q)"
    using a ceiling_allowed_known[OF a] by (simp add: adjust_ceiling_cases ceiling_of_set)
  show "ceiling_allowed (snd (adjust_ceiling pool n c)) q m = ceiling_allowed c q m"
    using a by (auto simp: adjust_ceiling_cases ceiling_allowed_def[of _ q] split: option.splits)
qed (auto simp: adjust_ceiling_cases controller_ceiling_inv)

interpretation bursts: quota_controller adjust_burst burst_of burst_allowed controller_inv
proof unfold_locales
  fix c key n q m assume a: "burst_allowed c key n"
  show "burst_of (snd (adjust_burst key n c)) q = (if q = key then Some n else burst_of c q)"
    using a burst_allowed_known[OF a] by (simp add: adjust_burst_cases burst_of_set)
  show "burst_allowed (snd (adjust_burst key n c)) q m = burst_allowed c q m"
    using a by (auto simp: adjust_burst_cases burst_allowed_def[of _ q] split: option.splits)
qed (auto simp: adjust_burst_cases controller_burst_inv)

text \<open>Moving a ceiling leaves the bursts that are allowed alone.\<close>

lemma ceilings_keep_bursts:
  "burst_allowed (snd (apply_all adjust_ceiling cs c)) key n = burst_allowed c key n \<and>
   burst_of (snd (apply_all adjust_ceiling cs c)) key = burst_of c key"
proof (induction cs arbitrary: c)
  case (Cons x cs)
  obtain k m where x: "x = (k, m)" by fastforce
  show ?case
  proof (cases "ceiling_allowed c k m")
    case True
    then show ?thesis using Cons.IH[of "c\<lparr>bc_pools := set_ceiling k m (bc_pools c)\<rparr>"]
      by (simp add: x adjust_ceiling_cases[of k m c])
  qed (simp add: x adjust_ceiling_cases[of k m c])
qed simp



section \<open>Properties\<close>

inductive budget_step :: "controller \<Rightarrow> controller \<Rightarrow> bool" where
  step_acquire: "budget_step c (snd (acquire pool cost tenant c))"
| step_release: "budget_step c (snd (release pool cost tenant c))"
| step_ceiling: "budget_step c (snd (adjust_ceiling pool n c))"
| step_burst: "budget_step c (snd (adjust_tenant_burst pool tenant n c))"

inductive_cases budget_stepE: "budget_step c c'"

inductive budget_reachable :: "controller \<Rightarrow> bool" where
  budget_init: "build_controller capacity ps ts = Inr c \<Longrightarrow> budget_reachable c"
| budget_next: "budget_reachable c \<Longrightarrow> budget_step c c' \<Longrightarrow> budget_reachable c'"

lemma budget_step_inv: "budget_step c c' \<Longrightarrow> controller_inv c \<Longrightarrow> controller_inv c'"
  using bursts.adj_good[of c "(p, t)" n for p t n] unfolding adjust_burst_def
  by (elim budget_stepE) (auto intro: inv_intros ceilings.adj_good)

lemma budget_reachable_inv: "budget_reachable c \<Longrightarrow> controller_inv c"
  by (induction rule: budget_reachable.induct) (auto intro: build_controller_inv budget_step_inv)

text \<open>In every reachable controller each pool's in-flight capacity is between zero and its
  ceiling and leaves the other pools' floors alone, each ceiling is at least its floor, the floors
  fit in the total, and each tenant's in-flight capacity is between zero and its burst.\<close>

lemma budget_invariants:
  assumes "budget_reachable c"
  shows "(\<forall>p\<in>set (bc_pools c). 0 \<le> get0 (bc_in_pool c) (bp_name p) \<and>
      get0 (bc_in_pool c) (bp_name p) \<le> bp_ceiling p \<and>
      get0 (bc_in_pool c) (bp_name p) + others_reserved c (bp_name p) \<le> bc_total c \<and>
      0 \<le> bp_reserved p \<and> bp_reserved p \<le> bp_ceiling p) \<and>
    sum_list (map bp_reserved (bc_pools c)) \<le> bc_total c \<and>
    (\<forall>t\<in>set (bc_tenants c). 0 \<le> get0 (bc_in_tenant c) (tb_key t) \<and>
      get0 (bc_in_tenant c) (tb_key t) \<le> tb_burst t \<and> tb_reserve t \<le> tb_burst t)"
  using budget_reachable_inv[OF assms]
  by (auto simp: controller_inv_def pools_inv_def tenants_inv_def list_all_iff pool_ok_def
      tenant_budget_ok_def max_for_pool_def)

definition demo_pools :: "budget_pool list" where
  "demo_pools =
     [\<lparr>bp_name = ''a'', bp_reserved = 0, bp_ceiling = 6\<rparr>,
      \<lparr>bp_name = ''b'', bp_reserved = 0, bp_ceiling = 6\<rparr>,
      \<lparr>bp_name = ''sec'', bp_reserved = 4, bp_ceiling = 4\<rparr>]"

definition demo_controller :: controller where
  "demo_controller =
     \<lparr>bc_total = 10, bc_pools = demo_pools, bc_tenants = [], bc_in_pool = Map.empty,
      bc_in_tenant = Map.empty\<rparr>"

lemma demo_controller_built: "build_controller 10 demo_pools [] = Inr demo_controller"
  by (simp add: build_controller_def demo_controller_def demo_pools_def pool_ok_def)

text \<open>The floor of a pool cannot be taken away: whatever the other pools did, a request that stays
  within its pool's reserve is granted.\<close>

lemma reserved_floor_available:
  assumes "budget_reachable c" "p \<in> set (bc_pools c)" "1 \<le> cost"
    and "get0 (bc_in_pool c) (bp_name p) + cost \<le> bp_reserved p"
  shows "fst (acquire (bp_name p) cost None c) = Inr granted"
proof -
  have inv: "pools_inv c" using budget_reachable_inv[OF assms(1)] by (simp add: controller_inv_def)
  then have "bp_reserved p \<le> bp_ceiling p" using assms(2) by (auto simp: pools_inv_def list_all_iff pool_ok_def)
  moreover have "pool_by_name c (bp_name p) = Some p" using assms(2) by (simp add: pool_by_name_iff[OF inv])
  ultimately show ?thesis using assms(3,4) by (simp add: acquire_def charged_def Let_def)
qed

text \<open>The state after both data pools burst to their ceilings.\<close>

definition flooded :: controller where
  "flooded = snd (acquire ''b'' 6 None (snd (acquire ''a'' 6 None demo_controller)))"

lemma flooded_reachable: "budget_reachable flooded"
  unfolding flooded_def
  by (rule budget_next[OF budget_next[OF budget_init[OF demo_controller_built] step_acquire] step_acquire])

text \<open>The sum of what the pools hold is not bounded by the total capacity: with two data pools
  bursting, a reachable controller of capacity 10 has 12 in flight, and still grants the 4 units
  reserved to the third pool.\<close>

lemma capacity_oversubscribed:
  "budget_reachable (snd (acquire ''sec'' 4 None flooded)) \<and> bc_total flooded = 10 \<and>
   sum_list (map (\<lambda>p. get0 (bc_in_pool (snd (acquire ''sec'' 4 None flooded))) (bp_name p)) demo_pools) = 16"
proof -
  have "budget_reachable (snd (acquire ''sec'' 4 None flooded))"
    by (rule budget_next[OF flooded_reachable step_acquire])
  then show ?thesis
    by (simp add: flooded_def acquire_def pool_by_name_def charged_def demo_controller_def
        demo_pools_def others_reserved_def get0_def Let_def granted_def)
qed

text \<open>Releasing what was just granted restores every counter.\<close>

lemma acquire_release:
  assumes "budget_reachable c" "fst (acquire pool cost tenant c) = Inr granted"
  shows "\<exists>c'. release pool cost tenant (snd (acquire pool cost tenant c)) = (Inr (), c') \<and>
    (\<forall>k. get0 (bc_in_pool c') k = get0 (bc_in_pool c) k) \<and>
    (\<forall>k. get0 (bc_in_tenant c') k = get0 (bc_in_tenant c) k) \<and>
    bc_pools c' = bc_pools c \<and> bc_tenants c' = bc_tenants c"
proof -
  note inv = budget_reachable_inv[OF assms(1), unfolded controller_inv_def pools_inv_def tenants_inv_def]
  have pool: "0 \<le> get0 (bc_in_pool c) pool" if "find (\<lambda>p. bp_name p = pool) (bc_pools c) = Some p" for p
    using inv find_Some_mem[OF that] by auto
  have ten: "0 \<le> get0 (bc_in_tenant c) (tb_key tb)"
    if "find (\<lambda>x. tb_pool x = pool \<and> tb_tenant x = t) (bc_tenants c) = Some tb" for tb t
    using inv find_Some_mem[OF that] by auto
  show ?thesis
    using assms(2)
    by (auto simp: acquire_def release_def pool_by_name_def charged_def tenant_budget_for_def Let_def
        granted_def denied_def not_less split: option.splits if_splits dest: pool ten)
qed

text \<open>A release whose pool counter suffices but whose tenant counter does not raises after it has
  lowered the pool counter.\<close>

lemma release_partial:
  "let c = demo_controller\<lparr>bc_tenants := [\<lparr>tb_pool = ''a'', tb_tenant = ''t'', tb_reserve = 0, tb_burst = 5\<rparr>]\<rparr>;
       c1 = snd (acquire ''a'' 3 None c)
   in release ''a'' 2 (Some ''t'') c1 = (Inl budget_error, c1\<lparr>bc_in_pool := [''a'' \<mapsto> 1]\<rparr>)"
  by (simp add: release_def acquire_def pool_by_name_def charged_def tenant_budget_for_def tb_key_def
      demo_controller_def demo_pools_def others_reserved_def get0_def Let_def)

end
