(* ===== verification/Rebalancer.thy ===== *)
theory Rebalancer
  imports Budgets
begin

text \<open>
  The capacity rebalancer (\<open>capacity_rebalancer.py\<close>): signals read from a controller's snapshots,
  the transfer drafted from slack to stressed units, and its application through
  \<open>adjust_ceiling\<close> and \<open>adjust_tenant_burst\<close>. Python computes utilizations and shares with
  floats: \<open>rnd\<close> is the rounding of a real number to a float, an argument of every definition that
  uses it; thresholds are float values, that is rationals. The \<open>reason\<close> strings are not modelled.
\<close>

section \<open>Utilization\<close>

record unit_util =
  uu_in_flight :: int
  uu_limit :: int
  uu_floor :: int

text \<open>\<open>PoolUtilization\<close> and \<open>TenantUtilization\<close> have the same three properties; the key of a unit
  is its pool name, or its pool and tenant.\<close>

definition utilization :: "(rat \<Rightarrow> rat) \<Rightarrow> unit_util \<Rightarrow> rat" where
  "utilization rnd u =
     (if uu_limit u \<le> 0 then 0 else rnd (of_int (uu_in_flight u) / of_int (uu_limit u)))"

definition slack_headroom :: "unit_util \<Rightarrow> int" where
  "slack_headroom u = max 0 (uu_limit u - max (uu_floor u) (uu_in_flight u))"

definition stress_excess :: "unit_util \<Rightarrow> int" where
  "stress_excess u = max 0 (uu_in_flight u - uu_limit u)"

record rebalancer =
  rb_stress_threshold :: rat
  rb_slack_threshold :: rat
  rb_cascade_min_stressed :: int
  rb_transfer_fraction :: rat

definition rebalancer_ok :: "rebalancer \<Rightarrow> bool" where
  "rebalancer_ok R \<longleftrightarrow>
     0 < rb_stress_threshold R \<and> rb_stress_threshold R \<le> 1 \<and>
     0 < rb_slack_threshold R \<and> rb_slack_threshold R \<le> 1 \<and>
     0 < rb_transfer_fraction R \<and> rb_transfer_fraction R \<le> 1 \<and>
     rb_slack_threshold R < rb_stress_threshold R \<and> 1 \<le> rb_cascade_min_stressed R"

definition is_stressed :: "(rat \<Rightarrow> rat) \<Rightarrow> rebalancer \<Rightarrow> unit_util \<Rightarrow> bool" where
  "is_stressed rnd R u \<longleftrightarrow> utilization rnd u \<ge> rb_stress_threshold R"

definition is_slack :: "(rat \<Rightarrow> rat) \<Rightarrow> rebalancer \<Rightarrow> unit_util \<Rightarrow> bool" where
  "is_slack rnd R u \<longleftrightarrow> utilization rnd u \<le> rb_slack_threshold R"

definition cascading :: "(rat \<Rightarrow> rat) \<Rightarrow> rebalancer \<Rightarrow> unit_util list \<Rightarrow> bool" where
  "cascading rnd R us \<longleftrightarrow>
     int (length (filter (is_stressed rnd R) us)) \<ge> rb_cascade_min_stressed R \<and>
     length (filter (is_slack rnd R) us) \<ge> 1"


section \<open>Signals\<close>

definition pool_util :: "controller \<Rightarrow> budget_pool \<Rightarrow> unit_util" where
  "pool_util c p =
     \<lparr>uu_in_flight = get0 (bc_in_pool c) (bp_name p), uu_limit = bp_ceiling p,
      uu_floor = bp_reserved p\<rparr>"

definition tenant_util :: "controller \<Rightarrow> tenant_budget \<Rightarrow> unit_util" where
  "tenant_util c t =
     \<lparr>uu_in_flight = get0 (bc_in_tenant c) (tb_key t), uu_limit = tb_burst t,
      uu_floor = tb_reserve t\<rparr>"

record rebalance_signals =
  rs_stressed :: "(string \<times> unit_util) list"
  rs_slack :: "(string \<times> unit_util) list"
  rs_cascading :: bool
  rs_tenant_stressed :: "((string \<times> string) \<times> unit_util) list"
  rs_tenant_slack :: "((string \<times> string) \<times> unit_util) list"
  rs_tenant_cascading :: bool

definition pool_utils :: "controller \<Rightarrow> (string \<times> unit_util) list" where
  "pool_utils c = map (\<lambda>p. (bp_name p, pool_util c p)) (bc_pools c)"

definition tenant_utils :: "controller \<Rightarrow> ((string \<times> string) \<times> unit_util) list" where
  "tenant_utils c = map (\<lambda>t. (tb_key t, tenant_util c t)) (bc_tenants c)"

text \<open>The units of one pool, as \<open>by_pool\<close> groups them.\<close>

definition in_pool :: "string \<Rightarrow> ((string \<times> string) \<times> unit_util) list \<Rightarrow> ((string \<times> string) \<times> unit_util) list" where
  "in_pool pool us = filter (\<lambda>u. fst (fst u) = pool) us"

definition signals :: "(rat \<Rightarrow> rat) \<Rightarrow> rebalancer \<Rightarrow> controller \<Rightarrow> rebalance_signals" where
  "signals rnd R c =
     (let stressed = filter (\<lambda>u. is_stressed rnd R (snd u)) (pool_utils c);
          slack = filter (\<lambda>u. \<not> is_stressed rnd R (snd u) \<and> is_slack rnd R (snd u)) (pool_utils c);
          tenant_stressed = filter (\<lambda>u. is_stressed rnd R (snd u)) (tenant_utils c);
          tenant_slack =
            filter (\<lambda>u. \<not> is_stressed rnd R (snd u) \<and> is_slack rnd R (snd u)) (tenant_utils c)
      in \<lparr>rs_stressed = stressed, rs_slack = slack,
          rs_cascading = (int (length stressed) \<ge> rb_cascade_min_stressed R \<and> length slack \<ge> 1),
          rs_tenant_stressed = tenant_stressed, rs_tenant_slack = tenant_slack,
          rs_tenant_cascading =
            list_ex (\<lambda>pool. cascading rnd R (map snd (in_pool pool (tenant_utils c))))
              (remdups (map (fst \<circ> fst) (tenant_utils c)))\<rparr>)"


section \<open>Sharing a transfer\<close>

definition donation_of :: "(rat \<Rightarrow> rat) \<Rightarrow> rat \<Rightarrow> int \<Rightarrow> int" where
  "donation_of rnd fraction headroom = trunc (rnd (rnd (of_int headroom) * fraction))"

fun draw_donors ::
  "(rat \<Rightarrow> rat) \<Rightarrow> rat \<Rightarrow> ('k \<times> int) list \<Rightarrow> ('k \<times> int) list \<times> int \<Rightarrow> ('k \<times> int) list \<times> int" where
  "draw_donors rnd fraction [] acc = acc"
| "draw_donors rnd fraction ((key, headroom) # items) (donors, drawn) =
     (let donation = donation_of rnd fraction headroom in
      draw_donors rnd fraction items
        (if donation > 0 then (dset key donation donors, drawn + donation) else (donors, drawn)))"

fun share_by_excess ::
  "(rat \<Rightarrow> rat) \<Rightarrow> int \<Rightarrow> int \<Rightarrow> ('k \<times> int) list \<Rightarrow> ('k \<times> int) list \<times> int \<Rightarrow> ('k \<times> int) list \<times> int" where
  "share_by_excess rnd donated excess_total [] acc = acc"
| "share_by_excess rnd donated excess_total ((key, excess) # items) (recipients, allocated) =
     (let share = trunc (rnd (of_int (donated * excess) / of_int excess_total)) in
      share_by_excess rnd donated excess_total items
        (if share > 0 then (dset key share recipients, allocated + share) else (recipients, allocated)))"

fun share_evenly ::
  "int \<Rightarrow> int \<Rightarrow> int \<Rightarrow> ('k \<times> int) list \<Rightarrow> ('k \<times> int) list \<Rightarrow> ('k \<times> int) list" where
  "share_evenly per rm i [] recipients = recipients"
| "share_evenly per rm i ((key, excess) # items) recipients =
     (let share = per + (if i < rm then 1 else 0) in
      share_evenly per rm (i + 1) items (if share > 0 then dset key share recipients else recipients))"

text \<open>\<open>max(items, key=excess)\<close>: the first item with the largest excess.\<close>

fun first_max :: "'k \<times> int \<Rightarrow> ('k \<times> int) list \<Rightarrow> 'k \<times> int" where
  "first_max best [] = best"
| "first_max best (x # xs) = first_max (if snd x > snd best then x else best) xs"

definition allocate_transfer ::
  "(rat \<Rightarrow> rat) \<Rightarrow> ('k \<times> int) list \<Rightarrow> ('k \<times> int) list \<Rightarrow> rat \<Rightarrow>
   exn + ('k \<times> int) list \<times> ('k \<times> int) list \<times> int" where
  "allocate_transfer rnd slack_items stressed_items fraction =
     (let (donors, total_donation) = draw_donors rnd fraction slack_items ([], 0) in
      if total_donation = 0 then Inr ([], [], 0)
      else let excess_total = sum_list (map snd stressed_items) in
        if excess_total > 0 then
          (let (recipients, allocated) =
                 share_by_excess rnd total_donation excess_total stressed_items ([], 0);
               remainder = total_donation - allocated in
           if remainder > 0 \<and> stressed_items \<noteq> [] then
             (let top_key = fst (first_max (hd stressed_items) (tl stressed_items)) in
              Inr (donors,
                   dset top_key (case dget recipients top_key of None \<Rightarrow> remainder
                                 | Some n \<Rightarrow> n + remainder) recipients,
                   total_donation))
           else Inr (donors, recipients, total_donation))
        else if stressed_items = [] then Inl (std_error ''ZeroDivisionError'')
        else let n = int (length stressed_items); per = total_donation div n;
                 rm = total_donation - per * n in
          Inr (donors, share_evenly per rm 0 stressed_items [], total_donation))"


section \<open>Drafting the changes\<close>

text \<open>\<open>CeilingChange\<close> and \<open>BurstChange\<close>: key, old and new limit.\<close>

type_synonym 'k change = "'k \<times> int \<times> int"

definition limit_of :: "exn \<Rightarrow> 'a option \<Rightarrow> exn + 'a" where
  "limit_of e r = (case r of None \<Rightarrow> Inl e | Some a \<Rightarrow> Inr a)"

fun donor_changes :: "controller \<Rightarrow> (string \<times> int) list \<Rightarrow> exn + string change list" where
  "donor_changes c [] = Inr []"
| "donor_changes c ((name, donation) # ds) =
     bindE (limit_of budget_error (pool_by_name c name)) (\<lambda>p.
     let new_ceiling = max (max (bp_ceiling p - donation) (bp_reserved p)) (get0 (bc_in_pool c) name) in
     bindE (donor_changes c ds) (\<lambda>cs.
     Inr (if new_ceiling \<noteq> bp_ceiling p then (name, bp_ceiling p, new_ceiling) # cs else cs)))"

fun recipient_changes :: "controller \<Rightarrow> (string \<times> int) list \<Rightarrow> exn + string change list" where
  "recipient_changes c [] = Inr []"
| "recipient_changes c ((name, share) # rs) =
     bindE (limit_of budget_error (pool_by_name c name)) (\<lambda>p.
     let new_ceiling = min (bp_ceiling p + share) (bc_total c - others_reserved c name) in
     bindE (recipient_changes c rs) (\<lambda>cs.
     Inr (if new_ceiling \<noteq> bp_ceiling p then (name, bp_ceiling p, new_ceiling) # cs else cs)))"

definition evaluate_pools ::
  "(rat \<Rightarrow> rat) \<Rightarrow> rebalancer \<Rightarrow> controller \<Rightarrow> rebalance_signals \<Rightarrow> exn + string change list" where
  "evaluate_pools rnd R c sigs =
     (if \<not> rs_cascading sigs then Inr []
      else bindE (allocate_transfer rnd
                    (map (\<lambda>(k, u). (k, slack_headroom u)) (rs_slack sigs))
                    (map (\<lambda>(k, u). (k, stress_excess u)) (rs_stressed sigs))
                    (rb_transfer_fraction R)) (\<lambda>(donors, recipients, total_donation).
        if total_donation = 0 then Inr []
        else bindE (donor_changes c donors) (\<lambda>ds.
             bindE (recipient_changes c recipients) (\<lambda>rs. Inr (ds @ rs)))))"

fun tenant_donor_changes ::
  "controller \<Rightarrow> ((string \<times> string) \<times> int) list \<Rightarrow> exn + (string \<times> string) change list" where
  "tenant_donor_changes c [] = Inr []"
| "tenant_donor_changes c ((key, amount) # ds) =
     bindE (limit_of budget_error (tenant_budget_for c (fst key) (snd key))) (\<lambda>t.
     let new_burst = max (max (tb_burst t - amount) (tb_reserve t)) (get0 (bc_in_tenant c) key) in
     bindE (tenant_donor_changes c ds) (\<lambda>cs.
     Inr (if new_burst \<noteq> tb_burst t then (key, tb_burst t, new_burst) # cs else cs)))"

fun tenant_recipient_changes ::
  "controller \<Rightarrow> ((string \<times> string) \<times> int) list \<Rightarrow> exn + (string \<times> string) change list" where
  "tenant_recipient_changes c [] = Inr []"
| "tenant_recipient_changes c ((key, share) # rs) =
     bindE (limit_of budget_error (tenant_budget_for c (fst key) (snd key))) (\<lambda>t.
     let new_burst = tb_burst t + share in
     bindE (tenant_recipient_changes c rs) (\<lambda>cs.
     Inr (if new_burst \<noteq> tb_burst t then (key, tb_burst t, new_burst) # cs else cs)))"

text \<open>One pool of \<open>_evaluate_tenants\<close>: its stressed and slack tenants, in the order of
  \<open>by_pool\<close>.\<close>

definition evaluate_pool_tenants ::
  "(rat \<Rightarrow> rat) \<Rightarrow> rebalancer \<Rightarrow> controller \<Rightarrow> ((string \<times> string) \<times> unit_util) list \<Rightarrow>
   exn + (string \<times> string) change list" where
  "evaluate_pool_tenants rnd R c utils =
     (if utils = [] \<or> \<not> cascading rnd R (map snd utils) then Inr []
      else let stressed = filter (\<lambda>u. is_stressed rnd R (snd u)) utils;
               slack = filter (\<lambda>u. is_slack rnd R (snd u)) utils in
        bindE (allocate_transfer rnd (map (\<lambda>(k, u). (k, slack_headroom u)) slack)
                 (map (\<lambda>(k, u). (k, stress_excess u)) stressed) (rb_transfer_fraction R))
          (\<lambda>(donors, recipients, donation).
             if donation = 0 then Inr []
             else bindE (tenant_donor_changes c donors) (\<lambda>ds.
                  bindE (tenant_recipient_changes c recipients) (\<lambda>rs. Inr (ds @ rs)))))"

fun evaluate_each_pool ::
  "(rat \<Rightarrow> rat) \<Rightarrow> rebalancer \<Rightarrow> controller \<Rightarrow> rebalance_signals \<Rightarrow> budget_pool list \<Rightarrow>
   exn + (string \<times> string) change list" where
  "evaluate_each_pool rnd R c sigs [] = Inr []"
| "evaluate_each_pool rnd R c sigs (p # ps) =
     bindE (evaluate_pool_tenants rnd R c
              (in_pool (bp_name p) (rs_tenant_stressed sigs @ rs_tenant_slack sigs))) (\<lambda>cs.
     bindE (evaluate_each_pool rnd R c sigs ps) (\<lambda>cs'. Inr (cs @ cs')))"

definition evaluate_tenants ::
  "(rat \<Rightarrow> rat) \<Rightarrow> rebalancer \<Rightarrow> controller \<Rightarrow> rebalance_signals \<Rightarrow>
   exn + (string \<times> string) change list" where
  "evaluate_tenants rnd R c sigs =
     (if \<not> rs_tenant_cascading sigs then Inr [] else evaluate_each_pool rnd R c sigs (bc_pools c))"

record rebalance_decision =
  rd_changes :: "string change list"
  rd_tenant_changes :: "(string \<times> string) change list"

definition evaluate :: "(rat \<Rightarrow> rat) \<Rightarrow> rebalancer \<Rightarrow> controller \<Rightarrow> exn + rebalance_decision" where
  "evaluate rnd R c =
     (let sigs = signals rnd R c in
      bindE (evaluate_pools rnd R c sigs) (\<lambda>cs.
      bindE (evaluate_tenants rnd R c sigs) (\<lambda>ts.
      Inr \<lparr>rd_changes = cs, rd_tenant_changes = ts\<rparr>)))"


section \<open>Applying a decision\<close>

definition shrinks_first :: "'k change list \<Rightarrow> ('k \<times> int) list" where
  "shrinks_first cs =
     map (\<lambda>(k, old, new). (k, new)) (filter (\<lambda>(k, old, new). new - old < 0) cs) @
     map (\<lambda>(k, old, new). (k, new)) (filter (\<lambda>(k, old, new). new - old > 0) cs)"

definition apply_decision :: "rebalance_decision \<Rightarrow> controller \<Rightarrow> (exn + unit) \<times> controller" where
  "apply_decision d c =
     (case apply_all adjust_ceiling (shrinks_first (rd_changes d)) c of
        (Inl e, c') \<Rightarrow> (Inl e, c')
      | (Inr _, c') \<Rightarrow> apply_all adjust_burst (shrinks_first (rd_tenant_changes d)) c')"

definition evaluate_and_apply ::
  "(rat \<Rightarrow> rat) \<Rightarrow> rebalancer \<Rightarrow> controller \<Rightarrow> (exn + rebalance_decision) \<times> controller" where
  "evaluate_and_apply rnd R c =
     (case evaluate rnd R c of
        Inl e \<Rightarrow> (Inl e, c)
      | Inr d \<Rightarrow>
          if rd_changes d = [] \<and> rd_tenant_changes d = [] then (Inr d, c)
          else case apply_decision d c of
            (Inl e, c') \<Rightarrow> (Inl e, c')
          | (Inr _, c') \<Rightarrow> (Inr d, c'))"


section \<open>Facts\<close>

text \<open>Whatever a decision asks for, applying it keeps the controller's invariant.\<close>

lemma apply_decision_inv:
  assumes "controller_inv c"
  shows "controller_inv (snd (apply_decision d c))"
proof -
  obtain r c' where r: "apply_all adjust_ceiling (shrinks_first (rd_changes d)) c = (r, c')" by fastforce
  have c': "controller_inv c'"
    using ceilings.apply_all_good[OF assms, of "shrinks_first (rd_changes d)"] r by simp
  then show ?thesis
    using bursts.apply_all_good[OF c'] by (cases r) (auto simp: apply_decision_def r)
qed

lemma evaluate_and_apply_inv:
  assumes "controller_inv c"
  shows "controller_inv (snd (evaluate_and_apply rnd R c))"
proof (cases "evaluate rnd R c")
  case (Inr d)
  obtain r c' where "apply_decision d c = (r, c')" by fastforce
  moreover have "controller_inv (snd (apply_decision d c))" using assms by (rule apply_decision_inv)
  ultimately show ?thesis using Inr assms by (auto simp: evaluate_and_apply_def split: sum.splits)
qed (use assms in \<open>simp add: evaluate_and_apply_def\<close>)

text \<open>In-flight capacity never exceeds a limit, so no unit has an excess.\<close>

lemma pool_excess_zero:
  "controller_inv c \<Longrightarrow> (k, u) \<in> set (pool_utils c) \<Longrightarrow> stress_excess u = 0"
  by (auto simp: controller_inv_def pools_inv_def pool_utils_def pool_util_def stress_excess_def)

lemma tenant_excess_zero:
  "controller_inv c \<Longrightarrow> (k, u) \<in> set (tenant_utils c) \<Longrightarrow> stress_excess u = 0"
  by (auto simp: controller_inv_def tenants_inv_def tenant_utils_def tenant_util_def stress_excess_def)

lemma dset_sum:
  "k \<notin> fst ` set d \<Longrightarrow> sum_list (map snd (dset k v d)) = sum_list (map snd d) + (v :: int)"
  by (induction d) auto

lemma dset_keys: "fst ` set (dset k v d) = insert k (fst ` set d)"
  by (induction d) auto

lemma draw_donors_sum:
  "draw_donors rnd f items (ds, n) = (ds', n') \<Longrightarrow> distinct (map fst items) \<Longrightarrow>
   fst ` set ds \<inter> fst ` set items = {} \<Longrightarrow> sum_list (map snd ds) = n \<Longrightarrow>
   sum_list (map snd ds') = n'"
proof (induction items arbitrary: ds n)
  case (Cons x items)
  obtain k h where x: "x = (k, h)" by fastforce
  show ?case
  proof (cases "donation_of rnd f h > 0")
    case True
    then have run: "draw_donors rnd f items (dset k (donation_of rnd f h) ds, n + donation_of rnd f h) = (ds', n')"
      using Cons.prems(1) x by (simp add: Let_def)
    have "k \<notin> fst ` set ds" using Cons.prems(3) x by auto
    then show ?thesis
      using Cons.IH[OF run] Cons.prems(2,3,4) x by (auto simp: dset_keys dset_sum)
  next
    case False
    then show ?thesis using Cons.IH[of ds n] Cons.prems x by (auto simp: Let_def)
  qed
qed simp

lemma draw_donors_entries:
  "draw_donors rnd f items (ds, n) = (ds', n') \<Longrightarrow> dict_wf ds \<Longrightarrow> (k, d) \<in> set ds' \<Longrightarrow>
   (k, d) \<in> set ds \<or> (\<exists>h. (k, h) \<in> set items \<and> d = donation_of rnd f h \<and> 0 < d)"
proof (induction items arbitrary: ds n)
  case (Cons x items)
  obtain k1 h where x: "x = (k1, h)" by fastforce
  show ?case
  proof (cases "donation_of rnd f h > 0")
    case True
    then have run: "draw_donors rnd f items (dset k1 (donation_of rnd f h) ds, n + donation_of rnd f h) = (ds', n')"
      using Cons.prems(1) x by (simp add: Let_def)
    have "set (dset k1 (donation_of rnd f h) ds) \<subseteq> insert (k1, donation_of rnd f h) (set ds)"
      by (induction ds) auto
    then show ?thesis
      using Cons.IH[OF run _ Cons.prems(3)] Cons.prems(2) x True by auto
  next
    case False
    then show ?thesis using Cons.IH[of ds n] Cons.prems x by (auto simp: Let_def)
  qed
qed simp

lemma draw_donors_wf:
  "draw_donors rnd f items (ds, n) = (ds', n') \<Longrightarrow> dict_wf ds \<Longrightarrow> dict_wf ds'"
proof (induction items arbitrary: ds n)
  case (Cons x items)
  obtain k h where x: "x = (k, h)" by fastforce
  show ?case using Cons.IH Cons.prems x by (auto simp: Let_def split: if_splits)
qed simp

lemma share_evenly_sum:
  "0 \<le> per \<Longrightarrow> distinct (map fst items) \<Longrightarrow> fst ` set rs \<inter> fst ` set items = {} \<Longrightarrow>
   sum_list (map snd (share_evenly per rm i items rs)) =
     sum_list (map snd rs) + per * int (length items) + max 0 (min (int (length items)) (rm - i))"
proof (induction items arbitrary: rs i)
  case (Cons x items)
  obtain k e where x: "x = (k, e)" by fastforce
  let ?s = "per + (if i < rm then 1 else 0)"
  have k: "k \<notin> fst ` set rs" using Cons.prems(3) x by auto
  show ?case
  proof (cases "?s > 0")
    case True
    have "sum_list (map snd (share_evenly per rm (i + 1) items (dset k ?s rs))) =
        sum_list (map snd (dset k ?s rs)) + per * int (length items) +
        max 0 (min (int (length items)) (rm - (i + 1)))"
      using Cons.prems x by (intro Cons.IH) (auto simp: dset_keys)
    then show ?thesis using True x dset_sum[OF k] by (auto simp: algebra_simps)
  next
    case False
    then have "per = 0" "\<not> i < rm" using Cons.prems(1) by (auto split: if_splits)
    then show ?thesis using Cons.IH[of rs "i + 1"] Cons.prems x by auto
  qed
qed simp

lemma share_evenly_entries:
  "(k, d) \<in> set (share_evenly per rm i items rs) \<Longrightarrow>
   (k, d) \<in> set rs \<or> (k \<in> fst ` set items \<and> 0 < d)"
proof (induction items arbitrary: rs i)
  case (Cons x items)
  obtain k1 e where x: "x = (k1, e)" by fastforce
  let ?s = "per + (if i < rm then 1 else 0)"
  have sub: "set (dset k1 ?s rs) \<subseteq> insert (k1, ?s) (set rs)" by (induction rs) auto
  show ?case
  proof (cases "?s > 0")
    case True
    then have "(k, d) \<in> set (dset k1 ?s rs) \<or> (k \<in> fst ` set items \<and> 0 < d)"
      using Cons.prems x by (intro Cons.IH) simp
    then show ?thesis using sub True x by auto
  next
    case False
    then have "(k, d) \<in> set rs \<or> (k \<in> fst ` set items \<and> 0 < d)"
      using Cons.prems x by (intro Cons.IH) (simp add: Let_def)
    then show ?thesis using x by auto
  qed
qed simp

lemma share_evenly_fair:
  "(k, d) \<in> set (share_evenly per rm i items rs) \<Longrightarrow> (k, d) \<in> set rs \<or> d = per \<or> d = per + 1"
proof (induction items arbitrary: rs i)
  case (Cons x items)
  obtain k1 e where x: "x = (k1, e)" by fastforce
  let ?s = "per + (if i < rm then 1 else 0)"
  have sub: "set (dset k1 ?s rs) \<subseteq> insert (k1, ?s) (set rs)" by (induction rs) auto
  have "(k, d) \<in> set (dset k1 ?s rs) \<or> (k, d) \<in> set rs \<or> d = per \<or> d = per + 1"
    using Cons.IH[of "i + 1" "dset k1 ?s rs"] Cons.IH[of "i + 1" rs] Cons.prems x
    by (auto simp: Let_def split: if_splits)
  then show ?case using sub by (cases "i < rm") auto
qed simp

lemma share_evenly_wf: "dict_wf rs \<Longrightarrow> dict_wf (share_evenly per rm i items rs)"
proof (induction items arbitrary: rs i)
  case (Cons x items)
  obtain k e where x: "x = (k, e)" by fastforce
  show ?case using Cons x by (simp add: Let_def)
qed simp

lemma sum_snd_zero: "\<forall>x\<in>set xs. snd x = 0 \<Longrightarrow> sum_list (map snd xs) = (0 :: int)"
  by (induction xs) auto

text \<open>Sharing without excess: every unit drawn is given out.\<close>

lemma allocate_transfer_even:
  assumes "allocate_transfer rnd slack stressed f = Inr (ds, rs, n)" "\<forall>x\<in>set stressed. snd x = 0"
    and "distinct (map fst slack)" "distinct (map fst stressed)" "0 \<le> n"
  shows "sum_list (map snd ds) = n" "sum_list (map snd rs) = n" "dict_wf ds" "dict_wf rs"
    "(k, d) \<in> set ds \<Longrightarrow> \<exists>h. (k, h) \<in> set slack \<and> d = donation_of rnd f h \<and> 0 < d"
    "(k, d) \<in> set rs \<Longrightarrow> k \<in> fst ` set stressed \<and> 0 < d"
proof -
  obtain ds0 n0 where d: "draw_donors rnd f slack ([], 0) = (ds0, n0)" by fastforce
  have ex: "sum_list (map snd stressed) = 0"
    using assms(2) by (rule sum_snd_zero)
  note sum = draw_donors_sum[OF d assms(3)] draw_donors_wf[OF d]
  let ?l = "int (length stressed)"
  consider "n0 = 0" "ds = []" "rs = []" "n = 0"
    | "n0 \<noteq> 0" "stressed \<noteq> []" "ds = ds0" "n = n0"
      "rs = share_evenly (n0 div ?l) (n0 - n0 div ?l * ?l) 0 stressed []"
    using assms(1) d ex by (auto simp: allocate_transfer_def Let_def split: if_splits)
  then show "sum_list (map snd ds) = n" "sum_list (map snd rs) = n" "dict_wf ds" "dict_wf rs"
    "(k, d) \<in> set ds \<Longrightarrow> \<exists>h. (k, h) \<in> set slack \<and> d = donation_of rnd f h \<and> 0 < d"
    "(k, d) \<in> set rs \<Longrightarrow> k \<in> fst ` set stressed \<and> 0 < d"
  proof (atomize (full), cases, goal_cases)
    case 1
    then show ?case by simp
  next
    case 2
    have l: "0 < ?l" using 2 by simp
    have rm: "n0 - n0 div ?l * ?l = n0 mod ?l" by (simp add: minus_div_mult_eq_mod)
    have "0 \<le> n0 div ?l" using assms(5) 2 l by (simp add: pos_imp_zdiv_nonneg_iff)
    then have "sum_list (map snd rs) = n0 div ?l * ?l + max 0 (min ?l (n0 mod ?l))"
      using 2 share_evenly_sum[of "n0 div ?l" stressed "[]" "n0 mod ?l" 0] assms(4) rm by simp
    also have "\<dots> = n0" using pos_mod_bound[OF l, of n0] pos_mod_sign[OF l, of n0]
      by (simp add: max_def min_def)
    finally show ?case
      using 2 sum draw_donors_entries[OF d, of k d] share_evenly_wf[of "[]"]
        share_evenly_entries[of k d "n0 div ?l" "n0 - n0 div ?l * ?l" 0 stressed "[]"]
      by auto
  qed
qed


section \<open>When a drafted decision is accepted\<close>

definition donor_limit :: "int \<Rightarrow> int \<Rightarrow> int \<Rightarrow> int \<Rightarrow> int" where
  "donor_limit limit amount least in_flight = max (max (limit - amount) least) in_flight"

lemma donor_changes_ok:
  "\<forall>x\<in>set ds. pool_by_name c (fst x) \<noteq> None \<Longrightarrow>
   \<exists>cs. donor_changes c ds = Inr cs \<and>
     (\<forall>(k, old, new)\<in>set cs. \<exists>p d. (k, d) \<in> set ds \<and> pool_by_name c k = Some p \<and> old = bp_ceiling p \<and>
        new = donor_limit (bp_ceiling p) d (bp_reserved p) (get0 (bc_in_pool c) k))"
proof (induction ds)
  case (Cons x ds)
  obtain k d where x: "x = (k, d)" by fastforce
  obtain p where p: "pool_by_name c k = Some p" using Cons.prems x by auto
  obtain cs where cs: "donor_changes c ds = Inr cs"
    "\<forall>(k, old, new)\<in>set cs. \<exists>p d. (k, d) \<in> set ds \<and> pool_by_name c k = Some p \<and> old = bp_ceiling p \<and>
        new = donor_limit (bp_ceiling p) d (bp_reserved p) (get0 (bc_in_pool c) k)"
    using Cons by auto
  show ?case using cs p x by (fastforce simp: limit_of_def Let_def donor_limit_def)
qed simp

lemma recipient_changes_ok:
  "\<forall>x\<in>set ds. pool_by_name c (fst x) \<noteq> None \<Longrightarrow>
   \<exists>cs. recipient_changes c ds = Inr cs \<and>
     (\<forall>(k, old, new)\<in>set cs. \<exists>p d. (k, d) \<in> set ds \<and> pool_by_name c k = Some p \<and> old = bp_ceiling p \<and>
        new = min (bp_ceiling p + d) (max_for_pool c k))"
proof (induction ds)
  case (Cons x ds)
  obtain k d where x: "x = (k, d)" by fastforce
  obtain p where p: "pool_by_name c k = Some p" using Cons.prems x by auto
  obtain cs where cs: "recipient_changes c ds = Inr cs"
    "\<forall>(k, old, new)\<in>set cs. \<exists>p d. (k, d) \<in> set ds \<and> pool_by_name c k = Some p \<and> old = bp_ceiling p \<and>
        new = min (bp_ceiling p + d) (max_for_pool c k)"
    using Cons by auto
  show ?case using cs p x by (fastforce simp: limit_of_def Let_def max_for_pool_def)
qed simp

lemma tenant_donor_changes_ok:
  "\<forall>x\<in>set ds. tenant_budget_for c (fst (fst x)) (snd (fst x)) \<noteq> None \<Longrightarrow>
   \<exists>cs. tenant_donor_changes c ds = Inr cs \<and>
     (\<forall>(k, old, new)\<in>set cs. \<exists>t d. (k, d) \<in> set ds \<and> tenant_budget_for c (fst k) (snd k) = Some t \<and>
        old = tb_burst t \<and> new = donor_limit (tb_burst t) d (tb_reserve t) (get0 (bc_in_tenant c) k))"
proof (induction ds)
  case (Cons x ds)
  obtain k d where x: "x = (k, d)" by fastforce
  obtain t where t: "tenant_budget_for c (fst k) (snd k) = Some t" using Cons.prems x by auto
  obtain cs where cs: "tenant_donor_changes c ds = Inr cs"
    "\<forall>(k, old, new)\<in>set cs. \<exists>t d. (k, d) \<in> set ds \<and> tenant_budget_for c (fst k) (snd k) = Some t \<and>
        old = tb_burst t \<and> new = donor_limit (tb_burst t) d (tb_reserve t) (get0 (bc_in_tenant c) k)"
    using Cons by auto
  show ?case using cs t x by (fastforce simp: limit_of_def Let_def donor_limit_def)
qed simp

lemma tenant_recipient_changes_ok:
  "\<forall>x\<in>set ds. tenant_budget_for c (fst (fst x)) (snd (fst x)) \<noteq> None \<Longrightarrow>
   \<exists>cs. tenant_recipient_changes c ds = Inr cs \<and>
     (\<forall>(k, old, new)\<in>set cs. \<exists>t d. (k, d) \<in> set ds \<and> tenant_budget_for c (fst k) (snd k) = Some t \<and>
        old = tb_burst t \<and> new = tb_burst t + d)"
proof (induction ds)
  case (Cons x ds)
  obtain k d where x: "x = (k, d)" by fastforce
  obtain t where t: "tenant_budget_for c (fst k) (snd k) = Some t" using Cons.prems x by auto
  obtain cs where cs: "tenant_recipient_changes c ds = Inr cs"
    "\<forall>(k, old, new)\<in>set cs. \<exists>t d. (k, d) \<in> set ds \<and> tenant_budget_for c (fst k) (snd k) = Some t \<and>
        old = tb_burst t \<and> new = tb_burst t + d"
    using Cons by auto
  show ?case using cs t x by (fastforce simp: limit_of_def Let_def)
qed simp

lemma draw_donors_nonneg: "draw_donors rnd f items (ds, n) = (ds', n') \<Longrightarrow> 0 \<le> n \<Longrightarrow> 0 \<le> n'"
proof (induction items arbitrary: ds n)
  case (Cons x items)
  obtain k h where x: "x = (k, h)" by fastforce
  show ?case using Cons x by (auto simp: Let_def split: if_splits)
qed simp

lemma allocate_transfer_total:
  assumes "stressed \<noteq> []"
  shows "\<exists>ds rs n. allocate_transfer rnd slack stressed f = Inr (ds, rs, n) \<and> 0 \<le> n"
proof -
  obtain ds0 n0 where d: "draw_donors rnd f slack ([], 0) = (ds0, n0)" by fastforce
  have "0 \<le> n0" using draw_donors_nonneg[OF d] by simp
  then show ?thesis using assms
    by (cases "n0 = 0"; cases "0 < sum_list (map snd stressed)")
       (auto simp: allocate_transfer_def Let_def d split: prod.split)
qed

text \<open>The precondition: no pool's ceiling reaches into the floors of the others.\<close>

definition caps_ok :: "controller \<Rightarrow> bool" where
  "caps_ok c \<longleftrightarrow> (\<forall>p\<in>set (bc_pools c). bp_ceiling p \<le> max_for_pool c (bp_name p))"

lemma pool_bounds:
  assumes "controller_inv c" "pool_by_name c k = Some p"
  shows "0 \<le> bp_reserved p" "bp_reserved p \<le> bp_ceiling p" "get0 (bc_in_pool c) k \<le> bp_ceiling p"
    "get0 (bc_in_pool c) k \<le> max_for_pool c k" "bp_reserved p \<le> max_for_pool c k"
  using assms pool_by_name_Some[OF assms(2)] reserved_le_max[of c p]
  by (auto simp: controller_inv_def pools_inv_def list_all_iff pool_ok_def)

lemma tenant_bounds:
  assumes "controller_inv c" "tenant_budget_for c (fst k) (snd k) = Some t"
  shows "0 \<le> tb_reserve t" "tb_reserve t \<le> tb_burst t" "get0 (bc_in_tenant c) k \<le> tb_burst t"
proof -
  have "t \<in> set (bc_tenants c)" "tb_key t = k"
    using tenant_budget_for_Some[OF assms(2)] by (auto simp: tb_key_def)
  then show "0 \<le> tb_reserve t" "tb_reserve t \<le> tb_burst t" "get0 (bc_in_tenant c) k \<le> tb_burst t"
    using assms(1) by (auto simp: controller_inv_def tenants_inv_def list_all_iff tenant_budget_ok_def)
qed

lemma pool_utils_known:
  "controller_inv c \<Longrightarrow> (k, u) \<in> set (pool_utils c) \<Longrightarrow> pool_by_name c k \<noteq> None"
  by (auto simp: pool_utils_def controller_inv_def pool_by_name_iff)

lemma tenant_utils_known:
  "controller_inv c \<Longrightarrow> (k, u) \<in> set (tenant_utils c) \<Longrightarrow> tenant_budget_for c (fst k) (snd k) \<noteq> None"
  by (auto simp: tenant_utils_def controller_inv_def tenant_budget_for_iff)

lemma distinct_disjoint_filters:
  "distinct (map fst xs) \<Longrightarrow> distinct (map fst (filter P xs @ filter (\<lambda>x. \<not> P x \<and> Q x) xs))"
  by (induction xs) (auto simp: rev_image_eqI)

lemma pool_utils_keys: "map fst (pool_utils c) = map bp_name (bc_pools c)"
  by (simp add: pool_utils_def)

lemma tenant_utils_keys: "map fst (tenant_utils c) = map tb_key (bc_tenants c)"
  by (simp add: tenant_utils_def)

lemma signals_sets:
  "set (rs_stressed (signals rnd R c)) \<subseteq> set (pool_utils c)"
  "set (rs_slack (signals rnd R c)) \<subseteq> set (pool_utils c)"
  "set (rs_tenant_stressed (signals rnd R c)) \<subseteq> set (tenant_utils c)"
  "set (rs_tenant_slack (signals rnd R c)) \<subseteq> set (tenant_utils c)"
  by (auto simp: signals_def Let_def)

lemma signals_distinct:
  assumes "controller_inv c"
  shows "distinct (map fst (rs_stressed (signals rnd R c) @ rs_slack (signals rnd R c)))"
    "distinct (map fst (rs_tenant_stressed (signals rnd R c) @ rs_tenant_slack (signals rnd R c)))"
proof -
  have "distinct (map fst (pool_utils c))" "distinct (map fst (tenant_utils c))"
    using assms by (auto simp: pool_utils_keys tenant_utils_keys controller_inv_def pools_inv_def tenants_inv_def)
  note this[THEN distinct_disjoint_filters[where P = "\<lambda>u. is_stressed rnd R (snd u)" and
        Q = "\<lambda>u. is_slack rnd R (snd u)"]]
  then show "distinct (map fst (rs_stressed (signals rnd R c) @ rs_slack (signals rnd R c)))"
    "distinct (map fst (rs_tenant_stressed (signals rnd R c) @ rs_tenant_slack (signals rnd R c)))"
    unfolding signals_def Let_def rebalance_signals.simps .
qed

text \<open>The two item lists of one transfer.\<close>

lemma fst_keeping [simp]: "fst \<circ> (\<lambda>(k, u). (k, f u)) = fst"
  by (auto simp: fun_eq_iff)

lemma donor_limit_allowed:
  assumes "0 < d" "least \<le> limit" "in_flight \<le> limit"
  shows "least \<le> donor_limit limit d least in_flight" "in_flight \<le> donor_limit limit d least in_flight"
    "donor_limit limit d least in_flight \<le> limit"
  using assms by (auto simp: donor_limit_def)

lemma evaluate_pools_allowed:
  assumes inv: "controller_inv c" and caps: "caps_ok c" and R: "rebalancer_ok R"
  shows "\<exists>cs. evaluate_pools rnd R c (signals rnd R c) = Inr cs \<and>
    (\<forall>(k, old, new)\<in>set cs. ceiling_of c k = Some old \<and> ceiling_allowed c k new)"
proof (cases "rs_cascading (signals rnd R c)")
  case True
  let ?S = "signals rnd R c"
  let ?slack = "map (\<lambda>(k, u). (k, slack_headroom u)) (rs_slack ?S)"
  let ?stressed = "map (\<lambda>(k, u). (k, stress_excess u)) (rs_stressed ?S)"
  have "?stressed \<noteq> []" using True R by (auto simp: signals_def Let_def rebalancer_ok_def)
  then obtain ds rs n where a: "allocate_transfer rnd ?slack ?stressed (rb_transfer_fraction R) = Inr (ds, rs, n)"
      "0 \<le> n" using allocate_transfer_total by blast
  have zero: "\<forall>x\<in>set ?stressed. snd x = 0"
    using signals_sets(1)[of rnd R c] by (fastforce dest: pool_excess_zero[OF inv])
  have dist: "distinct (map fst ?slack)" "distinct (map fst ?stressed)"
    using signals_distinct(1)[OF inv, of rnd R] by simp_all
  note even = allocate_transfer_even[OF a(1) zero dist a(2)]
  have known: "\<exists>p. pool_by_name c k = Some p" if "(k, u) \<in> set (rs_slack ?S) \<union> set (rs_stressed ?S)" for k u
    using that pool_utils_known[OF inv, of k u] signals_sets(1,2)[of rnd R c] by auto
  have dk: "\<forall>x\<in>set ds. pool_by_name c (fst x) \<noteq> None" and dpos: "\<forall>(k, d)\<in>set ds. 0 < d"
    by (auto dest!: even(5) dest: known[OF UnI1] known[OF UnI2])+
  have rk: "\<forall>x\<in>set rs. pool_by_name c (fst x) \<noteq> None" and rpos: "\<forall>(k, d)\<in>set rs. 0 < d"
    by (auto dest!: even(6) dest: known[OF UnI1] known[OF UnI2])+
  obtain cs1 where cs1: "donor_changes c ds = Inr cs1"
    "\<forall>(k, old, new)\<in>set cs1. \<exists>p d. (k, d) \<in> set ds \<and> pool_by_name c k = Some p \<and> old = bp_ceiling p \<and>
        new = donor_limit (bp_ceiling p) d (bp_reserved p) (get0 (bc_in_pool c) k)"
    using donor_changes_ok[OF dk] by blast
  obtain cs2 where cs2: "recipient_changes c rs = Inr cs2"
    "\<forall>(k, old, new)\<in>set cs2. \<exists>p d. (k, d) \<in> set rs \<and> pool_by_name c k = Some p \<and> old = bp_ceiling p \<and>
        new = min (bp_ceiling p + d) (max_for_pool c k)"
    using recipient_changes_ok[OF rk] by blast
  have 1: "ceiling_of c k = Some old \<and> ceiling_allowed c k new" if mem: "(k, old, new) \<in> set cs1" for k old new
  proof -
    obtain p d where p: "(k, d) \<in> set ds" "pool_by_name c k = Some p" "old = bp_ceiling p"
      "new = donor_limit (bp_ceiling p) d (bp_reserved p) (get0 (bc_in_pool c) k)"
      using cs1(2) mem by blast
    have "0 < d" "bp_ceiling p \<le> max_for_pool c k"
      using dpos p(1) caps pool_by_name_Some[OF p(2)] by (auto simp: caps_ok_def)
    then show ?thesis
      using p pool_bounds[OF inv p(2)]
        donor_limit_allowed[of d "bp_reserved p" "bp_ceiling p" "get0 (bc_in_pool c) k"]
      by (auto simp: ceiling_of_def ceiling_allowed_def)
  qed
  have 2: "ceiling_of c k = Some old \<and> ceiling_allowed c k new" if mem: "(k, old, new) \<in> set cs2" for k old new
  proof -
    obtain p d where p: "(k, d) \<in> set rs" "pool_by_name c k = Some p" "old = bp_ceiling p"
      "new = min (bp_ceiling p + d) (max_for_pool c k)"
      using cs2(2) mem by blast
    have "0 < d" using rpos p(1) by auto
    then show ?thesis
      using p pool_bounds[OF inv p(2)] by (auto simp: ceiling_of_def ceiling_allowed_def)
  qed
  show ?thesis using True a(1) cs1(1) cs2(1) 1 2 by (auto simp: evaluate_pools_def)
qed (simp add: evaluate_pools_def)

lemma evaluate_pool_tenants_allowed:
  assumes inv: "controller_inv c" and R: "rebalancer_ok R"
    and us: "set us \<subseteq> set (tenant_utils c)" "distinct (map fst us)"
  shows "\<exists>cs. evaluate_pool_tenants rnd R c us = Inr cs \<and>
    (\<forall>(k, old, new)\<in>set cs. burst_of c k = Some old \<and> burst_allowed c k new)"
proof (cases "us = [] \<or> \<not> cascading rnd R (map snd us)")
  case False
  let ?slack = "map (\<lambda>(k, u). (k, slack_headroom u)) (filter (\<lambda>u. is_slack rnd R (snd u)) us)"
  let ?stressed = "map (\<lambda>(k, u). (k, stress_excess u)) (filter (\<lambda>u. is_stressed rnd R (snd u)) us)"
  have "filter (is_stressed rnd R \<circ> snd) us \<noteq> []"
    using False R by (auto simp: cascading_def rebalancer_ok_def filter_map)
  then have "?stressed \<noteq> []" by (simp add: comp_def)
  then obtain ds rs n where a: "allocate_transfer rnd ?slack ?stressed (rb_transfer_fraction R) = Inr (ds, rs, n)"
      "0 \<le> n" using allocate_transfer_total by blast
  have zero: "\<forall>x\<in>set ?stressed. snd x = 0"
    using us(1) by (fastforce dest: tenant_excess_zero[OF inv])
  have dist: "distinct (map fst ?slack)" "distinct (map fst ?stressed)"
    using us(2) by (simp_all add: distinct_map_filter)
  note even = allocate_transfer_even[OF a(1) zero dist a(2)]
  have known: "\<exists>t. tenant_budget_for c p q = Some t" if "((p, q), u) \<in> set us" for p q u
    using that tenant_utils_known[OF inv, of "(p, q)" u] us(1) by auto
  have dk: "\<forall>x\<in>set ds. tenant_budget_for c (fst (fst x)) (snd (fst x)) \<noteq> None" and dpos: "\<forall>(k, d)\<in>set ds. 0 < d"
    by (auto dest!: even(5) dest: known)+
  have rk: "\<forall>x\<in>set rs. tenant_budget_for c (fst (fst x)) (snd (fst x)) \<noteq> None" and rpos: "\<forall>(k, d)\<in>set rs. 0 < d"
    by (auto dest!: even(6) dest: known)+
  obtain cs1 where cs1: "tenant_donor_changes c ds = Inr cs1"
    "\<forall>(k, old, new)\<in>set cs1. \<exists>t d. (k, d) \<in> set ds \<and> tenant_budget_for c (fst k) (snd k) = Some t \<and>
        old = tb_burst t \<and> new = donor_limit (tb_burst t) d (tb_reserve t) (get0 (bc_in_tenant c) k)"
    using tenant_donor_changes_ok[OF dk] by blast
  obtain cs2 where cs2: "tenant_recipient_changes c rs = Inr cs2"
    "\<forall>(k, old, new)\<in>set cs2. \<exists>t d. (k, d) \<in> set rs \<and> tenant_budget_for c (fst k) (snd k) = Some t \<and>
        old = tb_burst t \<and> new = tb_burst t + d"
    using tenant_recipient_changes_ok[OF rk] by blast
  have 1: "burst_of c k = Some old \<and> burst_allowed c k new" if mem: "(k, old, new) \<in> set cs1" for k old new
  proof -
    obtain t d where t: "(k, d) \<in> set ds" "tenant_budget_for c (fst k) (snd k) = Some t" "old = tb_burst t"
      "new = donor_limit (tb_burst t) d (tb_reserve t) (get0 (bc_in_tenant c) k)"
      using cs1(2) mem by blast
    have "0 < d" using dpos t(1) by auto
    then show ?thesis
      using t tenant_bounds[OF inv t(2)]
        donor_limit_allowed[of d "tb_reserve t" "tb_burst t" "get0 (bc_in_tenant c) k"]
      by (auto simp: burst_of_def burst_allowed_def)
  qed
  have 2: "burst_of c k = Some old \<and> burst_allowed c k new" if mem: "(k, old, new) \<in> set cs2" for k old new
  proof -
    obtain t d where t: "(k, d) \<in> set rs" "tenant_budget_for c (fst k) (snd k) = Some t" "old = tb_burst t"
      "new = tb_burst t + d"
      using cs2(2) mem by blast
    have "0 < d" using rpos t(1) by auto
    then show ?thesis
      using t tenant_bounds[OF inv t(2)] by (auto simp: burst_of_def burst_allowed_def)
  qed
  show ?thesis using False a(1) cs1(1) cs2(1) 1 2 by (auto simp: evaluate_pool_tenants_def)
qed (auto simp: evaluate_pool_tenants_def)

lemma evaluate_each_pool_allowed:
  assumes inv: "controller_inv c" and R: "rebalancer_ok R"
  shows "\<exists>cs. evaluate_each_pool rnd R c (signals rnd R c) ps = Inr cs \<and>
    (\<forall>(k, old, new)\<in>set cs. burst_of c k = Some old \<and> burst_allowed c k new)"
proof (induction ps)
  case (Cons p ps)
  let ?us = "in_pool (bp_name p) (rs_tenant_stressed (signals rnd R c) @ rs_tenant_slack (signals rnd R c))"
  have sub: "set ?us \<subseteq> set (tenant_utils c)" using signals_sets(3,4)[of rnd R c] by (auto simp: in_pool_def)
  have dist: "distinct (map fst ?us)"
    unfolding in_pool_def by (rule distinct_map_filter) (rule signals_distinct(2)[OF inv])
  obtain cs1 where cs1: "evaluate_pool_tenants rnd R c ?us = Inr cs1"
    "\<forall>(k, old, new)\<in>set cs1. burst_of c k = Some old \<and> burst_allowed c k new"
    using evaluate_pool_tenants_allowed[OF inv R sub dist] by blast
  obtain cs2 where cs2: "evaluate_each_pool rnd R c (signals rnd R c) ps = Inr cs2"
    "\<forall>(k, old, new)\<in>set cs2. burst_of c k = Some old \<and> burst_allowed c k new"
    using Cons.IH by blast
  show ?case using cs1 cs2 by auto
qed simp

lemma evaluate_allowed:
  assumes "controller_inv c" "caps_ok c" "rebalancer_ok R"
  obtains d where "evaluate rnd R c = Inr d"
    "\<forall>(k, old, new)\<in>set (rd_changes d). ceiling_of c k = Some old \<and> ceiling_allowed c k new"
    "\<forall>(k, old, new)\<in>set (rd_tenant_changes d). burst_of c k = Some old \<and> burst_allowed c k new"
proof -
  obtain cs where cs: "evaluate_pools rnd R c (signals rnd R c) = Inr cs"
    "\<forall>(k, old, new)\<in>set cs. ceiling_of c k = Some old \<and> ceiling_allowed c k new"
    using evaluate_pools_allowed[OF assms] by blast
  obtain ts where ts: "evaluate_tenants rnd R c (signals rnd R c) = Inr ts"
    "\<forall>(k, old, new)\<in>set ts. burst_of c k = Some old \<and> burst_allowed c k new"
    using evaluate_each_pool_allowed[OF assms(1,3), of rnd "bc_pools c"]
    by (cases "rs_tenant_cascading (signals rnd R c)") (auto simp: evaluate_tenants_def)
  show ?thesis
    by (rule that[of "\<lparr>rd_changes = cs, rd_tenant_changes = ts\<rparr>"]) (use cs ts in \<open>simp_all add: evaluate_def Let_def\<close>)
qed

lemma apply_decision_ok:
  assumes inv: "controller_inv c"
    and "\<forall>(k, old, new)\<in>set (rd_changes d). ceiling_allowed c k new"
    and "\<forall>(k, old, new)\<in>set (rd_tenant_changes d). burst_allowed c k new"
  shows "fst (apply_decision d c) = Inr ()"
proof -
  have "\<forall>(k, n)\<in>set (shrinks_first (rd_changes d)). ceiling_allowed c k n"
    using assms(2) by (auto simp: shrinks_first_def)
  from ceilings.apply_all_ok[OF inv this] obtain c'
    where c': "apply_all adjust_ceiling (shrinks_first (rd_changes d)) c = (Inr (), c')"
    by (metis prod.collapse)
  have "controller_inv c'" using ceilings.apply_all_good[OF inv, of "shrinks_first (rd_changes d)"] c' by simp
  moreover have "\<forall>(k, n)\<in>set (shrinks_first (rd_tenant_changes d)). burst_allowed c' k n"
    using assms(3) ceilings_keep_bursts[of "shrinks_first (rd_changes d)" c] c'
    by (auto simp: shrinks_first_def)
  ultimately show ?thesis using bursts.apply_all_ok c' by (simp add: apply_decision_def)
qed

lemma evaluate_and_apply_ok:
  assumes "controller_inv c" "caps_ok c" "rebalancer_ok R"
  shows "\<exists>d. fst (evaluate_and_apply rnd R c) = Inr d \<and> evaluate rnd R c = Inr d"
proof -
  obtain d where d: "evaluate rnd R c = Inr d"
    "\<forall>(k, old, new)\<in>set (rd_changes d). ceiling_of c k = Some old \<and> ceiling_allowed c k new"
    "\<forall>(k, old, new)\<in>set (rd_tenant_changes d). burst_of c k = Some old \<and> burst_allowed c k new"
    using evaluate_allowed[OF assms] by blast
  have "fst (apply_decision d c) = Inr ()" using d(2,3) by (intro apply_decision_ok[OF assms(1)]) auto
  then show ?thesis using d(1) by (cases "apply_decision d c") (auto simp: evaluate_and_apply_def)
qed

lemma ceiling_allowed_caps: "caps_ok c \<Longrightarrow> ceiling_allowed c k n \<Longrightarrow> caps_ok (snd (adjust_ceiling k n c))"
  by (auto simp: caps_ok_def adjust_ceiling_cases ceiling_allowed_def dest!: set_ceiling_mem
      split: option.splits)

lemma adjust_ceiling_caps: "caps_ok c \<Longrightarrow> caps_ok (snd (adjust_ceiling k n c))"
  using ceiling_allowed_caps[of c k n] by (cases "ceiling_allowed c k n") (simp_all add: adjust_ceiling_cases)

lemma apply_ceilings_caps: "caps_ok c \<Longrightarrow> caps_ok (snd (apply_all adjust_ceiling cs c))"
proof (induction cs arbitrary: c)
  case (Cons x cs)
  obtain k n where x: "x = (k, n)" by fastforce
  obtain r c' where r: "adjust_ceiling k n c = (r, c')" by fastforce
  then have "caps_ok c'" using adjust_ceiling_caps[OF Cons.prems, of k n] by simp
  then show ?case using Cons.IH[of c'] r x by (cases r) auto
qed simp

lemma apply_bursts_caps: "caps_ok c \<Longrightarrow> caps_ok (snd (apply_all adjust_burst cs c))"
proof (induction cs arbitrary: c)
  case (Cons x cs)
  obtain k n where x: "x = (k, n)" by fastforce
  obtain r c' where r: "adjust_burst k n c = (r, c')" by fastforce
  then have "caps_ok c'" using Cons.prems by (auto simp: adjust_burst_cases caps_ok_def split: if_splits)
  then show ?case using Cons.IH[of c'] r x by (cases r) auto
qed simp

lemma evaluate_and_apply_caps: "caps_ok c \<Longrightarrow> caps_ok (snd (evaluate_and_apply rnd R c))"
proof -
  assume c: "caps_ok c"
  have "caps_ok (snd (apply_decision d c))" for d
    using apply_ceilings_caps[OF c, of "shrinks_first (rd_changes d)"]
    by (cases "apply_all adjust_ceiling (shrinks_first (rd_changes d)) c")
       (auto simp: apply_decision_def apply_bursts_caps split: sum.splits)
  from this have "apply_decision d c = (r, c') \<Longrightarrow> caps_ok c'" for d r c' by (metis snd_conv)
  then show ?thesis using c by (auto simp: evaluate_and_apply_def split: sum.splits prod.splits)
qed


section \<open>Properties\<close>

text \<open>One pass of the rebalancer over a reachable controller whose ceilings do not reach into the
  floors of other pools never raises, leaves the controller's invariants intact, and leaves the
  ceilings clear of the floors, so that the next pass does not raise either.\<close>

lemma rebalance_succeeds:
  assumes "budget_reachable c" "caps_ok c" "rebalancer_ok R"
  shows "(\<exists>d. fst (evaluate_and_apply rnd R c) = Inr d \<and> evaluate rnd R c = Inr d) \<and>
    controller_inv (snd (evaluate_and_apply rnd R c)) \<and> caps_ok (snd (evaluate_and_apply rnd R c))"
  using evaluate_and_apply_ok[OF budget_reachable_inv[OF assms(1)] assms(2,3)]
    evaluate_and_apply_inv[OF budget_reachable_inv[OF assms(1)]] evaluate_and_apply_caps[OF assms(2)]
  by blast

text \<open>In a reachable controller no pool holds more than its ceiling, so the excess by which
  \<open>_allocate_transfer\<close> would share a donation is always zero: the donation is split evenly, nothing
  of it is lost, and two recipients differ by at most one unit.\<close>

lemma transfer_even:
  assumes "budget_reachable c"
    and "allocate_transfer rnd
           (map (\<lambda>(k, u). (k, slack_headroom u)) (rs_slack (signals rnd R c)))
           (map (\<lambda>(k, u). (k, stress_excess u)) (rs_stressed (signals rnd R c)))
           fraction = Inr (donors, recipients, n)"
  shows "sum_list (map snd donors) = n \<and> sum_list (map snd recipients) = n \<and>
    (\<forall>(k, d)\<in>set recipients. d = n div int (length (rs_stressed (signals rnd R c))) \<or>
       d = n div int (length (rs_stressed (signals rnd R c))) + 1)"
proof -
  let ?slack = "map (\<lambda>(k, u). (k, slack_headroom u)) (rs_slack (signals rnd R c))"
  let ?stressed = "map (\<lambda>(k, u). (k, stress_excess u)) (rs_stressed (signals rnd R c))"
  note inv = budget_reachable_inv[OF assms(1)]
  have zero: "\<forall>x\<in>set ?stressed. snd x = 0"
    using signals_sets(1)[of rnd R c] by (fastforce dest: pool_excess_zero[OF inv])
  note ex = sum_snd_zero[OF zero]
  have dist: "distinct (map fst ?slack)" "distinct (map fst ?stressed)"
    using signals_distinct(1)[OF inv, of rnd R] by simp_all
  obtain ds0 n0 where d: "draw_donors rnd fraction ?slack ([], 0) = (ds0, n0)" by fastforce
  have "n = n0" using assms(2) ex by (auto simp: allocate_transfer_def Let_def d split: if_splits)
  then have n: "0 \<le> n" using draw_donors_nonneg[OF d] by simp
  note even = allocate_transfer_even[OF assms(2) zero dist n]
  let ?l = "int (length ?stressed)"
  have "recipients = [] \<or> recipients = share_evenly (n div ?l) (n - n div ?l * ?l) 0 ?stressed []"
    using assms(2) ex \<open>n = n0\<close> by (auto simp: allocate_transfer_def Let_def d split: if_splits)
  then have "d = n div ?l \<or> d = n div ?l + 1" if "(k, d) \<in> set recipients" for k d
    using that share_evenly_fair[of k d "n div ?l" "n - n div ?l * ?l" 0 ?stressed "[]"] by auto
  then show ?thesis using even(1,2) by auto
qed

text \<open>Two full pools and one idle pool: the idle pool donates, each full pool receives its half.\<close>

definition demo_rebalancer :: rebalancer where
  "demo_rebalancer =
     \<lparr>rb_stress_threshold = 17 / 20, rb_slack_threshold = 3 / 10, rb_cascade_min_stressed = 2,
      rb_transfer_fraction = 1 / 5\<rparr>"

definition idle_pools :: "int \<Rightarrow> budget_pool list" where
  "idle_pools n =
     [\<lparr>bp_name = ''a'', bp_reserved = 5, bp_ceiling = 10\<rparr>,
      \<lparr>bp_name = ''b'', bp_reserved = 5, bp_ceiling = 10\<rparr>,
      \<lparr>bp_name = ''idle'', bp_reserved = 5, bp_ceiling = n\<rparr>]"

definition idle_controller :: "int \<Rightarrow> controller" where
  "idle_controller n =
     \<lparr>bc_total = 60, bc_pools = idle_pools n, bc_tenants = [],
      bc_in_pool = [''a'' \<mapsto> 10, ''b'' \<mapsto> 10], bc_in_tenant = Map.empty\<rparr>"

lemmas rebalance_eval =
  evaluate_and_apply_def evaluate_def evaluate_pools_def evaluate_tenants_def signals_def Let_def
  pool_utils_def tenant_utils_def pool_util_def is_stressed_def is_slack_def utilization_def
  slack_headroom_def stress_excess_def allocate_transfer_def donation_of_def trunc_def get0_def
  limit_of_def pool_by_name_def others_reserved_def apply_decision_def shrinks_first_def
  adjust_ceiling_def set_ceiling_def idle_controller_def idle_pools_def demo_rebalancer_def

lemma idle_reachable:
  assumes "5 \<le> n" shows "budget_reachable (idle_controller n)"
proof -
  let ?c = "\<lparr>bc_total = 60, bc_pools = idle_pools n, bc_tenants = [], bc_in_pool = Map.empty,
      bc_in_tenant = Map.empty\<rparr>"
  have "build_controller 60 (idle_pools n) [] = Inr ?c"
    using assms by (simp add: build_controller_def idle_pools_def pool_ok_def)
  then have "budget_reachable (snd (acquire ''b'' 10 None (snd (acquire ''a'' 10 None ?c))))"
    by (intro budget_next[OF budget_next[OF budget_init step_acquire] step_acquire])
  moreover have "snd (acquire ''b'' 10 None (snd (acquire ''a'' 10 None ?c))) = idle_controller n"
    by (simp add: acquire_def pool_by_name_def charged_def idle_pools_def idle_controller_def
        others_reserved_def get0_def Let_def)
  ultimately show ?thesis by simp
qed

lemma idle_rebalanced:
  "evaluate_and_apply id demo_rebalancer (idle_controller 40) =
    (Inr \<lparr>rd_changes = [(''idle'', 40, 33), (''a'', 10, 14), (''b'', 10, 13)], rd_tenant_changes = []\<rparr>,
     (idle_controller 40)\<lparr>bc_pools :=
       [\<lparr>bp_name = ''a'', bp_reserved = 5, bp_ceiling = 14\<rparr>,
        \<lparr>bp_name = ''b'', bp_reserved = 5, bp_ceiling = 13\<rparr>,
        \<lparr>bp_name = ''idle'', bp_reserved = 5, bp_ceiling = 33\<rparr>]\<rparr>)"
  by (simp add: rebalance_eval)

text \<open>Without the precondition a pass can fail: the donor's reduced ceiling still reaches into the
  other pools' floors, and \<open>adjust_ceiling\<close> raises.\<close>

lemma rebalance_raises:
  "fst (evaluate_and_apply id demo_rebalancer (idle_controller 100)) = Inl budget_error"
  by (simp add: rebalance_eval)

end
