(* ===== verification/RateLimiter.thy ===== *)
theory RateLimiter
  imports EnvelopeDemo
begin

text \<open>
  Per-identity rate limiting (\<open>rate_limiter.py\<close>): the sliding-window limiter and the verifier it
  decorates. The configuration of a limiter never changes; its state is the map of buckets. A
  bucket is an instance of \<open>sliding_window\<close> that also counts the requests it denies.
\<close>

section \<open>The limiter\<close>

record limiter_config =
  lc_limit :: int
  lc_window :: timedelta
  lc_overrides :: "(string \<times> int) list"

record rate_limit_decision =
  rld_allowed :: bool
  rld_identity :: string
  rld_retry_after_seconds :: int

type_synonym buckets = "string \<rightharpoonup> datetime list"

definition build_rate_limiter :: "int \<Rightarrow> timedelta \<Rightarrow> (string \<times> int) list \<Rightarrow> exn + limiter_config" where
  "build_rate_limiter limit window overrides =
     (if limit < 1 then Inl (std_error ''ValueError'')
      else if window \<le> 0 then Inl (std_error ''ValueError'')
      else if \<not> list_all (\<lambda>(ident, override). ident \<noteq> [] \<and> \<not> override < 1) overrides
      then Inl (std_error ''ValueError'')
      else Inr \<lparr>lc_limit = limit, lc_window = window, lc_overrides = overrides\<rparr>)"

definition effective_limit :: "limiter_config \<Rightarrow> string \<Rightarrow> int" where
  "effective_limit C identity =
     (case dget (lc_overrides C) identity of None \<Rightarrow> lc_limit C | Some n \<Rightarrow> n)"

text \<open>The body of \<open>check\<close> on the bucket of the identity: \<open>(allowed, bucket)\<close>.\<close>

definition bucket_step :: "timedelta \<Rightarrow> int \<Rightarrow> datetime \<Rightarrow> datetime list \<Rightarrow> bool \<times> datetime list" where
  "bucket_step window limit ts bucket =
     (let bucket' = trim_before (ts - window) bucket @ [ts] in
      (\<not> int (length bucket') > limit, bucket'))"

text \<open>\<open>int(td.total_seconds())\<close>, exact for spans below \<open>2 ^ 52\<close> microseconds.\<close>

definition whole_seconds :: "timedelta \<Rightarrow> int" where
  "whole_seconds td = (if 0 \<le> td then td div 1000000 else - ((- td) div 1000000))"

definition limiter_check ::
  "limiter_config \<Rightarrow> string \<Rightarrow> datetime \<Rightarrow> buckets \<Rightarrow> rate_limit_decision \<times> buckets" where
  "limiter_check C identity ts B =
     (let bucket = (case B identity of None \<Rightarrow> [] | Some q \<Rightarrow> q);
          (ok, bucket') = bucket_step (lc_window C) (effective_limit C identity) ts bucket;
          B' = B(identity \<mapsto> bucket')
      in if \<not> ok then
           (\<lparr>rld_allowed = False, rld_identity = identity,
             rld_retry_after_seconds = max 0 (whole_seconds (hd bucket' + lc_window C - ts) + 1)\<rparr>, B')
         else (\<lparr>rld_allowed = True, rld_identity = identity, rld_retry_after_seconds = 0\<rparr>, B'))"

fun limiter_reset :: "string list option \<Rightarrow> buckets \<Rightarrow> buckets" where
  "limiter_reset None B = Map.empty"
| "limiter_reset (Some ids) B = (\<lambda>k. if k \<in> set ids then None else B k)"


section \<open>The decorated verifier\<close>

definition sender_of :: "pyval \<Rightarrow> string" where
  "sender_of v = (if is_dict v then (if has_key (dict_of v) ''sender_spiffe_id''
                                     then str_of (item (dict_of v) ''sender_spiffe_id'') else [])
                  else [])"

definition limited_verify ::
  "platform \<Rightarrow> ('c, 'k) deps \<Rightarrow> verification_config \<Rightarrow> limiter_config \<Rightarrow> datetime \<Rightarrow> pyval \<Rightarrow> buckets \<Rightarrow> 'c \<Rightarrow> 'k \<Rightarrow>
   (exn + capability_claims) \<times> buckets \<times> 'c \<times> 'k" where
  "limited_verify P D cfg C current v B c k =
     (case verify_envelope P D cfg current v c k of
        (Inl e, c', k') \<Rightarrow> (Inl e, B, c', k')
      | (Inr claims, c', k') \<Rightarrow>
          (case limiter_check C (sender_of v) current B of
             (d, B') \<Rightarrow>
               if \<not> rld_allowed d then (Inl (raise_as RateLimitExceededError RATE_LIMITED), B', c', k')
               else (Inr claims, B', c', k')))"

definition limited_try_verify ::
  "platform \<Rightarrow> ('c, 'k) deps \<Rightarrow> verification_config \<Rightarrow> limiter_config \<Rightarrow> datetime \<Rightarrow> pyval \<Rightarrow> buckets \<Rightarrow> 'c \<Rightarrow> 'k \<Rightarrow>
   (exn + verification_result) \<times> buckets \<times> 'c \<times> 'k" where
  "limited_try_verify P D cfg C current v B c k =
     (case limited_verify P D cfg C current v B c k of
        (Inl e, st) \<Rightarrow> (if is_eve e then Inr \<lparr>vr_ok = False, vr_claims = None\<rparr> else Inl e, st)
      | (Inr claims, st) \<Rightarrow> (Inr \<lparr>vr_ok = True, vr_claims = Some claims\<rparr>, st))"


section \<open>The bucket is a sliding window\<close>

interpretation bucket: sliding_window "bucket_step w l" "\<lambda>q. q" w "nat l" True for w l
  by unfold_locales (auto simp: bucket_step_def Let_def trim_before_filter)

text \<open>A history of checks: identities and times, with the verdicts.\<close>

fun check_all :: "limiter_config \<Rightarrow> (string \<times> datetime) list \<Rightarrow> buckets \<Rightarrow> (string \<times> datetime \<times> bool) list" where
  "check_all C [] B = []"
| "check_all C ((ident, t) # evs) B =
     (case limiter_check C ident t B of (d, B') \<Rightarrow> (ident, t, rld_allowed d) # check_all C evs B')"

definition allowed_times :: "string \<Rightarrow> (string \<times> datetime \<times> bool) list \<Rightarrow> datetime list" where
  "allowed_times ident vs = map (\<lambda>(i, t, ok). t) (filter (\<lambda>(i, t, ok). i = ident \<and> ok) vs)"

definition bucket_of :: "buckets \<Rightarrow> string \<Rightarrow> datetime list" where
  "bucket_of B ident = (case B ident of None \<Rightarrow> [] | Some q \<Rightarrow> q)"

lemma limiter_check_bucket:
  "limiter_check C ident t B = (d, B') \<Longrightarrow>
   bucket_step (lc_window C) (effective_limit C ident) t (bucket_of B ident) = (rld_allowed d, bucket_of B' ident) \<and>
   (\<forall>i. i \<noteq> ident \<longrightarrow> B' i = B i)"
  by (auto simp: limiter_check_def Let_def bucket_of_def split: prod.splits if_splits)

lemma allowed_times_granted:
  "allowed_times ident (check_all C evs B) =
     bucket.granted_times (lc_window C) (effective_limit C ident)
       (map snd (filter (\<lambda>e. fst e = ident) evs)) (bucket_of B ident)"
proof (induction evs arbitrary: B)
  case (Cons e evs)
  obtain i t where e: "e = (i, t)" by fastforce
  obtain d B' where c: "limiter_check C i t B = (d, B')" by fastforce
  have "bucket_of B' ident = bucket_of B ident" if "i \<noteq> ident"
    using limiter_check_bucket[OF c] that by (simp add: bucket_of_def)
  then show ?case using Cons.IH[of B'] limiter_check_bucket[OF c] c e
    by (auto simp: allowed_times_def)
qed (simp add: allowed_times_def)

text \<open>C24. The limiter keeps its promise: over any history of checks of any identities with a clock that
  does not run backwards, an identity is allowed at most its limit of requests in every window.\<close>

theorem rate_limit_respected:
  assumes "build_rate_limiter limit window overrides = Inr C" "sorted (map snd evs)"
  shows "int (length (filter (\<lambda>t. a \<le> t \<and> t \<le> a + window) (allowed_times ident (check_all C evs Map.empty))))
    \<le> effective_limit C ident"
proof -
  have w: "lc_window C = window" "0 < window" and l: "1 \<le> effective_limit C ident"
    using assms(1) by (auto simp: build_rate_limiter_def effective_limit_def list_all_iff not_less
        split: if_splits option.splits dest!: map_of_SomeD)
  have "sorted (map snd (filter (\<lambda>e. fst e = ident) evs))" using assms(2) by (rule sorted_filter)
  from bucket.window_limit[OF w(2) _ this, of "[]" a "effective_limit C ident"]
  show ?thesis using l by (simp add: allowed_times_granted w(1) bucket_of_def)
qed

text \<open>Only an envelope that verifies uses up its sender's allowance: after a failed verification the
  limiter is unchanged; an accepted envelope was accepted by the inner verifier and within its
  sender's limit, and no other identity's bucket moved.\<close>

lemma limiter_after_authentication:
  assumes "limited_verify P D cfg C t v B c k = (r, B', c', k')"
  shows "(B' = B \<or> returned (fst (verify_envelope P D cfg t v c k))) \<and>
    (\<forall>i. i \<noteq> sender_of v \<longrightarrow> B' i = B i) \<and>
    (\<forall>cl. r = Inr cl \<longrightarrow> verify_envelope P D cfg t v c k = (Inr cl, c', k') \<and>
       int (length (bucket_of B' (sender_of v))) \<le> effective_limit C (sender_of v))"
proof -
  obtain r0 c0 k0 where inner: "verify_envelope P D cfg t v c k = (r0, c0, k0)" by (cases "verify_envelope P D cfg t v c k")
  show ?thesis
  proof (cases r0)
    case (Inl e)
    then show ?thesis using assms inner by (auto simp: limited_verify_def)
  next
    case (Inr claims)
    obtain d B1 where chk: "limiter_check C (sender_of v) t B = (d, B1)" by fastforce
    have b: "B' = B1" "c' = c0" "k' = k0" "\<And>cl. r = Inr cl \<Longrightarrow> cl = claims \<and> rld_allowed d"
      using assms inner Inr chk by (auto simp: limited_verify_def split: if_splits)
    note s = limiter_check_bucket[OF chk]
    have "int (length (bucket_of B1 (sender_of v))) \<le> effective_limit C (sender_of v)" if "rld_allowed d"
    proof -
      have "bucket_of B1 (sender_of v) =
          snd (bucket_step (lc_window C) (effective_limit C (sender_of v)) t (bucket_of B (sender_of v)))"
        "fst (bucket_step (lc_window C) (effective_limit C (sender_of v)) t (bucket_of B (sender_of v)))"
        using s that by simp_all
      then show ?thesis by (simp add: bucket_step_def Let_def)
    qed
    then show ?thesis using b s inner Inr by auto
  qed
qed

definition demo_limiter :: limiter_config where
  "demo_limiter = \<lparr>lc_limit = 1, lc_window = seconds 60, lc_overrides = []\<rparr>"

theorem rate_limit_respected_witness:
  "length (filter (\<lambda>t. 0 \<le> t \<and> t \<le> seconds 60)
     (allowed_times ''spiffe://a'' (check_all demo_limiter [(''spiffe://a'', 0), (''spiffe://a'', 1)] Map.empty))) \<le> 1"
proof -
  have "build_rate_limiter 1 (seconds 60) [] = Inr demo_limiter"
    by (simp add: build_rate_limiter_def demo_limiter_def seconds_def)
  from rate_limit_respected[OF this, of "[(''spiffe://a'', 0), (''spiffe://a'', 1)]" 0 "''spiffe://a''"]
  show ?thesis by (simp add: effective_limit_def demo_limiter_def)
qed

end
