(* ===== verification/Discovery.thy ===== *)
theory Discovery
  imports Artifact Demo
begin

text \<open>
  Discovery records (\<open>discovery_record.py\<close>) and the integrity of their propagation
  (\<open>discovery_propagation.py\<close>): a signed record of a workload's endpoints, its verification with one
  audit event per call, the tracker that refuses records that are not newer, the limiter of
  republications, and the gate that composes the two. Records decoded from JSON have unchecked
  fields.
\<close>

section \<open>Records\<close>

record discovery_record =
  di_version :: pyval
  di_workload_iss :: pyval
  di_workload_kid :: pyval
  di_endpoints :: "pyval list"
  di_issuer_iss :: pyval
  di_issuer_kid :: pyval
  di_issued_at :: pyval
  di_expires_at :: pyval
  di_signature :: pyval

abbreviation dierr :: "deny_reason \<Rightarrow> exn" where
  "dierr \<equiv> raise_as DiscoveryRecordError"

definition discovery_body :: "discovery_record \<Rightarrow> pyval" where
  "discovery_body r =
     PDict [(''typ'', PStr ''wt-discovery-record/v0''), (''version'', di_version r),
            (''workload_iss'', di_workload_iss r), (''workload_kid'', di_workload_kid r),
            (''endpoints'', PList (di_endpoints r)), (''issuer_iss'', di_issuer_iss r),
            (''issuer_kid'', di_issuer_kid r), (''issued_at'', di_issued_at r),
            (''expires_at'', di_expires_at r)]"

definition sign_record :: "platform \<Rightarrow> (string \<Rightarrow> string) \<Rightarrow> discovery_record \<Rightarrow> exn + discovery_record" where
  "sign_record P sign r = bindE (sign_body P sign (discovery_body r)) (\<lambda>s. Inr (r\<lparr>di_signature := s\<rparr>))"

text \<open>\<open>to_dict\<close>, whose compact JSON is what \<open>to_json\<close> writes.\<close>

definition discovery_object :: "discovery_record \<Rightarrow> pyval" where
  "discovery_object r =
     PDict [(''version'', di_version r), (''workload_iss'', di_workload_iss r), (''workload_kid'', di_workload_kid r),
            (''endpoints'', PList (di_endpoints r)), (''issuer_iss'', di_issuer_iss r), (''issuer_kid'', di_issuer_kid r),
            (''issued_at'', di_issued_at r), (''expires_at'', di_expires_at r), (''signature'', di_signature r)]"

definition discovery_fields :: "string list" where
  "discovery_fields =
     [''version'', ''workload_iss'', ''workload_kid'', ''endpoints'', ''issuer_iss'', ''issuer_kid'',
      ''issued_at'', ''expires_at'', ''signature'']"

definition discovery_from_json :: "platform \<Rightarrow> string \<Rightarrow> exn + discovery_record" where
  "discovery_from_json P data =
     (case p_json_loads P data of
        Inl e \<Rightarrow> if value_or_type_error e then Inl (dierr DISCOVERY_MALFORMED) else Inl e
      | Inr obj \<Rightarrow>
          if \<not> is_dict obj then Inl (dierr DISCOVERY_MALFORMED)
          else let d = dict_of obj in
            if \<not> list_all (has_key d) discovery_fields then Inl (dierr DISCOVERY_MALFORMED)
            else case item d ''endpoints'' of
              PList eps \<Rightarrow>
                Inr \<lparr>di_version = item d ''version'', di_workload_iss = item d ''workload_iss'',
                     di_workload_kid = item d ''workload_kid'', di_endpoints = eps,
                     di_issuer_iss = item d ''issuer_iss'', di_issuer_kid = item d ''issuer_kid'',
                     di_issued_at = item d ''issued_at'', di_expires_at = item d ''expires_at'',
                     di_signature = item d ''signature''\<rparr>
            | _ \<Rightarrow> Inl (dierr DISCOVERY_MALFORMED))"

interpretation records: signed_artifact discovery_body di_signature sign_record discovery_object discovery_from_json
  by unfold_locales (auto simp: sign_record_def discovery_body_def discovery_object_def discovery_from_json_def
      discovery_fields_def has_key_def item_def Let_def)

definition discovery_shape :: "discovery_record \<Rightarrow> exn + unit" where
  "discovery_shape r =
     (let m = dierr DISCOVERY_MALFORMED in
      guards
       ([(py_eq (di_version r) (PStr ''v0''), m),
         (str_test spiffe_id_re (di_workload_iss r), m), (str_test kid_re (di_workload_kid r), m),
         (str_test spiffe_id_re (di_issuer_iss r), m), (str_test kid_re (di_issuer_kid r), m),
         (di_endpoints r \<noteq> [], m)] @
        map (\<lambda>ep. (str_test (\<lambda>s. s \<noteq> []) ep, m)) (di_endpoints r)))"

record discovery_config =
  dic_max_clock_skew :: timedelta
  dic_max_record_ttl :: timedelta

definition DEFAULT_DISCOVERY_CONFIG :: discovery_config where
  "DEFAULT_DISCOVERY_CONFIG = \<lparr>dic_max_clock_skew = seconds 60, dic_max_record_ttl = hours 1\<rparr>"

definition discovery_window :: "platform \<Rightarrow> discovery_record \<Rightarrow> discovery_config \<Rightarrow> datetime \<Rightarrow> exn + unit" where
  "discovery_window P r cfg current =
     bindE (catch_all (dierr DISCOVERY_MALFORMED) (parse_rfc3339 P (di_issued_at r))) (\<lambda>issued_at.
     bindE (catch_all (dierr DISCOVERY_MALFORMED) (parse_rfc3339 P (di_expires_at r))) (\<lambda>expires_at.
     guards
      [(\<not> expires_at \<le> issued_at, dierr DISCOVERY_EXPIRED),
       (\<not> expires_at - issued_at > dic_max_record_ttl cfg, dierr DISCOVERY_EXPIRED),
       (\<not> issued_at - current > dic_max_clock_skew cfg, dierr DISCOVERY_EXPIRED),
       (\<not> current - expires_at > dic_max_clock_skew cfg, dierr DISCOVERY_EXPIRED)]))"

definition discovery_signature ::
  "platform \<Rightarrow> (string \<Rightarrow> string \<Rightarrow> exn + string) \<Rightarrow> discovery_record \<Rightarrow> exn + unit" where
  "discovery_signature P issuer_lookup r =
     bindE (catch_all (dierr DISCOVERY_MALFORMED) (decode_base64url (di_signature r))) (\<lambda>sig_bytes.
     bindE (catch_all (dierr DISCOVERY_UNKNOWN_ISSUER)
              (issuer_lookup (str_of (di_issuer_iss r)) (str_of (di_issuer_kid r)))) (\<lambda>pem.
     bindE (catch_all (dierr DISCOVERY_UNKNOWN_ISSUER) (load_ed25519_public_key P pem)) (\<lambda>key.
     bindE (p_canon P (discovery_body r)) (\<lambda>body.
     guard (p_verify P key sig_bytes body) (dierr DISCOVERY_SIGNATURE_INVALID)))))"

definition verify_record_inner ::
  "platform \<Rightarrow> (string \<Rightarrow> string \<Rightarrow> exn + string) \<Rightarrow> discovery_config \<Rightarrow> datetime \<Rightarrow> discovery_record \<Rightarrow>
   exn + discovery_record" where
  "verify_record_inner P issuer_lookup cfg current r =
     bindE (discovery_shape r) (\<lambda>_.
     bindE (guard (truthy (di_signature r)) (dierr DISCOVERY_MALFORMED)) (\<lambda>_.
     bindE (discovery_window P r cfg current) (\<lambda>_.
     bindE (discovery_signature P issuer_lookup r) (\<lambda>_. Inr r))))"

definition discovery_event :: "discovery_record \<Rightarrow> string \<Rightarrow> string \<Rightarrow> kwargs" where
  "discovery_event r outcome code =
     artifact_event ''discovery.verify'' ''wt-discovery-record/v0'' outcome code (PStr [])
       (di_workload_iss r) (PStr []) (di_workload_kid r) (di_issuer_iss r) (di_issuer_kid r)"

definition verify_record ::
  "platform \<Rightarrow> (string \<Rightarrow> string \<Rightarrow> exn + string) \<Rightarrow> discovery_config \<Rightarrow> 'k kw_sink \<Rightarrow> datetime \<Rightarrow>
   discovery_record \<Rightarrow> 'k \<Rightarrow> (exn + discovery_record) \<times> 'k" where
  "verify_record P issuer_lookup cfg sink current r k =
     (case verify_record_inner P issuer_lookup cfg current r of
        Inl e \<Rightarrow>
          if exn_cls e = DiscoveryRecordError then
            (case emit_raw sink (discovery_event r ''deny'' (reason_code e)) k of
               (Inl x, k') \<Rightarrow> (Inl x, k')
             | (Inr _, k') \<Rightarrow> (Inl e, k'))
          else (Inl e, k)
      | Inr a \<Rightarrow>
          (case emit_raw sink (discovery_event r ''allow'' ''ok'') k of
             (Inl x, k') \<Rightarrow> (Inl x, k')
           | (Inr _, k') \<Rightarrow> (Inr a, k')))"


section \<open>Propagation\<close>

abbreviation propagation_error :: exn where
  "propagation_error \<equiv> repo_error ''DiscoveryPropagationError''"

record propagation_decision =
  pd_allowed :: bool
  pd_reason_code :: string

definition propagation_ok :: propagation_decision where
  "propagation_ok = \<lparr>pd_allowed = True, pd_reason_code = ''ok''\<rparr>"

definition propagation_denied :: "deny_reason \<Rightarrow> propagation_decision" where
  "propagation_denied r = \<lparr>pd_allowed = False, pd_reason_code = deny_value r\<rparr>"

text \<open>A verified record, whose fields have their types: workload, key id and \<open>issued_at\<close>.\<close>

record fresh_record =
  fr_iss :: string
  fr_kid :: string
  fr_issued_at :: string

definition workload_key :: "fresh_record \<Rightarrow> string \<times> string" where
  "workload_key r = (fr_iss r, fr_kid r)"

text \<open>\<open>datetime.fromisoformat(s.replace("Z", "+00:00")).astimezone(UTC)\<close>: unlike \<open>parse_rfc3339\<close>, a
  naive value is read in the local time zone, whose offset is \<open>tz\<close>.\<close>

definition parse_local :: "platform \<Rightarrow> int \<Rightarrow> string \<Rightarrow> exn + datetime" where
  "parse_local P tz s =
     (case p_fromisoformat P (replace_Z s) of
        None \<Rightarrow> Inl (std_error ''ValueError'')
      | Some (Naive t) \<Rightarrow> astimezone_utc t tz
      | Some (Aware t off) \<Rightarrow> astimezone_utc t off)"

definition issued_time :: "platform \<Rightarrow> int \<Rightarrow> fresh_record \<Rightarrow> exn + datetime" where
  "issued_time P tz r =
     (case parse_local P tz (fr_issued_at r) of
        Inl e \<Rightarrow> if value_or_type_error e then Inl propagation_error else Inl e
      | Inr t \<Rightarrow> Inr t)"

type_synonym freshness = "string \<times> string \<rightharpoonup> datetime"

definition freshness_check :: "platform \<Rightarrow> int \<Rightarrow> fresh_record \<Rightarrow> freshness \<Rightarrow> exn + propagation_decision" where
  "freshness_check P tz r F =
     bindE (issued_time P tz r) (\<lambda>ts.
       Inr (case F (workload_key r) of
              None \<Rightarrow> propagation_ok
            | Some previous \<Rightarrow> if ts \<le> previous then propagation_denied DISCOVERY_REWOUND else propagation_ok))"

definition freshness_commit :: "platform \<Rightarrow> int \<Rightarrow> fresh_record \<Rightarrow> freshness \<Rightarrow> (exn + unit) \<times> freshness" where
  "freshness_commit P tz r F =
     (case issued_time P tz r of
        Inl e \<Rightarrow> (Inl e, F)
      | Inr ts \<Rightarrow>
          (case F (workload_key r) of
             None \<Rightarrow> (Inr (), F(workload_key r \<mapsto> ts))
           | Some previous \<Rightarrow> (Inr (), if ts > previous then F(workload_key r \<mapsto> ts) else F)))"

definition evict_older_than :: "datetime \<Rightarrow> freshness \<Rightarrow> freshness" where
  "evict_older_than cutoff F =
     (\<lambda>k. case F k of None \<Rightarrow> None | Some ts \<Rightarrow> if ts < cutoff then None else Some ts)"

text \<open>The limiter of republications.\<close>

record limiter_params =
  lp_window :: timedelta
  lp_max :: int

definition limiter_params_ok :: "limiter_params \<Rightarrow> bool" where
  "limiter_params_ok L \<longleftrightarrow> \<not> lp_window L \<le> 0 \<and> \<not> lp_max L < 1"

type_synonym republications = "string \<times> string \<rightharpoonup> datetime list"

definition propagation_check ::
  "limiter_params \<Rightarrow> fresh_record \<Rightarrow> datetime \<Rightarrow> republications \<Rightarrow> propagation_decision \<times> republications" where
  "propagation_check L r at_time Q =
     (case Q (workload_key r) of
        None \<Rightarrow> (propagation_ok, Q)
      | Some queue \<Rightarrow>
          let queue' = trim_before (at_time - lp_window L) queue in
          (if int (length queue') \<ge> lp_max L then propagation_denied DISCOVERY_RATE_LIMITED else propagation_ok,
           Q(workload_key r \<mapsto> queue')))"

definition propagation_commit :: "limiter_params \<Rightarrow> fresh_record \<Rightarrow> datetime \<Rightarrow> republications \<Rightarrow> republications" where
  "propagation_commit L r at_time Q =
     (let queue = (case Q (workload_key r) of None \<Rightarrow> [] | Some q \<Rightarrow> q) @ [at_time] in
      Q(workload_key r \<mapsto> trim_before (at_time - lp_window L) queue))"

text \<open>\<open>DiscoveryAdmissionGate\<close>: freshness and limiter together.\<close>

definition gate_evaluate ::
  "platform \<Rightarrow> int \<Rightarrow> limiter_params \<Rightarrow> fresh_record \<Rightarrow> datetime \<Rightarrow> freshness \<times> republications \<Rightarrow>
   (exn + propagation_decision) \<times> freshness \<times> republications" where
  "gate_evaluate P tz L r at_time st =
     (case st of (F, Q) \<Rightarrow>
        case freshness_check P tz r F of
          Inl e \<Rightarrow> (Inl e, F, Q)
        | Inr f \<Rightarrow>
            if \<not> pd_allowed f then (Inr f, F, Q)
            else case propagation_check L r at_time Q of
              (d, Q') \<Rightarrow> if \<not> pd_allowed d then (Inr d, F, Q') else (Inr propagation_ok, F, Q'))"

definition gate_admit ::
  "platform \<Rightarrow> int \<Rightarrow> limiter_params \<Rightarrow> fresh_record \<Rightarrow> datetime \<Rightarrow> freshness \<times> republications \<Rightarrow>
   (exn + propagation_decision) \<times> freshness \<times> republications" where
  "gate_admit P tz L r at_time st =
     (case gate_evaluate P tz L r at_time st of
        (Inl e, st') \<Rightarrow> (Inl e, st')
      | (Inr d, F, Q) \<Rightarrow>
          if pd_allowed d then
            (case freshness_commit P tz r F of
               (Inl e, F') \<Rightarrow> (Inl e, F', Q)
             | (Inr _, F') \<Rightarrow> (Inr d, F', propagation_commit L r at_time Q))
          else (Inr d, F, Q))"


section \<open>What a verified record establishes\<close>

lemma guards_append [simp]: "guards (gs @ hs) = Inr u \<longleftrightarrow> guards gs = Inr u \<and> guards hs = Inr u"
  by auto

definition discovery_ok ::
  "platform \<Rightarrow> (string \<Rightarrow> string \<Rightarrow> exn + string) \<Rightarrow> discovery_config \<Rightarrow> datetime \<Rightarrow> discovery_record \<Rightarrow> bool" where
  "discovery_ok P issuer_lookup cfg t r \<longleftrightarrow>
     (\<exists>iss. di_workload_iss r = PStr iss \<and> spiffe_id_re iss) \<and>
     (\<exists>kid. di_workload_kid r = PStr kid \<and> kid_re kid) \<and>
     di_endpoints r \<noteq> [] \<and> (\<forall>ep\<in>set (di_endpoints r). \<exists>s. ep = PStr s \<and> s \<noteq> []) \<and>
     (\<exists>ia ea. parse_rfc3339 P (di_issued_at r) = Inr ia \<and> parse_rfc3339 P (di_expires_at r) = Inr ea \<and>
        ia < ea \<and> ea - ia \<le> dic_max_record_ttl cfg \<and> ia \<le> t + dic_max_clock_skew cfg \<and>
        t \<le> ea + dic_max_clock_skew cfg) \<and>
     (\<exists>iss kid pem key raw body. di_issuer_iss r = PStr iss \<and> di_issuer_kid r = PStr kid \<and>
        issuer_lookup iss kid = Inr pem \<and> p_load_pem P pem = Inr (Ed25519Key key) \<and>
        decode_base64url (di_signature r) = Inr raw \<and> p_canon P (discovery_body r) = Inr body \<and>
        p_verify P key raw body)"

lemma discovery_shape_Inr:
  "discovery_shape r = Inr () \<longleftrightarrow>
     py_eq (di_version r) (PStr ''v0'') \<and> str_test spiffe_id_re (di_workload_iss r) \<and>
     str_test kid_re (di_workload_kid r) \<and> str_test spiffe_id_re (di_issuer_iss r) \<and>
     str_test kid_re (di_issuer_kid r) \<and> di_endpoints r \<noteq> [] \<and>
     (\<forall>ep\<in>set (di_endpoints r). str_test (\<lambda>s. s \<noteq> []) ep)"
  by (simp add: discovery_shape_def Let_def)

lemma discovery_signature_Inr:
  "discovery_signature P lookup r = Inr () \<longleftrightarrow>
     (\<exists>pem key raw body. lookup (str_of (di_issuer_iss r)) (str_of (di_issuer_kid r)) = Inr pem \<and>
        p_load_pem P pem = Inr (Ed25519Key key) \<and> decode_base64url (di_signature r) = Inr raw \<and>
        p_canon P (discovery_body r) = Inr body \<and> p_verify P key raw body)"
  by (auto simp: discovery_signature_def load_key_Inr)

text \<open>A record that was signed and sent is read and verified as it is, if its shape and window are right.\<close>

lemma published_record_verifies:
  assumes "sign_record P sign r = Inr r'" "key_pair P sign key" "p_json_loads P data = Inr (discovery_object r')"
    and "lookup (str_of (di_issuer_iss r)) (str_of (di_issuer_kid r)) = Inr pem" "p_load_pem P pem = Inr (Ed25519Key key)"
    and "discovery_shape r = Inr ()" "discovery_window P r cfg now = Inr ()"
  shows "bindE (discovery_from_json P data) (verify_record_inner P lookup cfg now) = Inr r'"
proof -
  have same: "discovery_body r' = discovery_body r" "\<exists>s. di_signature r' = PStr s \<and> s \<noteq> []"
    "discovery_shape r' = discovery_shape r" "discovery_window P r' cfg now = discovery_window P r cfg now"
    "di_issuer_iss r' = di_issuer_iss r" "di_issuer_kid r' = di_issuer_kid r"
    using assms(1,2) by (auto simp: sign_record_def sign_body_def discovery_body_def discovery_shape_def discovery_window_def
        key_pair_def b64url_nonempty)
  have "discovery_from_json P data = Inr r'" "signed_by P lookup (str_of (di_issuer_iss r)) (str_of (di_issuer_kid r))
      (di_signature r') (discovery_body r')"
    using records.transmitted[where issuer_lookup = lookup, OF assms(1,2,4,5,3)] by blast+
  then show ?thesis
    using same assms(6,7) by (auto simp: verify_record_inner_def discovery_signature_Inr signed_by_def)
qed

lemma verify_record_inner_ok: "verify_record_inner P lookup cfg t r = Inr r' \<Longrightarrow> r' = r \<and> discovery_ok P lookup cfg t r"
  by (auto simp: verify_record_inner_def discovery_shape_Inr discovery_signature_Inr discovery_window_def
      discovery_ok_def str_test_iff)

lemma verify_record_returned:
  "verify_record P lookup cfg sink t r k = (Inr r', k') \<Longrightarrow> verify_record_inner P lookup cfg t r = Inr r'"
  by (auto simp: verify_record_def split: sum.splits prod.splits if_splits)


text \<open>A record every check accepts.\<close>

definition demo_record :: discovery_record where
  "demo_record =
     \<lparr>di_version = PStr ''v0'', di_workload_iss = PStr ''spiffe://a'', di_workload_kid = PStr ''k'',
      di_endpoints = [PStr ''a:1''], di_issuer_iss = PStr ''spiffe://i'', di_issuer_kid = PStr ''ik'',
      di_issued_at = PStr ''t0'', di_expires_at = PStr ''t1'', di_signature = PStr ''AA''\<rparr>"

abbreviation demo_lookup :: "string \<Rightarrow> string \<Rightarrow> exn + string" where
  "demo_lookup \<equiv> \<lambda>iss kid. Inr ''pem''"

lemma demo_verified: "verify_record_inner demo_platform demo_lookup DEFAULT_DISCOVERY_CONFIG 0 demo_record = Inr demo_record"
proof -
  have "discovery_shape demo_record = Inr ()"
    by (simp add: discovery_shape_Inr demo_record_def pattern_defs)
  moreover have "discovery_window demo_platform demo_record DEFAULT_DISCOVERY_CONFIG 0 = Inr ()"
    by (simp add: discovery_window_def demo_record_def demo_platform_def parse_rfc3339_def astimezone_utc_def
        datetime_min_def datetime_max_def seconds_def hours_def minutes_def DEFAULT_DISCOVERY_CONFIG_def)
  moreover have "discovery_signature demo_platform demo_lookup demo_record = Inr ()"
    by (simp add: discovery_signature_Inr demo_record_def demo_platform_def decode_base64url_def b64_pad_def
        is_ascii_def b64_value_def numeral_2_eq_2 char_of_def Let_def)
  ultimately show ?thesis
    by (simp add: verify_record_inner_def) (simp add: demo_record_def guard_def)
qed


section \<open>Admission of republished records\<close>

text \<open>The limiter's check followed, if it allows, by its commit, on one workload's queue.\<close>

definition republication_step :: "limiter_params \<Rightarrow> datetime \<Rightarrow> datetime list \<Rightarrow> bool \<times> datetime list" where
  "republication_step L now q =
     (let q' = trim_before (now - lp_window L) q in
      if int (length q') \<ge> lp_max L then (False, q')
      else (True, trim_before (now - lp_window L) (q' @ [now])))"

lemma trim_before_same: "\<forall>t\<in>set q. cutoff \<le> t \<Longrightarrow> trim_before cutoff q = q"
  by (cases q) (auto simp: trim_before_def)

interpretation republication: sliding_window "republication_step L" "\<lambda>q. q" "lp_window L" "nat (lp_max L)" False
  for L
  by unfold_locales
     (auto simp: republication_step_def Let_def trim_before_filter trim_before_same split: if_splits)

definition queue_of :: "republications \<Rightarrow> string \<times> string \<Rightarrow> datetime list" where
  "queue_of Q k = (case Q k of None \<Rightarrow> [] | Some q \<Rightarrow> q)"

lemma republication_check:
  assumes "limiter_params_ok L" "propagation_check L r t Q = (d, Q')"
  shows "republication_step L t (queue_of Q (workload_key r)) =
      (pd_allowed d, if pd_allowed d then queue_of (propagation_commit L r t Q') (workload_key r)
                     else queue_of Q' (workload_key r))"
    "k \<noteq> workload_key r \<Longrightarrow> queue_of Q' k = queue_of Q k"
    "k \<noteq> workload_key r \<Longrightarrow> queue_of (propagation_commit L r t Q') k = queue_of Q k"
  using assms
  by (cases "Q (workload_key r)";
      auto simp: propagation_check_def propagation_commit_def republication_step_def queue_of_def Let_def
        propagation_ok_def propagation_denied_def limiter_params_ok_def trim_before_def split: if_splits)+

lemma gate_admit_cases:
  assumes "gate_admit P tz L r t (F, Q) = (res, F', Q')" "limiter_params_ok L"
  shows "(\<exists>d ts. res = Inr d \<and> pd_allowed d \<and> issued_time P tz r = Inr ts \<and>
      (\<forall>p. F (workload_key r) = Some p \<longrightarrow> p < ts) \<and> F' = F(workload_key r \<mapsto> ts) \<and>
      republication_step L t (queue_of Q (workload_key r)) = (True, queue_of Q' (workload_key r)) \<and>
      (\<forall>k. k \<noteq> workload_key r \<longrightarrow> queue_of Q' k = queue_of Q k)) \<or>
    ((\<forall>d. res = Inr d \<longrightarrow> \<not> pd_allowed d) \<and> F' = F \<and> (Q' = Q \<or>
      (republication_step L t (queue_of Q (workload_key r)) = (False, queue_of Q' (workload_key r)) \<and>
       (\<forall>k. k \<noteq> workload_key r \<longrightarrow> queue_of Q' k = queue_of Q k))))"
proof (cases "freshness_check P tz r F")
  case (Inl e)
  then show ?thesis using assms(1) by (auto simp: gate_admit_def gate_evaluate_def)
next
  case (Inr f)
  show ?thesis
  proof (cases "pd_allowed f")
    case False
    then show ?thesis using assms(1) Inr by (auto simp: gate_admit_def gate_evaluate_def)
  next
    case True
    obtain ts where i: "issued_time P tz r = Inr ts" and
      f: "f = (case F (workload_key r) of None \<Rightarrow> propagation_ok
            | Some previous \<Rightarrow> if ts \<le> previous then propagation_denied DISCOVERY_REWOUND else propagation_ok)"
      using Inr by (auto simp: freshness_check_def)
    have "\<forall>p. F (workload_key r) = Some p \<longrightarrow> p < ts"
      using True f by (auto simp: propagation_denied_def split: option.splits if_splits)
    note ts = i this
    obtain d Q1 where chk: "propagation_check L r t Q = (d, Q1)" by fastforce
    note q = republication_check[OF assms(2) chk]
    show ?thesis
    proof (cases "pd_allowed d")
      case ok: True
      have "freshness_commit P tz r F = (Inr (), F(workload_key r \<mapsto> ts))"
        using ts by (auto simp: freshness_commit_def split: option.splits)
      then have "res = Inr propagation_ok" "F' = F(workload_key r \<mapsto> ts)" "Q' = propagation_commit L r t Q1"
        using assms(1) Inr True chk ok by (auto simp: gate_admit_def gate_evaluate_def propagation_ok_def)
      then show ?thesis using ts q ok by (simp add: propagation_ok_def)
    next
      case no: False
      then have "res = Inr d" "F' = F" "Q' = Q1"
        using assms(1) Inr True chk by (auto simp: gate_admit_def gate_evaluate_def)
      then show ?thesis using q no by simp
    qed
  qed
qed

text \<open>A history of calls of \<open>admit\<close>: the records admitted, with the times of their admission.\<close>

fun gate_run ::
  "platform \<Rightarrow> int \<Rightarrow> limiter_params \<Rightarrow> (fresh_record \<times> datetime) list \<Rightarrow> freshness \<times> republications \<Rightarrow>
   (fresh_record \<times> datetime) list" where
  "gate_run P tz L [] st = []"
| "gate_run P tz L ((r, t) # evs) st =
     (case gate_admit P tz L r t st of
        (Inr d, st') \<Rightarrow> (if pd_allowed d then [(r, t)] else []) @ gate_run P tz L evs st'
      | (Inl e, st') \<Rightarrow> gate_run P tz L evs st')"

definition admitted_at :: "string \<times> string \<Rightarrow> (fresh_record \<times> datetime) list \<Rightarrow> datetime list" where
  "admitted_at k A = map snd (filter (\<lambda>e. workload_key (fst e) = k) A)"

definition issued_times :: "platform \<Rightarrow> int \<Rightarrow> string \<times> string \<Rightarrow> (fresh_record \<times> datetime) list \<Rightarrow> datetime list" where
  "issued_times P tz k A =
     map (\<lambda>e. case issued_time P tz (fst e) of Inr t \<Rightarrow> t | Inl _ \<Rightarrow> 0) (filter (\<lambda>e. workload_key (fst e) = k) A)"

lemma gate_run_step:
  obtains res F1 Q1 where "gate_admit P tz L r t (F, Q) = (res, F1, Q1)"
    "gate_run P tz L ((r, t) # evs) (F, Q) =
       (if \<exists>d. res = Inr d \<and> pd_allowed d then [(r, t)] else []) @ gate_run P tz L evs (F1, Q1)"
proof -
  obtain res F1 Q1 where "gate_admit P tz L r t (F, Q) = (res, F1, Q1)"
    by (cases "gate_admit P tz L r t (F, Q)")
  then show ?thesis using that by (cases res) auto
qed

declare gate_run.simps(2) [simp del]

lemma gate_run_window:
  assumes "limiter_params_ok L"
  shows "\<exists>nows. admitted_at k (gate_run P tz L evs (F, Q)) = republication.granted_times L nows (queue_of Q k) \<and>
    set nows \<subseteq> snd ` set evs \<and> (sorted (map snd evs) \<longrightarrow> sorted nows)"
proof (induction evs arbitrary: F Q)
  case Nil
  then show ?case by (intro exI[of _ "[]"]) (simp add: admitted_at_def)
next
  case (Cons e evs)
  obtain r t where e: "e = (r, t)" by fastforce
  obtain res F1 Q1 where adm: "gate_admit P tz L r t (F, Q) = (res, F1, Q1)"
    and run: "gate_run P tz L ((r, t) # evs) (F, Q) =
       (if \<exists>d. res = Inr d \<and> pd_allowed d then [(r, t)] else []) @ gate_run P tz L evs (F1, Q1)"
    by (rule gate_run_step)
  obtain nows where n: "admitted_at k (gate_run P tz L evs (F1, Q1)) = republication.granted_times L nows (queue_of Q1 k)"
    "set nows \<subseteq> snd ` set evs" "sorted (map snd evs) \<longrightarrow> sorted nows"
    using Cons.IH by blast
  have here: "\<exists>nows'. admitted_at k (gate_run P tz L (e # evs) (F, Q)) = republication.granted_times L nows' (queue_of Q k) \<and>
      set nows' \<subseteq> snd ` set (e # evs) \<and> (sorted (map snd (e # evs)) \<longrightarrow> sorted nows')"
    if "admitted_at k (gate_run P tz L (e # evs) (F, Q)) = republication.granted_times L (t # nows) (queue_of Q k)"
    using that n(2,3) e by (intro exI[of _ "t # nows"]) auto
  have skip: ?case if "admitted_at k (gate_run P tz L (e # evs) (F, Q)) = republication.granted_times L nows (queue_of Q k)"
    using that n(2,3) e by (intro exI[of _ nows]) auto
  from gate_admit_cases[OF adm assms] show ?case
  proof (elim disjE exE conjE, goal_cases)
    case (1 d ts)
    show ?case
    proof (cases "workload_key r = k")
      case True
      show ?thesis by (rule here) (use 1 True run e n(1) in \<open>simp add: admitted_at_def\<close>)
    next
      case False
      then have q: "queue_of Q1 k = queue_of Q k" using 1 by metis
      show ?thesis by (rule skip) (use 1(1,2) False run e n(1) q in \<open>simp add: admitted_at_def\<close>)
    qed
  next
    case 2
    show ?case by (rule skip) (use 2 run e n(1) in auto)
  next
    case 3
    show ?case
    proof (cases "workload_key r = k")
      case True
      show ?thesis by (rule here) (use 3 True run e n(1) in \<open>auto simp: admitted_at_def\<close>)
    next
      case False
      then have q: "queue_of Q1 k = queue_of Q k" using 3 by metis
      show ?thesis by (rule skip) (use 3(1) run e n(1) q in auto)
    qed
  qed
qed

lemma gate_run_fresh:
  assumes "limiter_params_ok L"
  shows "sorted_wrt (<) (issued_times P tz k (gate_run P tz L evs (F, Q))) \<and>
    (\<forall>p. F k = Some p \<longrightarrow> (\<forall>t\<in>set (issued_times P tz k (gate_run P tz L evs (F, Q))). p < t))"
proof (induction evs arbitrary: F Q)
  case (Cons e evs)
  obtain r t where e: "e = (r, t)" by fastforce
  obtain res F1 Q1 where adm: "gate_admit P tz L r t (F, Q) = (res, F1, Q1)"
    and run: "gate_run P tz L ((r, t) # evs) (F, Q) =
       (if \<exists>d. res = Inr d \<and> pd_allowed d then [(r, t)] else []) @ gate_run P tz L evs (F1, Q1)"
    by (rule gate_run_step)
  note IH = Cons.IH[of F1 Q1]
  from gate_admit_cases[OF adm assms] show ?case
  proof (elim disjE exE conjE, goal_cases)
    case (1 d ts)
    then have eq: "issued_times P tz k (gate_run P tz L (e # evs) (F, Q)) =
        (if workload_key r = k then [ts] else []) @ issued_times P tz k (gate_run P tz L evs (F1, Q1))"
      using run e by (simp add: issued_times_def)
    show ?case
    proof (cases "workload_key r = k")
      case True
      then have "F1 k = Some ts" using 1 by simp
      then have tl: "\<forall>t\<in>set (issued_times P tz k (gate_run P tz L evs (F1, Q1))). ts < t" using IH by blast
      have "\<forall>p. F k = Some p \<longrightarrow> p < ts" using 1 True by blast
      then show ?thesis using IH tl True by (auto simp: eq)
    next
      case False
      then have "F1 k = F k" using 1 by simp
      then show ?thesis using IH False by (simp add: eq)
    qed
  qed (use IH run e in auto)
qed (simp add: issued_times_def)


text \<open>The admission gate for discovery records cannot be rolled back or flooded: over any history
  of calls, the records it admits for one workload have strictly increasing \<open>issued_at\<close>, and with a
  clock that does not run backwards every window holds at most the configured number of them.\<close>

lemma gate_respected:
  assumes "limiter_params_ok L" "sorted (map snd evs)"
  shows "sorted_wrt (<) (issued_times P tz k (gate_run P tz L evs (Map.empty, Map.empty))) \<and>
    int (length (filter (\<lambda>t. a \<le> t \<and> t \<le> a + lp_window L)
      (admitted_at k (gate_run P tz L evs (Map.empty, Map.empty))))) \<le> lp_max L"
proof -
  have w: "0 < lp_window L" "1 \<le> lp_max L" using assms(1) by (auto simp: limiter_params_ok_def)
  obtain nows where "admitted_at k (gate_run P tz L evs (Map.empty, Map.empty)) = republication.granted_times L nows []"
    "sorted nows"
    using gate_run_window[OF assms(1), of k P tz evs Map.empty Map.empty] assms(2) by (auto simp: queue_of_def)
  then show ?thesis
    using republication.window_limit[OF w(1), of "[]" nows a] w(2) gate_run_fresh[OF assms(1)] by simp
qed

end
