(* ===== verification/Eclipse.thy ===== *)
theory Eclipse
  imports Platform "HOL-Library.List_Lexorder" "HOL-Library.Char_ord" "HOL-Library.Product_Lexorder"
begin

text \<open>
  Neighbor selection with bounded trust-domain share (\<open>eclipse_resistance.py\<close>) and the surge
  detector. \<open>rnd\<close> is the rounding of a real number to a float: candidates are ordered by the float
  that \<open>datetime.timestamp\<close> returns.
\<close>

section \<open>Candidates and rules\<close>

text \<open>\<open>trust_domain_of\<close> of \<open>audit_query.py\<close>: the pattern \<open>^spiffe://([^/]+)\<close>.\<close>

definition trust_domain_of :: "string \<Rightarrow> string option" where
  "trust_domain_of s =
     (if take 9 s = spiffe_prefix then
        (let host = takeWhile (\<lambda>c. c \<noteq> CHR ''/'') (drop 9 s) in if host = [] then None else Some host)
      else None)"

record candidate =
  nc_iss :: string
  nc_kid :: string
  nc_last_seen :: datetime

abbreviation eclipse_error :: exn where
  "eclipse_error \<equiv> repo_error ''EclipseResistanceError''"

definition new_candidate :: "string \<Rightarrow> string \<Rightarrow> datetime \<Rightarrow> exn + candidate" where
  "new_candidate iss kid last_seen =
     (if \<not> spiffe_id_re iss then Inl eclipse_error
      else if \<not> kid_re kid then Inl eclipse_error
      else Inr \<lparr>nc_iss = iss, nc_kid = kid, nc_last_seen = last_seen\<rparr>)"

definition trust_domain :: "candidate \<Rightarrow> string" where
  "trust_domain c = (case trust_domain_of (nc_iss c) of None \<Rightarrow> [] | Some td \<Rightarrow> td)"

record diversity_rule =
  dv_target_count :: int
  dv_max_per_trust_domain :: int
  dv_min_distinct :: int

definition diversity_rule_ok :: "diversity_rule \<Rightarrow> bool" where
  "diversity_rule_ok r \<longleftrightarrow>
     1 \<le> dv_target_count r \<and> 1 \<le> dv_max_per_trust_domain r \<and> 1 \<le> dv_min_distinct r \<and>
     dv_min_distinct r \<le> dv_target_count r"

record neighbor_selection =
  ns_selected :: "candidate list"
  ns_rejected :: "(candidate \<times> string) list"
  ns_diversity_shortfall :: bool
  ns_target_shortfall :: bool
  ns_samplers_identical :: "bool option"


section \<open>Selection\<close>

definition freshness_key :: "(rat \<Rightarrow> rat) \<Rightarrow> candidate \<Rightarrow> rat \<times> string" where
  "freshness_key rnd c = (- rnd (of_int (nc_last_seen c) / 1000000), nc_iss c)"

text \<open>The walk over the ordered candidates; \<open>per_td\<close> is the counter of the admitted ones.\<close>

fun select_walk ::
  "diversity_rule \<Rightarrow> candidate list \<Rightarrow> candidate list \<Rightarrow> (candidate \<times> string) list \<Rightarrow> (string \<Rightarrow> nat) \<Rightarrow>
   candidate list \<times> (candidate \<times> string) list" where
  "select_walk rule [] selected rejected per_td = (selected, rejected)"
| "select_walk rule (c # cs) selected rejected per_td =
     (if int (length selected) \<ge> dv_target_count rule then
        select_walk rule cs selected (rejected @ [(c, ''diversity_target_reached'')]) per_td
      else if int (per_td (trust_domain c)) \<ge> dv_max_per_trust_domain rule then
        select_walk rule cs selected (rejected @ [(c, ''diversity_per_domain_cap'')]) per_td
      else select_walk rule cs (selected @ [c]) rejected
             (per_td(trust_domain c := per_td (trust_domain c) + 1)))"

definition normalize_sampler_pools :: "(string \<times> candidate list) list \<Rightarrow> exn + (string \<times> candidate list) list" where
  "normalize_sampler_pools pools = (if \<exists>p\<in>set pools. fst p = [] then Inl eclipse_error else Inr pools)"

definition samplers_identical_flag :: "(string \<times> candidate list) list \<Rightarrow> bool option" where
  "samplers_identical_flag pools =
     (if length pools < 2 then None
      else let sets = map (\<lambda>p. set (map (\<lambda>c. (nc_iss c, nc_kid c)) (snd p))) pools in
        Some (list_all (\<lambda>s. s = hd sets) (tl sets)))"

definition select_neighbors ::
  "(rat \<Rightarrow> rat) \<Rightarrow> candidate list \<Rightarrow> diversity_rule \<Rightarrow> (string \<times> candidate list) list option \<Rightarrow>
   exn + neighbor_selection" where
  "select_neighbors rnd candidates rule sampler_pools =
     bindE (case sampler_pools of
              None \<Rightarrow> Inr None
            | Some pools \<Rightarrow> bindE (normalize_sampler_pools pools) (\<lambda>ps. Inr (samplers_identical_flag ps)))
       (\<lambda>identical.
        let (selected, rejected) =
              select_walk rule (sort_key (freshness_key rnd) candidates) [] [] (\<lambda>_. 0);
            distinct_domains = length (remdups (filter (\<lambda>td. td \<noteq> []) (map trust_domain selected)))
        in Inr \<lparr>ns_selected = selected, ns_rejected = rejected,
                ns_diversity_shortfall = (int distinct_domains < dv_min_distinct rule),
                ns_target_shortfall = (int (length selected) < dv_target_count rule),
                ns_samplers_identical = identical\<rparr>)"

definition detect_surges ::
  "candidate list \<Rightarrow> datetime \<Rightarrow> datetime \<Rightarrow> int \<Rightarrow> exn + (string \<times> nat) list" where
  "detect_surges candidates window_start window_end surge_threshold =
     (if surge_threshold < 1 then Inl eclipse_error
      else if window_start > window_end then Inl eclipse_error
      else let tds = map trust_domain (filter (\<lambda>c. window_start \<le> nc_last_seen c \<and>
                 nc_last_seen c \<le> window_end \<and> trust_domain c \<noteq> []) candidates) in
        Inr (filter (\<lambda>(td, n). int n \<ge> surge_threshold)
               (map (\<lambda>td. (td, count_list tds td)) (sort (remdups tds)))))"


section \<open>Facts\<close>

definition in_domain :: "string \<Rightarrow> candidate list \<Rightarrow> nat" where
  "in_domain td cs = length (filter (\<lambda>c. trust_domain c = td) cs)"

lemma select_walk_facts:
  assumes "select_walk rule cs selected rejected per_td = (sel, rej)"
    and "\<And>td. per_td td = in_domain td selected"
    and "int (length selected) \<le> dv_target_count rule"
    and "\<And>td. int (in_domain td selected) \<le> dv_max_per_trust_domain rule"
  shows "int (length sel) \<le> dv_target_count rule \<and>
    (\<forall>td. int (in_domain td sel) \<le> dv_max_per_trust_domain rule) \<and>
    set selected \<subseteq> set sel \<and> set sel \<subseteq> set selected \<union> set cs \<and>
    (\<forall>c\<in>set cs. c \<in> set sel \<or> int (length sel) \<ge> dv_target_count rule \<or>
       int (in_domain (trust_domain c) sel) \<ge> dv_max_per_trust_domain rule)"
  using assms
proof (induction cs arbitrary: selected rejected per_td)
  case (Cons c cs)
  consider (full) "int (length selected) \<ge> dv_target_count rule"
    | (capped) "int (length selected) < dv_target_count rule"
        "int (per_td (trust_domain c)) \<ge> dv_max_per_trust_domain rule"
    | (taken) "int (length selected) < dv_target_count rule"
        "int (per_td (trust_domain c)) < dv_max_per_trust_domain rule"
    by linarith
  then show ?case
  proof cases
    case full
    then have run: "select_walk rule cs selected (rejected @ [(c, ''diversity_target_reached'')]) per_td = (sel, rej)"
      using Cons.prems(1) by simp
    note IH = Cons.IH[OF run Cons.prems(2,3,4)]
    have "length selected \<le> length sel"
    proof -
      have "length selected \<le> length s" if "select_walk rule xs selected r p = (s, r')" for xs r p s r'
        using that full by (induction xs arbitrary: r) auto
      then show ?thesis using run by blast
    qed
    then show ?thesis using IH full by auto
  next
    case capped
    then have run: "select_walk rule cs selected (rejected @ [(c, ''diversity_per_domain_cap'')]) per_td = (sel, rej)"
      using Cons.prems(1) by simp
    note IH = Cons.IH[OF run Cons.prems(2,3,4)]
    have mono: "in_domain td s0 \<le> in_domain td s" if "select_walk rule xs s0 r p = (s, r')" for xs s0 r p s r' td
      using that
    proof (induction xs arbitrary: s0 r p)
      case (Cons x xs)
      then have "in_domain td s0 \<le> in_domain td s \<or> in_domain td (s0 @ [x]) \<le> in_domain td s"
        by (auto split: if_splits)
      then show ?case by (auto simp: in_domain_def split: if_splits)
    qed (simp add: in_domain_def)
    have "int (in_domain (trust_domain c) sel) \<ge> dv_max_per_trust_domain rule"
      using capped(2) Cons.prems(2) mono[OF run, of "trust_domain c"] by simp
    then show ?thesis using IH by auto
  next
    case taken
    let ?p = "per_td(trust_domain c := per_td (trust_domain c) + 1)"
    have run: "select_walk rule cs (selected @ [c]) rejected ?p = (sel, rej)"
      using Cons.prems(1) taken by simp
    have "?p td = in_domain td (selected @ [c])" for td
      using Cons.prems(2) by (simp add: in_domain_def)
    moreover have "int (length (selected @ [c])) \<le> dv_target_count rule" using taken by simp
    moreover have "int (in_domain td (selected @ [c])) \<le> dv_max_per_trust_domain rule" for td
      using Cons.prems(2,4) taken(2) by (auto simp: in_domain_def)
    ultimately show ?thesis using Cons.IH[OF run] by auto
  qed
qed auto

lemma select_neighbors_walk:
  "select_neighbors rnd cs rule pools = Inr s \<Longrightarrow>
   \<exists>rej. select_walk rule (sort_key (freshness_key rnd) cs) [] [] (\<lambda>_. 0) = (ns_selected s, rej)"
  by (cases "select_walk rule (sort_key (freshness_key rnd) cs) [] [] (\<lambda>_. 0)")
     (auto simp: select_neighbors_def Let_def)

lemma select_neighbors_facts:
  assumes "select_neighbors rnd cs rule pools = Inr s" "0 \<le> dv_target_count rule" "0 \<le> dv_max_per_trust_domain rule"
  shows "int (length (ns_selected s)) \<le> dv_target_count rule"
    "int (in_domain td (ns_selected s)) \<le> dv_max_per_trust_domain rule"
    "set (ns_selected s) \<subseteq> set cs"
    "c \<in> set cs \<Longrightarrow> c \<in> set (ns_selected s) \<or> int (length (ns_selected s)) \<ge> dv_target_count rule \<or>
       int (in_domain (trust_domain c) (ns_selected s)) \<ge> dv_max_per_trust_domain rule"
proof -
  obtain rej where "select_walk rule (sort_key (freshness_key rnd) cs) [] [] (\<lambda>_. 0) = (ns_selected s, rej)"
    using select_neighbors_walk[OF assms(1)] by blast
  from select_walk_facts[OF this] assms(2,3)
  show "int (length (ns_selected s)) \<le> dv_target_count rule"
    "int (in_domain td (ns_selected s)) \<le> dv_max_per_trust_domain rule"
    "set (ns_selected s) \<subseteq> set cs"
    "c \<in> set cs \<Longrightarrow> c \<in> set (ns_selected s) \<or> int (length (ns_selected s)) \<ge> dv_target_count rule \<or>
       int (in_domain (trust_domain c) (ns_selected s)) \<ge> dv_max_per_trust_domain rule"
    by (auto simp: in_domain_def)
qed

lemma domains_sum:
  "finite D \<Longrightarrow> length (filter (\<lambda>c. trust_domain c \<in> D) cs) = (\<Sum>td\<in>D. in_domain td cs)"
proof (induction cs)
  case (Cons c cs)
  have "(\<Sum>td\<in>D. in_domain td (c # cs)) = (\<Sum>td\<in>D. (if trust_domain c = td then 1 else 0) + in_domain td cs)"
    by (intro sum.cong) (auto simp: in_domain_def)
  then show ?case using Cons by (simp add: sum.distrib)
qed (simp add: in_domain_def)

text \<open>Eclipse resistance: whatever candidates are offered, an adversary who controls the trust
  domains \<open>D\<close> gets at most \<open>max_per_trust_domain\<close> seats for each of them; the selection takes
  candidates only, stays within the target, and leaves one out only when the target is reached
  or its domain is full.\<close>

lemma select_neighbors_share:
  assumes "select_neighbors rnd candidates rule pools = Inr s" "diversity_rule_ok rule" "finite D"
  shows "int (length (filter (\<lambda>c. trust_domain c \<in> D) (ns_selected s))) \<le> int (card D) * dv_max_per_trust_domain rule \<and>
    int (length (ns_selected s)) \<le> dv_target_count rule \<and> set (ns_selected s) \<subseteq> set candidates \<and>
    (\<forall>c\<in>set candidates. c \<in> set (ns_selected s) \<or> int (length (ns_selected s)) = dv_target_count rule \<or>
       int (in_domain (trust_domain c) (ns_selected s)) = dv_max_per_trust_domain rule)"
proof -
  have pos: "0 \<le> dv_target_count rule" "0 \<le> dv_max_per_trust_domain rule"
    using assms(2) by (auto simp: diversity_rule_ok_def)
  note f = select_neighbors_facts[OF assms(1) pos]
  have "int (length (filter (\<lambda>c. trust_domain c \<in> D) (ns_selected s))) =
      (\<Sum>td\<in>D. int (in_domain td (ns_selected s)))"
    using domains_sum[OF assms(3)] by simp
  also have "\<dots> \<le> (\<Sum>td\<in>D. dv_max_per_trust_domain rule)" by (intro sum_mono f(2))
  finally have share: "int (length (filter (\<lambda>c. trust_domain c \<in> D) (ns_selected s))) \<le>
      int (card D) * dv_max_per_trust_domain rule" by simp
  have "c \<in> set (ns_selected s) \<or> int (length (ns_selected s)) = dv_target_count rule \<or>
      int (in_domain (trust_domain c) (ns_selected s)) = dv_max_per_trust_domain rule"
    if "c \<in> set candidates" for c
    using f(4)[OF that] f(1) f(2)[of "trust_domain c"] by linarith
  then show ?thesis using share f(1,3) by simp
qed

end
