(* ===== verification/Transport.thy ===== *)
theory Transport
  imports Platform
begin

text \<open>
  The transport layer of the mesh (\<open>transport.py\<close>): frames, the in-process switchboard and the
  endpoint over it. A \<open>Transport\<close> is any pair of operations on a network state \<open>'t\<close>; the mesh
  components take one as an argument. The locale \<open>mailbox_network\<close> is what a first-in first-out
  network promises; the switchboard is its interpretation. \<open>codec\<close> holds the functions of the
  \<open>json\<close> and \<open>base64\<close> modules that the wire formats use.
\<close>

section \<open>Frames and endpoints\<close>

record frame =
  fr_source :: string
  fr_payload :: string

abbreviation transport_error :: exn where
  "transport_error \<equiv> \<lparr>exn_cls = TransportError, exn_reason = None\<rparr>"

record 't transport =
  tr_send :: "string \<Rightarrow> string \<Rightarrow> 't \<Rightarrow> (exn + unit) \<times> 't"
  tr_receive :: "'t \<Rightarrow> (exn + frame option) \<times> 't"

record codec =
  json_loads :: "string \<Rightarrow> exn + pyval"
  json_dumps :: "pyval \<Rightarrow> string"
  b64encode :: "string \<Rightarrow> string"
  b64decode :: "string \<Rightarrow> string option"


section \<open>The switchboard\<close>

type_synonym switchboard = "string \<rightharpoonup> frame list"

definition sb_register :: "string \<Rightarrow> switchboard \<Rightarrow> (exn + unit) \<times> switchboard" where
  "sb_register address sb =
     (if address = [] then (Inl transport_error, sb)
      else if sb address \<noteq> None then (Inl transport_error, sb)
      else (Inr (), sb(address \<mapsto> [])))"

definition sb_deliver :: "string \<Rightarrow> frame \<Rightarrow> switchboard \<Rightarrow> (exn + unit) \<times> switchboard" where
  "sb_deliver dest f sb =
     (case sb dest of
        None \<Rightarrow> (Inl transport_error, sb)
      | Some mailbox \<Rightarrow> (Inr (), sb(dest \<mapsto> mailbox @ [f])))"

definition sb_drain_one :: "string \<Rightarrow> switchboard \<Rightarrow> (exn + frame option) \<times> switchboard" where
  "sb_drain_one address sb =
     (case sb address of
        None \<Rightarrow> (Inl transport_error, sb)
      | Some [] \<Rightarrow> (Inr None, sb)
      | Some (f # mailbox) \<Rightarrow> (Inr (Some f), sb(address \<mapsto> mailbox)))"

text \<open>\<open>InMemoryTransport\<close>: its address is registered, hence not empty, when it is constructed.\<close>

definition mem_send :: "string \<Rightarrow> string \<Rightarrow> string \<Rightarrow> switchboard \<Rightarrow> (exn + unit) \<times> switchboard" where
  "mem_send address dest payload sb =
     (if address = [] then (Inl transport_error, sb)
      else sb_deliver dest \<lparr>fr_source = address, fr_payload = payload\<rparr> sb)"

definition mem_receive :: "string \<Rightarrow> switchboard \<Rightarrow> (exn + frame option) \<times> switchboard" where
  "mem_receive address sb = sb_drain_one address sb"

definition mem_transport :: "string \<Rightarrow> switchboard transport" where
  "mem_transport address = \<lparr>tr_send = mem_send address, tr_receive = mem_receive address\<rparr>"


section \<open>First-in first-out networks\<close>

locale mailbox_network =
  fixes endpoint :: "string \<Rightarrow> 't transport"
    and inbox :: "'t \<Rightarrow> string \<Rightarrow> frame list option"
  assumes send_known: "a \<noteq> [] \<Longrightarrow> inbox t dest = Some q \<Longrightarrow>
      fst (tr_send (endpoint a) dest p t) = Inr () \<and>
      inbox (snd (tr_send (endpoint a) dest p t)) =
        (inbox t)(dest \<mapsto> q @ [\<lparr>fr_source = a, fr_payload = p\<rparr>])"
    and send_unknown: "inbox t dest = None \<Longrightarrow> tr_send (endpoint a) dest p t = (Inl transport_error, t)"
    and receive_empty: "inbox t a = Some [] \<Longrightarrow> tr_receive (endpoint a) t = (Inr None, t)"
    and receive_next: "inbox t a = Some (f # q) \<Longrightarrow>
      fst (tr_receive (endpoint a) t) = Inr (Some f) \<and>
      inbox (snd (tr_receive (endpoint a) t)) = (inbox t)(a \<mapsto> q)"
begin

fun drain :: "nat \<Rightarrow> string \<Rightarrow> 't \<Rightarrow> frame list" where
  "drain 0 a t = []"
| "drain (Suc n) a t =
     (case tr_receive (endpoint a) t of
        (Inr (Some f), t') \<Rightarrow> f # drain n a t'
      | _ \<Rightarrow> [])"

text \<open>Draining an inbox yields its frames in the order they arrived.\<close>

lemma drain_inbox: "inbox t a = Some q \<Longrightarrow> length q < n \<Longrightarrow> drain n a t = q"
proof (induction n arbitrary: t q)
  case (Suc n)
  show ?case
  proof (cases q)
    case Nil
    then show ?thesis using receive_empty[of t a] Suc.prems by simp
  next
    case (Cons f q')
    then have r: "fst (tr_receive (endpoint a) t) = Inr (Some f)"
      "inbox (snd (tr_receive (endpoint a) t)) a = Some q'"
      using receive_next[of t a f q'] Suc.prems by auto
    then show ?thesis using Suc.IH[OF r(2)] Suc.prems Cons
      by (cases "tr_receive (endpoint a) t") simp
  qed
qed simp

lemma send_other: "a \<noteq> [] \<Longrightarrow> inbox t dest \<noteq> None \<Longrightarrow> b \<noteq> dest \<Longrightarrow>
    inbox (snd (tr_send (endpoint a) dest p t)) b = inbox t b"
  using send_known[of a t dest _ p] by auto

text \<open>A frame sent to an empty inbox is the next one received, with the sender's address.\<close>

lemma send_then_receive:
  assumes "a \<noteq> []" "inbox t dest = Some []"
  shows "fst (tr_receive (endpoint dest) (snd (tr_send (endpoint a) dest p t))) =
    Inr (Some \<lparr>fr_source = a, fr_payload = p\<rparr>)"
  using send_known[OF assms, of p] receive_next[of "snd (tr_send (endpoint a) dest p t)" dest _ "[]"]
  by simp

end

interpretation switchboard_net: mailbox_network mem_transport "\<lambda>sb. sb"
  by unfold_locales
     (auto simp: mem_transport_def mem_send_def mem_receive_def sb_deliver_def sb_drain_one_def)

text \<open>Registering an address opens an empty inbox and keeps the others; an address is registered
  once.\<close>

lemma sb_register_cases:
  "sb_register a sb = (r, sb') \<Longrightarrow>
   (r = Inr () \<and> a \<noteq> [] \<and> sb a = None \<and> sb' = sb(a \<mapsto> [])) \<or>
   (r = Inl transport_error \<and> (a = [] \<or> sb a \<noteq> None) \<and> sb' = sb)"
  by (auto simp: sb_register_def split: if_splits)

end
