(* ===== verification/PeerAdmission.thy ===== *)
theory PeerAdmission
  imports Demo
begin

text \<open>
  Deny-by-default admission of peers (\<open>peer_admission.py\<close>): rules for a SPIFFE id and an environment
  tier, with an optional key pin. A presented key is its raw bytes. The loop over the rules is an
  instance of \<open>first_match\<close>.
\<close>

record admission_rule =
  ar_spiffe_id :: string
  ar_env_tier :: string
  ar_pin :: "string option"

record admission_decision =
  ad_allowed :: bool
  ad_reason_code :: string

abbreviation admission_error :: exn where
  "admission_error \<equiv> repo_error ''PeerAdmissionError''"

text \<open>The \<open>__post_init__\<close> guards of a rule and of a policy.\<close>

definition admission_rule_ok :: "admission_rule \<Rightarrow> bool" where
  "admission_rule_ok r \<longleftrightarrow>
     spiffe_id_re (ar_spiffe_id r) \<and> ar_env_tier r \<noteq> [] \<and>
     (case ar_pin r of None \<Rightarrow> True | Some pin \<Rightarrow> length pin = 64)"

definition build_policy :: "admission_rule list \<Rightarrow> exn + admission_rule list" where
  "build_policy rules =
     (if \<not> list_all admission_rule_ok rules then Inl admission_error
      else if \<not> distinct (map (\<lambda>r. (ar_spiffe_id r, ar_env_tier r)) rules) then Inl admission_error
      else Inr rules)"

definition public_key_fingerprint :: "platform \<Rightarrow> string \<Rightarrow> string" where
  "public_key_fingerprint P raw = p_sha256 P raw"

definition admission_denied :: "deny_reason \<Rightarrow> admission_decision" where
  "admission_denied r = \<lparr>ad_allowed = False, ad_reason_code = deny_value r\<rparr>"

definition admission_ok :: admission_decision where
  "admission_ok = \<lparr>ad_allowed = True, ad_reason_code = ''ok''\<rparr>"

definition rules_for_identity :: "admission_rule list \<Rightarrow> string \<Rightarrow> admission_rule list" where
  "rules_for_identity policy spiffe_id = filter (\<lambda>r. ar_spiffe_id r = spiffe_id) policy"

text \<open>What a rule for the tier decides: its pin, if it has one, must match the presented key.\<close>

definition pin_decision :: "platform \<Rightarrow> admission_rule \<Rightarrow> string option \<Rightarrow> admission_decision" where
  "pin_decision P r presented_key =
     (case ar_pin r of
        None \<Rightarrow> admission_ok
      | Some pin \<Rightarrow>
          (case presented_key of
             None \<Rightarrow> admission_denied ADMISSION_CERT_PIN_MISMATCH
           | Some key \<Rightarrow>
               if public_key_fingerprint P key \<noteq> pin then admission_denied ADMISSION_CERT_PIN_MISMATCH
               else admission_ok))"

fun match_rules ::
  "platform \<Rightarrow> string \<Rightarrow> string option \<Rightarrow> admission_rule list \<Rightarrow> admission_decision" where
  "match_rules P env_tier presented_key [] = admission_denied ADMISSION_TIER_MISMATCH"
| "match_rules P env_tier presented_key (r # rs) =
     (if ar_env_tier r \<noteq> env_tier then match_rules P env_tier presented_key rs
      else pin_decision P r presented_key)"

definition admit_peer ::
  "platform \<Rightarrow> string \<Rightarrow> string \<Rightarrow> admission_rule list \<Rightarrow> string option \<Rightarrow> exn + admission_decision" where
  "admit_peer P spiffe_id env_tier policy presented_key =
     (if \<not> spiffe_id_re spiffe_id then Inl admission_error
      else if env_tier = [] then Inl admission_error
      else let identity_rules = rules_for_identity policy spiffe_id in
        if identity_rules = [] then Inr (admission_denied ADMISSION_PEER_NOT_ALLOWED)
        else Inr (match_rules P env_tier presented_key identity_rules))"

text \<open>\<open>require_admission\<close> raises \<open>PeerAdmissionDenied\<close>, which carries the decision.\<close>

definition require_admission ::
  "platform \<Rightarrow> string \<Rightarrow> string \<Rightarrow> admission_rule list \<Rightarrow> string option \<Rightarrow>
   (exn + admission_decision) + admission_decision" where
  "require_admission P spiffe_id env_tier policy presented_key =
     (case admit_peer P spiffe_id env_tier policy presented_key of
        Inl e \<Rightarrow> Inl (Inl e)
      | Inr d \<Rightarrow> if \<not> ad_allowed d then Inl (Inr d) else Inr d)"


section \<open>Facts\<close>

interpretation admission_rules: first_match
  "\<lambda>r q. ar_env_tier r = fst q" "\<lambda>r q. pin_decision P r (snd q)"
  "\<lambda>q. admission_denied ADMISSION_TIER_MISMATCH" "\<lambda>rs q. match_rules P (fst q) (snd q) rs"
  for P
  by unfold_locales simp_all

lemma admission_denied_allowed [simp]: "\<not> ad_allowed (admission_denied r)"
  by (simp add: admission_denied_def)

lemma admission_ok_allowed [simp]: "ad_allowed admission_ok"
  by (simp add: admission_ok_def)

text \<open>The rule that lets a peer in.\<close>

definition admits :: "platform \<Rightarrow> admission_rule \<Rightarrow> string \<Rightarrow> string \<Rightarrow> string option \<Rightarrow> bool" where
  "admits P r spiffe_id env_tier presented_key \<longleftrightarrow>
     ar_spiffe_id r = spiffe_id \<and> ar_env_tier r = env_tier \<and>
     (case ar_pin r of None \<Rightarrow> True
      | Some pin \<Rightarrow> \<exists>key. presented_key = Some key \<and> public_key_fingerprint P key = pin)"

lemma pin_decision_allowed:
  "ad_allowed (pin_decision P r k) \<longleftrightarrow>
     (case ar_pin r of None \<Rightarrow> True
      | Some pin \<Rightarrow> \<exists>key. k = Some key \<and> public_key_fingerprint P key = pin)"
  by (auto simp: pin_decision_def split: option.splits)

lemma admit_peer_sound:
  assumes "admit_peer P spiffe_id env_tier policy k = Inr d" "ad_allowed d"
  shows "\<exists>r\<in>set policy. admits P r spiffe_id env_tier k"
proof -
  let ?rs = "rules_for_identity policy spiffe_id"
  have d: "d = match_rules P env_tier k ?rs"
    using assms by (auto simp: admit_peer_def Let_def split: if_splits)
  then have "match_rules P env_tier k ?rs \<noteq> admission_denied ADMISSION_TIER_MISMATCH"
    using assms(2) by auto
  from admission_rules.eval_not_default[where q = "(env_tier, k)", simplified, OF this]
  obtain xs r ys where "?rs = xs @ r # ys" "ar_env_tier r = env_tier" "d = pin_decision P r k"
    using d by metis
  then have "r \<in> set ?rs" "ar_env_tier r = env_tier" "d = pin_decision P r k" by simp_all
  then show ?thesis
    using assms(2) by (auto simp: rules_for_identity_def admits_def pin_decision_allowed intro!: bexI[of _ r])
qed

text \<open>In a policy that \<open>build_policy\<close> accepts there is one rule for an identity and a tier, so a rule
  that admits a peer is never shadowed by an earlier one.\<close>

lemma distinct_map_eq: "distinct (map f xs) \<Longrightarrow> x \<in> set xs \<Longrightarrow> y \<in> set xs \<Longrightarrow> f x = f y \<Longrightarrow> x = y"
  by (simp add: distinct_map inj_on_def)

lemma admit_peer_complete:
  assumes "build_policy rules = Inr policy" "r \<in> set policy" "admits P r spiffe_id env_tier k"
  shows "admit_peer P spiffe_id env_tier policy k = Inr admission_ok"
proof -
  have ok: "admission_rule_ok r" and dist: "distinct (map (\<lambda>r. (ar_spiffe_id r, ar_env_tier r)) policy)"
    using assms(1,2) by (auto simp: build_policy_def list_all_iff split: if_splits)
  have id: "ar_spiffe_id r = spiffe_id" "ar_env_tier r = env_tier" using assms(3) by (auto simp: admits_def)
  let ?rs = "rules_for_identity policy spiffe_id"
  have r: "r \<in> set ?rs" using assms(2) id by (simp add: rules_for_identity_def)
  have uniq: "r' = r" if "r' \<in> set ?rs" "ar_env_tier r' = env_tier" for r'
    using distinct_map_eq[OF dist, of r' r] that id assms(2) by (simp add: rules_for_identity_def)
  have "match_rules P env_tier k ?rs = pin_decision P r k"
    using admission_rules.eval_unique[where q = "(env_tier, k)", simplified, OF r id(2)] uniq by fastforce
  moreover have "pin_decision P r k = admission_ok"
    using assms(3) by (auto simp: admits_def pin_decision_def split: option.splits)
  moreover have "spiffe_id_re spiffe_id" "env_tier \<noteq> []" "?rs \<noteq> []"
    using ok id r by (auto simp: admission_rule_ok_def)
  ultimately show ?thesis by (simp add: admit_peer_def Let_def)
qed

text \<open>A peer is admitted exactly when a rule of the policy names its identity and tier and, if the
  rule pins a key, the peer presents that key; every other valid request is answered by a denial.\<close>

lemma admit_peer_correct:
  assumes "build_policy rules = Inr policy" "spiffe_id_re spiffe_id" "env_tier \<noteq> []"
  shows "\<exists>d. admit_peer P spiffe_id env_tier policy k = Inr d \<and>
    (ad_allowed d \<longleftrightarrow> (\<exists>r\<in>set policy. admits P r spiffe_id env_tier k))"
proof -
  obtain d where d: "admit_peer P spiffe_id env_tier policy k = Inr d"
    using assms(2,3)
    by (cases "rules_for_identity policy spiffe_id = []") (simp_all add: admit_peer_def Let_def)
  moreover have "ad_allowed d" if "r \<in> set policy" "admits P r spiffe_id env_tier k" for r
    using admit_peer_complete[OF assms(1) that] d by simp
  ultimately show ?thesis using admit_peer_sound[OF d] by blast
qed

definition demo_rules :: "admission_rule list" where
  "demo_rules =
     [\<lparr>ar_spiffe_id = ''spiffe://a'', ar_env_tier = ''prod'', ar_pin = None\<rparr>,
      \<lparr>ar_spiffe_id = ''spiffe://b'', ar_env_tier = ''prod'', ar_pin = None\<rparr>]"

lemma demo_rules_ok: "build_policy demo_rules = Inr demo_rules"
  by (simp add: build_policy_def demo_rules_def admission_rule_ok_def pattern_defs)

end
