(* ===== verification/Membership.thy ===== *)
theory Membership
  imports Transport PeerAdmission
begin

text \<open>
  Gossip membership (\<open>membership.py\<close>): the SWIM state machine of one node. Every operation takes the
  node and the state of the network; the transport, the JSON codec and the admission gate are
  arguments. Peer-supplied data are \<open>pyval\<close>s. An operation that raises returns the node as the
  exception leaves it.
\<close>

section \<open>Members\<close>

datatype member_state = ALIVE | SUSPECT | DEAD

fun member_state_value :: "member_state \<Rightarrow> string" where
  "member_state_value ALIVE = ''alive''"
| "member_state_value SUSPECT = ''suspect''"
| "member_state_value DEAD = ''dead''"

definition member_state_of :: "pyval \<Rightarrow> exn + member_state" where
  "member_state_of v =
     (if v = PStr ''alive'' then Inr ALIVE
      else if v = PStr ''suspect'' then Inr SUSPECT
      else if v = PStr ''dead'' then Inr DEAD
      else Inl (std_error ''ValueError''))"

record member =
  mb_node_id :: string
  mb_incarnation :: int
  mb_state :: member_state
  mb_ticks :: int

record swim =
  sw_node_id :: string
  sw_incarnation :: int
  sw_suspect_after :: int
  sw_dead_after :: int
  sw_members :: "(string \<times> member) list"
  sw_seq :: int

definition MAX_NODE_ID_LEN :: nat where
  "MAX_NODE_ID_LEN = 256"

fun supersedes :: "member_state \<Rightarrow> int \<Rightarrow> member_state \<Rightarrow> int \<Rightarrow> bool" where
  "supersedes ALIVE in_inc cur_state cur_inc = (in_inc > cur_inc)"
| "supersedes SUSPECT in_inc cur_state cur_inc =
     (in_inc > cur_inc \<or> (in_inc = cur_inc \<and> cur_state = ALIVE))"
| "supersedes DEAD in_inc cur_state cur_inc =
     (in_inc > cur_inc \<or> (in_inc = cur_inc \<and> cur_state \<noteq> DEAD))"

text \<open>The optional admission gate: \<open>admission\<close>, \<open>peer_tier\<close> and \<open>peer_key\<close>. The two callbacks may
  raise; a \<open>peer_tier\<close> may return anything.\<close>

record gate =
  ga_policy :: "admission_rule list"
  ga_tier :: "string \<Rightarrow> exn + pyval"
  ga_key :: "(string \<Rightarrow> exn + string option) option"

definition may_learn :: "platform \<Rightarrow> gate option \<Rightarrow> string \<Rightarrow> bool" where
  "may_learn P g nid =
     (case g of
        None \<Rightarrow> True
      | Some g \<Rightarrow>
          (case ga_tier g nid of
             Inl e \<Rightarrow> False
           | Inr tier \<Rightarrow>
               if \<not> is_str tier \<or> str_of tier = [] then False
               else case (case ga_key g of None \<Rightarrow> Inr None | Some peer_key \<Rightarrow> peer_key nid) of
                 Inl e \<Rightarrow> False
               | Inr presented \<Rightarrow>
                   (case admit_peer P nid (str_of tier) (ga_policy g) presented of
                      Inl e \<Rightarrow> False
                    | Inr d \<Rightarrow> ad_allowed d)))"

definition new_member :: "string \<Rightarrow> int \<Rightarrow> member_state \<Rightarrow> member" where
  "new_member nid inc st = \<lparr>mb_node_id = nid, mb_incarnation = inc, mb_state = st, mb_ticks = 0\<rparr>"

fun add_seeds :: "string \<Rightarrow> string list \<Rightarrow> (string \<times> member) list \<Rightarrow> (string \<times> member) list" where
  "add_seeds node_id [] ms = ms"
| "add_seeds node_id (s # ss) ms =
     add_seeds node_id ss (if s \<noteq> [] \<and> s \<noteq> node_id then dset s (new_member s 0 ALIVE) ms else ms)"

definition new_swim :: "string \<Rightarrow> string list \<Rightarrow> int \<Rightarrow> int \<Rightarrow> exn + swim" where
  "new_swim node_id seeds suspect_after dead_after =
     (if node_id = [] then Inl transport_error
      else if suspect_after < 1 \<or> dead_after < 1 then Inl transport_error
      else Inr \<lparr>sw_node_id = node_id, sw_incarnation = 0, sw_suspect_after = suspect_after,
                sw_dead_after = dead_after, sw_members = add_seeds node_id seeds [], sw_seq = 0\<rparr>)"

definition alive_ids :: "swim \<Rightarrow> string list" where
  "alive_ids s = map mb_node_id (filter (\<lambda>m. mb_state m = ALIVE) (dvals (sw_members s)))"

definition state_of :: "swim \<Rightarrow> string \<Rightarrow> member_state option" where
  "state_of s nid = map_option mb_state (dget (sw_members s) nid)"


section \<open>Merging gossip\<close>

text \<open>One triple of a digest: skipped (\<open>Inr None\<close>), usable, or raising. \<open>except (ValueError,
  IndexError, TypeError)\<close> does not catch the \<open>OverflowError\<close> of \<open>int\<close> on an infinite float.\<close>

definition read_update :: "pyval \<Rightarrow> exn + (string \<times> int \<times> member_state) option" where
  "read_update update =
     (case update of
        PList (v0 # v1 # v2 # vs) \<Rightarrow>
          (case bindE (py_int v1) (\<lambda>inc. bindE (member_state_of v2) (\<lambda>st. Inr (inc, st))) of
             Inl e \<Rightarrow> if value_or_type_error e then Inr None else Inl e
           | Inr (inc, st) \<Rightarrow>
               if \<not> is_str v0 \<or> str_of v0 = [] \<or> length (str_of v0) > MAX_NODE_ID_LEN then Inr None
               else Inr (Some (str_of v0, inc, st)))
      | _ \<Rightarrow> Inr None)"

definition apply_update ::
  "(string \<Rightarrow> bool) \<Rightarrow> string \<times> int \<times> member_state \<Rightarrow> swim \<Rightarrow> swim" where
  "apply_update learn u s =
     (case u of (nid, inc, raw_state) \<Rightarrow>
        if nid = sw_node_id s then
          (if raw_state \<noteq> ALIVE \<and> inc \<ge> sw_incarnation s then s\<lparr>sw_incarnation := inc + 1\<rparr> else s)
        else case dget (sw_members s) nid of
          None \<Rightarrow>
            if \<not> learn nid then s
            else s\<lparr>sw_members := dset nid (new_member nid inc raw_state) (sw_members s)\<rparr>
        | Some cur \<Rightarrow>
            if supersedes raw_state inc (mb_state cur) (mb_incarnation cur) then
              s\<lparr>sw_members := dset nid
                 (cur\<lparr>mb_incarnation := inc, mb_state := raw_state,
                      mb_ticks := if raw_state = ALIVE then 0 else mb_ticks cur\<rparr>) (sw_members s)\<rparr>
            else s)"

fun merge_gossip :: "(string \<Rightarrow> bool) \<Rightarrow> pyval list \<Rightarrow> swim \<Rightarrow> (exn + unit) \<times> swim" where
  "merge_gossip learn [] s = (Inr (), s)"
| "merge_gossip learn (update # updates) s =
     (case read_update update of
        Inl e \<Rightarrow> (Inl e, s)
      | Inr None \<Rightarrow> merge_gossip learn updates s
      | Inr (Some u) \<Rightarrow> merge_gossip learn updates (apply_update learn u s))"


section \<open>Messages\<close>

definition digest :: "swim \<Rightarrow> pyval" where
  "digest s =
     PList (PList [PStr (sw_node_id s), PInt (sw_incarnation s), PStr (member_state_value ALIVE)] #
       map (\<lambda>m. PList [PStr (mb_node_id m), PInt (mb_incarnation m), PStr (member_state_value (mb_state m))])
         (dvals (sw_members s)))"

definition message :: "string \<Rightarrow> swim \<Rightarrow> pyval" where
  "message typ s =
     PDict [(''type'', PStr typ), (''from'', PStr (sw_node_id s)), (''seq'', PInt (sw_seq s)),
            (''gossip'', digest s)]"

definition encode :: "codec \<Rightarrow> string \<Rightarrow> swim \<Rightarrow> string \<times> swim" where
  "encode J typ s =
     (let s' = s\<lparr>sw_seq := sw_seq s + 1\<rparr> in (json_dumps J (message typ s'), s'))"

definition mark_heard :: "(string \<Rightarrow> bool) \<Rightarrow> string \<Rightarrow> swim \<Rightarrow> swim" where
  "mark_heard learn sender s =
     (if sender = [] \<or> sender = sw_node_id s then s
      else case dget (sw_members s) sender of
        None \<Rightarrow>
          if \<not> learn sender then s
          else s\<lparr>sw_members := dset sender (new_member sender 0 ALIVE) (sw_members s)\<rparr>
      | Some m \<Rightarrow>
          if mb_state m \<noteq> DEAD then
            s\<lparr>sw_members := dset sender (m\<lparr>mb_state := ALIVE, mb_ticks := 0\<rparr>) (sw_members s)\<rparr>
          else s)"

text \<open>\<open>encode\<close> and send, as \<open>join\<close>, \<open>_probe\<close> and the acknowledgement of a ping do.\<close>

definition send_msg ::
  "'t transport \<Rightarrow> codec \<Rightarrow> string \<Rightarrow> string \<Rightarrow> swim \<times> 't \<Rightarrow> (exn + unit) \<times> swim \<times> 't" where
  "send_msg T J typ dest st =
     (case st of (s, t) \<Rightarrow>
        let (payload, s') = encode J typ s; (r, t') = tr_send T dest payload t in (r, s', t'))"

text \<open>One iteration of the loop of \<open>_receive\<close>.\<close>

definition handle_frame ::
  "'t transport \<Rightarrow> codec \<Rightarrow> (string \<Rightarrow> bool) \<Rightarrow> frame \<Rightarrow> swim \<times> 't \<Rightarrow> (exn + unit) \<times> swim \<times> 't" where
  "handle_frame T J learn f st =
     (case st of (s, t) \<Rightarrow>
        case json_loads J (fr_payload f) of
          Inl e \<Rightarrow> if value_or_type_error e then (Inr (), s, t) else (Inl e, s, t)
        | Inr msg \<Rightarrow>
            if \<not> is_dict msg then (Inr (), s, t)
            else let gossip = (case dget (dict_of msg) ''gossip'' of None \<Rightarrow> PList [] | Some v \<Rightarrow> v);
                     (r, s1) = (case gossip of PList us \<Rightarrow> merge_gossip learn us s | _ \<Rightarrow> (Inr (), s));
                     sender = item (dict_of msg) ''from''
              in case r of
                   Inl e \<Rightarrow> (Inl e, s1, t)
                 | Inr _ \<Rightarrow>
                     if \<not> is_str sender \<or> str_of sender = [] \<or> length (str_of sender) > MAX_NODE_ID_LEN
                     then (Inr (), s1, t)
                     else let s2 = mark_heard learn (str_of sender) s1 in
                       if py_eq (item (dict_of msg) ''type'') (PStr ''ping'')
                       then send_msg T J ''ack'' (str_of sender) (s2, t)
                       else (Inr (), s2, t))"

text \<open>The loop runs until the transport has no more frames; it may not end, and then the result is
  \<open>None\<close>.\<close>

partial_function (option) receive_all ::
  "'t transport \<Rightarrow> codec \<Rightarrow> (string \<Rightarrow> bool) \<Rightarrow> swim \<times> 't \<Rightarrow> ((exn + unit) \<times> swim \<times> 't) option" where
  "receive_all T J learn st =
     (case tr_receive T (snd st) of
        (Inl e, t') \<Rightarrow> Some (Inl e, fst st, t')
      | (Inr None, t') \<Rightarrow> Some (Inr (), fst st, t')
      | (Inr (Some f), t') \<Rightarrow>
          (case handle_frame T J learn f (fst st, t') of
             (Inl e, st') \<Rightarrow> Some (Inl e, st')
           | (Inr _, st') \<Rightarrow> receive_all T J learn st'))"


section \<open>Ageing and probing\<close>

definition age_member :: "int \<Rightarrow> int \<Rightarrow> member \<Rightarrow> member" where
  "age_member suspect_after dead_after m =
     (if mb_state m = DEAD then m
      else let ticks = mb_ticks m + 1; m' = m\<lparr>mb_ticks := ticks\<rparr> in
        if mb_state m = ALIVE \<and> ticks \<ge> suspect_after then m'\<lparr>mb_state := SUSPECT\<rparr>
        else if mb_state m = SUSPECT \<and> ticks \<ge> suspect_after + dead_after then m'\<lparr>mb_state := DEAD\<rparr>
        else m')"

definition age :: "swim \<Rightarrow> swim" where
  "age s = s\<lparr>sw_members :=
     map (\<lambda>(k, m). (k, age_member (sw_suspect_after s) (sw_dead_after s) m)) (sw_members s)\<rparr>"

text \<open>The loop over \<open>list(self.members.items())\<close> of \<open>_probe\<close> and \<open>join\<close>. Sending changes no
  member, so the states read from the copy are the current ones.\<close>

fun ping_all ::
  "'t transport \<Rightarrow> codec \<Rightarrow> (string \<times> member) list \<Rightarrow> swim \<times> 't \<Rightarrow> (exn + unit) \<times> swim \<times> 't" where
  "ping_all T J [] st = (Inr (), st)"
| "ping_all T J ((nid, m) # ms) st =
     (if mb_state m \<noteq> DEAD then
        (case send_msg T J ''ping'' nid st of
           (Inl e, st') \<Rightarrow> (Inl e, st')
         | (Inr _, st') \<Rightarrow> ping_all T J ms st')
      else ping_all T J ms st)"

definition swim_join :: "'t transport \<Rightarrow> codec \<Rightarrow> swim \<times> 't \<Rightarrow> (exn + unit) \<times> swim \<times> 't" where
  "swim_join T J st = ping_all T J (sw_members (fst st)) st"

definition swim_tick ::
  "'t transport \<Rightarrow> codec \<Rightarrow> (string \<Rightarrow> bool) \<Rightarrow> swim \<times> 't \<Rightarrow> ((exn + unit) \<times> swim \<times> 't) option" where
  "swim_tick T J learn st =
     (case receive_all T J learn st of
        None \<Rightarrow> None
      | Some (Inl e, st') \<Rightarrow> Some (Inl e, st')
      | Some (Inr _, s, t) \<Rightarrow> let s' = age s in Some (ping_all T J (sw_members s') (s', t)))"


section \<open>Claims and their order\<close>

text \<open>What gossip says of a node: an incarnation and a state. Claims are ordered by incarnation, then
  by state.\<close>

fun member_rank :: "member_state \<Rightarrow> nat" where
  "member_rank ALIVE = 0"
| "member_rank SUSPECT = 1"
| "member_rank DEAD = 2"

lemma member_rank_inject [simp]: "member_rank a = member_rank b \<longleftrightarrow> a = b"
  by (cases a; cases b) simp_all

datatype claim = Claim (claim_inc: int) (claim_state: member_state)

instantiation claim :: linorder
begin

definition less_eq_claim :: "claim \<Rightarrow> claim \<Rightarrow> bool" where
  "less_eq_claim a b \<longleftrightarrow> claim_inc a < claim_inc b \<or>
     (claim_inc a = claim_inc b \<and> member_rank (claim_state a) \<le> member_rank (claim_state b))"

definition less_claim :: "claim \<Rightarrow> claim \<Rightarrow> bool" where
  "less_claim a b \<longleftrightarrow> claim_inc a < claim_inc b \<or>
     (claim_inc a = claim_inc b \<and> member_rank (claim_state a) < member_rank (claim_state b))"

instance
  by standard (auto simp: less_eq_claim_def less_claim_def claim.expand)

end

lemma supersedes_iff: "supersedes st inc st' inc' \<longleftrightarrow> Claim inc' st' < Claim inc st"
  by (cases st; cases st') (auto simp: less_claim_def)

text \<open>What a node believes of another one, and what a digest says of it.\<close>

definition view :: "swim \<Rightarrow> string \<Rightarrow> claim option" where
  "view s nid = map_option (\<lambda>m. Claim (mb_incarnation m) (mb_state m)) (dget (sw_members s) nid)"

fun said :: "pyval \<Rightarrow> (string \<times> int \<times> member_state) option" where
  "said update = (case read_update update of Inr u \<Rightarrow> u | Inl e \<Rightarrow> None)"

definition claims :: "string \<Rightarrow> pyval list \<Rightarrow> claim list" where
  "claims nid us =
     List.map_filter (\<lambda>u. case said u of
        Some (nid', inc, st) \<Rightarrow> if nid' = nid then Some (Claim inc st) else None
      | None \<Rightarrow> None) us"

definition join_claim :: "bool \<Rightarrow> claim option \<Rightarrow> claim \<Rightarrow> claim option" where
  "join_claim learn v c = (case v of None \<Rightarrow> if learn then Some c else None | Some b \<Rightarrow> Some (max b c))"

lemma apply_update_frame [simp]:
  "sw_node_id (apply_update learn u s) = sw_node_id s"
  "sw_seq (apply_update learn u s) = sw_seq s"
  by (auto simp: apply_update_def split: prod.splits option.splits)

lemma apply_update_view:
  assumes "nid \<noteq> sw_node_id s"
  shows "view (apply_update learn (k, inc, st) s) nid =
    (if k = nid then join_claim (learn nid) (view s nid) (Claim inc st) else view s nid)"
proof (cases "k = sw_node_id s")
  case True
  then show ?thesis using assms by (auto simp: apply_update_def view_def)
next
  case False
  show ?thesis
  proof (cases "dget (sw_members s) k")
    case None
    then show ?thesis using False
      by (auto simp: apply_update_def view_def join_claim_def dget_dset new_member_def)
  next
    case (Some cur)
    then show ?thesis using False
      by (auto simp: apply_update_def view_def join_claim_def dget_dset supersedes_iff max_def not_less)
  qed
qed

lemma merge_gossip_view:
  assumes "merge_gossip learn us s = (Inr u, s')" "nid \<noteq> sw_node_id s"
  shows "view s' nid = foldl (join_claim (learn nid)) (view s nid) (claims nid us)"
  using assms
proof (induction us arbitrary: s)
  case (Cons x us)
  show ?case
  proof (cases "read_update x")
    case (Inr v)
    show ?thesis
    proof (cases v)
      case None
      then show ?thesis using Inr Cons by (simp add: claims_def map_filter_simps)
    next
      case (Some w)
      obtain k inc st where w: "w = (k, inc, st)" by (cases w)
      have run: "merge_gossip learn us (apply_update learn w s) = (Inr u, s')"
        using Cons.prems(1) Inr Some by simp
      have "nid \<noteq> sw_node_id (apply_update learn w s)" using Cons.prems(2) by simp
      from Cons.IH[OF run this] show ?thesis
        using Inr Some w apply_update_view[OF Cons.prems(2), of learn k inc st]
        by (simp add: claims_def map_filter_simps)
    qed
  qed (use Cons.prems in simp)
qed (simp add: claims_def map_filter_simps)

lemma join_claim_simps [simp]:
  "join_claim l (Some b) c = Some (max b c)"
  "join_claim l None c = (if l then Some c else None)"
  by (simp_all add: join_claim_def)

lemma foldl_join_Some: "foldl (join_claim l) (Some b) cs = Some (Max (insert b (set cs)))"
proof (induction cs arbitrary: b)
  case (Cons c cs)
  have "foldl (join_claim l) (Some b) (c # cs) = Some (Max (insert (max b c) (set cs)))"
    using Cons.IH[of "max b c"] by simp
  also have "Max (insert (max b c) (set cs)) = Max (insert b (set (c # cs)))"
    by (cases "set cs = {}") (simp_all add: max.assoc)
  finally show ?case .
qed simp

lemma foldl_join:
  "foldl (join_claim l) v cs =
     (case v of
        Some b \<Rightarrow> Some (Max (insert b (set cs)))
      | None \<Rightarrow> if cs = [] \<or> \<not> l then None else Some (Max (set cs)))"
proof (cases v)
  case None
  show ?thesis
  proof (cases cs)
    case (Cons c cs')
    have "foldl (join_claim False) None cs' = None" by (induction cs') simp_all
    then show ?thesis using None Cons by (simp add: foldl_join_Some)
  qed (simp add: None)
qed (simp add: foldl_join_Some)

lemma set_claims:
  "set (claims nid us) = {Claim inc st |inc st. \<exists>u\<in>set us. said u = Some (nid, inc, st)}"
  by (induction us) (auto simp: claims_def map_filter_simps split: option.splits)

lemma said_triple:
  "nid \<noteq> [] \<Longrightarrow> length nid \<le> MAX_NODE_ID_LEN \<Longrightarrow>
   said (PList (PStr nid # PInt inc # PStr (member_state_value st) # vs)) = Some (nid, inc, st)"
  by (cases st) (simp_all add: read_update_def member_state_of_def)

lemma merge_gossip_greatest:
  assumes "merge_gossip learn us s = (Inr u, s')" "nid \<noteq> sw_node_id s"
    and C: "C = {Claim inc st |inc st. \<exists>x\<in>set us. said x = Some (nid, inc, st)}"
  shows "view s' nid = (case view s nid of
      Some b \<Rightarrow> Some (Max (insert b C))
    | None \<Rightarrow> if learn nid \<and> C \<noteq> {} then Some (Max C) else None)"
proof -
  have "set (claims nid us) = C" by (simp only: set_claims C)
  moreover from this have "claims nid us = [] \<longleftrightarrow> C = {}" by (metis set_empty)
  ultimately show ?thesis
    by (auto simp: merge_gossip_view[OF assms(1,2)] foldl_join split: option.splits)
qed

lemma finite_claims: "finite {Claim inc st |inc st. \<exists>x\<in>set us. said x = Some (nid, inc, st)}"
  by (simp only: set_claims[symmetric] finite_set)

text \<open>C15. Gossip converges: what a node believes of a third one after merging updates is the greatest
  claim among what it believed and what it was told, whatever the order and the repetitions (of a
  node it does not know, the greatest claim it was told, if the admission gate lets it learn the
  node, else nothing); every well-formed triple of a digest counts; two nodes that start from the
  same belief and are told the same things agree; and no belief moves backwards.\<close>

theorem gossip_converges:
  assumes "merge_gossip learn us s = (Inr (), s')" "merge_gossip learn2 us2 s2 = (Inr (), s2')"
    and "set us = set us2" "nid \<noteq> sw_node_id s" "nid \<noteq> sw_node_id s2"
    and "learn nid = learn2 nid" "view s nid = view s2 nid"
    and "C = {Claim inc st |inc st. \<exists>u\<in>set us. said u = Some (nid, inc, st)}"
  shows "view s' nid = (case view s nid of
        Some b \<Rightarrow> Some (Max (insert b C))
      | None \<Rightarrow> if learn nid \<and> C \<noteq> {} then Some (Max C) else None) \<and>
    (\<forall>inc st vs. PList (PStr nid # PInt inc # PStr (member_state_value st) # vs) \<in> set us \<longrightarrow>
        nid \<noteq> [] \<longrightarrow> length nid \<le> MAX_NODE_ID_LEN \<longrightarrow> Claim inc st \<in> C) \<and>
    view s' nid = view s2' nid \<and>
    (\<forall>c. view s nid = Some c \<longrightarrow> (\<exists>c'. view s' nid = Some c' \<and> c \<le> c'))"
proof -
  note v = merge_gossip_greatest[OF assms(1,4,8)]
  have "C = {Claim inc st |inc st. \<exists>x\<in>set us2. said x = Some (nid, inc, st)}"
    using assms(3,8) by simp
  note v2 = merge_gossip_greatest[OF assms(2,5) this]
  have fin: "finite C" unfolding assms(8) by (rule finite_claims)
  have "\<forall>inc st vs. PList (PStr nid # PInt inc # PStr (member_state_value st) # vs) \<in> set us \<longrightarrow>
      nid \<noteq> [] \<longrightarrow> length nid \<le> MAX_NODE_ID_LEN \<longrightarrow> Claim inc st \<in> C"
    unfolding assms(8) using said_triple by blast
  moreover have "view s' nid = view s2' nid" unfolding v v2 assms(6,7) by (rule refl)
  moreover have "\<forall>c. view s nid = Some c \<longrightarrow> (\<exists>c'. view s' nid = Some c' \<and> c \<le> c')"
    using v fin by simp
  ultimately show ?thesis using v by blast
qed


section \<open>Refutation\<close>

lemma apply_update_incarnation:
  "sw_incarnation s \<le> sw_incarnation (apply_update learn u s) \<and>
   (case u of (nid, inc, st) \<Rightarrow> nid = sw_node_id s \<longrightarrow> st \<noteq> ALIVE \<longrightarrow>
      inc < sw_incarnation (apply_update learn u s))"
  by (auto simp: apply_update_def split: prod.splits option.splits)

lemma merge_gossip_incarnation:
  "merge_gossip learn us s = (r, s') \<Longrightarrow> sw_incarnation s \<le> sw_incarnation s' \<and> sw_node_id s' = sw_node_id s"
proof (induction us arbitrary: s)
  case (Cons x us)
  show ?case
  proof (cases "read_update x")
    case (Inr v)
    show ?thesis
    proof (cases v)
      case (Some w)
      then have "merge_gossip learn us (apply_update learn w s) = (r, s')" using Cons.prems Inr by simp
      from Cons.IH[OF this] show ?thesis using apply_update_incarnation[of s learn w] by auto
    qed (use Inr Cons in simp)
  qed (use Cons.prems in simp)
qed simp

lemma merge_gossip_refutes:
  "merge_gossip learn us s = (Inr u, s') \<Longrightarrow> x \<in> set us \<Longrightarrow> said x = Some (sw_node_id s, inc, st) \<Longrightarrow>
   st \<noteq> ALIVE \<Longrightarrow> inc < sw_incarnation s'"
proof (induction us arbitrary: s)
  case (Cons y us)
  show ?case
  proof (cases "read_update y")
    case (Inr v)
    show ?thesis
    proof (cases v)
      case None
      then show ?thesis using Inr Cons by auto
    next
      case (Some w)
      have run: "merge_gossip learn us (apply_update learn w s) = (Inr u, s')"
        using Cons.prems(1) Inr Some by simp
      show ?thesis
      proof (cases "x = y")
        case True
        then have "w = (sw_node_id s, inc, st)" using Cons.prems(3) Inr Some by simp
        then show ?thesis
          using apply_update_incarnation[of s learn w] merge_gossip_incarnation[OF run] Cons.prems(4) by auto
      next
        case False
        then show ?thesis using Cons.IH[OF run] Cons.prems by simp
      qed
    qed
  qed (use Cons.prems in simp)
qed simp

text \<open>A node refutes every suspicion of itself: after merging a digest in which it is suspected or
  dead, its own next digest claims it alive with an incarnation that supersedes that claim
  wherever it was believed.\<close>

lemma suspicion_refuted:
  assumes "merge_gossip learn us s = (Inr (), s')" "x \<in> set us"
    and "said x = Some (sw_node_id s, inc, st)" "st \<noteq> ALIVE"
  shows "supersedes ALIVE (sw_incarnation s') st inc \<and>
    (\<exists>others. digest s' =
       PList (PList [PStr (sw_node_id s), PInt (sw_incarnation s'), PStr ''alive''] # others))"
  using merge_gossip_refutes[OF assms] merge_gossip_incarnation[OF assms(1)] by (simp add: digest_def)


section \<open>Who may be a member\<close>

definition swim_inv :: "(string \<Rightarrow> bool) \<Rightarrow> string list \<Rightarrow> swim \<Rightarrow> bool" where
  "swim_inv learn seeds s \<longleftrightarrow>
     sw_node_id s \<noteq> [] \<and> 1 \<le> sw_suspect_after s \<and> 1 \<le> sw_dead_after s \<and> dict_wf (sw_members s) \<and>
     (\<forall>(k, m)\<in>set (sw_members s). mb_node_id m = k \<and> k \<noteq> [] \<and> k \<noteq> sw_node_id s \<and>
        (k \<in> set seeds \<or> (learn k \<and> length k \<le> MAX_NODE_ID_LEN)))"

lemma dset_mem: "x \<in> set (dset k v d) \<Longrightarrow> x = (k, v) \<or> x \<in> set d"
  by (induction d) (auto split: if_splits)

lemma dget_mem: "dget d k = Some v \<Longrightarrow> (k, v) \<in> set d"
  by (rule map_of_SomeD)

lemma swim_inv_upd:
  assumes "swim_inv learn seeds s" "mb_node_id m = k" "k \<noteq> []" "k \<noteq> sw_node_id s"
    "k \<in> set seeds \<or> (learn k \<and> length k \<le> MAX_NODE_ID_LEN)"
  shows "swim_inv learn seeds (s\<lparr>sw_members := dset k m (sw_members s)\<rparr>)"
  using assms by (auto simp: swim_inv_def dest!: dset_mem)

lemma swim_inv_member:
  assumes "swim_inv learn seeds s" "dget (sw_members s) k = Some m"
  shows "mb_node_id m = k" "k \<noteq> []" "k \<noteq> sw_node_id s"
    "k \<in> set seeds \<or> (learn k \<and> length k \<le> MAX_NODE_ID_LEN)"
  using assms(1) dget_mem[OF assms(2)] by (auto simp: swim_inv_def)

lemma read_update_id:
  "read_update x = Inr (Some (nid, inc, st)) \<Longrightarrow> nid \<noteq> [] \<and> length nid \<le> MAX_NODE_ID_LEN"
  by (auto simp: read_update_def split: pyval.splits list.splits sum.splits if_splits)

lemma swim_inv_scalar [simp]:
  "swim_inv learn seeds (s\<lparr>sw_incarnation := i\<rparr>) = swim_inv learn seeds s"
  "swim_inv learn seeds (s\<lparr>sw_seq := q\<rparr>) = swim_inv learn seeds s"
  by (simp_all add: swim_inv_def)

lemma apply_update_inv:
  assumes "swim_inv learn seeds s" "nid \<noteq> []" "length nid \<le> MAX_NODE_ID_LEN"
  shows "swim_inv learn seeds (apply_update learn (nid, inc, st) s)"
proof (cases "dget (sw_members s) nid")
  case None
  then show ?thesis using assms by (auto simp: apply_update_def new_member_def intro: swim_inv_upd)
next
  case (Some m)
  then show ?thesis using assms swim_inv_member[OF assms(1) Some]
    by (auto simp: apply_update_def intro!: swim_inv_upd)
qed

lemma merge_gossip_inv:
  "merge_gossip learn us s = (r, s') \<Longrightarrow> swim_inv learn seeds s \<Longrightarrow> swim_inv learn seeds s'"
proof (induction us arbitrary: s)
  case (Cons x us)
  show ?case
  proof (cases "read_update x")
    case (Inr v)
    show ?thesis
    proof (cases v)
      case (Some w)
      obtain nid inc st where w: "w = (nid, inc, st)" by (cases w)
      have "merge_gossip learn us (apply_update learn w s) = (r, s')" using Cons.prems Inr Some by simp
      moreover have "swim_inv learn seeds (apply_update learn w s)"
        using Cons.prems(2) read_update_id[of x nid inc st] Inr Some unfolding w
        by (intro apply_update_inv) auto
      ultimately show ?thesis by (rule Cons.IH)
    qed (use Inr Cons in simp)
  qed (use Cons.prems in simp)
qed simp

lemma mark_heard_inv:
  assumes "swim_inv learn seeds s" "length k \<le> MAX_NODE_ID_LEN"
  shows "swim_inv learn seeds (mark_heard learn k s)"
proof (cases "dget (sw_members s) k")
  case None
  then show ?thesis using assms by (auto simp: mark_heard_def new_member_def intro: swim_inv_upd)
next
  case (Some m)
  then show ?thesis using assms swim_inv_member[OF assms(1) Some]
    by (auto simp: mark_heard_def intro!: swim_inv_upd)
qed

lemma send_msg_swim: "send_msg T J typ dest (s, t) = (r, s', t') \<Longrightarrow> s' = s\<lparr>sw_seq := sw_seq s + 1\<rparr>"
  by (auto simp: send_msg_def encode_def Let_def split: prod.splits)

lemma handle_frame_inv:
  assumes "handle_frame T J learn f (s, t) = (r, s', t')" "swim_inv learn seeds s"
  shows "swim_inv learn seeds s'"
proof -
  define gossip where "gossip d = (case dget d ''gossip'' of None \<Rightarrow> PList [] | Some v \<Rightarrow> v)" for d
  define merged where "merged d = (case gossip d of PList us \<Rightarrow> merge_gossip learn us s | _ \<Rightarrow> (Inr (), s))" for d
  have m: "swim_inv learn seeds s1" if "merged d = (x, s1)" for d x s1
    using that assms(2) by (auto simp: merged_def split: pyval.splits dest: merge_gossip_inv)
  show ?thesis
    using assms
    by (auto simp: handle_frame_def Let_def gossip_def[symmetric] merged_def[symmetric] is_dict_iff not_less
        split: sum.splits prod.splits if_splits dest!: send_msg_swim dest: m intro!: mark_heard_inv)
qed

lemma receive_all_inv:
  assumes "receive_all T J learn (s, t) = Some (r, s', t')" "swim_inv learn seeds s"
  shows "swim_inv learn seeds s'"
proof -
  have "swim_inv learn seeds (fst st) \<longrightarrow> swim_inv learn seeds (fst (snd res))"
    if "receive_all T J learn st = Some res" for st res
  proof (rule receive_all.raw_induct[where P = "\<lambda>T J learn st res.
        swim_inv learn seeds (fst st) \<longrightarrow> swim_inv learn seeds (fst (snd res))", OF _ that], goal_cases)
    case (1 rec T J learn st y)
    obtain s0 t0 where st: "st = (s0, t0)" by (cases st)
    obtain x t1 where recv: "tr_receive T t0 = (x, t1)" by fastforce
    show ?case
    proof (cases "\<exists>f. x = Inr (Some f)")
      case False
      then show ?thesis using 1(2) recv by (auto simp: st split: sum.splits option.splits)
    next
      case True
      then obtain f where x: "x = Inr (Some f)" by blast
      obtain r s1 t2 where h: "handle_frame T J learn f (s0, t1) = (r, s1, t2)"
        by (cases "handle_frame T J learn f (s0, t1)")
      have "rec T J learn (s1, t2) = Some y" if "r = Inr u" for u using 1(2) recv x h that by (simp add: st)
      then show ?thesis using 1(1)[of T J learn "(s1, t2)" y] 1(2) recv x h handle_frame_inv[OF h]
        by (cases r) (auto simp: st)
    qed
  qed
  from this[OF assms(1)] assms(2) show ?thesis by simp
qed

lemma ping_all_swim: "ping_all T J ms (s, t) = (r, s', t') \<Longrightarrow> \<exists>q. s' = s\<lparr>sw_seq := q\<rparr>"
proof (induction ms arbitrary: s t)
  case Nil
  then show ?case by (auto intro: exI[of _ "sw_seq s"])
next
  case (Cons x ms)
  obtain k m where x: "x = (k, m)" by fastforce
  show ?case
  proof (cases "mb_state m = DEAD")
    case False
    obtain r1 s1 t1 where send: "send_msg T J ''ping'' k (s, t) = (r1, s1, t1)" by (cases "send_msg T J ''ping'' k (s, t)")
    show ?thesis
    proof (cases r1)
      case (Inr u)
      then have "ping_all T J ms (s1, t1) = (r, s', t')" using Cons.prems x False send by simp
      then obtain q where "s' = s1\<lparr>sw_seq := q\<rparr>" using Cons.IH by blast
      then show ?thesis using send_msg_swim[OF send] by (auto intro!: exI[of _ q])
    qed (use Cons.prems x False send send_msg_swim[OF send] in auto)
  qed (use Cons x in simp)
qed

lemma age_member_id [simp]: "mb_node_id (age_member a b m) = mb_node_id m"
  by (simp add: age_member_def Let_def)

lemma age_inv: "swim_inv learn seeds s \<Longrightarrow> swim_inv learn seeds (age s)"
  by (auto simp: swim_inv_def age_def dict_wf_def case_prod_beta comp_def)

lemma swim_tick_inv:
  assumes "swim_tick T J learn (s, t) = Some (r, s', t')" "swim_inv learn seeds s"
  shows "swim_inv learn seeds s'"
proof -
  obtain r1 s1 t1 where rec: "receive_all T J learn (s, t) = Some (r1, s1, t1)"
    using assms(1) by (auto simp: swim_tick_def split: option.splits)
  have s1: "swim_inv learn seeds s1" by (rule receive_all_inv[OF rec assms(2)])
  show ?thesis
  proof (cases r1)
    case (Inr u)
    then have "ping_all T J (sw_members (age s1)) (age s1, t1) = (r, s', t')"
      using assms(1) rec by (simp add: swim_tick_def Let_def)
    then show ?thesis using ping_all_swim age_inv[OF s1] by fastforce
  qed (use assms(1) rec s1 in \<open>simp add: swim_tick_def\<close>)
qed

lemma add_seeds_inv:
  assumes "dict_wf ms" "\<forall>(k, m)\<in>set ms. mb_node_id m = k \<and> k \<noteq> [] \<and> k \<noteq> own \<and> k \<in> S" "set ss \<subseteq> S"
  shows "dict_wf (add_seeds own ss ms) \<and>
    (\<forall>(k, m)\<in>set (add_seeds own ss ms). mb_node_id m = k \<and> k \<noteq> [] \<and> k \<noteq> own \<and> k \<in> S)"
  using assms
proof (induction ss arbitrary: ms)
  case (Cons x ss)
  show ?case
  proof (cases "x \<noteq> [] \<and> x \<noteq> own")
    case True
    have "\<forall>(k, m)\<in>set (dset x (new_member x 0 ALIVE) ms). mb_node_id m = k \<and> k \<noteq> [] \<and> k \<noteq> own \<and> k \<in> S"
      using Cons.prems True by (auto simp: new_member_def dest!: dset_mem)
    then show ?thesis using Cons.IH[of "dset x (new_member x 0 ALIVE) ms"] Cons.prems True by simp
  next
    case False
    then have "add_seeds own (x # ss) ms = add_seeds own ss ms" by auto
    then show ?thesis using Cons.IH[OF Cons.prems(1,2)] Cons.prems(3) by (simp only:) simp
  qed
qed simp

lemma new_swim_inv: "new_swim own seeds a b = Inr s \<Longrightarrow> swim_inv learn seeds s"
  using add_seeds_inv[of "[]" own "set seeds" seeds]
  by (auto simp: new_swim_def swim_inv_def split: if_splits)

text \<open>Every history of a node: whatever frames the network delivers, and whether or not a tick
  raises.\<close>

inductive swim_reachable :: "codec \<Rightarrow> (string \<Rightarrow> bool) \<Rightarrow> string list \<Rightarrow> swim \<Rightarrow> bool" for J learn seeds where
  swim_init: "new_swim own seeds a b = Inr s \<Longrightarrow> swim_reachable J learn seeds s"
| swim_joined: "swim_reachable J learn seeds s \<Longrightarrow> swim_join (T :: switchboard transport) J (s, t) = (r, s', t') \<Longrightarrow>
     swim_reachable J learn seeds s'"
| swim_ticked: "swim_reachable J learn seeds s \<Longrightarrow>
     swim_tick (T :: switchboard transport) J learn (s, t) = Some (r, s', t') \<Longrightarrow> swim_reachable J learn seeds s'"

lemma swim_reachable_inv: "swim_reachable J learn seeds s \<Longrightarrow> swim_inv learn seeds s"
proof (induction rule: swim_reachable.induct)
  case (swim_joined s T t r s' t')
  then show ?case using ping_all_swim[of T J "sw_members s" s t r s' t'] by (auto simp: swim_join_def)
qed (auto intro: new_swim_inv swim_tick_inv)

lemma may_learn_admitted:
  assumes "may_learn P (Some g) nid"
  shows "\<exists>tier key. ga_tier g nid = Inr (PStr tier) \<and> (\<exists>r\<in>set (ga_policy g). admits P r nid tier key)"
  using assms
  by (auto simp: may_learn_def is_str_iff split: sum.splits if_splits dest!: admit_peer_sound) blast

text \<open>With an admission gate, whatever gossip a node receives, an identity that is not one of the
  operator's seeds enters its member table only if the policy has a rule that admits it for the
  tier its resolver gives; its name is bounded, and the node never lists itself.\<close>

lemma members_admitted:
  assumes "swim_reachable J (may_learn P (Some g)) seeds s" "dget (sw_members s) nid = Some m"
    and "nid \<notin> set seeds"
  shows "nid \<noteq> sw_node_id s \<and> length nid \<le> MAX_NODE_ID_LEN \<and>
    (\<exists>tier key. ga_tier g nid = Inr (PStr tier) \<and> (\<exists>r\<in>set (ga_policy g). admits P r nid tier key))"
  using swim_inv_member[OF swim_reachable_inv[OF assms(1)] assms(2)] assms(3) may_learn_admitted by blast


section \<open>Failure detection\<close>

lemma age_iter: "(age ^^ n) s = s\<lparr>sw_members :=
    map (\<lambda>(k, m). (k, (age_member (sw_suspect_after s) (sw_dead_after s) ^^ n) m)) (sw_members s)\<rparr>"
proof (induction n)
  case 0
  have "map (\<lambda>(k, m). (k, m)) (sw_members s) = sw_members s" by (induction "sw_members s") auto
  then show ?case by simp
next
  case (Suc n)
  show ?case by (simp add: Suc) (simp add: age_def comp_def case_prod_beta)
qed





text \<open>Two states that agree on the node itself and on what it holds of \<open>nid\<close>.\<close>

definition keeps :: "string \<Rightarrow> swim \<Rightarrow> swim \<Rightarrow> bool" where
  "keeps nid s s' \<longleftrightarrow> sw_node_id s' = sw_node_id s \<and> sw_suspect_after s' = sw_suspect_after s \<and>
     sw_dead_after s' = sw_dead_after s \<and> dget (sw_members s') nid = dget (sw_members s) nid"

lemma keeps_refl [simp]: "keeps nid s s"
  by (simp add: keeps_def)


lemma keeps_seq [simp]: "keeps nid s (s1\<lparr>sw_seq := q\<rparr>) = keeps nid s s1"
  by (simp add: keeps_def)









lemma age_member_incarnation [simp]: "mb_incarnation (age_member a b m) = mb_incarnation m"
  by (simp add: age_member_def Let_def)




section \<open>Termination of a tick\<close>

text \<open>The one law of the codec this needs: a message decodes to an object with its type.\<close>

definition codec_typed :: "codec \<Rightarrow> bool" where
  "codec_typed J \<longleftrightarrow>
     (\<forall>typ s. \<exists>d. json_loads J (json_dumps J (message typ s)) = Inr (PDict d) \<and> item d ''type'' = PStr typ)"

definition is_ping :: "codec \<Rightarrow> frame \<Rightarrow> bool" where
  "is_ping J f \<longleftrightarrow> (\<exists>d. json_loads J (fr_payload f) = Inr (PDict d) \<and> py_eq (item d ''type'') (PStr ''ping''))"

text \<open>A ping may put an acknowledgement into the node's own inbox, if it claims to come from the node
  itself; anything else only shortens the inbox.\<close>

definition weight :: "codec \<Rightarrow> frame list \<Rightarrow> nat" where
  "weight J q = sum_list (map (\<lambda>f. if is_ping J f then 2 else 1) q)"

lemma ack_not_ping: "codec_typed J \<Longrightarrow> \<not> is_ping J \<lparr>fr_source = a, fr_payload = json_dumps J (message ''ack'' s)\<rparr>"
proof
  assume J: "codec_typed J" and "is_ping J \<lparr>fr_source = a, fr_payload = json_dumps J (message ''ack'' s)\<rparr>"
  then obtain d where d: "json_loads J (json_dumps J (message ''ack'' s)) = Inr (PDict d)"
    "py_eq (item d ''type'') (PStr ''ping'')" by (auto simp: is_ping_def)
  have "item d ''type'' = PStr ''ack''" using J d(1) unfolding codec_typed_def by (metis Inr_inject pyval.inject(6))
  then show False using d(2) by simp
qed

lemma handle_frame_net:
  assumes "handle_frame T J learn f (s, t) = (r, s', t')"
  shows "t' = t \<or> (is_ping J f \<and> (\<exists>dest s0. t' = snd (tr_send T dest (json_dumps J (message ''ack'' s0)) t)))"
  using assms
  by (auto simp: handle_frame_def Let_def is_dict_iff is_ping_def send_msg_def encode_def
      split: sum.splits prod.splits if_splits) (metis snd_conv)

lemma send_weight:
  assumes "sb own = Some q" "\<not> is_ping J \<lparr>fr_source = own, fr_payload = p\<rparr>"
  shows "\<exists>q'. snd (tr_send (mem_transport own) dest p sb) own = Some q' \<and> weight J q' \<le> Suc (weight J q)"
  using assms by (auto simp: mem_transport_def mem_send_def sb_deliver_def weight_def split: option.splits)

lemma receive_all_terminates:
  assumes J: "codec_typed J"
  shows "sb own = Some q \<Longrightarrow> \<exists>res. receive_all (mem_transport own) J learn (s, sb) = Some res"
proof (induction "weight J q" arbitrary: q s sb rule: less_induct)
  case less
  show ?case
  proof (cases q)
    case Nil
    then show ?thesis
      using less.prems by (subst receive_all.simps) (simp add: switchboard_net.receive_empty)
  next
    case (Cons f q1)
    then have recv: "tr_receive (mem_transport own) sb = (Inr (Some f), sb(own \<mapsto> q1))"
      using less.prems by (simp add: mem_transport_def mem_receive_def sb_drain_one_def)
    obtain r s1 sb1 where h: "handle_frame (mem_transport own) J learn f (s, sb(own \<mapsto> q1)) = (r, s1, sb1)"
      by (cases "handle_frame (mem_transport own) J learn f (s, sb(own \<mapsto> q1))")
    have "\<exists>q2. sb1 own = Some q2 \<and> weight J q2 < weight J q"
      using handle_frame_net[OF h] send_weight[of "sb(own \<mapsto> q1)" own q1 J] ack_not_ping[OF J, of own] Cons
      by (fastforce simp: weight_def)
    then have "\<exists>res. receive_all (mem_transport own) J learn (s1, sb1) = Some res"
      using less.hyps by blast
    then show ?thesis
      by (subst receive_all.simps) (auto simp: recv h split: sum.splits)
  qed
qed

text \<open>C37. A tick over the in-process network always ends: the node drains its inbox, pings it sends to
  itself included, in finitely many steps.\<close>

theorem tick_terminates:
  assumes "codec_typed J"
  shows "\<exists>r s' sb'. swim_tick (mem_transport own) J learn (s, sb) = Some (r, s', sb')"
proof -
  have "\<exists>res. receive_all (mem_transport own) J learn (s, sb) = Some res"
  proof (cases "sb own")
    case None
    then show ?thesis
      by (subst receive_all.simps) (simp add: mem_transport_def mem_receive_def sb_drain_one_def)
  next
    case (Some q)
    then show ?thesis by (rule receive_all_terminates[OF assms])
  qed
  then show ?thesis by (auto simp: swim_tick_def Let_def split: sum.splits) (metis prod_cases3)
qed


section \<open>A concrete node\<close>

text \<open>A codec that writes only the type of a message, and reads \<open>x\<close> and \<open>y\<close> as gossip from \<open>b\<close>.\<close>

definition demo_gossip :: "string \<Rightarrow> pyval" where
  "demo_gossip nid =
     PDict [(''type'', PStr ''news''), (''from'', PStr ''b''),
            (''gossip'', PList [PList [PStr nid, PInt 0, PStr ''alive'']])]"

definition demo_codec :: codec where
  "demo_codec =
     \<lparr>json_loads = (\<lambda>x. if x = ''x'' then Inr (demo_gossip ''ghost'')
                       else if x = ''y'' then Inr (demo_gossip ''spiffe://a'')
                       else Inr (PDict [(''type'', PStr (tl x))])),
      json_dumps = (\<lambda>v. CHR ''.'' # str_of (item (dict_of v) ''type'')),
      b64encode = id, b64decode = Some\<rparr>"

definition demo_node :: swim where
  "demo_node =
     \<lparr>sw_node_id = ''n'', sw_incarnation = 0, sw_suspect_after = 3, sw_dead_after = 3,
      sw_members = [(''a'', new_member ''a'' 0 ALIVE)], sw_seq = 0\<rparr>"


lemma demo_codec_typed: "codec_typed demo_codec"
  by (auto simp: codec_typed_def demo_codec_def message_def item_def)

lemma demo_merge:
  "merge_gossip learn [PList [PStr ''a'', PInt 0, PStr ''dead'']] demo_node =
     (Inr (), demo_node\<lparr>sw_members := [(''a'', (new_member ''a'' 0 ALIVE)\<lparr>mb_state := DEAD\<rparr>)]\<rparr>)"
  by (simp add: read_update_def member_state_of_def MAX_NODE_ID_LEN_def apply_update_def demo_node_def new_member_def)

theorem gossip_converges_witness:
  "view (demo_node\<lparr>sw_members := [(''a'', (new_member ''a'' 0 ALIVE)\<lparr>mb_state := DEAD\<rparr>)]\<rparr>) ''a'' =
     Some (Max {Claim 0 ALIVE, Claim 0 DEAD}) \<and>
   (\<exists>c'. view (demo_node\<lparr>sw_members := [(''a'', (new_member ''a'' 0 ALIVE)\<lparr>mb_state := DEAD\<rparr>)]\<rparr>) ''a'' = Some c' \<and>
     Claim 0 ALIVE \<le> c')"
proof -
  have "view demo_node ''a'' = Some (Claim 0 ALIVE)" by (simp add: view_def demo_node_def new_member_def)
  moreover have "{Claim inc st |inc st. \<exists>u\<in>set [PList [PStr ''a'', PInt 0, PStr ''dead'']].
      said u = Some (''a'', inc, st)} = {Claim 0 DEAD}"
    by (auto simp: read_update_def member_state_of_def MAX_NODE_ID_LEN_def)
  moreover note gossip_converges[OF demo_merge demo_merge refl _ _ _ refl refl,
      of "''a''" "\<lambda>_. True" "\<lambda>_. True"]
  ultimately show ?thesis by (simp add: demo_node_def)
qed



theorem tick_terminates_witness:
  "\<exists>r s' sb'. swim_tick (mem_transport ''n'') demo_codec (\<lambda>_. True) (demo_node, [''n'' \<mapsto> []]) = Some (r, s', sb')"
  by (rule tick_terminates[OF demo_codec_typed])

definition demo_net :: "string \<Rightarrow> switchboard" where
  "demo_net x = [''n'' \<mapsto> [\<lparr>fr_source = ''b'', fr_payload = x\<rparr>], ''b'' \<mapsto> []]"

definition lone_node :: swim where
  "lone_node = demo_node\<lparr>sw_members := []\<rparr>"

lemmas tick_eval =
  mem_transport_def mem_receive_def mem_send_def sb_drain_one_def sb_deliver_def demo_net_def
  handle_frame_def demo_codec_def demo_gossip_def lone_node_def demo_node_def read_update_def
  member_state_of_def MAX_NODE_ID_LEN_def apply_update_def new_member_def mark_heard_def item_def
  age_def age_member_def send_msg_def encode_def message_def Let_def state_of_def

definition demo_gate :: gate where
  "demo_gate = \<lparr>ga_policy = demo_rules, ga_tier = (\<lambda>nid. Inr (PStr ''prod'')), ga_key = None\<rparr>"

lemma demo_gate_learns:
  "may_learn demo_platform (Some demo_gate) ''spiffe://a''" "\<not> may_learn demo_platform (Some demo_gate) ''b''"
  by (simp_all add: may_learn_def demo_gate_def admit_peer_def rules_for_identity_def demo_rules_def
      pin_decision_def pattern_defs Let_def)

lemma gated_tick:
  "swim_tick (mem_transport ''n'') demo_codec (may_learn demo_platform (Some demo_gate)) (lone_node, demo_net ''y'') =
     Some (Inl transport_error,
       lone_node\<lparr>sw_members := [(''spiffe://a'', (new_member ''spiffe://a'' 0 ALIVE)\<lparr>mb_ticks := 1\<rparr>)], sw_seq := 1\<rparr>,
       [''b'' \<mapsto> [], ''n'' \<mapsto> []])"
  by (subst swim_tick_def, subst receive_all.simps, subst receive_all.simps)
     (simp add: tick_eval demo_gate_learns)

text \<open>One message can stop a node from probing: gossip that names an address nobody listens on is
  learned before its sender, the ping to it raises, and the tick ends with the exception, without
  a ping to the members after it.\<close>

lemma tick_stopped_by_gossip:
  "\<exists>s' sb'. swim_tick (mem_transport ''n'') demo_codec (\<lambda>_. True) (lone_node, demo_net ''x'') =
       Some (Inl transport_error, s', sb') \<and>
     map fst (sw_members s') = [''ghost'', ''b''] \<and> state_of s' ''b'' = Some ALIVE \<and> sb' ''b'' = Some []"
  by (subst swim_tick_def, subst receive_all.simps, subst receive_all.simps)
     (simp add: tick_eval)

end
