(* ===== verification/Routing.thy ===== *)
theory Routing
  imports Transport
begin

text \<open>
  Multi-hop forwarding (\<open>routing.py\<close>): the routed message, its wire form, and the decision of one
  router. \<open>relay\<close> composes the routers of a network: each forwarded message is handled next by the
  router it was forwarded to. The fields of a decoded message are \<open>pyval\<close>s until the constructor
  has checked them.
\<close>

section \<open>Routed messages\<close>

record routed =
  ro_dest :: string
  ro_ttl :: int
  ro_msg_id :: string
  ro_payload :: string

definition ROUTING_MAX_ID_LEN :: nat where
  "ROUTING_MAX_ID_LEN = 256"

definition new_routed :: "pyval \<Rightarrow> pyval \<Rightarrow> pyval \<Rightarrow> string \<Rightarrow> exn + routed" where
  "new_routed dest ttl msg_id payload =
     (if \<not> is_str dest \<or> str_of dest = [] then Inl transport_error
      else if length (str_of dest) > ROUTING_MAX_ID_LEN then Inl transport_error
      else if \<not> is_str msg_id \<or> str_of msg_id = [] then Inl transport_error
      else if length (str_of msg_id) > ROUTING_MAX_ID_LEN then Inl transport_error
      else if \<not> is_int ttl then Inl transport_error
      else if int_of ttl < 0 then Inl transport_error
      else Inr \<lparr>ro_dest = str_of dest, ro_ttl = int_of ttl, ro_msg_id = str_of msg_id,
                ro_payload = payload\<rparr>)"

definition routed_object :: "codec \<Rightarrow> routed \<Rightarrow> pyval" where
  "routed_object J m =
     PDict [(''dest'', PStr (ro_dest m)), (''ttl'', PInt (ro_ttl m)), (''msg_id'', PStr (ro_msg_id m)),
            (''payload_b64'', PStr (b64encode J (ro_payload m)))]"

definition routed_to_json :: "codec \<Rightarrow> routed \<Rightarrow> string" where
  "routed_to_json J m = json_dumps J (routed_object J m)"

definition routed_from_json :: "codec \<Rightarrow> string \<Rightarrow> exn + routed" where
  "routed_from_json J data =
     (case json_loads J data of
        Inl e \<Rightarrow> if value_or_type_error e then Inl transport_error else Inl e
      | Inr obj \<Rightarrow>
          if \<not> is_dict obj then Inl transport_error
          else let d = dict_of obj in
            if \<not> list_all (has_key d) [''dest'', ''ttl'', ''msg_id'', ''payload_b64''] then Inl transport_error
            else if \<not> is_str (item d ''payload_b64'') then Inl transport_error
            else case b64decode J (str_of (item d ''payload_b64'')) of
              None \<Rightarrow> Inl transport_error
            | Some payload \<Rightarrow> new_routed (item d ''dest'') (item d ''ttl'') (item d ''msg_id'') payload)"


section \<open>The router\<close>

record router =
  rt_node_id :: string
  rt_default_ttl :: int
  rt_seen :: "string set"

datatype routing_decision =
    Deliver string
  | Forward string routed
  | Drop string

definition new_router :: "string \<Rightarrow> int \<Rightarrow> exn + router" where
  "new_router node_id default_ttl =
     (if node_id = [] then Inl (std_error ''ValueError'')
      else if default_ttl < 1 then Inl (std_error ''ValueError'')
      else Inr \<lparr>rt_node_id = node_id, rt_default_ttl = default_ttl, rt_seen = {}\<rparr>)"

definition originate :: "string \<Rightarrow> string \<Rightarrow> string \<Rightarrow> router \<Rightarrow> exn + routed" where
  "originate dest payload msg_id r =
     new_routed (PStr dest) (PInt (rt_default_ttl r)) (PStr msg_id) payload"

definition handle ::
  "(string \<Rightarrow> string option) \<Rightarrow> (string \<Rightarrow> bool) \<Rightarrow> routed \<Rightarrow> router \<Rightarrow> routing_decision \<times> router" where
  "handle next_hop is_routable m r =
     (if ro_msg_id m \<in> rt_seen r then (Drop ''duplicate'', r)
      else let r' = r\<lparr>rt_seen := insert (ro_msg_id m) (rt_seen r)\<rparr> in
        if ro_dest m = rt_node_id r then (Deliver (ro_payload m), r')
        else let ttl = ro_ttl m - 1 in
          if ttl \<le> 0 then (Drop ''ttl_exhausted'', r')
          else case next_hop (ro_dest m) of
            None \<Rightarrow> (Drop ''no_route'', r')
          | Some nh \<Rightarrow>
              if \<not> is_routable nh then (Drop ''next_hop_not_admitted'', r')
              else (Forward nh (m\<lparr>ro_ttl := ttl\<rparr>), r'))"

lemma handle_forward:
  assumes "handle next_hop is_routable m r = (Forward nh m', r')"
  shows "is_routable nh" "next_hop (ro_dest m) = Some nh" "m' = m\<lparr>ro_ttl := ro_ttl m - 1\<rparr>" "1 < ro_ttl m"
    "ro_dest m \<noteq> rt_node_id r" "ro_msg_id m \<notin> rt_seen r"
    "r' = r\<lparr>rt_seen := insert (ro_msg_id m) (rt_seen r)\<rparr>"
  using assms by (auto simp: handle_def Let_def split: if_splits option.splits)

lemma handle_ttl:
  "handle next_hop is_routable m r = (Forward nh m', r') \<Longrightarrow> nat (ro_ttl m') < nat (ro_ttl m)"
  using handle_forward(3,4)[of next_hop is_routable m r nh m' r'] by simp

lemma handle_deliver:
  assumes "handle next_hop is_routable m r = (Deliver p, r')"
  shows "ro_dest m = rt_node_id r" "p = ro_payload m" "ro_msg_id m \<notin> rt_seen r"
  using assms by (auto simp: handle_def Let_def split: if_splits option.splits)

lemma handle_frame_rule:
  "handle next_hop is_routable m r = (d, r') \<Longrightarrow>
   rt_node_id r' = rt_node_id r \<and> rt_seen r' = insert (ro_msg_id m) (rt_seen r)"
  by (auto simp: handle_def Let_def split: if_splits option.splits)


section \<open>A network of routers\<close>

text \<open>\<open>nh n\<close> and \<open>ok n\<close> are the resolver and the gate of node \<open>n\<close>, \<open>R n\<close> its router. The result is
  the nodes that handled the message, in order, and the last decision.\<close>

function relay ::
  "(string \<Rightarrow> string \<Rightarrow> string option) \<Rightarrow> (string \<Rightarrow> string \<Rightarrow> bool) \<Rightarrow> string \<Rightarrow> routed \<Rightarrow>
   (string \<Rightarrow> router) \<Rightarrow> string list \<times> routing_decision \<times> (string \<Rightarrow> router)" where
  "relay nh ok n m R =
     (case handle (nh n) (ok n) m (R n) of
        (Forward n' m', r') \<Rightarrow>
          (case relay nh ok n' m' (R(n := r')) of (path, d, R') \<Rightarrow> (n # path, d, R'))
      | (d, r') \<Rightarrow> ([n], d, R(n := r')))"
  by pat_completeness auto
termination
  by (relation "measure (\<lambda>(nh, ok, n, m, R). nat (ro_ttl m))")
     (auto dest!: handle_ttl[OF sym])

declare relay.simps [simp del]

lemma relay_stop:
  "handle (nh n) (ok n) m (R n) = (d, r') \<Longrightarrow> \<forall>n' m'. d \<noteq> Forward n' m' \<Longrightarrow>
   relay nh ok n m R = ([n], d, R(n := r'))"
  by (subst relay.simps) (auto split: routing_decision.splits)

lemma relay_step:
  "handle (nh n) (ok n) m (R n) = (Forward n' m', r') \<Longrightarrow>
   relay nh ok n m R = (case relay nh ok n' m' (R(n := r')) of (path, d, R') \<Rightarrow> (n # path, d, R'))"
  by (subst relay.simps) simp

text \<open>The nodes that have handled a message.\<close>

definition handled :: "string \<Rightarrow> (string \<Rightarrow> router) \<Rightarrow> string set" where
  "handled msg_id R = {n. msg_id \<in> rt_seen (R n)}"

fun hops_ok :: "(string \<Rightarrow> string \<Rightarrow> bool) \<Rightarrow> string list \<Rightarrow> bool" where
  "hops_ok ok (a # b # ns) = (ok a b \<and> hops_ok ok (b # ns))"
| "hops_ok ok ns = True"

lemma relay_facts:
  assumes "relay nh ok n m R = (path, d, R')" "\<forall>k. rt_node_id (R k) = k"
  shows "path \<noteq> [] \<and> hd path = n \<and> hops_ok ok path \<and> int (length path) \<le> max 1 (ro_ttl m) \<and>
    set (butlast path) \<inter> handled (ro_msg_id m) R = {} \<and> distinct (butlast path) \<and>
    (\<forall>n' m'. d \<noteq> Forward n' m') \<and>
    (\<forall>p. d = Deliver p \<longrightarrow> p = ro_payload m \<and> last path = ro_dest m \<and>
       last path \<notin> handled (ro_msg_id m) R \<and> distinct path)"
  using assms
proof (induction nh ok n m R arbitrary: path rule: relay.induct)
  case (1 nh ok n m R)
  obtain d1 r' where h: "handle (nh n) (ok n) m (R n) = (d1, r')" by fastforce
  show ?case
  proof (cases "\<exists>n' m'. d1 = Forward n' m'")
    case False
    then have "path = [n]" "d = d1" using relay_stop[where nh = nh and ok = ok and R = R, OF h] "1.prems"(1) by auto
    then show ?thesis using False handle_deliver[of "nh n" "ok n" m "R n"] h "1.prems"(2)
      by (auto simp: handled_def)
  next
    case True
    then obtain n' m' where fwd: "handle (nh n) (ok n) m (R n) = (Forward n' m', r')" using h by auto
    note f = handle_forward[OF fwd]
    obtain path' where rec: "relay nh ok n' m' (R(n := r')) = (path', d, R')" and path: "path = n # path'"
      using "1.prems"(1) relay_step[where nh = nh and ok = ok and R = R, OF fwd] by (auto split: prod.splits)
    have "\<forall>k. rt_node_id ((R(n := r')) k) = k" using "1.prems"(2) f(7) by simp
    note ih = "1.IH"[OF fwd[symmetric] refl rec this]
    have seen: "handled (ro_msg_id m') (R(n := r')) = insert n (handled (ro_msg_id m) R)"
      using f(3,7) by (auto simp: handled_def)
    note IH = ih[unfolded seen]
    have n: "n \<notin> handled (ro_msg_id m) R" using f(6) by (simp add: handled_def)
    have hops: "hops_ok ok path" using IH f(1) path by (cases path') auto
    have len: "int (length path) \<le> max 1 (ro_ttl m)" using IH f(3,4) path by simp
    have new: "set (butlast path') \<inter> insert n (handled (ro_msg_id m) R) = {}" "path' \<noteq> []"
      "distinct (butlast path')" using IH by blast+
    have "set (butlast path) \<inter> handled (ro_msg_id m) R = {}" "distinct (butlast path)"
      using new n path by auto
    moreover have "\<forall>p. d = Deliver p \<longrightarrow> p = ro_payload m \<and> last path = ro_dest m \<and>
        last path \<notin> handled (ro_msg_id m) R \<and> distinct path"
    proof (intro allI impI)
      fix p assume "d = Deliver p"
      then have i: "p = ro_payload m'" "last path' = ro_dest m'"
        "last path' \<notin> insert n (handled (ro_msg_id m) R)" "distinct path'" using IH by blast+
      have "set path' = insert (last path') (set (butlast path'))"
        using new(2) by (cases path' rule: rev_cases) auto
      then have "n \<notin> set path'" using new(1) i(3) by auto
      then show "p = ro_payload m \<and> last path = ro_dest m \<and> last path \<notin> handled (ro_msg_id m) R \<and> distinct path"
        using i f(3) path new(2) by simp
    qed
    moreover have "path \<noteq> []" "hd path = n" using path by simp_all
    moreover have "\<forall>n' m'. d \<noteq> Forward n' m'" using IH by blast
    ultimately show ?thesis using hops len by blast
  qed
qed


section \<open>Properties\<close>

text \<open>C9. Forwarding is loop-safe and deny-by-default: a message visits at most as many routers as its
  time to live, no router forwards it twice, every hop is one the forwarding router admits, and if
  it is delivered then unchanged and at its destination.\<close>

theorem relay_safe:
  assumes "\<forall>k. rt_node_id (R k) = k"
  shows "case relay nh ok n m R of (path, d, R') \<Rightarrow>
    int (length path) \<le> max 1 (ro_ttl m) \<and> distinct (butlast path) \<and> hops_ok ok path \<and>
    (\<forall>n' m'. d \<noteq> Forward n' m') \<and>
    (\<forall>p. d = Deliver p \<longrightarrow> p = ro_payload m \<and> last path = ro_dest m \<and> distinct path)"
proof -
  obtain path d R' where r: "relay nh ok n m R = (path, d, R')" by (cases "relay nh ok n m R")
  show ?thesis using relay_facts[OF r assms] by (simp add: r)
qed

text \<open>If the tables lead to the destination by admitted hops, the message has not been seen and its
  time to live exceeds the distance, then it is delivered.\<close>

lemma relay_delivers:
  assumes "\<forall>k. rt_node_id (R k) = k" "ro_msg_id m \<notin> \<Union> (rt_seen ` range R)"
    and "\<forall>k. k \<noteq> ro_dest m \<longrightarrow> (\<exists>k'. nh k (ro_dest m) = Some k' \<and> ok k k' \<and> (far k' :: nat) < far k)"
    and "int (far n) < ro_ttl m"
  shows "fst (snd (relay nh ok n m R)) = Deliver (ro_payload m)"
proof -
  have "fst (snd (relay nh ok n m R)) = Deliver (ro_payload m)"
    if "\<forall>k. rt_node_id (R k) = k" "\<forall>k. far k \<le> far n \<longrightarrow> ro_msg_id m \<notin> rt_seen (R k)"
      "\<forall>k. k \<noteq> ro_dest m \<longrightarrow> (\<exists>k'. nh k (ro_dest m) = Some k' \<and> ok k k' \<and> far k' < far k)"
      "int (far n) < ro_ttl m" for R n m
    using that
  proof (induction "far n" arbitrary: n m R rule: less_induct)
    case less
    have seen: "ro_msg_id m \<notin> rt_seen (R n)" using less.prems(2) by simp
    show ?case
    proof (cases "n = ro_dest m")
      case True
      then have "handle (nh n) (ok n) m (R n) =
          (Deliver (ro_payload m), (R n)\<lparr>rt_seen := insert (ro_msg_id m) (rt_seen (R n))\<rparr>)"
        using seen less.prems(1) by (simp add: handle_def Let_def)
      from relay_stop[where nh = nh and ok = ok and R = R, OF this] show ?thesis by simp
    next
      case False
      then obtain k where k: "nh n (ro_dest m) = Some k" "ok n k" "far k < far n" using less.prems(3) by blast
      let ?r = "(R n)\<lparr>rt_seen := insert (ro_msg_id m) (rt_seen (R n))\<rparr>"
      have h: "handle (nh n) (ok n) m (R n) = (Forward k (m\<lparr>ro_ttl := ro_ttl m - 1\<rparr>), ?r)"
        using seen less.prems(1,4) False k by (simp add: handle_def Let_def)
      let ?m = "m\<lparr>ro_ttl := ro_ttl m - 1\<rparr>" and ?R = "R(n := ?r)"
      have "\<forall>k. rt_node_id (?R k) = k" using less.prems(1) by simp
      moreover have "\<forall>j. far j \<le> far k \<longrightarrow> ro_msg_id ?m \<notin> rt_seen (?R j)"
        using less.prems(2) k(3) by auto
      moreover have "\<forall>k. k \<noteq> ro_dest ?m \<longrightarrow> (\<exists>k'. nh k (ro_dest ?m) = Some k' \<and> ok k k' \<and> far k' < far k)"
        using less.prems(3) by simp
      moreover have "int (far k) < ro_ttl ?m" using less.prems(4) k(3) by simp
      ultimately have "fst (snd (relay nh ok k ?m ?R)) = Deliver (ro_payload ?m)"
        by (rule less.hyps[OF k(3)])
      then show ?thesis using relay_step[where nh = nh and ok = ok and R = R, OF h]
        by (auto simp: case_prod_beta)
    qed
  qed
  then show ?thesis using assms by simp
qed

text \<open>A message survives the wire: decoding what \<open>to_json\<close> wrote gives the message back, for every
  message the constructor accepts.\<close>

lemma routed_roundtrip:
  assumes "new_routed dest ttl msg_id payload = Inr m"
    and "json_loads J (json_dumps J (routed_object J m)) = Inr (routed_object J m)"
    and "b64decode J (b64encode J payload) = Some payload"
  shows "routed_from_json J (routed_to_json J m) = Inr m"
proof -
  have p: "ro_payload m = payload" using assms(1) by (auto simp: new_routed_def split: if_splits)
  have "new_routed (PStr (ro_dest m)) (PInt (ro_ttl m)) (PStr (ro_msg_id m)) payload = Inr m"
    using assms(1) by (auto simp: new_routed_def split: if_splits)
  then show ?thesis
    using assms(2,3) p
    by (simp add: routed_from_json_def routed_to_json_def routed_object_def has_key_def item_def Let_def)
qed

text \<open>A line of three nodes.\<close>

definition line_hop :: "string \<Rightarrow> string \<Rightarrow> string option" where
  "line_hop n dest = (if n = ''a'' then Some ''b'' else if n = ''b'' then Some ''c'' else Some ''a'')"

definition line_router :: "string \<Rightarrow> router" where
  "line_router n = \<lparr>rt_node_id = n, rt_default_ttl = 8, rt_seen = {}\<rparr>"

definition line_message :: routed where
  "line_message = \<lparr>ro_dest = ''c'', ro_ttl = 8, ro_msg_id = ''1'', ro_payload = ''hi''\<rparr>"

lemma line_routers: "\<forall>k. rt_node_id (line_router k) = k"
  by (simp add: line_router_def)

theorem relay_safe_witness:
  "case relay line_hop (\<lambda>_ _. True) ''a'' line_message line_router of (path, d, R') \<Rightarrow> length path \<le> 8"
  using relay_safe[OF line_routers, where nh = line_hop and ok = "\<lambda>_ _. True" and n = "''a''" and m = line_message]
  by (auto simp: line_message_def split: prod.splits)

end
