(* ===== verification/Mesh.thy ===== *)
theory Mesh
  imports Discovery Eclipse Membership Routing
begin

text \<open>
  What composes the parts of the mesh: \<open>GossipDiscovery\<close> (\<open>gossip_discovery.py\<close>), which joins
  liveness and admission, and \<open>MeshNode\<close> (\<open>node.py\<close>), which learns peers from signed records,
  selects the active ones with bounded trust-domain share and sends to admitted peers only. The
  issuer lookup, the transport and the float rounding are arguments.
\<close>

section \<open>Gossip discovery\<close>

text \<open>\<open>peer_tier\<close> may raise or know no tier. The set of alive identifiers is visited in table order;
  the order matters only for which exception leaves first.\<close>

record gossip_discovery =
  gd_membership :: swim
  gd_admission :: "admission_rule list"
  gd_peer_tier :: "string \<Rightarrow> exn + string option"

definition admits_alive :: "platform \<Rightarrow> gossip_discovery \<Rightarrow> string \<Rightarrow> exn + bool" where
  "admits_alive P gd pid =
     bindE (gd_peer_tier gd pid) (\<lambda>tier.
       case tier of
         None \<Rightarrow> Inr False
       | Some t \<Rightarrow> bindE (admit_peer P pid t (gd_admission gd) None) (\<lambda>d. Inr (ad_allowed d)))"

fun collect_routable :: "platform \<Rightarrow> gossip_discovery \<Rightarrow> string list \<Rightarrow> exn + string list" where
  "collect_routable P gd [] = Inr []"
| "collect_routable P gd (pid # pids) =
     bindE (admits_alive P gd pid) (\<lambda>ok.
     bindE (collect_routable P gd pids) (\<lambda>out. Inr (if ok then pid # out else out)))"

definition routable_peers :: "platform \<Rightarrow> gossip_discovery \<Rightarrow> exn + string list" where
  "routable_peers P gd = collect_routable P gd (alive_ids (gd_membership gd))"

definition is_routable :: "platform \<Rightarrow> gossip_discovery \<Rightarrow> string \<Rightarrow> exn + bool" where
  "is_routable P gd nid = bindE (routable_peers P gd) (\<lambda>out. Inr (nid \<in> set out))"

definition gd_join :: "'t transport \<Rightarrow> codec \<Rightarrow> gossip_discovery \<times> 't \<Rightarrow> (exn + unit) \<times> gossip_discovery \<times> 't" where
  "gd_join T J st =
     (case swim_join T J (gd_membership (fst st), snd st) of
        (r, s, t) \<Rightarrow> (r, (fst st)\<lparr>gd_membership := s\<rparr>, t))"

definition gd_tick ::
  "'t transport \<Rightarrow> codec \<Rightarrow> (string \<Rightarrow> bool) \<Rightarrow> gossip_discovery \<times> 't \<Rightarrow>
   ((exn + unit) \<times> gossip_discovery \<times> 't) option" where
  "gd_tick T J learn st =
     map_option (\<lambda>(r, s, t). (r, (fst st)\<lparr>gd_membership := s\<rparr>, t))
       (swim_tick T J learn (gd_membership (fst st), snd st))"


section \<open>Mesh nodes\<close>

abbreviation mesh_node_error :: exn where
  "mesh_node_error \<equiv> repo_error ''MeshNodeError''"

record peer =
  pr_spiffe_id :: string
  pr_kid :: string
  pr_transport_address :: string
  pr_learned_at :: datetime

record learn_result =
  lr_admitted :: bool
  lr_reason_code :: string
  lr_peer :: "peer option"

record mesh_node =
  mn_spiffe_id :: string
  mn_env_tier :: string
  mn_policy :: "admission_rule list"
  mn_rule :: diversity_rule
  mn_peers :: "(string \<times> peer) list"

definition new_mesh_node :: "string \<Rightarrow> string \<Rightarrow> admission_rule list \<Rightarrow> diversity_rule \<Rightarrow> exn + mesh_node" where
  "new_mesh_node spiffe_id env_tier policy rule =
     (if spiffe_id = [] then Inl mesh_node_error
      else if env_tier = [] then Inl mesh_node_error
      else Inr \<lparr>mn_spiffe_id = spiffe_id, mn_env_tier = env_tier, mn_policy = policy, mn_rule = rule,
                mn_peers = []\<rparr>)"

definition learn_denied :: "string \<Rightarrow> learn_result" where
  "learn_denied code = \<lparr>lr_admitted = False, lr_reason_code = code, lr_peer = None\<rparr>"

definition learn_peer ::
  "platform \<Rightarrow> (string \<Rightarrow> string \<Rightarrow> exn + string) \<Rightarrow> datetime \<Rightarrow> discovery_record \<Rightarrow> mesh_node \<Rightarrow>
   (exn + learn_result) \<times> mesh_node" where
  "learn_peer P issuer_lookup now r node =
     (case fst (verify_record P issuer_lookup DEFAULT_DISCOVERY_CONFIG None now r ()) of
        Inl e \<Rightarrow>
          (Inr (learn_denied (if reason_code e \<noteq> [] then reason_code e else ''discovery_verify_failed'')), node)
      | Inr _ \<Rightarrow>
          if di_endpoints r = [] then (Inr (learn_denied ''discovery_no_endpoints''), node)
          else case admit_peer P (str_of (di_workload_iss r)) (mn_env_tier node) (mn_policy node) None of
            Inl e \<Rightarrow> (Inl e, node)
          | Inr d \<Rightarrow>
              if \<not> ad_allowed d then (Inr (learn_denied (ad_reason_code d)), node)
              else let p = \<lparr>pr_spiffe_id = str_of (di_workload_iss r), pr_kid = str_of (di_workload_kid r),
                            pr_transport_address = str_of (hd (di_endpoints r)), pr_learned_at = now\<rparr>
                in (Inr \<lparr>lr_admitted = True, lr_reason_code = ''ok'', lr_peer = Some p\<rparr>,
                    node\<lparr>mn_peers := dset (pr_spiffe_id p) p (mn_peers node)\<rparr>))"

fun peer_candidates :: "peer list \<Rightarrow> exn + candidate list" where
  "peer_candidates [] = Inr []"
| "peer_candidates (p # ps) =
     bindE (new_candidate (pr_spiffe_id p) (pr_kid p) (pr_learned_at p)) (\<lambda>c.
     bindE (peer_candidates ps) (\<lambda>cs. Inr (c # cs)))"

definition routing_table :: "(rat \<Rightarrow> rat) \<Rightarrow> mesh_node \<Rightarrow> exn + peer list" where
  "routing_table rnd node =
     bindE (peer_candidates (dvals (mn_peers node))) (\<lambda>candidates.
     bindE (select_neighbors rnd candidates (mn_rule node) None) (\<lambda>selection.
       let selected_ids = nc_iss ` set (ns_selected selection) in
       Inr (filter (\<lambda>p. pr_spiffe_id p \<in> selected_ids) (dvals (mn_peers node)))))"

definition known_peer :: "mesh_node \<Rightarrow> string \<Rightarrow> peer option" where
  "known_peer node spiffe_id = dget (mn_peers node) spiffe_id"

definition send_to :: "'t transport \<Rightarrow> mesh_node \<Rightarrow> string \<Rightarrow> string \<Rightarrow> 't \<Rightarrow> (exn + unit) \<times> 't" where
  "send_to T node peer_spiffe_id payload t =
     (case dget (mn_peers node) peer_spiffe_id of
        None \<Rightarrow> (Inl mesh_node_error, t)
      | Some p \<Rightarrow> tr_send T (pr_transport_address p) payload t)"

definition node_receive :: "'t transport \<Rightarrow> 't \<Rightarrow> (exn + frame option) \<times> 't" where
  "node_receive T t = tr_receive T t"


section \<open>Routable peers\<close>

lemma collect_routable_Inr:
  "collect_routable P gd pids = Inr out \<Longrightarrow> set out = {pid \<in> set pids. admits_alive P gd pid = Inr True}"
  by (induction pids arbitrary: out) (auto split: if_splits)

lemma is_routable_True:
  assumes "is_routable P gd nid = Inr True"
  shows "nid \<in> set (alive_ids (gd_membership gd))"
    "\<exists>tier. gd_peer_tier gd nid = Inr (Some tier) \<and> (\<exists>r\<in>set (gd_admission gd). admits P r nid tier None)"
proof -
  obtain out where "routable_peers P gd = Inr out" "nid \<in> set out" using assms by (auto simp: is_routable_def)
  then have "nid \<in> set (alive_ids (gd_membership gd))" "admits_alive P gd nid = Inr True"
    using collect_routable_Inr by (auto simp: routable_peers_def)
  then show "nid \<in> set (alive_ids (gd_membership gd))"
    "\<exists>tier. gd_peer_tier gd nid = Inr (Some tier) \<and> (\<exists>r\<in>set (gd_admission gd). admits P r nid tier None)"
    using admit_peer_sound by (auto simp: admits_alive_def split: option.splits)
qed

lemma alive_ids_state:
  assumes "swim_inv learn seeds s" "nid \<in> set (alive_ids s)"
  shows "state_of s nid = Some ALIVE"
proof -
  obtain k m where m: "(k, m) \<in> set (sw_members s)" "mb_state m = ALIVE" "mb_node_id m = nid"
    using assms(2) by (auto simp: alive_ids_def dvals_def)
  moreover have "mb_node_id m = k" "dict_wf (sw_members s)" using assms(1) m(1) by (auto simp: swim_inv_def)
  ultimately show ?thesis by (simp add: state_of_def dict_wf_def)
qed

lemma hops_ok_nth: "hops_ok ok path \<Longrightarrow> Suc i < length path \<Longrightarrow> ok (path ! i) (path ! Suc i)"
proof (induction ok path arbitrary: i rule: hops_ok.induct)
  case (1 ok a b ns)
  then show ?case by (cases i) auto
qed auto

text \<open>Discovery is not authorization: when every router of a mesh asks the gossip discovery of its
  node before it forwards, then whatever gossip the nodes have received and whatever the routing
  tables say, each hop of a message goes to a node that the forwarding one believes alive and
  that its own admission policy admits for the tier its resolver gives.\<close>

lemma hops_alive_and_admitted:
  assumes "\<forall>k. rt_node_id (R k) = k" "\<forall>k. swim_reachable J (learn k) (seeds k) (gd_membership (gd k))"
    and "relay nh (\<lambda>k nid. is_routable P (gd k) nid = Inr True) n m R = (path, d, R')"
    and "Suc i < length path"
  shows "state_of (gd_membership (gd (path ! i))) (path ! Suc i) = Some ALIVE \<and>
    (\<exists>tier. gd_peer_tier (gd (path ! i)) (path ! Suc i) = Inr (Some tier) \<and>
       (\<exists>r\<in>set (gd_admission (gd (path ! i))). admits P r (path ! Suc i) tier None))"
proof -
  have "is_routable P (gd (path ! i)) (path ! Suc i) = Inr True"
    using relay_facts[OF assms(3,1)] hops_ok_nth assms(4) by blast
  from is_routable_True[OF this] alive_ids_state[OF swim_reachable_inv] assms(2) show ?thesis by blast
qed

text \<open>The gates of \<open>MeshNode\<close> and \<open>GossipDiscovery\<close> never present a key, so a rule that pins one
  admits nobody through them.\<close>

lemma pinned_never_routable:
  assumes "\<forall>r\<in>set (gd_admission gd). ar_spiffe_id r = nid \<longrightarrow> ar_pin r \<noteq> None"
  shows "is_routable P gd nid \<noteq> Inr True"
  using is_routable_True(2)[of P gd nid] assms by (fastforce simp: admits_def)


section \<open>What a node knows\<close>

definition vouched :: "platform \<Rightarrow> (string \<Rightarrow> string \<Rightarrow> exn + string) \<Rightarrow> mesh_node \<Rightarrow> peer \<Rightarrow> bool" where
  "vouched P lookup node p \<longleftrightarrow>
     (\<exists>r. discovery_ok P lookup DEFAULT_DISCOVERY_CONFIG (pr_learned_at p) r \<and>
        di_workload_iss r = PStr (pr_spiffe_id p) \<and> di_workload_kid r = PStr (pr_kid p) \<and>
        hd (di_endpoints r) = PStr (pr_transport_address p)) \<and>
     (\<exists>rule\<in>set (mn_policy node). admits P rule (pr_spiffe_id p) (mn_env_tier node) None)"

definition mesh_inv :: "platform \<Rightarrow> (string \<Rightarrow> string \<Rightarrow> exn + string) \<Rightarrow> mesh_node \<Rightarrow> bool" where
  "mesh_inv P lookup node \<longleftrightarrow> mn_env_tier node \<noteq> [] \<and> dict_wf (mn_peers node) \<and>
     (\<forall>(k, p)\<in>set (mn_peers node). pr_spiffe_id p = k \<and> vouched P lookup node p)"

lemma new_mesh_node_inv: "new_mesh_node i tier policy rule = Inr node \<Longrightarrow> mesh_inv P lookup node"
  by (auto simp: new_mesh_node_def mesh_inv_def split: if_splits)

lemma verify_record_silent:
  "verify_record P lookup cfg None t r () = (verify_record_inner P lookup cfg t r, ())"
  by (auto simp: verify_record_def emit_raw_def split: sum.splits)

definition peer_of :: "datetime \<Rightarrow> discovery_record \<Rightarrow> peer" where
  "peer_of now r =
     \<lparr>pr_spiffe_id = str_of (di_workload_iss r), pr_kid = str_of (di_workload_kid r),
      pr_transport_address = str_of (hd (di_endpoints r)), pr_learned_at = now\<rparr>"

lemma discovery_ok_peer:
  assumes "discovery_ok P lookup cfg now r"
  shows "di_workload_iss r = PStr (pr_spiffe_id (peer_of now r))" "spiffe_id_re (pr_spiffe_id (peer_of now r))"
    "di_workload_kid r = PStr (pr_kid (peer_of now r))" "kid_re (pr_kid (peer_of now r))"
    "di_endpoints r \<noteq> []" "hd (di_endpoints r) = PStr (pr_transport_address (peer_of now r))"
proof -
  have ne: "di_endpoints r \<noteq> []" and eps: "\<forall>ep\<in>set (di_endpoints r). \<exists>s. ep = PStr s"
    using assms by (auto simp: discovery_ok_def)
  then obtain s where "hd (di_endpoints r) = PStr s" using hd_in_set by blast
  then show "hd (di_endpoints r) = PStr (pr_transport_address (peer_of now r))" "di_endpoints r \<noteq> []"
    using ne by (simp_all add: peer_of_def)
  show "di_workload_iss r = PStr (pr_spiffe_id (peer_of now r))" "spiffe_id_re (pr_spiffe_id (peer_of now r))"
    "di_workload_kid r = PStr (pr_kid (peer_of now r))" "kid_re (pr_kid (peer_of now r))"
    using assms by (auto simp: discovery_ok_def peer_of_def)
qed

lemma learn_peer_cases:
  assumes "learn_peer P lookup now r node = (res, node')" "mn_env_tier node \<noteq> []"
  shows "(\<exists>l. res = Inr l \<and> \<not> lr_admitted l \<and> lr_peer l = None \<and> node' = node) \<or>
    (res = Inr \<lparr>lr_admitted = True, lr_reason_code = ''ok'', lr_peer = Some (peer_of now r)\<rparr> \<and>
     verify_record_inner P lookup DEFAULT_DISCOVERY_CONFIG now r = Inr r \<and>
     (\<exists>d. admit_peer P (pr_spiffe_id (peer_of now r)) (mn_env_tier node) (mn_policy node) None = Inr d \<and> ad_allowed d) \<and>
     node' = node\<lparr>mn_peers := dset (pr_spiffe_id (peer_of now r)) (peer_of now r) (mn_peers node)\<rparr>)"
proof (cases "verify_record_inner P lookup DEFAULT_DISCOVERY_CONFIG now r")
  case (Inl e)
  then show ?thesis using assms by (auto simp: learn_peer_def verify_record_silent learn_denied_def)
next
  case (Inr r')
  note v = verify_record_inner_ok[OF Inr]
  note p = discovery_ok_peer[OF conjunct2[OF v]]
  obtain d where d: "admit_peer P (pr_spiffe_id (peer_of now r)) (mn_env_tier node) (mn_policy node) None = Inr d"
    using p(2) assms(2)
    by (cases "rules_for_identity (mn_policy node) (pr_spiffe_id (peer_of now r)) = []")
       (simp_all add: admit_peer_def Let_def)
  have inner: "verify_record_inner P lookup DEFAULT_DISCOVERY_CONFIG now r = Inr r" using Inr v by simp
  have id: "pr_spiffe_id (peer_of now r) = str_of (di_workload_iss r)" by (simp add: peer_of_def)
  show ?thesis
  proof (cases "ad_allowed d")
    case True
    then have "(res, node') = (Inr \<lparr>lr_admitted = True, lr_reason_code = ''ok'', lr_peer = Some (peer_of now r)\<rparr>,
        node\<lparr>mn_peers := dset (pr_spiffe_id (peer_of now r)) (peer_of now r) (mn_peers node)\<rparr>)"
      using assms(1)[symmetric] inner p(5) d
      by (simp add: learn_peer_def verify_record_silent id Let_def) (simp add: peer_of_def)
    then show ?thesis using inner d True by simp
  next
    case False
    then have "(res, node') = (Inr (learn_denied (ad_reason_code d)), node)"
      using assms(1)[symmetric] inner p(5) d by (simp add: learn_peer_def verify_record_silent id)
    then show ?thesis by (simp add: learn_denied_def)
  qed
qed

lemma learn_peer_inv:
  assumes "learn_peer P lookup now r node = (res, node')" "mesh_inv P lookup node"
  shows "mesh_inv P lookup node'"
proof -
  have tier: "mn_env_tier node \<noteq> []" using assms(2) by (simp add: mesh_inv_def)
  have frame: "vouched P lookup (node\<lparr>mn_peers := ps\<rparr>) p = vouched P lookup node p" for ps p
    by (simp add: vouched_def)
  consider "node' = node" | (learned) d where
    "verify_record_inner P lookup DEFAULT_DISCOVERY_CONFIG now r = Inr r"
    "admit_peer P (pr_spiffe_id (peer_of now r)) (mn_env_tier node) (mn_policy node) None = Inr d" "ad_allowed d"
    "node' = node\<lparr>mn_peers := dset (pr_spiffe_id (peer_of now r)) (peer_of now r) (mn_peers node)\<rparr>"
    using learn_peer_cases[OF assms(1) tier] by blast
  then show ?thesis
  proof cases
    case learned
    have ok: "discovery_ok P lookup DEFAULT_DISCOVERY_CONFIG now r" using verify_record_inner_ok[OF learned(1)] by simp
    have "vouched P lookup node (peer_of now r)"
      unfolding vouched_def
    proof
      have "pr_learned_at (peer_of now r) = now" by (simp add: peer_of_def)
      then show "\<exists>r'. discovery_ok P lookup DEFAULT_DISCOVERY_CONFIG (pr_learned_at (peer_of now r)) r' \<and>
          di_workload_iss r' = PStr (pr_spiffe_id (peer_of now r)) \<and>
          di_workload_kid r' = PStr (pr_kid (peer_of now r)) \<and>
          hd (di_endpoints r') = PStr (pr_transport_address (peer_of now r))"
        using ok discovery_ok_peer(1,3,6)[OF ok] by metis
    qed (rule admit_peer_sound[OF learned(2,3)])
    then show ?thesis
      using assms(2) by (auto simp: mesh_inv_def learned(4) frame dest!: subsetD[OF set_dset])
  qed (use assms(2) in simp)
qed

text \<open>Every history of a node: sending and receiving do not change it.\<close>

inductive mesh_reachable :: "platform \<Rightarrow> (string \<Rightarrow> string \<Rightarrow> exn + string) \<Rightarrow> mesh_node \<Rightarrow> bool" for P lookup where
  mesh_created: "new_mesh_node i tier policy rule = Inr node \<Longrightarrow> mesh_reachable P lookup node"
| mesh_learned: "mesh_reachable P lookup node \<Longrightarrow> learn_peer P lookup now r node = (res, node') \<Longrightarrow>
     mesh_reachable P lookup node'"

lemma mesh_reachable_inv: "mesh_reachable P lookup node \<Longrightarrow> mesh_inv P lookup node"
  by (induction rule: mesh_reachable.induct) (auto intro: new_mesh_node_inv learn_peer_inv)

lemma mesh_inv_peer:
  assumes "mesh_inv P lookup node" "dget (mn_peers node) i = Some p"
  shows "pr_spiffe_id p = i" "vouched P lookup node p"
  using assms dget_mem[OF assms(2)] by (auto simp: mesh_inv_def)

text \<open>C4. A node talks only to peers it has authenticated and authorized: after any history, \<open>send_to\<close>
  either raises without touching the transport, or it sends to the first endpoint of a discovery
  record of that identity that a trusted issuer had signed and that was in its window when it
  was learned, and the node's policy admits the identity for the node's tier.\<close>

theorem send_to_vouched:
  assumes "mesh_reachable P lookup node" "send_to T node i payload t = (r, t')"
  shows "(r = Inl mesh_node_error \<and> t' = t \<and> known_peer node i = None) \<or>
    (\<exists>p record. known_peer node i = Some p \<and>
       discovery_ok P lookup DEFAULT_DISCOVERY_CONFIG (pr_learned_at p) record \<and>
       di_workload_iss record = PStr i \<and> hd (di_endpoints record) = PStr (pr_transport_address p) \<and>
       (\<exists>rule\<in>set (mn_policy node). admits P rule i (mn_env_tier node) None) \<and>
       tr_send T (pr_transport_address p) payload t = (r, t'))"
proof (cases "dget (mn_peers node) i")
  case None
  then show ?thesis using assms(2) by (simp add: send_to_def known_peer_def)
next
  case (Some p)
  from mesh_inv_peer[OF mesh_reachable_inv[OF assms(1)] Some] show ?thesis
    using assms(2) Some by (auto simp: send_to_def known_peer_def vouched_def)
qed

text \<open>\<open>learn_peer\<close> never raises; it admits the peer exactly if the record verifies and the policy
  admits its workload, and then that peer is known with the record's key and address; otherwise
  the node is unchanged. No other peer is affected.\<close>

lemma learn_peer_correct:
  assumes "learn_peer P lookup now r node = (res, node')" "mn_env_tier node \<noteq> []"
  shows "\<exists>l. res = Inr l \<and>
    lr_admitted l = (verify_record_inner P lookup DEFAULT_DISCOVERY_CONFIG now r = Inr r \<and>
       (\<exists>d. admit_peer P (str_of (di_workload_iss r)) (mn_env_tier node) (mn_policy node) None = Inr d \<and> ad_allowed d)) \<and>
    (if lr_admitted l then known_peer node' (str_of (di_workload_iss r)) = lr_peer l \<and> lr_peer l = Some (peer_of now r)
     else node' = node) \<and>
    (\<forall>i. i = str_of (di_workload_iss r) \<or> known_peer node' i = known_peer node i)"
proof -
  have id: "pr_spiffe_id (peer_of now r) = str_of (di_workload_iss r)" by (simp add: peer_of_def)
  consider (denied) l where "res = Inr l" "\<not> lr_admitted l" "node' = node"
    | (admitted) d where
      "res = Inr \<lparr>lr_admitted = True, lr_reason_code = ''ok'', lr_peer = Some (peer_of now r)\<rparr>"
      "verify_record_inner P lookup DEFAULT_DISCOVERY_CONFIG now r = Inr r"
      "admit_peer P (str_of (di_workload_iss r)) (mn_env_tier node) (mn_policy node) None = Inr d" "ad_allowed d"
      "node' = node\<lparr>mn_peers := dset (pr_spiffe_id (peer_of now r)) (peer_of now r) (mn_peers node)\<rparr>"
    using learn_peer_cases[OF assms, unfolded id] by (metis id)
  then show ?thesis
  proof cases
    case denied
    have False if inner: "verify_record_inner P lookup DEFAULT_DISCOVERY_CONFIG now r = Inr r"
      and d: "admit_peer P (str_of (di_workload_iss r)) (mn_env_tier node) (mn_policy node) None = Inr d" "ad_allowed d" for d
      using denied(1,2) assms(1) inner d discovery_ok_peer(5)[OF conjunct2[OF verify_record_inner_ok[OF inner]]]
      by (auto simp: learn_peer_def verify_record_silent Let_def)
    then show ?thesis using denied by auto
  next
    case admitted
    then show ?thesis by (auto simp: known_peer_def dget_dset id)
  qed
qed


section \<open>The routing table\<close>

definition candidate_of :: "peer \<Rightarrow> candidate" where
  "candidate_of p = \<lparr>nc_iss = pr_spiffe_id p, nc_kid = pr_kid p, nc_last_seen = pr_learned_at p\<rparr>"

lemma peer_candidates_vouched: "\<forall>p\<in>set ps. vouched P lookup node p \<Longrightarrow> peer_candidates ps = Inr (map candidate_of ps)"
proof (induction ps)
  case (Cons p ps)
  then obtain r where "discovery_ok P lookup DEFAULT_DISCOVERY_CONFIG (pr_learned_at p) r"
    "di_workload_iss r = PStr (pr_spiffe_id p)" "di_workload_kid r = PStr (pr_kid p)"
    by (auto simp: vouched_def)
  then have "spiffe_id_re (pr_spiffe_id p)" "kid_re (pr_kid p)" by (auto simp: discovery_ok_def)
  then show ?case using Cons by (simp add: new_candidate_def candidate_of_def)
qed simp

definition peer_domain :: "peer \<Rightarrow> string" where
  "peer_domain p = trust_domain (candidate_of p)"

lemma table_filter:
  assumes "distinct (map pr_spiffe_id ps)" "set cs \<subseteq> candidate_of ` set ps"
  shows "length (filter (\<lambda>p. pr_spiffe_id p \<in> nc_iss ` set cs \<and> Q (candidate_of p)) ps) \<le> length (filter Q cs)"
proof -
  let ?sel = "filter (\<lambda>p. pr_spiffe_id p \<in> nc_iss ` set cs \<and> Q (candidate_of p)) ps"
  have "candidate_of p \<in> set (filter Q cs)" if "p \<in> set ?sel" for p
  proof -
    from that have "pr_spiffe_id p \<in> nc_iss ` set cs" by simp
    then obtain c where c: "c \<in> set cs" "nc_iss c = pr_spiffe_id p" by (metis imageE)
    then obtain p' where p': "p' \<in> set ps" "c = candidate_of p'" using assms(2) by blast
    then have "pr_spiffe_id p' = pr_spiffe_id p" using c(2) by (simp add: candidate_of_def)
    then have "p' = p" using distinct_map_eq[OF assms(1)] p'(1) that by auto
    then show ?thesis using c(1) p'(2) that by simp
  qed
  then have "set (map candidate_of ?sel) \<subseteq> set (filter Q cs)" by auto
  moreover have "inj_on candidate_of (set ps)"
    by (rule inj_onI, rule distinct_map_eq[OF assms(1)]) (auto simp: candidate_of_def)
  then have "distinct (map candidate_of ?sel)"
    using assms(1) by (auto simp: distinct_map intro: inj_on_subset)
  ultimately have "length (map candidate_of ?sel) \<le> card (set (filter Q cs))"
    using card_mono[of "set (filter Q cs)" "set (map candidate_of ?sel)"] by (simp only: distinct_card finite_set)
  also have "\<dots> \<le> length (filter Q cs)" by (rule card_length)
  finally show ?thesis by simp
qed

text \<open>C7. The active peers of a node resist an eclipse: after any history \<open>routing_table\<close> returns, all
  its entries are peers the node has authenticated and admitted, there are at most
  \<open>target_count\<close> of them, and an adversary who controls the trust domains \<open>D\<close> holds at most
  \<open>max_per_trust_domain\<close> for each domain, however many identities it had admitted.\<close>

theorem routing_table_bounded:
  assumes "mesh_reachable P lookup node" "diversity_rule_ok (mn_rule node)" "finite D"
  shows "\<exists>table. routing_table rnd node = Inr table \<and>
    set table \<subseteq> {p. known_peer node (pr_spiffe_id p) = Some p \<and> vouched P lookup node p} \<and>
    int (length table) \<le> dv_target_count (mn_rule node) \<and>
    int (length (filter (\<lambda>p. peer_domain p \<in> D) table)) \<le> int (card D) * dv_max_per_trust_domain (mn_rule node)"
proof -
  let ?ps = "dvals (mn_peers node)"
  have inv: "mesh_inv P lookup node" by (rule mesh_reachable_inv[OF assms(1)])
  then have wf: "dict_wf (mn_peers node)" by (simp add: mesh_inv_def)
  have peers: "known_peer node (pr_spiffe_id p) = Some p \<and> vouched P lookup node p" if "p \<in> set ?ps" for p
    using that inv wf by (auto simp: mesh_inv_def dvals_def known_peer_def dict_wf_def)
  have keys: "map pr_spiffe_id ?ps = map fst (mn_peers node)" using inv by (auto simp: mesh_inv_def dvals_def)
  have cands: "peer_candidates ?ps = Inr (map candidate_of ?ps)" using peers peer_candidates_vouched by blast
  obtain s where s: "select_neighbors rnd (map candidate_of ?ps) (mn_rule node) None = Inr s"
    by (cases "select_walk (mn_rule node) (sort_key (freshness_key rnd) (map candidate_of ?ps)) [] [] (\<lambda>_. 0)")
       (simp add: select_neighbors_def)
  define table where "table = filter (\<lambda>p. pr_spiffe_id p \<in> nc_iss ` set (ns_selected s)) ?ps"
  have t: "routing_table rnd node = Inr table" by (simp add: routing_table_def cands s table_def)
  note f = select_neighbors_share[OF s assms(2,3)] 
  have sub: "set (ns_selected s) \<subseteq> candidate_of ` set ?ps" using f by simp
  note bound = table_filter[OF _ sub, unfolded keys, OF wf[unfolded dict_wf_def]]
  have "int (length table) \<le> dv_target_count (mn_rule node)"
    using bound[of "\<lambda>_. True"] f by (simp add: table_def)
  moreover have "int (length (filter (\<lambda>p. peer_domain p \<in> D) table)) \<le> int (card D) * dv_max_per_trust_domain (mn_rule node)"
    using bound[of "\<lambda>c. trust_domain c \<in> D"] f
    by (simp add: table_def peer_domain_def conj_commute)
  moreover have "set table \<subseteq> {p. known_peer node (pr_spiffe_id p) = Some p \<and> vouched P lookup node p}"
    using peers by (auto simp: table_def)
  ultimately show ?thesis using t by blast
qed


section \<open>A concrete mesh\<close>

definition demo_rule :: diversity_rule where
  "demo_rule = \<lparr>dv_target_count = 2, dv_max_per_trust_domain = 1, dv_min_distinct = 2\<rparr>"

definition demo_mesh_node :: mesh_node where
  "demo_mesh_node =
     \<lparr>mn_spiffe_id = ''spiffe://n'', mn_env_tier = ''prod'', mn_policy = demo_rules, mn_rule = demo_rule,
      mn_peers = []\<rparr>"

lemma demo_record_peer:
  "peer_of 0 demo_record = \<lparr>pr_spiffe_id = ''spiffe://a'', pr_kid = ''k'', pr_transport_address = ''a:1'', pr_learned_at = 0\<rparr>"
  by (simp add: peer_of_def demo_record_def)

definition demo_mesh_node2 :: mesh_node where
  "demo_mesh_node2 = demo_mesh_node\<lparr>mn_peers := [(''spiffe://a'', peer_of 0 demo_record)]\<rparr>"

lemma demo_learn:
  "learn_peer demo_platform demo_lookup 0 demo_record demo_mesh_node =
     (Inr \<lparr>lr_admitted = True, lr_reason_code = ''ok'', lr_peer = Some (peer_of 0 demo_record)\<rparr>, demo_mesh_node2)"
  by (simp add: learn_peer_def verify_record_silent demo_verified demo_mesh_node2_def demo_record_peer Let_def)
     (simp add: demo_record_def demo_mesh_node_def admit_peer_def rules_for_identity_def demo_rules_def
        pin_decision_def pattern_defs Let_def)

lemma demo_mesh_reachable: "mesh_reachable demo_platform demo_lookup demo_mesh_node2"
proof -
  have "new_mesh_node ''spiffe://n'' ''prod'' demo_rules demo_rule = Inr demo_mesh_node"
    by (simp add: new_mesh_node_def demo_mesh_node_def)
  from mesh_learned[OF mesh_created[OF this] demo_learn] show ?thesis .
qed

theorem send_to_vouched_witness:
  "tr_send (mem_transport ''n:1'') ''a:1'' ''hi'' [''a:1'' \<mapsto> []] =
     send_to (mem_transport ''n:1'') demo_mesh_node2 ''spiffe://a'' ''hi'' [''a:1'' \<mapsto> []] \<and>
   (\<exists>record. discovery_ok demo_platform demo_lookup DEFAULT_DISCOVERY_CONFIG 0 record)"
proof -
  have known: "known_peer demo_mesh_node2 ''spiffe://a'' = Some (peer_of 0 demo_record)"
    by (simp add: known_peer_def demo_mesh_node2_def)
  from send_to_vouched[OF demo_mesh_reachable surjective_pairing, of "mem_transport ''n:1''" "''spiffe://a''" "''hi''" "[''a:1'' \<mapsto> []]"]
  show ?thesis unfolding known by (auto simp: demo_record_peer)
qed

theorem routing_table_bounded_witness:
  "\<exists>table. routing_table id demo_mesh_node2 = Inr table \<and> length (filter (\<lambda>p. peer_domain p \<in> {''a''}) table) \<le> 1"
proof -
  have "diversity_rule_ok (mn_rule demo_mesh_node2)"
    by (simp add: demo_mesh_node2_def demo_mesh_node_def demo_rule_def diversity_rule_ok_def)
  from routing_table_bounded[OF demo_mesh_reachable this, of "{''a''}" id]
  show ?thesis by (auto simp: demo_mesh_node2_def demo_mesh_node_def demo_rule_def)
qed

definition lone_gd :: "string \<Rightarrow> gossip_discovery" where
  "lone_gd k = \<lparr>gd_membership =
       (if k = ''a'' then lone_node\<lparr>sw_members := [(''spiffe://b'', new_member ''spiffe://b'' 0 ALIVE)]\<rparr> else lone_node),
     gd_admission = demo_rules, gd_peer_tier = (\<lambda>nid. Inr (Some ''prod''))\<rparr>"

definition two_message :: routed where
  "two_message = \<lparr>ro_dest = ''spiffe://b'', ro_ttl = 8, ro_msg_id = ''1'', ro_payload = ''hi''\<rparr>"

lemma two_relay:
  "relay (\<lambda>k dest. Some dest) (\<lambda>k nid. is_routable demo_platform (lone_gd k) nid = Inr True) ''a'' two_message line_router =
     ([''a'', ''spiffe://b''], Deliver ''hi'',
      line_router(''a'' := (line_router ''a'')\<lparr>rt_seen := {''1''}\<rparr>,
                  ''spiffe://b'' := (line_router ''spiffe://b'')\<lparr>rt_seen := {''1''}\<rparr>))"
proof -
  have "is_routable demo_platform (lone_gd ''a'') ''spiffe://b'' = Inr True"
    by (simp add: is_routable_def routable_peers_def lone_gd_def alive_ids_def dvals_def new_member_def
        admits_alive_def admit_peer_def rules_for_identity_def demo_rules_def pin_decision_def pattern_defs Let_def)
  then show ?thesis
    by (subst relay.simps, subst relay.simps)
       (simp add: handle_def two_message_def line_router_def Let_def)
qed

end
