(* ===== verification/Issuance.thy ===== *)
theory Issuance
  imports Artifact Demo
begin

unbundle bit_operations_syntax

text \<open>
  Issuing capability tokens (\<open>capability_issuer.py\<close>) under an issuance policy
  (\<open>issuance_policy.py\<close>). \<open>rnd\<close> is the rounding of a real number to a float, \<open>dumps\<close> the compact
  \<open>json.dumps\<close>, \<open>sign\<close> the signature under the issuer's key; the clock and the random bytes are
  arguments. The issuer and the verifier of \<open>CapabilityToken\<close> meet in \<open>issued_token_verifies\<close>.
\<close>

section \<open>Identifiers\<close>

text \<open>\<open>dt.timestamp()\<close> and \<open>int(dt.timestamp())\<close>.\<close>

definition timestamp_float :: "(rat \<Rightarrow> rat) \<Rightarrow> datetime \<Rightarrow> rat" where
  "timestamp_float rnd t = rnd (of_int t / 1000000)"

definition int_timestamp :: "(rat \<Rightarrow> rat) \<Rightarrow> datetime \<Rightarrow> int" where
  "int_timestamp rnd t = trunc (timestamp_float rnd t)"

text \<open>\<open>f"{n:016x}"\<close> of a number below \<open>2 ^ 64\<close>\<close>

definition hex16 :: "nat \<Rightarrow> string" where
  "hex16 n = map (\<lambda>i. hex_digit (n div 16 ^ (15 - i) mod 16)) [0..<16]"

definition generate_uuidv7 :: "(rat \<Rightarrow> rat) \<Rightarrow> datetime \<Rightarrow> string \<Rightarrow> exn + string" where
  "generate_uuidv7 rnd when rb =
     (let millis = nat (trunc (rnd (timestamp_float rnd when * 1000)) AND mask 48) in
      if length rb \<noteq> 10 then Inl (std_error ''ValueError'')
      else let rand_a = from_bytes_big (take 2 rb) AND 0x0FFF;
               rand_b = from_bytes_big (take 8 (drop 2 rb)) AND mask 62;
               msb = push_bit 16 millis OR push_bit 12 7 OR rand_a;
               lsb = push_bit 62 2 OR rand_b;
               hex_str = hex16 msb @ hex16 lsb
           in Inr (take 8 hex_str @ ''-'' @ take 4 (drop 8 hex_str) @ ''-'' @
                   take 4 (drop 12 hex_str) @ ''-'' @ take 4 (drop 16 hex_str) @ ''-'' @
                   take 12 (drop 20 hex_str)))"


section \<open>Policies and issuers\<close>

text \<open>A policy decides a request \<open>(sub, aud, scope, ttl)\<close>; its reason is a message.\<close>

type_synonym issuance_policy = "string \<Rightarrow> string \<Rightarrow> string \<Rightarrow> timedelta \<Rightarrow> exn + bool"

definition allow_all_policy :: issuance_policy where
  "allow_all_policy sub aud scope ttl = Inr True"

definition allowlist_policy_ok :: "timedelta \<Rightarrow> bool" where
  "allowlist_policy_ok max_ttl \<longleftrightarrow> \<not> max_ttl \<le> 0"

definition allowlist_policy :: "(string \<times> string \<times> string) set \<Rightarrow> timedelta \<Rightarrow> issuance_policy" where
  "allowlist_policy allowed_grants max_ttl sub aud scope ttl =
     (if (sub, aud, scope) \<notin> allowed_grants then Inr False
      else if ttl > max_ttl then Inr False
      else Inr True)"

record issuer =
  is_iss :: string
  is_kid :: string
  is_default_ttl :: timedelta
  is_clock_skew :: timedelta
  is_policy :: issuance_policy

definition new_issuer ::
  "string \<Rightarrow> string \<Rightarrow> timedelta \<Rightarrow> timedelta \<Rightarrow> issuance_policy \<Rightarrow> exn + issuer" where
  "new_issuer iss kid default_ttl clock_skew policy =
     bindE (guards [(spiffe_id_re iss, std_error ''ValueError''), (kid_re kid, std_error ''ValueError''),
                    (\<not> default_ttl \<le> 0, std_error ''ValueError''), (\<not> clock_skew < 0, std_error ''ValueError'')])
       (\<lambda>_. Inr \<lparr>is_iss = iss, is_kid = kid, is_default_ttl = default_ttl, is_clock_skew = clock_skew,
                 is_policy = policy\<rparr>)"

abbreviation issuance_policy_error :: exn where
  "issuance_policy_error \<equiv> repo_error ''IssuancePolicyError''"


section \<open>Issuing\<close>

definition issue_event :: "issuer \<Rightarrow> string \<Rightarrow> string \<Rightarrow> string \<Rightarrow> string \<Rightarrow> kwargs" where
  "issue_event I outcome code sub aud =
     [(''event_type'', PStr ''capability.issue''), (''outcome'', PStr outcome), (''reason'', PStr code),
      (''reason_code'', PStr code), (''artifact_version'', PStr ''wt-cap+jwt''), (''sender'', PStr sub),
      (''recipient'', PStr aud), (''issuer_iss'', PStr (is_iss I)), (''issuer_kid'', PStr (is_kid I))]"

definition token_header :: "issuer \<Rightarrow> pyval" where
  "token_header I = PDict [(''alg'', PStr EXPECTED_ALG), (''typ'', PStr EXPECTED_TYP), (''kid'', PStr (is_kid I))]"

definition token_payload ::
  "issuer \<Rightarrow> string \<Rightarrow> string \<Rightarrow> string \<Rightarrow> int \<Rightarrow> int \<Rightarrow> string \<Rightarrow> string \<Rightarrow> string option \<Rightarrow> pyval" where
  "token_payload I sub aud scope iat expiry jti digest resource =
     PDict ([(''iss'', PStr (is_iss I)), (''sub'', PStr sub), (''aud'', PStr aud), (''scope'', PStr scope),
             (''iat'', PInt iat), (''nbf'', PInt iat), (''exp'', PInt expiry), (''jti'', PStr jti),
             (''cnf'', PDict [(''envelope_digest'', PStr digest)])] @
            (case resource of None \<Rightarrow> [] | Some r \<Rightarrow> [(''resource'', PStr r)]))"

definition signed_token :: "(pyval \<Rightarrow> string) \<Rightarrow> (string \<Rightarrow> string) \<Rightarrow> pyval \<Rightarrow> pyval \<Rightarrow> string" where
  "signed_token dumps sign header payload =
     (let h = b64url (dumps header); p = b64url (dumps payload); s = b64url (sign (h @ ''.'' @ p))
      in h @ ''.'' @ p @ ''.'' @ s)"

definition issue_jti :: "(rat \<Rightarrow> rat) \<Rightarrow> datetime \<Rightarrow> string \<Rightarrow> string option \<Rightarrow> exn + string" where
  "issue_jti rnd when rb jti =
     (case jti of
        None \<Rightarrow> generate_uuidv7 rnd when rb
      | Some j \<Rightarrow> if \<not> uuid_v7_re j then Inl (std_error ''ValueError'') else Inr j)"

definition request_ok :: "string \<Rightarrow> string \<Rightarrow> string \<Rightarrow> string \<Rightarrow> string option \<Rightarrow> timedelta \<Rightarrow> exn + unit" where
  "request_ok sub aud scope digest resource effective_ttl =
     (let v = std_error ''ValueError'' in
      guards [(spiffe_id_re sub, v), (spiffe_id_re aud, v), (scope \<noteq> [], v), (hex_sha256_re digest, v),
              (resource \<noteq> Some [], v), (\<not> effective_ttl \<le> 0, v)])"

definition issue ::
  "(rat \<Rightarrow> rat) \<Rightarrow> (pyval \<Rightarrow> string) \<Rightarrow> (string \<Rightarrow> string) \<Rightarrow> 'k kw_sink \<Rightarrow> issuer \<Rightarrow> string \<Rightarrow> string \<Rightarrow>
   string \<Rightarrow> string \<Rightarrow> string option \<Rightarrow> timedelta option \<Rightarrow> datetime \<Rightarrow> string \<Rightarrow> string option \<Rightarrow> 'k \<Rightarrow>
   (exn + string) \<times> 'k" where
  "issue rnd dumps sign sink I sub aud scope digest jti ttl when rb resource k =
     (let effective_ttl = (case ttl of None \<Rightarrow> is_default_ttl I | Some t \<Rightarrow> t) in
      case bindE (request_ok sub aud scope digest resource effective_ttl)
             (\<lambda>_. is_policy I sub aud scope effective_ttl) of
        Inl e \<Rightarrow> (Inl e, k)
      | Inr allowed \<Rightarrow>
          if \<not> allowed then
            (case emit_raw sink (issue_event I ''deny'' ''issuance_policy_denied'' sub aud) k of
               (Inl x, k') \<Rightarrow> (Inl x, k')
             | (Inr _, k') \<Rightarrow> (Inl issuance_policy_error, k'))
          else
            let iat_dt = when - is_clock_skew I;
                exp_dt = iat_dt + effective_ttl;
                iat = int_timestamp rnd iat_dt;
                expiry = int_timestamp rnd exp_dt
            in case issue_jti rnd when rb jti of
                 Inl e \<Rightarrow> (Inl e, k)
               | Inr j \<Rightarrow>
                   let token = signed_token dumps sign (token_header I)
                         (token_payload I sub aud scope iat expiry j digest resource)
                   in case emit_raw sink (issue_event I ''allow'' ''ok'' sub aud) k of
                        (Inl x, k') \<Rightarrow> (Inl x, k')
                      | (Inr _, k') \<Rightarrow> (Inr token, k'))"


section \<open>Identifiers are well-formed\<close>

lemma or_disjoint:
  assumes "(b :: nat) < 2 ^ n"
  shows "push_bit n a OR b = a * 2 ^ n + b"
proof -
  have b: "take_bit n b = b" using assms by (simp add: take_bit_nat_eq_self)
  have "\<not> bit b m" if "n \<le> m" for m
    by (metis b bit_take_bit_iff not_less that)
  then have "push_bit n a AND b = 0" by (intro bit_eqI) (auto simp: bit_simps)
  then have "push_bit n a + b = push_bit n a OR b" by (rule disjunctive_add_eq_or)
  then show ?thesis by (simp add: push_bit_nat_def)
qed

lemma hex16_list:
  "hex16 n = map hex_digit
     [n div 16 ^ 15 mod 16, n div 16 ^ 14 mod 16, n div 16 ^ 13 mod 16, n div 16 ^ 12 mod 16,
      n div 16 ^ 11 mod 16, n div 16 ^ 10 mod 16, n div 16 ^ 9 mod 16, n div 16 ^ 8 mod 16,
      n div 16 ^ 7 mod 16, n div 16 ^ 6 mod 16, n div 16 ^ 5 mod 16, n div 16 ^ 4 mod 16,
      n div 16 ^ 3 mod 16, n div 16 ^ 2 mod 16, n div 16 mod 16, n mod 16]"
proof -
  have "[0..<16] = [0, 1, 2, 3, 4, 5, 6, 7, 8, 9, 10, 11, 12, 13, 14, 15 :: nat]" by code_simp
  then show ?thesis by (simp add: hex16_def)
qed

lemma hex_digit_code: "n < 16 \<Longrightarrow> (of_char (hex_digit n) :: nat) = (if n < 10 then n + 48 else n + 87)"
  by (simp add: hex_digit_def of_char_of)

lemma hex_digit_hex: "is_hex (hex_digit (n mod 16))"
proof -
  have "n mod 16 < 16" by simp
  then show ?thesis by (auto simp: is_hex_def is_hex_lower_def is_digit_def in_range_def hex_digit_code)
qed

lemma hex_digit_variant: "n < 4 \<Longrightarrow> hex_digit (8 + n) \<in> set ''89abAB''"
proof -
  assume "n < 4"
  then consider "n = 0" | "n = 1" | "n = 2" | "n = 3" by linarith
  moreover have "hex_digit 8 = CHR ''8''" "hex_digit 9 = CHR ''9''" "hex_digit 10 = CHR ''a''" "hex_digit 11 = CHR ''b''"
    by code_simp+
  ultimately show ?thesis by cases simp_all
qed

lemma uuid_form:
  assumes "xs = [a0, a1, a2, a3, a4, a5, a6, a7, a8, a9, a10, a11, a12, a13, a14, a15]" "ys = [b0, b1, b2, b3, b4, b5, b6, b7, b8, b9, b10, b11, b12, b13, b14, b15]"
    and "list_all is_hex xs" "list_all is_hex ys" "a12 = CHR ''7''" "b0 \<in> set ''89abAB''"
  shows "let s = xs @ ys; j = take 8 s @ ''-'' @ take 4 (drop 8 s) @ ''-'' @ take 4 (drop 12 s) @ ''-'' @
      take 4 (drop 16 s) @ ''-'' @ take 12 (drop 20 s) in list_all2 (\<lambda>p c. p c) uuid_pats j \<and> length j = 36"
  using assms by (simp add: uuid_pats_def numeral_eq_Suc Let_def)

lemma generated_uuid_wellformed_core:
  assumes "generate_uuidv7 rnd when rb = Inr j"
  shows "uuid_v7_re j \<and> length j = 36"
proof -
  define millis where "millis = nat (trunc (rnd (timestamp_float rnd when * 1000)) AND mask 48)"
  define rand_a where "rand_a = from_bytes_big (take 2 rb) AND 0x0FFF"
  define rand_b where "rand_b = from_bytes_big (take 8 (drop 2 rb)) AND mask 62"
  have a: "rand_a < 2 ^ 12"
  proof -
    have "rand_a = take_bit 12 (from_bytes_big (take 2 rb))" by (simp add: rand_a_def take_bit_eq_mask mask_eq_exp_minus_1)
    then show ?thesis by (metis take_bit_nat_less_exp)
  qed
  have b: "rand_b < 2 ^ 62" unfolding rand_b_def take_bit_eq_mask[symmetric] by (rule take_bit_nat_less_exp)
  define msb where "msb = millis * 2 ^ 16 + (7 * 2 ^ 12 + rand_a)"
  define lsb where "lsb = 2 * 2 ^ 62 + rand_b"
  have "push_bit 12 7 OR rand_a = 7 * 2 ^ 12 + rand_a" by (rule or_disjoint[OF a])
  moreover have "push_bit 16 millis OR (7 * 2 ^ 12 + rand_a) = msb"
    unfolding msb_def by (rule or_disjoint) (use a in simp)
  ultimately have m: "push_bit 16 millis OR push_bit 12 7 OR rand_a = msb" by (simp only: or.assoc)
  have l: "push_bit 62 2 OR rand_b = lsb" unfolding lsb_def by (rule or_disjoint[OF b])
  have version: "hex_digit (msb div 16 ^ 3 mod 16) = CHR ''7''"
  proof -
    have "msb div 16 ^ 3 = millis * 16 + 7" using a by (simp add: msb_def)
    moreover have "hex_digit 7 = CHR ''7''" by code_simp
    ultimately show ?thesis by simp
  qed
  have variant: "hex_digit (lsb div 16 ^ 15 mod 16) \<in> set ''89abAB''"
  proof -
    have "lsb div 16 ^ 15 = 8 + rand_b div 2 ^ 60" by (simp add: lsb_def)
    moreover have "rand_b div 2 ^ 60 < 4" using b by simp
    ultimately show ?thesis using hex_digit_variant[of "rand_b div 2 ^ 60"] by simp
  qed
  have j: "j = take 8 (hex16 msb @ hex16 lsb) @ ''-'' @ take 4 (drop 8 (hex16 msb @ hex16 lsb)) @ ''-'' @
      take 4 (drop 12 (hex16 msb @ hex16 lsb)) @ ''-'' @ take 4 (drop 16 (hex16 msb @ hex16 lsb)) @ ''-'' @
      take 12 (drop 20 (hex16 msb @ hex16 lsb))"
    using assms unfolding generate_uuidv7_def Let_def millis_def[symmetric] rand_a_def[symmetric]
      rand_b_def[symmetric] m l by (simp split: if_splits)
  have hex: "list_all is_hex (hex16 n)" for n by (simp add: hex16_list hex_digit_hex)
  have "list_all2 (\<lambda>p c. p c) uuid_pats j \<and> length j = 36"
    unfolding j
    by (rule uuid_form[unfolded Let_def, OF hex16_list[unfolded list.map] hex16_list[unfolded list.map] hex hex version variant])
  then show ?thesis by (simp add: uuid_v7_re_def re_dollar_def)
qed

text \<open>C40. Every identifier the issuer generates, from any clock reading, float rounding and random
  bytes, has the form of a UUID of version 7 that every verifier of the repository demands.\<close>

theorem generated_uuid_wellformed:
  assumes "generate_uuidv7 rnd when rb = Inr j"
  shows "uuid_v7_re j \<and> length j = 36"
  by (rule generated_uuid_wellformed_core[OF assms])

theorem generated_uuid_wellformed_witness:
  "\<exists>j. generate_uuidv7 id 0 (replicate 10 CHR 0x00) = Inr j \<and> uuid_v7_re j"
proof -
  obtain j where "generate_uuidv7 id 0 (replicate 10 CHR 0x00) = Inr j" by (simp add: generate_uuidv7_def Let_def)
  then show ?thesis using generated_uuid_wellformed by blast
qed


section \<open>From the issuer to the verifier\<close>

lemma b64_char_not_dot: "v < 64 \<Longrightarrow> b64_char v \<noteq> CHR ''.''"
  using b64_value_char[of v] by (auto simp: b64_value_def Let_def)

lemma b64url_no_dot: "CHR ''.'' \<notin> set (b64url s)"
proof -
  have small: "(of_char (c :: char) :: nat) div 4 < 64" "(of_char c :: nat) div 16 < 16"
    "(of_char c :: nat) div 64 < 4" for c
    using of_char_256[of c] by linarith+
  have sums: "(of_char (a :: char) :: nat) mod 4 * 16 + of_char (b :: char) div 16 < 64"
    "(of_char b :: nat) mod 16 * 4 + of_char (c :: char) div 64 < 64"
    "(of_char a :: nat) mod 4 * 16 < 64" "(of_char b :: nat) mod 16 * 4 < 64"
    "(of_char c :: nat) mod 64 < 64" for a b c
    using small(2)[of b] small(3)[of c] by linarith+
  show ?thesis
    by (induction s rule: b64url.induct) (simp_all add: b64_char_not_dot[THEN not_sym] small sums)
qed

lemma split_on_none: "sep \<notin> set s \<Longrightarrow> split_on sep s = [s]"
  by (induction s) auto

lemma split_on_sep: "sep \<notin> set s \<Longrightarrow> split_on sep (s @ sep # t) = s # split_on sep t"
  by (induction s) auto

text \<open>\<open>json_faithful\<close>: the text of a value is not empty and decodes to the value.\<close>

definition json_faithful :: "platform \<Rightarrow> (pyval \<Rightarrow> string) \<Rightarrow> pyval \<Rightarrow> bool" where
  "json_faithful P dumps v \<longleftrightarrow> dumps v \<noteq> [] \<and> p_json_loads P (dumps v) = Inr v"

lemma parse_signed_token:
  assumes "json_faithful P dumps (PDict h)" "json_faithful P dumps (PDict p)" "\<forall>m. sign m \<noteq> []"
    and "utf8_length (signed_token dumps sign (PDict h) (PDict p)) \<le> MAX_TOKEN_BYTES"
  shows "\<exists>input. parse_jwt P (PStr (signed_token dumps sign (PDict h) (PDict p))) = Inr (h, p, input, sign input)"
proof -
  let ?h = "b64url (dumps (PDict h))" and ?p = "b64url (dumps (PDict p))"
  let ?input = "?h @ CHR ''.'' # ?p"
  let ?s = "b64url (sign ?input)"
  have tok: "signed_token dumps sign (PDict h) (PDict p) = ?h @ CHR ''.'' # ?p @ CHR ''.'' # ?s"
    by (simp add: signed_token_def Let_def)
  have split: "split_on CHR ''.'' (?h @ CHR ''.'' # ?p @ CHR ''.'' # ?s) = [?h, ?p, ?s]"
    by (simp add: split_on_sep split_on_none b64url_no_dot)
  have "decode_segments ?h ?p ?s = Inr (dumps (PDict h), dumps (PDict p), sign ?input)"
    using assms(1-3) by (simp add: decode_segments_def base64url_roundtrip json_faithful_def)
  moreover have "load_segments P (dumps (PDict h)) (dumps (PDict p)) = Inr (PDict h, PDict p)"
    using assms(1,2) by (simp add: load_segments_def json_faithful_def)
  ultimately show ?thesis
    using assms(4) unfolding tok by (intro exI[of _ ?input]) (simp add: parse_jwt_def split)
qed

text \<open>For the times of interest a float keeps the whole seconds of a time stamp.\<close>

definition float_seconds_exact :: "(rat \<Rightarrow> rat) \<Rightarrow> bool" where
  "float_seconds_exact rnd \<longleftrightarrow> (\<forall>t. 0 \<le> t \<and> t < 2 ^ 52 \<longrightarrow> 0 \<le> timestamp_float rnd t \<and>
     floor (timestamp_float rnd t) = t div 1000000)"

lemma int_timestamp_exact:
  "float_seconds_exact rnd \<Longrightarrow> 0 \<le> t \<Longrightarrow> t < 2 ^ 52 \<Longrightarrow> int_timestamp rnd t = t div 1000000"
  by (simp add: float_seconds_exact_def int_timestamp_def trunc_def)

lemma issue_Inr:
  assumes "issue rnd dumps sign sink I sub aud scope digest jti ttl when rb resource k = (Inr token, k')"
  defines "effective \<equiv> (case ttl of None \<Rightarrow> is_default_ttl I | Some t \<Rightarrow> t)"
  shows "request_ok sub aud scope digest resource effective = Inr ()"
    "is_policy I sub aud scope effective = Inr True"
    "\<exists>j. issue_jti rnd when rb jti = Inr j \<and>
       token = signed_token dumps sign (token_header I)
         (token_payload I sub aud scope (int_timestamp rnd (when - is_clock_skew I))
            (int_timestamp rnd (when - is_clock_skew I + effective)) j digest resource)"
    "emit_raw sink (issue_event I ''allow'' ''ok'' sub aud) k = (Inr (), k')"
  using assms(1) unfolding effective_def
  by (auto simp: issue_def Let_def split: sum.splits prod.splits if_splits)

lemma request_ok_Inr:
  "request_ok sub aud scope digest resource ttl = Inr () \<longleftrightarrow>
     spiffe_id_re sub \<and> spiffe_id_re aud \<and> scope \<noteq> [] \<and> hex_sha256_re digest \<and> resource \<noteq> Some [] \<and> 0 < ttl"
  by (auto simp: request_ok_def Let_def)

lemma extract_issued:
  assumes "request_ok sub aud scope digest resource ttl = Inr ()" "spiffe_id_re (is_iss I)" "uuid_v7_re j"
  shows "extract_claims (dict_of (token_payload I sub aud scope iat expiry j digest resource)) kid =
    Inr \<lparr>cl_iss = is_iss I, cl_sub = sub, cl_aud = aud, cl_scope = scope, cl_iat = iat, cl_nbf = iat,
      cl_exp = expiry, cl_jti = j, cl_envelope_digest = digest, cl_issuer_kid = kid, cl_resource = resource\<rparr>"
  using assms
  by (cases resource)
     (simp_all add: request_ok_Inr extract_claims_def token_payload_def REQUIRED_CLAIMS_def has_key_def item_def
        nonempty_def Let_def)

lemma issued_window:
  assumes "0 \<le> start" "start < 2 ^ 52" "0 \<le> start + seconds n" "start + seconds n < 2 ^ 52" "1 \<le> n"
    "seconds n \<le> max_ttl" "seconds 1 \<le> skew" "start \<le> t" "t \<le> start + seconds n"
    "cl_iat cl = start div 1000000" "cl_nbf cl = cl_iat cl" "cl_exp cl = cl_iat cl + n"
  shows "check_times cl t skew max_ttl = Inr ()"
proof -
  have "seconds (start div 1000000) \<le> start" "start < seconds (start div 1000000 + 1)" by (auto simp: seconds_def)
  moreover have "timestamp_ok (start div 1000000)" "timestamp_ok (start div 1000000 + n)"
    using assms(1-4) by (auto simp: timestamp_ok_def seconds_def)
  ultimately show ?thesis using assms(5-) by (auto simp: check_times_Inr seconds_def)
qed

text \<open>The issuer and the verifier agree: a token issued for a request is accepted, under the
  issuer's key, for an envelope with that sender, recipient, purpose, resource and payload digest,
  at every time from the issuing time less the issuer's skew until its lifetime is over, and the
  verified claims are those of the request.\<close>

lemma issued_token_verifies:
  assumes "issue rnd dumps sign sink I sub aud scope digest jti ttl when rb resource k = (Inr token, k')"
    and "new_issuer iss kid dttl dskew pol = Inr I" "issue_jti rnd when rb jti = Inr j"
    and "ttl = Some (seconds n)" "seconds n \<le> max_ttl" "seconds 1 \<le> skew"
    and "float_seconds_exact rnd" "is_clock_skew I \<le> when" "when + seconds n < 2 ^ 52"
    and "json_faithful P dumps (token_header I)"
      "json_faithful P dumps (token_payload I sub aud scope ((when - is_clock_skew I) div 1000000)
         ((when - is_clock_skew I) div 1000000 + n) j digest resource)"
    and "key_pair P sign key" "lookup iss kid = Inr pem" "p_load_pem P pem = Inr (Ed25519Key key)"
    and "utf8_length token \<le> MAX_TOKEN_BYTES" "check_revocation rl j = Inr ()"
    and "map_of env ''sender_spiffe_id'' = Some (PStr sub)" "map_of env ''recipient_spiffe_id'' = Some (PStr aud)"
      "map_of env ''purpose_of_use'' = Some (PStr scope)" "map_of env ''payload_digest'' = Some (PStr digest)"
      "resource = None \<or> resource = Some r \<and> map_of env ''resource'' = Some (PStr r)"
    and "when - is_clock_skew I \<le> t" "t \<le> when - is_clock_skew I + seconds n"
  shows "\<exists>cl. verify_capability_token P (PStr token) env lookup t skew max_ttl rl = Inr cl \<and>
    cl_iss cl = iss \<and> cl_sub cl = sub \<and> cl_aud cl = aud \<and> cl_scope cl = scope \<and> cl_jti cl = j \<and>
    cl_envelope_digest cl = digest \<and> cl_resource cl = resource \<and> cl_issuer_kid cl = kid"
proof -
  have I: "is_iss I = iss" "is_kid I = kid" "spiffe_id_re iss" "kid_re kid" "0 \<le> is_clock_skew I"
    using assms(2) by (auto simp: new_issuer_def)
  define start where "start = when - is_clock_skew I"
  define iat where "iat = start div 1000000"
  note f = issue_Inr[OF assms(1), unfolded assms(4), simplified]
  have req: "request_ok sub aud scope digest resource (seconds n) = Inr ()" by (rule f(1))
  then have n: "1 \<le> n" by (simp add: request_ok_Inr seconds_def)
  have range: "0 \<le> start" "start < 2 ^ 52" "0 \<le> start + seconds n" "start + seconds n < 2 ^ 52"
    using assms(8,9) I(5) n by (auto simp: start_def seconds_def)
  have times: "int_timestamp rnd start = iat" "int_timestamp rnd (start + seconds n) = iat + n"
    using range int_timestamp_exact[OF assms(7)] by (simp_all add: iat_def seconds_def)
  have token: "token = signed_token dumps sign (token_header I)
      (token_payload I sub aud scope iat (iat + n) j digest resource)"
    using f(3) assms(3) times by (simp add: start_def)
  have j: "uuid_v7_re j"
    using assms(3) generated_uuid_wellformed_core by (auto simp: issue_jti_def split: option.splits if_splits)
  obtain h p where hp: "token_header I = PDict h" "token_payload I sub aud scope iat (iat + n) j digest resource = PDict p"
    by (simp add: token_header_def token_payload_def)
  have body: "json_faithful P dumps (token_payload I sub aud scope iat (iat + n) j digest resource)"
    using assms(11) by (simp add: iat_def start_def)
  obtain input where parse: "parse_jwt P (PStr token) = Inr (h, p, input, sign input)"
    using parse_signed_token[of P dumps h p sign] assms(10) body assms(12,15) token
    unfolding hp key_pair_def by blast
  have head: "check_header h = Inr kid"
    using hp(1) I(2,4) by (auto simp: token_header_def check_header_def Let_def item_def)
  let ?cl = "\<lparr>cl_iss = iss, cl_sub = sub, cl_aud = aud, cl_scope = scope, cl_iat = iat, cl_nbf = iat,
      cl_exp = iat + n, cl_jti = j, cl_envelope_digest = digest, cl_issuer_kid = kid, cl_resource = resource\<rparr>"
  have claims: "extract_claims p kid = Inr ?cl"
    using extract_issued[OF req _ j, of I iat "iat + n" kid] I(1,3) hp(2) by simp
  have "check_binding ?cl env = Inr ()"
    using assms(17-21) by (auto simp: check_binding_Inr item_def)
  moreover have "check_times ?cl t skew max_ttl = Inr ()"
    using issued_window[OF range n assms(5,6)] assms(22,23) by (simp add: iat_def start_def)
  ultimately have "verify_capability_token P (PStr token) env lookup t skew max_ttl rl = Inr ?cl"
    using parse head claims assms(12-14,16)
    by (simp add: verify_capability_token_def load_key_Inr key_pair_def)
  then show ?thesis by simp
qed


lemma emit_raw_outcome:
  assumes "kw_logs rc evs" "emit_raw (Some rc) ev k = (x, k')"
  shows "case fst (rc ev k) of
      None \<Rightarrow> x = Inr () \<and> evs k' = evs k @ [ev]
    | Some e \<Rightarrow> x = Inl e \<and> evs k' = evs k"
  using emit_raw_log[OF assms] assms(2) by (auto simp: emit_raw_def split: prod.splits option.splits)

lemma issue_malformed:
  assumes "request_ok sub aud scope digest resource (case ttl of None \<Rightarrow> is_default_ttl I | Some t \<Rightarrow> t) \<noteq> Inr ()"
  shows "issue rnd dumps sign sink I sub aud scope digest jti ttl when rb resource k = (Inl (std_error ''ValueError''), k)"
proof -
  let ?ttl = "case ttl of None \<Rightarrow> is_default_ttl I | Some t \<Rightarrow> t"
  obtain e where e: "request_ok sub aud scope digest resource ?ttl = Inl e"
    using assms by (cases "request_ok sub aud scope digest resource ?ttl") simp_all
  then have "e = std_error ''ValueError''"
    by (auto simp: request_ok_def Let_def dest!: guards_Inl split: if_splits)
  then show ?thesis by (simp add: issue_def e)
qed

lemma issue_refused:
  assumes "request_ok sub aud scope digest resource effective = Inr ()" "is_policy I sub aud scope effective = Inr False"
    and "effective = (case ttl of None \<Rightarrow> is_default_ttl I | Some t \<Rightarrow> t)"
  shows "issue rnd dumps sign sink I sub aud scope digest jti ttl when rb resource k =
    (case emit_raw sink (issue_event I ''deny'' ''issuance_policy_denied'' sub aud) k of
       (Inl x, k') \<Rightarrow> (Inl x, k')
     | (Inr _, k') \<Rightarrow> (Inl issuance_policy_error, k'))"
  using assms(1,2) unfolding assms(3) by (simp add: issue_def)

lemma issue_granted:
  assumes "request_ok sub aud scope digest resource effective = Inr ()" "is_policy I sub aud scope effective = Inr True"
    and "effective = (case ttl of None \<Rightarrow> is_default_ttl I | Some t \<Rightarrow> t)" "issue_jti rnd when rb jti = Inr j"
  shows "issue rnd dumps sign sink I sub aud scope digest jti ttl when rb resource k =
    (case emit_raw sink (issue_event I ''allow'' ''ok'' sub aud) k of
       (Inl x, k') \<Rightarrow> (Inl x, k')
     | (Inr _, k') \<Rightarrow> (Inr (signed_token dumps sign (token_header I)
         (token_payload I sub aud scope (int_timestamp rnd (when - is_clock_skew I))
            (int_timestamp rnd (when - is_clock_skew I + effective)) j digest resource)), k'))"
  using assms(1,2,4) unfolding assms(3) by (simp add: issue_def Let_def)

lemma issue_no_jti:
  assumes "request_ok sub aud scope digest resource effective = Inr ()" "is_policy I sub aud scope effective = Inr True"
    and "effective = (case ttl of None \<Rightarrow> is_default_ttl I | Some t \<Rightarrow> t)" "issue_jti rnd when rb jti = Inl e"
  shows "issue rnd dumps sign sink I sub aud scope digest jti ttl when rb resource k = (Inl e, k)"
  using assms(1,2,4) unfolding assms(3) by (simp add: issue_def)

text \<open>C38. Issuance is least privilege and accounted for. A malformed request raises and leaves nothing. Of
  the others, one whose grant is not on the allowlist or whose lifetime is above the maximum gets no
  token and leaves exactly a deny event; any other one gets a token for exactly the requested subject,
  audience, scope, resource and payload digest, valid from the clock less the skew for the effective
  lifetime, under the issuer's name and key and the given or a fresh identifier, and leaves exactly
  an allow event. If the sink raises, its exception leaves \<open>issue\<close>: there is no token without its event.\<close>

theorem issuance_least_privilege:
  assumes "kw_logs rc evs" "is_policy I = allowlist_policy grants max_ttl"
    and "effective = (case ttl of None \<Rightarrow> is_default_ttl I | Some t \<Rightarrow> t)"
    and "issue rnd dumps sign (Some rc) I sub aud scope digest jti ttl when rb resource k = (r, k')"
  shows "if \<not> (spiffe_id_re sub \<and> spiffe_id_re aud \<and> scope \<noteq> [] \<and> hex_sha256_re digest \<and> resource \<noteq> Some [] \<and>
        0 < effective)
    then r = Inl (std_error ''ValueError'') \<and> evs k' = evs k
    else if (sub, aud, scope) \<notin> grants \<or> max_ttl < effective
    then (case fst (rc (issue_event I ''deny'' ''issuance_policy_denied'' sub aud) k) of
        Some e \<Rightarrow> r = Inl e \<and> evs k' = evs k
      | None \<Rightarrow> r = Inl issuance_policy_error \<and>
          evs k' = evs k @ [issue_event I ''deny'' ''issuance_policy_denied'' sub aud])
    else (case (case jti of
          None \<Rightarrow> generate_uuidv7 rnd when rb
        | Some j \<Rightarrow> if uuid_v7_re j then Inr j else Inl (std_error ''ValueError'')) of
        Inl e \<Rightarrow> r = Inl e \<and> evs k' = evs k
      | Inr j \<Rightarrow> (case fst (rc (issue_event I ''allow'' ''ok'' sub aud) k) of
          Some e \<Rightarrow> r = Inl e \<and> evs k' = evs k
        | None \<Rightarrow> evs k' = evs k @ [issue_event I ''allow'' ''ok'' sub aud] \<and>
            r = Inr (signed_token dumps sign
              (PDict [(''alg'', PStr ''EdDSA''), (''typ'', PStr ''wt-cap+jwt''), (''kid'', PStr (is_kid I))])
              (PDict ([(''iss'', PStr (is_iss I)), (''sub'', PStr sub), (''aud'', PStr aud), (''scope'', PStr scope),
                 (''iat'', PInt (int_timestamp rnd (when - is_clock_skew I))),
                 (''nbf'', PInt (int_timestamp rnd (when - is_clock_skew I))),
                 (''exp'', PInt (int_timestamp rnd (when - is_clock_skew I + effective))),
                 (''jti'', PStr j), (''cnf'', PDict [(''envelope_digest'', PStr digest)])] @
                (case resource of None \<Rightarrow> [] | Some x \<Rightarrow> [(''resource'', PStr x)]))))))"
proof -
  let ?deny = "issue_event I ''deny'' ''issuance_policy_denied'' sub aud"
  let ?allow = "issue_event I ''allow'' ''ok'' sub aud"
  obtain x k1 where deny: "emit_raw (Some rc) ?deny k = (x, k1)" by fastforce
  obtain y k2 where allow: "emit_raw (Some rc) ?allow k = (y, k2)" by fastforce
  note out = emit_raw_outcome[OF assms(1) deny] emit_raw_outcome[OF assms(1) allow]
  have jti: "(case jti of None \<Rightarrow> generate_uuidv7 rnd when rb
      | Some j \<Rightarrow> if uuid_v7_re j then Inr j else Inl (std_error ''ValueError'')) = issue_jti rnd when rb jti"
    by (simp add: issue_jti_def split: option.split)
  have pol: "is_policy I sub aud scope effective = Inr (\<not> ((sub, aud, scope) \<notin> grants \<or> max_ttl < effective))"
    by (auto simp: assms(2) allowlist_policy_def)
  show ?thesis
  proof (cases "request_ok sub aud scope digest resource effective = Inr ()")
    case False
    have "r = Inl (std_error ''ValueError'') \<and> k' = k"
      using issue_malformed[OF False[unfolded assms(3)], of rnd dumps sign "Some rc" jti "when" rb k] assms(4) by simp
    then show ?thesis using False unfolding request_ok_Inr by simp
  next
    case ok: True
    show ?thesis
    proof (cases "(sub, aud, scope) \<notin> grants \<or> max_ttl < effective")
      case True
      then have "is_policy I sub aud scope effective = Inr False" using pol by simp
      from issue_refused[OF ok this assms(3), of rnd dumps sign "Some rc" jti "when" rb k] assms(4) deny
      have "(r, k') = (case x of Inl e \<Rightarrow> (Inl e, k1) | Inr _ \<Rightarrow> (Inl issuance_policy_error, k1))"
        by (simp split: sum.splits)
      then show ?thesis using True out(1) ok unfolding request_ok_Inr by (auto split: option.splits)
    next
      case False
      then have go: "is_policy I sub aud scope effective = Inr True" using pol by simp
      show ?thesis
      proof (cases "issue_jti rnd when rb jti")
        case (Inl e)
        then show ?thesis
          using issue_no_jti[OF ok go assms(3) Inl, of dumps sign "Some rc" k] assms(4) False ok unfolding request_ok_Inr jti by simp
      next
        case (Inr j)
        from issue_granted[OF ok go assms(3) Inr, of dumps sign "Some rc" k] assms(4) allow show ?thesis
          using out(2) ok False Inr unfolding request_ok_Inr jti
          by (auto simp: token_header_def token_payload_def EXPECTED_ALG_def EXPECTED_TYP_def split: option.splits)
      qed
    qed
  qed
qed


section \<open>A concrete issuer\<close>

definition demo_issuer :: issuer where
  "demo_issuer =
     \<lparr>is_iss = ''spiffe://i'', is_kid = ''ik'', is_default_ttl = seconds 300, is_clock_skew = 0,
      is_policy = allowlist_policy {(''spiffe://a'', ''spiffe://b'', ''read'')} (seconds 300)\<rparr>"

definition issued_payload :: pyval where
  "issued_payload = token_payload demo_issuer ''spiffe://a'' ''spiffe://b'' ''read'' 1000 1300 demo_uuid demo_digest None"

definition issued_platform :: platform where
  "issued_platform = demo_platform\<lparr>p_json_loads :=
     (\<lambda>s. Inr (if s = ''h'' then token_header demo_issuer else issued_payload))\<rparr>"

definition issued_dumps :: "pyval \<Rightarrow> string" where
  "issued_dumps v = (if v = token_header demo_issuer then ''h'' else ''p'')"

definition issued_env :: "(string \<times> pyval) list" where
  "issued_env =
     [(''sender_spiffe_id'', PStr ''spiffe://a''), (''recipient_spiffe_id'', PStr ''spiffe://b''),
      (''purpose_of_use'', PStr ''read''), (''payload_digest'', PStr demo_digest)]"

abbreviation issued_request :: "'k kw_sink \<Rightarrow> string \<Rightarrow> 'k \<Rightarrow> (exn + string) \<times> 'k" where
  "issued_request sink scope \<equiv> issue id issued_dumps (\<lambda>m. [CHR 0x00]) sink demo_issuer ''spiffe://a'' ''spiffe://b''
     scope demo_digest (Some demo_uuid) (Some (seconds 300)) (seconds 1000) [] None"

lemma id_seconds_exact: "float_seconds_exact id"
proof -
  have "floor (rat_of_int t / 1000000) = t div 1000000" for t
    using floor_divide_of_int_eq[of t 1000000, where ?'a = rat] by simp
  then show ?thesis by (simp add: float_seconds_exact_def timestamp_float_def)
qed

lemma demo_uuid_ok: "uuid_v7_re demo_uuid"
  by code_simp

lemma demo_digest_ok: "hex_sha256_re demo_digest"
  by code_simp

lemma demo_request_ok:
  "request_ok ''spiffe://a'' ''spiffe://b'' ''read'' demo_digest None (seconds 300) = Inr ()"
  by (simp add: request_ok_Inr demo_digest_ok seconds_def) (simp add: pattern_defs)

lemma issued_payload_not_header: "issued_payload \<noteq> token_header demo_issuer"
  by (simp add: issued_payload_def token_header_def token_payload_def)

lemma issued_times: "int_timestamp id (seconds 1000) = 1000" "int_timestamp id (seconds 1000 + seconds 300) = 1300"
  using int_timestamp_exact[OF id_seconds_exact, of "seconds 1000"]
    int_timestamp_exact[OF id_seconds_exact, of "seconds 1000 + seconds 300"]
  by (simp_all add: seconds_def)

definition issued_token :: string where
  "issued_token = signed_token issued_dumps (\<lambda>m. [CHR 0x00]) (token_header demo_issuer) issued_payload"

lemma demo_policy:
  "is_policy demo_issuer ''spiffe://a'' ''spiffe://b'' ''read'' (seconds 300) = Inr True" "is_clock_skew demo_issuer = 0"
  by (simp_all add: demo_issuer_def allowlist_policy_def)

lemma issued_demo: "issued_request None ''read'' () = (Inr issued_token, ())"
  using issued_times demo_request_ok
  by (simp add: issue_def demo_policy Let_def issue_jti_def demo_uuid_ok emit_raw_def issued_token_def issued_payload_def)

theorem issuance_least_privilege_witness:
  "snd (issued_request (Some list_sink) ''write'' []) =
     [issue_event demo_issuer ''deny'' ''issuance_policy_denied'' ''spiffe://a'' ''spiffe://b''] \<and>
   fst (issued_request (Some list_sink) ''write'' []) = Inl issuance_policy_error"
proof -
  have pol: "is_policy demo_issuer = allowlist_policy {(''spiffe://a'', ''spiffe://b'', ''read'')} (seconds 300)"
    by (simp add: demo_issuer_def)
  have req: "spiffe_id_re ''spiffe://a''" "spiffe_id_re ''spiffe://b''" "hex_sha256_re demo_digest" "0 < seconds 300"
    using demo_request_ok by (simp_all add: request_ok_Inr)
  obtain r k where run: "issued_request (Some list_sink) ''write'' [] = (r, k)" by fastforce
  have "seconds 300 = (case Some (seconds 300) of None \<Rightarrow> is_default_ttl demo_issuer | Some t \<Rightarrow> t)" by simp
  from issuance_least_privilege[OF list_sink_logs pol this run] show ?thesis
    using req by (simp add: list_sink_def run)
qed

end
