(* ===== verification/DataPolicy.thy ===== *)
theory DataPolicy
  imports Eclipse Artifact Demo
begin

text \<open>
  Classified data and the policies over it: classes, lineage, \<open>classify\<close>, \<open>derive\<close> and \<open>combine\<close>
  (\<open>data_classification.py\<close>), the retrieval allowlist (\<open>retrieval_policy.py\<close>) and the egress matrix
  (\<open>egress_policy.py\<close>) with the risk levels of \<open>output_scanning.py\<close>. Classes and risks are
  \<open>linorder\<close>s; the risk of a scan is a \<open>severity_scale\<close> and both policies are \<open>first_match\<close> lists.
\<close>

section \<open>Classes\<close>

datatype data_class = PUBLIC | INTERNAL | CONFIDENTIAL | RESTRICTED

fun class_rank :: "data_class \<Rightarrow> nat" where
  "class_rank PUBLIC = 0"
| "class_rank INTERNAL = 1"
| "class_rank CONFIDENTIAL = 2"
| "class_rank RESTRICTED = 3"

fun class_value :: "data_class \<Rightarrow> string" where
  "class_value PUBLIC = ''public''"
| "class_value INTERNAL = ''internal''"
| "class_value CONFIDENTIAL = ''confidential''"
| "class_value RESTRICTED = ''restricted''"

lemma class_rank_inject: "class_rank a = class_rank b \<longleftrightarrow> a = b"
  by (cases a; cases b) auto

instantiation data_class :: linorder
begin

definition less_eq_data_class :: "data_class \<Rightarrow> data_class \<Rightarrow> bool" where
  "less_eq_data_class a b \<longleftrightarrow> class_rank a \<le> class_rank b"

definition less_data_class :: "data_class \<Rightarrow> data_class \<Rightarrow> bool" where
  "less_data_class a b \<longleftrightarrow> class_rank a < class_rank b"

instance
  by standard (auto simp: less_eq_data_class_def less_data_class_def class_rank_inject)

end

definition is_more_restrictive :: "data_class \<Rightarrow> data_class \<Rightarrow> bool" where
  "is_more_restrictive a b \<longleftrightarrow> class_rank a > class_rank b"

lemma more_restrictive_iff [simp]: "is_more_restrictive a b \<longleftrightarrow> b < a"
  by (simp add: is_more_restrictive_def less_data_class_def)

abbreviation classification_error :: exn where
  "classification_error \<equiv> repo_error ''DataClassificationError''"

text \<open>\<open>max(ks, key=_RANK.__getitem__)\<close>: the first of the greatest.\<close>

definition max_class :: "data_class list \<Rightarrow> exn + data_class" where
  "max_class ks =
     (case ks of
        [] \<Rightarrow> Inl classification_error
      | c # cs \<Rightarrow> Inr (foldl (\<lambda>best c. if class_rank c > class_rank best then c else best) c cs))"


section \<open>Lineage\<close>

record lineage_tag =
  lt_actor_iss :: string
  lt_actor_kid :: string
  lt_operation :: string
  lt_timestamp :: string
  lt_parent_digest :: string

record classified =
  cd_digest :: string
  cd_class :: data_class
  cd_lineage :: "lineage_tag list"
  cd_metadata :: "(string \<times> string) list"

definition new_tag :: "string \<Rightarrow> string \<Rightarrow> string \<Rightarrow> string \<Rightarrow> string \<Rightarrow> exn + lineage_tag" where
  "new_tag iss kid operation timestamp parent_digest =
     bindE (guards [(spiffe_id_re iss, classification_error), (kid_re kid, classification_error),
                    (operation \<noteq> [], classification_error), (timestamp \<noteq> [], classification_error),
                    (hex_sha256_re parent_digest, classification_error)])
       (\<lambda>_. Inr \<lparr>lt_actor_iss = iss, lt_actor_kid = kid, lt_operation = operation,
                 lt_timestamp = timestamp, lt_parent_digest = parent_digest\<rparr>)"

definition new_classified ::
  "string \<Rightarrow> data_class \<Rightarrow> lineage_tag list \<Rightarrow> (string \<times> string) list \<Rightarrow> exn + classified" where
  "new_classified digest cls lineage metadata =
     bindE (guards [(hex_sha256_re digest, classification_error), (lineage \<noteq> [], classification_error),
                    (\<forall>kv\<in>set metadata. fst kv \<noteq> [], classification_error),
                    (distinct (map fst metadata), classification_error)])
       (\<lambda>_. Inr \<lparr>cd_digest = digest, cd_class = cls, cd_lineage = lineage, cd_metadata = metadata\<rparr>)"

definition tag_object :: "lineage_tag \<Rightarrow> pyval" where
  "tag_object t =
     PDict [(''actor_iss'', PStr (lt_actor_iss t)), (''actor_kid'', PStr (lt_actor_kid t)),
            (''operation'', PStr (lt_operation t)), (''timestamp'', PStr (lt_timestamp t)),
            (''parent_digest'', PStr (lt_parent_digest t))]"

definition chain_hash :: "platform \<Rightarrow> classified \<Rightarrow> exn + string" where
  "chain_hash P d =
     bindE (p_canon P (PDict [(''data_digest'', PStr (cd_digest d)), (''data_class'', PStr (class_value (cd_class d))),
              (''lineage'', PList (map tag_object (cd_lineage d))),
              (''metadata'', PList (map (\<lambda>(k, v). PList [PStr k, PStr v]) (cd_metadata d)))]))
       (\<lambda>body. Inr (p_sha256 P body))"

definition GENESIS_PARENT_DIGEST :: string where
  "GENESIS_PARENT_DIGEST = replicate 64 CHR ''0''"

definition classify ::
  "platform \<Rightarrow> string \<Rightarrow> data_class \<Rightarrow> string \<Rightarrow> string \<Rightarrow> string \<Rightarrow> (string \<times> string) list \<Rightarrow> datetime \<Rightarrow>
   exn + classified" where
  "classify P digest cls iss kid operation metadata now =
     bindE (new_tag iss kid operation (p_isoformat P now) GENESIS_PARENT_DIGEST) (\<lambda>tag.
     new_classified digest cls [tag] metadata)"

definition derive ::
  "platform \<Rightarrow> classified \<Rightarrow> string \<Rightarrow> string \<Rightarrow> string \<Rightarrow> string \<Rightarrow> data_class option \<Rightarrow>
   (string \<times> string) list option \<Rightarrow> datetime \<Rightarrow> exn + classified" where
  "derive P parent digest iss kid operation new_class metadata now =
     bindE (case new_class of
              None \<Rightarrow> Inr (cd_class parent)
            | Some c \<Rightarrow> if is_more_restrictive (cd_class parent) c then Inl classification_error else Inr c)
       (\<lambda>effective_class.
     bindE (chain_hash P parent) (\<lambda>parent_digest.
     bindE (new_tag iss kid operation (p_isoformat P now) parent_digest) (\<lambda>tag.
     new_classified digest effective_class (cd_lineage parent @ [tag])
       (case metadata of None \<Rightarrow> cd_metadata parent | Some m \<Rightarrow> m))))"

fun chain_hashes :: "platform \<Rightarrow> classified list \<Rightarrow> exn + string list" where
  "chain_hashes P [] = Inr []"
| "chain_hashes P (d # ds) =
     bindE (chain_hash P d) (\<lambda>h. bindE (chain_hashes P ds) (\<lambda>hs. Inr (h # hs)))"

fun join_lines :: "string list \<Rightarrow> string" where
  "join_lines [] = []"
| "join_lines [s] = s"
| "join_lines (s # ss) = s @ [newline] @ join_lines ss"

definition combine ::
  "platform \<Rightarrow> classified list \<Rightarrow> string \<Rightarrow> string \<Rightarrow> string \<Rightarrow> string \<Rightarrow> (string \<times> string) list \<Rightarrow> datetime \<Rightarrow>
   exn + classified" where
  "combine P parents digest iss kid operation metadata now =
     (if parents = [] then Inl classification_error
      else
        bindE (max_class (map cd_class parents)) (\<lambda>effective_class.
        bindE (chain_hashes P parents) (\<lambda>hashes.
        bindE (new_tag iss kid operation (p_isoformat P now) (p_sha256 P (join_lines (sort hashes)))) (\<lambda>tag.
        new_classified digest effective_class (concat (map cd_lineage parents) @ [tag]) metadata))))"


section \<open>Retrieval\<close>

record retrieval_decision =
  rd_allowed :: bool
  rd_reason_code :: string

record retrieval_rule =
  rr_caller_iss :: string
  rr_purpose :: string
  rr_max_class :: data_class

definition retrieval_rule_ok :: "retrieval_rule \<Rightarrow> bool" where
  "retrieval_rule_ok r \<longleftrightarrow> spiffe_id_re (rr_caller_iss r) \<and> rr_purpose r \<noteq> []"

text \<open>\<open>cross_tenant\<close> is \<open>True\<close> for \<open>CrossTenantRetrieval.ALLOW\<close>.\<close>

record retrieval_policy =
  rp_rules :: "retrieval_rule list"
  rp_cross_tenant :: bool

definition retrieval_denied :: "deny_reason \<Rightarrow> retrieval_decision" where
  "retrieval_denied r = \<lparr>rd_allowed = False, rd_reason_code = deny_value r\<rparr>"

definition retrieval_ok :: retrieval_decision where
  "retrieval_ok = \<lparr>rd_allowed = True, rd_reason_code = ''ok''\<rparr>"

definition origin_iss :: "classified \<Rightarrow> string" where
  "origin_iss d = lt_actor_iss (hd (cd_lineage d))"

definition cross_tenant_denied :: "string \<Rightarrow> classified \<Rightarrow> bool" where
  "cross_tenant_denied caller d =
     (case (trust_domain_of caller, trust_domain_of (origin_iss d)) of
        (Some caller_td, Some origin_td) \<Rightarrow> caller_td \<noteq> origin_td
      | _ \<Rightarrow> False)"

fun match_retrieval :: "string \<Rightarrow> string \<Rightarrow> data_class \<Rightarrow> retrieval_rule list \<Rightarrow> retrieval_decision" where
  "match_retrieval caller purpose cls [] = retrieval_denied RETRIEVAL_NO_RULE_MATCH"
| "match_retrieval caller purpose cls (r # rs) =
     (if rr_caller_iss r = caller \<and> rr_purpose r = purpose then
        (if is_more_restrictive cls (rr_max_class r) then retrieval_denied RETRIEVAL_CLASS_EXCEEDS_RULE
         else retrieval_ok)
      else match_retrieval caller purpose cls rs)"

definition retrieval_decide :: "retrieval_policy \<Rightarrow> string \<Rightarrow> string \<Rightarrow> classified \<Rightarrow> retrieval_decision" where
  "retrieval_decide policy caller purpose d =
     (if \<not> rp_cross_tenant policy \<and> cross_tenant_denied caller d
      then retrieval_denied RETRIEVAL_CROSS_TENANT
      else match_retrieval caller purpose (cd_class d) (rp_rules policy))"

definition retrieval_event :: "string \<Rightarrow> classified \<Rightarrow> retrieval_decision \<Rightarrow> kwargs" where
  "retrieval_event caller d dec =
     [(''event_type'', PStr ''retrieval.verify''),
      (''outcome'', PStr (if rd_allowed dec then ''allow'' else ''deny'')),
      (''reason'', PStr (rd_reason_code dec)), (''reason_code'', PStr (rd_reason_code dec)),
      (''artifact_version'', PStr ''wt-retrieval/v0''), (''sender'', PStr caller),
      (''recipient'', PStr (origin_iss d)), (''issuer_iss'', PStr (origin_iss d))]"

definition evaluate_retrieval ::
  "'k kw_sink \<Rightarrow> retrieval_policy \<Rightarrow> string \<Rightarrow> string \<Rightarrow> classified \<Rightarrow> 'k \<Rightarrow> retrieval_decision \<times> 'k" where
  "evaluate_retrieval sink policy caller purpose d k =
     (let dec = retrieval_decide policy caller purpose d in
      emit_or_deny sink (retrieval_event caller d dec) (retrieval_denied AUDIT_SINK_FAILURE) dec k)"

text \<open>\<open>require_retrieval\<close> raises \<open>RetrievalError\<close>, which carries the decision.\<close>

definition require_retrieval ::
  "'k kw_sink \<Rightarrow> retrieval_policy \<Rightarrow> string \<Rightarrow> string \<Rightarrow> classified \<Rightarrow> 'k \<Rightarrow>
   (retrieval_decision + retrieval_decision) \<times> 'k" where
  "require_retrieval sink policy caller purpose d k =
     (case evaluate_retrieval sink policy caller purpose d k of
        (dec, k') \<Rightarrow> (if \<not> rd_allowed dec then Inl dec else Inr dec, k'))"


section \<open>Risk and egress\<close>

datatype risk_level = RISK_NONE | RISK_LOW | RISK_MEDIUM | RISK_HIGH | RISK_CRITICAL

fun risk_rank :: "risk_level \<Rightarrow> nat" where
  "risk_rank RISK_NONE = 0"
| "risk_rank RISK_LOW = 1"
| "risk_rank RISK_MEDIUM = 2"
| "risk_rank RISK_HIGH = 3"
| "risk_rank RISK_CRITICAL = 4"

lemma risk_rank_inject: "risk_rank a = risk_rank b \<longleftrightarrow> a = b"
  by (cases a; cases b) auto

instantiation risk_level :: linorder
begin

definition less_eq_risk_level :: "risk_level \<Rightarrow> risk_level \<Rightarrow> bool" where
  "less_eq_risk_level a b \<longleftrightarrow> risk_rank a \<le> risk_rank b"

definition less_risk_level :: "risk_level \<Rightarrow> risk_level \<Rightarrow> bool" where
  "less_risk_level a b \<longleftrightarrow> risk_rank a < risk_rank b"

instance
  by standard (auto simp: less_eq_risk_level_def less_risk_level_def risk_rank_inject)

end

definition max_risk :: "risk_level list \<Rightarrow> risk_level" where
  "max_risk levels = foldl (\<lambda>best l. if risk_rank l > risk_rank best then l else best) RISK_NONE levels"

interpretation max_risk: severity_scale RISK_NONE max_risk
  by unfold_locales (auto simp: max_risk_def less_risk_level_def less_eq_risk_level_def)

datatype egress_action = EGRESS_ALLOW | EGRESS_QUARANTINE | EGRESS_DENY

record egress_decision =
  eg_action :: egress_action
  eg_reason_code :: string

record egress_cell =
  ec_risk :: risk_level
  ec_class :: data_class
  ec_action :: egress_action

record egress_policy =
  ep_cells :: "egress_cell list"
  ep_restricted_no_export :: bool

definition egress_policy_ok :: "egress_policy \<Rightarrow> bool" where
  "egress_policy_ok p \<longleftrightarrow> distinct (map (\<lambda>c. (ec_risk c, ec_class c)) (ep_cells p))"

definition egress_denied :: "deny_reason \<Rightarrow> egress_decision" where
  "egress_denied r = \<lparr>eg_action = EGRESS_DENY, eg_reason_code = deny_value r\<rparr>"

fun cell_decision :: "egress_action \<Rightarrow> egress_decision" where
  "cell_decision EGRESS_ALLOW = \<lparr>eg_action = EGRESS_ALLOW, eg_reason_code = ''ok''\<rparr>"
| "cell_decision EGRESS_QUARANTINE = \<lparr>eg_action = EGRESS_QUARANTINE, eg_reason_code = ''egress_quarantined''\<rparr>"
| "cell_decision EGRESS_DENY = egress_denied EGRESS_DENIED_BY_POLICY"

fun match_cells :: "risk_level \<Rightarrow> data_class \<Rightarrow> egress_cell list \<Rightarrow> egress_decision" where
  "match_cells risk cls [] = egress_denied EGRESS_NO_MATRIX_ENTRY"
| "match_cells risk cls (c # cs) =
     (if ec_risk c = risk \<and> ec_class c = cls then cell_decision (ec_action c) else match_cells risk cls cs)"

definition egress_decide :: "egress_policy \<Rightarrow> risk_level \<Rightarrow> data_class \<Rightarrow> egress_decision" where
  "egress_decide p risk cls =
     (if ep_restricted_no_export p \<and> cls = RESTRICTED then egress_denied EGRESS_RESTRICTED_NO_EXPORT
      else match_cells risk cls (ep_cells p))"

definition egress_event :: "egress_decision \<Rightarrow> kwargs" where
  "egress_event dec =
     [(''event_type'', PStr ''egress.verify''),
      (''outcome'', PStr (if eg_action dec = EGRESS_ALLOW then ''allow'' else ''deny'')),
      (''reason'', PStr (eg_reason_code dec)), (''reason_code'', PStr (eg_reason_code dec)),
      (''artifact_version'', PStr ''wt-egress/v0'')]"

definition evaluate_egress ::
  "'k kw_sink \<Rightarrow> egress_policy \<Rightarrow> risk_level \<Rightarrow> data_class \<Rightarrow> 'k \<Rightarrow> egress_decision \<times> 'k" where
  "evaluate_egress sink p risk cls k =
     (let dec = egress_decide p risk cls in
      emit_or_deny sink (egress_event dec) (egress_denied AUDIT_SINK_FAILURE) dec k)"

definition require_egress ::
  "'k kw_sink \<Rightarrow> egress_policy \<Rightarrow> risk_level \<Rightarrow> data_class \<Rightarrow> 'k \<Rightarrow> (egress_decision + egress_decision) \<times> 'k" where
  "require_egress sink p risk cls k =
     (case evaluate_egress sink p risk cls k of
        (dec, k') \<Rightarrow> (if eg_action dec \<noteq> EGRESS_ALLOW then Inl dec else Inr dec, k'))"


section \<open>Where data comes from\<close>

text \<open>\<open>ancestor P a d\<close>: \<open>d\<close> was made from \<open>a\<close> by some sequence of derivations and combinations.\<close>

inductive ancestor :: "platform \<Rightarrow> classified \<Rightarrow> classified \<Rightarrow> bool" for P a where
  ancestor_self: "ancestor P a a"
| ancestor_derive: "ancestor P a p \<Longrightarrow> derive P p digest iss kid operation cls md now = Inr d \<Longrightarrow> ancestor P a d"
| ancestor_combine: "ancestor P a p \<Longrightarrow> p \<in> set ps \<Longrightarrow> combine P ps digest iss kid operation md2 now = Inr d \<Longrightarrow>
     ancestor P a d"

lemma max_class_foldl: "c \<le> foldl (\<lambda>best c. if class_rank c > class_rank best then c else best) c cs \<and>
    (\<forall>x\<in>set cs. x \<le> foldl (\<lambda>best c. if class_rank c > class_rank best then c else best) c cs)"
proof (induction cs arbitrary: c)
  case (Cons x cs)
  let ?m = "if class_rank x > class_rank c then x else c"
  have m: "c \<le> ?m" "x \<le> ?m" by (auto simp: less_eq_data_class_def)
  then show ?case using Cons.IH[of ?m] by (auto intro: order_trans)
qed simp

lemma max_class_upper: "max_class ks = Inr m \<Longrightarrow> c \<in> set ks \<Longrightarrow> c \<le> m"
  using max_class_foldl by (auto simp: max_class_def split: list.splits)

lemma new_classified_Inr: "new_classified digest cls lineage md = Inr d \<Longrightarrow>
    d = \<lparr>cd_digest = digest, cd_class = cls, cd_lineage = lineage, cd_metadata = md\<rparr> \<and> lineage \<noteq> []"
  by (auto simp: new_classified_def)

lemma derive_Inr:
  assumes "derive P p digest iss kid operation cls md now = Inr d"
  shows "cd_class p \<le> cd_class d" "\<exists>tag. cd_lineage d = cd_lineage p @ [tag]"
  using assms by (auto simp: derive_def split: option.splits if_splits dest!: new_classified_Inr)

lemma combine_Inr:
  assumes "combine P ps digest iss kid operation md now = Inr d" "p \<in> set ps"
  shows "cd_class p \<le> cd_class d" "set (cd_lineage p) \<subseteq> set (cd_lineage d)"
  using assms
  by (auto simp: combine_def split: if_splits dest!: new_classified_Inr intro: max_class_upper)

lemma ancestor_facts: "ancestor P a d \<Longrightarrow> cd_class a \<le> cd_class d \<and> set (cd_lineage a) \<subseteq> set (cd_lineage d)"
proof (induction rule: ancestor.induct)
  case (ancestor_derive p digest iss kid operation cls md now d)
  then show ?case using derive_Inr[OF ancestor_derive.hyps(2)] by fastforce
next
  case (ancestor_combine p ps digest iss kid operation md2 now d)
  then show ?case using combine_Inr[OF ancestor_combine.hyps(3,2)] by fastforce
qed simp

text \<open>The lineage of an ancestor is in that of the data, whole and in its order, and every step has
  added an entry after it.\<close>

lemma combine_lineage:
  assumes "combine P ps digest iss kid operation md now = Inr d" "p \<in> set ps"
  shows "\<exists>xs ys. cd_lineage d = xs @ cd_lineage p @ ys \<and> ys \<noteq> []"
proof -
  obtain before after where ps: "ps = before @ p # after" using split_list[OF assms(2)] by blast
  have "\<exists>tag. cd_lineage d = concat (map cd_lineage ps) @ [tag]"
    using assms(1) by (auto simp: combine_def split: if_splits dest!: new_classified_Inr)
  then obtain tag where "cd_lineage d = concat (map cd_lineage ps) @ [tag]" by blast
  then show ?thesis
    by (intro exI[of _ "concat (map cd_lineage before)"] exI[of _ "concat (map cd_lineage after) @ [tag]"])
      (simp add: ps)
qed

lemma ancestor_lineage:
  "ancestor P a d \<Longrightarrow> a = d \<or> (\<exists>xs ys. cd_lineage d = xs @ cd_lineage a @ ys \<and> ys \<noteq> [])"
proof (induction rule: ancestor.induct)
  case (ancestor_derive p digest iss kid operation cls md now d)
  from derive_Inr(2)[OF ancestor_derive.hyps(2)] obtain tag where tag: "cd_lineage d = cd_lineage p @ [tag]" by blast
  from ancestor_derive.IH obtain xs ys where "cd_lineage p = xs @ cd_lineage a @ ys" by (metis append.left_neutral append_Nil2)
  then have "cd_lineage d = xs @ cd_lineage a @ (ys @ [tag]) \<and> ys @ [tag] \<noteq> []" using tag by simp
  then show ?case by blast
next
  case (ancestor_combine p ps digest iss kid operation md2 now d)
  from combine_lineage[OF ancestor_combine.hyps(3,2)] obtain bs cs where
    d: "cd_lineage d = bs @ cd_lineage p @ cs" "cs \<noteq> []" by blast
  from ancestor_combine.IH obtain xs ys where "cd_lineage p = xs @ cd_lineage a @ ys" by (metis append.left_neutral append_Nil2)
  then have "cd_lineage d = (bs @ xs) @ cd_lineage a @ (ys @ cs) \<and> ys @ cs \<noteq> []" using d by simp
  then show ?case by blast
qed simp


section \<open>What the policies allow\<close>

interpretation retrieval_rules: first_match
  "\<lambda>r q. rr_caller_iss r = fst q \<and> rr_purpose r = fst (snd q)"
  "\<lambda>r q. if rr_max_class r < snd (snd q) then retrieval_denied RETRIEVAL_CLASS_EXCEEDS_RULE else retrieval_ok"
  "\<lambda>q. retrieval_denied RETRIEVAL_NO_RULE_MATCH" "\<lambda>rs q. match_retrieval (fst q) (fst (snd q)) (snd (snd q)) rs"
  by unfold_locales simp_all

interpretation egress_cells: first_match
  "\<lambda>c q. ec_risk c = fst q \<and> ec_class c = snd q" "\<lambda>c q. cell_decision (ec_action c)"
  "\<lambda>q. egress_denied EGRESS_NO_MATRIX_ENTRY" "\<lambda>cs q. match_cells (fst q) (snd q) cs"
  by unfold_locales simp_all

lemma retrieval_denied_allowed [simp]: "\<not> rd_allowed (retrieval_denied r)"
  by (simp add: retrieval_denied_def)

lemma egress_denied_action [simp]: "eg_action (egress_denied r) = EGRESS_DENY"
  by (simp add: egress_denied_def)

lemma match_retrieval_allowed:
  assumes "rd_allowed (match_retrieval caller purpose cls rules)"
  shows "\<exists>r\<in>set rules. rr_caller_iss r = caller \<and> rr_purpose r = purpose \<and> cls \<le> rr_max_class r"
proof -
  have "match_retrieval caller purpose cls rules \<noteq> retrieval_denied RETRIEVAL_NO_RULE_MATCH" using assms by auto
  from retrieval_rules.eval_not_default[where q = "(caller, purpose, cls)", simplified, OF this]
  obtain xs r ys where r: "rules = xs @ r # ys" "rr_caller_iss r = caller" "rr_purpose r = purpose"
    "match_retrieval caller purpose cls rules =
       (if rr_max_class r < cls then retrieval_denied RETRIEVAL_CLASS_EXCEEDS_RULE else retrieval_ok)" by metis
  then have "\<not> rr_max_class r < cls" using assms by auto
  then show ?thesis using r by auto
qed

text \<open>C33. Restriction and provenance are never lost on the way to a reader: whatever the data were
  derived or combined from, in any number of steps, their lineage holds the whole lineage of each
  ancestor, in its order and followed by an entry of a later step. If a retrieval is allowed, some
  rule names the caller and the purpose with a class at least as restrictive as that of every
  ancestor; the allowed retrieval is in the audit log; and without the cross-tenant option the caller
  is in the trust domain of the first origin, unless one of the two identities has none. (Of the
  other origins nothing is promised: \<open>combined_tenants_leak\<close>.)\<close>

theorem retrieval_bounded:
  assumes "kw_logs rc evs" "evaluate_retrieval (Some rc) policy caller purpose d k = (dec, k')" "rd_allowed dec"
    and "ancestor P a d"
  shows "(\<exists>r\<in>set (rp_rules policy). rr_caller_iss r = caller \<and> rr_purpose r = purpose \<and> cd_class a \<le> rr_max_class r) \<and>
    (a = d \<or> (\<exists>xs ys. cd_lineage d = xs @ cd_lineage a @ ys \<and> ys \<noteq> [])) \<and>
    evs k' = evs k @ [retrieval_event caller d dec] \<and>
    (rp_cross_tenant policy \<or> trust_domain_of caller = None \<or> trust_domain_of (origin_iss d) = None \<or>
     trust_domain_of caller = trust_domain_of (origin_iss d))"
proof -
  have d: "dec = retrieval_decide policy caller purpose d" "evs k' = evs k @ [retrieval_event caller d dec]"
    using emit_or_deny_log[OF assms(1) assms(2)[unfolded evaluate_retrieval_def Let_def]] assms(3) by auto
  then have allowed: "rd_allowed (match_retrieval caller purpose (cd_class d) (rp_rules policy))"
    and tenant: "rp_cross_tenant policy \<or> \<not> cross_tenant_denied caller d"
    using assms(3) by (auto simp: retrieval_decide_def split: if_splits)
  have "cd_class a \<le> cd_class d" using ancestor_facts[OF assms(4)] by simp
  then have "\<exists>r\<in>set (rp_rules policy). rr_caller_iss r = caller \<and> rr_purpose r = purpose \<and> cd_class a \<le> rr_max_class r"
    using match_retrieval_allowed[OF allowed] by auto
  moreover have "rp_cross_tenant policy \<or> trust_domain_of caller = None \<or> trust_domain_of (origin_iss d) = None \<or>
      trust_domain_of caller = trust_domain_of (origin_iss d)"
    using tenant by (auto simp: cross_tenant_denied_def split: option.splits)
  ultimately show ?thesis using ancestor_lineage[OF assms(4)] d(2) by blast
qed

text \<open>Restricted data never leave: nothing that was derived or combined from a restricted item, in any
  number of steps, is released by a policy with \<open>restricted_no_export\<close>, whatever its matrix, the
  scanned risk and the audit sink.\<close>

lemma restricted_never_exported:
  assumes "ancestor P a d" "cd_class a = RESTRICTED" "ep_restricted_no_export policy"
  shows "eg_action (fst (evaluate_egress sink policy risk (cd_class d) k)) = EGRESS_DENY"
proof -
  have "RESTRICTED \<le> cd_class d" using ancestor_facts[OF assms(1)] assms(2) by simp
  then have "cd_class d = RESTRICTED" by (cases "cd_class d") (simp_all add: less_eq_data_class_def)
  then have "egress_decide policy risk (cd_class d) = egress_denied EGRESS_RESTRICTED_NO_EXPORT"
    using assms(3) by (simp add: egress_decide_def)
  then show ?thesis
    using emit_or_deny_cases[of sink "egress_event (egress_decide policy risk (cd_class d))"
        "egress_denied AUDIT_SINK_FAILURE" "egress_decide policy risk (cd_class d)" k]
    by (auto simp: evaluate_egress_def Let_def)
qed

text \<open>An artifact leaves exactly if its cell of the matrix says so (and restricted data are not blocked).\<close>

lemma egress_allowed_iff:
  assumes "egress_policy_ok p"
  shows "eg_action (egress_decide p risk cls) = EGRESS_ALLOW \<longleftrightarrow>
    \<not> (ep_restricted_no_export p \<and> cls = RESTRICTED) \<and>
    \<lparr>ec_risk = risk, ec_class = cls, ec_action = EGRESS_ALLOW\<rparr> \<in> set (ep_cells p)"
proof -
  have "eg_action (match_cells risk cls cs) = EGRESS_ALLOW \<longleftrightarrow>
      \<lparr>ec_risk = risk, ec_class = cls, ec_action = EGRESS_ALLOW\<rparr> \<in> set cs"
    if "distinct (map (\<lambda>c. (ec_risk c, ec_class c)) cs)" for cs
    using that
  proof (induction cs)
    case (Cons c cs)
    show ?case
    proof (cases "ec_risk c = risk \<and> ec_class c = cls")
      case True
      then have "\<lparr>ec_risk = risk, ec_class = cls, ec_action = EGRESS_ALLOW\<rparr> \<notin> set cs"
        using Cons.prems by (force simp: image_iff)
      then show ?thesis using True by (cases "ec_action c"; cases c) auto
    next
      case False
      then show ?thesis using Cons by auto
    qed
  qed simp
  then show ?thesis using assms by (auto simp: egress_decide_def egress_policy_ok_def)
qed


section \<open>Gaps of the tenant check\<close>

text \<open>The tenant check looks at the first entry of the lineage only: data combined from two tenants are
  released to the first one, without any rule of the second.\<close>

definition tenant_data :: "string \<Rightarrow> classified" where
  "tenant_data iss =
     \<lparr>cd_digest = demo_digest, cd_class = INTERNAL,
      cd_lineage = [\<lparr>lt_actor_iss = iss, lt_actor_kid = ''k'', lt_operation = ''ingest'', lt_timestamp = ''now'',
                     lt_parent_digest = GENESIS_PARENT_DIGEST\<rparr>], cd_metadata = []\<rparr>"

definition combined_data :: classified where
  "combined_data = (tenant_data ''spiffe://a/x'')\<lparr>cd_lineage :=
     cd_lineage (tenant_data ''spiffe://a/x'') @ cd_lineage (tenant_data ''spiffe://b/y'') @
     [\<lparr>lt_actor_iss = ''spiffe://a/x'', lt_actor_kid = ''k'', lt_operation = ''join'', lt_timestamp = ''now'',
       lt_parent_digest = demo_digest\<rparr>]\<rparr>"

definition tenant_policy :: retrieval_policy where
  "tenant_policy =
     \<lparr>rp_rules = [\<lparr>rr_caller_iss = ''spiffe://a/x'', rr_purpose = ''read'', rr_max_class = INTERNAL\<rparr>],
      rp_cross_tenant = False\<rparr>"

lemma digest_ok: "hex_sha256_re demo_digest"
  by code_simp

lemma combined_made:
  "combine demo_platform [tenant_data ''spiffe://a/x'', tenant_data ''spiffe://b/y''] demo_digest
     ''spiffe://a/x'' ''k'' ''join'' [] 0 = Inr combined_data"
  using digest_ok
  by (simp add: combine_def max_class_def tenant_data_def combined_data_def chain_hash_def new_tag_def
      new_classified_def demo_platform_def) (simp add: pattern_defs)

lemma same_tenant: "origin_iss d = caller \<Longrightarrow> \<not> cross_tenant_denied caller d"
  by (auto simp: cross_tenant_denied_def split: option.splits)

lemma combined_allowed: "retrieval_decide tenant_policy ''spiffe://a/x'' ''read'' combined_data = retrieval_ok"
proof -
  have "origin_iss combined_data = ''spiffe://a/x''" by (simp add: origin_iss_def combined_data_def tenant_data_def)
  from same_tenant[OF this] show ?thesis
    by (simp add: retrieval_decide_def tenant_policy_def combined_data_def tenant_data_def)
qed

lemma combined_tenants_leak:
  "rd_allowed (retrieval_decide tenant_policy ''spiffe://a/x'' ''read'' combined_data) \<and>
   ancestor demo_platform (tenant_data ''spiffe://b/y'') combined_data"
proof
  show "rd_allowed (retrieval_decide tenant_policy ''spiffe://a/x'' ''read'' combined_data)"
    by (simp add: combined_allowed retrieval_ok_def)
  show "ancestor demo_platform (tenant_data ''spiffe://b/y'') combined_data"
    by (rule ancestor_combine[OF ancestor_self _ combined_made]) simp
qed

text \<open>A SPIFFE id with an empty authority passes the pattern and has no trust domain, so the tenant check
  does not apply to it.\<close>

lemma empty_authority: "spiffe_id_re ''spiffe:///x'' \<and> trust_domain_of ''spiffe:///x'' = None \<and>
    \<not> cross_tenant_denied ''spiffe:///x'' d"
  by (simp add: cross_tenant_denied_def trust_domain_of_def pattern_defs)

theorem retrieval_bounded_witness:
  "snd (evaluate_retrieval (Some list_sink) tenant_policy ''spiffe://a/x'' ''read'' combined_data []) =
     [retrieval_event ''spiffe://a/x'' combined_data retrieval_ok] \<and>
   (\<exists>r. r \<in> set (rp_rules tenant_policy) \<and> INTERNAL \<le> rr_max_class r) \<and>
   (\<exists>xs ys. cd_lineage combined_data = xs @ cd_lineage (tenant_data ''spiffe://b/y'') @ ys)"
proof -
  have run: "evaluate_retrieval (Some list_sink) tenant_policy ''spiffe://a/x'' ''read'' combined_data [] =
      (retrieval_ok, [retrieval_event ''spiffe://a/x'' combined_data retrieval_ok])"
    by (simp add: evaluate_retrieval_def emit_or_deny_def list_sink_def combined_allowed)
  have "cd_class (tenant_data ''spiffe://b/y'') = INTERNAL" by (simp add: tenant_data_def)
  moreover have "tenant_data ''spiffe://b/y'' \<noteq> combined_data" by (simp add: combined_data_def tenant_data_def)
  moreover note retrieval_bounded[OF list_sink_logs run _ conjunct2[OF combined_tenants_leak]]
  ultimately show ?thesis using run by (fastforce simp: retrieval_ok_def)
qed

end
