(* ===== verification/OutputScan.thy ===== *)
theory OutputScan
  imports DataPolicy
begin

text \<open>
  Scanning and redaction of outputs (\<open>output_scanning.py\<close>). A regular expression is known by what its
  \<open>finditer\<close> returns, the spans of its matches in a text; \<open>SecretPatterns\<close> holds the built-in expressions.
  \<open>redaction\<close> is the specification of \<open>redact\<close>, position by position.
\<close>

section \<open>Scanning\<close>

record secret_pattern =
  sp_name :: string
  sp_finditer :: "string \<Rightarrow> (nat \<times> nat) list"
  sp_severity :: risk_level

abbreviation scanning_error :: exn where
  "scanning_error \<equiv> repo_error ''OutputScanningError''"

definition secret_pattern_ok :: "secret_pattern \<Rightarrow> bool" where
  "secret_pattern_ok p \<longleftrightarrow> sp_name p \<noteq> [] \<and> sp_severity p \<noteq> RISK_NONE"

definition new_registry :: "secret_pattern list \<Rightarrow> exn + secret_pattern list" where
  "new_registry patterns =
     (if \<not> distinct (map sp_name patterns) then Inl scanning_error else Inr patterns)"

definition extend_registry :: "secret_pattern list \<Rightarrow> secret_pattern list \<Rightarrow> exn + secret_pattern list" where
  "extend_registry patterns extra = new_registry (patterns @ extra)"

record scan_match =
  sm_name :: string
  sm_severity :: risk_level
  sm_start :: nat
  sm_end :: nat

definition new_match :: "string \<Rightarrow> risk_level \<Rightarrow> nat \<Rightarrow> nat \<Rightarrow> exn + scan_match" where
  "new_match name severity first last_pos =
     (if last_pos < first then Inl scanning_error
      else Inr \<lparr>sm_name = name, sm_severity = severity, sm_start = first, sm_end = last_pos\<rparr>)"

record scan_result =
  sr_text :: string
  sr_matches :: "scan_match list"

fun collect_matches :: "string \<Rightarrow> risk_level \<Rightarrow> (nat \<times> nat) list \<Rightarrow> exn + scan_match list" where
  "collect_matches name severity [] = Inr []"
| "collect_matches name severity ((a, b) # spans) =
     bindE (new_match name severity a b) (\<lambda>m.
     bindE (collect_matches name severity spans) (\<lambda>ms. Inr (m # ms)))"

fun scan_patterns :: "string \<Rightarrow> secret_pattern list \<Rightarrow> exn + scan_match list" where
  "scan_patterns s [] = Inr []"
| "scan_patterns s (p # ps) =
     bindE (collect_matches (sp_name p) (sp_severity p) (sp_finditer p s)) (\<lambda>ms.
     bindE (scan_patterns s ps) (\<lambda>ms'. Inr (ms @ ms')))"

definition scan :: "secret_pattern list \<Rightarrow> string \<Rightarrow> exn + scan_result" where
  "scan registry s = bindE (scan_patterns s registry) (\<lambda>ms. Inr \<lparr>sr_text = s, sr_matches = ms\<rparr>)"

definition scan_risk :: "scan_result \<Rightarrow> risk_level" where
  "scan_risk r = (if sr_matches r = [] then RISK_NONE else max_risk (map sm_severity (sr_matches r)))"

definition is_clean :: "scan_result \<Rightarrow> bool" where
  "is_clean r \<longleftrightarrow> sr_matches r = []"


section \<open>Redaction\<close>

definition match_key :: "scan_match \<Rightarrow> int \<times> int \<times> int" where
  "match_key m = (int (sm_start m), - int (risk_rank (sm_severity m)), - (int (sm_end m) - int (sm_start m)))"

definition redaction_tag :: "scan_match \<Rightarrow> string" where
  "redaction_tag m = ''[REDACTED:'' @ sm_name m @ '']''"

fun redact_chunks :: "string \<Rightarrow> scan_match list \<Rightarrow> nat \<Rightarrow> string list" where
  "redact_chunks s [] cursor = [drop cursor s]"
| "redact_chunks s (m # ms) cursor =
     (if sm_start m < cursor then redact_chunks s ms cursor
      else take (sm_start m - cursor) (drop cursor s) # redaction_tag m # redact_chunks s ms (sm_end m))"

definition redact :: "scan_result \<Rightarrow> string" where
  "redact r =
     (if sr_matches r = [] then sr_text r
      else concat (redact_chunks (sr_text r) (sort_key match_key (sr_matches r)) 0))"


section \<open>What redaction does\<close>

definition covers :: "scan_match \<Rightarrow> nat \<Rightarrow> bool" where
  "covers m i \<longleftrightarrow> sm_start m \<le> i \<and> i < sm_end m"

text \<open>A text with the spans of \<open>ms\<close> removed and a tag where each of them starts.\<close>

definition piece :: "string \<Rightarrow> scan_match list \<Rightarrow> nat \<Rightarrow> string" where
  "piece s ms i =
     concat (map redaction_tag (filter (\<lambda>m. sm_start m = i) ms)) @
     (if \<exists>m\<in>set ms. covers m i then [] else [s ! i])"

definition redaction :: "string \<Rightarrow> scan_match list \<Rightarrow> nat \<Rightarrow> string" where
  "redaction s ms first = concat (map (piece s ms) [first..<length s])"

fun kept :: "scan_match list \<Rightarrow> nat \<Rightarrow> scan_match list" where
  "kept [] cursor = []"
| "kept (m # ms) cursor = (if sm_start m < cursor then kept ms cursor else m # kept ms (sm_end m))"

lemma kept_start: "m \<in> set (kept ms c) \<Longrightarrow> \<forall>x\<in>set ms. sm_start x < sm_end x \<Longrightarrow> c \<le> sm_start m \<and> m \<in> set ms"
proof (induction ms arbitrary: c)
  case (Cons x ms)
  show ?case
  proof (cases "sm_start x < c")
    case True
    then show ?thesis using Cons by auto
  next
    case False
    then consider "m = x" | "m \<in> set (kept ms (sm_end x))" using Cons.prems(1) by auto
    then show ?thesis
    proof cases
      case 2
      then show ?thesis using Cons.IH[of "sm_end x"] Cons.prems(2) False by fastforce
    qed (use False in simp)
  qed
qed simp

lemma map_slice: "a \<le> b \<Longrightarrow> b \<le> length s \<Longrightarrow> concat (map (\<lambda>i. [s ! i]) [a..<b]) = take (b - a) (drop a s)"
  by (simp add: concat_map_singleton) (rule nth_equalityI; simp)

lemma redact_chunks_spec:
  assumes "\<forall>m\<in>set ms. sm_start m < sm_end m \<and> sm_end m \<le> length s" "c \<le> length s"
  shows "concat (redact_chunks s ms c) = redaction s (kept ms c) c"
  using assms
proof (induction ms arbitrary: c)
  case Nil
  have eq: "map (piece s []) [c..<length s] = map (\<lambda>i. [s ! i]) [c..<length s]" by (simp add: piece_def)
  have "redaction s [] c = take (length s - c) (drop c s)"
    unfolding redaction_def eq by (rule map_slice) (use Nil in simp_all)
  then show ?case by simp
next
  case (Cons m ms)
  show ?case
  proof (cases "sm_start m < c")
    case False
    let ?a = "sm_start m" and ?b = "sm_end m" and ?K = "kept ms (sm_end m)"
    have le: "c \<le> ?a" "?a < ?b" "?b \<le> length s" using Cons.prems False by auto
    have K: "?b \<le> sm_start k" "sm_start k < sm_end k" if "k \<in> set ?K" for k
      using that kept_start[of k ms ?b] Cons.prems by auto
    have empty: "filter (\<lambda>k. sm_start k = i) ?K = []" if "i < ?b" for i
      using that K(1) by (fastforce simp: filter_empty_conv)
    have outside: "\<not> (\<exists>k\<in>set ?K. covers k i)" if "i < ?b" for i
      using that K(1) by (fastforce simp: covers_def)
    have before: "piece s (m # ?K) i = [s ! i]" if "i < ?a" for i
      using that le empty[of i] outside[of i] by (auto simp: piece_def covers_def)
    have at_start: "piece s (m # ?K) ?a = redaction_tag m"
      using le empty[of ?a] by (auto simp: piece_def covers_def)
    have inside: "piece s (m # ?K) i = []" if "?a < i" "i < ?b" for i
      using that empty[of i] by (auto simp: piece_def covers_def)
    have after: "piece s (m # ?K) i = piece s ?K i" if "?b \<le> i" for i
      using that le by (auto simp: piece_def covers_def)
    have split: "[c..<length s] = [c..<?a] @ ?a # [Suc ?a..<?b] @ [?b..<length s]"
    proof -
      have "[c..<length s] = [c..<?a] @ [?a..<length s]" using upt_add_eq_append[of c ?a "length s - ?a"] le by simp
      also have "[?a..<length s] = [?a..<?b] @ [?b..<length s]"
        using upt_add_eq_append[of ?a ?b "length s - ?b"] le by simp
      also have "[?a..<?b] = ?a # [Suc ?a..<?b]" using le by (simp add: upt_conv_Cons)
      finally show ?thesis by simp
    qed
    have p1: "concat (map (piece s (m # ?K)) [c..<?a]) = take (?a - c) (drop c s)"
    proof -
      have eq: "map (piece s (m # ?K)) [c..<?a] = map (\<lambda>i. [s ! i]) [c..<?a]" using before by simp
      show ?thesis unfolding eq by (rule map_slice) (use le in simp_all)
    qed
    have p2: "concat (map (piece s (m # ?K)) [Suc ?a..<?b]) = []" using inside by simp
    have p3: "map (piece s (m # ?K)) [?b..<length s] = map (piece s ?K) [?b..<length s]" using after by simp
    have "redaction s (m # ?K) c = take (?a - c) (drop c s) @ redaction_tag m @ redaction s ?K ?b"
      unfolding redaction_def split by (simp only: map_append list.map concat_append concat.simps p1 p2 p3 at_start) simp
    then show ?thesis using False Cons.IH[of ?b] Cons.prems by simp
  qed (use Cons in simp)
qed

text \<open>Two matches that overlap are nested, and the outer one comes first in the order of redaction.\<close>

definition nested :: "scan_match list \<Rightarrow> bool" where
  "nested ms \<longleftrightarrow> (\<forall>m\<in>set ms. \<forall>m'\<in>set ms. match_key m \<le> match_key m' \<longrightarrow> sm_start m' < sm_end m \<longrightarrow>
     sm_end m' \<le> sm_end m)"

lemma kept_covers:
  assumes "sorted (map match_key ms)" "nested (done @ ms)" "m \<in> set ms" "covers m i" "sm_start m < sm_end m"
    and "\<forall>x\<in>set ms. \<forall>y\<in>set done. match_key y \<le> match_key x"
    and "\<forall>x\<in>set ms. sm_start x < c \<longrightarrow> (\<exists>y\<in>set done. sm_end y = c)"
  shows "i < c \<or> (\<exists>k\<in>set (kept ms c). covers k i)"
  using assms
proof (induction ms arbitrary: "done" c)
  case (Cons x ms)
  have le: "sm_start x \<le> sm_start z" if "z \<in> set ms" for z
    using Cons.prems(1) that by (auto simp: match_key_def)
  show ?case
  proof (cases "sm_start x < c")
    case True
    have skip: "i < c \<or> (\<exists>k\<in>set (kept ms c). covers k i)" if "m \<in> set ms"
      using Cons.IH[of "done @ [x]" c] Cons.prems True that by (auto simp: nested_def)
    show ?thesis
    proof (cases "m = x")
      case True
      obtain y where y: "y \<in> set done" "sm_end y = c" using Cons.prems(7) \<open>sm_start x < c\<close> by auto
      have "match_key y \<le> match_key x" using Cons.prems(6) y(1) by simp
      then have "sm_end x \<le> c" using Cons.prems(2) y \<open>sm_start x < c\<close> by (auto simp: nested_def)
      then show ?thesis using Cons.prems(4) True by (simp add: covers_def)
    qed (use skip Cons.prems(3) True in simp)
  next
    case False
    show ?thesis
    proof (cases "m = x")
      case True
      then show ?thesis using False Cons.prems(4) by simp
    next
      case neq: False
      then have m: "m \<in> set ms" using Cons.prems(3) by simp
      have "i < sm_end x \<or> (\<exists>k\<in>set (kept ms (sm_end x)). covers k i)"
        using Cons.IH[of "done @ [x]" "sm_end x"] Cons.prems m by (auto simp: nested_def)
      moreover have "sm_start x \<le> i" using le[OF m] Cons.prems(4) by (simp add: covers_def)
      ultimately show ?thesis using False by (auto simp: covers_def)
    qed
  qed
qed simp

text \<open>Redaction is exact: for matches inside the text such that of two overlapping ones the first in
  redaction order contains the other, the result is the text without any character of any match,
  every other character in place, and a tag where
  each match of a subset \<open>ms\<close> starts that covers the same characters.\<close>

lemma redact_exact:
  assumes "\<forall>m\<in>set (sr_matches r). sm_start m < sm_end m \<and> sm_end m \<le> length (sr_text r)"
    and "nested (sr_matches r)"
  shows "\<exists>ms. set ms \<subseteq> set (sr_matches r) \<and> redact r = redaction (sr_text r) ms 0 \<and>
    (\<forall>i. (\<exists>m\<in>set ms. covers m i) = (\<exists>m\<in>set (sr_matches r). covers m i))"
proof -
  let ?ms = "sort_key match_key (sr_matches r)"
  have eq: "redact r = redaction (sr_text r) (kept ?ms 0) 0"
  proof (cases "sr_matches r = []")
    case True
    then show ?thesis using redact_chunks_spec[of "[]" "sr_text r" 0] by (simp add: redact_def)
  next
    case False
    then show ?thesis using redact_chunks_spec[of ?ms "sr_text r" 0] assms(1) by (simp add: redact_def)
  qed
  have sub: "set (kept ?ms 0) \<subseteq> set (sr_matches r)" using kept_start[of _ ?ms 0] assms(1) by auto
  have nest: "nested ([] @ ?ms)" using assms(2) by (simp add: nested_def)
  have "\<exists>k\<in>set (kept ?ms 0). covers k i" if "m \<in> set (sr_matches r)" "covers m i" for m i
    using kept_covers[OF _ nest, of m i 0] that assms(1) by auto
  then show ?thesis using eq sub by (intro exI[of _ "kept ?ms 0"]) auto
qed

text \<open>Without that condition redaction leaks: of two matches that overlap in part the second one is
  skipped, and its end stays in the result; of two that start together the more severe one is
  taken although it may be the shorter.\<close>

lemma overlap_leaks:
  "redact \<lparr>sr_text = ''keytoken'', sr_matches = [\<lparr>sm_name = ''a'', sm_severity = RISK_HIGH, sm_start = 0, sm_end = 4\<rparr>,
     \<lparr>sm_name = ''b'', sm_severity = RISK_HIGH, sm_start = 3, sm_end = 8\<rparr>]\<rparr> = ''[REDACTED:a]oken''"
  "redact \<lparr>sr_text = ''keytoken'', sr_matches = [\<lparr>sm_name = ''a'', sm_severity = RISK_CRITICAL, sm_start = 0, sm_end = 3\<rparr>,
     \<lparr>sm_name = ''b'', sm_severity = RISK_HIGH, sm_start = 0, sm_end = 8\<rparr>]\<rparr> = ''[REDACTED:a]token''"
  by (simp_all add: redact_def match_key_def redaction_tag_def)

end
