(* ===== verification/ToolGate.thy ===== *)
theory ToolGate
  imports Artifact Demo
begin

text \<open>
  The tool policy gate (\<open>tool_policy_gate.py\<close>): a closed list of tools with risk tiers and callers,
  signed step-up attestations bound to one call, and the audited decision. An attestation comes from
  the wire, so its fields are \<open>pyval\<close>s until their shape is checked.
\<close>

section \<open>Rules and calls\<close>

datatype risk_tier = TIER_LOW | TIER_MEDIUM | TIER_HIGH | TIER_CRITICAL

fun tier_rank :: "risk_tier \<Rightarrow> nat" where
  "tier_rank TIER_LOW = 0"
| "tier_rank TIER_MEDIUM = 1"
| "tier_rank TIER_HIGH = 2"
| "tier_rank TIER_CRITICAL = 3"

record tool_rule =
  tr_tool_name :: string
  tr_risk_tier :: risk_tier
  tr_allowed_callers :: "string set"
  tr_step_up_required :: "bool option"

definition tool_rule_ok :: "tool_rule \<Rightarrow> bool" where
  "tool_rule_ok r \<longleftrightarrow> tr_tool_name r \<noteq> [] \<and> (\<forall>c\<in>tr_allowed_callers r. spiffe_id_re c)"

definition effective_step_up_required :: "tool_rule \<Rightarrow> bool" where
  "effective_step_up_required r =
     (case tr_step_up_required r of Some b \<Rightarrow> b | None \<Rightarrow> tier_rank (tr_risk_tier r) \<ge> tier_rank TIER_HIGH)"

abbreviation tool_policy_error :: exn where
  "tool_policy_error \<equiv> repo_error ''ToolPolicyError''"

definition new_tool_policy :: "tool_rule list \<Rightarrow> exn + tool_rule list" where
  "new_tool_policy rules =
     (if \<not> distinct (map tr_tool_name rules) then Inl tool_policy_error else Inr rules)"

fun rule_for :: "string \<Rightarrow> tool_rule list \<Rightarrow> tool_rule option" where
  "rule_for tool_name [] = None"
| "rule_for tool_name (r # rs) = (if tr_tool_name r = tool_name then Some r else rule_for tool_name rs)"

record tool_call =
  tc_tool_name :: string
  tc_caller_iss :: string
  tc_arguments_digest :: string

definition new_tool_call :: "string \<Rightarrow> string \<Rightarrow> string \<Rightarrow> exn + tool_call" where
  "new_tool_call tool_name caller digest =
     bindE (guards [(tool_name \<noteq> [], tool_policy_error), (spiffe_id_re caller, tool_policy_error),
                    (hex_sha256_re digest, tool_policy_error)])
       (\<lambda>_. Inr \<lparr>tc_tool_name = tool_name, tc_caller_iss = caller, tc_arguments_digest = digest\<rparr>)"


section \<open>Step-up attestations\<close>

record step_up =
  su_tool_name :: pyval
  su_caller_iss :: pyval
  su_arguments_digest :: pyval
  su_issuer_iss :: pyval
  su_issuer_kid :: pyval
  su_iat :: pyval
  su_nbf :: pyval
  su_exp :: pyval
  su_jti :: pyval
  su_signature :: pyval

abbreviation suerr :: "deny_reason \<Rightarrow> exn" where
  "suerr \<equiv> raise_as StepUpError"

definition stepup_body :: "step_up \<Rightarrow> pyval" where
  "stepup_body a =
     PDict [(''typ'', PStr ''wt-stepup/v0''), (''tool_name'', su_tool_name a), (''caller_iss'', su_caller_iss a),
            (''arguments_digest'', su_arguments_digest a), (''issuer_iss'', su_issuer_iss a),
            (''issuer_kid'', su_issuer_kid a), (''iat'', su_iat a), (''nbf'', su_nbf a), (''exp'', su_exp a),
            (''jti'', su_jti a)]"

definition sign_step_up :: "platform \<Rightarrow> (string \<Rightarrow> string) \<Rightarrow> step_up \<Rightarrow> exn + step_up" where
  "sign_step_up P sign a =
     bindE (sign_body P sign (stepup_body a)) (\<lambda>s. Inr (a\<lparr>su_signature := s\<rparr>))"

definition stepup_fields :: "string list" where
  "stepup_fields =
     [''tool_name'', ''caller_iss'', ''arguments_digest'', ''issuer_iss'', ''issuer_kid'', ''iat'', ''nbf'',
      ''exp'', ''jti'', ''signature'']"

definition stepup_object :: "step_up \<Rightarrow> pyval" where
  "stepup_object a =
     PDict [(''tool_name'', su_tool_name a), (''caller_iss'', su_caller_iss a),
            (''arguments_digest'', su_arguments_digest a), (''issuer_iss'', su_issuer_iss a),
            (''issuer_kid'', su_issuer_kid a), (''iat'', su_iat a), (''nbf'', su_nbf a), (''exp'', su_exp a),
            (''jti'', su_jti a), (''signature'', su_signature a)]"

definition stepup_from_json :: "platform \<Rightarrow> string \<Rightarrow> exn + step_up" where
  "stepup_from_json P data =
     (case p_json_loads P data of
        Inl e \<Rightarrow> if value_or_type_error e then Inl (suerr TOOL_STEP_UP_MALFORMED) else Inl e
      | Inr obj \<Rightarrow>
          if \<not> is_dict obj then Inl (suerr TOOL_STEP_UP_MALFORMED)
          else let d = dict_of obj in
            if \<not> list_all (has_key d) stepup_fields then Inl (suerr TOOL_STEP_UP_MALFORMED)
            else Inr \<lparr>su_tool_name = item d ''tool_name'', su_caller_iss = item d ''caller_iss'',
                      su_arguments_digest = item d ''arguments_digest'', su_issuer_iss = item d ''issuer_iss'',
                      su_issuer_kid = item d ''issuer_kid'', su_iat = item d ''iat'', su_nbf = item d ''nbf'',
                      su_exp = item d ''exp'', su_jti = item d ''jti'', su_signature = item d ''signature''\<rparr>)"

definition stepup_shape :: "step_up \<Rightarrow> exn + unit" where
  "stepup_shape a =
     (let m = suerr TOOL_STEP_UP_MALFORMED in
      guards
       [(str_test nonempty (su_tool_name a), m), (str_test spiffe_id_re (su_caller_iss a), m),
        (str_test hex_sha256_re (su_arguments_digest a), m), (str_test spiffe_id_re (su_issuer_iss a), m),
        (str_test kid_re (su_issuer_kid a), m), (str_test uuid_v7_re (su_jti a), m),
        (is_int (su_iat a), m), (is_int (su_nbf a), m), (is_int (su_exp a), m),
        (str_test nonempty (su_signature a), m)])"

definition stepup_binding :: "step_up \<Rightarrow> tool_call \<Rightarrow> exn + unit" where
  "stepup_binding a call =
     guards
      [(\<not> (su_tool_name a \<noteq> PStr (tc_tool_name call) \<or> su_caller_iss a \<noteq> PStr (tc_caller_iss call)),
        suerr TOOL_STEP_UP_MISMATCH),
       (\<not> su_arguments_digest a \<noteq> PStr (tc_arguments_digest call), suerr TOOL_STEP_UP_MISMATCH)]"

definition stepup_window :: "step_up \<Rightarrow> datetime \<Rightarrow> timedelta \<Rightarrow> timedelta \<Rightarrow> exn + unit" where
  "stepup_window a current max_clock_skew max_step_up_ttl =
     numeric_window (suerr TOOL_STEP_UP_MALFORMED) (suerr TOOL_STEP_UP_MALFORMED)
       (suerr TOOL_STEP_UP_EXPIRED) (suerr TOOL_STEP_UP_EXPIRED)
       (int_of (su_iat a)) (int_of (su_nbf a)) (int_of (su_exp a)) current max_clock_skew max_step_up_ttl"

definition stepup_signature ::
  "platform \<Rightarrow> (string \<Rightarrow> string \<Rightarrow> exn + string) \<Rightarrow> step_up \<Rightarrow> exn + unit" where
  "stepup_signature P issuer_lookup a =
     issuer_signature P issuer_lookup (suerr TOOL_STEP_UP_UNKNOWN_ISSUER) (suerr TOOL_STEP_UP_SIGNATURE_INVALID)
       (str_of (su_issuer_iss a)) (str_of (su_issuer_kid a)) (su_signature a) (stepup_body a)"

record step_up_limits =
  ul_max_clock_skew :: timedelta
  ul_max_step_up_ttl :: timedelta

definition DEFAULT_STEP_UP_LIMITS :: step_up_limits where
  "DEFAULT_STEP_UP_LIMITS = \<lparr>ul_max_clock_skew = seconds 60, ul_max_step_up_ttl = minutes 10\<rparr>"

definition verify_step_up ::
  "platform \<Rightarrow> (string \<Rightarrow> string \<Rightarrow> exn + string) \<Rightarrow> step_up_limits \<Rightarrow> datetime \<Rightarrow> tool_call \<Rightarrow> step_up \<Rightarrow>
   exn + step_up" where
  "verify_step_up P issuer_lookup L current call a =
     bindE (stepup_shape a) (\<lambda>_.
     bindE (stepup_binding a call) (\<lambda>_.
     bindE (stepup_window a current (ul_max_clock_skew L) (ul_max_step_up_ttl L)) (\<lambda>_.
     bindE (stepup_signature P issuer_lookup a) (\<lambda>_. Inr a))))"


section \<open>The gate\<close>

record tool_decision =
  td_allowed :: bool
  td_reason_code :: string

definition tool_denied :: "deny_reason \<Rightarrow> tool_decision" where
  "tool_denied r = \<lparr>td_allowed = False, td_reason_code = deny_value r\<rparr>"

definition tool_ok :: tool_decision where
  "tool_ok = \<lparr>td_allowed = True, td_reason_code = ''ok''\<rparr>"

definition evaluate_tool_call_inner ::
  "platform \<Rightarrow> (string \<Rightarrow> string \<Rightarrow> exn + string) option \<Rightarrow> step_up_limits \<Rightarrow> datetime \<Rightarrow> tool_call \<Rightarrow>
   tool_rule list \<Rightarrow> step_up option \<Rightarrow> exn + tool_decision" where
  "evaluate_tool_call_inner P issuer_lookup L current call policy attestation =
     (case rule_for (tc_tool_name call) policy of
        None \<Rightarrow> Inr (tool_denied TOOL_UNKNOWN)
      | Some rule \<Rightarrow>
          if tr_allowed_callers rule \<noteq> {} \<and> tc_caller_iss call \<notin> tr_allowed_callers rule
          then Inr (tool_denied TOOL_CALLER_NOT_ALLOWED)
          else if effective_step_up_required rule then
            (case attestation of
               None \<Rightarrow> Inr (tool_denied TOOL_STEP_UP_REQUIRED)
             | Some a \<Rightarrow>
                 (case issuer_lookup of
                    None \<Rightarrow> Inl tool_policy_error
                  | Some lookup \<Rightarrow>
                      (case verify_step_up P lookup L current call a of
                         Inl e \<Rightarrow>
                           if exn_cls e = StepUpError then
                             Inr \<lparr>td_allowed = False,
                                  td_reason_code =
                                    (case exn_reason e of Some r \<Rightarrow> deny_value r
                                     | None \<Rightarrow> deny_value TOOL_STEP_UP_REQUIRED)\<rparr>
                           else Inl e
                       | Inr _ \<Rightarrow> Inr tool_ok)))
          else Inr tool_ok)"

definition tool_gate_event :: "tool_call \<Rightarrow> tool_decision \<Rightarrow> kwargs" where
  "tool_gate_event call d =
     [(''event_type'', PStr ''tool.verify''), (''outcome'', PStr (if td_allowed d then ''allow'' else ''deny'')),
      (''reason'', PStr (td_reason_code d)), (''reason_code'', PStr (td_reason_code d)),
      (''artifact_version'', PStr ''wt-tool-gate/v0''), (''sender'', PStr (tc_caller_iss call)),
      (''message_id'', PStr (tc_arguments_digest call))]"

definition evaluate_tool_call ::
  "platform \<Rightarrow> 'k kw_sink \<Rightarrow> (string \<Rightarrow> string \<Rightarrow> exn + string) option \<Rightarrow> step_up_limits \<Rightarrow> datetime \<Rightarrow> tool_call \<Rightarrow>
   tool_rule list \<Rightarrow> step_up option \<Rightarrow> 'k \<Rightarrow> (exn + tool_decision) \<times> 'k" where
  "evaluate_tool_call P sink issuer_lookup L current call policy attestation k =
     (case evaluate_tool_call_inner P issuer_lookup L current call policy attestation of
        Inl e \<Rightarrow> (Inl e, k)
      | Inr d \<Rightarrow>
          (case emit_or_deny sink (tool_gate_event call d) (tool_denied AUDIT_SINK_FAILURE) d k of
             (d', k') \<Rightarrow> (Inr d', k')))"

definition require_tool_call ::
  "platform \<Rightarrow> 'k kw_sink \<Rightarrow> (string \<Rightarrow> string \<Rightarrow> exn + string) option \<Rightarrow> step_up_limits \<Rightarrow> datetime \<Rightarrow> tool_call \<Rightarrow>
   tool_rule list \<Rightarrow> step_up option \<Rightarrow> 'k \<Rightarrow> (exn + tool_decision) \<times> 'k" where
  "require_tool_call P sink issuer_lookup L current call policy attestation k =
     (case evaluate_tool_call P sink issuer_lookup L current call policy attestation k of
        (Inl e, k') \<Rightarrow> (Inl e, k')
      | (Inr d, k') \<Rightarrow>
          if \<not> td_allowed d then
            (Inl \<lparr>exn_cls = ToolPolicyDenied, exn_reason = deny_of_value (td_reason_code d)\<rparr>, k')
          else (Inr d, k'))"


section \<open>What an allowed call establishes\<close>

text \<open>What a step-up attestation must satisfy for a call.\<close>

definition stepup_ok ::
  "platform \<Rightarrow> (string \<Rightarrow> string \<Rightarrow> exn + string) \<Rightarrow> step_up_limits \<Rightarrow> datetime \<Rightarrow> tool_call \<Rightarrow> step_up \<Rightarrow> bool" where
  "stepup_ok P lookup L current call a \<longleftrightarrow>
     su_tool_name a = PStr (tc_tool_name call) \<and> su_caller_iss a = PStr (tc_caller_iss call) \<and>
     su_arguments_digest a = PStr (tc_arguments_digest call) \<and>
     (\<exists>iat nbf expiry. su_iat a = PInt iat \<and> su_nbf a = PInt nbf \<and> su_exp a = PInt expiry \<and> iat \<le> nbf \<and>
        nbf \<le> expiry \<and> seconds (expiry - nbf) \<le> ul_max_step_up_ttl L \<and>
        seconds nbf \<le> current + ul_max_clock_skew L \<and> current \<le> seconds expiry + ul_max_clock_skew L) \<and>
     (\<exists>iss kid. su_issuer_iss a = PStr iss \<and> su_issuer_kid a = PStr kid \<and>
        signed_by P lookup iss kid (su_signature a) (stepup_body a))"

lemma stepup_shape_Inr: "stepup_shape a = Inr () \<Longrightarrow>
    (\<exists>iss. su_issuer_iss a = PStr iss) \<and> (\<exists>kid. su_issuer_kid a = PStr kid) \<and>
    (\<exists>n. su_iat a = PInt n) \<and> (\<exists>n. su_nbf a = PInt n) \<and> (\<exists>n. su_exp a = PInt n)"
  by (auto simp: stepup_shape_def Let_def str_test_iff is_int_iff)

lemma verify_step_up_ok:
  assumes "verify_step_up P lookup L current call a = Inr a'"
  shows "a' = a \<and> stepup_ok P lookup L current call a"
proof -
  have s: "stepup_shape a = Inr ()" "stepup_binding a call = Inr ()"
    "stepup_window a current (ul_max_clock_skew L) (ul_max_step_up_ttl L) = Inr ()"
    "stepup_signature P lookup a = Inr ()" "a' = a"
    using assms by (auto simp: verify_step_up_def)
  obtain iss kid iat nbf expiry where f: "su_issuer_iss a = PStr iss" "su_issuer_kid a = PStr kid"
    "su_iat a = PInt iat" "su_nbf a = PInt nbf" "su_exp a = PInt expiry" using stepup_shape_Inr[OF s(1)] by blast
  show ?thesis
    using s f by (auto simp: stepup_ok_def stepup_binding_def stepup_window_def numeric_window_Inr
        stepup_signature_def issuer_signature_Inr)
qed

lemma tool_denied_allowed [simp]: "\<not> td_allowed (tool_denied r)"
  by (simp add: tool_denied_def)

lemma rule_for_Some: "rule_for t rs = Some r \<Longrightarrow> r \<in> set rs \<and> tr_tool_name r = t"
  by (induction rs) (auto split: if_splits)

text \<open>What the policy demands of a call, independently of the order in which the gate checks it.\<close>

definition call_authorized ::
  "platform \<Rightarrow> (string \<Rightarrow> string \<Rightarrow> exn + string) option \<Rightarrow> step_up_limits \<Rightarrow> datetime \<Rightarrow> tool_call \<Rightarrow>
   tool_rule list \<Rightarrow> step_up option \<Rightarrow> bool" where
  "call_authorized P issuer_lookup L current call policy attestation \<longleftrightarrow>
     (\<exists>r\<in>set policy. tr_tool_name r = tc_tool_name call \<and>
        (tr_allowed_callers r = {} \<or> tc_caller_iss call \<in> tr_allowed_callers r) \<and>
        (effective_step_up_required r \<longrightarrow>
           (\<exists>a lookup. attestation = Some a \<and> issuer_lookup = Some lookup \<and> stepup_ok P lookup L current call a)))"

lemma inner_allowed:
  assumes "evaluate_tool_call_inner P issuer_lookup L current call policy attestation = Inr d" "td_allowed d"
  shows "call_authorized P issuer_lookup L current call policy attestation"
proof -
  obtain r where r: "rule_for (tc_tool_name call) policy = Some r"
    using assms by (auto simp: evaluate_tool_call_inner_def split: option.splits)
  note m = rule_for_Some[OF r]
  have callers: "tr_allowed_callers r = {} \<or> tc_caller_iss call \<in> tr_allowed_callers r"
    using assms r by (auto simp: evaluate_tool_call_inner_def split: if_splits)
  have "\<exists>a lookup. attestation = Some a \<and> issuer_lookup = Some lookup \<and> stepup_ok P lookup L current call a"
    if "effective_step_up_required r"
    using assms r callers that
    by (auto simp: evaluate_tool_call_inner_def split: option.splits if_splits sum.splits dest!: verify_step_up_ok)
  then show ?thesis using m callers by (auto simp: call_authorized_def)
qed

text \<open>C11. A tool runs only with authority, and on the record: if the gate lets a call through, the policy
  lists the tool, the caller is one of those its rule allows, a tool that needs step-up has an
  attestation signed by a trusted issuer for exactly this tool, caller and arguments that is in
  its window, and the allow event is in the audit log; every other decision is recorded as a
  denial or is the denial for the failing sink.\<close>

theorem tool_call_authorized:
  assumes "kw_logs rc evs"
    and "evaluate_tool_call P (Some rc) issuer_lookup L current call policy attestation k = (Inr d, k')"
  shows "(td_allowed d \<longrightarrow> call_authorized P issuer_lookup L current call policy attestation) \<and>
    (evs k' = evs k @ [tool_gate_event call d] \<or> (evs k' = evs k \<and> d = tool_denied AUDIT_SINK_FAILURE))"
proof -
  obtain d0 where d0: "evaluate_tool_call_inner P issuer_lookup L current call policy attestation = Inr d0"
    "emit_or_deny (Some rc) (tool_gate_event call d0) (tool_denied AUDIT_SINK_FAILURE) d0 k = (d, k')"
    using assms(2) by (auto simp: evaluate_tool_call_def split: sum.splits prod.splits)
  from emit_or_deny_log[OF assms(1) d0(2)] inner_allowed[OF d0(1)] show ?thesis by auto
qed

text \<open>The gate is not total: an issuer key that does not load, or times outside the range of
  \<open>datetime\<close>, raise out of it, without a decision and without an event.\<close>

lemma gate_escapes:
  assumes "rule_for (tc_tool_name call) policy = Some r" "tr_allowed_callers r = {}" "effective_step_up_required r"
    and "verify_step_up P lookup L current call a = Inl e" "exn_cls e \<noteq> StepUpError"
  shows "evaluate_tool_call P sink (Some lookup) L current call policy (Some a) k = (Inl e, k)"
  using assms by (simp add: evaluate_tool_call_def evaluate_tool_call_inner_def)


section \<open>A signed attestation\<close>

text \<open>Signing an attestation and writing it to JSON gives one that the reader returns unchanged.\<close>

lemma stepup_roundtrip:
  assumes "p_json_loads P data = Inr (stepup_object a)"
  shows "stepup_from_json P data = Inr a"
  using assms
  by (simp add: stepup_from_json_def stepup_object_def stepup_fields_def has_key_def item_def Let_def)

interpretation step_ups: signed_artifact stepup_body su_signature sign_step_up stepup_object stepup_from_json
  by unfold_locales (auto simp: sign_step_up_def stepup_body_def intro: stepup_roundtrip)

definition demo_call :: tool_call where
  "demo_call = \<lparr>tc_tool_name = ''rm'', tc_caller_iss = ''spiffe://a'', tc_arguments_digest = demo_digest\<rparr>"

definition demo_tools :: "tool_rule list" where
  "demo_tools = [\<lparr>tr_tool_name = ''rm'', tr_risk_tier = TIER_CRITICAL, tr_allowed_callers = {''spiffe://a''},
                  tr_step_up_required = None\<rparr>]"

definition demo_step_up :: step_up where
  "demo_step_up =
     \<lparr>su_tool_name = PStr ''rm'', su_caller_iss = PStr ''spiffe://a'', su_arguments_digest = PStr demo_digest,
      su_issuer_iss = PStr ''spiffe://i'', su_issuer_kid = PStr ''ik'', su_iat = PInt 0, su_nbf = PInt 0,
      su_exp = PInt 300, su_jti = PStr demo_uuid, su_signature = PStr ''AA''\<rparr>"

lemma demo_step_up_verified:
  "verify_step_up demo_platform (\<lambda>iss kid. Inr ''pem'') DEFAULT_STEP_UP_LIMITS 0 demo_call demo_step_up = Inr demo_step_up"
proof -
  have "uuid_v7_re demo_uuid" "hex_sha256_re demo_digest" by code_simp+
  then have "stepup_shape demo_step_up = Inr ()"
    by (simp add: stepup_shape_def demo_step_up_def nonempty_def Let_def) (simp add: pattern_defs)
  moreover have "stepup_binding demo_step_up demo_call = Inr ()"
    by (simp add: stepup_binding_def demo_step_up_def demo_call_def)
  moreover have "stepup_window demo_step_up 0 (seconds 60) (minutes 10) = Inr ()"
    by (simp add: stepup_window_def numeric_window_Inr demo_step_up_def timestamp_ok_def seconds_def minutes_def)
  moreover have "stepup_signature demo_platform (\<lambda>iss kid. Inr ''pem'') demo_step_up = Inr ()"
    unfolding stepup_signature_def issuer_signature_Inr by (simp add: demo_signed demo_step_up_def)
  ultimately show ?thesis by (simp add: verify_step_up_def DEFAULT_STEP_UP_LIMITS_def)
qed

theorem tool_call_authorized_witness:
  "call_authorized demo_platform (Some (\<lambda>iss kid. Inr ''pem'')) DEFAULT_STEP_UP_LIMITS 0 demo_call demo_tools (Some demo_step_up)"
proof -
  have "evaluate_tool_call demo_platform (Some list_sink) (Some (\<lambda>iss kid. Inr ''pem'')) DEFAULT_STEP_UP_LIMITS 0
      demo_call demo_tools (Some demo_step_up) [] = (Inr tool_ok, [tool_gate_event demo_call tool_ok])"
    by (simp add: evaluate_tool_call_def evaluate_tool_call_inner_def demo_step_up_verified demo_tools_def
        effective_step_up_required_def emit_or_deny_def list_sink_def) (simp add: demo_call_def)
  from tool_call_authorized[OF list_sink_logs this] show ?thesis by (simp add: tool_ok_def)
qed

end
