(* ===== verification/PolicyEngine.thy ===== *)
theory PolicyEngine
  imports Issuance
begin

text \<open>
  The structured policy engine (\<open>policy_engine.py\<close>): ordered rules with wildcards and typed conditions,
  first match, deny by default, every decision with a fresh identifier. Context values are unchecked;
  membership of an unhashable value in a set raises, so matching may raise.
\<close>

section \<open>Equality of unchecked values\<close>

text \<open>\<open>==\<close> on nested values.\<close>

fun py_equal :: "pyval \<Rightarrow> pyval \<Rightarrow> bool"
  and py_equal_list :: "pyval list \<Rightarrow> pyval list \<Rightarrow> bool"
  and py_equal_dict :: "(string \<times> pyval) list \<Rightarrow> (string \<times> pyval) list \<Rightarrow> bool" where
  "py_equal (PList xs) (PList ys) = py_equal_list xs ys"
| "py_equal (PDict d) (PDict e) = (length d = length e \<and> py_equal_dict d e)"
| "py_equal v w = py_eq v w"
| "py_equal_list [] ys = (ys = [])"
| "py_equal_list (x # xs) (y # ys) = (py_equal x y \<and> py_equal_list xs ys)"
| "py_equal_list (x # xs) [] = False"
| "py_equal_dict [] e = True"
| "py_equal_dict ((k, v) # d) e =
     ((case map_of e k of None \<Rightarrow> False | Some w \<Rightarrow> py_equal v w) \<and> py_equal_dict d e)"

text \<open>A collection of a condition: a list or tuple, or a set, whose membership test hashes.\<close>

datatype collection = Sequence "pyval list" | HashSet "pyval list"

fun member_of :: "pyval \<Rightarrow> collection \<Rightarrow> exn + bool" where
  "member_of v (Sequence xs) = Inr (list_ex (py_equal v) xs)"
| "member_of v (HashSet xs) =
     (if is_container v then Inl (std_error ''TypeError'') else Inr (list_ex (py_equal v) xs))"


section \<open>Rules\<close>

datatype effect = PERMIT | DENY

fun effect_value :: "effect \<Rightarrow> string" where
  "effect_value PERMIT = ''permit''"
| "effect_value DENY = ''deny''"

datatype condition_test =
    EqualsTo pyval
  | NotEqualsTo pyval
  | IsIn collection
  | IsNotIn collection

record condition =
  co_key :: string
  co_test :: condition_test

abbreviation policy_engine_error :: exn where
  "policy_engine_error \<equiv> repo_error ''PolicyEngineError''"

definition new_condition :: "string \<Rightarrow> condition_test \<Rightarrow> exn + condition" where
  "new_condition key test =
     (if key = [] then Inl policy_engine_error else Inr \<lparr>co_key = key, co_test = test\<rparr>)"

definition condition_matches :: "condition \<Rightarrow> (string \<times> pyval) list \<Rightarrow> exn + bool" where
  "condition_matches c context =
     (let present = has_key context (co_key c); actual = item context (co_key c) in
      case co_test c of
        EqualsTo v \<Rightarrow> Inr (present \<and> py_equal actual v)
      | NotEqualsTo v \<Rightarrow> Inr (\<not> py_equal actual v)
      | IsIn vs \<Rightarrow> if \<not> present then Inr False else member_of actual vs
      | IsNotIn vs \<Rightarrow> bindE (member_of actual vs) (\<lambda>b. Inr (\<not> b)))"

record policy_rule =
  pl_name :: string
  pl_effect :: effect
  pl_principal :: string
  pl_action :: string
  pl_resource :: string
  pl_conditions :: "condition list"

definition policy_rule_ok :: "policy_rule \<Rightarrow> bool" where
  "policy_rule_ok r \<longleftrightarrow> pl_name r \<noteq> [] \<and> pl_principal r \<noteq> [] \<and> pl_action r \<noteq> [] \<and> pl_resource r \<noteq> []"

record policy_request =
  rq_principal :: string
  rq_action :: string
  rq_resource :: string
  rq_context :: "(string \<times> pyval) list"

definition new_policy_request :: "string \<Rightarrow> string \<Rightarrow> string \<Rightarrow> (string \<times> pyval) list \<Rightarrow> exn + policy_request" where
  "new_policy_request who action resource context =
     (if who = [] \<or> action = [] \<or> resource = [] then Inl policy_engine_error
      else Inr \<lparr>rq_principal = who, rq_action = action, rq_resource = resource, rq_context = context\<rparr>)"

definition field_matches :: "string \<Rightarrow> string \<Rightarrow> bool" where
  "field_matches rule_val req_val \<longleftrightarrow> rule_val = ''*'' \<or> rule_val = req_val"

fun all_match :: "condition list \<Rightarrow> (string \<times> pyval) list \<Rightarrow> exn + bool" where
  "all_match [] context = Inr True"
| "all_match (c # cs) context =
     bindE (condition_matches c context) (\<lambda>b. if b then all_match cs context else Inr False)"

definition rule_matches :: "policy_rule \<Rightarrow> policy_request \<Rightarrow> exn + bool" where
  "rule_matches r req =
     (if field_matches (pl_principal r) (rq_principal req) \<and> field_matches (pl_action r) (rq_action req) \<and>
         field_matches (pl_resource r) (rq_resource req)
      then all_match (pl_conditions r) (rq_context req) else Inr False)"


section \<open>Decisions\<close>

record policy_decision =
  po_effect :: effect
  po_decision_id :: string
  po_matched_rule :: string

definition permitted :: "policy_decision \<Rightarrow> bool" where
  "permitted d \<longleftrightarrow> po_effect d = PERMIT"

definition new_engine_rules :: "policy_rule list \<Rightarrow> exn + policy_rule list" where
  "new_engine_rules rules =
     (if \<not> distinct (map pl_name rules) then Inl policy_engine_error else Inr rules)"

fun first_rule :: "policy_rule list \<Rightarrow> policy_request \<Rightarrow> exn + policy_rule option" where
  "first_rule [] req = Inr None"
| "first_rule (r # rs) req =
     (case rule_matches r req of
        Inl e \<Rightarrow> Inl e
      | Inr b \<Rightarrow> if b then Inr (Some r) else first_rule rs req)"

definition decide ::
  "(rat \<Rightarrow> rat) \<Rightarrow> policy_rule list \<Rightarrow> policy_request \<Rightarrow> datetime \<Rightarrow> string \<Rightarrow> exn + policy_decision" where
  "decide rnd rules req now rb =
     bindE (generate_uuidv7 rnd now rb) (\<lambda>decision_id.
     bindE (first_rule rules req) (\<lambda>found.
     Inr (case found of
            Some r \<Rightarrow> \<lparr>po_effect = pl_effect r, po_decision_id = decision_id, po_matched_rule = pl_name r\<rparr>
          | None \<Rightarrow> \<lparr>po_effect = DENY, po_decision_id = decision_id, po_matched_rule = []\<rparr>)))"


section \<open>Facts\<close>

interpretation policy_rules: first_match
  "\<lambda>r req. rule_matches r req \<noteq> Inr False"
  "\<lambda>r req. case rule_matches r req of Inl e \<Rightarrow> Inl e | Inr b \<Rightarrow> Inr (Some r)"
  "\<lambda>req. Inr None" first_rule
  by unfold_locales (auto split: sum.splits)

lemma first_rule_None: "first_rule rules req = Inr None \<longleftrightarrow> (\<forall>r\<in>set rules. rule_matches r req = Inr False)"
  by (induction rules) (auto split: sum.splits)

lemma first_rule_Some:
  "first_rule rules req = Inr (Some r) \<longleftrightarrow>
     (\<exists>xs ys. rules = xs @ r # ys \<and> (\<forall>x\<in>set xs. rule_matches x req = Inr False) \<and> rule_matches r req = Inr True)"
proof (induction rules)
  case (Cons x rules)
  show ?case
  proof (cases "rule_matches x req")
    case (Inr b)
    show ?thesis
    proof (cases b)
      case True
      have "xs = []" if "x # rules = xs @ r # ys" "\<forall>x\<in>set xs. rule_matches x req = Inr False" for xs ys
        using that Inr True by (cases xs) auto
      then show ?thesis using Inr True by (fastforce intro: exI[of _ "[]"])
    next
      case False
      have "(\<exists>xs ys. x # rules = xs @ r # ys \<and> (\<forall>x\<in>set xs. rule_matches x req = Inr False) \<and> rule_matches r req = Inr True) \<longleftrightarrow>
          (\<exists>xs ys. rules = xs @ r # ys \<and> (\<forall>x\<in>set xs. rule_matches x req = Inr False) \<and> rule_matches r req = Inr True)"
        (is "?L \<longleftrightarrow> ?R")
      proof
        assume ?L
        then obtain xs ys where l: "x # rules = xs @ r # ys" "\<forall>x\<in>set xs. rule_matches x req = Inr False"
          "rule_matches r req = Inr True" by blast
        then obtain xs' where "xs = x # xs'" using Inr False by (cases xs) auto
        then show ?R using l by auto
      next
        assume ?R
        then obtain xs ys where "rules = xs @ r # ys" "\<forall>x\<in>set xs. rule_matches x req = Inr False"
          "rule_matches r req = Inr True" by blast
        then show ?L using Inr False by (intro exI[of _ "x # xs"] exI[of _ ys]) simp
      qed
      then show ?thesis using Cons.IH Inr False by simp
    qed
  next
    case (Inl e)
    have False if "x # rules = xs @ r # ys" "\<forall>x\<in>set xs. rule_matches x req = Inr False" "rule_matches r req = Inr True" for xs ys
      using that Inl by (cases xs) auto
    then show ?thesis using Inl by auto
  qed
qed simp

text \<open>The engine decides as its documentation says: a decision it returns permits the request exactly
  if some rule permits, matches, and no rule before it matches; a decision without a rule denies;
  the decision names that rule and carries an identifier that every verifier accepts.\<close>

lemma decide_first_match:
  assumes "new_engine_rules rules = Inr rules'" "decide rnd rules' req now rb = Inr d"
  shows "permitted d = (\<exists>xs r ys. rules = xs @ r # ys \<and> pl_effect r = PERMIT \<and> rule_matches r req = Inr True \<and>
      list_all (\<lambda>x. rule_matches x req = Inr False) xs) \<and>
    ((po_matched_rule d = [] \<and> \<not> permitted d \<and> list_all (\<lambda>x. rule_matches x req = Inr False) rules) \<or>
     (\<exists>r. r \<in> set rules \<and> po_matched_rule d = pl_name r \<and> po_effect d = pl_effect r \<and> rule_matches r req = Inr True)) \<and>
    uuid_v7_re (po_decision_id d)"
proof -
  have r: "rules' = rules" using assms(1) by (auto simp: new_engine_rules_def split: if_splits)
  obtain id found where f: "generate_uuidv7 rnd now rb = Inr id" "first_rule rules req = Inr found"
    "d = (case found of
            Some r \<Rightarrow> \<lparr>po_effect = pl_effect r, po_decision_id = id, po_matched_rule = pl_name r\<rparr>
          | None \<Rightarrow> \<lparr>po_effect = DENY, po_decision_id = id, po_matched_rule = []\<rparr>)"
    using assms(2) unfolding r by (auto simp: decide_def)
  have uuid: "uuid_v7_re id" using generated_uuid_wellformed_core[OF f(1)] by simp
  have first: "found = Some x" if "rules = xs @ x # ys" "rule_matches x req = Inr True"
    "list_all (\<lambda>x. rule_matches x req = Inr False) xs" for xs x ys
  proof -
    have "first_rule rules req = Inr (Some x)" using that unfolding first_rule_Some by (auto simp: list_all_iff)
    then show ?thesis using f(2) by simp
  qed
  show ?thesis
  proof (cases found)
    case None
    then have all: "list_all (\<lambda>x. rule_matches x req = Inr False) rules"
      using f(2) by (simp add: first_rule_None list_all_iff)
    then have "\<not> (\<exists>xs r ys. rules = xs @ r # ys \<and> rule_matches r req = Inr True)" by auto
    then show ?thesis using None f(3) uuid all by (auto simp: permitted_def)
  next
    case (Some r)
    then obtain xs ys where s: "rules = xs @ r # ys" "list_all (\<lambda>x. rule_matches x req = Inr False) xs"
      "rule_matches r req = Inr True" using f(2) by (auto simp: first_rule_Some list_all_iff)
    have "permitted d \<longleftrightarrow> pl_effect r = PERMIT" using Some f(3) by (simp add: permitted_def)
    moreover have "(\<exists>xs r ys. rules = xs @ r # ys \<and> pl_effect r = PERMIT \<and> rule_matches r req = Inr True \<and>
        list_all (\<lambda>x. rule_matches x req = Inr False) xs) \<longleftrightarrow> pl_effect r = PERMIT"
      using first Some s by auto
    moreover have "r \<in> set rules" using s(1) by simp
    ultimately show ?thesis using Some f(3) uuid s(3) by auto
  qed
qed

text \<open>A set in a condition makes the engine raise on a context value that is a list or a dictionary: the
  request is neither permitted nor denied.\<close>

lemma set_condition_raises:
  assumes "co_test c = IsIn (HashSet vs)" "map_of context (co_key c) = Some (PList xs)"
  shows "condition_matches c context = Inl (std_error ''TypeError'')"
  using assms by (simp add: condition_matches_def has_key_def Let_def)

end
