(* ===== verification/Sybil.thy ===== *)
theory Sybil
  imports Eclipse Demo
begin

text \<open>
  Sybil deterrence (\<open>sybil_deterrence.py\<close>): the ledger of identity issuance, the decaying reputation of
  issuers, the attestation burden and the gate over them. \<open>rnd\<close> is the rounding of the quotient of two
  time spans to a float.
\<close>

abbreviation sybil_error :: exn where
  "sybil_error \<equiv> repo_error ''SybilDeterrenceError''"

section \<open>The ledger\<close>

record issuance_record =
  sy_issuer_iss :: string
  sy_issuer_kid :: string
  sy_minted_iss :: string
  sy_at :: datetime

definition new_issuance_record :: "string \<Rightarrow> string \<Rightarrow> string \<Rightarrow> datetime \<Rightarrow> exn + issuance_record" where
  "new_issuance_record iss kid minted at_time =
     bindE (guards [(spiffe_id_re iss, sybil_error), (kid_re kid, sybil_error), (spiffe_id_re minted, sybil_error)])
       (\<lambda>_. Inr \<lparr>sy_issuer_iss = iss, sy_issuer_kid = kid, sy_minted_iss = minted, sy_at = at_time\<rparr>)"

record sybil_ledger =
  le_retention :: timedelta
  le_events :: "issuance_record list"

definition ledger_trim :: "datetime \<Rightarrow> sybil_ledger \<Rightarrow> sybil_ledger" where
  "ledger_trim now L = L\<lparr>le_events := dropWhile (\<lambda>r. sy_at r < now - le_retention L) (le_events L)\<rparr>"

definition ledger_record :: "issuance_record \<Rightarrow> sybil_ledger \<Rightarrow> sybil_ledger" where
  "ledger_record r L = ledger_trim (sy_at r) (L\<lparr>le_events := le_events L @ [r]\<rparr>)"

definition count_for_issuer :: "sybil_ledger \<Rightarrow> string \<Rightarrow> string \<Rightarrow> datetime \<Rightarrow> nat" where
  "count_for_issuer L iss kid since =
     length (filter (\<lambda>r. sy_issuer_iss r = iss \<and> sy_issuer_kid r = kid \<and> sy_at r \<ge> since) (le_events L))"

definition count_for_tenant :: "sybil_ledger \<Rightarrow> string \<Rightarrow> datetime \<Rightarrow> nat" where
  "count_for_tenant L td since =
     length (filter (\<lambda>r. trust_domain_of (sy_issuer_iss r) = Some td \<and> sy_at r \<ge> since) (le_events L))"


section \<open>Reputation\<close>

record reputation =
  rn_initial_score :: int
  rn_decay_per_interval :: int
  rn_decay_interval :: timedelta
  rn_floor :: int
  rn_ceiling :: int
  rn_scores :: "string \<times> string \<rightharpoonup> int \<times> datetime"

definition decay :: "(rat \<Rightarrow> rat) \<Rightarrow> reputation \<Rightarrow> int \<Rightarrow> datetime \<Rightarrow> datetime \<Rightarrow> exn + int" where
  "decay rnd R score last_touched now =
     (let elapsed = now - last_touched in
      if elapsed \<le> 0 then Inr score
      else if rn_decay_interval R = 0 then Inl (std_error ''ZeroDivisionError'')
      else let steps = trunc (rnd (of_int elapsed / of_int (rn_decay_interval R))) in
        if steps \<le> 0 then Inr score
        else Inr (max (rn_floor R) (score - steps * rn_decay_per_interval R)))"

definition issuer_key :: "string \<Rightarrow> string \<Rightarrow> exn + string \<times> string" where
  "issuer_key iss kid =
     (if \<not> spiffe_id_re iss then Inl sybil_error
      else if \<not> kid_re kid then Inl sybil_error
      else Inr (iss, kid))"

definition current_score ::
  "(rat \<Rightarrow> rat) \<Rightarrow> string \<Rightarrow> string \<Rightarrow> datetime \<Rightarrow> reputation \<Rightarrow> (exn + int) \<times> reputation" where
  "current_score rnd iss kid now R =
     (case issuer_key iss kid of
        Inl e \<Rightarrow> (Inl e, R)
      | Inr key \<Rightarrow>
          (case rn_scores R key of
             None \<Rightarrow> (Inr (rn_initial_score R), R\<lparr>rn_scores := (rn_scores R)(key \<mapsto> (rn_initial_score R, now))\<rparr>)
           | Some (score, last_touched) \<Rightarrow> (decay rnd R score last_touched now, R)))"

text \<open>\<open>reward\<close> and \<open>penalize\<close> differ in what they do with the decayed score.\<close>

definition touch_score ::
  "(rat \<Rightarrow> rat) \<Rightarrow> (int \<Rightarrow> int) \<Rightarrow> string \<Rightarrow> string \<Rightarrow> int \<Rightarrow> datetime \<Rightarrow> reputation \<Rightarrow> (exn + int) \<times> reputation" where
  "touch_score rnd upd iss kid amount now R =
     (if amount \<le> 0 then (Inl sybil_error, R)
      else case issuer_key iss kid of
        Inl e \<Rightarrow> (Inl e, R)
      | Inr key \<Rightarrow>
          (case current_score rnd iss kid now R of
             (Inl e, R') \<Rightarrow> (Inl e, R')
           | (Inr decayed, R') \<Rightarrow>
               (Inr (upd decayed), R'\<lparr>rn_scores := (rn_scores R')(key \<mapsto> (upd decayed, now))\<rparr>)))"

definition reward ::
  "(rat \<Rightarrow> rat) \<Rightarrow> string \<Rightarrow> string \<Rightarrow> int \<Rightarrow> datetime \<Rightarrow> reputation \<Rightarrow> (exn + int) \<times> reputation" where
  "reward rnd iss kid amount now R =
     touch_score rnd (\<lambda>decayed. min (rn_ceiling R) (decayed + amount)) iss kid amount now R"

definition penalize ::
  "(rat \<Rightarrow> rat) \<Rightarrow> string \<Rightarrow> string \<Rightarrow> int \<Rightarrow> datetime \<Rightarrow> reputation \<Rightarrow> (exn + int) \<times> reputation" where
  "penalize rnd iss kid amount now R =
     touch_score rnd (\<lambda>decayed. max (rn_floor R) (decayed - amount)) iss kid amount now R"


section \<open>Attestation burden\<close>

record issuance_decision =
  sd_allowed :: bool
  sd_reason_code :: string

definition sybil_denied :: "deny_reason \<Rightarrow> issuance_decision" where
  "sybil_denied r = \<lparr>sd_allowed = False, sd_reason_code = deny_value r\<rparr>"

definition sybil_ok :: issuance_decision where
  "sybil_ok = \<lparr>sd_allowed = True, sd_reason_code = ''ok''\<rparr>"

record burden_proof =
  bp_work_units :: int
  bp_issuer_iss :: string
  bp_issuer_kid :: string
  bp_integrity :: string

definition burden_integrity :: "platform \<Rightarrow> int \<Rightarrow> string \<Rightarrow> string \<Rightarrow> exn + string" where
  "burden_integrity P work_units iss kid =
     bindE (p_canon P (PDict [(''typ'', PStr ''wt-attestation-burden/v0''), (''work_units'', PInt work_units),
              (''issuer_iss'', PStr iss), (''issuer_kid'', PStr kid)]))
       (\<lambda>body. Inr (p_sha256 P body))"

definition new_burden_proof :: "int \<Rightarrow> string \<Rightarrow> string \<Rightarrow> string \<Rightarrow> exn + burden_proof" where
  "new_burden_proof work_units iss kid integrity =
     bindE (guards [(\<not> work_units < 0, sybil_error), (spiffe_id_re iss, sybil_error), (kid_re kid, sybil_error),
                    (hex_sha256_re integrity, sybil_error)])
       (\<lambda>_. Inr \<lparr>bp_work_units = work_units, bp_issuer_iss = iss, bp_issuer_kid = kid, bp_integrity = integrity\<rparr>)"

definition make_attestation_proof :: "platform \<Rightarrow> int \<Rightarrow> string \<Rightarrow> string \<Rightarrow> exn + burden_proof" where
  "make_attestation_proof P work_units iss kid =
     bindE (burden_integrity P work_units iss kid) (\<lambda>integrity. new_burden_proof work_units iss kid integrity)"

definition verify_burden ::
  "platform \<Rightarrow> int \<Rightarrow> burden_proof option \<Rightarrow> string \<Rightarrow> string \<Rightarrow> exn + issuance_decision" where
  "verify_burden P min_work_units presented iss kid =
     (case presented of
        None \<Rightarrow> Inr (sybil_denied SYBIL_ATTESTATION_PROOF_MALFORMED)
      | Some b \<Rightarrow>
          if bp_issuer_iss b \<noteq> iss \<or> bp_issuer_kid b \<noteq> kid
          then Inr (sybil_denied SYBIL_ATTESTATION_PROOF_MALFORMED)
          else bindE (burden_integrity P (bp_work_units b) (bp_issuer_iss b) (bp_issuer_kid b)) (\<lambda>expected.
            if bp_integrity b \<noteq> expected then Inr (sybil_denied SYBIL_ATTESTATION_PROOF_MALFORMED)
            else if bp_work_units b < min_work_units then Inr (sybil_denied SYBIL_ATTESTATION_BURDEN_INSUFFICIENT)
            else Inr sybil_ok))"


section \<open>The gate\<close>

record sybil_config =
  sc_window :: timedelta
  sc_max_per_issuer :: int
  sc_max_per_tenant :: int
  sc_min_reputation :: int
  sc_burden :: "int option"

definition sybil_config_ok :: "sybil_config \<Rightarrow> bool" where
  "sybil_config_ok C \<longleftrightarrow> 0 < sc_window C \<and> 0 \<le> sc_max_per_issuer C \<and> 0 \<le> sc_max_per_tenant C \<and>
     (case sc_burden C of None \<Rightarrow> True | Some w \<Rightarrow> 0 \<le> w)"

definition quota_decision :: "sybil_config \<Rightarrow> sybil_ledger \<Rightarrow> string \<Rightarrow> string \<Rightarrow> datetime \<Rightarrow> issuance_decision" where
  "quota_decision C L iss kid now =
     (let since = now - sc_window C in
      if int (count_for_issuer L iss kid since) \<ge> sc_max_per_issuer C then sybil_denied SYBIL_ISSUER_QUOTA_EXCEEDED
      else case trust_domain_of iss of
        None \<Rightarrow> sybil_ok
      | Some td \<Rightarrow>
          if int (count_for_tenant L td since) \<ge> sc_max_per_tenant C then sybil_denied SYBIL_TENANT_QUOTA_EXCEEDED
          else sybil_ok)"

definition evaluate_sybil ::
  "platform \<Rightarrow> (rat \<Rightarrow> rat) \<Rightarrow> sybil_config \<Rightarrow> sybil_ledger \<Rightarrow> string \<Rightarrow> string \<Rightarrow> datetime \<Rightarrow>
   burden_proof option \<Rightarrow> reputation \<Rightarrow> (exn + issuance_decision) \<times> reputation" where
  "evaluate_sybil P rnd C L iss kid now presented R =
     (case current_score rnd iss kid now R of
        (Inl e, R') \<Rightarrow> (Inl e, R')
      | (Inr score, R') \<Rightarrow>
          (case (case sc_burden C of None \<Rightarrow> Inr sybil_ok
                 | Some min_work_units \<Rightarrow> verify_burden P min_work_units presented iss kid) of
             Inl e \<Rightarrow> (Inl e, R')
           | Inr b \<Rightarrow>
               if \<not> sd_allowed b then (Inr b, R')
               else if score < sc_min_reputation C then (Inr (sybil_denied SYBIL_REPUTATION_INSUFFICIENT), R')
               else (Inr (quota_decision C L iss kid now), R')))"

definition record_admission ::
  "string \<Rightarrow> string \<Rightarrow> string \<Rightarrow> datetime \<Rightarrow> sybil_ledger \<Rightarrow> (exn + unit) \<times> sybil_ledger" where
  "record_admission iss kid minted at_time L =
     (case new_issuance_record iss kid minted at_time of
        Inl e \<Rightarrow> (Inl e, L)
      | Inr r \<Rightarrow> (Inr (), ledger_record r L))"


section \<open>Histories\<close>

text \<open>The issuance pipeline: a request is evaluated, and if it is allowed the admission is recorded at the
  same time. The result is what was minted.\<close>

type_synonym sybil_request = "string \<times> string \<times> string \<times> datetime \<times> burden_proof option"

fun mint_all ::
  "platform \<Rightarrow> (rat \<Rightarrow> rat) \<Rightarrow> sybil_config \<Rightarrow> sybil_request list \<Rightarrow> sybil_ledger \<Rightarrow> reputation \<Rightarrow>
   issuance_record list" where
  "mint_all P rnd C [] L R = []"
| "mint_all P rnd C ((iss, kid, minted, now, presented) # qs) L R =
     (case evaluate_sybil P rnd C L iss kid now presented R of
        (Inl e, R') \<Rightarrow> mint_all P rnd C qs L R'
      | (Inr d, R') \<Rightarrow>
          if \<not> sd_allowed d then mint_all P rnd C qs L R'
          else case new_issuance_record iss kid minted now of
            Inl e \<Rightarrow> mint_all P rnd C qs L R'
          | Inr r \<Rightarrow> r # mint_all P rnd C qs (snd (record_admission iss kid minted now L)) R')"

definition request_time :: "sybil_request \<Rightarrow> datetime" where
  "request_time q = (case q of (iss, kid, minted, now, presented) \<Rightarrow> now)"

lemma sybil_denied_allowed [simp]: "\<not> sd_allowed (sybil_denied r)"
  by (simp add: sybil_denied_def)

lemma evaluate_sybil_allowed:
  assumes "evaluate_sybil P rnd C L iss kid now presented R = (Inr d, R')" "sd_allowed d"
  shows "int (count_for_issuer L iss kid (now - sc_window C)) < sc_max_per_issuer C"
    "trust_domain_of iss = Some td \<Longrightarrow> int (count_for_tenant L td (now - sc_window C)) < sc_max_per_tenant C"
  using assms
  by (auto simp: evaluate_sybil_def quota_decision_def Let_def split: prod.splits sum.splits if_splits option.splits)

text \<open>Each record was within a quota when it was added.\<close>

definition within_quota :: "timedelta \<Rightarrow> (issuance_record \<Rightarrow> bool) \<Rightarrow> int \<Rightarrow> issuance_record list \<Rightarrow> bool" where
  "within_quota width K limit rs \<longleftrightarrow>
     (\<forall>xs r ys. rs = xs @ r # ys \<longrightarrow> K r \<longrightarrow>
        int (length (filter (\<lambda>x. K x \<and> sy_at r - width \<le> sy_at x) xs)) < limit)"

lemma within_quota_bound:
  assumes "within_quota width K limit rs" "0 \<le> limit" "sorted (map sy_at rs)"
  shows "int (length (filter (\<lambda>x. K x \<and> a \<le> sy_at x \<and> sy_at x \<le> a + width) rs)) \<le> limit"
  using assms(1,3)
proof (induction rs rule: rev_induct)
  case (snoc r rs)
  have q: "within_quota width K limit rs"
    using snoc.prems(1) unfolding within_quota_def by (metis append_assoc append_Cons)
  have IH: "int (length (filter (\<lambda>x. K x \<and> a \<le> sy_at x \<and> sy_at x \<le> a + width) rs)) \<le> limit"
    using snoc.IH[OF q] snoc.prems(2) by (simp add: sorted_append)
  show ?case
  proof (cases "K r \<and> a \<le> sy_at r \<and> sy_at r \<le> a + width")
    case True
    have "length (filter (\<lambda>x. K x \<and> a \<le> sy_at x \<and> sy_at x \<le> a + width) rs) \<le>
        length (filter (\<lambda>x. K x \<and> sy_at r - width \<le> sy_at x) rs)"
      using True by (induction rs) auto
    moreover have "int (length (filter (\<lambda>x. K x \<and> sy_at r - width \<le> sy_at x) rs)) < limit"
      using snoc.prems(1) True unfolding within_quota_def by blast
    ultimately show ?thesis using True by simp
  qed (use IH in auto)
qed (use assms(2) in simp)

text \<open>\<open>past\<close> is what was minted; the ledger holds what its retention keeps of it.\<close>

definition ledger_inv :: "sybil_config \<Rightarrow> issuance_record list \<Rightarrow> datetime \<Rightarrow> sybil_ledger \<Rightarrow> bool" where
  "ledger_inv C past now L \<longleftrightarrow>
     sc_window C \<le> le_retention L \<and> sorted (map sy_at past) \<and> (\<forall>r\<in>set past. sy_at r \<le> now) \<and>
     (\<exists>dropped. past = dropped @ le_events L \<and> (\<forall>r\<in>set dropped. sy_at r < now - le_retention L))"

lemma ledger_inv_mono: "ledger_inv C past now L \<Longrightarrow> now \<le> now' \<Longrightarrow> ledger_inv C past now' L"
  by (fastforce simp: ledger_inv_def)

lemma ledger_inv_count:
  assumes "ledger_inv C past now L"
  shows "filter (\<lambda>r. K r \<and> now - sc_window C \<le> sy_at r) past = filter (\<lambda>r. K r \<and> now - sc_window C \<le> sy_at r) (le_events L)"
proof -
  obtain dropped where d: "past = dropped @ le_events L" "\<forall>r\<in>set dropped. sy_at r < now - le_retention L"
    "sc_window C \<le> le_retention L" using assms by (auto simp: ledger_inv_def)
  have "filter (\<lambda>r. K r \<and> now - sc_window C \<le> sy_at r) dropped = []"
    using d(2,3) by (fastforce simp: filter_empty_conv)
  then show ?thesis using d(1) by simp
qed

lemma ledger_inv_record:
  assumes "ledger_inv C past now L" "sy_at r = now"
  shows "ledger_inv C (past @ [r]) now (ledger_record r L)"
proof -
  obtain dropped where d: "past = dropped @ le_events L" "\<forall>r\<in>set dropped. sy_at r < now - le_retention L"
    using assms(1) by (auto simp: ledger_inv_def)
  let ?p = "\<lambda>x. sy_at x < now - le_retention L"
  have "le_events L @ [r] = takeWhile ?p (le_events L @ [r]) @ le_events (ledger_record r L)"
    using assms(2) by (simp add: ledger_record_def ledger_trim_def)
  then have "past @ [r] = (dropped @ takeWhile ?p (le_events L @ [r])) @ le_events (ledger_record r L)"
    using d(1) by simp
  moreover have "\<forall>x\<in>set (dropped @ takeWhile ?p (le_events L @ [r])). sy_at x < now - le_retention L"
    using d(2) by (auto dest: set_takeWhileD)
  moreover have "le_retention (ledger_record r L) = le_retention L" by (simp add: ledger_record_def ledger_trim_def)
  moreover have "sc_window C \<le> le_retention L" "sorted (map sy_at (past @ [r]))" "\<forall>x\<in>set (past @ [r]). sy_at x \<le> now"
    using assms by (auto simp: ledger_inv_def sorted_append)
  ultimately show ?thesis unfolding ledger_inv_def by metis
qed

lemma mint_all_quota:
  assumes "sorted (now # map request_time qs)" "ledger_inv C past now L"
    and "\<And>iss kid. within_quota (sc_window C) (\<lambda>r. sy_issuer_iss r = iss \<and> sy_issuer_kid r = kid) (sc_max_per_issuer C) past"
    and "\<And>td. within_quota (sc_window C) (\<lambda>r. trust_domain_of (sy_issuer_iss r) = Some td) (sc_max_per_tenant C) past"
  shows "let rs = past @ mint_all P rnd C qs L R in sorted (map sy_at rs) \<and>
    within_quota (sc_window C) (\<lambda>r. sy_issuer_iss r = iss \<and> sy_issuer_kid r = kid) (sc_max_per_issuer C) rs \<and>
    within_quota (sc_window C) (\<lambda>r. trust_domain_of (sy_issuer_iss r) = Some td) (sc_max_per_tenant C) rs"
  using assms
proof (induction qs arbitrary: past now L R)
  case Nil
  then show ?case by (simp add: ledger_inv_def)
next
  case (Cons q qs)
  obtain i k minted t presented where q: "q = (i, k, minted, t, presented)" by (cases q)
  have "request_time q = t" by (simp add: q request_time_def)
  then have sorted: "sorted (t # map request_time qs)" "now \<le> t" using Cons.prems(1) by simp_all
  have inv: "ledger_inv C past t L" by (rule ledger_inv_mono[OF Cons.prems(2) sorted(2)])
  obtain res R' where e: "evaluate_sybil P rnd C L i k t presented R = (res, R')" by fastforce
  have skip: ?case if "mint_all P rnd C (q # qs) L R = mint_all P rnd C qs L R'"
    using Cons.IH[OF sorted(1) inv Cons.prems(3,4), of R'] that by simp
  show ?case
  proof (cases "\<exists>d r. res = Inr d \<and> sd_allowed d \<and> new_issuance_record i k minted t = Inr r")
    case False
    then have "mint_all P rnd C (q # qs) L R = mint_all P rnd C qs L R'"
      using e q by (auto split: sum.splits)
    then show ?thesis by (rule skip)
  next
    case True
    then obtain d r where d: "res = Inr d" "sd_allowed d" "new_issuance_record i k minted t = Inr r" by blast
    have r: "sy_issuer_iss r = i" "sy_issuer_kid r = k" "sy_at r = t" using d(3) by (auto simp: new_issuance_record_def)
    have run: "mint_all P rnd C (q # qs) L R = r # mint_all P rnd C qs (ledger_record r L) R'"
      using e q d by (simp add: record_admission_def)
    note allowed = evaluate_sybil_allowed[OF e[unfolded d(1)] d(2)]
    have extend: "within_quota (sc_window C) K limit (past @ [r])"
      if "within_quota (sc_window C) K limit past"
        and "K r \<Longrightarrow> int (length (filter (\<lambda>x. K x \<and> t - sc_window C \<le> sy_at x) past)) < limit" for K limit
      unfolding within_quota_def
    proof (intro allI impI)
      fix xs x ys assume x: "past @ [r] = xs @ x # ys" "K x"
      show "int (length (filter (\<lambda>y. K y \<and> sy_at x - sc_window C \<le> sy_at y) xs)) < limit"
      proof (cases ys rule: rev_cases)
        case Nil
        then show ?thesis using x that(2) r(3) by simp
      next
        case (snoc ys' y)
        then have "past = xs @ x # ys'" using x(1) by simp
        then show ?thesis using that(1) x(2) unfolding within_quota_def by blast
      qed
    qed
    have issuer: "within_quota (sc_window C) (\<lambda>x. sy_issuer_iss x = i' \<and> sy_issuer_kid x = k') (sc_max_per_issuer C) (past @ [r])" for i' k'
    proof (rule extend[OF Cons.prems(3)])
      assume "sy_issuer_iss r = i' \<and> sy_issuer_kid r = k'"
      then show "int (length (filter (\<lambda>x. (sy_issuer_iss x = i' \<and> sy_issuer_kid x = k') \<and> t - sc_window C \<le> sy_at x) past)) < sc_max_per_issuer C"
        using allowed(1) r(1,2) unfolding ledger_inv_count[OF inv] by (simp add: count_for_issuer_def conj_assoc)
    qed
    have tenant: "within_quota (sc_window C) (\<lambda>x. trust_domain_of (sy_issuer_iss x) = Some td') (sc_max_per_tenant C) (past @ [r])" for td'
    proof (rule extend[OF Cons.prems(4)])
      assume "trust_domain_of (sy_issuer_iss r) = Some td'"
      then show "int (length (filter (\<lambda>x. trust_domain_of (sy_issuer_iss x) = Some td' \<and> t - sc_window C \<le> sy_at x) past)) < sc_max_per_tenant C"
        using allowed(2) r(1) unfolding ledger_inv_count[OF inv] by (simp add: count_for_tenant_def)
    qed
    from Cons.IH[OF sorted(1) ledger_inv_record[OF inv r(3)] issuer tenant, of R']
    show ?thesis using run by simp
  qed
qed

text \<open>C30. Issuance quotas hold: over any history of requests of any issuers, with a clock that does not run
  backwards and a ledger that remembers at least the quota window, every window contains at most
  \<open>max_per_issuer\<close> identities minted by one issuer key and at most \<open>max_per_tenant\<close> minted in one
  trust domain, however many keys and issuers the adversary has there.\<close>

theorem issuance_quotas:
  assumes "sybil_config_ok C" "sorted (map request_time qs)" "sc_window C \<le> le_retention L" "le_events L = []"
  shows "int (length (filter (\<lambda>r. (sy_issuer_iss r = iss \<and> sy_issuer_kid r = kid) \<and> a \<le> sy_at r \<and> sy_at r \<le> a + sc_window C)
      (mint_all P rnd C qs L R))) \<le> sc_max_per_issuer C \<and>
    int (length (filter (\<lambda>r. trust_domain_of (sy_issuer_iss r) = Some td \<and> a \<le> sy_at r \<and> sy_at r \<le> a + sc_window C)
      (mint_all P rnd C qs L R))) \<le> sc_max_per_tenant C"
proof (cases qs)
  case (Cons q qs')
  have "ledger_inv C [] (request_time q) L" using assms(3,4) by (simp add: ledger_inv_def)
  from mint_all_quota[OF _ this, of qs P rnd R iss kid td] assms(2) Cons
  have "sorted (map sy_at (mint_all P rnd C qs L R)) \<and>
    within_quota (sc_window C) (\<lambda>r. sy_issuer_iss r = iss \<and> sy_issuer_kid r = kid) (sc_max_per_issuer C) (mint_all P rnd C qs L R) \<and>
    within_quota (sc_window C) (\<lambda>r. trust_domain_of (sy_issuer_iss r) = Some td) (sc_max_per_tenant C) (mint_all P rnd C qs L R)"
    by (simp add: within_quota_def Let_def)
  then show ?thesis using assms(1) within_quota_bound unfolding sybil_config_ok_def by blast
qed (use assms(1) in \<open>simp add: sybil_config_ok_def\<close>)

text \<open>A stamped proof passes exactly if it declares enough work.\<close>

lemma stamped_proof:
  assumes "make_attestation_proof P w iss kid = Inr b"
  shows "verify_burden P m (Some b) iss kid = Inr (if w < m then sybil_denied SYBIL_ATTESTATION_BURDEN_INSUFFICIENT else sybil_ok)"
proof -
  obtain h where h: "burden_integrity P w iss kid = Inr h" "b = \<lparr>bp_work_units = w, bp_issuer_iss = iss, bp_issuer_kid = kid, bp_integrity = h\<rparr>"
    using assms by (auto simp: make_attestation_proof_def new_burden_proof_def)
  then show ?thesis by (simp add: verify_burden_def)
qed


section \<open>Where the quotas fail\<close>

definition demo_mint :: "datetime \<Rightarrow> issuance_record" where
  "demo_mint t = \<lparr>sy_issuer_iss = ''spiffe://t/i'', sy_issuer_kid = ''k'', sy_minted_iss = ''spiffe://t/x'', sy_at = t\<rparr>"

text \<open>Nothing relates the ledger's retention to the gate's window: with a shorter retention a quota of one
  per window is exceeded. And one record with a later time empties the ledger of all it knows.\<close>

lemma short_retention_undercounts:
  "count_for_issuer (ledger_record (demo_mint 100) (ledger_record (demo_mint 50) \<lparr>le_retention = 10, le_events = []\<rparr>))
     ''spiffe://t/i'' ''k'' (100 - 60) = 1"
  by (simp add: ledger_record_def ledger_trim_def demo_mint_def count_for_issuer_def)

lemma future_record_resets:
  "count_for_issuer (ledger_record (demo_mint 1000) (ledger_record (demo_mint 50) \<lparr>le_retention = 60, le_events = []\<rparr>))
     ''spiffe://t/i'' ''k'' 0 = 1"
  by (simp add: ledger_record_def ledger_trim_def demo_mint_def count_for_issuer_def)

definition demo_sybil :: sybil_config where
  "demo_sybil = \<lparr>sc_window = 60, sc_max_per_issuer = 1, sc_max_per_tenant = 5, sc_min_reputation = 1, sc_burden = None\<rparr>"

theorem issuance_quotas_witness:
  "int (length (filter (\<lambda>r. (sy_issuer_iss r = ''spiffe://t/i'' \<and> sy_issuer_kid r = ''k'') \<and> 0 \<le> sy_at r \<and> sy_at r \<le> 60)
     (mint_all demo_platform id demo_sybil
        [(''spiffe://t/i'', ''k'', ''spiffe://t/x'', 0, None), (''spiffe://t/i'', ''k'', ''spiffe://t/y'', 1, None)]
        \<lparr>le_retention = 100, le_events = []\<rparr>
        \<lparr>rn_initial_score = 50, rn_decay_per_interval = 1, rn_decay_interval = 3600, rn_floor = 0, rn_ceiling = 100,
         rn_scores = Map.empty\<rparr>))) \<le> 1"
proof -
  let ?qs = "[(''spiffe://t/i'', ''k'', ''spiffe://t/x'', 0, None), (''spiffe://t/i'', ''k'', ''spiffe://t/y'', 1, None)] :: sybil_request list"
  have "sybil_config_ok demo_sybil" "sorted (map request_time ?qs)"
    by (simp_all add: sybil_config_ok_def demo_sybil_def request_time_def)
  from issuance_quotas[OF this, of "\<lparr>le_retention = 100, le_events = []\<rparr>" "''spiffe://t/i''" "''k''" 0]
  show ?thesis by (simp add: demo_sybil_def)
qed

end
