(* ===== verification/Revocation.thy ===== *)
theory Revocation
  imports AuditFile Demo "HOL-Library.List_Lexorder" "HOL-Library.Char_ord"
begin

text \<open>
  The revocation stores: \<open>FileBackedRevocationList\<close> of \<open>revocation_list.py\<close>, an append-only file of
  JSON lines that every question reads again (the string of its characters, as in \<open>AuditFile\<close>), and
  \<open>InMemoryRevocationLedger\<close> of \<open>checkpointed_execution.py\<close>. The two and the in-memory list of
  \<open>CapabilityToken\<close> share one contract, \<open>revocation_store\<close>: a revocation that returned is seen by
  every later question, and nothing else is.
\<close>

section \<open>The contract\<close>

locale revocation_store =
  fixes submit :: "'r \<Rightarrow> 's \<Rightarrow> (exn + unit) \<times> 's"
    and target :: "'r \<Rightarrow> string"
    and lookup :: "'s \<Rightarrow> string \<Rightarrow> exn + bool"
    and good :: "'s \<Rightarrow> bool"
    and valid :: "'r \<Rightarrow> bool"
  assumes submit_ok: "good s \<Longrightarrow> valid r \<Longrightarrow> submit r s = (Inr u, s') \<Longrightarrow>
      good s' \<and> (\<forall>j. lookup s' j = Inr True \<longleftrightarrow> lookup s j = Inr True \<or> j = target r)"
    and submit_error: "valid r \<Longrightarrow> submit r s = (Inl e, s') \<Longrightarrow> s' = s"
    and lookup_returns: "good s \<Longrightarrow> returned (lookup s j)"
begin

lemma submit_all_good:
  "good s \<Longrightarrow> \<forall>r\<in>set rs. valid r \<Longrightarrow> submit_all submit target rs s = (js, s') \<Longrightarrow>
   good s' \<and> (\<forall>j. lookup s' j = Inr True \<longleftrightarrow> lookup s j = Inr True \<or> j \<in> set js)"
proof (induction rs arbitrary: s js)
  case (Cons r rs)
  show ?case
  proof (cases "submit r s")
    case (Pair x s1)
    show ?thesis
    proof (cases x)
      case (Inl e)
      then show ?thesis using Cons.IH[of s js] Cons.prems Pair submit_error[of r s e s1] by auto
    next
      case (Inr u)
      obtain js' where js: "submit_all submit target rs s1 = (js', s')" "js = target r # js'"
        using Cons.prems(3) Pair Inr by (auto split: prod.splits)
      have "good s1 \<and> (\<forall>j. lookup s1 j = Inr True \<longleftrightarrow> lookup s j = Inr True \<or> j = target r)"
        using submit_ok[of s r u s1] Cons.prems Pair Inr by simp
      then show ?thesis using Cons.IH[of s1 js'] Cons.prems(2) js by auto
    qed
  qed
qed simp

lemma submit_all_lookup:
  assumes "good s" "\<forall>r\<in>set rs. valid r" "submit_all submit target rs s = (js, s')"
  shows "lookup s' j = Inr (lookup s j = Inr True \<or> j \<in> set js)"
proof -
  note f = submit_all_good[OF assms]
  then obtain b where b: "lookup s' j = Inr b" using lookup_returns[of s' j] by (auto simp: returned_iff)
  have "b \<longleftrightarrow> lookup s' j = Inr True" by (simp only: b sum.inject) simp
  also have "\<dots> \<longleftrightarrow> lookup s j = Inr True \<or> j \<in> set js" using f by blast
  finally have "b \<longleftrightarrow> lookup s j = Inr True \<or> j \<in> set js" .
  then show ?thesis by (simp only: b)
qed

end


section \<open>The in-memory list\<close>

interpretation memory_list: revocation_store revoke str_of is_revoked "\<lambda>jtis. True" "\<lambda>jti. True"
proof unfold_locales
  fix s r and u :: unit and s' assume "revoke r s = (Inr u, s')"
  then have "s' = insert (str_of r) s" by (cases "str_test uuid_v7_re r") (simp_all add: revoke_def)
  then show "True \<and> (\<forall>j. is_revoked s' j = Inr True \<longleftrightarrow> is_revoked s j = Inr True \<or> j = str_of r)"
    by (auto simp: is_revoked_def)
next
  fix r s e s' assume "revoke r s = (Inl e, s')"
  then show "s' = s" by (cases "str_test uuid_v7_re r") (simp_all add: revoke_def)
qed (simp add: is_revoked_def)


section \<open>The file\<close>

record revocation =
  rv_jti :: pyval
  rv_reason :: pyval
  rv_now :: datetime
  rv_io :: "(exn \<times> nat) option"

definition revocation_line :: "platform \<Rightarrow> revocation \<Rightarrow> (string \<times> string) list" where
  "revocation_line P r =
     [(''jti'', str_of (rv_jti r)), (''revoked_at'', p_isoformat P (rv_now r)), (''reason'', str_of (rv_reason r))]"

text \<open>\<open>rv_io\<close> is the error of opening, writing or closing the file, if there is one, and the number of
  characters of the line that reached the file before it.\<close>

definition flist_revoke :: "platform \<Rightarrow> revocation \<Rightarrow> jsonl_file \<Rightarrow> (exn + unit) \<times> jsonl_file" where
  "flist_revoke P r content =
     (if \<not> str_test uuid_v7_re (rv_jti r) then (Inl (std_error ''ValueError''), content)
      else if \<not> is_str (rv_reason r) then (Inl (std_error ''ValueError''), content)
      else case rv_io r of
        Some (e, n) \<Rightarrow> (Inl e, content @ take n (json_object (revocation_line P r) @ [newline]))
      | None \<Rightarrow> (Inr (), content @ json_object (revocation_line P r) @ [newline]))"

text \<open>\<open>json.JSONDecodeError\<close> is a \<open>ValueError\<close>, and is raised again as one.\<close>

definition load_jti :: "platform \<Rightarrow> string \<Rightarrow> exn + string" where
  "load_jti P line =
     bindE (p_json_loads P line) (\<lambda>v.
       if \<not> is_dict v then Inl (std_error ''AttributeError'')
       else case map_of (dict_of v) ''jti'' of
         Some (PStr jti) \<Rightarrow> Inr jti
       | _ \<Rightarrow> Inl (std_error ''ValueError''))"

fun load_jtis :: "platform \<Rightarrow> string list \<Rightarrow> exn + string list" where
  "load_jtis P [] = Inr []"
| "load_jtis P (line # lines) =
     (if strip_space line = [] then load_jtis P lines
      else bindE (load_jti P (strip_space line)) (\<lambda>jti.
        bindE (load_jtis P lines) (\<lambda>jtis. Inr (jti # jtis))))"

definition flist_load :: "platform \<Rightarrow> jsonl_file \<Rightarrow> exn + string set" where
  "flist_load P content = bindE (load_jtis P (split_lines [] content)) (\<lambda>jtis. Inr (set jtis))"

definition flist_is_revoked :: "platform \<Rightarrow> jsonl_file \<Rightarrow> string \<Rightarrow> exn + bool" where
  "flist_is_revoked P content jti = bindE (flist_load P content) (\<lambda>jtis. Inr (jti \<in> jtis))"

definition integrity_hash :: "platform \<Rightarrow> jsonl_file \<Rightarrow> exn + string" where
  "integrity_hash P content =
     bindE (flist_load P content) (\<lambda>jtis. Inr (p_sha256 P (join_with [newline] (sorted_list_of_set jtis))))"

text \<open>A revocation is readable if the JSON decoder reads its line back as the object written.\<close>

definition readable_revocation :: "platform \<Rightarrow> revocation \<Rightarrow> bool" where
  "readable_revocation P r \<longleftrightarrow>
     p_json_loads P (json_object (revocation_line P r)) =
       Inr (PDict (map (\<lambda>(k, v). (k, PStr v)) (revocation_line P r)))"

text \<open>A write that raises wrote nothing.\<close>

definition untorn :: "revocation \<Rightarrow> bool" where
  "untorn r \<longleftrightarrow> (\<forall>e n. rv_io r = Some (e, n) \<longrightarrow> n = 0)"

definition revocation_file :: "platform \<Rightarrow> revocation list \<Rightarrow> jsonl_file" where
  "revocation_file P rs = concat (map (\<lambda>d. json_object d @ [newline]) (map (revocation_line P) rs))"

definition flist_good :: "platform \<Rightarrow> jsonl_file \<Rightarrow> bool" where
  "flist_good P content \<longleftrightarrow>
     (\<exists>rs. content = revocation_file P rs \<and> (\<forall>r\<in>set rs. readable_revocation P r))"

lemma flist_load_file:
  assumes "\<forall>r\<in>set rs. readable_revocation P r"
  shows "flist_load P (revocation_file P rs) = Inr (set (map (str_of \<circ> rv_jti) rs))"
proof -
  have "load_jtis P (map (json_object \<circ> revocation_line P) rs) = Inr (map (str_of \<circ> rv_jti) rs)"
    using assms by (induction rs)
      (simp_all add: load_jti_def readable_revocation_def dict_of_strings, simp add: revocation_line_def)
  then show ?thesis unfolding flist_load_def revocation_file_def split_json_lines by simp
qed

interpretation file_list: revocation_store "flist_revoke P" "str_of \<circ> rv_jti" "flist_is_revoked P"
  "flist_good P" "\<lambda>r. readable_revocation P r \<and> untorn r" for P
proof unfold_locales
  fix s r u s' assume good: "flist_good P s" and valid: "readable_revocation P r \<and> untorn r"
    and r: "flist_revoke P r s = (Inr u, s')"
  then obtain rs where rs: "s = revocation_file P rs" "\<forall>r\<in>set (rs @ [r]). readable_revocation P r"
    by (auto simp: flist_good_def)
  have s': "s' = revocation_file P (rs @ [r])"
    using r rs(1) by (auto simp: flist_revoke_def revocation_file_def split: if_splits option.splits)
  have "flist_good P s'" unfolding flist_good_def using s' rs(2) by blast
  moreover have "flist_is_revoked P s' j = Inr True \<longleftrightarrow> flist_is_revoked P s j = Inr True \<or> j = (str_of \<circ> rv_jti) r" for j
    using flist_load_file[OF rs(2)] flist_load_file[of rs P] rs by (auto simp: s' flist_is_revoked_def)
  ultimately show "flist_good P s' \<and>
      (\<forall>j. flist_is_revoked P s' j = Inr True \<longleftrightarrow> flist_is_revoked P s j = Inr True \<or> j = (str_of \<circ> rv_jti) r)"
    by blast
next
  fix r s e s' assume "readable_revocation P r \<and> untorn r" "flist_revoke P r s = (Inl e, s')"
  then show "s' = s" by (auto simp: flist_revoke_def untorn_def split: if_splits option.splits)
next
  fix s j assume "flist_good P s"
  then show "returned (flist_is_revoked P s j)"
    by (auto simp: flist_good_def flist_is_revoked_def flist_load_file)
qed


section \<open>The ledger\<close>

text \<open>The requests are typed: an id, a time with its zone, a reason.\<close>

type_synonym ledger = "(string \<times> datetime \<times> string) list"

abbreviation checkpoint_error :: exn where
  "checkpoint_error \<equiv> repo_error ''CheckpointError''"

definition ledger_revoke :: "string \<times> datetime \<times> string \<Rightarrow> ledger \<Rightarrow> (exn + unit) \<times> ledger" where
  "ledger_revoke r revoked =
     (case r of (jti, when, reason) \<Rightarrow>
        if \<not> uuid_v7_re jti then (Inl checkpoint_error, revoked)
        else if reason = [] then (Inl checkpoint_error, revoked)
        else (Inr (), dset jti (when, reason) revoked))"

definition ledger_is_revoked :: "ledger \<Rightarrow> string \<Rightarrow> exn + bool" where
  "ledger_is_revoked revoked jti = Inr (dget revoked jti \<noteq> None)"

interpretation ledger: revocation_store ledger_revoke fst ledger_is_revoked "\<lambda>revoked. True" "\<lambda>r. True"
  by unfold_locales (auto simp: ledger_revoke_def ledger_is_revoked_def dget_dset split: prod.splits if_splits)


section \<open>Properties\<close>

text \<open>A line that was torn in the middle and that the decoder rejects makes the whole file unreadable.\<close>

lemma split_torn:
  "newline \<notin> set t \<Longrightarrow> CHR 0x0D \<notin> set t \<Longrightarrow> t \<noteq> [] \<Longrightarrow>
   split_lines [] (concat (map (\<lambda>d. json_object d @ [newline]) ds) @ t) = map json_object ds @ [t]"
proof (induction ds)
  case Nil
  have "split_lines cur t = [cur @ t]" if "cur @ t \<noteq> []" "newline \<notin> set t" "CHR 0x0D \<notin> set t" for cur t
    using that by (induction t arbitrary: cur) auto
  then show ?case using Nil by simp
qed (simp add: split_lines_line json_object_no_nl)

lemma load_jtis_append: "load_jtis P (xs @ ys) = bindE (load_jtis P xs) (\<lambda>a. bindE (load_jtis P ys) (\<lambda>b. Inr (a @ b)))"
proof (induction xs)
  case Nil
  show ?case by (cases "load_jtis P ys") simp_all
qed (simp add: bindE_assoc)

lemma strip_torn: "strip_space (CHR ''{'' # s) \<noteq> []"
  by (simp add: strip_space_def is_space_def)

lemma torn_unreadable:
  assumes "flist_good P content" "0 < n" "n \<le> length (json_object (revocation_line P r))"
    and "p_json_loads P (strip_space (take n (json_object (revocation_line P r)))) = Inl x"
  shows "flist_load P (content @ take n (json_object (revocation_line P r))) = Inl x"
proof -
  let ?t = "take n (json_object (revocation_line P r))"
  obtain rs where rs: "content = revocation_file P rs" "\<forall>r\<in>set rs. readable_revocation P r"
    using assms(1) by (auto simp: flist_good_def)
  have "load_jtis P (map (json_object \<circ> revocation_line P) rs) = Inr (map (str_of \<circ> rv_jti) rs)"
    using rs(2) by (induction rs)
      (simp_all add: load_jti_def readable_revocation_def dict_of_strings, simp add: revocation_line_def)
  moreover have "\<exists>s. ?t = CHR ''{'' # s"
    using json_object_ends[of "revocation_line P r"] assms(2) by (cases n) auto
  moreover have "newline \<notin> set ?t" "CHR 0x0D \<notin> set ?t"
    using json_object_no_nl[of "revocation_line P r"] by (auto dest: in_set_takeD)
  ultimately show ?thesis
    using split_torn[of ?t "map (revocation_line P) rs"] assms(2,4) strip_torn
    by (auto simp: flist_load_def rs(1) revocation_file_def load_jtis_append load_jti_def)
qed

text \<open>C14. Revocation is effective and exact across processes: after any sequence of revocations written
  to the file, those that fail writing nothing, the verifier that reads the file accepts a capability
  token exactly if it would accept it without a list and its id was not revoked; and if then a write
  fails in the middle of a line, and the decoder rejects the torn line, it accepts no token at all.\<close>

theorem revoked_never_accepted:
  assumes "\<forall>r\<in>set rs. readable_revocation P r \<and> untorn r"
    and "submit_all (flist_revoke P) (str_of \<circ> rv_jti) rs [] = (jtis, content)"
  shows "verify_capability_token P token env lookup t skew ttl (Some (flist_is_revoked P content)) =
      bindE (verify_capability_token P token env lookup t skew ttl None)
        (\<lambda>cl. if cl_jti cl \<in> set jtis then Inl (eve CAP_REVOKED) else Inr cl) \<and>
    (\<forall>r e n x content'. rv_io r = Some (e, n) \<and> 0 < n \<and> n \<le> length (json_object (revocation_line P r)) \<and>
        str_test uuid_v7_re (rv_jti r) \<and> is_str (rv_reason r) \<and>
        p_json_loads P (strip_space (take n (json_object (revocation_line P r)))) = Inl x \<and>
        flist_revoke P r content = (Inl e, content') \<longrightarrow>
      isl (verify_capability_token P token env lookup t skew ttl (Some (flist_is_revoked P content'))))"
proof -
  have empty: "flist_good P []" "\<And>j. flist_is_revoked P [] j = Inr False"
    using flist_load_file[of "[]" P] by (auto simp: flist_good_def revocation_file_def flist_is_revoked_def)
  note look = file_list.submit_all_lookup[OF empty(1) assms, unfolded empty(2)]
  have ask: "(\<lambda>cl. bindE (check_revocation (Some (flist_is_revoked P content)) (cl_jti cl)) (\<lambda>_. Inr cl)) =
      (\<lambda>cl. if cl_jti cl \<in> set jtis then Inl (eve CAP_REVOKED) else Inr cl)"
    by (rule ext) (simp add: check_revocation_def look guard_def)
  have good: "flist_good P content" using file_list.submit_all_good[OF empty(1) assms] by simp
  have torn: "isl (verify_capability_token P token env lookup t skew ttl (Some (flist_is_revoked P content')))"
    if "rv_io r = Some (e, n)" "0 < n" "n \<le> length (json_object (revocation_line P r))"
      "str_test uuid_v7_re (rv_jti r)" "is_str (rv_reason r)"
      "p_json_loads P (strip_space (take n (json_object (revocation_line P r)))) = Inl x"
      "flist_revoke P r content = (Inl e, content')" for r e n x content'
  proof -
    have "content' = content @ take n (json_object (revocation_line P r))"
      using that by (auto simp: flist_revoke_def)
    then have "flist_is_revoked P content' j = Inl x" for j
      using torn_unreadable[OF good that(2,3,6)] by (simp add: flist_is_revoked_def)
    then show ?thesis
      unfolding verify_capability_token_revocation[where rl = "Some (flist_is_revoked P content')"]
      by (cases "cap_pre_revocation P token env lookup t skew ttl") (simp_all add: check_revocation_def)
  qed
  have "verify_capability_token P token env lookup t skew ttl (Some (flist_is_revoked P content)) =
      bindE (verify_capability_token P token env lookup t skew ttl None)
        (\<lambda>cl. if cl_jti cl \<in> set jtis then Inl (eve CAP_REVOKED) else Inr cl)"
    unfolding verify_capability_token_revocation[of P token env lookup t skew ttl "Some (flist_is_revoked P content)"]
    by (simp only: cap_pre_revocation_def ask)
  with torn show ?thesis by blast
qed

definition demo_revocation :: revocation where
  "demo_revocation = \<lparr>rv_jti = PStr demo_uuid, rv_reason = PStr ''lost'', rv_now = 0, rv_io = None\<rparr>"

lemma demo_revocation_io: "rv_io demo_revocation = None"
  by (simp add: demo_revocation_def)

definition revocation_platform :: platform where
  "revocation_platform = demo_platform\<lparr>p_json_loads := \<lambda>s.
     if s = json_object (revocation_line demo_platform demo_revocation)
     then Inr (PDict (map (\<lambda>(k, v). (k, PStr v)) (revocation_line demo_platform demo_revocation)))
     else p_json_loads demo_platform s\<rparr>"

text \<open>The one revocation that returns is seen; the second one fails on a full disk.\<close>

theorem revoked_never_accepted_witness:
  "fst (submit_all (flist_revoke revocation_platform) (str_of \<circ> rv_jti)
     [demo_revocation, demo_revocation\<lparr>rv_io := Some (std_error ''OSError'', 0)\<rparr>] []) = [demo_uuid] \<and>
   verify_capability_token revocation_platform (PStr ''A'') [] (\<lambda>iss kid. Inr ''pem'') 0 0 0
     (Some (flist_is_revoked revocation_platform (snd (submit_all (flist_revoke revocation_platform) (str_of \<circ> rv_jti)
       [demo_revocation, demo_revocation\<lparr>rv_io := Some (std_error ''OSError'', 0)\<rparr>] [])))) =
   bindE (verify_capability_token revocation_platform (PStr ''A'') [] (\<lambda>iss kid. Inr ''pem'') 0 0 0 None)
     (\<lambda>cl. if cl_jti cl \<in> set [demo_uuid] then Inl (eve CAP_REVOKED) else Inr cl)"
proof -
  let ?rs = "[demo_revocation, demo_revocation\<lparr>rv_io := Some (std_error ''OSError'', 0)\<rparr>]"
  have line: "revocation_line revocation_platform r = revocation_line demo_platform r" for r
    by (simp add: revocation_line_def revocation_platform_def)
  have same: "revocation_line P (demo_revocation\<lparr>rv_io := x\<rparr>) = revocation_line P demo_revocation" for P x
    by (simp add: revocation_line_def)
  have readable: "\<forall>r\<in>set ?rs. readable_revocation revocation_platform r \<and> untorn r"
    by (simp add: readable_revocation_def line same untorn_def demo_revocation_io) (simp add: revocation_platform_def)
  have "uuid_v7_re demo_uuid" by code_simp
  then obtain content where run:
    "submit_all (flist_revoke revocation_platform) (str_of \<circ> rv_jti) ?rs [] = ([demo_uuid], content)"
    by (simp add: flist_revoke_def demo_revocation_def)
  then show ?thesis using revoked_never_accepted[OF readable run] by simp
qed

end
