(* ===== verification/Checkpoint.thy ===== *)
theory Checkpoint
  imports Revocation Artifact
begin

text \<open>
  \<open>checkpointed_execution.py\<close>: a task that runs for long asks again at every commit point whether its
  capability is current and not revoked and whether the policy epoch is still the one it was
  authorised under. The run of a task is a list of steps, with revocations and rotations of the
  epoch between its checkpoints.
\<close>

section \<open>Checkpoints and policies\<close>

datatype checkpoint_action = COMMIT | ABORT | DOWNGRADE

record checkpoint =
  ck_checkpoint_id :: string
  ck_task_id :: string
  ck_step :: int
  ck_requested_at :: string
  ck_intended_action :: string

definition new_checkpoint :: "string \<Rightarrow> string \<Rightarrow> int \<Rightarrow> string \<Rightarrow> string \<Rightarrow> exn + checkpoint" where
  "new_checkpoint checkpoint_id task_id n requested_at intended_action =
     (if \<not> uuid_v7_re checkpoint_id then Inl checkpoint_error
      else if \<not> uuid_v7_re task_id then Inl checkpoint_error
      else if n < 0 then Inl checkpoint_error
      else if requested_at = [] then Inl checkpoint_error
      else if intended_action = [] then Inl checkpoint_error
      else Inr \<lparr>ck_checkpoint_id = checkpoint_id, ck_task_id = task_id, ck_step = n,
                ck_requested_at = requested_at, ck_intended_action = intended_action\<rparr>)"

record checkpoint_policy =
  cp_expected_epoch :: string
  cp_on_capability_expired :: checkpoint_action
  cp_on_capability_revoked :: checkpoint_action
  cp_on_epoch_mismatch :: checkpoint_action

definition checkpoint_policy_ok :: "checkpoint_policy \<Rightarrow> bool" where
  "checkpoint_policy_ok p \<longleftrightarrow>
     cp_expected_epoch p \<noteq> [] \<and> cp_on_capability_expired p \<noteq> COMMIT \<and>
     cp_on_capability_revoked p \<noteq> COMMIT \<and> cp_on_epoch_mismatch p \<noteq> COMMIT"

record checkpoint_decision =
  cd_action :: checkpoint_action
  cd_reason_code :: string


section \<open>The decision\<close>

definition validate_checkpoint_inner ::
  "capability_claims \<Rightarrow> string \<Rightarrow> checkpoint_policy \<Rightarrow> (string \<Rightarrow> exn + bool) \<Rightarrow> datetime \<Rightarrow> timedelta \<Rightarrow>
   exn + checkpoint_decision" where
  "validate_checkpoint_inner capability active_epoch policy ask current max_clock_skew =
     (if active_epoch = [] then Inl checkpoint_error
      else bindE (fromtimestamp (cl_exp capability)) (\<lambda>exp_dt.
        if current - max_clock_skew > exp_dt then
          Inr \<lparr>cd_action = cp_on_capability_expired policy,
               cd_reason_code = deny_value CHECKPOINT_CAPABILITY_EXPIRED\<rparr>
        else bindE (ask (cl_jti capability)) (\<lambda>revoked.
          Inr (if revoked then
                 \<lparr>cd_action = cp_on_capability_revoked policy,
                  cd_reason_code = deny_value CHECKPOINT_CAPABILITY_REVOKED\<rparr>
               else if active_epoch \<noteq> cp_expected_epoch policy then
                 \<lparr>cd_action = cp_on_epoch_mismatch policy,
                  cd_reason_code = deny_value CHECKPOINT_POLICY_EPOCH_MISMATCH\<rparr>
               else \<lparr>cd_action = COMMIT, cd_reason_code = ''ok''\<rparr>))))"

definition checkpoint_event :: "checkpoint \<Rightarrow> capability_claims \<Rightarrow> checkpoint_decision \<Rightarrow> kwargs" where
  "checkpoint_event c capability d =
     [(''event_type'', PStr ''checkpoint.evaluate''),
      (''outcome'', PStr (if cd_action d = COMMIT then ''allow'' else ''deny'')),
      (''reason'', PStr (cd_reason_code d)), (''reason_code'', PStr (cd_reason_code d)),
      (''artifact_version'', PStr ''wt-checkpoint/v0''), (''message_id'', PStr (ck_checkpoint_id c)),
      (''sender'', PStr (cl_sub capability)), (''recipient'', PStr (cl_aud capability)),
      (''issuer_iss'', PStr (cl_iss capability)), (''issuer_kid'', PStr (cl_issuer_kid capability))]"

definition checkpoint_sink_failed :: checkpoint_decision where
  "checkpoint_sink_failed = \<lparr>cd_action = ABORT, cd_reason_code = deny_value AUDIT_SINK_FAILURE\<rparr>"

definition validate_checkpoint ::
  "'k kw_sink \<Rightarrow> checkpoint \<Rightarrow> capability_claims \<Rightarrow> string \<Rightarrow> checkpoint_policy \<Rightarrow> (string \<Rightarrow> exn + bool) \<Rightarrow> datetime \<Rightarrow>
   timedelta \<Rightarrow> 'k \<Rightarrow> (exn + checkpoint_decision) \<times> 'k" where
  "validate_checkpoint sink c capability active_epoch policy ask current max_clock_skew k =
     (case validate_checkpoint_inner capability active_epoch policy ask current max_clock_skew of
        Inl e \<Rightarrow> (Inl e, k)
      | Inr d \<Rightarrow>
          (case emit_or_deny sink (checkpoint_event c capability d) checkpoint_sink_failed d k of
             (d', k') \<Rightarrow> (Inr d', k')))"


section \<open>Runs\<close>

datatype task_step =
    RevokeStep string datetime string
  | EpochStep string
  | CheckStep checkpoint capability_claims datetime

record run_state =
  rs_ledger :: ledger
  rs_epoch :: string

fun run_step :: "'k kw_sink \<Rightarrow> checkpoint_policy \<Rightarrow> timedelta \<Rightarrow> task_step \<Rightarrow> run_state \<times> 'k \<Rightarrow>
  checkpoint_decision option \<times> run_state \<times> 'k" where
  "run_step sink policy skew (RevokeStep jti moment reason) (s, k) =
     (None, s\<lparr>rs_ledger := snd (ledger_revoke (jti, moment, reason) (rs_ledger s))\<rparr>, k)"
| "run_step sink policy skew (EpochStep epoch) (s, k) = (None, s\<lparr>rs_epoch := epoch\<rparr>, k)"
| "run_step sink policy skew (CheckStep c capability now) (s, k) =
     (case validate_checkpoint sink c capability (rs_epoch s) policy (ledger_is_revoked (rs_ledger s)) now skew k of
        (Inl e, k') \<Rightarrow> (None, s, k')
      | (Inr d, k') \<Rightarrow> (Some d, s, k'))"

fun run_steps :: "'k kw_sink \<Rightarrow> checkpoint_policy \<Rightarrow> timedelta \<Rightarrow> task_step list \<Rightarrow> run_state \<times> 'k \<Rightarrow>
  checkpoint_decision option list \<times> run_state \<times> 'k" where
  "run_steps sink policy skew [] st = ([], st)"
| "run_steps sink policy skew (x # xs) st =
     (case run_step sink policy skew x st of (d, st') \<Rightarrow>
      case run_steps sink policy skew xs st' of (ds, st'') \<Rightarrow> (d # ds, st''))"

text \<open>What a prefix of the run has revoked, and the epoch it leaves.\<close>

fun revocations :: "task_step list \<Rightarrow> (string \<times> datetime \<times> string) list" where
  "revocations [] = []"
| "revocations (RevokeStep jti moment reason # xs) = (jti, moment, reason) # revocations xs"
| "revocations (x # xs) = revocations xs"

fun last_epoch :: "string \<Rightarrow> task_step list \<Rightarrow> string" where
  "last_epoch e [] = e"
| "last_epoch e (EpochStep epoch # xs) = last_epoch epoch xs"
| "last_epoch e (x # xs) = last_epoch e xs"

lemma run_steps_append:
  "run_steps sink policy skew (xs @ ys) st =
     (case run_steps sink policy skew xs st of (ds, st') \<Rightarrow>
      case run_steps sink policy skew ys st' of (ds', st'') \<Rightarrow> (ds @ ds', st''))"
  by (induction xs arbitrary: st) (auto split: prod.splits)

lemma run_steps_length: "length (fst (run_steps sink policy skew xs st)) = length xs"
  by (induction xs arbitrary: st) (auto split: prod.splits, metis fst_conv)

lemma run_steps_state:
  "run_steps sink policy skew xs (s, k) = (ds, s', k') \<Longrightarrow>
   rs_epoch s' = last_epoch (rs_epoch s) xs \<and>
   rs_ledger s' = snd (submit_all ledger_revoke fst (revocations xs) (rs_ledger s))"
proof (induction xs arbitrary: s k ds)
  case (Cons x xs)
  obtain d s1 k1 ds' where s: "run_step sink policy skew x (s, k) = (d, s1, k1)"
    "run_steps sink policy skew xs (s1, k1) = (ds', s', k')"
    using Cons.prems by (auto split: prod.splits)
  show ?case
  proof (cases x)
    case (RevokeStep jti moment reason)
    then show ?thesis using Cons.IH[OF s(2)] s(1)
      by (auto split: prod.splits sum.splits)
  next
    case (EpochStep epoch)
    then show ?thesis using Cons.IH[OF s(2)] s(1) by auto
  next
    case (CheckStep c capability now)
    then have "s1 = s" using s(1) by (auto split: prod.splits sum.splits)
    then show ?thesis using Cons.IH[OF s(2)] CheckStep by simp
  qed
qed simp

lemma submit_all_mem:
  "r \<in> set rs \<Longrightarrow> \<forall>s. fst (submit r s) = Inr () \<Longrightarrow> target r \<in> set (fst (submit_all submit target rs s))"
proof (induction rs arbitrary: s)
  case (Cons x rs)
  show ?case
  proof (cases "submit x s")
    case (Pair y s1)
    have "target r \<in> set (fst (submit_all submit target rs s1))" if "x \<noteq> r"
      using Cons.IH[of s1] Cons.prems that by simp
    moreover have "y = Inr ()" if "x = r" using Cons.prems(2) Pair that by (metis fst_conv)
    ultimately show ?thesis using Pair by (cases y; cases "x = r") (auto split: prod.splits)
  qed
qed simp

lemma revocations_mem: "RevokeStep jti moment reason \<in> set xs \<longleftrightarrow> (jti, moment, reason) \<in> set (revocations xs)"
  by (induction xs rule: revocations.induct) auto

lemma run_steps_log:
  assumes "kw_logs rc evs"
  shows "run_steps (Some rc) policy skew xs (s, k) = (ds, s', k') \<Longrightarrow> set (evs k) \<subseteq> set (evs k')"
proof (induction xs arbitrary: s k ds)
  case (Cons x xs)
  obtain d s1 k1 ds' where s: "run_step (Some rc) policy skew x (s, k) = (d, s1, k1)"
    "run_steps (Some rc) policy skew xs (s1, k1) = (ds', s', k')"
    using Cons.prems by (auto split: prod.splits)
  have "set (evs k) \<subseteq> set (evs k1)"
  proof (cases x)
    case (CheckStep c capability now)
    obtain r k2 where v: "validate_checkpoint (Some rc) c capability (rs_epoch s) policy
        (ledger_is_revoked (rs_ledger s)) now skew k = (r, k2)" by fastforce
    moreover have "set (evs k) \<subseteq> set (evs k2)"
      using v by (auto simp: validate_checkpoint_def split: sum.splits prod.splits dest!: emit_or_deny_log[OF assms])
    ultimately show ?thesis using s(1) CheckStep by (auto split: sum.splits)
  qed (use s(1) in auto)
  then show ?case using Cons.IH[OF s(2)] by blast
qed simp

lemma inner_commit:
  assumes "validate_checkpoint_inner capability epoch policy ask now skew = Inr d" "cd_action d = COMMIT"
    "checkpoint_policy_ok policy"
  shows "now - skew \<le> seconds (cl_exp capability)" "ask (cl_jti capability) = Inr False"
    "epoch = cp_expected_epoch policy"
  using assms
  by (auto simp: validate_checkpoint_inner_def checkpoint_policy_ok_def fromtimestamp_Inr split: if_splits)


section \<open>Properties\<close>

text \<open>C18. Revocation and rotation take effect at the next commit point: a checkpoint anywhere in a run
  commits only if the capability has not expired, no earlier step revoked it, and the epoch set
  last is the one the task was authorised under; and its allow event is in the audit log.\<close>

theorem commit_revalidated:
  assumes "kw_logs rc evs" "checkpoint_policy_ok policy"
    and "run_steps (Some rc) policy skew (before @ CheckStep c capability now # after)
       (\<lparr>rs_ledger = [], rs_epoch = epoch\<rparr>, k) = (ds, s', k')"
    and "ds ! length before = Some d" "cd_action d = COMMIT"
  shows "now - skew \<le> seconds (cl_exp capability) \<and> last_epoch epoch before = cp_expected_epoch policy \<and>
    (\<forall>moment reason. RevokeStep (cl_jti capability) moment reason \<in> set before \<longrightarrow>
       \<not> uuid_v7_re (cl_jti capability) \<or> reason = []) \<and>
    checkpoint_event c capability d \<in> set (evs k')"
proof -
  obtain ds1 s1 k1 where pre:
    "run_steps (Some rc) policy skew before (\<lparr>rs_ledger = [], rs_epoch = epoch\<rparr>, k) = (ds1, s1, k1)"
    by (metis prod_cases3)
  note state = run_steps_state[OF pre, simplified]
  obtain x s2 k2 ds2 where step: "run_step (Some rc) policy skew (CheckStep c capability now) (s1, k1) = (x, s2, k2)"
    "run_steps (Some rc) policy skew after (s2, k2) = (ds2, s', k')" "ds = ds1 @ x # ds2"
    using assms(3) pre unfolding run_steps_append by (auto split: prod.splits)
  have len: "length ds1 = length before"
    using run_steps_length[of "Some rc" policy skew before "(\<lparr>rs_ledger = [], rs_epoch = epoch\<rparr>, k)"] pre by simp
  then have "x = Some d" using step(3) assms(4) by (metis nth_append_length)
  then obtain d0 where d0: "validate_checkpoint_inner capability (rs_epoch s1) policy
      (ledger_is_revoked (rs_ledger s1)) now skew = Inr d0"
    "emit_or_deny (Some rc) (checkpoint_event c capability d0) checkpoint_sink_failed d0 k1 = (d, k2)"
    using step(1) by (auto simp: validate_checkpoint_def split: sum.splits prod.splits)
  have logged: "d = d0" "checkpoint_event c capability d \<in> set (evs k2)"
    using emit_or_deny_log[OF assms(1) d0(2)] assms(5) by (auto simp: checkpoint_sink_failed_def)
  note ok = inner_commit[OF d0(1) _ assms(2), folded logged(1), OF assms(5)]
  obtain js led where all: "submit_all ledger_revoke fst (revocations before) [] = (js, led)" by fastforce
  have "cl_jti capability \<notin> set js"
    using ledger.submit_all_lookup[OF _ _ all, of "cl_jti capability"] ok(2) state all by simp
  then have "\<not> uuid_v7_re (cl_jti capability) \<or> reason = []"
    if "RevokeStep (cl_jti capability) moment reason \<in> set before" for moment reason
    using submit_all_mem[of "(cl_jti capability, moment, reason)" "revocations before" ledger_revoke fst "[]"]
      that all by (cases "reason = []") (auto simp: revocations_mem ledger_revoke_def)
  then show ?thesis using ok state logged(2) run_steps_log[OF assms(1) step(2)] by auto
qed

text \<open>A capability whose \<open>exp\<close> is outside the range of \<open>datetime\<close> makes the checkpoint raise, without
  an event.\<close>

lemma checkpoint_escapes:
  assumes "epoch \<noteq> []" "fromtimestamp (cl_exp capability) = Inl e"
  shows "validate_checkpoint sink c capability epoch policy ask now skew k = (Inl e, k)"
  using assms by (simp add: validate_checkpoint_def validate_checkpoint_inner_def)

definition demo_checkpoint :: checkpoint where
  "demo_checkpoint =
     \<lparr>ck_checkpoint_id = demo_uuid, ck_task_id = demo_uuid, ck_step = 0, ck_requested_at = ''t0'', ck_intended_action = ''write''\<rparr>"

definition demo_checkpoint_policy :: checkpoint_policy where
  "demo_checkpoint_policy = \<lparr>cp_expected_epoch = ''e1'', cp_on_capability_expired = ABORT,
     cp_on_capability_revoked = ABORT, cp_on_epoch_mismatch = DOWNGRADE\<rparr>"

theorem commit_revalidated_witness:
  "let steps = [CheckStep demo_checkpoint demo_claims 0, RevokeStep demo_uuid 0 ''lost'', CheckStep demo_checkpoint demo_claims 0];
       run = run_steps (Some list_sink) demo_checkpoint_policy (seconds 60) steps (\<lparr>rs_ledger = [], rs_epoch = ''e1''\<rparr>, []) in
   map (map_option cd_action) (fst run) = [Some COMMIT, None, Some ABORT] \<and>
   checkpoint_event demo_checkpoint demo_claims \<lparr>cd_action = COMMIT, cd_reason_code = ''ok''\<rparr> \<in> set (snd (snd run))"
proof -
  let ?after = "[RevokeStep demo_uuid 0 ''lost'', CheckStep demo_checkpoint demo_claims 0]"
  have u: "uuid_v7_re demo_uuid" by code_simp
  let ?run = "run_steps (Some list_sink) demo_checkpoint_policy (seconds 60) ([] @ CheckStep demo_checkpoint demo_claims 0 # ?after)
    (\<lparr>rs_ledger = [], rs_epoch = ''e1''\<rparr>, [])"
  have run: "map (map_option cd_action) (fst ?run) = [Some COMMIT, None, Some ABORT]"
    "fst ?run ! 0 = Some \<lparr>cd_action = COMMIT, cd_reason_code = ''ok''\<rparr>"
    by (simp_all add: validate_checkpoint_def validate_checkpoint_inner_def fromtimestamp_def timestamp_ok_def
        demo_claims_def demo_checkpoint_policy_def ledger_is_revoked_def ledger_revoke_def u emit_or_deny_def list_sink_def
        seconds_def)
  obtain ds s' k' where r: "?run = (ds, s', k')" by (metis prod_cases3)
  have "checkpoint_policy_ok demo_checkpoint_policy"
    by (simp add: checkpoint_policy_ok_def demo_checkpoint_policy_def)
  note c = commit_revalidated[OF list_sink_logs this r, of "\<lparr>cd_action = COMMIT, cd_reason_code = ''ok''\<rparr>"]
  show ?thesis
    unfolding Let_def r[unfolded append_Nil] fst_conv snd_conv using c run[unfolded r fst_conv] by simp
qed

end
