(* ===== verification/KeyRotation.thy ===== *)
theory KeyRotation
  imports Artifact
begin

text \<open>
  \<open>key_rotation.py\<close>: plans that replace a key of a subject by another one over an overlap window,
  and the registry of the plans in flight, which answers whether a key id is accepted.
\<close>

section \<open>Plans\<close>

record rotation_plan =
  kr_subject_iss :: string
  kr_old_kid :: string
  kr_new_kid :: string
  kr_overlap_start :: datetime
  kr_cutover_at :: datetime
  kr_overlap_end :: datetime

abbreviation rotation_error :: exn where
  "rotation_error \<equiv> repo_error ''KeyRotationError''"

definition build_plan ::
  "string \<Rightarrow> string \<Rightarrow> string \<Rightarrow> datetime \<Rightarrow> datetime \<Rightarrow> datetime \<Rightarrow> exn + rotation_plan" where
  "build_plan subject old_kid new_kid overlap_start cutover_at overlap_end =
     bindE (guards
       [(spiffe_id_re subject, rotation_error), (kid_re old_kid, rotation_error), (kid_re new_kid, rotation_error),
        (old_kid \<noteq> new_kid, rotation_error), (\<not> cutover_at < overlap_start, rotation_error),
        (\<not> overlap_end < cutover_at, rotation_error)]) (\<lambda>_.
     Inr \<lparr>kr_subject_iss = subject, kr_old_kid = old_kid, kr_new_kid = new_kid, kr_overlap_start = overlap_start,
          kr_cutover_at = cutover_at, kr_overlap_end = overlap_end\<rparr>)"

datatype rotation_phase = PRE_OVERLAP | OVERLAP | POST_CUTOVER | COMPLETE

definition current_phase :: "rotation_plan \<Rightarrow> datetime \<Rightarrow> rotation_phase" where
  "current_phase p now =
     (if now < kr_overlap_start p then PRE_OVERLAP
      else if now < kr_cutover_at p then OVERLAP
      else if now \<le> kr_overlap_end p then POST_CUTOVER
      else COMPLETE)"

definition accepted_kids :: "rotation_plan \<Rightarrow> datetime \<Rightarrow> string set" where
  "accepted_kids p now =
     (case current_phase p now of
        PRE_OVERLAP \<Rightarrow> {kr_old_kid p}
      | COMPLETE \<Rightarrow> {kr_new_kid p}
      | _ \<Rightarrow> {kr_old_kid p, kr_new_kid p})"


section \<open>The registry\<close>

type_synonym registry = "rotation_plan list"

definition intervals_overlap :: "datetime \<Rightarrow> datetime \<Rightarrow> datetime \<Rightarrow> datetime \<Rightarrow> bool" where
  "intervals_overlap a_start a_end b_start b_end \<longleftrightarrow> a_start \<le> b_end \<and> b_start \<le> a_end"

definition plan_conflict :: "rotation_plan \<Rightarrow> rotation_plan \<Rightarrow> bool" where
  "plan_conflict p q \<longleftrightarrow>
     kr_subject_iss q = kr_subject_iss p \<and>
     intervals_overlap (kr_overlap_start p) (kr_overlap_end p) (kr_overlap_start q) (kr_overlap_end q) \<and>
     {kr_old_kid p, kr_new_kid p} \<inter> {kr_old_kid q, kr_new_kid q} \<noteq> {}"

definition register :: "rotation_plan \<Rightarrow> registry \<Rightarrow> (exn + unit) \<times> registry" where
  "register p plans =
     (if \<exists>q\<in>set plans. plan_conflict p q then (Inl rotation_error, plans) else (Inr (), plans @ [p]))"

fun accepted_kids_for :: "registry \<Rightarrow> string \<Rightarrow> datetime \<Rightarrow> string set" where
  "accepted_kids_for [] subject now = {}"
| "accepted_kids_for (p # ps) subject now =
     (if kr_subject_iss p = subject then accepted_kids p now else {}) \<union> accepted_kids_for ps subject now"

definition is_accepted :: "registry \<Rightarrow> string \<Rightarrow> string \<Rightarrow> datetime \<Rightarrow> bool" where
  "is_accepted plans subject kid now \<longleftrightarrow> kid \<in> accepted_kids_for plans subject now"

definition evict_completed :: "datetime \<Rightarrow> registry \<Rightarrow> nat \<times> registry" where
  "evict_completed now plans =
     (let kept = filter (\<lambda>p. kr_overlap_end p \<ge> now) plans in (length plans - length kept, kept))"

definition require_accepted_kid :: "registry \<Rightarrow> string \<Rightarrow> string \<Rightarrow> datetime \<Rightarrow> exn + unit" where
  "require_accepted_kid plans subject kid now = guard (is_accepted plans subject kid now) rotation_error"

fun build_registry :: "rotation_plan list \<Rightarrow> registry \<Rightarrow> exn + registry" where
  "build_registry [] reg = Inr reg"
| "build_registry (p # ps) reg =
     (case register p reg of (Inl e, reg') \<Rightarrow> Inl e | (Inr _, reg') \<Rightarrow> build_registry ps reg')"


section \<open>Reachable registries\<close>

inductive registry_reachable :: "registry \<Rightarrow> bool" where
  registry_new: "registry_reachable []"
| registry_registered: "registry_reachable plans \<Longrightarrow> build_plan s old_kid new_kid t1 t2 t3 = Inr p \<Longrightarrow>
     registry_reachable (snd (register p plans))"
| registry_evicted: "registry_reachable plans \<Longrightarrow> registry_reachable (snd (evict_completed now plans))"

definition plan_ok :: "rotation_plan \<Rightarrow> bool" where
  "plan_ok p \<longleftrightarrow> spiffe_id_re (kr_subject_iss p) \<and> kid_re (kr_old_kid p) \<and> kid_re (kr_new_kid p) \<and>
     kr_old_kid p \<noteq> kr_new_kid p \<and> kr_overlap_start p \<le> kr_cutover_at p \<and> kr_cutover_at p \<le> kr_overlap_end p"

definition registry_inv :: "registry \<Rightarrow> bool" where
  "registry_inv plans \<longleftrightarrow> (\<forall>p\<in>set plans. plan_ok p) \<and> sorted_wrt (\<lambda>p q. \<not> plan_conflict q p) plans"

lemma build_plan_ok: "build_plan s old_kid new_kid t1 t2 t3 = Inr p \<Longrightarrow> plan_ok p"
  by (auto simp: build_plan_def plan_ok_def)

lemma registry_inv_register: "registry_inv plans \<Longrightarrow> plan_ok p \<Longrightarrow> registry_inv (snd (register p plans))"
  by (auto simp: registry_inv_def register_def sorted_wrt_append)

lemma registry_inv_evict: "registry_inv plans \<Longrightarrow> registry_inv (snd (evict_completed now plans))"
  by (auto simp: registry_inv_def evict_completed_def Let_def sorted_wrt_filter)

lemma registry_reachable_inv: "registry_reachable plans \<Longrightarrow> registry_inv plans"
proof (induction rule: registry_reachable.induct)
  case registry_new
  then show ?case by (simp add: registry_inv_def)
qed (blast intro: registry_inv_register registry_inv_evict build_plan_ok)+

lemma plan_conflict_sym: "plan_conflict p q \<longleftrightarrow> plan_conflict q p"
  by (auto simp: plan_conflict_def intervals_overlap_def)

lemma registry_disjoint:
  assumes "registry_inv plans" "i < length plans" "j < length plans" "i \<noteq> j"
  shows "\<not> plan_conflict (plans ! i) (plans ! j)"
proof (cases "i < j")
  case True
  then show ?thesis using assms sorted_wrt_nth_less[of "\<lambda>p q. \<not> plan_conflict q p" plans i j]
    by (simp add: registry_inv_def plan_conflict_sym)
next
  case False
  then show ?thesis using assms sorted_wrt_nth_less[of "\<lambda>p q. \<not> plan_conflict q p" plans j i]
    by (simp add: registry_inv_def)
qed

lemma accepted_kids_iff:
  assumes "plan_ok p"
  shows "kid \<in> accepted_kids p now \<longleftrightarrow>
    kid = kr_old_kid p \<and> now \<le> kr_overlap_end p \<or> kid = kr_new_kid p \<and> kr_overlap_start p \<le> now"
  using assms by (auto simp: accepted_kids_def current_phase_def plan_ok_def split: if_splits)

lemma accepted_kids_for_iff:
  "kid \<in> accepted_kids_for plans subject now \<longleftrightarrow>
   (\<exists>p\<in>set plans. kr_subject_iss p = subject \<and> kid \<in> accepted_kids p now)"
  by (induction plans) auto


section \<open>Properties\<close>

text \<open>Rotation is deterministic: in every registry that registrations and evictions can build, a key
  id is accepted exactly if it is the old key of a plan of the subject whose window has not ended,
  or the new key of one whose window has begun; and two plans of a subject that share a key never
  have overlapping windows, so within a window each of its two keys is in transition once.\<close>

lemma rotation_windows:
  assumes "registry_reachable plans"
  shows "(\<forall>subject kid now. is_accepted plans subject kid now \<longleftrightarrow>
      (\<exists>p\<in>set plans. kr_subject_iss p = subject \<and>
         (kid = kr_old_kid p \<and> now \<le> kr_overlap_end p \<or> kid = kr_new_kid p \<and> kr_overlap_start p \<le> now))) \<and>
    (\<forall>i j. i < length plans \<and> j < length plans \<and> i \<noteq> j \<and> kr_subject_iss (plans ! i) = kr_subject_iss (plans ! j) \<and>
       {kr_old_kid (plans ! i), kr_new_kid (plans ! i)} \<inter> {kr_old_kid (plans ! j), kr_new_kid (plans ! j)} \<noteq> {} \<longrightarrow>
       kr_overlap_end (plans ! i) < kr_overlap_start (plans ! j) \<or> kr_overlap_end (plans ! j) < kr_overlap_start (plans ! i))"
proof -
  have inv: "registry_inv plans" using assms by (rule registry_reachable_inv)
  then have "kid \<in> accepted_kids p now \<longleftrightarrow>
      kid = kr_old_kid p \<and> now \<le> kr_overlap_end p \<or> kid = kr_new_kid p \<and> kr_overlap_start p \<le> now"
    if "p \<in> set plans" for p kid now
    using that accepted_kids_iff[of p kid now] by (simp add: registry_inv_def)
  then have "is_accepted plans subject kid now \<longleftrightarrow>
      (\<exists>p\<in>set plans. kr_subject_iss p = subject \<and>
         (kid = kr_old_kid p \<and> now \<le> kr_overlap_end p \<or> kid = kr_new_kid p \<and> kr_overlap_start p \<le> now))"
    for subject kid now
    unfolding is_accepted_def accepted_kids_for_iff by blast
  moreover have "kr_overlap_end (plans ! i) < kr_overlap_start (plans ! j) \<or>
      kr_overlap_end (plans ! j) < kr_overlap_start (plans ! i)"
    if "i < length plans" "j < length plans" "i \<noteq> j" "kr_subject_iss (plans ! i) = kr_subject_iss (plans ! j)"
      "{kr_old_kid (plans ! i), kr_new_kid (plans ! i)} \<inter> {kr_old_kid (plans ! j), kr_new_kid (plans ! j)} \<noteq> {}" for i j
    using registry_disjoint[OF inv that(1-3)] that(4,5) unfolding plan_conflict_def intervals_overlap_def by force
  ultimately show ?thesis by blast
qed

text \<open>Two drills in a row: the key of the middle stays accepted for ever, as the new key of the first
  plan, although its own window has ended; only evicting the first plan retires it.\<close>

definition first_drill :: rotation_plan where
  "first_drill = \<lparr>kr_subject_iss = ''spiffe://a'', kr_old_kid = ''A'', kr_new_kid = ''B'',
     kr_overlap_start = 0, kr_cutover_at = 1, kr_overlap_end = 2\<rparr>"

definition second_drill :: rotation_plan where
  "second_drill = \<lparr>kr_subject_iss = ''spiffe://a'', kr_old_kid = ''B'', kr_new_kid = ''C'',
     kr_overlap_start = 10, kr_cutover_at = 11, kr_overlap_end = 12\<rparr>"

lemma drills_reachable: "registry_reachable [first_drill, second_drill]"
proof -
  have b: "build_plan ''spiffe://a'' ''A'' ''B'' 0 1 2 = Inr first_drill"
    "build_plan ''spiffe://a'' ''B'' ''C'' 10 11 12 = Inr second_drill"
    by (simp_all add: build_plan_def first_drill_def second_drill_def pattern_defs)
  have "registry_reachable [first_drill]"
    using registry_registered[OF registry_new b(1)] by (simp add: register_def)
  moreover have "\<not> plan_conflict second_drill first_drill"
    by (simp add: plan_conflict_def first_drill_def second_drill_def intervals_overlap_def)
  ultimately show ?thesis using registry_registered[OF _ b(2), of "[first_drill]"] by (simp add: register_def)
qed

lemma retired_key_accepted:
  "12 < now \<Longrightarrow> is_accepted [first_drill, second_drill] ''spiffe://a'' ''B'' now \<and>
   \<not> is_accepted (snd (evict_completed 10 [first_drill, second_drill])) ''spiffe://a'' ''B'' now"
  by (auto simp: is_accepted_def evict_completed_def accepted_kids_def current_phase_def first_drill_def second_drill_def)

end
