(* ===== verification/Review.thy ===== *)
theory Review
  imports DataPolicy Demo
begin

text \<open>
  \<open>reviewer_workflow.py\<close>: quarantine records, and the signed decisions by which a human reviewer
  releases or rejects one. A decision is bound to the digest of its record.
\<close>

section \<open>Quarantine records\<close>

fun risk_value :: "risk_level \<Rightarrow> string" where
  "risk_value RISK_NONE = ''none''"
| "risk_value RISK_LOW = ''low''"
| "risk_value RISK_MEDIUM = ''medium''"
| "risk_value RISK_HIGH = ''high''"
| "risk_value RISK_CRITICAL = ''critical''"

record quarantine_record =
  qr_record_id :: string
  qr_artifact_digest :: string
  qr_risk :: risk_level
  qr_data_class :: data_class
  qr_requested_at :: string
  qr_requester_iss :: string
  qr_purpose_of_use :: string

definition quarantine_record_ok :: "quarantine_record \<Rightarrow> exn + unit" where
  "quarantine_record_ok q =
     (let e = std_error ''ValueError'' in
      guards
       [(uuid_v7_re (qr_record_id q), e), (hex_sha256_re (qr_artifact_digest q), e), (qr_requested_at q \<noteq> [], e),
        (spiffe_id_re (qr_requester_iss q), e), (qr_purpose_of_use q \<noteq> [], e)])"

definition record_body :: "quarantine_record \<Rightarrow> pyval" where
  "record_body q =
     PDict [(''record_id'', PStr (qr_record_id q)), (''artifact_digest'', PStr (qr_artifact_digest q)),
            (''risk'', PStr (risk_value (qr_risk q))), (''data_class'', PStr (class_value (qr_data_class q))),
            (''requested_at'', PStr (qr_requested_at q)), (''requester_iss'', PStr (qr_requester_iss q)),
            (''purpose_of_use'', PStr (qr_purpose_of_use q))]"

definition record_digest :: "platform \<Rightarrow> quarantine_record \<Rightarrow> exn + string" where
  "record_digest P q = bindE (p_canon P (record_body q)) (\<lambda>body. Inr (p_sha256 P body))"


section \<open>Decisions\<close>

datatype review_verdict = RELEASE | REJECT

fun verdict_value :: "review_verdict \<Rightarrow> string" where
  "verdict_value RELEASE = ''release''"
| "verdict_value REJECT = ''reject''"

fun verdict_of_value :: "pyval \<Rightarrow> review_verdict option" where
  "verdict_of_value (PStr s) = (if s = ''release'' then Some RELEASE else if s = ''reject'' then Some REJECT else None)"
| "verdict_of_value _ = None"

record review =
  rw_record_digest :: pyval
  rw_verdict :: review_verdict
  rw_reason :: pyval
  rw_reviewer_iss :: pyval
  rw_reviewer_kid :: pyval
  rw_iat :: pyval
  rw_nbf :: pyval
  rw_exp :: pyval
  rw_jti :: pyval
  rw_signature :: pyval

abbreviation rverr :: "deny_reason \<Rightarrow> exn" where
  "rverr \<equiv> raise_as ReviewError"

definition review_body :: "review \<Rightarrow> pyval" where
  "review_body d =
     PDict [(''typ'', PStr ''wt-review/v0''), (''record_digest'', rw_record_digest d),
            (''verdict'', PStr (verdict_value (rw_verdict d))), (''reason'', rw_reason d),
            (''reviewer_iss'', rw_reviewer_iss d), (''reviewer_kid'', rw_reviewer_kid d), (''iat'', rw_iat d),
            (''nbf'', rw_nbf d), (''exp'', rw_exp d), (''jti'', rw_jti d)]"

definition sign_decision :: "platform \<Rightarrow> (string \<Rightarrow> string) \<Rightarrow> review \<Rightarrow> exn + review" where
  "sign_decision P sign d =
     bindE (sign_body P sign (review_body d)) (\<lambda>s. Inr (d\<lparr>rw_signature := s\<rparr>))"

definition review_fields :: "string list" where
  "review_fields =
     [''record_digest'', ''verdict'', ''reason'', ''reviewer_iss'', ''reviewer_kid'', ''iat'', ''nbf'', ''exp'',
      ''jti'', ''signature'']"

definition review_object :: "review \<Rightarrow> pyval" where
  "review_object d =
     PDict [(''record_digest'', rw_record_digest d), (''verdict'', PStr (verdict_value (rw_verdict d))),
            (''reason'', rw_reason d), (''reviewer_iss'', rw_reviewer_iss d), (''reviewer_kid'', rw_reviewer_kid d),
            (''iat'', rw_iat d), (''nbf'', rw_nbf d), (''exp'', rw_exp d), (''jti'', rw_jti d),
            (''signature'', rw_signature d)]"

definition review_from_json :: "platform \<Rightarrow> string \<Rightarrow> exn + review" where
  "review_from_json P data =
     (case p_json_loads P data of
        Inl e \<Rightarrow> if value_or_type_error e then Inl (rverr REVIEW_MALFORMED) else Inl e
      | Inr obj \<Rightarrow>
          if \<not> is_dict obj then Inl (rverr REVIEW_MALFORMED)
          else let d = dict_of obj in
            if \<not> list_all (has_key d) review_fields then Inl (rverr REVIEW_MALFORMED)
            else case verdict_of_value (item d ''verdict'') of
              None \<Rightarrow> Inl (rverr REVIEW_MALFORMED)
            | Some verdict \<Rightarrow>
                Inr \<lparr>rw_record_digest = item d ''record_digest'', rw_verdict = verdict, rw_reason = item d ''reason'',
                     rw_reviewer_iss = item d ''reviewer_iss'', rw_reviewer_kid = item d ''reviewer_kid'',
                     rw_iat = item d ''iat'', rw_nbf = item d ''nbf'', rw_exp = item d ''exp'',
                     rw_jti = item d ''jti'', rw_signature = item d ''signature''\<rparr>)"

definition review_shape :: "review \<Rightarrow> exn + unit" where
  "review_shape d =
     (let m = rverr REVIEW_MALFORMED in
      guards
       [(str_test hex_sha256_re (rw_record_digest d), m), (is_str (rw_reason d), m),
        (str_test spiffe_id_re (rw_reviewer_iss d), m), (str_test kid_re (rw_reviewer_kid d), m),
        (str_test uuid_v7_re (rw_jti d), m), (is_int (rw_iat d), m), (is_int (rw_nbf d), m), (is_int (rw_exp d), m),
        (str_test nonempty (rw_signature d), m)])"

record review_limits =
  rl_max_clock_skew :: timedelta
  rl_max_review_ttl :: timedelta

definition DEFAULT_REVIEW_LIMITS :: review_limits where
  "DEFAULT_REVIEW_LIMITS = \<lparr>rl_max_clock_skew = seconds 60, rl_max_review_ttl = hours 24\<rparr>"

definition verify_decision_inner ::
  "platform \<Rightarrow> (string \<Rightarrow> string \<Rightarrow> exn + string) \<Rightarrow> review_limits \<Rightarrow> datetime \<Rightarrow> quarantine_record \<Rightarrow> review \<Rightarrow> exn + review" where
  "verify_decision_inner P issuer_lookup L current q d =
     bindE (review_shape d) (\<lambda>_.
     bindE (record_digest P q) (\<lambda>digest.
     bindE (guard (rw_record_digest d = PStr digest) (rverr REVIEW_RECORD_MISMATCH)) (\<lambda>_.
     bindE (numeric_window (rverr REVIEW_INVALID_VALIDITY_WINDOW) (rverr REVIEW_TTL_EXCEEDED)
              (rverr REVIEW_NOT_YET_VALID) (rverr REVIEW_EXPIRED)
              (int_of (rw_iat d)) (int_of (rw_nbf d)) (int_of (rw_exp d)) current
              (rl_max_clock_skew L) (rl_max_review_ttl L)) (\<lambda>_.
     bindE (issuer_signature P issuer_lookup (rverr REVIEW_UNKNOWN_ISSUER) (rverr REVIEW_SIGNATURE_INVALID)
              (str_of (rw_reviewer_iss d)) (str_of (rw_reviewer_kid d)) (rw_signature d) (review_body d)) (\<lambda>_.
     Inr d)))))"

definition review_event :: "quarantine_record \<Rightarrow> review \<Rightarrow> string \<Rightarrow> string \<Rightarrow> kwargs" where
  "review_event q d outcome code =
     artifact_event ''review.verify'' ''wt-review/v0'' outcome code (rw_jti d) (rw_reviewer_iss d)
       (PStr (qr_requester_iss q)) (rw_reviewer_kid d) (rw_reviewer_iss d) (rw_reviewer_kid d)"

definition verify_decision ::
  "platform \<Rightarrow> 'k kw_sink \<Rightarrow> (string \<Rightarrow> string \<Rightarrow> exn + string) \<Rightarrow> review_limits \<Rightarrow> datetime \<Rightarrow> quarantine_record \<Rightarrow> review \<Rightarrow> 'k \<Rightarrow>
   (exn + review) \<times> 'k" where
  "verify_decision P sink issuer_lookup L current q d k =
     audited ReviewError sink (review_event q d) (verify_decision_inner P issuer_lookup L current q d) k"

text \<open>The release path calls \<open>verify_decision\<close> without a sink and audits its own verdict.\<close>

definition verify_release_authorization ::
  "platform \<Rightarrow> 'k kw_sink \<Rightarrow> (string \<Rightarrow> string \<Rightarrow> exn + string) \<Rightarrow> review_limits \<Rightarrow> datetime \<Rightarrow> quarantine_record \<Rightarrow> review \<Rightarrow> 'k \<Rightarrow>
   (exn + review) \<times> 'k" where
  "verify_release_authorization P sink issuer_lookup L current q d k =
     audited ReviewError sink (review_event q d)
       (bindE (fst (verify_decision P None issuer_lookup L current q d ())) (\<lambda>_.
        if rw_verdict d \<noteq> RELEASE then Inl (rverr REVIEW_REJECTED) else Inr d)) k"


section \<open>Facts\<close>

lemma risk_value_inject: "risk_value a = risk_value b \<longleftrightarrow> a = b"
  by (cases a; cases b) auto

lemma class_value_inject: "class_value a = class_value b \<longleftrightarrow> a = b"
  by (cases a; cases b) auto

lemma record_body_inject: "record_body q = record_body q' \<longleftrightarrow> q = q'"
  by (cases q; cases q') (simp add: record_body_def risk_value_inject class_value_inject)

text \<open>What a verified decision says of its record.\<close>

definition review_ok ::
  "platform \<Rightarrow> (string \<Rightarrow> string \<Rightarrow> exn + string) \<Rightarrow> review_limits \<Rightarrow> datetime \<Rightarrow> quarantine_record \<Rightarrow> review \<Rightarrow> bool" where
  "review_ok P lookup L current q d \<longleftrightarrow>
     (\<exists>digest. record_digest P q = Inr digest \<and> rw_record_digest d = PStr digest) \<and>
     (\<exists>iat nbf expiry. rw_iat d = PInt iat \<and> rw_nbf d = PInt nbf \<and> rw_exp d = PInt expiry \<and> iat \<le> nbf \<and>
        nbf \<le> expiry \<and> seconds (expiry - nbf) \<le> rl_max_review_ttl L \<and>
        seconds nbf \<le> current + rl_max_clock_skew L \<and> current \<le> seconds expiry + rl_max_clock_skew L) \<and>
     (\<exists>iss kid. rw_reviewer_iss d = PStr iss \<and> rw_reviewer_kid d = PStr kid \<and>
        signed_by P lookup iss kid (rw_signature d) (review_body d))"

lemma verify_decision_ok:
  assumes "verify_decision_inner P lookup L current q d = Inr d'"
  shows "d' = d \<and> review_ok P lookup L current q d"
proof -
  have "review_shape d = Inr ()" using assms by (simp add: verify_decision_inner_def)
  then obtain iss kid iat nbf expiry where "rw_reviewer_iss d = PStr iss" "rw_reviewer_kid d = PStr kid"
    "rw_iat d = PInt iat" "rw_nbf d = PInt nbf" "rw_exp d = PInt expiry"
    by (auto simp: review_shape_def Let_def str_test_iff is_int_iff)
  then show ?thesis
    using assms by (auto simp: verify_decision_inner_def review_ok_def numeric_window_Inr issuer_signature_Inr)
qed

lemma release_returned:
  assumes "fst (verify_release_authorization P sink lookup L current q d k) = Inr d'"
  shows "d' = d \<and> rw_verdict d = RELEASE \<and> review_ok P lookup L current q d"
  using audited_returned[OF assms[unfolded verify_release_authorization_def]] verify_decision_ok[of P lookup L current q d]
  by (auto simp: verify_decision_def split: if_splits)

lemma review_roundtrip:
  assumes "p_json_loads P data = Inr (review_object d)"
  shows "review_from_json P data = Inr d"
  using assms by (cases "rw_verdict d")
    (simp_all add: review_from_json_def review_object_def review_fields_def has_key_def item_def Let_def)

interpretation reviews: signed_artifact review_body rw_signature sign_decision review_object review_from_json
  by unfold_locales (auto simp: sign_decision_def review_body_def intro: review_roundtrip)


section \<open>Properties\<close>

text \<open>C23. Nothing leaves quarantine without a reviewer: a release is authorised only by a decision to
  release that a known reviewer signed, in its window, and bound to this very record, and its
  allow event is in the audit log; every refusal by a review error leaves a deny event with the
  reason, unless the sink failed. A decision that releases two different records exhibits a
  collision of the digest.\<close>

theorem release_authorized:
  assumes "kw_logs rc evs"
    and "verify_release_authorization P (Some rc) lookup L current q d k = (r, k')"
  shows "(case r of
      Inr d' \<Rightarrow> d' = d \<and> rw_verdict d = RELEASE \<and> review_ok P lookup L current q d \<and>
        evs k' = evs k @ [review_event q d ''allow'' ''ok'']
    | Inl e \<Rightarrow> exn_cls e = ReviewError \<longrightarrow>
        evs k' = evs k @ [review_event q d ''deny'' (reason_code e)] \<or>
        (e = rverr AUDIT_SINK_FAILURE \<and> evs k' = evs k)) \<and>
    (\<forall>q'. returned r \<and> returned (fst (verify_release_authorization P None lookup L current q' d ())) \<and> q' \<noteq> q \<longrightarrow>
       (\<exists>b b'. record_body q' \<noteq> record_body q \<and> p_canon P (record_body q) = Inr b \<and>
          p_canon P (record_body q') = Inr b' \<and> p_sha256 P b = p_sha256 P b'))"
proof -
  have fst: "fst (verify_release_authorization P (Some rc) lookup L current q d k) = r" using assms(2) by simp
  note log = audited_log[OF assms(1) assms(2)[unfolded verify_release_authorization_def]]
  have "case r of
      Inr d' \<Rightarrow> d' = d \<and> rw_verdict d = RELEASE \<and> review_ok P lookup L current q d \<and>
        evs k' = evs k @ [review_event q d ''allow'' ''ok'']
    | Inl e \<Rightarrow> exn_cls e = ReviewError \<longrightarrow>
        evs k' = evs k @ [review_event q d ''deny'' (reason_code e)] \<or>
        (e = rverr AUDIT_SINK_FAILURE \<and> evs k' = evs k)"
  proof (cases r)
    case (Inl e)
    then show ?thesis using log by auto
  next
    case (Inr d')
    then show ?thesis using log release_returned[of P "Some rc" lookup L current q d k d'] fst by simp
  qed
  moreover have "\<exists>b b'. record_body q' \<noteq> record_body q \<and> p_canon P (record_body q) = Inr b \<and>
      p_canon P (record_body q') = Inr b' \<and> p_sha256 P b = p_sha256 P b'"
    if "returned r" "returned (fst (verify_release_authorization P None lookup L current q' d ()))" "q' \<noteq> q" for q'
  proof -
    have "review_ok P lookup L current q d" "review_ok P lookup L current q' d"
      using that(1,2) release_returned fst by (fastforce simp: returned_iff)+
    then show ?thesis
      using that(3) by (auto simp: review_ok_def record_digest_def record_body_inject)
  qed
  ultimately show ?thesis by blast
qed

text \<open>A review goes through end to end: a decision to release a record, made with its digest, valid
  fields and a valid window and signed by a reviewer whose key the lookup knows, is read back from
  its JSON text unchanged, and authorises the release at every time in its window.\<close>

lemma signed_decision_releases:
  assumes "sign_decision P sign d = Inr d'" "p_json_loads P data = Inr (review_object d')"
    and "key_pair P sign key" "lookup iss kid = Inr pem" "p_load_pem P pem = Inr (Ed25519Key key)"
    and "record_digest P q = Inr digest" "hex_sha256_re digest" "spiffe_id_re iss" "kid_re kid" "uuid_v7_re jti"
    and "d = \<lparr>rw_record_digest = PStr digest, rw_verdict = RELEASE, rw_reason = PStr reason, rw_reviewer_iss = PStr iss,
      rw_reviewer_kid = PStr kid, rw_iat = PInt iat, rw_nbf = PInt nbf, rw_exp = PInt expiry, rw_jti = PStr jti,
      rw_signature = PStr []\<rparr>"
    and "iat \<le> nbf" "nbf \<le> expiry" "timestamp_ok nbf" "timestamp_ok expiry" "seconds (expiry - nbf) \<le> rl_max_review_ttl L"
    and "0 \<le> rl_max_clock_skew L" "seconds nbf \<le> current" "current \<le> seconds expiry"
  shows "review_from_json P data = Inr d' \<and>
    verify_release_authorization P None lookup L current q d' () = (Inr d', ())"
proof -
  obtain input where input: "p_canon P (review_body d) = Inr input" "d' = d\<lparr>rw_signature := PStr (b64url (sign input))\<rparr>"
    using assms(1) by (auto simp: sign_decision_def sign_body_def)
  have "b64url (sign input) \<noteq> []"
    using assms(3) by (cases "sign input" rule: b64url.cases) (auto simp: key_pair_def)
  then have "review_shape d' = Inr ()"
    using assms(7-11) input(2) by (simp add: review_shape_def nonempty_def Let_def)
  moreover have "signed_by P lookup iss kid (rw_signature d') (review_body d')"
    using reviews.signed[where issuer_lookup = lookup and iss = iss and kid = kid, OF assms(1,3-5)] .
  ultimately have "verify_decision_inner P lookup L current q d' = Inr d'"
    using assms(6,11-) input(2)
    by (simp add: verify_decision_inner_def numeric_window_Inr issuer_signature_Inr)
  moreover have "rw_verdict d' = RELEASE" using input(2) assms(11) by simp
  ultimately show ?thesis
    using review_roundtrip[OF assms(2)] by (simp add: verify_release_authorization_def verify_decision_def)
qed

definition demo_quarantine :: quarantine_record where
  "demo_quarantine = \<lparr>qr_record_id = demo_uuid, qr_artifact_digest = demo_digest, qr_risk = RISK_HIGH,
     qr_data_class = CONFIDENTIAL, qr_requested_at = ''t0'', qr_requester_iss = ''spiffe://a'', qr_purpose_of_use = ''read''\<rparr>"

definition demo_review :: review where
  "demo_review = \<lparr>rw_record_digest = PStr demo_digest, rw_verdict = RELEASE, rw_reason = PStr [],
     rw_reviewer_iss = PStr ''spiffe://i'', rw_reviewer_kid = PStr ''ik'', rw_iat = PInt 0, rw_nbf = PInt 0,
     rw_exp = PInt 300, rw_jti = PStr demo_uuid, rw_signature = PStr ''AA''\<rparr>"

lemma demo_review_verified:
  "verify_decision_inner demo_platform (\<lambda>iss kid. Inr ''pem'') DEFAULT_REVIEW_LIMITS 0 demo_quarantine demo_review = Inr demo_review"
proof -
  have "uuid_v7_re demo_uuid" "hex_sha256_re demo_digest" by code_simp+
  then have "review_shape demo_review = Inr ()"
    by (simp add: review_shape_def demo_review_def nonempty_def Let_def) (simp add: pattern_defs)
  moreover have "record_digest demo_platform demo_quarantine = Inr demo_digest"
    by (simp add: record_digest_def demo_platform_def)
  ultimately show ?thesis
    by (simp add: verify_decision_inner_def numeric_window_Inr issuer_signature_Inr)
      (simp add: demo_review_def demo_signed DEFAULT_REVIEW_LIMITS_def timestamp_ok_def seconds_def minutes_def hours_def)
qed

theorem release_authorized_witness:
  "snd (verify_release_authorization demo_platform (Some list_sink) (\<lambda>iss kid. Inr ''pem'') DEFAULT_REVIEW_LIMITS 0
     demo_quarantine demo_review []) = [review_event demo_quarantine demo_review ''allow'' ''ok''] \<and>
   review_ok demo_platform (\<lambda>iss kid. Inr ''pem'') DEFAULT_REVIEW_LIMITS 0 demo_quarantine demo_review"
proof -
  have v: "verify_release_authorization demo_platform (Some list_sink) (\<lambda>iss kid. Inr ''pem'') DEFAULT_REVIEW_LIMITS 0
      demo_quarantine demo_review [] = (Inr demo_review, [review_event demo_quarantine demo_review ''allow'' ''ok''])"
    by (simp add: verify_release_authorization_def verify_decision_def demo_review_verified audited_Inr)
      (simp add: demo_review_def emit_kw_def list_sink_def)
  show ?thesis using release_authorized[OF list_sink_logs v] by (simp add: v)
qed

end
