(* ===== verification/Readmission.thy ===== *)
theory Readmission
  imports Demo
begin

text \<open>
  \<open>recovery_readmission.py\<close>: how a quarantined workload comes back, with a clean-room attestation
  that binds the quarantine, a new key and a baseline, signed by an attester.
\<close>

section \<open>Quarantine entries and attestations\<close>

abbreviation raerr :: "deny_reason \<Rightarrow> exn" where
  "raerr \<equiv> raise_as ReAdmissionError"

record quarantine_entry =
  qe_quarantine_id :: string
  qe_workload_iss :: string
  qe_last_kid :: string
  qe_quarantined_at :: datetime
  qe_reason :: string

definition new_quarantine_entry :: "string \<Rightarrow> string \<Rightarrow> string \<Rightarrow> datetime \<Rightarrow> string \<Rightarrow> exn + quarantine_entry" where
  "new_quarantine_entry quarantine_id workload_iss last_kid quarantined_at reason =
     (let m = raerr READMISSION_ATTESTATION_MALFORMED in
      bindE (guards [(uuid_v7_re quarantine_id, m), (spiffe_id_re workload_iss, m), (kid_re last_kid, m), (reason \<noteq> [], m)]) (\<lambda>_.
      Inr \<lparr>qe_quarantine_id = quarantine_id, qe_workload_iss = workload_iss, qe_last_kid = last_kid,
           qe_quarantined_at = quarantined_at, qe_reason = reason\<rparr>))"

record clean_room =
  ca_quarantine_id :: pyval
  ca_workload_iss :: pyval
  ca_new_kid :: pyval
  ca_baseline_digest :: pyval
  ca_attester_iss :: pyval
  ca_attester_kid :: pyval
  ca_iat :: pyval
  ca_nbf :: pyval
  ca_exp :: pyval
  ca_monitoring_period_seconds :: pyval
  ca_jti :: pyval
  ca_signature :: pyval

definition clean_room_body :: "clean_room \<Rightarrow> pyval" where
  "clean_room_body a =
     PDict [(''typ'', PStr ''wt-readmission/v0''), (''quarantine_id'', ca_quarantine_id a),
            (''workload_iss'', ca_workload_iss a), (''new_kid'', ca_new_kid a),
            (''baseline_digest'', ca_baseline_digest a), (''attester_iss'', ca_attester_iss a),
            (''attester_kid'', ca_attester_kid a), (''iat'', ca_iat a), (''nbf'', ca_nbf a), (''exp'', ca_exp a),
            (''monitoring_period_seconds'', ca_monitoring_period_seconds a), (''jti'', ca_jti a)]"

definition sign_attestation :: "platform \<Rightarrow> (string \<Rightarrow> string) \<Rightarrow> clean_room \<Rightarrow> exn + clean_room" where
  "sign_attestation P sign a =
     bindE (sign_body P sign (clean_room_body a)) (\<lambda>s. Inr (a\<lparr>ca_signature := s\<rparr>))"

definition clean_room_object :: "clean_room \<Rightarrow> pyval" where
  "clean_room_object a =
     PDict [(''quarantine_id'', ca_quarantine_id a), (''workload_iss'', ca_workload_iss a), (''new_kid'', ca_new_kid a),
            (''baseline_digest'', ca_baseline_digest a), (''attester_iss'', ca_attester_iss a),
            (''attester_kid'', ca_attester_kid a), (''iat'', ca_iat a), (''nbf'', ca_nbf a), (''exp'', ca_exp a),
            (''monitoring_period_seconds'', ca_monitoring_period_seconds a), (''jti'', ca_jti a),
            (''signature'', ca_signature a)]"

definition clean_room_fields :: "string list" where
  "clean_room_fields =
     [''quarantine_id'', ''workload_iss'', ''new_kid'', ''baseline_digest'', ''attester_iss'', ''attester_kid'',
      ''iat'', ''nbf'', ''exp'', ''monitoring_period_seconds'', ''jti'', ''signature'']"

definition clean_room_from_json :: "platform \<Rightarrow> string \<Rightarrow> exn + clean_room" where
  "clean_room_from_json P data =
     (case p_json_loads P data of
        Inl e \<Rightarrow> if value_or_type_error e then Inl (raerr READMISSION_ATTESTATION_MALFORMED) else Inl e
      | Inr obj \<Rightarrow>
          if \<not> is_dict obj then Inl (raerr READMISSION_ATTESTATION_MALFORMED)
          else let d = dict_of obj in
            if \<not> list_all (has_key d) clean_room_fields then Inl (raerr READMISSION_ATTESTATION_MALFORMED)
            else Inr \<lparr>ca_quarantine_id = item d ''quarantine_id'', ca_workload_iss = item d ''workload_iss'',
                      ca_new_kid = item d ''new_kid'', ca_baseline_digest = item d ''baseline_digest'',
                      ca_attester_iss = item d ''attester_iss'', ca_attester_kid = item d ''attester_kid'',
                      ca_iat = item d ''iat'', ca_nbf = item d ''nbf'', ca_exp = item d ''exp'',
                      ca_monitoring_period_seconds = item d ''monitoring_period_seconds'',
                      ca_jti = item d ''jti'', ca_signature = item d ''signature''\<rparr>)"

text \<open>\<open>isinstance(v, int) and v >= 0\<close>, which a boolean passes too.\<close>

fun nonneg_int :: "pyval \<Rightarrow> bool" where
  "nonneg_int (PInt n) = (n \<ge> 0)"
| "nonneg_int (PBool b) = True"
| "nonneg_int _ = False"

definition clean_room_shape :: "clean_room \<Rightarrow> exn + unit" where
  "clean_room_shape a =
     (let m = raerr READMISSION_ATTESTATION_MALFORMED in
      guards
       [(str_test uuid_v7_re (ca_quarantine_id a), m), (str_test spiffe_id_re (ca_workload_iss a), m),
        (str_test kid_re (ca_new_kid a), m), (str_test hex_sha256_re (ca_baseline_digest a), m),
        (str_test spiffe_id_re (ca_attester_iss a), m), (str_test kid_re (ca_attester_kid a), m),
        (str_test uuid_v7_re (ca_jti a), m), (is_int (ca_iat a), m), (is_int (ca_nbf a), m), (is_int (ca_exp a), m),
        (nonneg_int (ca_monitoring_period_seconds a), m), (str_test nonempty (ca_signature a), m)])"


section \<open>Re-admission\<close>

record readmission_grant =
  rg_workload_iss :: string
  rg_new_kid :: string
  rg_monitoring_period :: timedelta
  rg_baseline_digest :: string
  rg_granted_at :: datetime

record readmission_limits =
  ra_max_clock_skew :: timedelta
  ra_max_attestation_ttl :: timedelta

definition DEFAULT_READMISSION_LIMITS :: readmission_limits where
  "DEFAULT_READMISSION_LIMITS = \<lparr>ra_max_clock_skew = seconds 60, ra_max_attestation_ttl = hours 24\<rparr>"

definition verify_readmission ::
  "platform \<Rightarrow> (string \<Rightarrow> string \<Rightarrow> exn + string) \<Rightarrow> readmission_limits \<Rightarrow> datetime \<Rightarrow> quarantine_entry \<Rightarrow> clean_room \<Rightarrow>
   exn + readmission_grant" where
  "verify_readmission P issuer_lookup L current quarantine a =
     bindE (clean_room_shape a) (\<lambda>_.
     bindE (guards
       [(ca_quarantine_id a = PStr (qe_quarantine_id quarantine), raerr READMISSION_ATTESTATION_MISMATCH),
        (ca_workload_iss a = PStr (qe_workload_iss quarantine), raerr READMISSION_ATTESTATION_MISMATCH),
        (ca_new_kid a \<noteq> PStr (qe_last_kid quarantine), raerr READMISSION_KID_REUSE)]) (\<lambda>_.
     bindE (numeric_window (raerr READMISSION_ATTESTATION_MALFORMED) (raerr READMISSION_ATTESTATION_MALFORMED)
              (raerr READMISSION_ATTESTATION_EXPIRED) (raerr READMISSION_ATTESTATION_EXPIRED)
              (int_of (ca_iat a)) (int_of (ca_nbf a)) (int_of (ca_exp a)) current
              (ra_max_clock_skew L) (ra_max_attestation_ttl L)) (\<lambda>_.
     bindE (issuer_signature P issuer_lookup (raerr READMISSION_ATTESTATION_UNKNOWN_ISSUER)
              (raerr READMISSION_ATTESTATION_SIGNATURE_INVALID)
              (str_of (ca_attester_iss a)) (str_of (ca_attester_kid a)) (ca_signature a) (clean_room_body a)) (\<lambda>_.
     bindE (timedelta_of (ca_monitoring_period_seconds a)) (\<lambda>monitoring_period.
     Inr \<lparr>rg_workload_iss = str_of (ca_workload_iss a), rg_new_kid = str_of (ca_new_kid a),
          rg_monitoring_period = monitoring_period, rg_baseline_digest = str_of (ca_baseline_digest a),
          rg_granted_at = current\<rparr>)))))"


section \<open>Facts\<close>

text \<open>A well-formed attestation by its values.\<close>

definition clean_room_of ::
  "string \<Rightarrow> string \<Rightarrow> string \<Rightarrow> string \<Rightarrow> string \<Rightarrow> string \<Rightarrow> int \<Rightarrow> int \<Rightarrow> int \<Rightarrow> int \<Rightarrow> string \<Rightarrow> string \<Rightarrow> clean_room" where
  "clean_room_of qid workload kid baseline attester akid iat nbf expiry monitoring jti signature =
     \<lparr>ca_quarantine_id = PStr qid, ca_workload_iss = PStr workload, ca_new_kid = PStr kid,
      ca_baseline_digest = PStr baseline, ca_attester_iss = PStr attester, ca_attester_kid = PStr akid,
      ca_iat = PInt iat, ca_nbf = PInt nbf, ca_exp = PInt expiry, ca_monitoring_period_seconds = PInt monitoring,
      ca_jti = PStr jti, ca_signature = PStr signature\<rparr>"

text \<open>What the document of the module asks of a re-admission, in no order.\<close>

definition readmissible ::
  "platform \<Rightarrow> (string \<Rightarrow> string \<Rightarrow> exn + string) \<Rightarrow> readmission_limits \<Rightarrow> datetime \<Rightarrow> quarantine_entry \<Rightarrow> clean_room \<Rightarrow> bool" where
  "readmissible P lookup L current q a \<longleftrightarrow>
     clean_room_shape a = Inr () \<and>
     str_of (ca_quarantine_id a) = qe_quarantine_id q \<and> str_of (ca_workload_iss a) = qe_workload_iss q \<and>
     str_of (ca_new_kid a) \<noteq> qe_last_kid q \<and>
     int_of (ca_iat a) \<le> int_of (ca_nbf a) \<and> int_of (ca_nbf a) \<le> int_of (ca_exp a) \<and>
     timestamp_ok (int_of (ca_nbf a)) \<and> timestamp_ok (int_of (ca_exp a)) \<and>
     seconds (int_of (ca_exp a) - int_of (ca_nbf a)) \<le> ra_max_attestation_ttl L \<and>
     seconds (int_of (ca_nbf a)) \<le> current + ra_max_clock_skew L \<and>
     current \<le> seconds (int_of (ca_exp a)) + ra_max_clock_skew L \<and>
     signed_by P lookup (str_of (ca_attester_iss a)) (str_of (ca_attester_kid a)) (ca_signature a) (clean_room_body a)"

lemma clean_room_shape_types:
  "clean_room_shape a = Inr () \<Longrightarrow> is_str (ca_quarantine_id a) \<and> is_str (ca_workload_iss a) \<and> is_str (ca_new_kid a)"
  by (auto simp: clean_room_shape_def Let_def str_test_iff)

lemma PStr_str_of: "is_str v \<Longrightarrow> v = PStr s \<longleftrightarrow> str_of v = s"
  by (cases v) auto

lemma verify_readmission_Inr:
  "verify_readmission P lookup L current q a = Inr g \<longleftrightarrow>
     readmissible P lookup L current q a \<and>
     (\<exists>m. timedelta_of (ca_monitoring_period_seconds a) = Inr m \<and>
        g = \<lparr>rg_workload_iss = qe_workload_iss q, rg_new_kid = str_of (ca_new_kid a), rg_monitoring_period = m,
             rg_baseline_digest = str_of (ca_baseline_digest a), rg_granted_at = current\<rparr>)"
proof (cases "clean_room_shape a = Inr ()")
  case True
  note t = clean_room_shape_types[OF True]
  have eqs: "ca_quarantine_id a = PStr s \<longleftrightarrow> str_of (ca_quarantine_id a) = s"
    "ca_workload_iss a = PStr s \<longleftrightarrow> str_of (ca_workload_iss a) = s"
    "ca_new_kid a = PStr s \<longleftrightarrow> str_of (ca_new_kid a) = s" for s
    using t by (simp_all add: PStr_str_of)
  show ?thesis
    unfolding verify_readmission_def readmissible_def bindE_Inr guards_Inr numeric_window_Inr issuer_signature_Inr
    by (auto simp: True eqs)
next
  case False
  then show ?thesis by (auto simp: verify_readmission_def readmissible_def)
qed

lemma clean_room_roundtrip:
  assumes "p_json_loads P data = Inr (clean_room_object a)"
  shows "clean_room_from_json P data = Inr a"
  using assms
  by (simp add: clean_room_from_json_def clean_room_object_def clean_room_fields_def has_key_def item_def Let_def)

interpretation clean_rooms: signed_artifact clean_room_body ca_signature sign_attestation clean_room_object clean_room_from_json
  by unfold_locales (auto simp: sign_attestation_def clean_room_body_def intro: clean_room_roundtrip)


section \<open>Properties\<close>

text \<open>Re-admission is exact: an attestation gets a grant exactly if it is well formed, bound to the
  quarantine entry and its workload, names another key than the quarantined one, is in its window
  and signed by the attester, and its monitoring period is a time span; the grant then names the
  quarantined workload, the attested key and baseline, and the present.\<close>

lemma readmission_exact:
  "(\<forall>g. verify_readmission P lookup L current q a = Inr g \<longrightarrow>
      rg_workload_iss g = qe_workload_iss q \<and> rg_new_kid g \<noteq> qe_last_kid q \<and> rg_granted_at g = current \<and>
      rg_new_kid g = str_of (ca_new_kid a) \<and> rg_baseline_digest g = str_of (ca_baseline_digest a) \<and>
      timedelta_of (ca_monitoring_period_seconds a) = Inr (rg_monitoring_period g)) \<and>
   (returned (verify_readmission P lookup L current q a) \<longleftrightarrow>
      readmissible P lookup L current q a \<and> returned (timedelta_of (ca_monitoring_period_seconds a)))"
  by (auto simp: verify_readmission_Inr returned_iff readmissible_def)

text \<open>A monitoring period beyond the range of \<open>timedelta\<close> passes the shape check, and raises
  \<open>OverflowError\<close> after the signature has been verified; the boolean \<open>True\<close> is one second.\<close>

lemma monitoring_period_overflow:
  assumes "readmissible P lookup L current q a" "timedelta_of (ca_monitoring_period_seconds a) = Inl e"
  shows "verify_readmission P lookup L current q a = Inl e"
proof -
  note t = clean_room_shape_types[of a]
  have "clean_room_shape a = Inr ()" using assms(1) by (simp add: readmissible_def)
  moreover have "ca_quarantine_id a = PStr (qe_quarantine_id q)" "ca_workload_iss a = PStr (qe_workload_iss q)"
    "ca_new_kid a \<noteq> PStr (qe_last_kid q)"
    using assms(1) t by (simp_all add: readmissible_def PStr_str_of)
  moreover have "numeric_window x1 x2 x3 x4 (int_of (ca_iat a)) (int_of (ca_nbf a)) (int_of (ca_exp a)) current
      (ra_max_clock_skew L) (ra_max_attestation_ttl L) = Inr ()" for x1 x2 x3 x4
    using assms(1) by (simp add: readmissible_def numeric_window_Inr)
  moreover have "issuer_signature P lookup x1 x2 (str_of (ca_attester_iss a)) (str_of (ca_attester_kid a))
      (ca_signature a) (clean_room_body a) = Inr ()" for x1 x2
    using assms(1) by (simp add: readmissible_def issuer_signature_Inr)
  ultimately show ?thesis using assms(2) by (simp add: verify_readmission_def guards_Inr)
qed

end
