(* ===== verification/EnvelopeAdapter.thy ===== *)
theory EnvelopeAdapter
  imports EnvelopeDemo Issuance
begin

text \<open>
  \<open>integrations/mcp/envelope_adapter.py\<close>: JSON-RPC requests and responses as the payload of an
  envelope, and the assembly and signing of envelopes. \<open>None\<close> is \<open>PNone\<close>.
\<close>

section \<open>Requests and responses\<close>

abbreviation adapter_error :: exn where
  "adapter_error \<equiv> repo_error ''MCPAdapterError''"

record mcp_request =
  mq_method :: string
  mq_params :: pyval
  mq_id :: pyval

record mcp_response =
  mr_id :: pyval
  mr_result :: pyval
  mr_error :: pyval

text \<open>\<open>isinstance(v, (dict, list))\<close> and \<open>isinstance(v, (int, str))\<close>, or \<open>None\<close>; a boolean is an \<open>int\<close>.\<close>

fun params_type :: "pyval \<Rightarrow> bool" where
  "params_type PNone = True"
| "params_type (PDict d) = True"
| "params_type (PList xs) = True"
| "params_type _ = False"

fun id_type :: "pyval \<Rightarrow> bool" where
  "id_type PNone = True"
| "id_type (PInt n) = True"
| "id_type (PBool b) = True"
| "id_type (PStr s) = True"
| "id_type _ = False"

definition new_mcp_request :: "pyval \<Rightarrow> pyval \<Rightarrow> pyval \<Rightarrow> exn + mcp_request" where
  "new_mcp_request method params rid =
     bindE (guards [(str_test nonempty method, adapter_error), (params_type params, adapter_error),
                    (id_type rid, adapter_error)]) (\<lambda>_.
     Inr \<lparr>mq_method = str_of method, mq_params = params, mq_id = rid\<rparr>)"

definition new_mcp_response :: "pyval \<Rightarrow> pyval \<Rightarrow> pyval \<Rightarrow> exn + mcp_response" where
  "new_mcp_response rid result error =
     bindE (guards
       [(id_type rid, adapter_error),
        (\<not> (result \<noteq> PNone) = (error \<noteq> PNone), adapter_error),
        (error \<noteq> PNone \<longrightarrow> is_dict error, adapter_error),
        (error \<noteq> PNone \<longrightarrow> has_key (dict_of error) ''code'' \<and> has_key (dict_of error) ''message'', adapter_error)]) (\<lambda>_.
     Inr \<lparr>mr_id = rid, mr_result = result, mr_error = error\<rparr>)"

definition mcp_request_to_payload :: "mcp_request \<Rightarrow> pyval" where
  "mcp_request_to_payload r =
     PDict ([(''jsonrpc'', PStr ''2.0''), (''method'', PStr (mq_method r))] @
            (if mq_params r \<noteq> PNone then [(''params'', mq_params r)] else []) @
            (if mq_id r \<noteq> PNone then [(''id'', mq_id r)] else []))"

text \<open>\<open>payload.get(k)\<close>\<close>

definition get_or_none :: "(string \<times> pyval) list \<Rightarrow> string \<Rightarrow> pyval" where
  "get_or_none d k = (case map_of d k of None \<Rightarrow> PNone | Some v \<Rightarrow> v)"

definition payload_to_mcp_request :: "pyval \<Rightarrow> exn + mcp_request" where
  "payload_to_mcp_request payload =
     (if \<not> is_dict payload then Inl adapter_error
      else let d = dict_of payload in
        if \<not> py_eq (PStr ''2.0'') (get_or_none d ''jsonrpc'') then Inl adapter_error
        else if \<not> has_key d ''method'' then Inl adapter_error
        else new_mcp_request (item d ''method'') (get_or_none d ''params'') (get_or_none d ''id''))"

definition mcp_response_to_payload :: "mcp_response \<Rightarrow> pyval" where
  "mcp_response_to_payload r =
     PDict [(''jsonrpc'', PStr ''2.0''), (''id'', mr_id r),
            (if mr_result r \<noteq> PNone then (''result'', mr_result r) else (''error'', mr_error r))]"

text \<open>The test \<open>"result" in payload == ("error" in payload)\<close> is a chained comparison: \<open>"result" in
  payload and payload == ("error" in payload)\<close>.\<close>

definition payload_to_mcp_response :: "pyval \<Rightarrow> exn + mcp_response" where
  "payload_to_mcp_response payload =
     (if \<not> is_dict payload then Inl adapter_error
      else let d = dict_of payload in
        if \<not> py_eq (PStr ''2.0'') (get_or_none d ''jsonrpc'') then Inl adapter_error
        else if has_key d ''result'' \<and> py_eq payload (PBool (has_key d ''error'')) then Inl adapter_error
        else new_mcp_response (get_or_none d ''id'') (get_or_none d ''result'') (get_or_none d ''error''))"


section \<open>Envelopes\<close>

text \<open>The recipient of an error reply is taken from an envelope that was not accepted, so it can be any
  value.\<close>

record envelope_fields =
  ef_sender_spiffe_id :: string
  ef_recipient_spiffe_id :: pyval
  ef_purpose_of_use :: string
  ef_kid :: string
  ef_capability_token :: string
  ef_message_id :: string
  ef_nonce :: string
  ef_issued_at :: datetime
  ef_ttl :: timedelta

definition new_envelope_fields :: "envelope_fields \<Rightarrow> exn + envelope_fields" where
  "new_envelope_fields f =
     bindE (guards
       [(ef_sender_spiffe_id f \<noteq> [], adapter_error), (truthy (ef_recipient_spiffe_id f), adapter_error),
        (ef_purpose_of_use f \<noteq> [], adapter_error), (ef_kid f \<noteq> [], adapter_error),
        (ef_capability_token f \<noteq> [], adapter_error), (ef_message_id f \<noteq> [], adapter_error),
        (ef_nonce f \<noteq> [], adapter_error), (\<not> ef_ttl f \<le> 0, adapter_error)]) (\<lambda>_. Inr f)"

definition envelope_dict :: "platform \<Rightarrow> pyval \<Rightarrow> envelope_fields \<Rightarrow> string \<Rightarrow> (string \<times> pyval) list" where
  "envelope_dict P payload f digest =
     [(''version'', PStr ''v0''), (''message_id'', PStr (ef_message_id f)),
      (''sender_spiffe_id'', PStr (ef_sender_spiffe_id f)),
      (''recipient_spiffe_id'', ef_recipient_spiffe_id f),
      (''issued_at'', PStr (p_isoformat P (ef_issued_at f))),
      (''expires_at'', PStr (p_isoformat P (ef_issued_at f + ef_ttl f))),
      (''nonce'', PStr (ef_nonce f)), (''capability_token'', PStr (ef_capability_token f)),
      (''purpose_of_use'', PStr (ef_purpose_of_use f)), (''kid'', PStr (ef_kid f)),
      (''alg'', PStr ''Ed25519''), (''payload'', payload), (''payload_digest'', PStr digest)]"

definition build_envelope :: "platform \<Rightarrow> pyval \<Rightarrow> envelope_fields \<Rightarrow> exn + (string \<times> pyval) list" where
  "build_envelope P payload f =
     (if \<not> is_dict payload then Inl adapter_error
      else bindE (p_canon P payload) (\<lambda>body. Inr (envelope_dict P payload f (p_sha256 P body))))"

definition sign_envelope ::
  "platform \<Rightarrow> (string \<Rightarrow> string) \<Rightarrow> (string \<times> pyval) list \<Rightarrow> exn + (string \<times> pyval) list" where
  "sign_envelope P sign envelope =
     (let unsigned = (if has_key envelope ''signature'' then unsigned_part envelope else envelope) in
      bindE (sign_body P sign (PDict unsigned)) (\<lambda>signature. Inr (unsigned @ [(''signature'', signature)])))"

definition unwrap_request :: "(string \<times> pyval) list \<Rightarrow> exn + mcp_request" where
  "unwrap_request envelope = bindE (getitem envelope ''payload'') payload_to_mcp_request"

definition unwrap_response :: "(string \<times> pyval) list \<Rightarrow> exn + mcp_response" where
  "unwrap_response envelope = bindE (getitem envelope ''payload'') payload_to_mcp_response"

definition envelope_from_json :: "platform \<Rightarrow> string \<Rightarrow> exn + (string \<times> pyval) list" where
  "envelope_from_json P data =
     (case p_json_loads P data of
        Inl e \<Rightarrow> if value_or_type_error e then Inl adapter_error else Inl e
      | Inr obj \<Rightarrow> if \<not> is_dict obj then Inl adapter_error else Inr (dict_of obj))"


section \<open>Facts\<close>

lemma new_mcp_request_Inr:
  "new_mcp_request method params rid = Inr r \<longleftrightarrow>
     (\<exists>m. method = PStr m \<and> m \<noteq> [] \<and> params_type params \<and> id_type rid \<and>
        r = \<lparr>mq_method = m, mq_params = params, mq_id = rid\<rparr>)"
  by (auto simp: new_mcp_request_def str_test_iff nonempty_def)

lemma request_payload_roundtrip:
  assumes "new_mcp_request method params rid = Inr r"
  shows "payload_to_mcp_request (mcp_request_to_payload r) = Inr r"
  using assms unfolding new_mcp_request_Inr
  by (auto simp: payload_to_mcp_request_def mcp_request_to_payload_def get_or_none_def has_key_def item_def Let_def
      new_mcp_request_Inr)

lemma response_payload_roundtrip:
  assumes "new_mcp_response rid result error = Inr r"
  shows "payload_to_mcp_response (mcp_response_to_payload r) = Inr r"
proof -
  have r: "r = \<lparr>mr_id = rid, mr_result = result, mr_error = error\<rparr>" "(result = PNone) \<noteq> (error = PNone)"
    using assms by (auto simp: new_mcp_response_def)
  have "payload_to_mcp_response (mcp_response_to_payload r) = new_mcp_response rid result error"
    using r(2) by (cases "result = PNone")
      (simp_all add: r(1) payload_to_mcp_response_def mcp_response_to_payload_def get_or_none_def has_key_def Let_def py_eq_def)
  then show ?thesis using assms by simp
qed

text \<open>The check that a response carries not both members never fires, since it compares the payload
  itself with a boolean: a response with a result and a \<open>null\<close> error is accepted.\<close>

lemma response_check_never_fires:
  "payload_to_mcp_response (PDict [(''jsonrpc'', PStr ''2.0''), (''id'', PInt 1), (''result'', PInt 7), (''error'', PNone)]) =
     Inr \<lparr>mr_id = PInt 1, mr_result = PInt 7, mr_error = PNone\<rparr>"
  by (simp add: payload_to_mcp_response_def get_or_none_def has_key_def Let_def py_eq_def new_mcp_response_def)

text \<open>Signing an envelope: the verifier's signing input is what was signed.\<close>

lemma sign_envelope_signed:
  assumes "sign_envelope P sign env = Inr env'" "key_pair P sign key"
    and "map_of env ''kid'' = Some (PStr kid)" "d_key_lookup D kid = Inr pem" "p_load_pem P pem = Inr (Ed25519Key key)"
    and "\<not> has_key env ''signature''"
  shows "envelope_signed P D env'" "\<exists>s. env' = env @ [(''signature'', s)]"
proof -
  obtain input where i: "p_canon P (PDict env) = Inr input" "env' = env @ [(''signature'', PStr (b64url (sign input)))]"
    using assms(1,6) by (auto simp: sign_envelope_def sign_body_def Let_def)
  have "\<forall>p\<in>set env. fst p \<noteq> ''signature''"
    using assms(6) by (auto simp: has_key_def map_of_eq_None_iff image_iff)
  then have "unsigned_part env' = env"
    by (simp add: unsigned_part_def i(2) case_prod_beta filter_id_conv)
  moreover have "map_of env' ''signature'' = Some (PStr (b64url (sign input)))" "map_of env' ''kid'' = Some (PStr kid)"
    using assms(3,6) i(2) by (auto simp: has_key_def map_add_def split: option.splits)
  moreover have "decode_base64url (PStr (b64url (sign input))) = Inr (sign input)" "p_verify P key (sign input) input"
    using assms(2) by (auto simp: key_pair_def base64url_roundtrip)
  ultimately show "envelope_signed P D env'" using i(1) assms(4,5) unfolding envelope_signed_def by blast
  show "\<exists>s. env' = env @ [(''signature'', s)]" using i(2) by blast
qed

lemma build_envelope_Inr:
  "build_envelope P payload f = Inr env \<longleftrightarrow>
     is_dict payload \<and> (\<exists>body. p_canon P payload = Inr body \<and> env = envelope_dict P payload f (p_sha256 P body))"
  by (auto simp: build_envelope_def)

lemma envelope_dict_unsigned: "\<not> has_key (envelope_dict P payload f digest) ''signature''"
  by (simp add: envelope_dict_def has_key_def)

lemma envelope_dict_required:
  "k \<in> set REQUIRED_FIELDS \<Longrightarrow> has_key (envelope_dict P payload f digest @ [(''signature'', s)]) k"
  by (auto simp: envelope_dict_def has_key_def REQUIRED_FIELDS_def)

lemma envelope_dict_depth:
  "ef_recipient_spiffe_id f = PStr r \<Longrightarrow> json_depth (PDict (envelope_dict P payload f digest @ [(''signature'', PStr s)])) = Suc (json_depth payload)"
  by (simp add: envelope_dict_def)

end
