(* ===== verification/EndToEnd.thy ===== *)
theory EndToEnd
  imports EnvelopeAdapter
begin

text \<open>
  The kernel end to end: a capability issuer, a sender that assembles and signs an envelope with the
  adapter, and the verifier. \<open>verify_envelope_sound\<close> says what an accepted envelope establishes;
  here is the other direction, that the honest parties are understood.
\<close>

lemma record_event_returns:
  "\<forall>g q. fst (record_event D g q) = Inr () \<Longrightarrow> \<exists>q'. record_event D g q = (Inr (), q')"
  by (metis prod.collapse)

lemma honest_front:
  assumes "build_envelope P payload f = Inr env" "sign_envelope P sign env = Inr env'"
    and "p_canon P payload = Inr body" "hex_sha256_re (p_sha256 P body)"
    and "spiffe_id_re (ef_sender_spiffe_id f)" "ef_recipient_spiffe_id f = PStr rcpt" "spiffe_id_re rcpt"
    and "key_pair P sign key" "d_key_lookup D (ef_kid f) = Inr pem" "p_load_pem P pem = Inr (Ed25519Key key)"
    and "uuid_v7_re (ef_message_id f)" "nonce_re (ef_nonce f)" "kid_re (ef_kid f)"
    and "int (json_depth payload) < max_json_depth cfg"
    and "parse_rfc3339 P (PStr (p_isoformat P (ef_issued_at f))) = Inr ia"
    and "parse_rfc3339 P (PStr (p_isoformat P (ef_issued_at f + ef_ttl f))) = Inr ea"
    and "check_window cfg ia ea t = Inr ()"
  shows "front_ok P D cfg t (PDict env') ia ea" "\<exists>s. env' = envelope_dict P payload f (p_sha256 P body) @ [(''signature'', PStr s)]"
proof -
  let ?env = "envelope_dict P payload f (p_sha256 P body)"
  have env: "env = ?env" using assms(1,3) by (simp add: build_envelope_Inr)
  have kid: "map_of env ''kid'' = Some (PStr (ef_kid f))" by (simp add: env envelope_dict_def)
  note unsigned = envelope_dict_unsigned[of P payload f "p_sha256 P body", folded env]
  have signed: "envelope_signed P D env'"
    by (rule sign_envelope_signed(1)[OF assms(2,8) kid assms(9,10) unsigned])
  obtain s where s: "env' = ?env @ [(''signature'', PStr s)]"
    using assms(2) unsigned env by (auto simp: sign_envelope_def sign_body_def Let_def)
  have static: "static_ok env'"
    using assms(4-7,11-13) by (simp add: s static_ok_def envelope_dict_def)
  have times: "times_read P env' ia ea"
    using assms(15,16) by (simp add: s times_read_def envelope_dict_def)
  have digest: "digest_matches P env'"
    using assms(3) by (simp add: s digest_matches_def envelope_dict_def)
  have "int (json_depth (PDict env')) \<le> max_json_depth cfg"
    using assms(6,14) by (simp add: s envelope_dict_depth del: json_depth.simps)
  then show "front_ok P D cfg t (PDict env') ia ea"
    using static times digest signed assms(17) envelope_dict_required[of _ P payload f "p_sha256 P body" "PStr s"]
    by (simp add: front_ok_def s del: json_depth.simps)
  show "\<exists>s. env' = ?env @ [(''signature'', PStr s)]" using s by blast
qed

text \<open>An envelope that passes the checks before the token and carries an issued token for its sender,
  recipient, purpose and digest is accepted if its nonce is new and the audit sink works.\<close>

lemma issued_envelope_accepted:
  assumes "issue rnd dumps sign_i None I sub aud scope (p_sha256 P body) jti (Some (seconds n)) minted rb None () = (Inr token, ())"
    and "new_issuer iss ikid dttl dskew pol = Inr I" "issue_jti rnd minted rb jti = Inr j"
    and "seconds n \<le> max_capability_ttl cfg" "seconds 1 \<le> max_clock_skew cfg"
    and "float_seconds_exact rnd" "is_clock_skew I \<le> minted" "minted + seconds n < 2 ^ 52"
    and "json_faithful P dumps (token_header I)"
      "json_faithful P dumps (token_payload I sub aud scope ((minted - is_clock_skew I) div 1000000)
         ((minted - is_clock_skew I) div 1000000 + n) j (p_sha256 P body) None)"
    and "key_pair P sign_i ikey" "d_issuer_lookup D iss ikid = Inr ipem" "p_load_pem P ipem = Inr (Ed25519Key ikey)"
    and "utf8_length token \<le> MAX_TOKEN_BYTES" "check_revocation (d_revocation D) j = Inr ()"
    and "minted - is_clock_skew I \<le> t" "t \<le> minted - is_clock_skew I + seconds n"
    and "front_ok P D cfg t (PDict env) ia ea"
    and "map_of env ''sender_spiffe_id'' = Some (PStr sub)" "map_of env ''recipient_spiffe_id'' = Some (PStr aud)"
    "map_of env ''purpose_of_use'' = Some (PStr scope)" "map_of env ''payload_digest'' = Some (PStr (p_sha256 P body))"
    "map_of env ''capability_token'' = Some (PStr token)" "map_of env ''nonce'' = Some (PStr nonce)"
    and "d_mark_if_new D (sub, nonce) (max (ea - t) (seconds 0)) c = (Inr True, c')"
    and "\<forall>g q. fst (record_event D g q) = Inr ()"
  shows "\<exists>cl k'. verify_envelope P D cfg t (PDict env) c k = (Inr cl, c', k') \<and> cl_iss cl = iss \<and> cl_sub cl = sub \<and>
    cl_aud cl = aud \<and> cl_scope cl = scope \<and> cl_envelope_digest cl = p_sha256 P body \<and> cl_jti cl = j"
proof -
  obtain cl where cl: "verify_capability_token P (PStr token) env (d_issuer_lookup D) t (max_clock_skew cfg)
      (max_capability_ttl cfg) (d_revocation D) = Inr cl"
    "cl_iss cl = iss" "cl_sub cl = sub" "cl_aud cl = aud" "cl_scope cl = scope" "cl_jti cl = j"
    "cl_envelope_digest cl = p_sha256 P body"
    using issued_token_verifies[where lookup = "d_issuer_lookup D" and rl = "d_revocation D" and env = env and t = t,
        OF assms(1-3) refl assms(4-15) assms(19-22) disjI1[OF refl] assms(16,17)] by blast
  have cap: "verify_cap P D cfg t (PDict env) = Inr cl" using cl(1) assms(23) by (simp add: verify_cap_def)
  have nonce: "reservation_key (PDict env) = (sub, nonce)" using assms(19,24) by (simp add: reservation_key_def)
  obtain k1 where k1: "record_event D (allow_cap_event (PDict env) cl) k = (Inr (), k1)"
    using record_event_returns[OF assms(26)] by blast
  obtain k' where "record_event D (allow_event (PDict env) cl) k1 = (Inr (), k')"
    using record_event_returns[OF assms(26)] by blast
  then have "verify_envelope P D cfg t (PDict env) c k = (Inr cl, c', k')"
    unfolding verify_envelope_accepts using assms(18) cap k1 assms(25) nonce by auto
  then show ?thesis using cl by blast
qed

text \<open>Honest parties are understood: if an issuer minted a token for a sender, recipient, purpose
  and payload digest, and the sender put it with that payload into an envelope and signed it, then
  at every time in both windows a verifier that knows the two keys, whose cache does not hold the
  nonce and whose sink works accepts the envelope, and the claims it returns are those requested.\<close>

lemma honest_message_accepted:
  assumes "issue rnd dumps sign_i None I sub aud scope (p_sha256 P body) jti (Some (seconds n)) minted rb None () = (Inr token, ())"
    and "new_issuer iss ikid dttl dskew pol = Inr I" "issue_jti rnd minted rb jti = Inr j"
    and "seconds n \<le> max_capability_ttl cfg" "seconds 1 \<le> max_clock_skew cfg"
    and "float_seconds_exact rnd" "is_clock_skew I \<le> minted" "minted + seconds n < 2 ^ 52"
    and "json_faithful P dumps (token_header I)"
      "json_faithful P dumps (token_payload I sub aud scope ((minted - is_clock_skew I) div 1000000)
         ((minted - is_clock_skew I) div 1000000 + n) j (p_sha256 P body) None)"
    and "key_pair P sign_i ikey" "d_issuer_lookup D iss ikid = Inr ipem" "p_load_pem P ipem = Inr (Ed25519Key ikey)"
    and "utf8_length token \<le> MAX_TOKEN_BYTES" "check_revocation (d_revocation D) j = Inr ()"
    and "p_canon P payload = Inr body" "build_envelope P payload f = Inr env" "sign_envelope P sign env = Inr env'"
    and "ef_sender_spiffe_id f = sub" "ef_recipient_spiffe_id f = PStr aud" "ef_purpose_of_use f = scope" "ef_capability_token f = token"
    and "key_pair P sign key" "d_key_lookup D (ef_kid f) = Inr pem" "p_load_pem P pem = Inr (Ed25519Key key)"
    and "uuid_v7_re (ef_message_id f)" "nonce_re (ef_nonce f)" "kid_re (ef_kid f)" "int (json_depth payload) < max_json_depth cfg"
    and "parse_rfc3339 P (PStr (p_isoformat P (ef_issued_at f))) = Inr (ef_issued_at f)"
      "parse_rfc3339 P (PStr (p_isoformat P (ef_issued_at f + ef_ttl f))) = Inr (ef_issued_at f + ef_ttl f)"
    and "0 < ef_ttl f" "ef_ttl f \<le> max_envelope_ttl cfg" "ef_issued_at f \<le> t" "t \<le> ef_issued_at f + ef_ttl f"
    and "minted - is_clock_skew I \<le> t" "t \<le> minted - is_clock_skew I + seconds n"
    and "d_mark_if_new D (sub, ef_nonce f) (max (ef_issued_at f + ef_ttl f - t) (seconds 0)) c = (Inr True, c')"
    and "\<forall>g q. fst (record_event D g q) = Inr ()"
  shows "\<exists>cl k'. verify_envelope P D cfg t (PDict env') c k = (Inr cl, c', k') \<and> cl_iss cl = iss \<and> cl_sub cl = sub \<and>
    cl_aud cl = aud \<and> cl_scope cl = scope \<and> cl_envelope_digest cl = p_sha256 P body \<and> cl_jti cl = j"
proof -
  note req = issue_Inr(1)[OF assms(1), simplified, unfolded request_ok_Inr]
  have window: "check_window cfg (ef_issued_at f) (ef_issued_at f + ef_ttl f) t = Inr ()"
    using assms(5,32-35) by (auto simp: check_window_Inr seconds_def)
  have front: "front_ok P D cfg t (PDict env') (ef_issued_at f) (ef_issued_at f + ef_ttl f)"
    and env: "\<exists>s. env' = envelope_dict P payload f (p_sha256 P body) @ [(''signature'', PStr s)]"
    using honest_front[OF assms(17,18,16) _ _ _ _ assms(23-31) window] req assms(19,20) by simp_all
  then obtain s where s: "env' = envelope_dict P payload f (p_sha256 P body) @ [(''signature'', PStr s)]" by blast
  show ?thesis
    by (rule issued_envelope_accepted[OF assms(1-15,36,37) front _ _ _ _ _ _ assms(38,39)])
      (use assms(19-22) in \<open>simp_all add: s envelope_dict_def\<close>)
qed


section \<open>A concrete exchange\<close>

definition meeting_platform :: platform where
  "meeting_platform = issued_platform\<lparr>
     p_isoformat := (\<lambda>t. if t = seconds 1000 then ''t0'' else ''t1''),
     p_fromisoformat := (\<lambda>s. Some (Aware (if s = ''t0'' then seconds 1000 else seconds 1300) 0))\<rparr>"

end
