(* ===== verification/McpHost.thy ===== *)
theory McpHost
  imports EndToEnd RateLimiter ToolGate OutputScan
begin

text \<open>
  The MCP host (\<open>integrations/mcp/host.py\<close>, \<open>host_support.py\<close>, \<open>default_tools.py\<close>): one inbound
  envelope goes through the verifier, the rate limiter, the tool gate, the tool, the output scan and
  the egress matrix, and a signed reply comes back. The state of the host is that of the components
  it is wired with: the replay cache \<open>'c\<close>, the audit sink \<open>'k\<close>, the buckets of the limiter, what
  the tools act on \<open>'w\<close> and what the minter of reply tokens acts on \<open>'m\<close>.
\<close>

section \<open>Configuration\<close>

abbreviation host_error :: exn where
  "host_error \<equiv> repo_error ''ExampleMCPHostError''"

record handle_options =
  ho_step_up :: "step_up option"
  ho_reply_message_id :: string
  ho_reply_nonce :: string

text \<open>What the host words a text for: an exception it catches or a decision it was given. (The exception of
  a tool is not one of them: its text is the tool's.)\<close>

datatype host_cause =
    EnvelopeRefused exn
  | RateVerdict rate_limit_decision
  | NotRequest exn
  | GateVerdict tool_decision
  | Unregistered string
  | EgressVerdict egress_decision risk_level

fun message_prefix :: "host_cause \<Rightarrow> string" where
  "message_prefix (EnvelopeRefused e) = ''envelope denied: ''"
| "message_prefix (RateVerdict d) = ''rate limited: ''"
| "message_prefix (NotRequest e) = ''payload is not a JSON-RPC request: ''"
| "message_prefix (GateVerdict d) = ''tool gate: ''"
| "message_prefix (Unregistered name) = ''tool not registered: ''"
| "message_prefix (EgressVerdict d risk) = ''egress denied: ''"

text \<open>The operator's callbacks are fields; \<open>mh_repr\<close> is \<open>str\<close> on values that are not strings,
  \<open>mh_dumps\<close> is \<open>json.dumps\<close> with sorted keys, and \<open>mh_text\<close> is \<open>str(exc)\<close> of a caught exception, the
  \<open>reason\<close> of a decision or the \<open>repr\<close> of a name, which may depend on the options, the time and the
  envelope. A tool returns a result or raises, and then the host uses the text of the exception, which
  is whatever the tool put there.\<close>

type_synonym 'w host_tool = "(string \<times> pyval) list \<Rightarrow> 'w \<Rightarrow> (string + pyval) \<times> 'w"

record ('c, 'k, 'w, 'm) host_config =
  mh_host_iss :: string
  mh_host_kid :: string
  mh_sign :: "string \<Rightarrow> string"
  mh_key_lookup :: "string \<Rightarrow> exn + string"
  mh_issuer_lookup :: "string \<Rightarrow> string \<Rightarrow> exn + string"
  mh_mark_if_new :: "nonce_key \<Rightarrow> timedelta \<Rightarrow> 'c \<Rightarrow> (exn + bool) \<times> 'c"
  mh_tool_policy :: "tool_rule list"
  mh_egress_policy :: egress_policy
  mh_audit_sink :: "audit_fields \<Rightarrow> 'k \<Rightarrow> exn option \<times> 'k"
  mh_verify_config :: verification_config
  mh_rate_limiter :: "limiter_config option"
  mh_revocation_list :: "(string \<Rightarrow> exn + bool) option"
  mh_output_data_class :: data_class
  mh_pattern_registry :: "secret_pattern list"
  mh_reply_ttl :: timedelta
  mh_capability_token_for_reply :: string
  mh_reply_capability_minter :: "(string \<Rightarrow> 'm \<Rightarrow> (exn + string) \<times> 'm) option"
  mh_reply_purpose :: string
  mh_tools :: "string \<Rightarrow> 'w host_tool option"
  mh_repr :: "pyval \<Rightarrow> string"
  mh_dumps :: "pyval \<Rightarrow> exn + string"
  mh_text :: "handle_options \<Rightarrow> datetime \<Rightarrow> pyval \<Rightarrow> host_cause \<Rightarrow> string"

definition host_config_ok :: "('c, 'k, 'w, 'm) host_config \<Rightarrow> exn + unit" where
  "host_config_ok H = guard (mh_host_iss H \<noteq> [] \<and> mh_host_kid H \<noteq> []) host_error"

record ('c, 'k, 'w, 'm) host_state =
  hs_cache :: 'c
  hs_audit :: 'k
  hs_buckets :: buckets
  hs_world :: 'w
  hs_minter :: 'm

definition JSONRPC_INVALID_REQUEST :: int where "JSONRPC_INVALID_REQUEST = -32600"
definition JSONRPC_METHOD_NOT_FOUND :: int where "JSONRPC_METHOD_NOT_FOUND = -32601"
definition JSONRPC_INTERNAL_ERROR :: int where "JSONRPC_INTERNAL_ERROR = -32603"
definition APP_ENVELOPE_DENIED :: int where "APP_ENVELOPE_DENIED = -32001"
definition APP_TOOL_DENIED :: int where "APP_TOOL_DENIED = -32002"
definition APP_EGRESS_DENIED :: int where "APP_EGRESS_DENIED = -32003"
definition APP_RATE_LIMITED :: int where "APP_RATE_LIMITED = -32004"

definition host_deps :: "('c, 'k, 'w, 'm) host_config \<Rightarrow> ('c, 'k) deps" where
  "host_deps H =
     \<lparr>d_key_lookup = mh_key_lookup H, d_issuer_lookup = mh_issuer_lookup H, d_mark_if_new = mh_mark_if_new H,
      d_audit = Some (mh_audit_sink H), d_revocation = mh_revocation_list H\<rparr>"


section \<open>Helpers of the host\<close>

definition env_dict :: "pyval \<Rightarrow> (string \<times> pyval) list" where
  "env_dict v = (if is_dict v then dict_of v else [])"

definition py_str :: "('c, 'k, 'w, 'm) host_config \<Rightarrow> pyval \<Rightarrow> string" where
  "py_str H v = (if is_str v then str_of v else mh_repr H v)"

definition request_id_from_envelope :: "pyval \<Rightarrow> pyval" where
  "request_id_from_envelope v =
     (if \<not> is_dict v then PNone
      else let payload = get_or_none (dict_of v) ''payload'' in
        if \<not> is_dict payload then PNone else get_or_none (dict_of payload) ''id'')"

definition NIL_MESSAGE_ID :: string where
  "NIL_MESSAGE_ID = ''00000000-0000-7000-8000-000000000000''"

text \<open>\<open>base[:-12] + base[-12:][::-1]\<close>\<close>

definition derive_reply_id :: "(string \<times> pyval) list \<Rightarrow> string" where
  "derive_reply_id envelope =
     (let v = (case map_of envelope ''message_id'' of None \<Rightarrow> PStr NIL_MESSAGE_ID | Some v \<Rightarrow> v);
          base = (if \<not> is_str v \<or> length (str_of v) \<noteq> 36 then NIL_MESSAGE_ID else str_of v)
      in take 24 base @ List.rev (drop 24 base))"

definition derive_reply_nonce :: "platform \<Rightarrow> ('c, 'k, 'w, 'm) host_config \<Rightarrow> pyval \<Rightarrow> string" where
  "derive_reply_nonce P H v =
     ''replynonce-'' @ take 20 (p_sha256 P (''reply::'' @ py_str H (get_or_empty (env_dict v) ''message_id'')))"

definition cause_message ::
  "('c, 'k, 'w, 'm) host_config \<Rightarrow> handle_options \<Rightarrow> datetime \<Rightarrow> pyval \<Rightarrow> host_cause \<Rightarrow> string" where
  "cause_message H O' now v cause = message_prefix cause @ mh_text H O' now v cause"

definition tool_raised :: "string \<Rightarrow> string" where
  "tool_raised exc_text = ''tool raised: '' @ exc_text"

definition host_event ::
  "('c, 'k, 'w, 'm) host_config \<Rightarrow> string \<Rightarrow> string \<Rightarrow> string \<Rightarrow> string \<Rightarrow> pyval \<Rightarrow> audit_fields" where
  "host_event H event_type outcome reason code v =
     (let env = env_dict v in
      \<lparr>ev_timestamp = [], ev_event_type = event_type, ev_outcome = outcome, ev_reason = reason,
       ev_message_id = py_str H (get_or_empty env ''message_id''),
       ev_sender = py_str H (get_or_empty env ''sender_spiffe_id''),
       ev_recipient = py_str H (get_or_empty env ''recipient_spiffe_id''),
       ev_envelope_kid = py_str H (get_or_empty env ''kid''),
       ev_issuer_iss = [], ev_issuer_kid = [], ev_reason_code = code, ev_artifact_version = []\<rparr>)"

text \<open>\<open>_emit\<close>: what the sink raises leaves the host.\<close>

definition host_emit ::
  "('c, 'k, 'w, 'm) host_config \<Rightarrow> string \<Rightarrow> bool \<Rightarrow> string \<Rightarrow> string \<Rightarrow> pyval \<Rightarrow> ('c, 'k, 'w, 'm) host_state \<Rightarrow>
   (exn + unit) \<times> ('c, 'k, 'w, 'm) host_state" where
  "host_emit H event_type ok reason code v S =
     (case mh_audit_sink H (host_event H event_type (if ok then ''allow'' else ''deny'') reason code v) (hs_audit S) of
        (None, k') \<Rightarrow> (Inr (), S\<lparr>hs_audit := k'\<rparr>)
      | (Some e, k') \<Rightarrow> (Inl e, S\<lparr>hs_audit := k'\<rparr>))"


section \<open>Replies\<close>

text \<open>The capability token of a reply, the fields of its envelope, and \<open>_reply_envelope\<close>.\<close>

definition reply_token ::
  "platform \<Rightarrow> ('c, 'k, 'w, 'm) host_config \<Rightarrow> pyval \<Rightarrow> 'm \<Rightarrow> (exn + string) \<times> 'm" where
  "reply_token P H payload m =
     (case mh_reply_capability_minter H of
        None \<Rightarrow> (Inr (mh_capability_token_for_reply H), m)
      | Some mint \<Rightarrow> (case p_canon P payload of Inl e \<Rightarrow> (Inl e, m) | Inr body \<Rightarrow> mint (p_sha256 P body) m))"

definition reply_fields ::
  "platform \<Rightarrow> ('c, 'k, 'w, 'm) host_config \<Rightarrow> handle_options \<Rightarrow> datetime \<Rightarrow> pyval \<Rightarrow> string \<Rightarrow> pyval \<Rightarrow>
   envelope_fields" where
  "reply_fields P H O' now v cap_token sender =
     \<lparr>ef_sender_spiffe_id = mh_host_iss H, ef_recipient_spiffe_id = sender,
      ef_purpose_of_use = mh_reply_purpose H, ef_kid = mh_host_kid H, ef_capability_token = cap_token,
      ef_message_id = (if ho_reply_message_id O' \<noteq> [] then ho_reply_message_id O' else derive_reply_id (dict_of v)),
      ef_nonce = (if ho_reply_nonce O' \<noteq> [] then ho_reply_nonce O' else derive_reply_nonce P H v),
      ef_issued_at = now, ef_ttl = mh_reply_ttl H\<rparr>"

definition reply_envelope ::
  "platform \<Rightarrow> ('c, 'k, 'w, 'm) host_config \<Rightarrow> handle_options \<Rightarrow> datetime \<Rightarrow> pyval \<Rightarrow> mcp_response \<Rightarrow>
   ('c, 'k, 'w, 'm) host_state \<Rightarrow> (exn + (string \<times> pyval) list) \<times> ('c, 'k, 'w, 'm) host_state" where
  "reply_envelope P H O' now v response S =
     (let payload = mcp_response_to_payload response in
      case reply_token P H payload (hs_minter S) of
        (minted, m') \<Rightarrow>
          (bindE minted (\<lambda>cap_token.
           bindE (getitem (dict_of v) ''sender_spiffe_id'') (\<lambda>sender.
           bindE (new_envelope_fields (reply_fields P H O' now v cap_token sender)) (\<lambda>f.
           bindE (build_envelope P payload f) (\<lambda>env. sign_envelope P (mh_sign H) env)))), S\<lparr>hs_minter := m'\<rparr>))"

definition error_object :: "int \<Rightarrow> string \<Rightarrow> pyval" where
  "error_object code message = PDict [(''code'', PInt code), (''message'', PStr message)]"

definition error_reply ::
  "platform \<Rightarrow> ('c, 'k, 'w, 'm) host_config \<Rightarrow> handle_options \<Rightarrow> datetime \<Rightarrow> pyval \<Rightarrow> pyval \<Rightarrow> int \<Rightarrow> string \<Rightarrow> string \<Rightarrow>
   ('c, 'k, 'w, 'm) host_state \<Rightarrow> (exn + (string \<times> pyval) list) \<times> ('c, 'k, 'w, 'm) host_state" where
  "error_reply P H O' now v request_id code message reason_code' S =
     (case host_emit H ''host.deny'' False message reason_code' v S of
        (Inl e, S1) \<Rightarrow> (Inl e, S1)
      | (Inr _, S1) \<Rightarrow>
          if \<not> truthy (get_or_none (env_dict v) ''sender_spiffe_id'') then (Inl host_error, S1)
          else (case new_mcp_response request_id PNone (error_object code message) of
                  Inl e \<Rightarrow> (Inl e, S1)
                | Inr resp \<Rightarrow> reply_envelope P H O' now v resp S1))"


section \<open>The pipeline\<close>

definition request_args :: "mcp_request \<Rightarrow> (string \<times> pyval) list" where
  "request_args req = (if is_dict (mq_params req) then dict_of (mq_params req) else [])"

text \<open>\<open>_tool_gate\<close>: the call is bound to the digest of its arguments; the gate itself has no sink.\<close>

definition gate_call :: "platform \<Rightarrow> mcp_request \<Rightarrow> pyval \<Rightarrow> exn + tool_call" where
  "gate_call P req v =
     bindE (p_canon P (PDict (request_args req))) (\<lambda>args.
     bindE (getitem (dict_of v) ''sender_spiffe_id'') (\<lambda>sender.
     new_tool_call (mq_method req) (str_of sender) (p_sha256 P args)))"

definition tool_gate ::
  "platform \<Rightarrow> ('c, 'k, 'w, 'm) host_config \<Rightarrow> handle_options \<Rightarrow> datetime \<Rightarrow> pyval \<Rightarrow> mcp_request \<Rightarrow>
   ('c, 'k, 'w, 'm) host_state \<Rightarrow> (exn + tool_decision) \<times> ('c, 'k, 'w, 'm) host_state" where
  "tool_gate P H O' now v req S =
     (case bindE (gate_call P req v) (\<lambda>call.
             fst (evaluate_tool_call P None (Some (mh_issuer_lookup H)) DEFAULT_STEP_UP_LIMITS now call
                    (mh_tool_policy H) (ho_step_up O') ())) of
        Inl e \<Rightarrow> (Inl e, S)
      | Inr d \<Rightarrow>
          (case host_emit H ''tool.gate'' (td_allowed d) (mh_text H O' now v (GateVerdict d)) (td_reason_code d) v S of
             (Inl e, S1) \<Rightarrow> (Inl e, S1)
           | (Inr _, S1) \<Rightarrow> (Inr d, S1)))"

text \<open>Steps 5 and 6: the scan of the rendered result, the egress matrix and the reply.\<close>

definition release_result ::
  "platform \<Rightarrow> ('c, 'k, 'w, 'm) host_config \<Rightarrow> handle_options \<Rightarrow> datetime \<Rightarrow> pyval \<Rightarrow> mcp_request \<Rightarrow> pyval \<Rightarrow>
   ('c, 'k, 'w, 'm) host_state \<Rightarrow> (exn + (string \<times> pyval) list) \<times> ('c, 'k, 'w, 'm) host_state" where
  "release_result P H O' now v req result S =
     (case bindE (mh_dumps H result) (scan (mh_pattern_registry H)) of
        Inl e \<Rightarrow> (Inl e, S)
      | Inr scanned \<Rightarrow>
          let d = egress_decide (mh_egress_policy H) (scan_risk scanned) (mh_output_data_class H);
              verdict = EgressVerdict d (scan_risk scanned) in
          (case host_emit H ''egress.evaluate'' (eg_action d = EGRESS_ALLOW) (mh_text H O' now v verdict)
                  (eg_reason_code d) v S of
             (Inl e, S1) \<Rightarrow> (Inl e, S1)
           | (Inr _, S1) \<Rightarrow>
               if eg_action d \<noteq> EGRESS_ALLOW
               then error_reply P H O' now v (mq_id req) APP_EGRESS_DENIED (cause_message H O' now v verdict)
                      (eg_reason_code d) S1
               else (case new_mcp_response (mq_id req) result PNone of
                       Inl e \<Rightarrow> (Inl e, S1)
                     | Inr resp \<Rightarrow> reply_envelope P H O' now v resp S1)))"

text \<open>Step 4, and what follows: any exception of the tool is answered, with its text.\<close>

definition dispatch ::
  "platform \<Rightarrow> ('c, 'k, 'w, 'm) host_config \<Rightarrow> handle_options \<Rightarrow> datetime \<Rightarrow> pyval \<Rightarrow> mcp_request \<Rightarrow>
   ('c, 'k, 'w, 'm) host_state \<Rightarrow> (exn + (string \<times> pyval) list) \<times> ('c, 'k, 'w, 'm) host_state" where
  "dispatch P H O' now v req S =
     (case mh_tools H (mq_method req) of
        None \<Rightarrow> error_reply P H O' now v (mq_id req) JSONRPC_METHOD_NOT_FOUND
           (cause_message H O' now v (Unregistered (mq_method req))) ''tool_not_registered'' S
      | Some tool \<Rightarrow>
          (case tool (request_args req) (hs_world S) of
             (Inl exc_text, w') \<Rightarrow>
               error_reply P H O' now v (mq_id req) JSONRPC_INTERNAL_ERROR (tool_raised exc_text) ''tool_exception''
                 (S\<lparr>hs_world := w'\<rparr>)
           | (Inr result, w') \<Rightarrow> release_result P H O' now v req result (S\<lparr>hs_world := w'\<rparr>)))"

text \<open>Steps 2 and 3.\<close>

definition handle_request ::
  "platform \<Rightarrow> ('c, 'k, 'w, 'm) host_config \<Rightarrow> handle_options \<Rightarrow> datetime \<Rightarrow> pyval \<Rightarrow>
   ('c, 'k, 'w, 'm) host_state \<Rightarrow> (exn + (string \<times> pyval) list) \<times> ('c, 'k, 'w, 'm) host_state" where
  "handle_request P H O' now v S =
     (case unwrap_request (dict_of v) of
        Inl e \<Rightarrow> error_reply P H O' now v (request_id_from_envelope v) JSONRPC_INVALID_REQUEST
           (cause_message H O' now v (NotRequest e)) ''invalid_request'' S
      | Inr req \<Rightarrow>
          (case tool_gate P H O' now v req S of
             (Inl e, S1) \<Rightarrow> (Inl e, S1)
           | (Inr d, S1) \<Rightarrow>
               if \<not> td_allowed d
               then error_reply P H O' now v (mq_id req) APP_TOOL_DENIED (cause_message H O' now v (GateVerdict d))
                      (td_reason_code d) S1
               else dispatch P H O' now v req S1))"

text \<open>Step 1b.\<close>

definition handle_verified ::
  "platform \<Rightarrow> ('c, 'k, 'w, 'm) host_config \<Rightarrow> handle_options \<Rightarrow> datetime \<Rightarrow> pyval \<Rightarrow>
   ('c, 'k, 'w, 'm) host_state \<Rightarrow> (exn + (string \<times> pyval) list) \<times> ('c, 'k, 'w, 'm) host_state" where
  "handle_verified P H O' now v S =
     (case mh_rate_limiter H of
        None \<Rightarrow> handle_request P H O' now v S
      | Some C \<Rightarrow>
          (case limiter_check C (sender_of v) now (hs_buckets S) of
             (rl, B') \<Rightarrow>
               (case host_emit H ''rate_limit.check'' (rld_allowed rl)
                       (mh_text H O' now v (RateVerdict rl)) (if \<not> rld_allowed rl then ''rate_limited'' else ''ok'') v
                       (S\<lparr>hs_buckets := B'\<rparr>) of
                  (Inl e, S1) \<Rightarrow> (Inl e, S1)
                | (Inr _, S1) \<Rightarrow>
                    if \<not> rld_allowed rl
                    then error_reply P H O' now v (request_id_from_envelope v) APP_RATE_LIMITED
                           (cause_message H O' now v (RateVerdict rl)) ''rate_limited'' S1
                    else handle_request P H O' now v S1)))"

text \<open>Step 1. \<open>now\<close> is \<open>options.now\<close> or the wall clock, in UTC.\<close>

definition host_handle ::
  "platform \<Rightarrow> ('c, 'k, 'w, 'm) host_config \<Rightarrow> handle_options \<Rightarrow> datetime \<Rightarrow> pyval \<Rightarrow>
   ('c, 'k, 'w, 'm) host_state \<Rightarrow> (exn + (string \<times> pyval) list) \<times> ('c, 'k, 'w, 'm) host_state" where
  "host_handle P H O' now v S =
     (case verify_envelope P (host_deps H) (mh_verify_config H) now v (hs_cache S) (hs_audit S) of
        (Inl e, c', k') \<Rightarrow>
          (let S1 = S\<lparr>hs_cache := c', hs_audit := k'\<rparr> in
           if is_eve e
           then error_reply P H O' now v (request_id_from_envelope v) APP_ENVELOPE_DENIED
                  (cause_message H O' now v (EnvelopeRefused e)) (reason_code e) S1
           else (Inl e, S1))
      | (Inr _, c', k') \<Rightarrow> handle_verified P H O' now v (S\<lparr>hs_cache := c', hs_audit := k'\<rparr>))"


section \<open>The default tools\<close>

definition tool_read_file :: "(pyval \<Rightarrow> string) \<Rightarrow> (string \<times> pyval) list \<Rightarrow> pyval" where
  "tool_read_file text_of params =
     (let path = get_or_empty params ''path'' in
      PDict [(''path'', path),
             (''contents'', PStr (''demo body for '' @ (if truthy path then text_of path else ''<no path>'')))])"

definition tool_exec_sql :: "(string \<times> pyval) list \<Rightarrow> pyval" where
  "tool_exec_sql params =
     PDict [(''query'', get_or_empty params ''query''),
            (''rows'', PList [PDict [(''id'', PInt 1), (''name'', PStr ''alice'')],
                              PDict [(''id'', PInt 2), (''name'', PStr ''bob'')]])]"

definition DEMO_TOOLS ::
  "(pyval \<Rightarrow> string) \<Rightarrow> string \<Rightarrow> 'w host_tool option" where
  "DEMO_TOOLS text_of =
     [''read_file'' \<mapsto> (\<lambda>params w. (Inr (tool_read_file text_of params), w)),
      ''exec_sql'' \<mapsto> (\<lambda>params w. (Inr (tool_exec_sql params), w))]"


section \<open>What each stage does\<close>

text \<open>A stage that runs no tool and takes nothing out of the audit log.\<close>

definition quiet ::
  "('k \<Rightarrow> audit_fields list) \<Rightarrow> ('c, 'k, 'w, 'm) host_state \<Rightarrow> ('c, 'k, 'w, 'm) host_state \<Rightarrow> bool" where
  "quiet evs S S' \<longleftrightarrow> hs_world S' = hs_world S \<and> set (evs (hs_audit S)) \<subseteq> set (evs (hs_audit S'))"

lemma quiet_refl [simp]: "quiet evs S S"
  by (simp add: quiet_def)

lemma quiet_trans [trans]: "quiet evs S S' \<Longrightarrow> quiet evs S' S'' \<Longrightarrow> quiet evs S S''"
  by (auto simp: quiet_def)

lemma quiet_event: "quiet evs S S' \<Longrightarrow> ev \<in> set (evs (hs_audit S)) \<Longrightarrow> ev \<in> set (evs (hs_audit S'))"
  by (auto simp: quiet_def)

text \<open>The capability token of a reply: what the minter made for the digest of its payload, or the
  configured placeholder.\<close>

definition token_for :: "platform \<Rightarrow> ('c, 'k, 'w, 'm) host_config \<Rightarrow> pyval \<Rightarrow> string \<Rightarrow> bool" where
  "token_for P H payload cap_token \<longleftrightarrow>
     (case mh_reply_capability_minter H of
        None \<Rightarrow> cap_token = mh_capability_token_for_reply H
      | Some mint \<Rightarrow> \<exists>body m. p_canon P payload = Inr body \<and> fst (mint (p_sha256 P body) m) = Inr cap_token)"

lemma reply_token_for: "reply_token P H payload m = (Inr cap_token, m') \<Longrightarrow> token_for P H payload cap_token"
  by (auto simp: reply_token_def token_for_def split: option.splits sum.splits) (metis fst_conv)+

text \<open>What a reply is made of: its token, the envelope fields of the host, and its key.\<close>

definition reply_made ::
  "platform \<Rightarrow> ('c, 'k, 'w, 'm) host_config \<Rightarrow> handle_options \<Rightarrow> datetime \<Rightarrow> pyval \<Rightarrow> mcp_response \<Rightarrow>
   (string \<times> pyval) list \<Rightarrow> bool" where
  "reply_made P H O' now v response reply \<longleftrightarrow>
     (\<exists>cap_token sender env.
        map_of (dict_of v) ''sender_spiffe_id'' = Some sender \<and>
        token_for P H (mcp_response_to_payload response) cap_token \<and>
        new_envelope_fields (reply_fields P H O' now v cap_token sender) = Inr (reply_fields P H O' now v cap_token sender) \<and>
        build_envelope P (mcp_response_to_payload response) (reply_fields P H O' now v cap_token sender) = Inr env \<and>
        sign_envelope P (mh_sign H) env = Inr reply)"

definition error_response :: "pyval \<Rightarrow> int \<Rightarrow> string \<Rightarrow> mcp_response" where
  "error_response rid code message =
     \<lparr>mr_id = rid, mr_result = PNone, mr_error = error_object code message\<rparr>"

definition answers ::
  "platform \<Rightarrow> ('c, 'k, 'w, 'm) host_config \<Rightarrow> handle_options \<Rightarrow> datetime \<Rightarrow> pyval \<Rightarrow>
   pyval \<Rightarrow> int \<Rightarrow> string \<Rightarrow> exn + (string \<times> pyval) list \<Rightarrow> bool" where
  "answers P H O' now v rid code message r \<longleftrightarrow>
     (\<forall>reply. r = Inr reply \<longrightarrow> reply_made P H O' now v (error_response rid code message) reply)"

text \<open>If the host answers, it answers with an error of its own, whose message is its text for one of the
  causes. None of them holds output of a tool.\<close>

definition denies ::
  "platform \<Rightarrow> ('c, 'k, 'w, 'm) host_config \<Rightarrow> handle_options \<Rightarrow> datetime \<Rightarrow> pyval \<Rightarrow>
   exn + (string \<times> pyval) list \<Rightarrow> bool" where
  "denies P H O' now v r \<longleftrightarrow>
     (\<exists>rid code cause. answers P H O' now v rid code (cause_message H O' now v cause) r)"

lemma answers_Inl [simp]: "answers P H O' now v rid code message (Inl e)"
  by (simp add: answers_def)

lemma denies_Inl [simp]: "denies P H O' now v (Inl e)"
  by (simp add: denies_def)

lemma answers_denies: "answers P H O' now v rid code (cause_message H O' now v cause) r \<Longrightarrow> denies P H O' now v r"
  unfolding denies_def by blast

lemma host_emit_quiet:
  assumes "logs_to (mh_audit_sink H) evs" "host_emit H ty ok reason code v S = (r, S')"
  shows "quiet evs S S'"
    "r = Inr () \<Longrightarrow> host_event H ty (if ok then ''allow'' else ''deny'') reason code v \<in> set (evs (hs_audit S'))"
    "hs_cache S' = hs_cache S" "hs_buckets S' = hs_buckets S" "hs_minter S' = hs_minter S"
proof -
  let ?f = "host_event H ty (if ok then ''allow'' else ''deny'') reason code v"
  have "ev_timestamp ?f = []" by (simp add: host_event_def Let_def)
  then have "evs (snd (mh_audit_sink H ?f (hs_audit S))) =
      (if fst (mh_audit_sink H ?f (hs_audit S)) = None then evs (hs_audit S) @ [?f] else evs (hs_audit S))"
    using assms(1) unfolding logs_to_def by blast
  then show "quiet evs S S'" "r = Inr () \<Longrightarrow> ?f \<in> set (evs (hs_audit S'))"
    using assms(2) by (auto simp: host_emit_def quiet_def split: prod.splits option.splits)
  show "hs_cache S' = hs_cache S" "hs_buckets S' = hs_buckets S" "hs_minter S' = hs_minter S"
    using assms(2) by (auto simp: host_emit_def split: prod.splits option.splits)
qed

lemma new_envelope_fields_Inr: "new_envelope_fields f = Inr f' \<Longrightarrow> f' = f"
  by (auto simp: new_envelope_fields_def)

lemma reply_envelope_made:
  assumes "reply_envelope P H O' now v resp S = (r, S')"
  shows "quiet evs S S'" "r = Inr reply \<Longrightarrow> reply_made P H O' now v resp reply"
proof -
  obtain minted m' where m: "reply_token P H (mcp_response_to_payload resp) (hs_minter S) = (minted, m')" by fastforce
  note run = assms[unfolded reply_envelope_def Let_def m prod.case]
  show "quiet evs S S'" using run by (auto simp: quiet_def)
  show "reply_made P H O' now v resp reply" if r: "r = Inr reply"
  proof -
    obtain cap_token sender f env where parts: "getitem (dict_of v) ''sender_spiffe_id'' = Inr sender"
      "new_envelope_fields (reply_fields P H O' now v cap_token sender) = Inr f" "minted = Inr cap_token"
      "build_envelope P (mcp_response_to_payload resp) f = Inr env" "sign_envelope P (mh_sign H) env = Inr reply"
      using run unfolding r by auto
    with new_envelope_fields_Inr[OF parts(2)] reply_token_for[OF m[unfolded parts(3)]] show ?thesis
      unfolding reply_made_def by (auto simp: getitem_def split: option.splits)
  qed
qed

lemma new_mcp_response_error:
  "new_mcp_response rid PNone (error_object code message) = Inr resp \<Longrightarrow>
     resp = \<lparr>mr_id = rid, mr_result = PNone, mr_error = error_object code message\<rparr>"
  by (simp add: new_mcp_response_def)

lemma error_reply_answers:
  assumes "logs_to (mh_audit_sink H) evs" "error_reply P H O' now v rid code message reason S = (r, S')"
  shows "quiet evs S S' \<and> answers P H O' now v rid code message r"
proof -
  obtain r1 S1 where e: "host_emit H ''host.deny'' False message reason v S = (r1, S1)" by fastforce
  note q = host_emit_quiet(1)[OF assms(1) e]
  consider (stop) x where "r = Inl x" "S' = S1"
    | (go) resp where "new_mcp_response rid PNone (error_object code message) = Inr resp"
        "reply_envelope P H O' now v resp S1 = (r, S')"
    using assms(2) unfolding error_reply_def e prod.case
    by (auto split: sum.splits if_splits)
  then show ?thesis
  proof cases
    case stop
    then show ?thesis using q by simp
  next
    case go
    then have "resp = error_response rid code message"
      using new_mcp_response_error unfolding error_response_def by blast
    with reply_envelope_made[OF go(2)] q show ?thesis
      unfolding answers_def by (blast intro: quiet_trans)
  qed
qed

lemma error_reply_denies:
  assumes "logs_to (mh_audit_sink H) evs"
    "error_reply P H O' now v rid code (cause_message H O' now v cause) reason S = (r, S')"
  shows "quiet evs S S' \<and> denies P H O' now v r"
  using error_reply_answers[OF assms] answers_denies by blast

text \<open>The gate, without a sink of its own, and the event the host records for it.\<close>

lemma tool_gate_allowed:
  assumes "logs_to (mh_audit_sink H) evs" "tool_gate P H O' now v req S = (r, S')"
  shows "quiet evs S S' \<and> (\<forall>d. r = Inr d \<and> td_allowed d \<longrightarrow>
    (\<exists>call. gate_call P req v = Inr call \<and>
       call_authorized P (Some (mh_issuer_lookup H)) DEFAULT_STEP_UP_LIMITS now call (mh_tool_policy H) (ho_step_up O') \<and>
       host_event H ''tool.gate'' ''allow'' (mh_text H O' now v (GateVerdict d)) (td_reason_code d) v \<in> set (evs (hs_audit S'))))"
proof -
  have gate: "fst (evaluate_tool_call P None lookup L now call policy a ()) = Inr d \<longleftrightarrow>
      evaluate_tool_call_inner P lookup L now call policy a = Inr d" for lookup L call policy a d
    by (auto simp: evaluate_tool_call_def emit_or_deny_def split: sum.splits)
  let ?g = "bindE (gate_call P req v) (\<lambda>call. fst (evaluate_tool_call P None (Some (mh_issuer_lookup H))
      DEFAULT_STEP_UP_LIMITS now call (mh_tool_policy H) (ho_step_up O') ()))"
  show ?thesis
  proof (cases ?g)
    case Inl
    then show ?thesis using assms(2) by (auto simp: tool_gate_def)
  next
    case (Inr d)
    then obtain call where call: "gate_call P req v = Inr call"
      "evaluate_tool_call_inner P (Some (mh_issuer_lookup H)) DEFAULT_STEP_UP_LIMITS now call (mh_tool_policy H)
         (ho_step_up O') = Inr d"
      by (auto simp: gate)
    obtain r1 S1 where e: "host_emit H ''tool.gate'' (td_allowed d) (mh_text H O' now v (GateVerdict d)) (td_reason_code d) v S = (r1, S1)" by fastforce
    note q = host_emit_quiet[OF assms(1) e]
    have "(r = Inr d \<and> r1 = Inr () \<or> isl r) \<and> S' = S1"
      using assms(2) unfolding tool_gate_def Inr sum.case e prod.case by (auto split: sum.splits)
    then show ?thesis using q(1,2) call inner_allowed[OF call(2)] by auto
  qed
qed

text \<open>A result may leave the host.\<close>

definition egress_passes :: "('c, 'k, 'w, 'm) host_config \<Rightarrow> pyval \<Rightarrow> bool" where
  "egress_passes H result \<longleftrightarrow>
     (\<exists>body scanned. mh_dumps H result = Inr body \<and> scan (mh_pattern_registry H) body = Inr scanned \<and>
        eg_action (egress_decide (mh_egress_policy H) (scan_risk scanned) (mh_output_data_class H)) = EGRESS_ALLOW)"

definition success_response :: "mcp_request \<Rightarrow> pyval \<Rightarrow> mcp_response" where
  "success_response req result = \<lparr>mr_id = mq_id req, mr_result = result, mr_error = PNone\<rparr>"

definition releases ::
  "platform \<Rightarrow> ('c, 'k, 'w, 'm) host_config \<Rightarrow> handle_options \<Rightarrow> datetime \<Rightarrow> pyval \<Rightarrow> mcp_request \<Rightarrow> pyval \<Rightarrow>
   audit_fields list \<Rightarrow> exn + (string \<times> pyval) list \<Rightarrow> bool" where
  "releases P H O' now v req result events r \<longleftrightarrow>
     (\<exists>reply. r = Inr reply \<and> egress_passes H result \<and>
        (\<exists>reason. host_event H ''egress.evaluate'' ''allow'' reason ''ok'' v \<in> set events) \<and>
        reply_made P H O' now v (success_response req result) reply)"

lemma egress_allow_code:
  "eg_action (egress_decide p risk cls) = EGRESS_ALLOW \<Longrightarrow> eg_reason_code (egress_decide p risk cls) = ''ok''"
proof -
  have "eg_action (match_cells risk cls cs) = EGRESS_ALLOW \<Longrightarrow> eg_reason_code (match_cells risk cls cs) = ''ok''" for cs
  proof (induction cs)
    case (Cons c cs)
    then show ?case by (cases "ec_action c") (auto split: if_splits)
  qed simp
  then show "eg_action (egress_decide p risk cls) = EGRESS_ALLOW \<Longrightarrow> eg_reason_code (egress_decide p risk cls) = ''ok''"
    by (auto simp: egress_decide_def split: if_splits)
qed

lemma release_result_outcome:
  assumes "logs_to (mh_audit_sink H) evs" "release_result P H O' now v req result S = (r, S')"
  shows "quiet evs S S' \<and> (denies P H O' now v r \<or> releases P H O' now v req result (evs (hs_audit S')) r)"
proof (cases "bindE (mh_dumps H result) (scan (mh_pattern_registry H))")
  case Inl
  then show ?thesis using assms(2) by (auto simp: release_result_def)
next
  case (Inr scanned)
  define d where "d = egress_decide (mh_egress_policy H) (scan_risk scanned) (mh_output_data_class H)"
  let ?verdict = "EgressVerdict d (scan_risk scanned)"
  obtain r1 S1 where e: "host_emit H ''egress.evaluate'' (eg_action d = EGRESS_ALLOW) (mh_text H O' now v ?verdict)
      (eg_reason_code d) v S = (r1, S1)"
    by fastforce
  note q = host_emit_quiet[OF assms(1) e]
  note run = assms(2)[unfolded release_result_def Inr sum.case Let_def, folded d_def, unfolded e prod.case]
  consider (stop) x where "r = Inl x" "S' = S1"
    | (deny) "r1 = Inr ()" "error_reply P H O' now v (mq_id req) APP_EGRESS_DENIED (cause_message H O' now v ?verdict)
        (eg_reason_code d) S1 = (r, S')"
    | (go) resp where "r1 = Inr ()" "eg_action d = EGRESS_ALLOW" "new_mcp_response (mq_id req) result PNone = Inr resp"
        "reply_envelope P H O' now v resp S1 = (r, S')"
    using run by (auto split: sum.splits if_splits)
  then show ?thesis
  proof cases
    case stop
    then show ?thesis using q(1) by simp
  next
    case deny
    then show ?thesis using error_reply_denies[OF assms(1) deny(2)] q(1) by (blast intro: quiet_trans)
  next
    case go
    have resp: "resp = success_response req result"
      using go(3) by (auto simp: new_mcp_response_def success_response_def)
    have "egress_passes H result" using Inr go(2) unfolding egress_passes_def d_def by auto
    moreover have "host_event H ''egress.evaluate'' ''allow'' (mh_text H O' now v ?verdict) ''ok'' v \<in> set (evs (hs_audit S1))"
      using q(2)[OF go(1)] go(2) egress_allow_code[of "mh_egress_policy H"] by (simp add: d_def)
    ultimately show ?thesis
      using reply_envelope_made(1)[OF go(4), where evs = evs] reply_envelope_made(2)[OF go(4)] q(1) resp unfolding releases_def denies_def
      by (cases r) (auto intro: quiet_trans quiet_event)
  qed
qed

text \<open>The registered tool ran, once, on the arguments of the request.\<close>

definition tool_ran ::
  "('c, 'k, 'w, 'm) host_config \<Rightarrow> mcp_request \<Rightarrow> ('c, 'k, 'w, 'm) host_state \<Rightarrow> ('c, 'k, 'w, 'm) host_state \<Rightarrow>
   string + pyval \<Rightarrow> bool" where
  "tool_ran H req S S' result \<longleftrightarrow>
     (\<exists>tool. mh_tools H (mq_method req) = Some tool \<and> tool (request_args req) (hs_world S) = (result, hs_world S'))"

text \<open>What leaves after the tool ran. Its result leaves only through the scan and the egress matrix; the
  text of its exception leaves as it is, in the message of the error.\<close>

definition after_tool ::
  "platform \<Rightarrow> ('c, 'k, 'w, 'm) host_config \<Rightarrow> handle_options \<Rightarrow> datetime \<Rightarrow> pyval \<Rightarrow> mcp_request \<Rightarrow>
   string + pyval \<Rightarrow> audit_fields list \<Rightarrow> exn + (string \<times> pyval) list \<Rightarrow> bool" where
  "after_tool P H O' now v req outcome events r \<longleftrightarrow>
     (case outcome of
        Inl exc_text \<Rightarrow> answers P H O' now v (mq_id req) JSONRPC_INTERNAL_ERROR (tool_raised exc_text) r
      | Inr result \<Rightarrow> denies P H O' now v r \<or> releases P H O' now v req result events r)"

lemma dispatch_outcome:
  assumes "logs_to (mh_audit_sink H) evs" "dispatch P H O' now v req S = (r, S')"
  shows "set (evs (hs_audit S)) \<subseteq> set (evs (hs_audit S')) \<and>
    (hs_world S' = hs_world S \<and> denies P H O' now v r \<or>
     (\<exists>outcome. tool_ran H req S S' outcome \<and> after_tool P H O' now v req outcome (evs (hs_audit S')) r))"
proof (cases "mh_tools H (mq_method req)")
  case None
  then show ?thesis
    using error_reply_denies[OF assms(1)] assms(2) by (fastforce simp: dispatch_def quiet_def)
next
  case (Some tool)
  obtain outcome w' where t: "tool (request_args req) (hs_world S) = (outcome, w')" by fastforce
  show ?thesis
  proof (cases outcome)
    case (Inl exc_text)
    then have "error_reply P H O' now v (mq_id req) JSONRPC_INTERNAL_ERROR (tool_raised exc_text) ''tool_exception''
        (S\<lparr>hs_world := w'\<rparr>) = (r, S')"
      using assms(2) by (simp add: dispatch_def Some t)
    from error_reply_answers[OF assms(1) this] show ?thesis
      by (auto simp: quiet_def tool_ran_def after_tool_def Some t Inl)
  next
    case (Inr result)
    then have "release_result P H O' now v req result (S\<lparr>hs_world := w'\<rparr>) = (r, S')"
      using assms(2) by (simp add: dispatch_def Some t)
    from release_result_outcome[OF assms(1) this] show ?thesis
      by (auto simp: quiet_def tool_ran_def after_tool_def Some t Inr)
  qed
qed

text \<open>A request was admitted to its tool: the payload is a request, the gate was asked for a call in
  the name of the sender and bound to the digest of the arguments, it had the authority the tool
  policy demands, and the allow event is on record.\<close>

definition admitted ::
  "platform \<Rightarrow> ('c, 'k, 'w, 'm) host_config \<Rightarrow> handle_options \<Rightarrow> datetime \<Rightarrow> pyval \<Rightarrow> mcp_request \<Rightarrow>
   audit_fields list \<Rightarrow> bool" where
  "admitted P H O' now v req events \<longleftrightarrow>
     unwrap_request (dict_of v) = Inr req \<and>
     (\<exists>call reason code. gate_call P req v = Inr call \<and>
        call_authorized P (Some (mh_issuer_lookup H)) DEFAULT_STEP_UP_LIMITS now call (mh_tool_policy H) (ho_step_up O') \<and>
        host_event H ''tool.gate'' ''allow'' reason code v \<in> set events)"

definition request_outcome ::
  "platform \<Rightarrow> ('c, 'k, 'w, 'm) host_config \<Rightarrow> handle_options \<Rightarrow> datetime \<Rightarrow> pyval \<Rightarrow> audit_fields list \<Rightarrow>
   ('c, 'k, 'w, 'm) host_state \<Rightarrow> ('c, 'k, 'w, 'm) host_state \<Rightarrow> exn + (string \<times> pyval) list \<Rightarrow> bool" where
  "request_outcome P H O' now v events S S' r \<longleftrightarrow>
     hs_world S' = hs_world S \<and> denies P H O' now v r \<or>
     (\<exists>req outcome. admitted P H O' now v req events \<and> tool_ran H req S S' outcome \<and>
        after_tool P H O' now v req outcome events r)"

lemma handle_request_outcome:
  assumes "logs_to (mh_audit_sink H) evs" "handle_request P H O' now v S = (r, S')"
  shows "request_outcome P H O' now v (evs (hs_audit S')) S S' r"
proof (cases "unwrap_request (dict_of v)")
  case (Inl e)
  then show ?thesis
    using error_reply_denies[OF assms(1)] assms(2) by (fastforce simp: handle_request_def quiet_def request_outcome_def)
next
  case req: (Inr req)
  obtain g S1 where g: "tool_gate P H O' now v req S = (g, S1)" by fastforce
  note a = tool_gate_allowed[OF assms(1) g]
  note run = assms(2)[unfolded handle_request_def req sum.case g prod.case]
  consider (stop) x where "r = Inl x" "S' = S1"
    | (deny) d code where "error_reply P H O' now v (mq_id req) APP_TOOL_DENIED (cause_message H O' now v (GateVerdict d))
        code S1 = (r, S')"
    | (go) d where "g = Inr d" "td_allowed d" "dispatch P H O' now v req S1 = (r, S')"
    using run by (auto split: sum.splits if_splits)
  then show ?thesis
  proof cases
    case stop
    then show ?thesis using a by (simp add: request_outcome_def quiet_def)
  next
    case deny
    then show ?thesis using error_reply_denies[OF assms(1) deny] a by (simp add: request_outcome_def quiet_def)
  next
    case go
    have world: "hs_world S1 = hs_world S" using a by (simp add: quiet_def)
    note o = dispatch_outcome[OF assms(1) go(3)]
    have "admitted P H O' now v req (evs (hs_audit S'))"
      using a go(1,2) o req unfolding admitted_def by blast
    then show ?thesis using o unfolding request_outcome_def tool_ran_def world by blast
  qed
qed

definition within_limit :: "('c, 'k, 'w, 'm) host_config \<Rightarrow> datetime \<Rightarrow> pyval \<Rightarrow> buckets \<Rightarrow> bool" where
  "within_limit H now v B \<longleftrightarrow>
     (\<forall>C. mh_rate_limiter H = Some C \<longrightarrow> rld_allowed (fst (limiter_check C (sender_of v) now B)))"

lemma handle_verified_outcome:
  assumes "logs_to (mh_audit_sink H) evs" "handle_verified P H O' now v S = (r, S')"
  shows "hs_world S' = hs_world S \<and> denies P H O' now v r \<or>
    within_limit H now v (hs_buckets S) \<and> request_outcome P H O' now v (evs (hs_audit S')) S S' r"
proof (cases "mh_rate_limiter H")
  case None
  then have "handle_request P H O' now v S = (r, S')" using assms(2) by (simp add: handle_verified_def)
  then show ?thesis using handle_request_outcome[OF assms(1)] None by (simp add: within_limit_def)
next
  case (Some C)
  obtain rl B' where rl: "limiter_check C (sender_of v) now (hs_buckets S) = (rl, B')" by fastforce
  obtain e S1 where e: "host_emit H ''rate_limit.check'' (rld_allowed rl)
      (mh_text H O' now v (RateVerdict rl)) (if \<not> rld_allowed rl then ''rate_limited'' else ''ok'') v
      (S\<lparr>hs_buckets := B'\<rparr>) = (e, S1)" by fastforce
  have world: "hs_world S1 = hs_world S" using host_emit_quiet(1)[OF assms(1) e] by (simp add: quiet_def)
  note run = assms(2)[unfolded handle_verified_def Some option.case rl prod.case e]
  consider (stop) x where "r = Inl x" "S' = S1"
    | (deny) rid where "error_reply P H O' now v rid APP_RATE_LIMITED (cause_message H O' now v (RateVerdict rl))
        ''rate_limited'' S1 = (r, S')"
    | (go) "rld_allowed rl" "handle_request P H O' now v S1 = (r, S')"
    using run by (auto split: sum.splits if_splits)
  then show ?thesis
  proof cases
    case deny
    then show ?thesis using error_reply_denies[OF assms(1) deny] world by (simp add: quiet_def)
  next
    case go
    then show ?thesis
      using handle_request_outcome[OF assms(1) go(2)] world Some rl
      by (simp add: within_limit_def request_outcome_def tool_ran_def)
  qed (use world in simp)
qed

lemma verified_sender:
  assumes "verify_envelope P D cfg t v c k = (Inr cl, c', k')"
  shows "map_of (dict_of v) ''sender_spiffe_id'' = Some (PStr (cl_sub cl))"
proof -
  obtain ia ea where front: "front_ok P D cfg t v ia ea" and cap: "verify_cap P D cfg t v = Inr cl"
    using assms by (auto simp: verify_envelope_accepts)
  obtain env where v: "v = PDict env" using front by (auto simp: front_ok_def is_dict_iff)
  obtain token where "verify_capability_token P token env (d_issuer_lookup D) t (max_clock_skew cfg)
       (max_capability_ttl cfg) (d_revocation D) = Inr cl"
    using cap by (auto simp: verify_cap_def v)
  then have "check_binding cl env = Inr ()" by (rule verify_capability_token_Inr)
  then show ?thesis by (auto simp: v capability_checks)
qed


section \<open>Nothing runs and nothing leaves unchecked\<close>

text \<open>C5. The host's pipeline, whatever the tools, the minter and the envelope: either no tool runs and
  the host raises or answers with an error of its own, or the envelope was accepted by the verifier,
  its authenticated sender is within its rate limit, its payload is a request whose call had the
  authority the tool policy demands, with the allow event on record, and the registered tool ran
  once on its arguments. If the tool returned, what leaves is an error of the host's own or the tool's
  result to that request, after its scanned text passed the egress matrix, again with the allow event
  on record; if it raised, what leaves is an error whose message is \<open>tool raised:\<close> and the text of the
  exception, which is neither scanned nor gated (\<open>tool_exception_unscanned\<close>).\<close>

theorem host_pipeline_safe:
  assumes "logs_to (mh_audit_sink H) evs" "host_handle P H O' now v S = (r, S')"
  shows "hs_world S' = hs_world S \<and> denies P H O' now v r \<or>
    (\<exists>cl req outcome.
       fst (verify_envelope P (host_deps H) (mh_verify_config H) now v (hs_cache S) (hs_audit S)) = Inr cl \<and>
       map_of (dict_of v) ''sender_spiffe_id'' = Some (PStr (cl_sub cl)) \<and>
       within_limit H now v (hs_buckets S) \<and> admitted P H O' now v req (evs (hs_audit S')) \<and>
       tool_ran H req S S' outcome \<and> after_tool P H O' now v req outcome (evs (hs_audit S')) r)"
proof -
  obtain x c' k' where ve: "verify_envelope P (host_deps H) (mh_verify_config H) now v (hs_cache S) (hs_audit S) = (x, c', k')"
    by (cases "verify_envelope P (host_deps H) (mh_verify_config H) now v (hs_cache S) (hs_audit S)")
  let ?S = "S\<lparr>hs_cache := c', hs_audit := k'\<rparr>"
  note run = assms(2)[unfolded host_handle_def ve prod.case]
  show ?thesis
  proof (cases x)
    case (Inl e)
    then show ?thesis
      using run error_reply_denies[OF assms(1)] by (fastforce simp: Let_def quiet_def split: if_splits)
  next
    case (Inr cl)
    then have "handle_verified P H O' now v ?S = (r, S')" using run by simp
    from handle_verified_outcome[OF assms(1) this] show ?thesis
      using verified_sender[OF ve[unfolded Inr]] ve Inr
      by (auto simp: request_outcome_def tool_ran_def)
  qed
qed


section \<open>The reply is one the other side accepts\<close>



text \<open>The identifier derived for a reply is that of the request when its last group is a palindrome.\<close>

lemma derive_reply_id_fixpoint:
  "map_of env ''message_id'' = Some (PStr NIL_MESSAGE_ID) \<Longrightarrow> derive_reply_id env = NIL_MESSAGE_ID"
  by (simp add: derive_reply_id_def NIL_MESSAGE_ID_def)



text \<open>Whatever the host answers was made by \<open>reply_envelope\<close>.\<close>

definition made ::
  "platform \<Rightarrow> ('c, 'k, 'w, 'm) host_config \<Rightarrow> handle_options \<Rightarrow> datetime \<Rightarrow> pyval \<Rightarrow>
   (exn + (string \<times> pyval) list) \<times> ('c, 'k, 'w, 'm) host_state \<Rightarrow> bool" where
  "made P H O' now v result \<longleftrightarrow> (\<forall>reply. fst result = Inr reply \<longrightarrow> (\<exists>resp. reply_made P H O' now v resp reply))"

lemma made_Inl [simp]: "made P H O' now v (Inl e, S)"
  by (simp add: made_def)

lemma made_reply [simp]: "made P H O' now v (reply_envelope P H O' now v resp S)"
  unfolding made_def using reply_envelope_made(2) by (metis prod.collapse)

lemma made_error [simp]: "made P H O' now v (error_reply P H O' now v rid code message reason S)"
  by (simp add: error_reply_def split: prod.split sum.split)

lemma made_release [simp]: "made P H O' now v (release_result P H O' now v req result S)"
  by (simp add: release_result_def Let_def split: prod.split sum.split)

lemma made_dispatch [simp]: "made P H O' now v (dispatch P H O' now v req S)"
  by (simp add: dispatch_def split: prod.split sum.split option.split)

lemma made_request [simp]: "made P H O' now v (handle_request P H O' now v S)"
  by (simp add: handle_request_def split: prod.split sum.split)

lemma made_verified [simp]: "made P H O' now v (handle_verified P H O' now v S)"
  by (simp add: handle_verified_def split: prod.split sum.split option.split)



lemma placeholder_refused:
  assumes "map_of reply ''capability_token'' = Some (PStr ''reply'')"
  shows "isl (fst (verify_envelope P D cfg t (PDict reply) c k))"
proof (cases "verify_envelope P D cfg t (PDict reply) c k")
  case (fields r c' k')
  have "split_on CHR ''.'' ''reply'' = [''reply'']" by code_simp
  then have "isl (parse_jwt P (PStr ''reply''))" by (simp add: parse_jwt_def)
  then obtain e where "parse_jwt P (PStr ''reply'') = Inl e" by (cases "parse_jwt P (PStr ''reply'')") simp_all
  then have "isl (verify_cap P D cfg t (PDict reply))"
    using assms by (simp add: verify_cap_def verify_capability_token_def getitem_def)
  then have no: "r \<noteq> Inr cl" for cl using fields by (auto simp: verify_envelope_accepts)
  then have "isl r" by (metis sum.collapse(2))
  then show ?thesis by (simp add: fields)
qed


section \<open>A concrete host\<close>

text \<open>An envelope is not always answered: a request whose \<open>id\<close> is not a JSON-RPC id is refused, but the
  refusal repeats the id, and the exception of the response constructor leaves \<open>handle\<close>.\<close>

lemma bad_request_id_raises:
  assumes "\<not> id_type rid" "truthy (get_or_none (env_dict v) ''sender_spiffe_id'')"
    and "host_emit H ''host.deny'' False message reason v S = (Inr (), S1)"
  shows "error_reply P H O' now v rid code message reason S = (Inl adapter_error, S1)"
proof -
  have "new_mcp_response rid PNone obj = Inl adapter_error" for obj
    using assms(1) by (simp add: new_mcp_response_def guards.simps)
  then show ?thesis using assms(2,3) by (simp add: error_reply_def)
qed

definition demo_host :: "(replay_cache, audit_fields list, nat, unit) host_config" where
  "demo_host =
     \<lparr>mh_host_iss = ''spiffe://b'', mh_host_kid = ''hk'', mh_sign = (\<lambda>m. [CHR 0x00]),
      mh_key_lookup = (\<lambda>kid. Inr ''pem''), mh_issuer_lookup = (\<lambda>iss kid. Inr ''pem''),
      mh_mark_if_new = atomic_cache mem_mark_if_new 0,
      mh_tool_policy = [\<lparr>tr_tool_name = ''t'', tr_risk_tier = TIER_LOW, tr_allowed_callers = {}, tr_step_up_required = None\<rparr>],
      mh_egress_policy = \<lparr>ep_cells = [\<lparr>ec_risk = RISK_NONE, ec_class = INTERNAL, ec_action = EGRESS_ALLOW\<rparr>],
                          ep_restricted_no_export = True\<rparr>,
      mh_audit_sink = (\<lambda>ev k. (None, k @ [ev])), mh_verify_config = DEFAULT_CONFIG, mh_rate_limiter = None,
      mh_revocation_list = None, mh_output_data_class = INTERNAL, mh_pattern_registry = [], mh_reply_ttl = seconds 300,
      mh_capability_token_for_reply = ''reply'', mh_reply_capability_minter = None, mh_reply_purpose = ''invoke_tool'',
      mh_tools = [''t'' \<mapsto> (\<lambda>args n. (Inr (PInt (int n)), Suc n))], mh_repr = (\<lambda>v. ''repr''),
      mh_dumps = (\<lambda>v. Inr ''text''), mh_text = (\<lambda>opts now v cause. ''why'')\<rparr>"

definition demo_options :: handle_options where
  "demo_options = \<lparr>ho_step_up = None, ho_reply_message_id = [], ho_reply_nonce = []\<rparr>"

definition demo_inbound :: "pyval \<Rightarrow> pyval" where
  "demo_inbound rid =
     PDict (dset ''payload'' (PDict [(''jsonrpc'', PStr ''2.0''), (''method'', PStr ''t''), (''id'', rid)]) (dict_of demo_envelope))"

definition demo_host_state :: "(replay_cache, audit_fields list, nat, unit) host_state" where
  "demo_host_state = \<lparr>hs_cache = mem_empty, hs_audit = [], hs_buckets = Map.empty, hs_world = 5, hs_minter = ()\<rparr>"

lemma demo_host_logs: "logs_to (mh_audit_sink demo_host) (\<lambda>k. k)"
  by (simp add: logs_to_def demo_host_def)

lemma demo_host_run:
  "hs_world (snd (host_handle demo_platform demo_host demo_options 0 (demo_inbound (PInt 9)) demo_host_state)) = 6"
  by code_simp

text \<open>A tool that raises with a secret in the text of its exception. The egress matrix of the host allows
  nothing, and there is no egress event, but the secret leaves in the error reply.\<close>

definition leaky_host :: "(replay_cache, audit_fields list, nat, unit) host_config" where
  "leaky_host = demo_host
     \<lparr>mh_tools := [''t'' \<mapsto> (\<lambda>args n. (Inl ''secret'', Suc n))],
      mh_egress_policy := \<lparr>ep_cells = [], ep_restricted_no_export = True\<rparr>\<rparr>"

lemma tool_exception_unscanned:
  "(case host_handle demo_platform leaky_host demo_options 0 (demo_inbound (PInt 9)) demo_host_state of
      (Inr reply, S') \<Rightarrow> item (dict_of (item reply ''payload'')) ''error'' =
          error_object JSONRPC_INTERNAL_ERROR ''tool raised: secret'' \<and>
        list_all (\<lambda>ev. ev_event_type ev \<noteq> ''egress.evaluate'') (hs_audit S')
    | (Inl e, S') \<Rightarrow> False)"
  by code_simp

theorem host_pipeline_safe_witness:
  "\<exists>req. admitted demo_platform demo_host demo_options 0 (demo_inbound (PInt 9)) req
     (hs_audit (snd (host_handle demo_platform demo_host demo_options 0 (demo_inbound (PInt 9)) demo_host_state))) \<and>
     mh_tools demo_host (mq_method req) \<noteq> None"
proof -
  obtain r S' where run: "host_handle demo_platform demo_host demo_options 0 (demo_inbound (PInt 9)) demo_host_state = (r, S')"
    by fastforce
  have "hs_world S' \<noteq> hs_world demo_host_state" using demo_host_run unfolding run by (simp add: demo_host_state_def)
  then show ?thesis using host_pipeline_safe[OF demo_host_logs run] by (auto simp: run tool_ran_def)
qed




end
