(* ===== verification/PolicyBundle.thy ===== *)
theory PolicyBundle
  imports Issuance
begin

text \<open>
  How issuance policies are released: signed bundles with an anti-rollback guard
  (\<open>policy_bundle.py\<close>) and the canary with its automatic rollback (\<open>canary_policy.py\<close>). The fields of a
  bundle are \<open>pyval\<close>s until its shape is checked; the reader has made the grants triples of strings.
\<close>

section \<open>Bundles\<close>

abbreviation bundle_error :: exn where
  "bundle_error \<equiv> repo_error ''PolicyBundleError''"

record policy_bundle =
  pb_version :: pyval
  pb_issuer_iss :: pyval
  pb_issuer_kid :: pyval
  pb_allowlist_grants :: "(string \<times> string \<times> string) list"
  pb_max_ttl_seconds :: pyval
  pb_signature :: pyval

fun grant_value :: "string \<times> string \<times> string \<Rightarrow> pyval" where
  "grant_value (sub, aud, scope) = PList [PStr sub, PStr aud, PStr scope]"

definition bundle_object :: "policy_bundle \<Rightarrow> pyval" where
  "bundle_object b =
     PDict [(''version'', pb_version b), (''issuer_iss'', pb_issuer_iss b), (''issuer_kid'', pb_issuer_kid b),
            (''allowlist_grants'', PList (map grant_value (pb_allowlist_grants b))),
            (''max_ttl_seconds'', pb_max_ttl_seconds b), (''signature'', pb_signature b)]"

definition bundle_body :: "policy_bundle \<Rightarrow> pyval" where
  "bundle_body b =
     PDict [(''typ'', PStr ''wt-policy-bundle/v0''), (''version'', pb_version b), (''issuer_iss'', pb_issuer_iss b),
            (''issuer_kid'', pb_issuer_kid b), (''allowlist_grants'', PList (map grant_value (pb_allowlist_grants b))),
            (''max_ttl_seconds'', pb_max_ttl_seconds b)]"

definition sign_bundle :: "platform \<Rightarrow> (string \<Rightarrow> string) \<Rightarrow> policy_bundle \<Rightarrow> exn + policy_bundle" where
  "sign_bundle P sign b = bindE (sign_body P sign (bundle_body b)) (\<lambda>s. Inr (b\<lparr>pb_signature := s\<rparr>))"

definition bundle_fields :: "string list" where
  "bundle_fields = [''version'', ''issuer_iss'', ''issuer_kid'', ''allowlist_grants'', ''max_ttl_seconds'', ''signature'']"

fun read_grants :: "pyval list \<Rightarrow> exn + (string \<times> string \<times> string) list" where
  "read_grants [] = Inr []"
| "read_grants (PList [PStr sub, PStr aud, PStr scope] # gs) =
     bindE (read_grants gs) (\<lambda>rest. Inr ((sub, aud, scope) # rest))"
| "read_grants (g # gs) = Inl bundle_error"

definition bundle_from_json :: "platform \<Rightarrow> string \<Rightarrow> exn + policy_bundle" where
  "bundle_from_json P data =
     (case p_json_loads P data of
        Inl e \<Rightarrow> if value_or_type_error e then Inl bundle_error else Inl e
      | Inr obj \<Rightarrow>
          if \<not> is_dict obj then Inl bundle_error
          else let d = dict_of obj in
            if \<not> list_all (has_key d) bundle_fields then Inl bundle_error
            else (case item d ''allowlist_grants'' of
                PList raw \<Rightarrow>
                  bindE (read_grants raw) (\<lambda>grants.
                    Inr \<lparr>pb_version = item d ''version'', pb_issuer_iss = item d ''issuer_iss'',
                         pb_issuer_kid = item d ''issuer_kid'', pb_allowlist_grants = grants,
                         pb_max_ttl_seconds = item d ''max_ttl_seconds'', pb_signature = item d ''signature''\<rparr>)
              | _ \<Rightarrow> Inl bundle_error))"

text \<open>\<open>isinstance(v, int) and v > 0\<close>, where a boolean is an \<open>int\<close>; the version excludes booleans.\<close>

fun positive_int :: "pyval \<Rightarrow> bool" where
  "positive_int (PInt n) = (0 < n)"
| "positive_int (PBool b) = b"
| "positive_int _ = False"

definition validate_bundle_shape :: "policy_bundle \<Rightarrow> exn + unit" where
  "validate_bundle_shape b =
     guards
      ([(is_int (pb_version b) \<and> \<not> int_of (pb_version b) < 1, bundle_error),
        (str_test spiffe_id_re (pb_issuer_iss b), bundle_error), (str_test kid_re (pb_issuer_kid b), bundle_error),
        (positive_int (pb_max_ttl_seconds b), bundle_error)] @
       concat (map (\<lambda>(sub, aud, scope). [(spiffe_id_re sub, bundle_error), (spiffe_id_re aud, bundle_error),
                                         (scope \<noteq> [], bundle_error)]) (pb_allowlist_grants b)))"

text \<open>What the bundle grants: the allowlist and the longest lifetime.\<close>

record bundle_policy =
  bp_allowed_grants :: "(string \<times> string \<times> string) set"
  bp_max_ttl :: timedelta

definition realized_policy :: "bundle_policy \<Rightarrow> issuance_policy" where
  "realized_policy bp = allowlist_policy (bp_allowed_grants bp) (bp_max_ttl bp)"

definition verify_bundle ::
  "platform \<Rightarrow> (string \<Rightarrow> string \<Rightarrow> exn + string) \<Rightarrow> policy_bundle \<Rightarrow> exn + bundle_policy" where
  "verify_bundle P issuer_lookup b =
     bindE (validate_bundle_shape b) (\<lambda>_.
     bindE (guard (truthy (pb_signature b)) bundle_error) (\<lambda>_.
     bindE (catch_all bundle_error (decode_base64url (pb_signature b))) (\<lambda>sig_bytes.
     bindE (catch_all bundle_error (issuer_lookup (str_of (pb_issuer_iss b)) (str_of (pb_issuer_kid b)))) (\<lambda>pem.
     bindE (catch_all bundle_error (load_ed25519_public_key P pem)) (\<lambda>key.
     bindE (p_canon P (bundle_body b)) (\<lambda>input.
     bindE (guard (p_verify P key sig_bytes input) bundle_error) (\<lambda>_.
     bindE (timedelta_of (pb_max_ttl_seconds b)) (\<lambda>max_ttl.
     Inr \<lparr>bp_allowed_grants = set (pb_allowlist_grants b), bp_max_ttl = max_ttl\<rparr>))))))))"


section \<open>Rollback guards\<close>

text \<open>\<open>RollbackGuard.accept\<close> over the two operations of a store.\<close>

definition guard_accept ::
  "('s \<Rightarrow> string \<Rightarrow> exn + int option) \<Rightarrow> (string \<Rightarrow> int \<Rightarrow> 's \<Rightarrow> (exn + unit) \<times> 's) \<Rightarrow> string \<times> int \<Rightarrow> 's \<Rightarrow>
   (exn + unit) \<times> 's" where
  "guard_accept get put release s =
     (case release of (iss, version) \<Rightarrow>
        (case get s iss of
           Inl e \<Rightarrow> (Inl e, s)
         | Inr (Some l) \<Rightarrow> if version \<le> l then (Inl bundle_error, s) else put iss version s
         | Inr None \<Rightarrow> put iss version s))"

type_synonym memory_guard = "string \<rightharpoonup> int"

definition memory_get :: "memory_guard \<Rightarrow> string \<Rightarrow> exn + int option" where
  "memory_get m iss = Inr (m iss)"

definition memory_put :: "string \<Rightarrow> int \<Rightarrow> memory_guard \<Rightarrow> (exn + unit) \<times> memory_guard" where
  "memory_put iss version m = (Inr (), m(iss \<mapsto> version))"

text \<open>The file holds the JSON text of a dictionary and is read again by every operation; \<open>dumps\<close> is
  \<open>json.dumps\<close>. Reading and writing the file themselves do not fail here.\<close>

fun int_values :: "(string \<times> pyval) list \<Rightarrow> exn + (string \<times> int) list" where
  "int_values [] = Inr []"
| "int_values ((k, v) # d) = bindE (py_int v) (\<lambda>n. bindE (int_values d) (\<lambda>rest. Inr ((k, n) # rest)))"

definition file_load :: "platform \<Rightarrow> string \<Rightarrow> exn + (string \<times> int) list" where
  "file_load P content =
     (case p_json_loads P content of
        Inl e \<Rightarrow> if value_or_type_error e then Inl bundle_error else Inl e
      | Inr v \<Rightarrow> if \<not> is_dict v then Inl bundle_error else int_values (dict_of v))"

definition file_get :: "platform \<Rightarrow> string \<Rightarrow> string \<Rightarrow> exn + int option" where
  "file_get P content iss = bindE (file_load P content) (\<lambda>d. Inr (dget d iss))"

definition versions_object :: "(string \<times> int) list \<Rightarrow> pyval" where
  "versions_object d = PDict (map (\<lambda>(k, n). (k, PInt n)) d)"

definition file_put :: "platform \<Rightarrow> (pyval \<Rightarrow> string) \<Rightarrow> string \<Rightarrow> int \<Rightarrow> string \<Rightarrow> (exn + unit) \<times> string" where
  "file_put P dumps iss version content =
     (case file_load P content of
        Inl e \<Rightarrow> (Inl e, content)
      | Inr d \<Rightarrow> (Inr (), dumps (versions_object (dset iss version d))))"


section \<open>The canary\<close>

record canary_config =
  cc_stable :: issuance_policy
  cc_candidate :: issuance_policy
  cc_canary_buckets :: int
  cc_rollback_after_denials :: int

record canary_state =
  cst_candidate_denials :: int
  cst_rolled_back :: bool

definition canary_config_ok :: "canary_config \<Rightarrow> exn + unit" where
  "canary_config_ok C =
     guards [(0 \<le> cc_canary_buckets C \<and> cc_canary_buckets C \<le> 100, std_error ''ValueError''),
             (\<not> cc_rollback_after_denials C < 1, std_error ''ValueError'')]"

definition new_canary :: canary_state where
  "new_canary = \<lparr>cst_candidate_denials = 0, cst_rolled_back = False\<rparr>"

text \<open>\<open>int(s, 16)\<close> on lower-case hexadecimal digits.\<close>

definition hex_int :: "string \<Rightarrow> nat" where
  "hex_int s = foldl (\<lambda>n c. 16 * n + (if is_digit c then of_char c - 48 else of_char c - 87)) 0 s"

definition bucket_of_grant :: "platform \<Rightarrow> string \<Rightarrow> string \<Rightarrow> string \<Rightarrow> int" where
  "bucket_of_grant P sub aud scope = int (hex_int (take 8 (p_sha256 P (sub @ ''|'' @ aud @ ''|'' @ scope)))) mod 100"

definition selects_candidate :: "platform \<Rightarrow> canary_config \<Rightarrow> canary_state \<Rightarrow> string \<Rightarrow> string \<Rightarrow> string \<Rightarrow> bool" where
  "selects_candidate P C st sub aud scope =
     (if cst_rolled_back st then False
      else if cc_canary_buckets C \<le> 0 then False
      else if cc_canary_buckets C \<ge> 100 then True
      else bucket_of_grant P sub aud scope < cc_canary_buckets C)"

definition canary_evaluate ::
  "platform \<Rightarrow> canary_config \<Rightarrow> string \<Rightarrow> string \<Rightarrow> string \<Rightarrow> timedelta \<Rightarrow> canary_state \<Rightarrow> (exn + bool) \<times> canary_state" where
  "canary_evaluate P C sub aud scope ttl st =
     (if selects_candidate P C st sub aud scope then
        (case cc_candidate C sub aud scope ttl of
           Inl e \<Rightarrow> (Inl e, st)
         | Inr allowed \<Rightarrow>
             (Inr allowed,
              if \<not> allowed then
                (let st' = st\<lparr>cst_candidate_denials := cst_candidate_denials st + 1\<rparr> in
                 if cst_candidate_denials st' \<ge> cc_rollback_after_denials C then st'\<lparr>cst_rolled_back := True\<rparr> else st')
              else st))
      else (cc_stable C sub aud scope ttl, st))"


section \<open>Versions only grow\<close>

text \<open>\<open>newer rs\<close>: the releases of one issuer are in the order of their versions.\<close>

definition newer :: "(string \<times> int) list \<Rightarrow> bool" where
  "newer rs \<longleftrightarrow> sorted_wrt (\<lambda>r r'. fst r = fst r' \<longrightarrow> snd r < snd r') rs"

locale rollback_guard =
  fixes get :: "'s \<Rightarrow> string \<Rightarrow> exn + int option"
    and put :: "string \<Rightarrow> int \<Rightarrow> 's \<Rightarrow> (exn + unit) \<times> 's"
    and good :: "'s \<Rightarrow> bool"
    and valid :: "string \<times> int \<Rightarrow> bool"
  assumes put_ok: "good s \<Longrightarrow> valid (iss, version) \<Longrightarrow> put iss version s = (Inr u, s') \<Longrightarrow>
      good s' \<and> (\<forall>i. get s' i = (if i = iss then Inr (Some version) else get s i))"
    and put_error: "put iss version s = (Inl e, s') \<Longrightarrow> s' = s"
begin

lemma accept_ok:
  assumes "good s" "valid r" "guard_accept get put r s = (Inr u, s')"
  shows "good s'" "\<And>l. get s (fst r) = Inr (Some l) \<Longrightarrow> l < snd r"
    "get s' i = (if i = fst r then Inr (Some (snd r)) else get s i)"
proof -
  obtain iss version where r: "r = (iss, version)" by (cases r)
  have put: "put iss version s = (Inr u, s') \<and> (\<forall>l. get s iss = Inr (Some l) \<longrightarrow> l < version)"
    using assms(3) by (auto simp: guard_accept_def r split: sum.splits option.splits if_splits)
  then show "good s'" "\<And>l. get s (fst r) = Inr (Some l) \<Longrightarrow> l < snd r"
    "get s' i = (if i = fst r then Inr (Some (snd r)) else get s i)"
    using put_ok[of s iss version u s'] assms(1,2) by (auto simp: r)
qed

lemma accept_error: "guard_accept get put r s = (Inl e, s') \<Longrightarrow> s' = s"
  by (auto simp: guard_accept_def split: sum.splits option.splits if_splits prod.splits dest: put_error)

lemma accept_all:
  assumes "good s" "\<forall>r\<in>set rs. valid r" "submit_all (guard_accept get put) (\<lambda>r. r) rs s = (accepted, s')"
  shows "good s' \<and> newer accepted \<and>
    (\<forall>r\<in>set accepted. \<forall>l. get s (fst r) = Inr (Some l) \<longrightarrow> l < snd r) \<and>
    (\<forall>i l. get s i = Inr (Some l) \<longrightarrow> (\<exists>l'\<ge>l. get s' i = Inr (Some l'))) \<and>
    (\<forall>r\<in>set accepted. \<exists>l\<ge>snd r. get s' (fst r) = Inr (Some l))"
  using assms
proof (induction rs arbitrary: s accepted)
  case Nil
  then show ?case by (auto simp: newer_def)
next
  case (Cons r rs)
  obtain x s1 where x: "guard_accept get put r s = (x, s1)" by fastforce
  show ?case
  proof (cases x)
    case (Inl e)
    then show ?thesis using Cons accept_error[of r s e s1] x by simp
  next
    case (Inr u)
    obtain rest where rest: "submit_all (guard_accept get put) (\<lambda>r. r) rs s1 = (rest, s')" "accepted = r # rest"
      using Cons.prems(3) x Inr by (auto split: prod.splits)
    note ok = accept_ok[OF Cons.prems(1) _ x[unfolded Inr]]
    have good: "good s1" and at: "get s1 i = (if i = fst r then Inr (Some (snd r)) else get s i)"
      and above: "get s (fst r) = Inr (Some l) \<Longrightarrow> l < snd r" for i l
      using ok Cons.prems(2) by auto
    note ih = Cons.IH[OF good _ rest(1)]
    have ih1: "good s'" "newer rest" "\<forall>q\<in>set rest. \<forall>l. get s1 (fst q) = Inr (Some l) \<longrightarrow> l < snd q"
      "\<forall>i l. get s1 i = Inr (Some l) \<longrightarrow> (\<exists>l'\<ge>l. get s' i = Inr (Some l'))"
      "\<forall>q\<in>set rest. \<exists>l\<ge>snd q. get s' (fst q) = Inr (Some l)"
      using ih Cons.prems(2) by auto
    have after: "\<forall>q\<in>set rest. fst q = fst r \<longrightarrow> snd r < snd q" using ih1(3) at by auto
    then have new: "newer accepted" using ih1(2) by (auto simp: newer_def rest(2))
    have fresh: "\<forall>q\<in>set accepted. \<forall>l. get s (fst q) = Inr (Some l) \<longrightarrow> l < snd q"
      using above after ih1(3) at unfolding rest(2) by (auto split: if_splits)
    have kept: "\<exists>l'\<ge>l. get s' i = Inr (Some l')" if "get s i = Inr (Some l)" for i l
    proof (cases "i = fst r")
      case True
      then have "l < snd r" "\<exists>l'\<ge>snd r. get s' i = Inr (Some l')" using above that ih1(4) at by auto
      then show ?thesis by fastforce
    next
      case False
      then show ?thesis using ih1(4) at that by simp
    qed
    have "\<exists>l\<ge>snd r. get s' (fst r) = Inr (Some l)" using ih1(4) at by auto
    then have "\<forall>q\<in>set accepted. \<exists>l\<ge>snd q. get s' (fst q) = Inr (Some l)" using ih1(5) by (simp add: rest(2))
    then show ?thesis using ih1(1) new fresh kept by simp
  qed
qed

end

interpretation memory_versions: rollback_guard memory_get memory_put "\<lambda>m. True" "\<lambda>r. True"
  by unfold_locales (auto simp: memory_get_def memory_put_def)

text \<open>The file guard: the releases are among \<open>R\<close>, whose version dictionaries the JSON codec writes and
  reads faithfully.\<close>

definition versions_of :: "(string \<times> int) set \<Rightarrow> (string \<times> int) list \<Rightarrow> bool" where
  "versions_of R d \<longleftrightarrow> distinct (map fst d) \<and> set d \<subseteq> R"

definition versions_faithful :: "platform \<Rightarrow> (pyval \<Rightarrow> string) \<Rightarrow> (string \<times> int) set \<Rightarrow> bool" where
  "versions_faithful P dumps R \<longleftrightarrow> (\<forall>d. versions_of R d \<longrightarrow> json_faithful P dumps (versions_object d))"

lemma int_values_object: "int_values (map (\<lambda>(k, n). (k, PInt n)) d) = Inr d"
  by (induction d) auto

lemma file_put_versions:
  assumes "versions_faithful P dumps R" "file_load P content = Inr d" "versions_of R d" "(iss, version) \<in> R"
  shows "\<exists>content'. file_put P dumps iss version content = (Inr (), content') \<and>
    file_load P content' = Inr (dset iss version d) \<and> versions_of R (dset iss version d)"
proof -
  have v: "versions_of R (dset iss version d)"
    using assms(3,4) set_dset[of iss version d] by (auto simp: versions_of_def distinct_update)
  then have "json_faithful P dumps (versions_object (dset iss version d))"
    using assms(1) by (simp add: versions_faithful_def)
  then have "file_load P (dumps (versions_object (dset iss version d))) = Inr (dset iss version d)"
    by (simp add: json_faithful_def file_load_def versions_object_def int_values_object)
  then show ?thesis using v assms(2) by (simp add: file_put_def)
qed

interpretation file_versions: rollback_guard "file_get P" "file_put P dumps"
  "\<lambda>content. versions_faithful P dumps R \<and> (\<exists>d. file_load P content = Inr d \<and> versions_of R d)" "\<lambda>r. r \<in> R"
  for P dumps R
proof unfold_locales
  fix content iss version and u :: unit and content'
  assume good: "versions_faithful P dumps R \<and> (\<exists>d. file_load P content = Inr d \<and> versions_of R d)"
    and r: "(iss, version) \<in> R" and put: "file_put P dumps iss version content = (Inr u, content')"
  obtain d where d: "file_load P content = Inr d" "versions_of R d" using good by blast
  from file_put_versions[OF conjunct1[OF good] d r] put d
  show "(versions_faithful P dumps R \<and> (\<exists>d. file_load P content' = Inr d \<and> versions_of R d)) \<and>
      (\<forall>i. file_get P content' i = (if i = iss then Inr (Some version) else file_get P content i))"
    using conjunct1[OF good] by (auto simp: file_get_def dget_dset)
next
  fix content iss version e content'
  show "file_put P dumps iss version content = (Inl e, content') \<Longrightarrow> content' = content"
    by (auto simp: file_put_def split: sum.splits)
qed

text \<open>C19. No policy is rolled back, with either store: of the releases the issuers hand to the
  file-backed guard, in any order and across restarts, or to the guard in memory, those that are
  accepted have strictly growing versions for each issuer, all above what the store held before; and
  what the store holds for an issuer never falls, and is at least every version accepted.\<close>

theorem versions_never_roll_back:
  assumes "versions_faithful P dumps (set d \<union> set rs)" "file_load P content = Inr d" "distinct (map fst d)"
    and "submit_all (guard_accept (file_get P) (file_put P dumps)) (\<lambda>r. r) rs content = (accepted, content')"
    and "submit_all (guard_accept memory_get memory_put) (\<lambda>r. r) rs m = (accepted2, m')"
  shows "(newer accepted \<and>
      (\<forall>r\<in>set accepted. \<forall>l. dget d (fst r) = Some l \<longrightarrow> l < snd r) \<and>
      (\<forall>iss l. dget d iss = Some l \<longrightarrow> (\<exists>l'\<ge>l. file_get P content' iss = Inr (Some l'))) \<and>
      (\<forall>r\<in>set accepted. \<exists>l\<ge>snd r. file_get P content' (fst r) = Inr (Some l))) \<and>
    (newer accepted2 \<and>
      (\<forall>r\<in>set accepted2. \<forall>l. m (fst r) = Some l \<longrightarrow> l < snd r) \<and>
      (\<forall>iss l. m iss = Some l \<longrightarrow> (\<exists>l'\<ge>l. memory_get m' iss = Inr (Some l'))) \<and>
      (\<forall>r\<in>set accepted2. \<exists>l\<ge>snd r. memory_get m' (fst r) = Inr (Some l)))"
proof (rule conjI)
  show "newer accepted \<and>
      (\<forall>r\<in>set accepted. \<forall>l. dget d (fst r) = Some l \<longrightarrow> l < snd r) \<and>
      (\<forall>iss l. dget d iss = Some l \<longrightarrow> (\<exists>l'\<ge>l. file_get P content' iss = Inr (Some l'))) \<and>
      (\<forall>r\<in>set accepted. \<exists>l\<ge>snd r. file_get P content' (fst r) = Inr (Some l))"
    using file_versions.accept_all[where R = "set d \<union> set rs", OF _ _ assms(4)] assms(1-3)
    by (auto simp: versions_of_def file_get_def)
  show "newer accepted2 \<and>
      (\<forall>r\<in>set accepted2. \<forall>l. m (fst r) = Some l \<longrightarrow> l < snd r) \<and>
      (\<forall>iss l. m iss = Some l \<longrightarrow> (\<exists>l'\<ge>l. memory_get m' iss = Inr (Some l'))) \<and>
      (\<forall>r\<in>set accepted2. \<exists>l\<ge>snd r. memory_get m' (fst r) = Inr (Some l))"
    using memory_versions.accept_all[OF _ _ assms(5)] by (simp add: memory_get_def)
qed


section \<open>What a verified bundle lets an issuer do\<close>

lemma bundle_roundtrip:
  assumes "p_json_loads P data = Inr (bundle_object b)"
  shows "bundle_from_json P data = Inr b"
proof -
  have "read_grants (map grant_value gs) = Inr gs" for gs by (induction gs) auto
  then show ?thesis
    using assms by (simp add: bundle_from_json_def bundle_object_def bundle_fields_def has_key_def item_def Let_def)
qed

interpretation bundles: signed_artifact bundle_body pb_signature sign_bundle bundle_object bundle_from_json
  by unfold_locales (auto simp: sign_bundle_def bundle_body_def intro: bundle_roundtrip)

definition bundle_signed :: "platform \<Rightarrow> (string \<Rightarrow> string \<Rightarrow> exn + string) \<Rightarrow> policy_bundle \<Rightarrow> bool" where
  "bundle_signed P lookup b \<longleftrightarrow>
     (\<exists>iss kid. pb_issuer_iss b = PStr iss \<and> pb_issuer_kid b = PStr kid \<and>
        signed_by P lookup iss kid (pb_signature b) (bundle_body b))"

lemma verify_bundle_Inr:
  "verify_bundle P lookup b = Inr bp \<longleftrightarrow>
     validate_bundle_shape b = Inr () \<and> truthy (pb_signature b) \<and> bundle_signed P lookup b \<and>
     (\<exists>ttl. timedelta_of (pb_max_ttl_seconds b) = Inr ttl \<and>
        bp = \<lparr>bp_allowed_grants = set (pb_allowlist_grants b), bp_max_ttl = ttl\<rparr>)"
proof -
  have "validate_bundle_shape b = Inr () \<Longrightarrow> (\<exists>iss. pb_issuer_iss b = PStr iss) \<and> (\<exists>kid. pb_issuer_kid b = PStr kid)"
    by (auto simp: validate_bundle_shape_def str_test_iff)
  then show ?thesis
    by (auto simp: verify_bundle_def bundle_signed_def signed_by_def load_key_Inr)
qed

lemma bundle_grant_wf:
  assumes "validate_bundle_shape b = Inr ()" "(sub, aud, scope) \<in> set (pb_allowlist_grants b)"
  shows "spiffe_id_re sub \<and> spiffe_id_re aud \<and> scope \<noteq> []"
proof -
  have "\<forall>t\<in>set (pb_allowlist_grants b). case t of (sub, aud, scope) \<Rightarrow> spiffe_id_re sub \<and> spiffe_id_re aud \<and> scope \<noteq> []"
    using assms(1) unfolding validate_bundle_shape_def guards_Inr set_append ball_Un set_concat ball_UN set_map ball_simps
    by (simp add: case_prod_beta)
  from bspec[OF this assms(2)] show ?thesis by simp
qed

text \<open>A lifetime beyond the range of \<open>timedelta\<close> leaves \<open>verify_bundle\<close> as an \<open>OverflowError\<close>.\<close>

lemma bundle_ttl_overflow:
  assumes "validate_bundle_shape b = Inr ()" "truthy (pb_signature b)" "bundle_signed P lookup b"
    and "pb_max_ttl_seconds b = PInt n" "\<not> timedelta_ok n"
  shows "verify_bundle P lookup b = Inl (std_error ''OverflowError'')"
proof -
  obtain iss kid pem key raw input where "pb_issuer_iss b = PStr iss" "pb_issuer_kid b = PStr kid" "lookup iss kid = Inr pem"
    "p_load_pem P pem = Inr (Ed25519Key key)" "decode_base64url (pb_signature b) = Inr raw"
    "p_canon P (bundle_body b) = Inr input" "p_verify P key raw input"
    using assms(3) by (auto simp: bundle_signed_def signed_by_def)
  moreover from this have "load_ed25519_public_key P pem = Inr key" by (simp add: load_key_Inr)
  ultimately show ?thesis
    using assms(1,2,4,5) by (simp add: verify_bundle_def catch_all_def timedelta_seconds_def)
qed

text \<open>C25. A token is minted only under a signed policy: if the policy of an issuer is the one a verified
  bundle realises, then every token it mints is for a grant listed in that bundle, within the
  bundle's lifetime, and the bundle was signed by an authority the trust store of policies names.\<close>

theorem bundle_bounds_issuance:
  assumes "verify_bundle P policy_lookup b = Inr bp" "is_policy I = realized_policy bp"
    and "issue rnd dumps sign sink I sub aud scope digest jti ttl minted rb resource k = (Inr token, k')"
  shows "(sub, aud, scope) \<in> set (pb_allowlist_grants b) \<and> spiffe_id_re sub \<and> spiffe_id_re aud \<and> scope \<noteq> [] \<and>
    (\<exists>longest. timedelta_of (pb_max_ttl_seconds b) = Inr longest \<and>
       (case ttl of None \<Rightarrow> is_default_ttl I | Some t \<Rightarrow> t) \<le> longest) \<and>
    bundle_signed P policy_lookup b"
proof -
  obtain longest where b: "validate_bundle_shape b = Inr ()" "bundle_signed P policy_lookup b"
    "timedelta_of (pb_max_ttl_seconds b) = Inr longest"
    "bp = \<lparr>bp_allowed_grants = set (pb_allowlist_grants b), bp_max_ttl = longest\<rparr>"
    using assms(1) by (auto simp: verify_bundle_Inr)
  have "(sub, aud, scope) \<in> set (pb_allowlist_grants b)" "(case ttl of None \<Rightarrow> is_default_ttl I | Some t \<Rightarrow> t) \<le> longest"
    using issue_Inr(2)[OF assms(3)] by (auto simp: assms(2) realized_policy_def b(4) allowlist_policy_def split: if_splits)
  then show ?thesis using bundle_grant_wf[OF b(1)] b by blast
qed


section \<open>The canary rolls back\<close>

text \<open>A run of requests, with the answers.\<close>

fun canary_all ::
  "platform \<Rightarrow> canary_config \<Rightarrow> (string \<times> string \<times> string \<times> timedelta) list \<Rightarrow> canary_state \<Rightarrow>
   (exn + bool) list \<times> canary_state" where
  "canary_all P C [] st = ([], st)"
| "canary_all P C ((sub, aud, scope, ttl) # qs) st =
     (case canary_evaluate P C sub aud scope ttl st of
        (r, st') \<Rightarrow> (case canary_all P C qs st' of (rs, st'') \<Rightarrow> (r # rs, st'')))"

definition canary_inv :: "canary_config \<Rightarrow> canary_state \<Rightarrow> bool" where
  "canary_inv C st \<longleftrightarrow>
     0 \<le> cst_candidate_denials st \<and> cst_candidate_denials st \<le> cc_rollback_after_denials C \<and>
     (cst_rolled_back st \<longleftrightarrow> cst_candidate_denials st = cc_rollback_after_denials C)"

lemma canary_evaluate_inv:
  "canary_inv C st \<Longrightarrow> canary_evaluate P C sub aud scope ttl st = (r, st') \<Longrightarrow> canary_inv C st'"
  by (auto simp: canary_inv_def canary_evaluate_def selects_candidate_def Let_def split: if_splits sum.splits)

lemma canary_rolled_back:
  "cst_rolled_back st \<Longrightarrow> canary_evaluate P C sub aud scope ttl st = (cc_stable C sub aud scope ttl, st)"
  by (simp add: canary_evaluate_def selects_candidate_def)

lemma canary_all_inv:
  "canary_inv C st \<Longrightarrow> canary_all P C qs st = (rs, st') \<Longrightarrow> canary_inv C st'"
proof (induction qs arbitrary: st rs)
  case (Cons q qs)
  then show ?case by (cases q) (auto split: prod.splits dest: canary_evaluate_inv)
qed simp

text \<open>The candidate never denies more than \<open>rollback_after_denials\<close> requests; once it has, the answers
  are those of the stable policy, for ever.\<close>

lemma canary_bounded:
  assumes "canary_config_ok C = Inr ()" "canary_all P C qs new_canary = (rs, st)"
  shows "cst_candidate_denials st \<le> cc_rollback_after_denials C \<and>
    (cst_candidate_denials st = cc_rollback_after_denials C \<longrightarrow>
      canary_evaluate P C sub aud scope ttl st = (cc_stable C sub aud scope ttl, st))"
proof -
  have "canary_inv C new_canary" using assms(1) by (auto simp: canary_inv_def new_canary_def canary_config_ok_def)
  then have "canary_inv C st" using canary_all_inv assms(2) by blast
  then show ?thesis using canary_rolled_back by (auto simp: canary_inv_def)
qed


section \<open>A concrete release\<close>

definition demo_bundle :: policy_bundle where
  "demo_bundle =
     \<lparr>pb_version = PInt 1, pb_issuer_iss = PStr ''spiffe://p'', pb_issuer_kid = PStr ''pk'',
      pb_allowlist_grants = [(''spiffe://a'', ''spiffe://b'', ''read'')], pb_max_ttl_seconds = PInt 300,
      pb_signature = PStr ''AA''\<rparr>"

theorem bundle_bounds_issuance_witness:
  "(''spiffe://a'', ''spiffe://b'', ''read'') \<in> set (pb_allowlist_grants demo_bundle) \<and>
   bundle_signed demo_platform (\<lambda>iss kid. Inr ''pem'') demo_bundle"
proof -
  have shape: "validate_bundle_shape demo_bundle = Inr ()"
    by (simp add: validate_bundle_shape_def demo_bundle_def) (simp add: pattern_defs)
  have "verify_bundle demo_platform (\<lambda>iss kid. Inr ''pem'') demo_bundle =
      Inr \<lparr>bp_allowed_grants = {(''spiffe://a'', ''spiffe://b'', ''read'')}, bp_max_ttl = seconds 300\<rparr>"
    using shape demo_signed unfolding verify_bundle_Inr
    by (simp add: bundle_signed_def demo_bundle_def timedelta_seconds_def timedelta_ok_def)
  then show ?thesis
    using bundle_bounds_issuance[OF _ _ issued_demo] by (force simp: demo_issuer_def realized_policy_def)
qed

definition release_platform :: platform where
  "release_platform = demo_platform\<lparr>p_json_loads :=
     (\<lambda>s. Inr (versions_object (if s = ''0'' then [] else if s = ''1'' then [(''p'', 1)] else [(''p'', 2)])))\<rparr>"

definition release_dumps :: "pyval \<Rightarrow> string" where
  "release_dumps v = (if v = versions_object [] then ''0'' else if v = versions_object [(''p'', 1)] then ''1'' else ''2'')"

theorem versions_never_roll_back_witness:
  "fst (submit_all (guard_accept (file_get release_platform) (file_put release_platform release_dumps)) (\<lambda>r. r)
      [(''p'', 1), (''p'', 2), (''p'', 1)] ''0'') = [(''p'', 1), (''p'', 2)] \<and> newer [(''p'', 1), (''p'', 2)]"
proof -
  have "d \<in> {[], [(''p'', 1)], [(''p'', 2)]}" if "versions_of {(''p'', 1), (''p'', 2)} d" for d
    using that by (cases d; cases "tl d") (auto simp: versions_of_def)
  moreover have "json_faithful release_platform release_dumps (versions_object d)"
    if "d \<in> {[], [(''p'', 1)], [(''p'', 2)]}" for d
    using that by (auto simp: json_faithful_def release_dumps_def release_platform_def versions_object_def)
  ultimately have faithful: "versions_faithful release_platform release_dumps {(''p'', 1), (''p'', 2)}"
    unfolding versions_faithful_def by blast
  have load: "file_load release_platform ''0'' = Inr []"
    by (simp add: file_load_def release_platform_def versions_object_def)
  obtain content' where run: "submit_all (guard_accept (file_get release_platform) (file_put release_platform release_dumps)) (\<lambda>r. r)
      [(''p'', 1), (''p'', 2), (''p'', 1)] ''0'' = ([(''p'', 1), (''p'', 2)], content')"
    by (simp add: guard_accept_def file_get_def file_put_def file_load_def release_platform_def release_dumps_def versions_object_def)
  obtain m' where mem: "submit_all (guard_accept memory_get memory_put) (\<lambda>r. r)
      [(''p'', 1), (''p'', 2), (''p'', 1)] Map.empty = ([(''p'', 1), (''p'', 2)], m')"
    by (simp add: guard_accept_def memory_get_def memory_put_def)
  have "set [] \<union> set [(''p'', 1), (''p'', 2), (''p'', 1)] = {(''p'', 1), (''p'', 2::int)}" by auto
  then have "newer [(''p'', 1), (''p'', 2)]" using versions_never_roll_back[OF _ load _ run mem] faithful by simp
  then show ?thesis unfolding run by simp
qed

end
