(* ===== verification/Convergence.thy ===== *)
theory Convergence
  imports Demo
begin

text \<open>
  Convergence of revocations (\<open>revocation_convergence.py\<close>): the tracker of broadcasts and
  acknowledgements, and the evaluation of a broadcast against its service level. Times are in UTC.
\<close>

section \<open>The tracker\<close>

abbreviation convergence_error :: exn where
  "convergence_error \<equiv> repo_error ''RevocationConvergenceError''"

text \<open>The nodes of a broadcast are a \<open>frozenset\<close>, here the distinct list of its elements in the order
  the set iterates; every use of the order sorts afterwards.\<close>

record broadcast =
  bc_jti :: string
  bc_issued_at :: datetime
  bc_fast_path :: bool
  bc_reason :: string
  bc_expected_nodes :: "string list"

definition new_broadcast :: "string \<Rightarrow> datetime \<Rightarrow> bool \<Rightarrow> string \<Rightarrow> string list \<Rightarrow> exn + broadcast" where
  "new_broadcast jti issued_at fast_path reason nodes =
     bindE (guards [(uuid_v7_re jti, convergence_error), (reason \<noteq> [], convergence_error),
                    (nodes \<noteq> [], convergence_error), (\<forall>n\<in>set nodes. n \<noteq> [], convergence_error)])
       (\<lambda>_. Inr \<lparr>bc_jti = jti, bc_issued_at = issued_at, bc_fast_path = fast_path, bc_reason = reason,
                 bc_expected_nodes = nodes\<rparr>)"

record tracker =
  tk_broadcasts :: "string \<rightharpoonup> broadcast"
  tk_acks :: "string \<Rightarrow> string \<rightharpoonup> datetime"

definition new_tracker :: tracker where
  "new_tracker = \<lparr>tk_broadcasts = Map.empty, tk_acks = (\<lambda>jti. Map.empty)\<rparr>"

definition register_broadcast :: "broadcast \<Rightarrow> tracker \<Rightarrow> (exn + unit) \<times> tracker" where
  "register_broadcast b T =
     (if tk_broadcasts T (bc_jti b) \<noteq> None then (Inl convergence_error, T)
      else (Inr (), T\<lparr>tk_broadcasts := (tk_broadcasts T)(bc_jti b \<mapsto> b)\<rparr>))"

definition record_ack :: "string \<times> string \<times> datetime \<Rightarrow> tracker \<Rightarrow> (exn + unit) \<times> tracker" where
  "record_ack ack T =
     (case ack of (jti, node, ts) \<Rightarrow>
        (case tk_broadcasts T jti of
           None \<Rightarrow> (Inl convergence_error, T)
         | Some b \<Rightarrow>
             if node \<notin> set (bc_expected_nodes b) then (Inl convergence_error, T)
             else (case tk_acks T jti node of
                 None \<Rightarrow> (Inr (), T\<lparr>tk_acks := (tk_acks T)(jti := (tk_acks T jti)(node \<mapsto> ts))\<rparr>)
               | Some existing \<Rightarrow>
                   (Inr (), if ts < existing
                            then T\<lparr>tk_acks := (tk_acks T)(jti := (tk_acks T jti)(node \<mapsto> ts))\<rparr> else T))))"


section \<open>The service level\<close>

datatype slo_status = MEETING | PENDING | MISSED

text \<open>The target is a float, which is a rational number.\<close>

record slo_policy =
  sp_target_coverage :: rat
  sp_normal_deadline :: timedelta
  sp_fast_path_deadline :: timedelta

definition slo_policy_ok :: "slo_policy \<Rightarrow> exn + unit" where
  "slo_policy_ok p =
     guards [(0 < sp_target_coverage p \<and> sp_target_coverage p \<le> 1, convergence_error),
             (\<not> sp_normal_deadline p \<le> 0, convergence_error), (\<not> sp_fast_path_deadline p \<le> 0, convergence_error)]"

definition deadline_for :: "slo_policy \<Rightarrow> broadcast \<Rightarrow> timedelta" where
  "deadline_for p b = (if bc_fast_path b then sp_fast_path_deadline p else sp_normal_deadline p)"

record convergence_snapshot =
  sn_jti :: string
  sn_acks_received :: nat
  sn_acks_expected :: nat
  sn_coverage :: rat
  sn_time_to_target :: "timedelta option"
  sn_elapsed :: timedelta
  sn_deadline :: timedelta
  sn_status :: slo_status
  sn_fast_path :: bool

text \<open>\<open>max(1, int(-(-target * expected // 1)))\<close>; \<open>rnd\<close> rounds a rational number to a float.\<close>

definition needed_acks :: "(rat \<Rightarrow> rat) \<Rightarrow> rat \<Rightarrow> nat \<Rightarrow> int" where
  "needed_acks rnd target expected = max 1 (- floor (rnd (- target * of_nat expected)))"

definition evaluate_slo ::
  "(rat \<Rightarrow> rat) \<Rightarrow> tracker \<Rightarrow> string \<Rightarrow> slo_policy \<Rightarrow> datetime \<Rightarrow> exn + convergence_snapshot" where
  "evaluate_slo rnd T jti policy now =
     (case tk_broadcasts T jti of
        None \<Rightarrow> Inl convergence_error
      | Some b \<Rightarrow>
          let acks = tk_acks T jti;
              expected = length (bc_expected_nodes b);
              received = length (filter (\<lambda>n. acks n \<noteq> None) (bc_expected_nodes b));
              coverage = (if expected \<noteq> 0 then rnd (of_nat received / of_nat expected) else 0);
              deadline = deadline_for policy b;
              elapsed = now - bc_issued_at b;
              sorted_acks = sort (List.map_filter acks (bc_expected_nodes b));
              needed = needed_acks rnd (sp_target_coverage policy) expected;
              time_to_target =
                (if coverage \<ge> sp_target_coverage policy \<and> needed \<le> int (length sorted_acks)
                 then Some (sorted_acks ! nat (needed - 1) - bc_issued_at b) else None);
              status =
                (case time_to_target of
                   Some ttt \<Rightarrow>
                     if coverage \<ge> sp_target_coverage policy
                     then (if ttt \<le> deadline then MEETING else MISSED)
                     else if elapsed > deadline then MISSED else PENDING
                 | None \<Rightarrow> if elapsed > deadline then MISSED else PENDING)
          in Inr \<lparr>sn_jti = jti, sn_acks_received = received, sn_acks_expected = expected, sn_coverage = coverage,
                  sn_time_to_target = time_to_target, sn_elapsed = elapsed, sn_deadline = deadline,
                  sn_status = status, sn_fast_path = bc_fast_path b\<rparr>)"

fun pending_broadcasts ::
  "(rat \<Rightarrow> rat) \<Rightarrow> tracker \<Rightarrow> string list \<Rightarrow> slo_policy \<Rightarrow> datetime \<Rightarrow> exn + convergence_snapshot list" where
  "pending_broadcasts rnd T [] policy now = Inr []"
| "pending_broadcasts rnd T (jti # jtis) policy now =
     bindE (evaluate_slo rnd T jti policy now) (\<lambda>snap.
     bindE (pending_broadcasts rnd T jtis policy now) (\<lambda>snaps.
     Inr (if sn_status snap \<noteq> MEETING then snap # snaps else snaps)))"


section \<open>Acknowledgements\<close>

text \<open>The acknowledgements of one node for one broadcast, out of a sequence of calls.\<close>

definition reports :: "(string \<times> string \<times> datetime) list \<Rightarrow> string \<Rightarrow> string \<Rightarrow> datetime set" where
  "reports calls jti node = {ts. (jti, node, ts) \<in> set calls}"

lemma record_ack_broadcasts: "record_ack a T = (r, T') \<Longrightarrow> tk_broadcasts T' = tk_broadcasts T"
  by (auto simp: record_ack_def split: prod.splits option.splits if_splits)

lemma record_all:
  assumes "submit_all record_ack (\<lambda>a. a) calls T = (js, T')" "tk_broadcasts T jti = Some b"
    and "node \<in> set (bc_expected_nodes b)"
  shows "tk_broadcasts T' jti = Some b \<and>
    tk_acks T' jti node =
      (case tk_acks T jti node of
         None \<Rightarrow> if reports calls jti node = {} then None else Some (Min (reports calls jti node))
       | Some ts \<Rightarrow> Some (Min (insert ts (reports calls jti node))))"
  using assms(1,2)
proof (induction calls arbitrary: T js)
  case Nil
  then show ?case by (auto simp: reports_def split: option.split)
next
  case (Cons a calls)
  obtain r T1 where a: "record_ack a T = (r, T1)" by fastforce
  obtain js1 where run: "submit_all record_ack (\<lambda>a. a) calls T1 = (js1, T')"
    using Cons.prems(1) a
    by (cases r) (auto split: prod.splits)
  have b: "tk_broadcasts T1 jti = Some b" using record_ack_broadcasts[OF a] Cons.prems(2) by simp
  obtain j n ts where an: "a = (j, n, ts)" by (cases a)
  have fin: "finite (reports calls jti node)"
  proof -
    have "reports calls jti node \<subseteq> (\<lambda>(j, n, ts). ts) ` set calls" by (force simp: reports_def)
    then show ?thesis by (rule finite_subset) simp
  qed
  show ?case
  proof (cases "j = jti \<and> n = node")
    case True
    have "tk_acks T1 jti node = (case tk_acks T jti node of None \<Rightarrow> Some ts | Some e \<Rightarrow> Some (min ts e))"
      using a True Cons.prems(2) assms(3)
      by (auto simp: record_ack_def an min_def split: option.splits if_splits)
    moreover have "reports (a # calls) jti node = insert ts (reports calls jti node)"
      using True by (auto simp: reports_def an)
    ultimately show ?thesis
      using Cons.IH[OF run b] fin by (auto split: option.splits simp: min.commute min.left_commute insert_commute)
  next
    case False
    have "tk_acks T1 jti node = tk_acks T jti node"
      using a False by (auto simp: record_ack_def an split: option.splits if_splits)
    moreover have "reports (a # calls) jti node = reports calls jti node" using False by (auto simp: reports_def an)
    ultimately show ?thesis using Cons.IH[OF run b] by (simp only:)
  qed
qed


section \<open>What the status says\<close>

lemma length_filter_Some: "length (List.map_filter f xs) = length (filter (\<lambda>x. f x \<noteq> None) xs)"
  by (induction xs) (auto simp: List.map_filter_simps split: option.split)

lemma length_filter_mono: "(\<And>x. p x \<Longrightarrow> q x) \<Longrightarrow> length (filter p xs) \<le> length (filter q xs)"
  by (induction xs) (auto intro: le_SucI)

lemma sorted_nth_le:
  assumes "sorted xs" "1 \<le> k" "k \<le> length xs"
  shows "xs ! (k - 1) \<le> d \<longleftrightarrow> k \<le> length (filter (\<lambda>x. x \<le> d) xs)"
proof
  assume le: "xs ! (k - 1) \<le> (d :: 'a :: linorder)"
  have "\<forall>x\<in>set (take k xs). x \<le> d"
  proof
    fix x assume "x \<in> set (take k xs)"
    then obtain i where "i < k" "i < length xs" "x = xs ! i" by (auto simp: in_set_conv_nth)
    then show "x \<le> d" using sorted_nth_mono[OF assms(1), of i "k - 1"] le assms by (force intro: order_trans)
  qed
  then have "filter (\<lambda>x. x \<le> d) (take k xs) = take k xs" by simp
  then have "filter (\<lambda>x. x \<le> d) xs = take k xs @ filter (\<lambda>x. x \<le> d) (drop k xs)"
    by (metis append_take_drop_id filter_append)
  then show "k \<le> length (filter (\<lambda>x. x \<le> d) xs)" using assms(3) by simp
next
  assume k: "k \<le> length (filter (\<lambda>x. x \<le> d) xs)"
  show "xs ! (k - 1) \<le> d"
  proof (rule ccontr)
    assume "\<not> xs ! (k - 1) \<le> d"
    have late: "\<forall>x\<in>set (drop (k - 1) xs). \<not> x \<le> d"
    proof
      fix x assume "x \<in> set (drop (k - 1) xs)"
      then obtain i where i: "i < length xs - (k - 1)" "x = xs ! (k - 1 + i)" by (auto simp: in_set_conv_nth)
      then have "xs ! (k - 1) \<le> x" using sorted_nth_mono[OF assms(1), of "k - 1" "k - 1 + i"] by simp
      then show "\<not> x \<le> d" using \<open>\<not> xs ! (k - 1) \<le> d\<close> by (meson order_trans)
    qed
    have "filter (\<lambda>x. x \<le> d) xs = filter (\<lambda>x. x \<le> d) (take (k - 1) xs) @ filter (\<lambda>x. x \<le> d) (drop (k - 1) xs)"
      by (metis append_take_drop_id filter_append)
    also have "filter (\<lambda>x. x \<le> d) (drop (k - 1) xs) = []" using late by simp
    finally have "length (filter (\<lambda>x. x \<le> d) xs) \<le> k - 1"
      using length_filter_le[of "\<lambda>x. x \<le> d" "take (k - 1) xs"] by simp
    then show False using k assms(2) by linarith
  qed
qed

text \<open>The nodes whose first acknowledgement is within the deadline.\<close>

definition in_time :: "tracker \<Rightarrow> broadcast \<Rightarrow> timedelta \<Rightarrow> string list" where
  "in_time T b deadline =
     filter (\<lambda>n. case tk_acks T (bc_jti b) n of None \<Rightarrow> False | Some ts \<Rightarrow> ts - bc_issued_at b \<le> deadline) (bc_expected_nodes b)"

lemma filter_sort_in_time:
  "length (filter (\<lambda>x. x \<le> d) (sort (List.map_filter f xs))) =
   length (filter (\<lambda>n. case f n of None \<Rightarrow> False | Some x \<Rightarrow> x \<le> (d :: int)) xs)"
proof -
  have "length (filter (\<lambda>x. x \<le> d) (sort (List.map_filter f xs))) = length (filter (\<lambda>x. x \<le> d) (List.map_filter f xs))"
    by (metis filter_sort length_sort)
  also have "\<dots> = length (filter (\<lambda>n. case f n of None \<Rightarrow> False | Some x \<Rightarrow> x \<le> d) xs)"
    by (induction xs) (auto simp: List.map_filter_simps split: option.split)
  finally show ?thesis .
qed

lemma needed_exact:
  assumes "rnd (- t * of_nat e) = - t * of_nat e" "0 < t" "e \<noteq> 0"
  shows "needed_acks rnd t e \<le> int k \<longleftrightarrow> t * of_nat e \<le> of_nat k" "1 \<le> needed_acks rnd t e"
proof -
  have "- t * of_nat e < 0" using assms(2,3) by simp
  then have "floor (- t * of_nat e) < 0" by (simp only: floor_less_zero)
  then have "1 \<le> - floor (- t * of_nat e)" by linarith
  then have "needed_acks rnd t e = \<lceil>t * of_nat e\<rceil>"
    unfolding needed_acks_def assms(1) ceiling_def by (simp add: max_absorb2)
  then show "needed_acks rnd t e \<le> int k \<longleftrightarrow> t * of_nat e \<le> of_nat k" by (simp add: ceiling_le_iff)
  show "1 \<le> needed_acks rnd t e" by (simp add: needed_acks_def)
qed

text \<open>The evaluation, when the two float operations are exact: the target is met in time exactly if
  enough nodes acknowledged within the deadline.\<close>

lemma evaluate_slo_exact:
  assumes "tk_broadcasts T (bc_jti b) = Some b" "bc_expected_nodes b \<noteq> []" "0 < sp_target_coverage p"
    and "\<forall>r\<le>length (bc_expected_nodes b). rnd (of_nat r / of_nat (length (bc_expected_nodes b))) =
           of_nat r / of_nat (length (bc_expected_nodes b))"
    and "rnd (- sp_target_coverage p * of_nat (length (bc_expected_nodes b))) =
           - sp_target_coverage p * of_nat (length (bc_expected_nodes b))"
  defines "target \<equiv> sp_target_coverage p * of_nat (length (bc_expected_nodes b))"
    and "acked \<equiv> filter (\<lambda>n. tk_acks T (bc_jti b) n \<noteq> None) (bc_expected_nodes b)"
  shows "\<exists>snap. evaluate_slo rnd T (bc_jti b) p now = Inr snap \<and> sn_acks_received snap = length acked \<and>
    (sn_status snap = MEETING \<longleftrightarrow> target \<le> of_nat (length (in_time T b (deadline_for p b)))) \<and>
    (sn_status snap = MISSED \<longleftrightarrow> sn_status snap \<noteq> MEETING \<and>
       (deadline_for p b < now - bc_issued_at b \<or> target \<le> of_nat (length acked)))"
proof -
  let ?e = "length (bc_expected_nodes b)" and ?r = "length acked"
  let ?xs = "sort (List.map_filter (tk_acks T (bc_jti b)) (bc_expected_nodes b))"
  let ?n = "needed_acks rnd (sp_target_coverage p) ?e" and ?d = "deadline_for p b"
  have e: "?e \<noteq> 0" "?r \<le> ?e" using assms(2) by (auto simp: acked_def)
  have cov: "rnd (of_nat ?r / of_nat ?e) \<ge> sp_target_coverage p \<longleftrightarrow> target \<le> of_nat ?r"
  proof -
    have "rnd (of_nat ?r / of_nat ?e) = of_nat ?r / of_nat ?e" using assms(4) e(2) by blast
    then show ?thesis using e(1) by (simp add: target_def pos_le_divide_eq)
  qed
  note need = needed_exact[where rnd = rnd, OF assms(5,3) e(1), folded target_def]
  have len: "length (List.map_filter (tk_acks T (bc_jti b)) (bc_expected_nodes b)) = ?r" by (simp add: length_filter_Some acked_def)
  have recv: "length (filter (\<lambda>n. \<exists>y. tk_acks T (bc_jti b) n = Some y) (bc_expected_nodes b)) = ?r"
    by (simp add: acked_def)
  have timely: "?xs ! nat (?n - 1) - bc_issued_at b \<le> ?d \<longleftrightarrow> target \<le> of_nat (length (in_time T b ?d))"
    if "target \<le> of_nat ?r"
  proof -
    have k: "1 \<le> nat ?n" "nat ?n \<le> length ?xs" "nat (?n - 1) = nat ?n - 1"
      using need(1)[of ?r] need(2) that by (auto simp: len)
    have "?xs ! nat (?n - 1) - bc_issued_at b \<le> ?d \<longleftrightarrow> ?xs ! (nat ?n - 1) \<le> ?d + bc_issued_at b"
      unfolding k(3) by (simp add: le_diff_eq diff_le_eq)
    also have "\<dots> \<longleftrightarrow> nat ?n \<le> length (in_time T b ?d)"
      using sorted_nth_le[OF sorted_sort k(1,2)]
      by (simp add: filter_sort_in_time in_time_def diff_le_eq cong: option.case_cong)
    also have "\<dots> \<longleftrightarrow> target \<le> of_nat (length (in_time T b ?d))"
      using need(1)[of "length (in_time T b ?d)"] by (simp add: nat_le_iff)
    finally show ?thesis .
  qed
  have sub: "length (in_time T b ?d) \<le> ?r"
    unfolding in_time_def acked_def by (rule length_filter_mono) (auto split: option.splits)
  then have few: "\<not> target \<le> of_nat (length (in_time T b ?d))" if "\<not> target \<le> of_nat ?r"
    using that by (meson of_nat_mono order_trans)
  show ?thesis
  proof (cases "target \<le> of_nat ?r")
    case True
    then show ?thesis
      using timely need(1)[of ?r] cov e
      by (simp add: evaluate_slo_def assms(1) Let_def len recv)
  next
    case False
    then show ?thesis
      using few need(1)[of ?r] cov e
      by (simp add: evaluate_slo_def assms(1) Let_def len recv)
  qed
qed

text \<open>The service level is measured as it is meant: after any sequence of acknowledgements, repeated,
  late or out of order, of a broadcast that had none, the status is \<open>MEETING\<close> exactly if the target
  share of the expected nodes reported some time within the deadline of the broadcast, and \<open>MISSED\<close>
  exactly if not and either the deadline has passed or the target share reported too late. This
  supposes the two float operations of the evaluation exact; \<open>rounding_never_met\<close> is what happens
  otherwise.\<close>

lemma slo_status_exact:
  assumes "new_broadcast jti issued_at fast_path reason nodes = Inr b" "distinct nodes" "slo_policy_ok p = Inr ()"
    and "tk_broadcasts T jti = Some b" "tk_acks T jti = Map.empty"
    and "submit_all record_ack (\<lambda>a. a) calls T = (js, T')"
    and "\<forall>r\<le>length nodes. rnd (of_nat r / of_nat (length nodes)) = of_nat r / of_nat (length nodes)"
    and "rnd (- sp_target_coverage p * of_nat (length nodes)) = - sp_target_coverage p * of_nat (length nodes)"
  shows "\<exists>snap. evaluate_slo rnd T' jti p now = Inr snap \<and>
    sn_acks_received snap = card {n \<in> set nodes. reports calls jti n \<noteq> {}} \<and>
    (sn_status snap = MEETING \<longleftrightarrow> sp_target_coverage p * of_nat (length nodes) \<le>
       of_nat (card {n \<in> set nodes. \<exists>ts\<in>reports calls jti n. ts - issued_at \<le> deadline_for p b})) \<and>
    (sn_status snap = MISSED \<longleftrightarrow> sn_status snap \<noteq> MEETING \<and>
       (deadline_for p b < now - issued_at \<or>
        sp_target_coverage p * of_nat (length nodes) \<le> of_nat (card {n \<in> set nodes. reports calls jti n \<noteq> {}})))"
proof -
  have b: "bc_jti b = jti" "bc_expected_nodes b = nodes" "nodes \<noteq> []" "bc_issued_at b = issued_at"
    using assms(1) by (auto simp: new_broadcast_def)
  have t: "0 < sp_target_coverage p" using assms(3) by (simp add: slo_policy_ok_def)
  have acks: "tk_acks T' jti n = (if reports calls jti n = {} then None else Some (Min (reports calls jti n)))"
    if "n \<in> set nodes" for n
    using record_all[OF assms(6,4), of n] that b assms(5) by simp
  have T': "tk_broadcasts T' (bc_jti b) = Some b"
    using record_all[OF assms(6,4), of "hd nodes"] b by simp
  have fin: "finite (reports calls jti n)" for n
    by (rule finite_subset[of _ "(\<lambda>(j, n, ts). ts) ` set calls"]) (force simp: reports_def, simp)
  have acked: "length (filter (\<lambda>n. tk_acks T' (bc_jti b) n \<noteq> None) nodes) = card {n \<in> set nodes. reports calls jti n \<noteq> {}}"
  proof -
    have "filter (\<lambda>n. tk_acks T' (bc_jti b) n \<noteq> None) nodes = filter (\<lambda>n. reports calls jti n \<noteq> {}) nodes"
      using acks by (intro filter_cong) (auto simp: b)
    then show ?thesis using assms(2) by (simp add: distinct_length_filter Int_def conj_commute)
  qed
  have timely: "length (in_time T' b (deadline_for p b)) =
      card {n \<in> set nodes. \<exists>ts\<in>reports calls jti n. ts - issued_at \<le> deadline_for p b}"
  proof -
    have "in_time T' b (deadline_for p b) = filter (\<lambda>n. \<exists>ts\<in>reports calls jti n. ts - issued_at \<le> deadline_for p b) nodes"
      unfolding in_time_def b
      using acks fin by (intro filter_cong) (auto simp: diff_le_eq Min_le_iff)
    then show ?thesis using assms(2) by (simp add: distinct_length_filter Int_def conj_commute)
  qed
  from evaluate_slo_exact[where rnd = rnd and T = T' and b = b and p = p and now = now, unfolded b acked[unfolded b] timely[unfolded b]]
  show ?thesis using T' b t assms(7,8) acked timely by (auto simp: b)
qed

text \<open>With a target of 0.55 and a hundred nodes, the float product is one unit above 55: 55 nodes reach
  the coverage, but 56 acknowledgements are needed for the target to be met.\<close>

lemma rounding_never_met:
  assumes "rnd (- t * 100) = - (55 + 1 / 2 ^ 47)" "rnd (55 / 100) = t"
  shows "needed_acks rnd t 100 = 56 \<and> t \<le> rnd (55 / 100)"
proof -
  have "\<lfloor>- (55 + 1 / 2 ^ 47) :: rat\<rfloor> = -56" by (simp add: floor_eq_iff)
  then show ?thesis using assms by (simp add: needed_acks_def)
qed

definition demo_broadcast :: broadcast where
  "demo_broadcast =
     \<lparr>bc_jti = demo_uuid, bc_issued_at = 0, bc_fast_path = False, bc_reason = ''leak'', bc_expected_nodes = [''a'', ''b'']\<rparr>"

definition demo_slo :: slo_policy where
  "demo_slo = \<lparr>sp_target_coverage = 1 / 2, sp_normal_deadline = seconds 60, sp_fast_path_deadline = seconds 10\<rparr>"

end
