(* ===== verification/PolicyAudit.thy ===== *)
theory PolicyAudit
  imports PolicyEngine
begin

text \<open>
  Audited policy decisions and the baseline library of rules (\<open>policy_audit.py\<close>). The reason of the
  event carries the decision identifier, so its text is modelled here.
\<close>

section \<open>Deciding on the record\<close>

definition decision_reason :: "policy_decision \<Rightarrow> policy_request \<Rightarrow> string" where
  "decision_reason d req =
     ''decision_id='' @ po_decision_id d @ '' rule='' @
     (if po_matched_rule d \<noteq> [] then po_matched_rule d else ''<deny-by-default>'') @
     '' principal='' @ rq_principal req @ '' action='' @ rq_action req @ '' resource='' @ rq_resource req"

text \<open>The time stamp is the \<open>datetime\<close> itself in the code; here it is its ISO form, or \<open>None\<close>.\<close>

definition decide_event :: "platform \<Rightarrow> policy_decision \<Rightarrow> policy_request \<Rightarrow> datetime option \<Rightarrow> string \<Rightarrow> string \<Rightarrow> kwargs" where
  "decide_event P d req now sender recipient =
     [(''event_type'', PStr ''policy.decide''), (''outcome'', PStr (if permitted d then ''allow'' else ''deny'')),
      (''reason'', PStr (decision_reason d req)),
      (''sender'', PStr (if sender \<noteq> [] then sender else rq_principal req)), (''recipient'', PStr recipient),
      (''timestamp'', case now of None \<Rightarrow> PNone | Some t \<Rightarrow> PStr (p_isoformat P t))]"

text \<open>\<open>wall\<close> is the clock the engine reads when \<open>now\<close> is not given.\<close>

definition decide_and_audit ::
  "platform \<Rightarrow> (rat \<Rightarrow> rat) \<Rightarrow> 'k kw_sink \<Rightarrow> policy_rule list \<Rightarrow> policy_request \<Rightarrow> datetime option \<Rightarrow> datetime \<Rightarrow> string \<Rightarrow>
   string \<Rightarrow> string \<Rightarrow> 'k \<Rightarrow> (exn + policy_decision) \<times> 'k" where
  "decide_and_audit P rnd sink rules req now wall rb sender recipient k =
     (case decide rnd rules req (case now of None \<Rightarrow> wall | Some t \<Rightarrow> t) rb of
        Inl e \<Rightarrow> (Inl e, k)
      | Inr d \<Rightarrow>
          (case emit_raw sink (decide_event P d req now sender recipient) k of
             (Inl e, k') \<Rightarrow> (Inl e, k')
           | (Inr _, k') \<Rightarrow> (Inr d, k')))"


section \<open>The baseline library\<close>

definition caller_condition :: "string list \<Rightarrow> condition" where
  "caller_condition callers = \<lparr>co_key = ''caller'', co_test = IsIn (Sequence (map PStr callers))\<rparr>"

definition low_risk_rule :: "string list \<Rightarrow> string \<Rightarrow> policy_rule" where
  "low_risk_rule callers tool =
     \<lparr>pl_name = ''permit-low-'' @ tool, pl_effect = PERMIT, pl_principal = ''*'', pl_action = ''invoke_tool'',
      pl_resource = tool, pl_conditions = [caller_condition callers]\<rparr>"

definition step_up_rules :: "string list \<Rightarrow> string \<Rightarrow> policy_rule list" where
  "step_up_rules callers tool =
     [\<lparr>pl_name = ''permit-stepup-'' @ tool, pl_effect = PERMIT, pl_principal = ''*'', pl_action = ''invoke_tool'',
       pl_resource = tool,
       pl_conditions = [caller_condition callers, \<lparr>co_key = ''step_up'', co_test = EqualsTo (PBool True)\<rparr>]\<rparr>,
      \<lparr>pl_name = ''deny-stepup-missing-'' @ tool, pl_effect = DENY, pl_principal = ''*'', pl_action = ''invoke_tool'',
       pl_resource = tool, pl_conditions = []\<rparr>]"

definition build_baseline_engine :: "string list \<Rightarrow> string list \<Rightarrow> string list \<Rightarrow> exn + policy_rule list" where
  "build_baseline_engine allowed_callers low_risk_tools step_up_tools =
     (let rules = map (low_risk_rule allowed_callers) low_risk_tools @
                  concat (map (step_up_rules allowed_callers) step_up_tools) in
      if \<not> list_all policy_rule_ok rules then Inl policy_engine_error else new_engine_rules rules)"


section \<open>What the baseline permits\<close>

definition known_caller :: "string list \<Rightarrow> policy_request \<Rightarrow> bool" where
  "known_caller callers req \<longleftrightarrow> (\<exists>c\<in>set callers. map_of (rq_context req) ''caller'' = Some (PStr c))"

text \<open>\<open>step_up == True\<close>, which also holds of \<open>1\<close> and \<open>1.0\<close>.\<close>

definition stepped_up :: "policy_request \<Rightarrow> bool" where
  "stepped_up req \<longleftrightarrow> (\<exists>v. map_of (rq_context req) ''step_up'' = Some v \<and> py_equal v (PBool True))"

lemma py_equal_PStr: "py_equal v (PStr s) \<longleftrightarrow> v = PStr s"
  by (cases v) (auto simp: py_eq_string)

lemma caller_matches:
  "condition_matches (caller_condition callers) (rq_context req) = Inr (known_caller callers req)"
  by (auto simp: condition_matches_def caller_condition_def known_caller_def has_key_def item_def list_ex_iff py_equal_PStr py_eq_string
      split: option.splits)

lemma step_up_matches:
  "condition_matches \<lparr>co_key = ''step_up'', co_test = EqualsTo (PBool True)\<rparr> (rq_context req) = Inr (stepped_up req)"
  by (auto simp: condition_matches_def stepped_up_def has_key_def item_def split: option.splits)

definition asks_for :: "policy_request \<Rightarrow> string \<Rightarrow> bool" where
  "asks_for req tool \<longleftrightarrow> rq_action req = ''invoke_tool'' \<and> (tool = ''*'' \<or> rq_resource req = tool)"

lemma low_rule_matches: "rule_matches (low_risk_rule callers tool) req = Inr (asks_for req tool \<and> known_caller callers req)"
  by (auto simp: rule_matches_def low_risk_rule_def field_matches_def asks_for_def caller_matches)


lemma low_rule_first:
  "first_rule (low_risk_rule callers tool # rules) req =
     (if asks_for req tool \<and> known_caller callers req then Inr (Some (low_risk_rule callers tool)) else first_rule rules req)"
  by (simp add: low_rule_matches)

lemma low_rule_permits [simp]: "pl_effect (low_risk_rule callers tool) = PERMIT"
  by (simp add: low_risk_rule_def)

lemma step_up_rules_first:
  "first_rule (step_up_rules callers tool @ rules) req =
     (if asks_for req tool
      then Inr (Some (step_up_rules callers tool ! (if known_caller callers req \<and> stepped_up req then 0 else 1)))
      else first_rule rules req)"
  by (auto simp: step_up_rules_def rule_matches_def field_matches_def asks_for_def caller_matches step_up_matches)

lemma baseline_permits:
  "\<exists>found. first_rule (map (low_risk_rule callers) lows @ concat (map (step_up_rules callers) steps)) req = Inr found \<and>
    ((\<exists>r. found = Some r \<and> pl_effect r = PERMIT) \<longleftrightarrow>
       known_caller callers req \<and> (list_ex (asks_for req) lows \<or> list_ex (asks_for req) steps \<and> stepped_up req))"
proof (induction lows)
  case Nil
  show ?case
  proof (induction steps)
    case (Cons t steps)
    then show ?case by (simp add: step_up_rules_first) (auto simp: step_up_rules_def)
  qed simp
next
  case (Cons t lows)
  then show ?case unfolding list.map append_Cons low_rule_first by auto
qed

text \<open>The baseline library permits exactly what it says, on the record: a decision it returns permits
  the request exactly if the context names an allowed caller and the request invokes a low-risk
  tool, or a step-up tool with the step-up in the context; the decision carries a well-formed
  identifier, and the event with that identifier is in the audit log.\<close>

lemma baseline_decisions:
  assumes "build_baseline_engine callers lows steps = Inr rules" "kw_logs rc evs"
    and "decide_and_audit P rnd (Some rc) rules req now wall rb sender recipient k = (Inr d, k')"
  shows "(permitted d \<longleftrightarrow> known_caller callers req \<and>
       (list_ex (asks_for req) lows \<or> list_ex (asks_for req) steps \<and> stepped_up req)) \<and>
    uuid_v7_re (po_decision_id d) \<and> evs k' = evs k @ [decide_event P d req now sender recipient]"
proof -
  have rules: "rules = map (low_risk_rule callers) lows @ concat (map (step_up_rules callers) steps)"
    using assms(1) by (auto simp: build_baseline_engine_def new_engine_rules_def Let_def split: if_splits)
  obtain t where d: "decide rnd rules req t rb = Inr d"
    and e: "emit_raw (Some rc) (decide_event P d req now sender recipient) k = (Inr (), k')"
    using assms(3) by (auto simp: decide_and_audit_def split: sum.splits prod.splits)
  obtain id found where f: "generate_uuidv7 rnd t rb = Inr id" "first_rule rules req = Inr found" "po_decision_id d = id"
    "permitted d \<longleftrightarrow> (\<exists>r. found = Some r \<and> pl_effect r = PERMIT)"
    using d by (auto simp: decide_def permitted_def split: option.splits)
  show ?thesis
    using baseline_permits[of callers lows steps req] f generated_uuid_wellformed_core[OF f(1)]
      emit_raw_log[OF assms(2) e] unfolding rules by auto
qed

text \<open>The caller is the one the context names: the principal of the request is not looked at.\<close>

lemma baseline_ignores_principal:
  "known_caller callers (req\<lparr>rq_principal := p\<rparr>) = known_caller callers req"
  by (simp add: known_caller_def)

end
