(* ===== verification/AdmissionCoupling.thy ===== *)
theory AdmissionCoupling
  imports Discovery
begin

text \<open>
  Admission of discovered workloads as peers (\<open>admission_coupling.py\<close>): the closed allowlist and the
  matrix of record versions it understands, evaluated on a record whose signature and window
  \<open>verify_record\<close> has already checked. Every evaluation is one event of the audit log.
\<close>

section \<open>Policy and decision\<close>

record workload_policy =
  ap_allowed_workloads :: "string set"
  ap_accepted_versions :: "string set"

text \<open>The constructor refuses an empty matrix; without one it is the set of \<open>v0\<close>.\<close>

definition new_workload_policy :: "string set \<Rightarrow> string set option \<Rightarrow> exn + workload_policy" where
  "new_workload_policy workloads versions =
     (let accepted = (case versions of None \<Rightarrow> {''v0''} | Some vs \<Rightarrow> vs) in
      if accepted = {} then Inl (std_error ''ValueError'')
      else Inr \<lparr>ap_allowed_workloads = workloads, ap_accepted_versions = accepted\<rparr>)"

record workload_decision =
  wd_admitted :: bool
  wd_reason_code :: string
  wd_workload_iss :: pyval
  wd_endpoints :: "pyval list"

text \<open>\<open>v in s\<close> for a set of strings: an unhashable \<open>v\<close> raises, a value of another type is no member.\<close>

definition py_in_strings :: "pyval \<Rightarrow> string set \<Rightarrow> exn + bool" where
  "py_in_strings v S =
     (case v of
        PList xs \<Rightarrow> Inl (std_error ''TypeError'')
      | PDict d \<Rightarrow> Inl (std_error ''TypeError'')
      | PStr s \<Rightarrow> Inr (s \<in> S)
      | _ \<Rightarrow> Inr False)"

section \<open>Evaluation\<close>

definition admission_evaluate :: "discovery_record \<Rightarrow> workload_policy \<Rightarrow> exn + workload_decision" where
  "admission_evaluate r policy =
     bindE (py_in_strings (di_version r) (ap_accepted_versions policy)) (\<lambda>version_known.
     if \<not> version_known then
       Inr \<lparr>wd_admitted = False, wd_reason_code = deny_value ADMISSION_VERSION_INCOMPATIBLE,
            wd_workload_iss = di_workload_iss r, wd_endpoints = []\<rparr>
     else
       bindE (py_in_strings (di_workload_iss r) (ap_allowed_workloads policy)) (\<lambda>allowed.
       if \<not> allowed then
         Inr \<lparr>wd_admitted = False, wd_reason_code = deny_value ADMISSION_WORKLOAD_NOT_ALLOWED,
              wd_workload_iss = di_workload_iss r, wd_endpoints = []\<rparr>
       else
         Inr \<lparr>wd_admitted = True, wd_reason_code = ''ok'', wd_workload_iss = di_workload_iss r,
              wd_endpoints = di_endpoints r\<rparr>))"

definition admission_event :: "workload_decision \<Rightarrow> discovery_record \<Rightarrow> kwargs" where
  "admission_event d r =
     [(''event_type'', PStr ''admission.evaluate''),
      (''outcome'', PStr (if wd_admitted d then ''allow'' else ''deny'')),
      (''reason'', PStr (wd_reason_code d)), (''reason_code'', PStr (wd_reason_code d)),
      (''artifact_version'', PStr ''wt-admission/v0''), (''sender'', di_workload_iss r),
      (''envelope_kid'', di_workload_kid r), (''issuer_iss'', di_issuer_iss r),
      (''issuer_kid'', di_issuer_kid r)]"

definition admit_record ::
  "discovery_record \<Rightarrow> workload_policy \<Rightarrow> 'k kw_sink \<Rightarrow> 'k \<Rightarrow> (exn + workload_decision) \<times> 'k" where
  "admit_record r policy sink k =
     (case admission_evaluate r policy of
        Inl e \<Rightarrow> (Inl e, k)
      | Inr d \<Rightarrow>
          (case emit_raw sink (admission_event d r) k of
             (Inl e, k') \<Rightarrow> (Inl e, k')
           | (Inr _, k') \<Rightarrow> (Inr d, k')))"

text \<open>\<open>require_admission\<close>: the decision of a refusal travels in the \<open>AdmissionError\<close>; any other exception
  leaves as it is.\<close>

datatype admission_failure = AdmissionError workload_decision | Raised exn

definition require_admission_of ::
  "discovery_record \<Rightarrow> workload_policy \<Rightarrow> 'k kw_sink \<Rightarrow> 'k \<Rightarrow> (admission_failure + workload_decision) \<times> 'k" where
  "require_admission_of r policy sink k =
     (case admit_record r policy sink k of
        (Inl e, k') \<Rightarrow> (Inl (Raised e), k')
      | (Inr d, k') \<Rightarrow> if \<not> wd_admitted d then (Inl (AdmissionError d), k') else (Inr d, k'))"

section \<open>What an admission establishes\<close>

definition admissible :: "discovery_record \<Rightarrow> workload_policy \<Rightarrow> bool" where
  "admissible r policy \<longleftrightarrow>
     (\<exists>v iss. di_version r = PStr v \<and> v \<in> ap_accepted_versions policy \<and>
        di_workload_iss r = PStr iss \<and> iss \<in> ap_allowed_workloads policy)"

lemma py_in_strings_Inr: "py_in_strings v S = Inr b \<Longrightarrow> b \<longleftrightarrow> (\<exists>s. v = PStr s \<and> s \<in> S)"
  by (auto simp: py_in_strings_def split: pyval.splits)

lemma admission_evaluate_exact:
  assumes "admission_evaluate r policy = Inr d"
  shows "wd_admitted d \<longleftrightarrow> admissible r policy"
    "wd_endpoints d = (if admissible r policy then di_endpoints r else [])"
    "wd_workload_iss d = di_workload_iss r"
  using assms
  by (auto simp: admission_evaluate_def admissible_def dest!: py_in_strings_Inr split: if_splits)

lemma admission_evaluate_strings:
  "di_version r = PStr v \<Longrightarrow> di_workload_iss r = PStr iss \<Longrightarrow> \<exists>d. admission_evaluate r policy = Inr d"
  by (simp add: admission_evaluate_def py_in_strings_def)

lemma verified_version: "verify_record P lookup cfg sink t r k0 = (Inr r', k1) \<Longrightarrow> di_version r = PStr ''v0''"
  by (auto simp: verify_record_inner_def discovery_shape_Inr py_eq_string dest!: verify_record_returned)

text \<open>No event without a decision: the log grows by the one event of the decision made, and by
  nothing when the sink fails. \<close>

lemma admit_record_log:
  assumes "kw_logs rc evs" "admit_record r policy (Some rc) k = (res, k')"
  shows "case res of
      Inr d \<Rightarrow> admission_evaluate r policy = Inr d \<and> evs k' = evs k @ [admission_event d r]
    | Inl e \<Rightarrow> evs k' = evs k"
proof (cases "admission_evaluate r policy")
  case (Inr d)
  obtain x k1 where e: "emit_raw (Some rc) (admission_event d r) k = (x, k1)" by fastforce
  then have "(res, k') = (case x of Inl y \<Rightarrow> (Inl y, k1) | Inr _ \<Rightarrow> (Inr d, k1))"
    using assms(2) by (auto simp: admit_record_def Inr split: sum.splits)
  with emit_raw_log[OF assms(1) e] show ?thesis by (cases x) (simp_all add: Inr)
next
  case (Inl e)
  then have "res = Inl e \<and> k' = k" using assms(2) by (auto simp: admit_record_def)
  then show ?thesis by simp
qed

lemma admit_record_raised:
  assumes "admit_record r policy (Some rc) k = (Inl e, k')" "admission_evaluate r policy = Inr d"
  shows "rc (admission_event d r) k = (Some e, k')"
  using assms by (auto simp: admit_record_def emit_raw_def split: prod.splits option.splits)

text \<open>The docstring of \<open>admit\<close> says that it never raises; a failing sink makes it raise.\<close>

lemma admit_raises:
  assumes "admission_evaluate r policy = Inr d" "rc (admission_event d r) k = (Some e, k')"
  shows "admit_record r policy (Some rc) k = (Inl e, k')"
  using assms by (simp add: admit_record_def emit_raw_def)

text \<open>The only records whose endpoints reach a client are verified records of allowlisted workloads:
  when \<open>verify_record\<close> returns a record and \<open>require_admission\<close> returns a decision for it, the record is
  signed by the issuer it names and in its window, its workload is on the allowlist and its version in
  the matrix, the decision carries exactly its endpoints, and the log has grown by the allow event. A
  record that is not admissible is refused with an \<open>AdmissionError\<close> without endpoints and a deny event;
  apart from that only a failure of the sink keeps a verified record out, and that failure leaves the
  call as the sink raised it.\<close>

lemma discovered_peer_admitted:
  assumes verified: "verify_record P lookup cfg sink t r k0 = (Inr r', k1)"
    and log: "kw_logs rc evs"
    and run: "require_admission_of r' policy (Some rc) k = (res, k')"
  shows "r' = r \<and> discovery_ok P lookup cfg t r \<and>
    (case res of
       Inr d \<Rightarrow> admissible r policy \<and> wd_admitted d \<and> wd_endpoints d = di_endpoints r \<and>
         evs k' = evs k @ [admission_event d r]
     | Inl (AdmissionError d) \<Rightarrow> \<not> admissible r policy \<and> \<not> wd_admitted d \<and> wd_endpoints d = [] \<and>
         evs k' = evs k @ [admission_event d r]
     | Inl (Raised e) \<Rightarrow> (\<exists>d. rc (admission_event d r) k = (Some e, k')) \<and> evs k' = evs k)"
proof -
  note ok = verify_record_inner_ok[OF verify_record_returned[OF verified]]
  then have r: "r' = r" and ok': "discovery_ok P lookup cfg t r" by auto
  obtain v iss where "di_version r = PStr v" "di_workload_iss r = PStr iss"
    using ok' verified r by (auto simp: discovery_ok_def verified_version)
  then obtain d where d: "admission_evaluate r policy = Inr d" using admission_evaluate_strings by blast
  obtain res0 where a: "admit_record r policy (Some rc) k = (res0, k')"
    and res: "res = (case res0 of Inl e \<Rightarrow> Inl (Raised e)
                | Inr d \<Rightarrow> if \<not> wd_admitted d then Inl (AdmissionError d) else Inr d)"
    using run r by (auto simp: require_admission_of_def split: prod.splits sum.splits if_splits)
  note l = admit_record_log[OF log a] and x = admission_evaluate_exact[OF d]
  show ?thesis
  proof (cases res0)
    case (Inl e)
    then show ?thesis using l r ok' res admit_record_raised[OF a[unfolded Inl] d] by auto
  next
    case (Inr d')
    then show ?thesis using l d r ok' x res by auto
  qed
qed

lemma demo_record_verified:
  "verify_record demo_platform demo_lookup DEFAULT_DISCOVERY_CONFIG None 0 demo_record () = (Inr demo_record, ())"
  by (simp add: verify_record_def emit_raw_def demo_verified)

end
