(* ===== verification/TrustAnchors.thy ===== *)
theory TrustAnchors
  imports EnvelopeDemo
begin

text \<open>
  Where trusted keys come from: the manifests and directories that \<open>trust_store.py\<close> and
  \<open>issuer_trust_store.py\<close> read, and the signed bundle of anchors of \<open>bootstrap_bundle.py\<close>, which is
  checked against a root key given out of band and becomes an issuer trust store. The manifest is
  the text of the file; the file system is the record \<open>manifest_dir\<close>.
\<close>

section \<open>Manifests\<close>

text \<open>The directory of a manifest: \<open>(base / p).resolve()\<close>, \<open>is_relative_to(base)\<close>, and the bytes of a
  path, \<open>None\<close> if it is no file.\<close>

record manifest_dir =
  fd_resolve :: "string \<Rightarrow> exn + string"
  fd_inside :: "string \<Rightarrow> bool"
  fd_read :: "string \<Rightarrow> string option"

abbreviation value_error :: exn where
  "value_error \<equiv> std_error ''ValueError''"

definition parse_or_raise :: "platform \<Rightarrow> string \<Rightarrow> exn + unit" where
  "parse_or_raise P pem =
     (case p_load_pem P pem of
        Inl e \<Rightarrow> if value_or_type_error e then Inl value_error else Inl e
      | Inr OtherKey \<Rightarrow> Inl value_error
      | Inr (Ed25519Key k) \<Rightarrow> Inr ())"

definition manifest_entries :: "platform \<Rightarrow> string \<Rightarrow> exn + pyval list" where
  "manifest_entries P manifest_text =
     bindE (p_json_loads P manifest_text) (\<lambda>manifest.
       if \<not> is_dict manifest \<or> \<not> has_key (dict_of manifest) ''keys'' then Inl value_error
       else case item (dict_of manifest) ''keys'' of
         PList entries \<Rightarrow> Inr entries
       | _ \<Rightarrow> Inl value_error)"

text \<open>The file of an entry; a \<open>pem_path\<close> that is not a string cannot be joined to a path.\<close>

definition entry_pem :: "platform \<Rightarrow> manifest_dir \<Rightarrow> (string \<times> pyval) list \<Rightarrow> exn + string" where
  "entry_pem P dir entry =
     (case item entry ''pem_path'' of
        PStr p \<Rightarrow>
          bindE (fd_resolve dir p) (\<lambda>pem_path.
          bindE (guard (fd_inside dir pem_path) value_error) (\<lambda>_.
          case fd_read dir pem_path of
            None \<Rightarrow> Inl value_error
          | Some pem \<Rightarrow> bindE (parse_or_raise P pem) (\<lambda>_. Inr pem)))
      | _ \<Rightarrow> Inl (std_error ''TypeError''))"

definition entry_not_after :: "platform \<Rightarrow> (string \<times> pyval) list \<Rightarrow> exn + datetime option" where
  "entry_not_after P entry =
     (if has_key entry ''not_after''
      then bindE (catch_eve value_error (parse_rfc3339 P (item entry ''not_after''))) (\<lambda>t. Inr (Some t))
      else Inr None)"


section \<open>Envelope keys\<close>

text \<open>\<open>FileSystemTrustStore.from_directory\<close>: the files \<open>*.pem\<close> in order, as stem and content.\<close>

fun load_directory :: "platform \<Rightarrow> (string \<times> string) list \<Rightarrow> (string \<rightharpoonup> trusted_key) \<Rightarrow> exn + (string \<rightharpoonup> trusted_key)" where
  "load_directory P [] keys = Inr keys"
| "load_directory P ((kid, pem) # files) keys =
     bindE (parse_or_raise P pem) (\<lambda>_.
     if keys kid \<noteq> None then Inl value_error
     else load_directory P files (keys(kid \<mapsto> \<lparr>tk_pem = pem, tk_not_after = None\<rparr>)))"

definition store_from_directory :: "platform \<Rightarrow> (string \<times> string) list option \<Rightarrow> exn + (string \<rightharpoonup> trusted_key)" where
  "store_from_directory P pem_files =
     (case pem_files of None \<Rightarrow> Inl value_error | Some files \<Rightarrow> load_directory P files Map.empty)"

text \<open>\<open>FileSystemTrustStore.from_manifest\<close> does not check the type of \<open>kid\<close>: any hashable value is a
  key of the dictionary. Lookups ask for strings.\<close>

definition hashable :: "pyval \<Rightarrow> bool" where
  "hashable v \<longleftrightarrow> (case v of PList xs \<Rightarrow> False | PDict d \<Rightarrow> False | _ \<Rightarrow> True)"

fun load_manifest ::
  "platform \<Rightarrow> manifest_dir \<Rightarrow> pyval list \<Rightarrow> (pyval \<times> trusted_key) list \<Rightarrow> exn + (pyval \<times> trusted_key) list" where
  "load_manifest P dir [] keys = Inr keys"
| "load_manifest P dir (e # entries) keys =
     (if \<not> is_dict e then Inl value_error
      else let entry = dict_of e in
        if \<not> has_key entry ''kid'' \<or> \<not> has_key entry ''pem_path'' then Inl value_error
        else let kid = item entry ''kid'' in
          bindE (entry_pem P dir entry) (\<lambda>pem.
          bindE (entry_not_after P entry) (\<lambda>not_after.
          if \<not> hashable kid then Inl (std_error ''TypeError'')
          else if list_ex (\<lambda>k. py_eq (fst k) kid) keys then Inl value_error
          else load_manifest P dir entries (keys @ [(kid, \<lparr>tk_pem = pem, tk_not_after = not_after\<rparr>)]))))"

definition store_from_manifest :: "platform \<Rightarrow> manifest_dir \<Rightarrow> string \<Rightarrow> exn + (string \<rightharpoonup> trusted_key)" where
  "store_from_manifest P dir manifest_text =
     bindE (manifest_entries P manifest_text) (\<lambda>entries.
     bindE (load_manifest P dir entries []) (\<lambda>keys. Inr (\<lambda>kid. map_of keys (PStr kid))))"


section \<open>Issuer keys\<close>

record issuer_trust_key =
  ik_pem :: string
  ik_not_after :: "datetime option"

type_synonym issuer_store = "string \<times> string \<rightharpoonup> issuer_trust_key"

text \<open>\<open>IssuerTrustStore.__call__\<close>; \<open>wall\<close> is \<open>datetime.now(UTC)\<close>.\<close>

definition issuer_store_lookup :: "issuer_store \<Rightarrow> datetime \<Rightarrow> string \<Rightarrow> string \<Rightarrow> exn + string" where
  "issuer_store_lookup keys wall iss kid =
     (case keys (iss, kid) of
        None \<Rightarrow> Inl (eve UNKNOWN_ISSUER_KEY)
      | Some entry \<Rightarrow>
          (case ik_not_after entry of
             Some t \<Rightarrow> if wall > t then Inl (eve ISSUER_KEY_EXPIRED) else Inr (ik_pem entry)
           | None \<Rightarrow> Inr (ik_pem entry)))"

fun load_issuer_manifest ::
  "platform \<Rightarrow> manifest_dir \<Rightarrow> pyval list \<Rightarrow> issuer_store \<Rightarrow> exn + issuer_store" where
  "load_issuer_manifest P dir [] keys = Inr keys"
| "load_issuer_manifest P dir (e # entries) keys =
     (if \<not> is_dict e then Inl value_error
      else let entry = dict_of e in
        if \<not> list_all (has_key entry) [''iss'', ''kid'', ''pem_path''] then Inl value_error
        else let iss = item entry ''iss''; kid = item entry ''kid'' in
          bindE (guard (str_test spiffe_id_re iss) value_error) (\<lambda>_.
          bindE (guard (str_test kid_re kid) value_error) (\<lambda>_.
          bindE (entry_pem P dir entry) (\<lambda>pem.
          bindE (entry_not_after P entry) (\<lambda>not_after.
          let key = (str_of iss, str_of kid) in
          if keys key \<noteq> None then Inl value_error
          else load_issuer_manifest P dir entries
                 (keys(key \<mapsto> \<lparr>ik_pem = pem, ik_not_after = not_after\<rparr>)))))))"

definition issuer_store_from_manifest :: "platform \<Rightarrow> manifest_dir \<Rightarrow> string \<Rightarrow> exn + issuer_store" where
  "issuer_store_from_manifest P dir manifest_text =
     bindE (manifest_entries P manifest_text) (\<lambda>entries. load_issuer_manifest P dir entries Map.empty)"


section \<open>Bootstrap bundles\<close>

abbreviation bootstrap_error :: exn where
  "bootstrap_error \<equiv> repo_error ''BootstrapBundleError''"

record bootstrap_anchor =
  an_iss :: string
  an_kid :: string
  an_pem_b64 :: string

definition pem_bytes :: "bootstrap_anchor \<Rightarrow> exn + string" where
  "pem_bytes a = catch_all bootstrap_error (decode_base64url (PStr (an_pem_b64 a)))"

definition encode_anchor_pem :: "string \<Rightarrow> string" where
  "encode_anchor_pem pem = b64url pem"

record bootstrap_bundle =
  bb_version :: pyval
  bb_trust_domain :: pyval
  bb_epoch :: pyval
  bb_anchors :: "bootstrap_anchor list"
  bb_signature :: pyval

definition anchor_object :: "bootstrap_anchor \<Rightarrow> pyval" where
  "anchor_object a =
     PDict [(''iss'', PStr (an_iss a)), (''kid'', PStr (an_kid a)), (''pem_b64'', PStr (an_pem_b64 a))]"

definition bootstrap_body :: "bootstrap_bundle \<Rightarrow> pyval" where
  "bootstrap_body b =
     PDict [(''typ'', PStr ''wt-bootstrap-bundle/v0''), (''version'', bb_version b),
            (''trust_domain'', bb_trust_domain b), (''epoch'', bb_epoch b),
            (''anchors'', PList (map anchor_object (bb_anchors b)))]"

definition bootstrap_object :: "bootstrap_bundle \<Rightarrow> pyval" where
  "bootstrap_object b =
     PDict [(''version'', bb_version b), (''trust_domain'', bb_trust_domain b), (''epoch'', bb_epoch b),
            (''anchors'', PList (map anchor_object (bb_anchors b))), (''signature'', bb_signature b)]"

definition bootstrap_sign :: "platform \<Rightarrow> (string \<Rightarrow> string) \<Rightarrow> bootstrap_bundle \<Rightarrow> exn + bootstrap_bundle" where
  "bootstrap_sign P sign b = bindE (sign_body P sign (bootstrap_body b)) (\<lambda>s. Inr (b\<lparr>bb_signature := s\<rparr>))"

fun read_anchors :: "pyval list \<Rightarrow> exn + bootstrap_anchor list" where
  "read_anchors [] = Inr []"
| "read_anchors (a # as) =
     (if \<not> is_dict a then Inl bootstrap_error
      else let d = dict_of a in
        if \<not> list_all (\<lambda>f. has_key d f \<and> is_str (item d f)) [''iss'', ''kid'', ''pem_b64''] then Inl bootstrap_error
        else bindE (read_anchors as) (\<lambda>rest.
          Inr (\<lparr>an_iss = str_of (item d ''iss''), an_kid = str_of (item d ''kid''),
                an_pem_b64 = str_of (item d ''pem_b64'')\<rparr> # rest)))"

definition bootstrap_from_json :: "platform \<Rightarrow> string \<Rightarrow> exn + bootstrap_bundle" where
  "bootstrap_from_json P data =
     (case p_json_loads P data of
        Inl e \<Rightarrow> if value_or_type_error e then Inl bootstrap_error else Inl e
      | Inr obj \<Rightarrow>
          if \<not> is_dict obj then Inl bootstrap_error
          else let d = dict_of obj in
            if \<not> list_all (has_key d) [''version'', ''trust_domain'', ''epoch'', ''anchors'', ''signature'']
            then Inl bootstrap_error
            else (case item d ''anchors'' of
                PList raw \<Rightarrow>
                  bindE (read_anchors raw) (\<lambda>anchors.
                    Inr \<lparr>bb_version = item d ''version'', bb_trust_domain = item d ''trust_domain'',
                         bb_epoch = item d ''epoch'', bb_anchors = anchors, bb_signature = item d ''signature''\<rparr>)
              | _ \<Rightarrow> Inl bootstrap_error))"

definition trust_domain_re :: "string \<Rightarrow> bool" where
  "trust_domain_re = re_dollar (\<lambda>s. s \<noteq> [] \<and> list_all (\<lambda>c. is_alnum c \<or> c = CHR ''.'' \<or> c = CHR ''_'' \<or> c = CHR ''-'') s)"

fun check_anchors :: "platform \<Rightarrow> (string \<times> string) set \<Rightarrow> bootstrap_anchor list \<Rightarrow> exn + unit" where
  "check_anchors P seen [] = Inr ()"
| "check_anchors P seen (a # as) =
     (if \<not> spiffe_id_re (an_iss a) then Inl bootstrap_error
      else if \<not> kid_re (an_kid a) then Inl bootstrap_error
      else if (an_iss a, an_kid a) \<in> seen then Inl bootstrap_error
      else bindE (pem_bytes a) (\<lambda>pem.
        bindE (catch_all bootstrap_error (load_ed25519_public_key P pem)) (\<lambda>_.
        check_anchors P (insert (an_iss a, an_kid a) seen) as)))"

definition bootstrap_shape :: "platform \<Rightarrow> bootstrap_bundle \<Rightarrow> exn + unit" where
  "bootstrap_shape P b =
     bindE (guards
       [(is_int (bb_version b) \<and> \<not> int_of (bb_version b) < 1, bootstrap_error),
        (is_int (bb_epoch b) \<and> \<not> int_of (bb_epoch b) < 1, bootstrap_error),
        (str_test trust_domain_re (bb_trust_domain b), bootstrap_error),
        (bb_anchors b \<noteq> [], bootstrap_error)])
       (\<lambda>_. check_anchors P {} (bb_anchors b))"

fun anchor_keys :: "bootstrap_anchor list \<Rightarrow> issuer_store \<Rightarrow> exn + issuer_store" where
  "anchor_keys [] keys = Inr keys"
| "anchor_keys (a # as) keys =
     bindE (pem_bytes a) (\<lambda>pem. anchor_keys as (keys((an_iss a, an_kid a) \<mapsto> \<lparr>ik_pem = pem, ik_not_after = None\<rparr>)))"

definition bootstrap_verify ::
  "platform \<Rightarrow> string \<Rightarrow> string option \<Rightarrow> bootstrap_bundle \<Rightarrow> exn + issuer_store" where
  "bootstrap_verify P expected_root_pem expected_trust_domain b =
     bindE (bootstrap_shape P b) (\<lambda>_.
     bindE (guard (case expected_trust_domain of None \<Rightarrow> True | Some d \<Rightarrow> bb_trust_domain b = PStr d)
              bootstrap_error) (\<lambda>_.
     bindE (guard (truthy (bb_signature b)) bootstrap_error) (\<lambda>_.
     bindE (catch_all bootstrap_error (decode_base64url (bb_signature b))) (\<lambda>sig_bytes.
     bindE (catch_all bootstrap_error (load_ed25519_public_key P expected_root_pem)) (\<lambda>root_key.
     bindE (p_canon P (bootstrap_body b)) (\<lambda>input.
     bindE (guard (p_verify P root_key sig_bytes input) bootstrap_error) (\<lambda>_.
     anchor_keys (bb_anchors b) Map.empty)))))))"


section \<open>Every key a store hands out\<close>

definition ed25519_pem :: "platform \<Rightarrow> string \<Rightarrow> bool" where
  "ed25519_pem P pem \<longleftrightarrow> (\<exists>key. p_load_pem P pem = Inr (Ed25519Key key))"

definition kept_in :: "platform \<Rightarrow> manifest_dir \<Rightarrow> string \<Rightarrow> bool" where
  "kept_in P dir pem \<longleftrightarrow> ed25519_pem P pem \<and> (\<exists>path. fd_inside dir path \<and> fd_read dir path = Some pem)"

lemma parse_or_raise_Inr: "parse_or_raise P pem = Inr u \<longleftrightarrow> ed25519_pem P pem"
  by (auto simp: parse_or_raise_def ed25519_pem_def split: sum.splits public_key.splits)

lemma entry_pem_kept: "entry_pem P dir entry = Inr pem \<Longrightarrow> kept_in P dir pem"
  by (auto simp: entry_pem_def kept_in_def parse_or_raise_Inr split: pyval.splits option.splits)

lemma load_manifest_Cons:
  "load_manifest P dir (e # entries) keys = Inr keys' \<longleftrightarrow>
     (\<exists>entry pem na. e = PDict entry \<and> has_key entry ''kid'' \<and> has_key entry ''pem_path'' \<and>
        entry_pem P dir entry = Inr pem \<and> entry_not_after P entry = Inr na \<and> hashable (item entry ''kid'') \<and>
        \<not> list_ex (\<lambda>k. py_eq (fst k) (item entry ''kid'')) keys \<and>
        load_manifest P dir entries (keys @ [(item entry ''kid'', \<lparr>tk_pem = pem, tk_not_after = na\<rparr>)]) = Inr keys')"
  by (cases e) (auto simp: Let_def)

lemma load_issuer_manifest_Cons:
  "load_issuer_manifest P dir (e # entries) keys = Inr keys' \<longleftrightarrow>
     (\<exists>entry iss kid pem na. e = PDict entry \<and> list_all (has_key entry) [''iss'', ''kid'', ''pem_path''] \<and>
        item entry ''iss'' = PStr iss \<and> spiffe_id_re iss \<and> item entry ''kid'' = PStr kid \<and> kid_re kid \<and>
        entry_pem P dir entry = Inr pem \<and> entry_not_after P entry = Inr na \<and> keys (iss, kid) = None \<and>
        load_issuer_manifest P dir entries (keys((iss, kid) \<mapsto> \<lparr>ik_pem = pem, ik_not_after = na\<rparr>)) = Inr keys')"
  by (cases e) (auto simp: Let_def str_test_iff)

lemma load_manifest_kept:
  assumes "load_manifest P dir entries keys = Inr keys'" "\<forall>x\<in>set keys. kept_in P dir (tk_pem (snd x))"
  shows "\<forall>x\<in>set keys'. kept_in P dir (tk_pem (snd x))"
  using assms
proof (induction entries arbitrary: keys)
  case (Cons e entries)
  from Cons.prems(1)[unfolded load_manifest_Cons] obtain kid pem na where
    pem: "kept_in P dir pem" and rest: "load_manifest P dir entries (keys @ [(kid, \<lparr>tk_pem = pem, tk_not_after = na\<rparr>)]) = Inr keys'"
    by (blast dest: entry_pem_kept)
  show ?case by (rule Cons.IH[OF rest]) (use Cons.prems(2) pem in auto)
qed simp

lemma load_issuer_manifest_kept:
  assumes "load_issuer_manifest P dir entries keys = Inr keys'" "\<forall>k key. keys k = Some key \<longrightarrow> kept_in P dir (ik_pem key)"
  shows "\<forall>k key. keys' k = Some key \<longrightarrow> kept_in P dir (ik_pem key)"
  using assms
proof (induction entries arbitrary: keys)
  case (Cons e entries)
  from Cons.prems(1)[unfolded load_issuer_manifest_Cons] obtain k pem na where
    pem: "kept_in P dir pem" and rest: "load_issuer_manifest P dir entries (keys(k \<mapsto> \<lparr>ik_pem = pem, ik_not_after = na\<rparr>)) = Inr keys'"
    by (blast dest: entry_pem_kept)
  show ?case by (rule Cons.IH[OF rest]) (use Cons.prems(2) pem in auto)
qed simp

lemma load_directory_keys:
  assumes "load_directory P files keys = Inr keys'" "keys' k = Some tk"
  shows "keys k = Some tk \<or> (k, tk_pem tk) \<in> set files \<and> ed25519_pem P (tk_pem tk)"
  using assms
proof (induction files arbitrary: keys)
  case (Cons f files)
  obtain kid pem where f: "f = (kid, pem)" by fastforce
  then have pem: "ed25519_pem P pem"
    and rest: "load_directory P files (keys(kid \<mapsto> \<lparr>tk_pem = pem, tk_not_after = None\<rparr>)) = Inr keys'"
    using Cons.prems(1) by (auto simp: parse_or_raise_Inr split: if_splits)
  from Cons.IH[OF rest Cons.prems(2)] show ?case using f pem by (cases "k = kid") auto
qed simp

lemma lookup_returned:
  "trust_store_lookup keys wall kid = Inr pem \<longleftrightarrow>
     (\<exists>tk. keys kid = Some tk \<and> tk_pem tk = pem \<and> (\<forall>t. tk_not_after tk = Some t \<longrightarrow> wall \<le> t))"
  "issuer_store_lookup ikeys wall iss kid = Inr pem \<longleftrightarrow>
     (\<exists>ik. ikeys (iss, kid) = Some ik \<and> ik_pem ik = pem \<and> (\<forall>t. ik_not_after ik = Some t \<longrightarrow> wall \<le> t))"
  by (auto simp: trust_store_lookup_def issuer_store_lookup_def split: option.splits)

text \<open>A key that a store loaded from a manifest returns is an Ed25519 key that was read from a file
  inside the directory of the manifest, and it has not expired at the time of the lookup.\<close>

lemma manifest_store_confined:
  "store_from_manifest P dir manifest_text = Inr store \<Longrightarrow> trust_store_lookup store wall kid = Inr pem \<Longrightarrow>
     kept_in P dir pem"
  "issuer_store_from_manifest P dir manifest_text = Inr istore \<Longrightarrow>
     issuer_store_lookup istore wall iss kid = Inr pem \<Longrightarrow> kept_in P dir pem"
proof -
  assume "store_from_manifest P dir manifest_text = Inr store" "trust_store_lookup store wall kid = Inr pem"
  then obtain entries keys tk where "load_manifest P dir entries [] = Inr keys" "map_of keys (PStr kid) = Some tk" "tk_pem tk = pem"
    by (auto simp: store_from_manifest_def lookup_returned)
  then show "kept_in P dir pem" using load_manifest_kept[of P dir entries "[]" keys] by (fastforce dest: map_of_SomeD)
next
  assume "issuer_store_from_manifest P dir manifest_text = Inr istore" "issuer_store_lookup istore wall iss kid = Inr pem"
  then show "kept_in P dir pem"
    using load_issuer_manifest_kept[of P dir _ Map.empty istore]
    by (auto simp: issuer_store_from_manifest_def lookup_returned)
qed

lemma directory_store_exact:
  assumes "store_from_directory P pem_files = Inr store" "trust_store_lookup store wall kid = Inr pem"
  shows "\<exists>files. pem_files = Some files \<and> (kid, pem) \<in> set files \<and> ed25519_pem P pem"
  using assms load_directory_keys[of P _ Map.empty store kid]
  by (auto simp: store_from_directory_def lookup_returned split: option.splits)


section \<open>Bootstrap\<close>

lemma read_anchors_objects: "read_anchors (map anchor_object as) = Inr as"
  by (induction as) (auto simp: anchor_object_def has_key_def item_def Let_def)

lemma bootstrap_roundtrip:
  assumes "p_json_loads P data = Inr (bootstrap_object b)"
  shows "bootstrap_from_json P data = Inr b"
  using assms by (simp add: bootstrap_from_json_def bootstrap_object_def read_anchors_objects has_key_def item_def Let_def)

interpretation anchors: signed_artifact bootstrap_body bb_signature bootstrap_sign bootstrap_object bootstrap_from_json
  by unfold_locales (auto simp: bootstrap_sign_def bootstrap_body_def intro: bootstrap_roundtrip)

definition anchor_key :: "bootstrap_anchor \<Rightarrow> string \<times> string" where
  "anchor_key a = (an_iss a, an_kid a)"

lemma check_anchors_Inr:
  "check_anchors P seen as = Inr () \<longleftrightarrow>
     (\<forall>a\<in>set as. spiffe_id_re (an_iss a) \<and> kid_re (an_kid a) \<and> anchor_key a \<notin> seen \<and>
        (\<exists>pem. pem_bytes a = Inr pem \<and> ed25519_pem P pem)) \<and>
     distinct (map anchor_key as)"
proof (induction as arbitrary: seen)
  case (Cons a as)
  have "check_anchors P seen (a # as) = Inr () \<longleftrightarrow>
      spiffe_id_re (an_iss a) \<and> kid_re (an_kid a) \<and> anchor_key a \<notin> seen \<and>
      (\<exists>pem. pem_bytes a = Inr pem \<and> ed25519_pem P pem) \<and> check_anchors P (insert (anchor_key a) seen) as = Inr ()"
    unfolding anchor_key_def ed25519_pem_def by (simp add: load_key_Inr) blast
  then show ?case unfolding Cons.IH by (auto simp: image_iff)
qed simp

lemma anchor_keys_exact:
  assumes "anchor_keys as keys = Inr keys'" "distinct (map anchor_key as)"
  shows "keys' k = (case find (\<lambda>a. anchor_key a = k) as of
      Some a \<Rightarrow> Some \<lparr>ik_pem = projr (pem_bytes a), ik_not_after = None\<rparr> | None \<Rightarrow> keys k)"
  using assms
proof (induction as arbitrary: keys)
  case (Cons a as)
  obtain pem where pem: "pem_bytes a = Inr pem"
    and rest: "anchor_keys as (keys(anchor_key a \<mapsto> \<lparr>ik_pem = pem, ik_not_after = None\<rparr>)) = Inr keys'"
    using Cons.prems(1) by (auto simp: anchor_key_def)
  have "anchor_key b \<noteq> anchor_key a" if "b \<in> set as" for b using Cons.prems(2) that by (metis distinct.simps(2) image_eqI list.set_map list.simps(9))
  then have "find (\<lambda>b. anchor_key b = anchor_key a) as = None" by (auto simp: find_None_iff)
  then show ?case
    using Cons.IH[OF rest] Cons.prems(2) pem by (cases "k = anchor_key a") (auto split: option.split)
qed simp

lemma anchor_keys_total:
  "\<forall>a\<in>set as. \<exists>pem. pem_bytes a = Inr pem \<Longrightarrow> \<exists>keys'. anchor_keys as keys = Inr keys'"
  by (induction as arbitrary: keys) auto

text \<open>The store of a verified bundle: exactly the anchors, none of which expires.\<close>

definition rooted :: "platform \<Rightarrow> string \<Rightarrow> bootstrap_bundle \<Rightarrow> bool" where
  "rooted P root_pem b \<longleftrightarrow> signed_by P (\<lambda>_ _. Inr root_pem) [] [] (bb_signature b) (bootstrap_body b)"

lemma bootstrap_verify_Inr:
  "bootstrap_verify P root_pem domain b = Inr store \<longleftrightarrow>
     bootstrap_shape P b = Inr () \<and> (\<forall>d. domain = Some d \<longrightarrow> bb_trust_domain b = PStr d) \<and>
     truthy (bb_signature b) \<and> rooted P root_pem b \<and> anchor_keys (bb_anchors b) Map.empty = Inr store"
  by (auto simp: bootstrap_verify_def rooted_def signed_by_def load_key_Inr split: option.splits)

lemma bootstrap_store:
  assumes "bootstrap_verify P root_pem domain b = Inr store"
  shows "issuer_store_lookup store wall iss kid = Inr pem \<longleftrightarrow>
      (\<exists>a\<in>set (bb_anchors b). an_iss a = iss \<and> an_kid a = kid \<and> pem_bytes a = Inr pem)"
proof -
  have "check_anchors P {} (bb_anchors b) = Inr ()" "anchor_keys (bb_anchors b) Map.empty = Inr store"
    using assms by (auto simp: bootstrap_verify_Inr bootstrap_shape_def)
  note c = this(1)[unfolded check_anchors_Inr] and k = anchor_keys_exact[OF this(2), of "(iss, kid)"]
  have key: "an_iss a = iss \<and> an_kid a = kid \<longleftrightarrow> anchor_key a = (iss, kid)" for a by (simp add: anchor_key_def)
  show ?thesis
  proof (cases "find (\<lambda>a. anchor_key a = (iss, kid)) (bb_anchors b)")
    case None
    then have "store (iss, kid) = None" using k c by simp
    moreover have "\<forall>a\<in>set (bb_anchors b). anchor_key a \<noteq> (iss, kid)" using None by (auto simp: find_None_iff)
    ultimately
    show ?thesis by (auto simp: lookup_returned anchor_key_def)
  next
    case (Some a)
    then have a: "a \<in> set (bb_anchors b)" "anchor_key a = (iss, kid)"
      by (auto simp: find_Some_iff)
    have one: "a' = a" if "a' \<in> set (bb_anchors b)" "anchor_key a' = (iss, kid)" for a'
      using c that a inj_onD[of anchor_key "set (bb_anchors b)" a' a] by (simp add: distinct_map)
    obtain pem' where pem': "pem_bytes a = Inr pem'" using c a by blast
    then have "store (iss, kid) = Some \<lparr>ik_pem = pem', ik_not_after = None\<rparr>" using k c Some by simp
    then have "issuer_store_lookup store wall iss kid = Inr pem \<longleftrightarrow> pem = pem'" by (auto simp: lookup_returned)
    moreover have "(\<exists>a\<in>set (bb_anchors b). an_iss a = iss \<and> an_kid a = kid \<and> pem_bytes a = Inr pem) \<longleftrightarrow> pem_bytes a = Inr pem"
      using a one key by blast
    ultimately show ?thesis using pem' by auto
  qed
qed

text \<open>C26. A token is trusted only through the root key given out of band: when a capability token
  verifies against the store of a verified bootstrap bundle, the issuer and key id it names are those
  of an anchor of the bundle, the key in that anchor made the token's signature, and the root key made
  the signature of the bundle, whose trust domain is the expected one. A bundle that was made by the
  holder of the root key and survives its transport as JSON is verified, and its store answers with
  exactly its anchors.\<close>

theorem bootstrap_roots_tokens:
  "(bootstrap_verify P root_pem domain b = Inr store \<longrightarrow>
    verify_capability_token P token envelope (issuer_store_lookup store wall) t skew max_ttl revocation = Inr claims \<longrightarrow>
    rooted P root_pem b \<and> (\<forall>d. domain = Some d \<longrightarrow> bb_trust_domain b = PStr d) \<and>
    (\<exists>a pem key header payload input sig. a \<in> set (bb_anchors b) \<and> an_iss a = cl_iss claims \<and>
       an_kid a = cl_issuer_kid claims \<and> pem_bytes a = Inr pem \<and> p_load_pem P pem = Inr (Ed25519Key key) \<and>
       parse_jwt P token = Inr (header, payload, input, sig) \<and> p_verify P key sig input)) \<and>
   (bootstrap_sign P sign b0 = Inr b \<longrightarrow> key_pair P sign root_key \<longrightarrow> p_load_pem P root_pem = Inr (Ed25519Key root_key) \<longrightarrow>
    bootstrap_shape P b0 = Inr () \<longrightarrow> bb_trust_domain b0 = PStr mesh \<longrightarrow>
    p_json_loads P data = Inr (bootstrap_object b) \<longrightarrow>
    (\<exists>store. bindE (bootstrap_from_json P data) (bootstrap_verify P root_pem (Some mesh)) = Inr store \<and>
       (\<forall>iss kid pem. issuer_store_lookup store wall iss kid = Inr pem \<longleftrightarrow>
          (\<exists>a\<in>set (bb_anchors b0). an_iss a = iss \<and> an_kid a = kid \<and> pem_bytes a = Inr pem))))"
proof (intro conjI impI)
  assume v: "bootstrap_verify P root_pem domain b = Inr store"
    and t: "verify_capability_token P token envelope (issuer_store_lookup store wall) t skew max_ttl revocation = Inr claims"
  show "rooted P root_pem b" "\<forall>d. domain = Some d \<longrightarrow> bb_trust_domain b = PStr d"
    using v by (auto simp: bootstrap_verify_Inr)
  show "\<exists>a pem key header payload input sig. a \<in> set (bb_anchors b) \<and> an_iss a = cl_iss claims \<and>
       an_kid a = cl_issuer_kid claims \<and> pem_bytes a = Inr pem \<and> p_load_pem P pem = Inr (Ed25519Key key) \<and>
       parse_jwt P token = Inr (header, payload, input, sig) \<and> p_verify P key sig input"
    using t by (rule verify_capability_token_Inr) (use bootstrap_store[OF v] in blast)
next
  assume s: "bootstrap_sign P sign b0 = Inr b" "key_pair P sign root_key" "p_load_pem P root_pem = Inr (Ed25519Key root_key)"
    and shape: "bootstrap_shape P b0 = Inr ()" and dom: "bb_trust_domain b0 = PStr mesh"
    and data: "p_json_loads P data = Inr (bootstrap_object b)"
  have parts: "bb_version b = bb_version b0" "bb_epoch b = bb_epoch b0" "bb_trust_domain b = bb_trust_domain b0"
    "bb_anchors b = bb_anchors b0" using s(1) by (auto simp: bootstrap_sign_def)
  have "rooted P root_pem b"
    unfolding rooted_def
    by (rule anchors.signed[where issuer_lookup = "\<lambda>_ _. Inr root_pem" and pem = root_pem, OF s(1,2) refl s(3)])
  moreover have "truthy (bb_signature b)"
    using s(1,2) by (auto simp: bootstrap_sign_def sign_body_def key_pair_def simp: b64url_nonempty)
  moreover have "bootstrap_shape P b = Inr ()" using shape parts by (simp add: bootstrap_shape_def)
  moreover have "\<forall>a\<in>set (bb_anchors b). \<exists>pem. pem_bytes a = Inr pem"
    using shape parts by (auto simp: bootstrap_shape_def check_anchors_Inr)
  then obtain store where "anchor_keys (bb_anchors b) Map.empty = Inr store"
    using anchor_keys_total by blast
  ultimately have v: "bootstrap_verify P root_pem (Some mesh) b = Inr store"
    using dom parts by (simp add: bootstrap_verify_Inr)
  then show "\<exists>store. bindE (bootstrap_from_json P data) (bootstrap_verify P root_pem (Some mesh)) = Inr store \<and>
       (\<forall>iss kid pem. issuer_store_lookup store wall iss kid = Inr pem \<longleftrightarrow>
          (\<exists>a\<in>set (bb_anchors b0). an_iss a = iss \<and> an_kid a = kid \<and> pem_bytes a = Inr pem))"
    using bootstrap_store[OF v] bootstrap_roundtrip[OF data] parts by (auto simp del: split_paired_Ex)
qed

text \<open>A bundle with one anchor, and the platform of \<open>Demo\<close> on which its text parses.\<close>

definition root_bundle :: bootstrap_bundle where
  "root_bundle =
     \<lparr>bb_version = PInt 1, bb_trust_domain = PStr ''mesh'', bb_epoch = PInt 1,
      bb_anchors = [\<lparr>an_iss = ''spiffe://i'', an_kid = ''ik'', an_pem_b64 = b64url ''pem''\<rparr>],
      bb_signature = PStr ''AA''\<rparr>"

definition root_platform :: platform where
  "root_platform = demo_platform\<lparr>p_json_loads :=
     (\<lambda>s. if s = ''bundle'' then Inr (bootstrap_object root_bundle) else p_json_loads demo_platform s)\<rparr>"

definition root_store :: issuer_store where
  "root_store = [(''spiffe://i'', ''ik'') \<mapsto> \<lparr>ik_pem = ''pem'', ik_not_after = None\<rparr>]"

lemma root_pem: "pem_bytes \<lparr>an_iss = iss, an_kid = kid, an_pem_b64 = b64url ''pem''\<rparr> = Inr ''pem''"
  by (simp add: pem_bytes_def base64url_roundtrip del: b64url.simps)

lemma root_shape: "bootstrap_shape root_platform root_bundle = Inr ()"
  by (simp add: bootstrap_shape_def root_bundle_def root_pem load_ed25519_public_key_def root_platform_def
      demo_platform_def catch_all_def trust_domain_re_def pattern_defs del: b64url.simps)

lemma root_verified: "bootstrap_verify root_platform ''pem'' (Some ''mesh'') root_bundle = Inr root_store"
proof -
  have "signed_by demo_platform (\<lambda>_ _. Inr ''pem'') [] [] (PStr ''AA'') (bootstrap_body root_bundle)"
    by (rule demo_signed)
  then have "rooted root_platform ''pem'' root_bundle"
    by (simp add: rooted_def signed_by_def root_platform_def root_bundle_def)
  then show ?thesis
    by (simp add: bootstrap_verify_Inr root_shape)
       (simp add: root_bundle_def root_store_def root_pem del: b64url.simps)
qed

lemma root_token:
  "verify_capability_token root_platform (PStr ''AA.AQ.AA'') (dict_of demo_envelope)
     (issuer_store_lookup root_store 0) 0 (seconds 60) (minutes 10) None = Inr demo_claims"
  by code_simp

theorem bootstrap_roots_tokens_witness:
  "rooted root_platform ''pem'' root_bundle \<and>
   (\<exists>store. bindE (bootstrap_from_json root_platform ''bundle'') (bootstrap_verify root_platform ''pem'' (Some ''mesh'')) =
      Inr store \<and> issuer_store_lookup store 0 ''spiffe://i'' ''ik'' = Inr ''pem'')"
proof -
  let ?b = "root_bundle\<lparr>bb_signature := PNone\<rparr>" and ?sign = "\<lambda>m. [CHR 0x00]"
  have "b64url [CHR 0x00] = ''AA''" by code_simp
  then have "bootstrap_sign root_platform ?sign ?b = Inr root_bundle"
    by (simp add: bootstrap_sign_def sign_body_def root_platform_def demo_platform_def) (simp add: root_bundle_def)
  moreover have "key_pair root_platform ?sign ''key''" "p_load_pem root_platform ''pem'' = Inr (Ed25519Key ''key'')"
    "p_json_loads root_platform ''bundle'' = Inr (bootstrap_object root_bundle)"
    by (simp_all add: key_pair_def root_platform_def demo_platform_def)
  moreover have "bootstrap_shape root_platform ?b = Inr ()" using root_shape by (simp add: bootstrap_shape_def)
  moreover have "bb_trust_domain ?b = PStr ''mesh''" by (simp add: root_bundle_def)
  ultimately show ?thesis
    using bootstrap_roots_tokens[of root_platform "''pem''" "Some ''mesh''" root_bundle root_store "PStr ''AA.AQ.AA''"
        "dict_of demo_envelope" 0 0 "seconds 60" "minutes 10" None demo_claims ?sign ?b "''key''" "''mesh''" "''bundle''"]
      root_verified root_token root_pem[of "''spiffe://i''" "''ik''"]
    by (auto simp: root_bundle_def simp del: b64url.simps)
qed

end
