(* ===== verification/WorkloadCA.thy ===== *)
theory WorkloadCA
  imports Demo
begin

text \<open>
  The workload certificate authority (\<open>workload_ca.py\<close>): it issues X.509 certificates that carry a
  SPIFFE id (SVIDs), and \<open>verify_svid\<close> checks one against a root certificate. Of a certificate the
  model keeps what the code writes and reads; the builder of the \<open>cryptography\<close> package, which encodes
  and signs it, is the record \<open>x509\<close>.
\<close>

section \<open>Certificates\<close>

record key_usage =
  ku_digital_signature :: bool
  ku_key_cert_sign :: bool
  ku_crl_sign :: bool

record cert_body =
  cb_subject :: string
  cb_issuer :: string
  cb_public_key :: public_key
  cb_serial_number :: int
  cb_not_before :: datetime
  cb_not_after :: datetime
  cb_san_uris :: "string list option"
  cb_ca :: bool
  cb_path_length :: "int option"
  cb_key_usage :: "key_usage option"

record certificate =
  ce_body :: cert_body
  ce_tbs :: string
  ce_signature :: string

text \<open>\<open>x_name\<close> is \<open>x509.Name\<close> with one common name, which refuses some strings; \<open>x_build\<close> is
  \<open>CertificateBuilder.sign\<close> with a key that signs by the function given.\<close>

record x509 =
  x_name :: "string \<Rightarrow> exn + string"
  x_build :: "cert_body \<Rightarrow> (string \<Rightarrow> string) \<Rightarrow> exn + certificate"

abbreviation ca_error :: exn where
  "ca_error \<equiv> repo_error ''WorkloadCAError''"

definition svid_error :: "deny_reason \<Rightarrow> exn" where
  "svid_error r = \<lparr>exn_cls = RepoError ''SvidVerificationError'', exn_reason = Some r\<rparr>"

definition spiffe_trust_domain :: "string \<Rightarrow> string" where
  "spiffe_trust_domain spiffe_id = takeWhile (\<lambda>c. c \<noteq> CHR ''/'') (drop 9 spiffe_id)"


section \<open>The authority\<close>

text \<open>\<open>wc_sign\<close> and \<open>wc_public\<close> are the two halves of the root key.\<close>

record workload_ca =
  wc_trust_domain :: string
  wc_sign :: "string \<Rightarrow> string"
  wc_public :: string
  wc_common_name :: string
  wc_root_cert :: "certificate option"

definition new_workload_ca :: "string \<Rightarrow> (string \<Rightarrow> string) \<Rightarrow> string \<Rightarrow> string \<Rightarrow> exn + workload_ca" where
  "new_workload_ca trust_domain sign public common_name =
     (if trust_domain = [] then Inl ca_error
      else if \<not> spiffe_id_re (''spiffe://'' @ trust_domain @ ''/probe'') then Inl ca_error
      else Inr \<lparr>wc_trust_domain = trust_domain, wc_sign = sign, wc_public = public,
                wc_common_name = common_name, wc_root_cert = None\<rparr>)"

definition root_not_before :: datetime where
  "root_not_before = seconds 1577836800"

definition root_not_after :: datetime where
  "root_not_after = seconds 1893456000"

definition root_body :: "string \<Rightarrow> string \<Rightarrow> cert_body" where
  "root_body name public =
     \<lparr>cb_subject = name, cb_issuer = name, cb_public_key = Ed25519Key public, cb_serial_number = 1,
      cb_not_before = root_not_before, cb_not_after = root_not_after, cb_san_uris = None,
      cb_ca = True, cb_path_length = Some 0,
      cb_key_usage = Some \<lparr>ku_digital_signature = False, ku_key_cert_sign = True, ku_crl_sign = True\<rparr>\<rparr>"

text \<open>The root certificate is built on first use.\<close>

definition root_cert :: "x509 \<Rightarrow> workload_ca \<Rightarrow> (exn + certificate) \<times> workload_ca" where
  "root_cert X ca =
     (case wc_root_cert ca of
        Some cert \<Rightarrow> (Inr cert, ca)
      | None \<Rightarrow>
          (case bindE (x_name X (wc_common_name ca)) (\<lambda>name. x_build X (root_body name (wc_public ca)) (wc_sign ca)) of
             Inl e \<Rightarrow> (Inl e, ca)
           | Inr cert \<Rightarrow> (Inr cert, ca\<lparr>wc_root_cert := Some cert\<rparr>)))"

definition DEFAULT_SVID_TTL :: timedelta where
  "DEFAULT_SVID_TTL = hours 1"

text \<open>\<open>spiffe_id.rsplit("/", 1)[-1] or "workload"\<close>\<close>

definition leaf_common_name :: "string \<Rightarrow> string" where
  "leaf_common_name spiffe_id =
     (let tail = rev (takeWhile (\<lambda>c. c \<noteq> CHR ''/'') (rev spiffe_id)) in if tail = [] then ''workload'' else tail)"

definition svid_body ::
  "string \<Rightarrow> string \<Rightarrow> string \<Rightarrow> public_key \<Rightarrow> int \<Rightarrow> datetime \<Rightarrow> datetime \<Rightarrow> cert_body" where
  "svid_body subject issuer spiffe_id public_key serial not_before not_after =
     \<lparr>cb_subject = subject, cb_issuer = issuer, cb_public_key = public_key, cb_serial_number = serial,
      cb_not_before = not_before, cb_not_after = not_after, cb_san_uris = Some [spiffe_id],
      cb_ca = False, cb_path_length = None,
      cb_key_usage = Some \<lparr>ku_digital_signature = True, ku_key_cert_sign = False, ku_crl_sign = False\<rparr>\<rparr>"

text \<open>\<open>random_serial\<close> is the result of \<open>x509.random_serial_number()\<close>; \<open>now\<close> is an aware time.\<close>

definition issue_svid ::
  "x509 \<Rightarrow> int \<Rightarrow> string \<Rightarrow> public_key \<Rightarrow> datetime \<Rightarrow> timedelta \<Rightarrow> int option \<Rightarrow> workload_ca \<Rightarrow>
   (exn + certificate) \<times> workload_ca" where
  "issue_svid X random_serial spiffe_id public_key now ttl serial ca =
     (if \<not> spiffe_id_re spiffe_id then (Inl ca_error, ca)
      else if spiffe_trust_domain spiffe_id \<noteq> wc_trust_domain ca then (Inl ca_error, ca)
      else if public_key = OtherKey then (Inl ca_error, ca)
      else if ttl \<le> 0 then (Inl ca_error, ca)
      else if now + ttl > datetime_max then (Inl (std_error ''OverflowError''), ca)
      else case x_name X (leaf_common_name spiffe_id) of
        Inl e \<Rightarrow> (Inl e, ca)
      | Inr subject \<Rightarrow>
          (case root_cert X ca of
             (Inl e, ca') \<Rightarrow> (Inl e, ca')
           | (Inr anchor, ca') \<Rightarrow>
               (x_build X (svid_body subject (cb_subject (ce_body anchor)) spiffe_id public_key
                             (case serial of Some n \<Rightarrow> n | None \<Rightarrow> random_serial) now (now + ttl)) (wc_sign ca'),
                ca')))"


section \<open>Verification\<close>

text \<open>\<open>svid_spiffe_id\<close> raises nothing but \<open>WorkloadCAError\<close>, which \<open>verify_svid\<close> catches.\<close>

definition svid_spiffe_id :: "certificate \<Rightarrow> exn + string" where
  "svid_spiffe_id cert =
     (case cb_san_uris (ce_body cert) of
        None \<Rightarrow> Inl ca_error
      | Some uris \<Rightarrow>
          (case filter (\<lambda>u. take 9 u = ''spiffe://'') uris of
             [u] \<Rightarrow> Inr u
           | _ \<Rightarrow> Inl ca_error))"

definition verify_svid ::
  "platform \<Rightarrow> certificate \<Rightarrow> certificate \<Rightarrow> datetime \<Rightarrow> string option \<Rightarrow> exn + string" where
  "verify_svid P cert anchor current expected =
     bindE (catch_all (svid_error SVID_MALFORMED) (svid_spiffe_id cert)) (\<lambda>spiffe_id.
     bindE (case cb_public_key (ce_body anchor) of
              Ed25519Key k \<Rightarrow> Inr k
            | OtherKey \<Rightarrow> Inl (svid_error SVID_UNTRUSTED_ROOT)) (\<lambda>root_pub.
     bindE (guards
       [(cb_issuer (ce_body cert) = cb_subject (ce_body anchor), svid_error SVID_UNTRUSTED_ROOT),
        (p_verify P root_pub (ce_signature cert) (ce_tbs cert), svid_error SVID_SIGNATURE_INVALID),
        (\<not> current < cb_not_before (ce_body cert), svid_error SVID_NOT_YET_VALID),
        (\<not> current > cb_not_after (ce_body cert), svid_error SVID_EXPIRED)]) (\<lambda>_.
     bindE (case cb_key_usage (ce_body cert) of
              None \<Rightarrow> Inl (svid_error SVID_KEY_USAGE_INVALID)
            | Some ku \<Rightarrow> guard (\<not> (\<not> ku_digital_signature ku \<or> ku_key_cert_sign ku)) (svid_error SVID_KEY_USAGE_INVALID)) (\<lambda>_.
     bindE (guard (expected = None \<or> expected = Some spiffe_id) (svid_error SVID_SPIFFE_MISMATCH)) (\<lambda>_.
     Inr spiffe_id)))))"


section \<open>What a verified SVID establishes\<close>

definition svid_ok :: "platform \<Rightarrow> certificate \<Rightarrow> certificate \<Rightarrow> datetime \<Rightarrow> string \<Rightarrow> bool" where
  "svid_ok P anchor cert t spiffe_id \<longleftrightarrow>
     (\<exists>uris. cb_san_uris (ce_body cert) = Some uris \<and> filter (\<lambda>u. take 9 u = ''spiffe://'') uris = [spiffe_id]) \<and>
     (\<exists>key. cb_public_key (ce_body anchor) = Ed25519Key key \<and> p_verify P key (ce_signature cert) (ce_tbs cert)) \<and>
     cb_issuer (ce_body cert) = cb_subject (ce_body anchor) \<and>
     cb_not_before (ce_body cert) \<le> t \<and> t \<le> cb_not_after (ce_body cert) \<and>
     (\<exists>ku. cb_key_usage (ce_body cert) = Some ku \<and> ku_digital_signature ku \<and> \<not> ku_key_cert_sign ku)"

lemma svid_spiffe_id_Inr:
  "svid_spiffe_id cert = Inr i \<longleftrightarrow>
     (\<exists>uris. cb_san_uris (ce_body cert) = Some uris \<and> filter (\<lambda>u. take 9 u = ''spiffe://'') uris = [i])"
  by (auto simp: svid_spiffe_id_def split: option.splits list.splits)

lemma verify_svid_Inr:
  "verify_svid P cert anchor t expected = Inr i \<longleftrightarrow>
     svid_ok P anchor cert t i \<and> (\<forall>e. expected = Some e \<longrightarrow> e = i)"
  by (cases expected) (auto simp: verify_svid_def svid_ok_def svid_spiffe_id_Inr split: public_key.splits option.splits)

text \<open>The builder writes what it is given, with the times cut to whole seconds as X.509 has them, and
  signs the encoded body.\<close>

definition whole_second :: "datetime \<Rightarrow> datetime" where
  "whole_second t = t div 1000000 * 1000000"

definition builds :: "x509 \<Rightarrow> bool" where
  "builds X \<longleftrightarrow> (\<forall>body sign cert. x_build X body sign = Inr cert \<longrightarrow>
     ce_body cert = body\<lparr>cb_not_before := whole_second (cb_not_before body), cb_not_after := whole_second (cb_not_after body)\<rparr> \<and>
     ce_signature cert = sign (ce_tbs cert))"

definition root_of :: "x509 \<Rightarrow> workload_ca \<Rightarrow> certificate \<Rightarrow> bool" where
  "root_of X ca anchor \<longleftrightarrow> (\<exists>name. x_build X (root_body name (wc_public ca)) (wc_sign ca) = Inr anchor)"

definition ca_inv :: "x509 \<Rightarrow> workload_ca \<Rightarrow> bool" where
  "ca_inv X ca \<longleftrightarrow> (\<forall>anchor. wc_root_cert ca = Some anchor \<longrightarrow> root_of X ca anchor)"

lemma new_workload_ca_inv: "new_workload_ca d sign public cn = Inr ca \<Longrightarrow> ca_inv X ca"
  by (auto simp: new_workload_ca_def ca_inv_def split: if_splits)

lemma root_cert_facts:
  assumes "root_cert X ca = (r, ca')" "ca_inv X ca"
  shows "ca_inv X ca'" "wc_sign ca' = wc_sign ca" "wc_public ca' = wc_public ca" "wc_trust_domain ca' = wc_trust_domain ca"
    "r = Inr anchor \<Longrightarrow> root_of X ca anchor \<and> wc_root_cert ca' = Some anchor"
    "wc_root_cert ca = Some anchor \<Longrightarrow> wc_root_cert ca' = Some anchor"
  using assms by (auto simp: root_cert_def ca_inv_def root_of_def split: option.splits sum.splits)

lemma issue_svid_cases:
  assumes "issue_svid X rs i k now ttl serial ca = (r, ca')"
  shows "ca' = ca \<and> \<not> returned r \<or>
    (\<exists>r0. root_cert X ca = (r0, ca') \<and>
       (\<forall>cert. r = Inr cert \<longrightarrow> spiffe_id_re i \<and> spiffe_trust_domain i = wc_trust_domain ca \<and>
          (\<exists>anchor subject n. r0 = Inr anchor \<and>
             x_build X (svid_body subject (cb_subject (ce_body anchor)) i k n now (now + ttl)) (wc_sign ca') = Inr cert)))"
  using assms by (auto simp: issue_svid_def split: if_splits sum.splits prod.splits)

lemma issue_svid_keeps:
  assumes "issue_svid X rs i k now ttl serial ca = (r, ca')" "ca_inv X ca"
  shows "ca_inv X ca' \<and> wc_sign ca' = wc_sign ca \<and> wc_public ca' = wc_public ca \<and> wc_trust_domain ca' = wc_trust_domain ca \<and>
    (\<forall>anchor. wc_root_cert ca = Some anchor \<longrightarrow> wc_root_cert ca' = Some anchor)"
proof (cases "ca' = ca")
  case False
  then obtain r0 where r: "root_cert X ca = (r0, ca')" using issue_svid_cases[OF assms(1)] by auto
  show ?thesis using root_cert_facts[OF r assms(2)] by blast
qed (use assms(2) in simp)

lemmas issue_svid_facts = issue_svid_keeps[THEN conjunct1] issue_svid_keeps[THEN conjunct2]

lemma issue_svid_Inr:
  assumes "issue_svid X rs i k now ttl serial ca = (Inr cert, ca')" "ca_inv X ca"
  obtains anchor subject n where "spiffe_id_re i" "spiffe_trust_domain i = wc_trust_domain ca"
    "wc_root_cert ca' = Some anchor" "root_of X ca anchor"
    "x_build X (svid_body subject (cb_subject (ce_body anchor)) i k n now (now + ttl)) (wc_sign ca) = Inr cert"
proof -
  from issue_svid_cases[OF assms(1)] obtain anchor subject n where
    r: "root_cert X ca = (Inr anchor, ca')" and c: "spiffe_id_re i" "spiffe_trust_domain i = wc_trust_domain ca"
      "x_build X (svid_body subject (cb_subject (ce_body anchor)) i k n now (now + ttl)) (wc_sign ca') = Inr cert"
    by auto
  from that[OF c(1,2)] c(3) root_cert_facts(2,5)[OF r assms(2)] show ?thesis by simp
qed


record svid_request =
  sr_random_serial :: int
  sr_spiffe_id :: string
  sr_public_key :: public_key
  sr_now :: datetime
  sr_ttl :: timedelta
  sr_serial_number :: "int option"

fun issue_all :: "x509 \<Rightarrow> svid_request list \<Rightarrow> workload_ca \<Rightarrow> workload_ca" where
  "issue_all X [] ca = ca"
| "issue_all X (q # qs) ca =
     issue_all X qs (snd (issue_svid X (sr_random_serial q) (sr_spiffe_id q) (sr_public_key q) (sr_now q) (sr_ttl q)
                            (sr_serial_number q) ca))"

lemma issue_all_facts:
  assumes "ca_inv X ca"
  shows "ca_inv X (issue_all X qs ca) \<and> wc_sign (issue_all X qs ca) = wc_sign ca \<and>
    wc_public (issue_all X qs ca) = wc_public ca \<and> wc_trust_domain (issue_all X qs ca) = wc_trust_domain ca \<and>
    (\<forall>anchor. wc_root_cert ca = Some anchor \<longrightarrow> wc_root_cert (issue_all X qs ca) = Some anchor)"
  using assms
proof (induction qs arbitrary: ca)
  case (Cons q qs)
  let ?ca = "snd (issue_svid X (sr_random_serial q) (sr_spiffe_id q) (sr_public_key q) (sr_now q) (sr_ttl q) (sr_serial_number q) ca)"
  note f = issue_svid_facts[OF prod.collapse[symmetric] Cons.prems]
  show ?case using Cons.IH[OF f(1)] f(2) by simp
qed simp

lemma spiffe_id_prefix: "spiffe_id_re i \<Longrightarrow> take 9 i = spiffe_prefix"
  by (auto simp: spiffe_id_re_def re_dollar_def take_butlast)

text \<open>C27. An SVID is the identity the authority gave and nothing else: whatever was issued before and
  after, an SVID that \<open>issue_svid\<close> returns has the requested key and a SPIFFE id in the trust domain of the
  authority, and \<open>verify_svid\<close> under the root certificate accepts it exactly inside its validity window,
  exactly for this id, and returns this id.\<close>

theorem svid_identity:
  assumes X: "builds X" and key: "key_pair P sign pub"
    and new: "new_workload_ca d sign pub common_name = Inr ca0"
    and issued: "issue_svid X rs i k now ttl serial (issue_all X earlier ca0) = (Inr cert, ca1)"
    and anchor: "root_cert X (issue_all X later ca1) = (Inr anchor, ca2)"
  shows "spiffe_id_re i \<and> spiffe_trust_domain i = d \<and> cb_public_key (ce_body cert) = k \<and>
    (\<forall>t expected j. verify_svid P cert anchor t expected = Inr j \<longleftrightarrow>
       j = i \<and> (expected = None \<or> expected = Some i) \<and> whole_second now \<le> t \<and> t \<le> whole_second (now + ttl))"
proof -
  let ?ca = "issue_all X earlier ca0"
  have new': "wc_sign ca0 = sign" "wc_public ca0 = pub" "wc_trust_domain ca0 = d"
    using new by (auto simp: new_workload_ca_def split: if_splits)
  note e = issue_all_facts[OF new_workload_ca_inv[OF new], where qs = earlier and X = X]
  from issue_svid_Inr[OF issued] e obtain root_c subject n where c: "spiffe_id_re i" "spiffe_trust_domain i = wc_trust_domain ?ca"
    "wc_root_cert ca1 = Some root_c" "root_of X ?ca root_c"
    "x_build X (svid_body subject (cb_subject (ce_body root_c)) i k n now (now + ttl)) (wc_sign ?ca) = Inr cert"
    by blast
  have "wc_root_cert (issue_all X later ca1) = Some root_c"
    using issue_all_facts[OF issue_svid_facts(1)[OF issued]] e c(3) by blast
  then have a: "anchor = root_c" using anchor by (simp add: root_cert_def)
  have leaf: "ce_body cert = (svid_body subject (cb_subject (ce_body anchor)) i k n now (now + ttl))
      \<lparr>cb_not_before := whole_second now, cb_not_after := whole_second (now + ttl)\<rparr>"
    "p_verify P pub (ce_signature cert) (ce_tbs cert)"
    using X c(5) key e new' unfolding builds_def key_pair_def a by (auto simp: svid_body_def)
  have "cb_public_key (ce_body anchor) = Ed25519Key pub"
    using X c(4) e new' unfolding builds_def root_of_def a by (auto simp: root_body_def)
  then have "svid_ok P anchor cert t j \<longleftrightarrow> j = i \<and> whole_second now \<le> t \<and> t \<le> whole_second (now + ttl)" for t j
    using spiffe_id_prefix[OF c(1)] leaf by (auto simp: svid_ok_def svid_body_def spiffe_prefix_def)
  moreover have "(\<forall>e. expected = Some e \<longrightarrow> e = i) \<longleftrightarrow> expected = None \<or> expected = Some i" for expected
    by (cases expected) auto
  ultimately show ?thesis
    using c(1,2) e new' leaf by (auto simp: verify_svid_Inr svid_body_def)
qed

text \<open>\<open>verify_svid\<close> reads the key and the subject of the root certificate, not its window nor its
  extensions: a certificate issued after the end of the root's own validity is accepted.\<close>

lemma expired_root_accepted:
  assumes "svid_ok P anchor cert t i" "cb_not_after (ce_body anchor) < cb_not_before (ce_body cert)"
  shows "verify_svid P cert anchor t None = Inr i \<and> cb_not_after (ce_body anchor) < t"
  using assms by (auto simp: verify_svid_Inr svid_ok_def)

text \<open>The constructor means to refuse a trust domain with a path, but its probe accepts one; such an
  authority can issue nothing, since the domain of an id never contains a slash.\<close>

lemma no_slash: "CHR ''/'' \<notin> set (spiffe_trust_domain i)"
  by (auto simp: spiffe_trust_domain_def dest: set_takeWhileD)

lemma domain_with_path:
  "\<exists>ca. new_workload_ca ''a/b'' sign pub common_name = Inr ca \<and>
     (\<forall>X rs i k now ttl serial. \<not> returned (fst (issue_svid X rs i k now ttl serial ca)))"
proof -
  have ok: "spiffe_id_re ''spiffe://a/b/probe''" by (simp add: pattern_defs)
  have "spiffe_trust_domain i \<noteq> ''a/b''" for i using no_slash[of i] by auto
  then show ?thesis using ok by (simp add: new_workload_ca_def issue_svid_def)
qed

text \<open>A builder that encodes a body as a constant.\<close>

definition demo_x509 :: x509 where
  "demo_x509 = \<lparr>x_name = Inr, x_build = (\<lambda>body sign. Inr
     \<lparr>ce_body = body\<lparr>cb_not_before := whole_second (cb_not_before body), cb_not_after := whole_second (cb_not_after body)\<rparr>,
      ce_tbs = ''tbs'', ce_signature = sign ''tbs''\<rparr>)\<rparr>"

definition demo_ca :: workload_ca where
  "demo_ca = \<lparr>wc_trust_domain = ''mesh'', wc_sign = (\<lambda>m. [CHR 0x00]), wc_public = ''key'', wc_common_name = ''ca'',
     wc_root_cert = None\<rparr>"

definition demo_svid :: "(exn + certificate) \<times> workload_ca" where
  "demo_svid = issue_svid demo_x509 7 ''spiffe://mesh/a'' (Ed25519Key ''wk'') 0 (seconds 60) None demo_ca"

theorem svid_identity_witness:
  "\<exists>cert anchor. fst demo_svid = Inr cert \<and> fst (root_cert demo_x509 (snd demo_svid)) = Inr anchor \<and>
     verify_svid demo_platform cert anchor 0 None = Inr ''spiffe://mesh/a'' \<and>
     \<not> returned (verify_svid demo_platform cert anchor (seconds 61) None) \<and>
     \<not> returned (verify_svid demo_platform cert anchor 0 (Some ''spiffe://mesh/b''))"
proof -
  have X: "builds demo_x509" by (simp add: builds_def demo_x509_def)
  have key: "key_pair demo_platform (\<lambda>m. [CHR 0x00]) ''key''" by (simp add: key_pair_def demo_platform_def)
  have new: "new_workload_ca ''mesh'' (\<lambda>m. [CHR 0x00]) ''key'' ''ca'' = Inr demo_ca"
    by (simp add: new_workload_ca_def demo_ca_def pattern_defs)
  have "returned (fst demo_svid) \<and> returned (fst (root_cert demo_x509 (snd demo_svid)))"
    by (simp add: demo_svid_def issue_svid_def root_cert_def demo_x509_def demo_ca_def pattern_defs
        spiffe_trust_domain_def leaf_common_name_def seconds_def datetime_max_def)
  then obtain cert anchor ca1 ca2 where s: "issue_svid demo_x509 7 ''spiffe://mesh/a'' (Ed25519Key ''wk'') 0 (seconds 60) None demo_ca = (Inr cert, ca1)"
      "root_cert demo_x509 ca1 = (Inr anchor, ca2)" "demo_svid = (Inr cert, ca1)"
    unfolding returned_iff demo_svid_def by (metis prod.collapse)
  from svid_identity[OF X key new, of 7 "''spiffe://mesh/a''" "Ed25519Key ''wk''" 0 "seconds 60" None "[]" cert ca1 "[]" anchor ca2] s(1,2)
  have v: "verify_svid demo_platform cert anchor t expected = Inr j \<longleftrightarrow>
       j = ''spiffe://mesh/a'' \<and> (expected = None \<or> expected = Some ''spiffe://mesh/a'') \<and> 0 \<le> t \<and> t \<le> seconds 60" for t expected j
    by (simp add: whole_second_def seconds_def)
  show ?thesis
    unfolding s(3) by (rule exI[of _ cert], rule exI[of _ anchor]) (simp add: s(2) v returned_iff seconds_def)
qed

end
