(* ===== verification/Sockets.thy ===== *)
theory Sockets
  imports WorkloadCA Transport
begin

text \<open>
  The transports over TCP: one connection per frame (\<open>socket_transport.py\<close>), the same over mutually
  authenticated TLS (\<open>tls_transport.py\<close>) and a bounded pool of persistent connections
  (\<open>connection_pool.py\<close>). A connection that was accepted is the segments in which its bytes arrive and
  whether it ends in a reset; the operations of the \<open>socket\<close> and \<open>ssl\<close> modules on outgoing connections are
  fields of the records \<open>tcp\<close> and \<open>tls\<close>. Threads are steps on the state of the transport: serving one
  accepted connection, or reading one pooled connection to its end. The names and the clock of a TLS
  identity are arguments.
\<close>

section \<open>Framing\<close>

abbreviation oserror :: exn where
  "oserror \<equiv> std_error ''OSError''"

text \<open>\<open>except OSError\<close>: the class and its subclasses.\<close>

definition is_oserror :: "exn \<Rightarrow> bool" where
  "is_oserror e \<longleftrightarrow>
     (case exn_cls e of
        StdError n \<Rightarrow> n \<in> {''OSError'', ''ConnectionError'', ''ConnectionRefusedError'', ''ConnectionResetError'',
                           ''ConnectionAbortedError'', ''BrokenPipeError'', ''TimeoutError'', ''gaierror'', ''SSLError'',
                           ''SSLCertVerificationError''}
      | _ \<Rightarrow> False)"

text \<open>\<open>except ssl.SSLError\<close>\<close>

definition is_ssl_error :: "exn \<Rightarrow> bool" where
  "is_ssl_error e \<longleftrightarrow> exn_cls e \<in> {StdError ''SSLError'', StdError ''SSLCertVerificationError''}"

type_synonym conn_in = "string list \<times> bool"

text \<open>\<open>conn.recv(n)\<close>: at most \<open>n\<close> bytes of the next segment, nothing at the end of the stream, an
  \<open>OSError\<close> at a reset.\<close>

fun recv :: "nat \<Rightarrow> conn_in \<Rightarrow> (exn + string) \<times> conn_in" where
  "recv n ([], reset) = (if reset then Inl oserror else Inr [], ([], reset))"
| "recv n (s # ss, reset) =
     (if s = [] then recv n (ss, reset)
      else (Inr (take n s), (if length s \<le> n then ss else drop n s # ss, reset)))"

definition arriving :: "conn_in \<Rightarrow> string" where
  "arriving c = concat (fst c)"

lemma recv_spec:
  assumes "0 < n"
  shows "arriving c = [] \<Longrightarrow> fst (recv n c) = (if snd c then Inl oserror else Inr [])"
    "arriving c \<noteq> [] \<Longrightarrow> \<exists>chunk c'. recv n c = (Inr chunk, c') \<and> chunk \<noteq> [] \<and> length chunk \<le> n \<and>
       arriving c = chunk @ arriving c' \<and> snd c' = snd c"
  using assms by (induction n c rule: recv.induct) (auto simp: arriving_def)

text \<open>\<open>_recv_exactly\<close>; in the pooled transport it turns an \<open>OSError\<close> into the end of the stream
  (\<open>catches\<close>).\<close>

function recv_exactly :: "bool \<Rightarrow> nat \<Rightarrow> string \<Rightarrow> conn_in \<Rightarrow> (exn + string option) \<times> conn_in" where
  "recv_exactly catches n buf c =
     (if length buf < n then
        (case recv (n - length buf) c of
           (Inl e, c') \<Rightarrow> (if catches \<and> is_oserror e then Inr None else Inl e, c')
         | (Inr chunk, c') \<Rightarrow> if chunk = [] then (Inr None, c') else recv_exactly catches n (buf @ chunk) c')
      else (Inr (Some buf), c))"
  by pat_completeness auto

termination
  by (relation "measure (\<lambda>(catches, n, buf, c). n - length buf)") (auto intro!: diff_less_mono2)

declare recv_exactly.simps [simp del]

lemma is_oserror_oserror [simp]: "is_oserror oserror"
  by (simp add: is_oserror_def std_error_def)

lemma recv_exactly_steps:
  "\<not> length buf < n \<Longrightarrow> recv_exactly catches n buf c = (Inr (Some buf), c)"
  "length buf < n \<Longrightarrow> recv (n - length buf) c = (Inr chunk, c1) \<Longrightarrow> chunk \<noteq> [] \<Longrightarrow>
     recv_exactly catches n buf c = recv_exactly catches n (buf @ chunk) c1"
  by (simp_all add: recv_exactly.simps[of catches n buf c])

lemma recv_exactly_end:
  assumes "length buf < n" "arriving c = []"
  shows "fst (recv_exactly catches n buf c) = (if snd c \<and> \<not> catches then Inl oserror else Inr None)"
proof -
  have "fst (recv (n - length buf) c) = (if snd c then Inl oserror else Inr [])"
    by (rule recv_spec(1)) (use assms in simp_all)
  then show ?thesis
    using assms(1) by (cases "recv (n - length buf) c") (auto simp: recv_exactly.simps[of catches n buf c])
qed

text \<open>Reading a part that has arrived.\<close>

lemma recv_exactly_some:
  assumes "length buf \<le> n" "n - length buf \<le> length (arriving c)"
  shows "\<exists>c'. recv_exactly catches n buf c = (Inr (Some (buf @ take (n - length buf) (arriving c))), c') \<and>
      arriving c' = drop (n - length buf) (arriving c) \<and> snd c' = snd c"
  using assms
proof (induction "n - length buf" arbitrary: buf c rule: less_induct)
  case less
  show ?case
  proof (cases "length buf < n")
    case True
    then have "arriving c \<noteq> []" using less.prems by auto
    then obtain chunk c1 where r: "recv (n - length buf) c = (Inr chunk, c1)" "chunk \<noteq> []"
      "length chunk \<le> n - length buf" "arriving c = chunk @ arriving c1" "snd c1 = snd c"
      using recv_spec(2)[of "n - length buf" c] True by auto
    have m: "n - length (buf @ chunk) < n - length buf" "length (buf @ chunk) \<le> n"
      "n - length (buf @ chunk) \<le> length (arriving c1)"
      using less.prems r(2-4) True by (auto intro!: diff_less_mono2)
    have t: "take (n - length buf) (arriving c) = chunk @ take (n - length (buf @ chunk)) (arriving c1)"
      "drop (n - length buf) (arriving c) = drop (n - length (buf @ chunk)) (arriving c1)"
      using r(3,4) by simp_all
    show ?thesis
      using less.hyps[OF m] unfolding recv_exactly_steps(2)[OF True r(1,2)] t r(5) by simp
  qed (simp add: recv_exactly_steps(1))
qed

lemma recv_exactly_none:
  assumes "length buf \<le> n" "length (arriving c) < n - length buf"
  shows "fst (recv_exactly catches n buf c) = (if snd c \<and> \<not> catches then Inl oserror else Inr None)"
  using assms
proof (induction "n - length buf" arbitrary: buf c rule: less_induct)
  case less
  then have True: "length buf < n" by simp
  show ?case
  proof (cases "arriving c = []")
    case False
    then obtain chunk c1 where r: "recv (n - length buf) c = (Inr chunk, c1)" "chunk \<noteq> []"
      "length chunk \<le> n - length buf" "arriving c = chunk @ arriving c1" "snd c1 = snd c"
      using recv_spec(2)[of "n - length buf" c] True by auto
    have m: "n - length (buf @ chunk) < n - length buf" "length (buf @ chunk) \<le> n"
      "length (arriving c1) < n - length (buf @ chunk)"
      using less.prems r(2-4) True by (auto intro!: diff_less_mono2)
    show ?thesis using less.hyps[OF m] unfolding recv_exactly_steps(2)[OF True r(1,2)] r(5) .
  qed (rule recv_exactly_end[OF True])
qed

section \<open>Frames\<close>

definition LEN_PREFIX :: nat where
  "LEN_PREFIX = 4"

definition MAX_FRAME :: nat where
  "MAX_FRAME = 8 * 1024 * 1024"

text \<open>\<open>n.to_bytes(4, "big")\<close> of a number below \<open>2 ^ 32\<close>.\<close>

definition to_bytes4 :: "nat \<Rightarrow> string" where
  "to_bytes4 n = map char_of [n div 16777216 mod 256, n div 65536 mod 256, n div 256 mod 256, n mod 256]"

definition frame_bytes :: "string \<Rightarrow> string" where
  "frame_bytes payload = to_bytes4 (length payload) @ payload"

text \<open>The body of the servers: a header, a length within the bound, and the payload.\<close>

definition read_frame :: "bool \<Rightarrow> conn_in \<Rightarrow> (exn + string option) \<times> conn_in" where
  "read_frame catches c =
     (case recv_exactly catches LEN_PREFIX [] c of
        (Inr (Some header), c1) \<Rightarrow>
          let size = from_bytes_big header in
          if size > MAX_FRAME then (Inr None, c1)
          else recv_exactly catches size [] c1
      | (r, c1) \<Rightarrow> (r, c1))"

lemma from_to_bytes4: "n < 4294967296 \<Longrightarrow> from_bytes_big (to_bytes4 n) = n"
proof -
  assume n: "n < 4294967296"
  have "n div 65536 = n div 256 div 256" "n div 16777216 = n div 65536 div 256" "n div 16777216 < 256"
    using n by (simp_all add: div_mult2_eq[symmetric])
  then show ?thesis
    using mult_div_mod_eq[of 256 n] mult_div_mod_eq[of 256 "n div 256"] mult_div_mod_eq[of 256 "n div 65536"]
    by (simp add: from_bytes_big_def to_bytes4_def)
qed

lemma length_to_bytes4 [simp]: "length (to_bytes4 n) = 4"
  by (simp add: to_bytes4_def)

text \<open>A whole frame is read, however it is cut into segments, and what follows it is left.\<close>

lemma recv_exactly_whole:
  assumes "arriving c = p @ later" "length p = n"
  obtains c' where "recv_exactly catches n [] c = (Inr (Some p), c')" "arriving c' = later" "snd c' = snd c"
  using recv_exactly_some[of "[]" n c catches] assms by auto

lemma read_frame_some:
  assumes "length p \<le> MAX_FRAME" "arriving c = frame_bytes p @ later"
  shows "\<exists>c'. read_frame catches c = (Inr (Some p), c') \<and> arriving c' = later \<and> snd c' = snd c"
proof -
  have "arriving c = to_bytes4 (length p) @ (p @ later)" "length (to_bytes4 (length p)) = LEN_PREFIX"
    using assms(2) by (simp_all add: LEN_PREFIX_def frame_bytes_def)
  from recv_exactly_whole[OF this, of catches] obtain c1 where
    h: "recv_exactly catches LEN_PREFIX [] c = (Inr (Some (to_bytes4 (length p))), c1)" "arriving c1 = p @ later" "snd c1 = snd c" .
  from recv_exactly_whole[OF h(2) refl, of catches] obtain c2 where
    "recv_exactly catches (length p) [] c1 = (Inr (Some p), c2)" "arriving c2 = later" "snd c2 = snd c1" .
  moreover have "from_bytes_big (to_bytes4 (length p)) = length p"
    using assms(1) by (simp add: from_to_bytes4 MAX_FRAME_def)
  ultimately show ?thesis using h assms(1) by (simp add: read_frame_def)
qed

text \<open>A proper prefix of a frame yields nothing.\<close>

definition cut_short :: "string \<Rightarrow> bool" where
  "cut_short s \<longleftrightarrow> (\<exists>p later. length p \<le> MAX_FRAME \<and> frame_bytes p = s @ later \<and> later \<noteq> [])"

lemma read_frame_none:
  assumes "cut_short (arriving c)"
  shows "fst (read_frame catches c) = (if snd c \<and> \<not> catches then Inl oserror else Inr None)"
proof -
  obtain p later where p: "length p \<le> MAX_FRAME" "frame_bytes p = arriving c @ later" "later \<noteq> []"
    using assms unfolding cut_short_def by blast
  show ?thesis
  proof (cases "length (arriving c) < 4")
    case True
    then have "length (arriving c) < LEN_PREFIX - length []" by (simp add: LEN_PREFIX_def)
    from recv_exactly_none[OF _ this, of catches] show ?thesis
      by (cases "recv_exactly catches LEN_PREFIX [] c") (auto simp: read_frame_def)
  next
    case False
    have "to_bytes4 (length p) = take 4 (arriving c)"
      using False arg_cong[OF p(2), of "take 4"] by (simp add: frame_bytes_def)
    then have a: "arriving c = to_bytes4 (length p) @ drop 4 (arriving c)" by (metis append_take_drop_id)
    have "length (to_bytes4 (length p)) = LEN_PREFIX" by (simp add: LEN_PREFIX_def)
    from recv_exactly_whole[OF a this, of catches] obtain c1 where
      h: "recv_exactly catches LEN_PREFIX [] c = (Inr (Some (to_bytes4 (length p))), c1)"
        "arriving c1 = drop 4 (arriving c)" "snd c1 = snd c" .
    have "length (arriving c) < 4 + length p"
      using arg_cong[OF p(2), of length] p(3) by (simp add: frame_bytes_def)
    then have "length (arriving c1) < length p - length []" using h(2) False by auto
    from recv_exactly_none[OF _ this, of catches] show ?thesis
      using h p(1) from_to_bytes4[of "length p"] by (simp add: read_frame_def MAX_FRAME_def)
  qed
qed


section \<open>Addresses\<close>

text \<open>\<open>dest.rsplit(":", 1)\<close> and \<open>int(port)\<close>\<close>

definition parse_dest :: "string \<Rightarrow> exn + string \<times> int" where
  "parse_dest dest =
     (if CHR '':'' \<notin> set dest then Inl transport_error
      else let port_str = rev (takeWhile (\<lambda>c. c \<noteq> CHR '':'') (rev dest));
               host = take (length dest - length port_str - 1) dest
           in case parse_int port_str of None \<Rightarrow> Inl transport_error | Some port \<Rightarrow> Inr (host, port))"

text \<open>Outgoing connections: \<open>create_connection\<close>, \<open>sendall\<close>, \<open>close\<close> (whose errors are suppressed or leave
  the connection closed all the same).\<close>

record ('c, 'w) tcp =
  tc_dial :: "string \<times> int \<Rightarrow> 'w \<Rightarrow> (exn + 'c) \<times> 'w"
  tc_sendall :: "'c \<Rightarrow> string \<Rightarrow> 'w \<Rightarrow> (exn + unit) \<times> 'w"
  tc_close :: "'c \<Rightarrow> 'w \<Rightarrow> 'w"


section \<open>One connection per frame\<close>

record socket_transport =
  so_source :: string
  so_inbox :: "frame list"
  so_serving :: bool

definition new_socket_transport :: "string \<Rightarrow> string \<Rightarrow> exn + socket_transport" where
  "new_socket_transport source_address bind_host =
     (if source_address = [] then Inl transport_error
      else if bind_host = [] then Inl transport_error
      else Inr \<lparr>so_source = source_address, so_inbox = [], so_serving = True\<rparr>)"

text \<open>One round of \<open>_serve\<close>. The loop has no handler around the reads: an \<open>OSError\<close> ends the thread.\<close>

definition socket_serve :: "conn_in \<Rightarrow> socket_transport \<Rightarrow> socket_transport" where
  "socket_serve c st =
     (if \<not> so_serving st then st
      else case fst (read_frame False c) of
        Inl e \<Rightarrow> st\<lparr>so_serving := False\<rparr>
      | Inr None \<Rightarrow> st
      | Inr (Some payload) \<Rightarrow>
          st\<lparr>so_inbox := so_inbox st @ [\<lparr>fr_source = so_source st, fr_payload = payload\<rparr>]\<rparr>)"

definition socket_receive :: "socket_transport \<Rightarrow> frame option \<times> socket_transport" where
  "socket_receive st =
     (case so_inbox st of
        [] \<Rightarrow> (None, st)
      | f # q \<Rightarrow> (Some f, st\<lparr>so_inbox := q\<rparr>))"

definition socket_send :: "('c, 'w) tcp \<Rightarrow> string \<Rightarrow> string \<Rightarrow> 'w \<Rightarrow> (exn + unit) \<times> 'w" where
  "socket_send N dest payload w =
     (if length payload > MAX_FRAME then (Inl transport_error, w)
      else case parse_dest dest of
        Inl e \<Rightarrow> (Inl e, w)
      | Inr target \<Rightarrow>
          (case tc_dial N target w of
             (Inl e, w') \<Rightarrow> (Inl e, w')
           | (Inr c, w') \<Rightarrow>
               (case tc_sendall N c (frame_bytes payload) w' of (r, w'') \<Rightarrow> (r, tc_close N c w''))))"

definition socket_close :: "socket_transport \<Rightarrow> socket_transport" where
  "socket_close st = st\<lparr>so_serving := False\<rparr>"


section \<open>Mutual TLS\<close>

record tls_identity =
  ti_spiffe_id :: string
  ti_sign :: "string \<Rightarrow> string"
  ti_svid_cert :: certificate
  ti_root_cert :: certificate

text \<open>\<open>mint_identity\<close>; \<open>sign\<close> and \<open>public\<close> are the key pair generated, \<open>random_serial\<close> the serial number
  drawn.\<close>

definition mint_identity ::
  "x509 \<Rightarrow> int \<Rightarrow> (string \<Rightarrow> string) \<Rightarrow> string \<Rightarrow> string \<Rightarrow> datetime \<Rightarrow> workload_ca \<Rightarrow> (exn + tls_identity) \<times> workload_ca" where
  "mint_identity X random_serial sign public spiffe_id now ca =
     (case issue_svid X random_serial spiffe_id (Ed25519Key public) now DEFAULT_SVID_TTL None ca of
        (Inl e, ca') \<Rightarrow> (Inl e, ca')
      | (Inr cert, ca') \<Rightarrow>
          (case root_cert X ca' of
             (Inl e, ca'') \<Rightarrow> (Inl e, ca'')
           | (Inr anchor, ca'') \<Rightarrow>
               (Inr \<lparr>ti_spiffe_id = spiffe_id, ti_sign = sign, ti_svid_cert = cert, ti_root_cert = anchor\<rparr>, ca'')))"

text \<open>\<open>_verify_peer\<close>: the certificate of the peer, \<open>None\<close> if there is none, or the error of its decoder.
  \<open>SvidVerificationError\<close> needs a \<open>reason\<close>, which the call for a missing certificate does not pass, so
  Python raises a \<open>TypeError\<close> there.\<close>

definition verify_peer :: "platform \<Rightarrow> tls_identity \<Rightarrow> datetime \<Rightarrow> (exn + certificate) option \<Rightarrow> exn + string" where
  "verify_peer P identity now peer =
     (case peer of
        None \<Rightarrow> Inl (std_error ''TypeError'')
      | Some (Inl e) \<Rightarrow> Inl e
      | Some (Inr cert) \<Rightarrow> verify_svid P cert (ti_root_cert identity) now None)"

definition is_svid_error :: "exn \<Rightarrow> bool" where
  "is_svid_error e \<longleftrightarrow> exn_cls e = RepoError ''SvidVerificationError''"

record tls_transport =
  tt_identity :: tls_identity
  tt_inbox :: "frame list"
  tt_serving :: bool

text \<open>One round of \<open>_serve\<close> after the handshake: the peer's certificate, the clock and the bytes read.
  A failed handshake leaves the state as it is.\<close>

definition tls_serve ::
  "platform \<Rightarrow> datetime \<Rightarrow> (exn + certificate) option \<Rightarrow> conn_in \<Rightarrow> tls_transport \<Rightarrow> tls_transport" where
  "tls_serve P now peer c st =
     (if \<not> tt_serving st then st
      else case verify_peer P (tt_identity st) now peer of
        Inl e \<Rightarrow> if is_svid_error e then st else st\<lparr>tt_serving := False\<rparr>
      | Inr peer_id \<Rightarrow>
          (case fst (read_frame False c) of
             Inl e \<Rightarrow> st\<lparr>tt_serving := False\<rparr>
           | Inr None \<Rightarrow> st
           | Inr (Some payload) \<Rightarrow> st\<lparr>tt_inbox := tt_inbox st @ [\<lparr>fr_source = peer_id, fr_payload = payload\<rparr>]\<rparr>))"

definition tls_receive :: "tls_transport \<Rightarrow> frame option \<times> tls_transport" where
  "tls_receive st =
     (case tt_inbox st of
        [] \<Rightarrow> (None, st)
      | f # q \<Rightarrow> (Some f, st\<lparr>tt_inbox := q\<rparr>))"

text \<open>\<open>tl_wrap\<close> is the client handshake: the certificate of the server or an error.\<close>

record ('c, 'w) tls =
  tl_tcp :: "('c, 'w) tcp"
  tl_wrap :: "'c \<Rightarrow> 'w \<Rightarrow> (exn + (exn + certificate) option) \<times> 'w"

definition tls_send ::
  "platform \<Rightarrow> ('c, 'w) tls \<Rightarrow> datetime \<Rightarrow> tls_transport \<Rightarrow> string \<Rightarrow> string \<Rightarrow> 'w \<Rightarrow> (exn + unit) \<times> 'w" where
  "tls_send P N now st dest payload w =
     (if length payload > MAX_FRAME then (Inl transport_error, w)
      else case parse_dest dest of
        Inl e \<Rightarrow> (Inl e, w)
      | Inr target \<Rightarrow>
          (case tc_dial (tl_tcp N) target w of
             (Inl e, w1) \<Rightarrow> (Inl e, w1)
           | (Inr c, w1) \<Rightarrow>
               (case tl_wrap N c w1 of
                  (Inl e, w2) \<Rightarrow>
                    if is_ssl_error e then (Inl transport_error, tc_close (tl_tcp N) c w2) else (Inl e, w2)
                | (Inr peer, w2) \<Rightarrow>
                    (case verify_peer P (tt_identity st) now peer of
                       Inl e \<Rightarrow> (Inl (if is_svid_error e then transport_error else e), tc_close (tl_tcp N) c w2)
                     | Inr peer_id \<Rightarrow>
                         (case tc_sendall (tl_tcp N) c (frame_bytes payload) w2 of
                            (r, w3) \<Rightarrow> (r, tc_close (tl_tcp N) c w3))))))"


section \<open>Pooled connections\<close>

text \<open>The pool is ordered from the least to the most recently used connection. The pauses between
  attempts take time and nothing else.\<close>

record 'c pool =
  po_source :: string
  po_max_conns :: int
  po_retries :: int
  po_out :: "(string \<times> 'c) list"
  po_inbox :: "frame list"

definition new_pool :: "string \<Rightarrow> int \<Rightarrow> int \<Rightarrow> string \<Rightarrow> exn + 'c pool" where
  "new_pool source_address max_connections connect_retries bind_host =
     (if source_address = [] then Inl transport_error
      else if bind_host = [] then Inl transport_error
      else if max_connections < 1 then Inl transport_error
      else if connect_retries < 1 then Inl transport_error
      else Inr \<lparr>po_source = source_address, po_max_conns = max_connections, po_retries = connect_retries,
                po_out = [], po_inbox = []\<rparr>)"

text \<open>\<open>_read_conn\<close>: the frames of one connection, in order, until its end.\<close>

lemma recv_exactly_arriving:
  assumes "recv_exactly catches n buf c = (Inr (Some s), c')" "length buf \<le> n"
  shows "length (arriving c) = (n - length buf) + length (arriving c')"
proof (cases "n - length buf \<le> length (arriving c)")
  case True
  then show ?thesis using recv_exactly_some[OF assms(2) True, of catches] assms(1) by auto
next
  case False
  then show ?thesis using recv_exactly_none[OF assms(2), of c catches] assms(1) by (auto split: if_splits)
qed

lemma read_frame_arriving:
  assumes "read_frame catches c = (Inr (Some p), c')"
  shows "length (arriving c') < length (arriving c)"
proof -
  obtain header c1 where h: "recv_exactly catches LEN_PREFIX [] c = (Inr (Some header), c1)"
    "recv_exactly catches (from_bytes_big header) [] c1 = (Inr (Some p), c')"
    using assms by (auto simp: read_frame_def Let_def split: prod.splits sum.splits option.splits if_splits)
  show ?thesis
    using recv_exactly_arriving[OF h(1)] recv_exactly_arriving[OF h(2)] by (simp add: LEN_PREFIX_def)
qed

function read_frames :: "conn_in \<Rightarrow> string list" where
  "read_frames c =
     (case read_frame True c of
        (Inr (Some payload), c') \<Rightarrow> payload # read_frames c'
      | _ \<Rightarrow> [])"
  by pat_completeness auto

termination
  by (relation "measure (\<lambda>c. length (arriving c))") (auto dest: read_frame_arriving[OF sym])

declare read_frames.simps [simp del]

definition pool_read_conn :: "conn_in \<Rightarrow> 'c pool \<Rightarrow> 'c pool" where
  "pool_read_conn c st =
     st\<lparr>po_inbox := po_inbox st @ map (\<lambda>p. \<lparr>fr_source = po_source st, fr_payload = p\<rparr>) (read_frames c)\<rparr>"

definition pool_receive :: "'c pool \<Rightarrow> frame option \<times> 'c pool" where
  "pool_receive st =
     (case po_inbox st of
        [] \<Rightarrow> (None, st)
      | f # q \<Rightarrow> (Some f, st\<lparr>po_inbox := q\<rparr>))"

definition pool_connect :: "('c, 'w) tcp \<Rightarrow> string \<Rightarrow> 'w \<Rightarrow> (exn + 'c) \<times> 'w" where
  "pool_connect N dest w =
     (case parse_dest dest of
        Inl e \<Rightarrow> (Inl e, w)
      | Inr target \<Rightarrow> tc_dial N target w)"

text \<open>Beyond the bound the least recently used connections are closed.\<close>

fun evict_lru :: "('c, 'w) tcp \<Rightarrow> int \<Rightarrow> (string \<times> 'c) list \<Rightarrow> 'w \<Rightarrow> (string \<times> 'c) list \<times> 'w" where
  "evict_lru N max_conns [] w = ([], w)"
| "evict_lru N max_conns ((dest, c) # conns) w =
     (if int (length ((dest, c) # conns)) > max_conns then evict_lru N max_conns conns (tc_close N c w)
      else ((dest, c) # conns, w))"

definition get_conn :: "('c, 'w) tcp \<Rightarrow> string \<Rightarrow> 'c pool \<Rightarrow> 'w \<Rightarrow> (exn + 'c) \<times> 'c pool \<times> 'w" where
  "get_conn N dest st w =
     (case dget (po_out st) dest of
        Some c \<Rightarrow> (Inr c, st\<lparr>po_out := ddel dest (po_out st) @ [(dest, c)]\<rparr>, w)
      | None \<Rightarrow>
          (case pool_connect N dest w of
             (Inl e, w') \<Rightarrow> (Inl e, st, w')
           | (Inr c, w') \<Rightarrow>
               (case evict_lru N (po_max_conns st) (po_out st @ [(dest, c)]) w' of
                  (conns, w'') \<Rightarrow> (Inr c, st\<lparr>po_out := conns\<rparr>, w''))))"

definition drop_conn :: "('c, 'w) tcp \<Rightarrow> string \<Rightarrow> 'c pool \<Rightarrow> 'w \<Rightarrow> 'c pool \<times> 'w" where
  "drop_conn N dest st w =
     (case dget (po_out st) dest of
        None \<Rightarrow> (st, w)
      | Some c \<Rightarrow> (st\<lparr>po_out := ddel dest (po_out st)\<rparr>, tc_close N c w))"

text \<open>The attempts of \<open>send\<close>.\<close>

fun send_attempts ::
  "('c, 'w) tcp \<Rightarrow> string \<Rightarrow> string \<Rightarrow> nat \<Rightarrow> 'c pool \<Rightarrow> 'w \<Rightarrow> (exn + unit) \<times> 'c pool \<times> 'w" where
  "send_attempts N dest wire 0 st w = (Inl transport_error, st, w)"
| "send_attempts N dest wire (Suc n) st w =
     (case get_conn N dest st w of
        (Inl e, st1, w1) \<Rightarrow>
          if is_oserror e then (case drop_conn N dest st1 w1 of (st2, w2) \<Rightarrow> send_attempts N dest wire n st2 w2)
          else (Inl e, st1, w1)
      | (Inr c, st1, w1) \<Rightarrow>
          (case tc_sendall N c wire w1 of
             (Inl e, w2) \<Rightarrow>
               if is_oserror e then (case drop_conn N dest st1 w2 of (st2, w3) \<Rightarrow> send_attempts N dest wire n st2 w3)
               else (Inl e, st1, w2)
           | (Inr _, w2) \<Rightarrow> (Inr (), st1, w2)))"

definition pool_send :: "('c, 'w) tcp \<Rightarrow> string \<Rightarrow> string \<Rightarrow> 'c pool \<Rightarrow> 'w \<Rightarrow> (exn + unit) \<times> 'c pool \<times> 'w" where
  "pool_send N dest payload st w =
     (if length payload > MAX_FRAME then (Inl transport_error, st, w)
      else send_attempts N dest (frame_bytes payload) (nat (po_retries st)) st w)"

fun close_all :: "('c, 'w) tcp \<Rightarrow> (string \<times> 'c) list \<Rightarrow> 'w \<Rightarrow> 'w" where
  "close_all N [] w = w"
| "close_all N ((dest, c) # conns) w = close_all N conns (tc_close N c w)"

definition pool_close :: "('c, 'w) tcp \<Rightarrow> 'c pool \<Rightarrow> 'w \<Rightarrow> 'c pool \<times> 'w" where
  "pool_close N st w = (st\<lparr>po_out := []\<rparr>, close_all N (po_out st) w)"

definition open_connections :: "'c pool \<Rightarrow> nat" where
  "open_connections st = length (po_out st)"


section \<open>Streams of frames\<close>

lemma cut_short_nil: "cut_short []"
  by (auto simp: cut_short_def frame_bytes_def to_bytes4_def intro: exI[of _ "[]"])

text \<open>C36. Framing is lossless: however TCP cuts the bytes of the frames \<open>ps\<close> into segments, and whether or
  not the connection then ends in the middle of a further frame, orderly or by a reset, the reader of the
  pooled transport delivers exactly the payloads \<open>ps\<close>, in order.\<close>

theorem stream_delivers_frames:
  assumes "\<forall>p\<in>set ps. length p \<le> MAX_FRAME" "concat segments = concat (map frame_bytes ps) @ rest" "cut_short rest"
  shows "read_frames (segments, reset) = ps"
proof -
  have "read_frames c = ps" if "arriving c = concat (map frame_bytes ps) @ rest" for c
    using assms(1) that
  proof (induction ps arbitrary: c)
    case Nil
    then have "fst (read_frame True c) = Inr None" using read_frame_none[of c True] assms(3) by simp
    then show ?case by (cases "read_frame True c") (simp add: read_frames.simps[of c])
  next
    case (Cons p ps)
    then obtain c' where "read_frame True c = (Inr (Some p), c')" "arriving c' = concat (map frame_bytes ps) @ rest"
      using read_frame_some[of p c "concat (map frame_bytes ps) @ rest" True] by auto
    then show ?case using Cons.IH[of c'] Cons.prems by (simp add: read_frames.simps[of c])
  qed
  from this[of "(segments, reset)"] assms(2) show ?thesis by (simp add: arriving_def)
qed

text \<open>A reset in the middle of a frame ends the server thread of the unpooled transports: frames of later
  connections are not read any more.\<close>

lemma reset_stops_server:
  assumes "cut_short (concat segments)" "so_serving st"
  shows "\<not> so_serving (socket_serve (segments, True) st) \<and>
    socket_serve c (socket_serve (segments, True) st) = socket_serve (segments, True) st"
  using assms read_frame_none[of "(segments, True)" False] by (simp add: socket_serve_def arriving_def)

lemma missing_certificate_stops_server:
  assumes "tt_serving st"
  shows "\<not> tt_serving (tls_serve P now None c st)"
  using assms by (simp add: tls_serve_def verify_peer_def is_svid_error_def std_error_def)


section \<open>Sources of TLS frames\<close>

fun tls_serve_all :: "platform \<Rightarrow> (datetime \<times> (exn + certificate) option \<times> conn_in) list \<Rightarrow> tls_transport \<Rightarrow> tls_transport" where
  "tls_serve_all P [] st = st"
| "tls_serve_all P ((now, peer, c) # conns) st = tls_serve_all P conns (tls_serve P now peer c st)"

definition vouched_by_svid ::
  "platform \<Rightarrow> tls_identity \<Rightarrow> (datetime \<times> (exn + certificate) option \<times> conn_in) list \<Rightarrow> frame \<Rightarrow> bool" where
  "vouched_by_svid P identity conns f \<longleftrightarrow>
     (\<exists>now cert c. (now, Some (Inr cert), c) \<in> set conns \<and>
        svid_ok P (ti_root_cert identity) cert now (fr_source f) \<and> fst (read_frame False c) = Inr (Some (fr_payload f)))"

lemma verify_peer_Inr:
  "verify_peer P identity now peer = Inr i \<longleftrightarrow>
     (\<exists>cert. peer = Some (Inr cert) \<and> svid_ok P (ti_root_cert identity) cert now i)"
  by (auto simp: verify_peer_def verify_svid_Inr split: option.splits sum.splits)

lemma tls_serve_cases:
  "tls_serve P now peer c st = st \<or> tls_serve P now peer c st = st\<lparr>tt_serving := False\<rparr> \<or>
   (\<exists>f. tls_serve P now peer c st = st\<lparr>tt_inbox := tt_inbox st @ [f]\<rparr> \<and>
      vouched_by_svid P (tt_identity st) [(now, peer, c)] f)"
proof (cases "verify_peer P (tt_identity st) now peer")
  case (Inl e)
  then show ?thesis by (simp add: tls_serve_def)
next
  case (Inr i)
  then have v: "\<exists>cert. peer = Some (Inr cert) \<and> svid_ok P (ti_root_cert (tt_identity st)) cert now i"
    by (simp add: verify_peer_Inr)
  show ?thesis
  proof (cases "fst (read_frame False c)")
    case (Inr r)
    show ?thesis
    proof (cases r)
      case (Some payload)
      then have "vouched_by_svid P (tt_identity st) [(now, peer, c)] \<lparr>fr_source = i, fr_payload = payload\<rparr>"
        using v Inr by (auto simp: vouched_by_svid_def)
      then show ?thesis using Inr Some \<open>verify_peer P (tt_identity st) now peer = Inr i\<close> by (auto simp: tls_serve_def)
    qed (use Inr \<open>verify_peer P (tt_identity st) now peer = Inr i\<close> in \<open>simp add: tls_serve_def\<close>)
  qed (use Inr in \<open>simp add: tls_serve_def\<close>)
qed

lemma vouched_mono:
  "vouched_by_svid P identity xs f \<Longrightarrow> set xs \<subseteq> set ys \<Longrightarrow> vouched_by_svid P identity ys f"
  unfolding vouched_by_svid_def by blast

lemma tls_serve_all_vouched:
  "tt_identity (tls_serve_all P conns st) = tt_identity st \<and>
   (\<exists>fs. tt_inbox (tls_serve_all P conns st) = tt_inbox st @ fs \<and>
      (\<forall>f\<in>set fs. vouched_by_svid P (tt_identity st) conns f))"
proof (induction conns arbitrary: st)
  case (Cons x conns)
  obtain now peer c where x: "x = (now, peer, c)" by (cases x) auto
  let ?st = "tls_serve P now peer c st"
  have one: "tt_identity ?st = tt_identity st"
    "\<exists>gs. tt_inbox ?st = tt_inbox st @ gs \<and> (\<forall>f\<in>set gs. vouched_by_svid P (tt_identity st) [x] f)"
    using tls_serve_cases[of P now peer c st] x by auto
  from one(2) Cons.IH[of ?st] obtain fs gs where
    "tt_inbox (tls_serve_all P conns ?st) = (tt_inbox st @ gs) @ fs" "\<forall>f\<in>set gs. vouched_by_svid P (tt_identity st) [x] f"
    "\<forall>f\<in>set fs. vouched_by_svid P (tt_identity st) conns f" "tt_identity (tls_serve_all P conns ?st) = tt_identity st"
    unfolding one(1) by auto
  then show ?case
    using x vouched_mono[of P "tt_identity st" "[x]" _ "x # conns"] vouched_mono[of P "tt_identity st" conns _ "x # conns"]
    by (auto simp del: split_paired_Ex intro!: exI[of _ "gs @ fs"])
qed simp

text \<open>C20. The source of a frame received over TLS is authenticated, and nothing is sent to a stranger: after
  any connections, every frame in the inbox came over one whose peer presented an SVID valid at that time
  under the node's root certificate, its source is the SPIFFE id of this SVID and its payload what the
  connection carried. \<open>send\<close> writes the payload only after the server's SVID has verified: when the peer
  has no valid SVID, the call fails whatever \<open>sendall\<close> would do, and without calling it.\<close>

theorem tls_peers_verified:
  assumes "tt_inbox st0 = []"
  shows "(\<forall>f\<in>set (tt_inbox (tls_serve_all P conns st0)). vouched_by_svid P (tt_identity st0) conns f) \<and>
    (tls_send P N now st0 dest payload w = (Inr (), w') \<longrightarrow>
       (\<exists>target c w1 cert w2 i. parse_dest dest = Inr target \<and> tc_dial (tl_tcp N) target w = (Inr c, w1) \<and>
          tl_wrap N c w1 = (Inr (Some (Inr cert)), w2) \<and> svid_ok P (ti_root_cert (tt_identity st0)) cert now i)) \<and>
    ((\<forall>target c w1 cert w2 i. parse_dest dest = Inr target \<and> tc_dial (tl_tcp N) target w = (Inr c, w1) \<and>
        tl_wrap N c w1 = (Inr (Some (Inr cert)), w2) \<longrightarrow> \<not> svid_ok P (ti_root_cert (tt_identity st0)) cert now i) \<longrightarrow>
     \<not> returned (fst (tls_send P N now st0 dest payload w)) \<and>
     (\<forall>sendall. tls_send P (N\<lparr>tl_tcp := (tl_tcp N)\<lparr>tc_sendall := sendall\<rparr>\<rparr>) now st0 dest payload w =
        tls_send P N now st0 dest payload w))"
proof (intro conjI impI allI)
  show "\<forall>f\<in>set (tt_inbox (tls_serve_all P conns st0)). vouched_by_svid P (tt_identity st0) conns f"
    using tls_serve_all_vouched[of P conns st0] assms by auto
next
  assume "tls_send P N now st0 dest payload w = (Inr (), w')"
  then show "\<exists>target c w1 cert w2 i. parse_dest dest = Inr target \<and> tc_dial (tl_tcp N) target w = (Inr c, w1) \<and>
      tl_wrap N c w1 = (Inr (Some (Inr cert)), w2) \<and> svid_ok P (ti_root_cert (tt_identity st0)) cert now i"
    by (auto simp: tls_send_def verify_peer_Inr split: if_splits sum.splits prod.splits)
next
  assume none: "\<forall>target c w1 cert w2 i. parse_dest dest = Inr target \<and> tc_dial (tl_tcp N) target w = (Inr c, w1) \<and>
        tl_wrap N c w1 = (Inr (Some (Inr cert)), w2) \<longrightarrow> \<not> svid_ok P (ti_root_cert (tt_identity st0)) cert now i"
  have denied: "\<exists>e. verify_peer P (tt_identity st0) now peer = Inl e"
    if "parse_dest dest = Inr target" "tc_dial (tl_tcp N) target w = (Inr c, w1)" "tl_wrap N c w1 = (Inr peer, w2)"
    for target c w1 peer w2
  proof (cases "verify_peer P (tt_identity st0) now peer")
    case (Inr i)
    then obtain cert where "peer = Some (Inr cert)" "svid_ok P (ti_root_cert (tt_identity st0)) cert now i"
      by (auto simp: verify_peer_Inr)
    with none[rule_format, of target c w1 cert w2 i] that show ?thesis by simp
  qed simp
  show "\<not> returned (fst (tls_send P N now st0 dest payload w))"
    by (auto simp: tls_send_def split: if_splits sum.splits prod.splits dest: denied)
  fix sendall
  show "tls_send P (N\<lparr>tl_tcp := (tl_tcp N)\<lparr>tc_sendall := sendall\<rparr>\<rparr>) now st0 dest payload w =
      tls_send P N now st0 dest payload w"
    by (auto simp: tls_send_def split: if_splits sum.splits prod.splits dest: denied)
qed


section \<open>The pool holds every connection it opened, and no more than its bound\<close>

text \<open>\<open>live\<close> reads the open outgoing connections off the state of the network: a successful dial opens a
  fresh one, \<open>close\<close> closes one, and nothing else changes them.\<close>

definition tcp_tracks :: "('c, 'w) tcp \<Rightarrow> ('w \<Rightarrow> 'c set) \<Rightarrow> bool" where
  "tcp_tracks N live \<longleftrightarrow>
     (\<forall>w target c w'. tc_dial N target w = (Inr c, w') \<longrightarrow> c \<notin> live w \<and> live w' = insert c (live w)) \<and>
     (\<forall>w target e w'. tc_dial N target w = (Inl e, w') \<longrightarrow> live w' = live w) \<and>
     (\<forall>w c bytes. live (snd (tc_sendall N c bytes w)) = live w) \<and>
     (\<forall>w c. live (tc_close N c w) = live w - {c})"

definition pooled :: "(string \<times> 'c) list \<Rightarrow> 'c set" where
  "pooled conns = snd ` set conns"

lemma pooled_simps [simp]:
  "pooled [] = {}" "pooled (x # xs) = insert (snd x) (pooled xs)" "pooled (xs @ ys) = pooled xs \<union> pooled ys"
  by (auto simp: pooled_def)

lemma distinct_pooled: "distinct (map snd (xs @ ys)) \<longleftrightarrow>
    distinct (map snd xs) \<and> distinct (map snd ys) \<and> pooled xs \<inter> pooled ys = {}"
  by (simp add: pooled_def)

lemma distinct_pooled_Cons: "distinct (map snd (x # xs)) \<longleftrightarrow> snd x \<notin> pooled xs \<and> distinct (map snd xs)"
  by (simp add: pooled_def)

definition pool_inv :: "('w \<Rightarrow> 'c set) \<Rightarrow> 'c set \<Rightarrow> int \<Rightarrow> 'c pool \<Rightarrow> 'w \<Rightarrow> bool" where
  "pool_inv live others limit st w \<longleftrightarrow> po_max_conns st = limit \<and>
     distinct (map fst (po_out st)) \<and> distinct (map snd (po_out st)) \<and>
     int (length (po_out st)) \<le> po_max_conns st \<and> 1 \<le> po_max_conns st \<and>
     live w = others \<union> pooled (po_out st) \<and> others \<inter> pooled (po_out st) = {}"

lemma evict_lru_spec:
  assumes "tcp_tracks N live" "evict_lru N m conns w = (conns', w')" "0 \<le> m"
  shows "\<exists>old. conns = old @ conns' \<and> live w' = live w - pooled old \<and>
    (old = [] \<or> length conns' = nat m) \<and> int (length conns') \<le> m"
  using assms(2)
proof (induction conns arbitrary: w)
  case (Cons x conns)
  obtain dest c where x: "x = (dest, c)" by fastforce
  show ?case
  proof (cases "int (length (x # conns)) > m")
    case True
    then have "evict_lru N m conns (tc_close N c w) = (conns', w')" using Cons.prems x by simp
    from Cons.IH[OF this] obtain old where old: "conns = old @ conns'" "live w' = live (tc_close N c w) - pooled old"
      "old = [] \<or> length conns' = nat m" "int (length conns') \<le> m" by blast
    have "live (tc_close N c w) = live w - {c}" using assms(1) by (simp add: tcp_tracks_def)
    then have "live w' = live w - pooled (x # old)" "x # conns = (x # old) @ conns'" using old x by auto
    moreover have "length conns' = nat m" using old True assms(3) by auto
    ultimately show ?thesis using old(4) by blast
  next
    case False
    then have "conns' = x # conns" "w' = w" using Cons.prems x by auto
    then show ?thesis using False by (intro exI[of _ "[]"]) simp
  qed
qed (use assms(3) in auto)

lemma ddel_split:
  assumes "distinct (map fst d)" "dget d k = Some v"
  obtains xs ys where "d = xs @ (k, v) # ys" "ddel k d = xs @ ys"
proof -
  obtain xs ys where d: "d = xs @ (k, v) # ys" using split_list[OF map_of_SomeD[OF assms(2)]] by auto
  have "ddel k zs = zs" if "k \<notin> fst ` set zs" for zs :: "('a \<times> 'b) list"
    using that by (induction zs) auto
  moreover have "k \<notin> fst ` set xs" "k \<notin> fst ` set ys" using assms(1) d by auto
  ultimately have "ddel k d = xs @ ys" using d by (simp add: AList.delete_eq)
  then show ?thesis using that d by blast
qed

lemma get_conn_inv:
  assumes N: "tcp_tracks N live" and inv: "pool_inv live others limit st w" and run: "get_conn N dest st w = (r, st', w')"
  shows "pool_inv live others limit st' w' \<and>
    (\<forall>c. r = Inr c \<longrightarrow> (\<exists>conns. po_out st' = conns @ [(dest, c)]))"
proof (cases "dget (po_out st) dest")
  case (Some c)
  then obtain xs ys where "po_out st = xs @ (dest, c) # ys" "ddel dest (po_out st) = xs @ ys"
    using ddel_split[of "po_out st" dest c] inv unfolding pool_inv_def by blast
  note xs = this
  have "r = Inr c" "w' = w" "st' = st\<lparr>po_out := (xs @ ys) @ [(dest, c)]\<rparr>"
    using run Some xs by (auto simp: get_conn_def)
  then show ?thesis
    using inv unfolding pool_inv_def xs
    by (simp add: distinct_pooled distinct_pooled_Cons del: map_append list.map) auto
next
  case None
  then have new: "dest \<notin> fst ` set (po_out st)" by (simp add: map_of_eq_None_iff)
  show ?thesis
  proof (cases "pool_connect N dest w")
    case (Pair res w1)
    show ?thesis
    proof (cases res)
      case (Inl e)
      then have "live w1 = live w"
        using Pair N by (auto simp: pool_connect_def tcp_tracks_def split: sum.splits)
      then show ?thesis using inv run None Pair Inl by (auto simp: get_conn_def pool_inv_def)
    next
      case (Inr c)
      then have c: "c \<notin> live w" "live w1 = insert c (live w)"
        using Pair N by (auto simp: pool_connect_def tcp_tracks_def split: sum.splits)
      obtain conns w2 where e: "evict_lru N (po_max_conns st) (po_out st @ [(dest, c)]) w1 = (conns, w2)" by fastforce
      have r: "r = Inr c" "st' = st\<lparr>po_out := conns\<rparr>" "w' = w2"
        using run None Pair Inr e by (auto simp: get_conn_def)
      have m: "1 \<le> po_max_conns st" "po_max_conns st = limit" using inv by (simp_all add: pool_inv_def)
      obtain old where old: "po_out st @ [(dest, c)] = old @ conns" "live w2 = live w1 - pooled old"
        "old = [] \<or> length conns = nat (po_max_conns st)" "int (length conns) \<le> po_max_conns st"
        using evict_lru_spec[OF N e] m by auto
      have "conns \<noteq> []" using old(1,3) m by auto
      then obtain conns1 where conns: "conns = conns1 @ [(dest, c)]" "po_out st = old @ conns1"
        using old(1) by (metis append_assoc append_butlast_last_id last_appendR last_snoc butlast_append butlast_snoc)
      have "distinct (map fst conns)" "distinct (map snd conns)" "others \<inter> pooled conns = {}"
        "live w2 = others \<union> pooled conns"
        using inv new c old(2) unfolding pool_inv_def conns
        by (simp_all add: distinct_pooled distinct_pooled_Cons del: map_append list.map) auto
      then show ?thesis using r old(4) m conns by (auto simp: pool_inv_def)
    qed
  qed
qed

lemma drop_conn_inv:
  assumes N: "tcp_tracks N live" and inv: "pool_inv live others limit st w" and run: "drop_conn N dest st w = (st', w')"
  shows "pool_inv live others limit st' w'"
proof (cases "dget (po_out st) dest")
  case (Some c)
  then obtain xs ys where xs: "po_out st = xs @ (dest, c) # ys" "ddel dest (po_out st) = xs @ ys"
    using ddel_split[of "po_out st" dest c] inv unfolding pool_inv_def by blast
  have "live (tc_close N c w) = live w - {c}" using N by (simp add: tcp_tracks_def)
  moreover have "w' = tc_close N c w" "st' = st\<lparr>po_out := xs @ ys\<rparr>"
    using run Some xs by (auto simp: drop_conn_def)
  ultimately show ?thesis
    using inv unfolding pool_inv_def xs
    by (simp add: distinct_pooled distinct_pooled_Cons del: map_append list.map) auto
qed (use inv run in \<open>auto simp: drop_conn_def\<close>)

lemma sendall_inv:
  assumes "tcp_tracks N live" "pool_inv live others limit st w" "tc_sendall N c bytes w = (r, w')"
  shows "pool_inv live others limit st w'"
proof -
  have "live w' = live w" using assms(1,3) unfolding tcp_tracks_def by (metis snd_conv)
  then show ?thesis using assms(2) by (simp add: pool_inv_def)
qed

lemma send_attempts_inv:
  assumes N: "tcp_tracks N live" and inv: "pool_inv live others limit st w"
    and run: "send_attempts N dest bytes n st w = (r, st', w')"
  shows "pool_inv live others limit st' w' \<and>
    (r = Inr () \<longrightarrow> (\<exists>conns c. po_out st' = conns @ [(dest, c)] \<and> (\<exists>w1. tc_sendall N c bytes w1 = (Inr (), w'))))"
  using inv run
proof (induction n arbitrary: st w)
  case (Suc n)
  obtain res st1 w1 where g: "get_conn N dest st w = (res, st1, w1)" by (metis prod_cases3)
  note i1 = get_conn_inv[OF N Suc.prems(1) g]
  have retry: ?case if "drop_conn N dest st1 w2 = (st2, w3)" "pool_inv live others limit st1 w2"
    "send_attempts N dest bytes n st2 w3 = (r, st', w')" for st2 w2 w3
    using Suc.IH[OF _ that(3)] drop_conn_inv[OF N that(2,1)] by blast
  show ?case
  proof (cases res)
    case (Inl e)
    show ?thesis
    proof (cases "is_oserror e")
      case True
      obtain st2 w3 where d: "drop_conn N dest st1 w1 = (st2, w3)" by fastforce
      then show ?thesis using retry[OF d] i1 Suc.prems(2) g Inl True by simp
    qed (use Suc.prems(2) g Inl i1 in auto)
  next
    case (Inr c)
    obtain res2 w2 where s: "tc_sendall N c bytes w1 = (res2, w2)" by fastforce
    have i2: "pool_inv live others limit st1 w2" using sendall_inv[OF N _ s] i1 by blast
    show ?thesis
    proof (cases res2)
      case e: (Inl e)
      show ?thesis
      proof (cases "is_oserror e")
        case True
        obtain st2 w3 where d: "drop_conn N dest st1 w2 = (st2, w3)" by fastforce
        then show ?thesis using retry[OF d i2] Suc.prems(2) g Inr s e True by simp
      qed (use Suc.prems(2) g Inr s e i2 in auto)
    next
      case u: (Inr u)
      then show ?thesis using Suc.prems(2) g Inr s i2 i1 by auto
    qed
  qed
qed auto

datatype pool_op = PoolSend string string | PoolRead conn_in | PoolReceive

fun pool_step :: "('c, 'w) tcp \<Rightarrow> pool_op \<Rightarrow> 'c pool \<times> 'w \<Rightarrow> 'c pool \<times> 'w" where
  "pool_step N (PoolSend dest payload) (st, w) = snd (pool_send N dest payload st w)"
| "pool_step N (PoolRead c) (st, w) = (pool_read_conn c st, w)"
| "pool_step N PoolReceive (st, w) = (snd (pool_receive st), w)"

lemma pool_send_inv:
  assumes "tcp_tracks N live" "pool_inv live others limit st w" "pool_send N dest payload st w = (r, st', w')"
  shows "pool_inv live others limit st' w' \<and>
    (r = Inr () \<longrightarrow> (\<exists>conns c. po_out st' = conns @ [(dest, c)] \<and> (\<exists>w1. tc_sendall N c (frame_bytes payload) w1 = (Inr (), w'))))"
  using assms(2,3) send_attempts_inv[OF assms(1,2)] by (auto simp: pool_send_def split: if_splits)

lemma pool_run_inv:
  assumes "tcp_tracks N live"
  shows "pool_inv live others limit st w \<Longrightarrow> fold (pool_step N) ops (st, w) = (st', w') \<Longrightarrow> pool_inv live others limit st' w'"
proof (induction ops arbitrary: st w)
  case (Cons op ops)
  obtain st1 w1 where s: "pool_step N op (st, w) = (st1, w1)" by fastforce
  have "pool_inv live others limit st1 w1"
  proof (cases op)
    case (PoolSend dest payload)
    then show ?thesis
      using s by (cases "pool_send N dest payload st w") (auto dest: pool_send_inv[OF assms Cons.prems(1)])
  next
    case (PoolRead c)
    then show ?thesis using s Cons.prems(1) by (auto simp add: pool_inv_def pool_read_conn_def)
  next
    case PoolReceive
    then show ?thesis using s Cons.prems(1) by (cases "po_inbox st") (auto simp add: pool_inv_def pool_receive_def)
  qed
  then show ?case using Cons.IH Cons.prems(2) s by simp
qed simp

lemma close_all_live:
  "tcp_tracks N live \<Longrightarrow> live (close_all N conns w) = live w - pooled conns"
  by (induction N conns w rule: close_all.induct) (auto simp: tcp_tracks_def)

text \<open>The pool leaks no connection and exceeds no bound: after any sends, receipts and reads there is
  at most one connection per destination and at most \<open>max_connections\<close> in all, and the connections that
  are open in the operating system are those that were open before plus exactly the pooled ones; \<open>close\<close>
  closes them all. A send that returns has handed the whole frame to a connection, which is then the
  most recently used one.\<close>

lemma pool_bounded:
  assumes "tcp_tracks N live" "new_pool source_address m retries bind_host = Inr st0"
    and "fold (pool_step N) ops (st0, w0) = (st, w)"
  shows "distinct (map fst (po_out st)) \<and> int (open_connections st) \<le> m \<and>
    live w = live w0 \<union> pooled (po_out st) \<and> card (pooled (po_out st)) = open_connections st \<and>
    live (snd (pool_close N st w)) = live w0 \<and>
    (\<forall>dest payload st' w'. pool_send N dest payload st w = (Inr (), st', w') \<longrightarrow>
       (\<exists>conns c w1. po_out st' = conns @ [(dest, c)] \<and> tc_sendall N c (frame_bytes payload) w1 = (Inr (), w')))"
proof -
  have st0: "po_out st0 = []" "po_max_conns st0 = m" "1 \<le> m"
    using assms(2) by (auto simp: new_pool_def split: if_splits)
  have "pool_inv live (live w0) m st0 w0" using st0 by (simp add: pool_inv_def)
  note inv = pool_run_inv[OF assms(1) this assms(3)]
  then have out: "distinct (map fst (po_out st))" "distinct (map snd (po_out st))" "int (length (po_out st)) \<le> m"
    "live w = live w0 \<union> pooled (po_out st)" "live w0 \<inter> pooled (po_out st) = {}"
    by (auto simp: pool_inv_def)
  have "card (pooled (po_out st)) = open_connections st"
    using distinct_card[OF out(2)] by (simp add: pooled_def open_connections_def)
  moreover have "live (snd (pool_close N st w)) = live w0"
    using close_all_live[OF assms(1), of "po_out st" w] out(4,5) by (auto simp: pool_close_def)
  ultimately show ?thesis
    using out(1,3,4) pool_send_inv[OF assms(1) inv] by (simp add: open_connections_def)
qed


section \<open>Instances\<close>

theorem stream_delivers_frames_witness:
  "read_frames ([take 3 (frame_bytes ''hi''), drop 3 (frame_bytes ''hi'') @ [CHR 0x00]], True) = [''hi'']"
proof -
  have "frame_bytes [] = [CHR 0x00] @ [CHR 0x00, CHR 0x00, CHR 0x00]" by (simp add: frame_bytes_def to_bytes4_def char_of_def)
  then have "cut_short [CHR 0x00]" unfolding cut_short_def by (intro exI[of _ "[]"] exI[of _ "[CHR 0x00, CHR 0x00, CHR 0x00]"]) simp
  moreover have "concat [take 3 (frame_bytes ''hi''), drop 3 (frame_bytes ''hi'') @ [CHR 0x00]] =
      concat (map frame_bytes [''hi'']) @ [CHR 0x00]"
    by (simp flip: append_assoc del: append_assoc)
  moreover have "\<forall>p\<in>set [''hi'']. length p \<le> MAX_FRAME" by (simp add: MAX_FRAME_def)
  ultimately show ?thesis using stream_delivers_frames by blast
qed

definition tls_cert :: certificate where
  "tls_cert = \<lparr>ce_body = svid_body ''a'' ''ca'' ''spiffe://mesh/a'' (Ed25519Key ''wk'') 7 0 (seconds 60), ce_tbs = ''tbs'',
     ce_signature = [CHR 0x00]\<rparr>"

definition tls_node :: tls_transport where
  "tls_node =
     \<lparr>tt_identity = \<lparr>ti_spiffe_id = ''spiffe://mesh/b'', ti_sign = (\<lambda>m. [CHR 0x00]), ti_svid_cert = tls_cert,
        ti_root_cert = \<lparr>ce_body = root_body ''ca'' ''key'', ce_tbs = ''root'', ce_signature = [CHR 0x00]\<rparr>\<rparr>,
      tt_inbox = [], tt_serving = True\<rparr>"

definition silent_net :: "(unit, unit) tls" where
  "silent_net = \<lparr>tl_tcp = \<lparr>tc_dial = (\<lambda>t w. (Inr (), w)), tc_sendall = (\<lambda>c bytes w. (Inr (), w)), tc_close = (\<lambda>c w. w)\<rparr>,
     tl_wrap = (\<lambda>c w. (Inr None, w))\<rparr>"

theorem tls_peers_verified_witness:
  "\<exists>f. tt_inbox (tls_serve demo_platform 0 (Some (Inr tls_cert)) ([frame_bytes ''hi''], False) tls_node) = [f] \<and>
     vouched_by_svid demo_platform (tt_identity tls_node) [(0, Some (Inr tls_cert), ([frame_bytes ''hi''], False))] f \<and>
     \<not> returned (fst (tls_send demo_platform silent_net 0 tls_node ''h:1'' ''secret'' ()))"
proof -
  let ?conns = "[(0, Some (Inr tls_cert), ([frame_bytes ''hi''], False))]"
  have ok: "svid_ok demo_platform (ti_root_cert (tt_identity tls_node)) tls_cert 0 ''spiffe://mesh/a''"
    by (simp add: svid_ok_def tls_node_def tls_cert_def svid_body_def root_body_def demo_platform_def seconds_def)
  have "fst (read_frame False ([frame_bytes ''hi''], False)) = Inr (Some ''hi'')"
    using read_frame_some[of "''hi''" "([frame_bytes ''hi''], False)" "[]" False] by (auto simp: arriving_def MAX_FRAME_def)
  then have "tt_inbox (tls_serve demo_platform 0 (Some (Inr tls_cert)) ([frame_bytes ''hi''], False) tls_node) =
      [\<lparr>fr_source = ''spiffe://mesh/a'', fr_payload = ''hi''\<rparr>]"
    using ok verify_svid_Inr[of demo_platform tls_cert "ti_root_cert (tt_identity tls_node)" 0 None "''spiffe://mesh/a''"]
    by (simp add: tls_serve_def verify_peer_def) (simp add: tls_node_def)
  moreover have "tt_inbox tls_node = []" by (simp add: tls_node_def)
  ultimately show ?thesis
    using tls_peers_verified[of tls_node demo_platform ?conns silent_net 0 "''h:1''" "''secret''" "()"]
    by (auto simp: silent_net_def)
qed

text \<open>A network whose connections are numbers; the state lists the open ones.\<close>

definition number_net :: "(nat, nat list) tcp" where
  "number_net = \<lparr>tc_dial = (\<lambda>t w. (Inr (Suc (sum_list w)), Suc (sum_list w) # w)),
     tc_sendall = (\<lambda>c bytes w. (Inr (), w)), tc_close = (\<lambda>c w. filter (\<lambda>d. d \<noteq> c) w)\<rparr>"

lemma number_net_tracks: "tcp_tracks number_net set"
  using member_le_sum_list by (fastforce simp: tcp_tracks_def number_net_def)

end
