(* ===== verification/WireFormat.thy ===== *)
theory WireFormat
  imports EndToEnd "HOL-Library.List_Lexorder" "HOL-Library.Char_ord"
begin

text \<open>
  The envelope on the wire (\<open>envelope_to_json\<close> in \<open>integrations/mcp/envelope_adapter.py\<close>): the compact
  \<open>json.dumps\<close> with \<open>sort_keys=True\<close>, so that the receiver reads the keys of every object in another
  order than the sender wrote them. The verifier looks at an envelope by its keys and at its canonical
  form, which RFC 8785 makes independent of that order: what it accepts of the one it accepts of the
  other.
\<close>

section \<open>Sorted keys\<close>

fun sort_keys :: "pyval \<Rightarrow> pyval" where
  "sort_keys (PDict d) = PDict (sort_key fst (map (\<lambda>kv. (fst kv, sort_keys (snd kv))) d))"
| "sort_keys (PList xs) = PList (map sort_keys xs)"
| "sort_keys v = v"

definition sorted_items :: "(string \<times> pyval) list \<Rightarrow> (string \<times> pyval) list" where
  "sorted_items d = dict_of (sort_keys (PDict d))"

definition envelope_to_json :: "(pyval \<Rightarrow> string) \<Rightarrow> (string \<times> pyval) list \<Rightarrow> string" where
  "envelope_to_json dumps envelope = dumps (sort_keys (PDict envelope))"

text \<open>RFC 8785: the canonical form does not depend on the order of keys.\<close>

definition canon_ignores_order :: "platform \<Rightarrow> bool" where
  "canon_ignores_order P \<longleftrightarrow> (\<forall>v. p_canon P (sort_keys v) = p_canon P v)"


section \<open>Facts\<close>

lemma sorted_items_eq: "sorted_items d = sort_key fst (map (\<lambda>kv. (fst kv, sort_keys (snd kv))) d)"
  by (simp add: sorted_items_def)

lemma sort_keys_dict: "sort_keys (PDict d) = PDict (sorted_items d)"
  by (simp add: sorted_items_eq)

declare sort_keys.simps(1) [simp del]

lemma map_of_sorted_items:
  assumes "distinct (map fst d)"
  shows "map_of (sorted_items d) k = map_option sort_keys (map_of d k)"
proof -
  let ?d = "map (\<lambda>kv. (fst kv, sort_keys (snd kv))) d"
  have "distinct (map fst ?d)" using assms by (simp add: o_def)
  then have same: "map_of (sort_key fst ?d) = map_of ?d"
    by (subst map_of_inject_set) (simp_all only: distinct_map distinct_sort set_sort)
  have pairs: "?d = map (\<lambda>(k, v). (k, sort_keys v)) d" by auto
  show ?thesis unfolding sorted_items_eq same unfolding pairs map_of_map by simp
qed

lemma sort_keys_PStr [simp]: "sort_keys v = PStr s \<longleftrightarrow> v = PStr s"
  by (cases v) (auto simp: sort_keys_dict)

lemma foldr_max_set: "set xs = set ys \<Longrightarrow> foldr max xs (0::nat) = foldr max ys 0"
  by (metis antisym foldr_max_le order_refl)

lemma json_depth_sort_keys: "json_depth (sort_keys v) = json_depth v"
proof (induction v rule: sort_keys.induct)
  case (1 d)
  have "foldr max (map (\<lambda>kv. json_depth (snd kv)) (sorted_items d)) 0 = foldr max (map (\<lambda>kv. json_depth (snd kv)) d) 0"
    by (intro foldr_max_set) (use 1 in \<open>force simp: sorted_items_eq image_image\<close>)
  then show ?case by (simp add: sort_keys_dict)
qed (simp_all add: o_def cong: map_cong)

lemma unsigned_sorted: "unsigned_part (sorted_items d) = sorted_items (unsigned_part d)"
  by (simp add: unsigned_part_def sorted_items_eq filter_sort filter_map o_def case_prod_beta')

text \<open>The checks before the capability token see no difference.\<close>

lemma front_ok_sorted:
  assumes "front_ok P D cfg t (PDict env) ia ea" "distinct (map fst env)" "canon_ignores_order P"
  shows "front_ok P D cfg t (PDict (sorted_items env)) ia ea"
proof -
  note m = map_of_sorted_items[OF assms(2)]
  note f = assms(1)[unfolded front_ok_def, simplified]
  have canon: "p_canon P (sort_keys v) = p_canon P v" for v using assms(3) by (simp add: canon_ignores_order_def)
  have times: "parse_rfc3339 P v = Inr x \<Longrightarrow> sort_keys v = v" for v x by (cases v) (auto simp: parse_rfc3339_def)
  have sig: "decode_base64url v = Inr x \<Longrightarrow> sort_keys v = v" for v x by (cases v) (auto simp: decode_base64url_def)
  have "int (json_depth (PDict (sorted_items env))) \<le> max_json_depth cfg"
    using assms(1) json_depth_sort_keys[of "PDict env"]
    by (simp add: front_ok_def sort_keys_dict del: json_depth.simps)
  moreover have "\<forall>k\<in>set REQUIRED_FIELDS. has_key (sorted_items env) k"
    using f by (simp add: has_key_def m)
  moreover have "static_ok (sorted_items env)" using f by (simp add: static_ok_def m)
  moreover have "times_read P (sorted_items env) ia ea" using f times by (fastforce simp: times_read_def m)
  moreover have "digest_matches P (sorted_items env)" using f canon by (fastforce simp: digest_matches_def m)
  moreover have "p_canon P (PDict (unsigned_part (sorted_items env))) = p_canon P (PDict (unsigned_part env))"
    using canon[of "PDict (unsigned_part env)"] by (simp add: sort_keys_dict unsigned_sorted)
  then have "envelope_signed P D (sorted_items env)"
    using f sig by (fastforce simp: envelope_signed_def m)
  ultimately show ?thesis using f by (simp add: front_ok_def)
qed

end
