(* ===== verification/Bridge.thy ===== *)
theory Bridge
  imports WireFormat Sockets AuditFile
begin

text \<open>
  The mesh bridge (\<open>integrations/mcp/bridge/\<close>): \<open>gen_bridge_config.py\<close>, \<open>mesh_mcp_bridge.py\<close> and the
  readers of its inbox, \<open>mail_hook.py\<close> and \<open>responder.py\<close>. A bridge signs the messages of its agent into
  envelopes, verifies those of its peers and keeps them in a file that the agent reads. \<open>dumps\<close> is
  \<open>json.dumps\<close>, \<open>compact\<close> the one without spaces. Clock readings, random bytes and the addresses read
  from the rendezvous file are arguments; the sockets are those of \<open>Sockets\<close>.
\<close>

section \<open>Identities and trust\<close>

record agent =
  ag_spiffe_id :: string
  ag_env_kid :: string
  ag_env_pub_pem :: string
  ag_issuer_iss :: string
  ag_issuer_kid :: string
  ag_issuer_pub_pem :: string

type_synonym trust_manifest = "(string \<times> agent) list"

abbreviation system_exit :: exn where
  "system_exit \<equiv> std_error ''SystemExit''"

text \<open>\<open>str.isalnum\<close> and \<open>str.lower\<close> of the characters up to 255.\<close>

definition py_isalnum :: "string \<Rightarrow> bool" where
  "py_isalnum s \<longleftrightarrow> s \<noteq> [] \<and>
     (\<forall>c\<in>set s. let n = of_char c :: nat in
        is_alnum c \<or> n \<in> {0xAA, 0xB2, 0xB3, 0xB5, 0xB9, 0xBA, 0xBC, 0xBD, 0xBE} \<or>
        0xC0 \<le> n \<and> n \<noteq> 0xD7 \<and> n \<noteq> 0xF7)"

definition lower_char :: "char \<Rightarrow> char" where
  "lower_char c =
     (let n = of_char c :: nat in
      if 65 \<le> n \<and> n \<le> 90 \<or> 0xC0 \<le> n \<and> n \<le> 0xDE \<and> n \<noteq> 0xD7 then char_of (n + 32) else c)"

definition py_lower :: "string \<Rightarrow> string" where
  "py_lower s = map lower_char s"

definition TRUST_DOMAIN :: string where
  "TRUST_DOMAIN = ''mesh.local''"

definition generated_agent :: "string \<Rightarrow> string \<Rightarrow> string \<Rightarrow> agent" where
  "generated_agent name env_pub iss_pub =
     \<lparr>ag_spiffe_id = ''spiffe://'' @ TRUST_DOMAIN @ ''/'' @ name, ag_env_kid = name @ ''-env'', ag_env_pub_pem = env_pub,
      ag_issuer_iss = ''spiffe://'' @ TRUST_DOMAIN @ ''/'' @ name @ ''/issuer'', ag_issuer_kid = name @ ''-iss'',
      ag_issuer_pub_pem = iss_pub\<rparr>"

text \<open>\<open>generate\<close>, given the public keys generated for each name.\<close>

fun generate_agents :: "(string \<times> string \<times> string) list \<Rightarrow> trust_manifest \<Rightarrow> exn + trust_manifest" where
  "generate_agents [] agents = Inr agents"
| "generate_agents ((name, env_pub, iss_pub) # rest) agents =
     (if \<not> py_isalnum name then Inl system_exit
      else generate_agents rest (dset name (generated_agent name env_pub iss_pub) agents))"

record bridge_config =
  bc_name :: string
  bc_agents :: trust_manifest
  bc_spiffe_id :: string
  bc_env_kid :: string
  bc_issuer :: issuer
  bc_env_sign :: "string \<Rightarrow> string"
  bc_issuer_sign :: "string \<Rightarrow> string"

definition new_bridge_config ::
  "trust_manifest \<Rightarrow> string \<Rightarrow> (string \<Rightarrow> string) \<Rightarrow> (string \<Rightarrow> string) \<Rightarrow> exn + bridge_config" where
  "new_bridge_config agents name env_sign issuer_sign =
     (case dget agents name of
        None \<Rightarrow> Inl system_exit
      | Some me \<Rightarrow>
          bindE (new_issuer (ag_issuer_iss me) (ag_issuer_kid me) (minutes 5) (seconds 30) allow_all_policy) (\<lambda>I.
          Inr \<lparr>bc_name = name, bc_agents = agents, bc_spiffe_id = ag_spiffe_id me, bc_env_kid = ag_env_kid me,
               bc_issuer = I, bc_env_sign = env_sign, bc_issuer_sign = issuer_sign\<rparr>))"

text \<open>The lookups are dict comprehensions over the agents: the last of equal keys stays. The errors
  carry no reason.\<close>

definition unknown_key :: exn where
  "unknown_key = \<lparr>exn_cls = EnvelopeVerificationError, exn_reason = None\<rparr>"

definition agent_key_lookup :: "trust_manifest \<Rightarrow> string \<Rightarrow> exn + string" where
  "agent_key_lookup agents kid =
     (case map_of (rev (map (\<lambda>a. (ag_env_kid (snd a), ag_env_pub_pem (snd a))) agents)) kid of
        None \<Rightarrow> Inl unknown_key
      | Some pem \<Rightarrow> Inr pem)"

definition agent_issuer_lookup :: "trust_manifest \<Rightarrow> string \<Rightarrow> string \<Rightarrow> exn + string" where
  "agent_issuer_lookup agents iss kid =
     (case map_of (rev (map (\<lambda>a. ((ag_issuer_iss (snd a), ag_issuer_kid (snd a)), ag_issuer_pub_pem (snd a))) agents))
             (iss, kid) of
        None \<Rightarrow> Inl unknown_key
      | Some pem \<Rightarrow> Inr pem)"

text \<open>The name comes from the arguments of a tool call and can be any value; a list or an object is not
  hashable.\<close>

definition resolve_name :: "trust_manifest \<Rightarrow> pyval \<Rightarrow> exn + string" where
  "resolve_name agents name =
     (case name of
        PStr s \<Rightarrow>
          if dget agents s \<noteq> None then Inr s
          else (case map_of (rev (map (\<lambda>a. (py_lower (fst a), fst a)) agents)) (py_lower s) of
                  Some n \<Rightarrow> Inr n
                | None \<Rightarrow> Inl (std_error ''KeyError''))
      | _ \<Rightarrow> Inl (if is_container name then std_error ''TypeError'' else std_error ''KeyError''))"

definition spiffe_of :: "trust_manifest \<Rightarrow> pyval \<Rightarrow> exn + string" where
  "spiffe_of agents name =
     bindE (resolve_name agents name) (\<lambda>n.
     case dget agents n of None \<Rightarrow> Inl (std_error ''KeyError'') | Some a \<Rightarrow> Inr (ag_spiffe_id a))"

definition name_of_spiffe :: "trust_manifest \<Rightarrow> string \<Rightarrow> string" where
  "name_of_spiffe agents spiffe_id =
     (case find (\<lambda>a. ag_spiffe_id (snd a) = spiffe_id) agents of None \<Rightarrow> spiffe_id | Some a \<Rightarrow> fst a)"


section \<open>The inbox file\<close>

text \<open>\<open>str.splitlines\<close> and the line breaks up to 255.\<close>

definition is_break :: "char \<Rightarrow> bool" where
  "is_break c \<longleftrightarrow> (of_char c :: nat) \<in> {10, 11, 12, 13, 28, 29, 30, 133}"

fun splitlines :: "string \<Rightarrow> string \<Rightarrow> string list" where
  "splitlines buf [] = (if buf = [] then [] else [buf])"
| "splitlines buf [c] = (if is_break c then [buf] else [buf @ [c]])"
| "splitlines buf (c # d # cs) =
     (if c = CHR 0x0D \<and> d = newline then buf # splitlines [] cs
      else if is_break c then buf # splitlines [] (d # cs)
      else splitlines (buf @ [c]) (d # cs))"

fun load_entries :: "platform \<Rightarrow> string list \<Rightarrow> exn + pyval list" where
  "load_entries P [] = Inr []"
| "load_entries P (x # xs) =
     (if strip_space x = [] then load_entries P xs
      else bindE (p_json_loads P x) (\<lambda>e. bindE (load_entries P xs) (\<lambda>es. Inr (e # es))))"

definition unread :: "pyval \<Rightarrow> bool" where
  "unread e \<longleftrightarrow> \<not> truthy (get_or_none (dict_of e) ''read'')"

definition mark_read :: "pyval \<Rightarrow> pyval" where
  "mark_read e = PDict (dset ''read'' (PBool True) (dict_of e))"

text \<open>\<open>read_unread\<close>, the same in the bridge and the hook, under the lock on the sidecar file. The entries
  returned are the objects just marked.\<close>

definition read_unread :: "platform \<Rightarrow> (pyval \<Rightarrow> string) \<Rightarrow> string option \<Rightarrow> (exn + pyval list) \<times> string option" where
  "read_unread P dumps inbox =
     (case inbox of
        None \<Rightarrow> (Inr [], None)
      | Some content \<Rightarrow>
          (case load_entries P (splitlines [] content) of
             Inl e \<Rightarrow> (Inl e, inbox)
           | Inr es \<Rightarrow>
               if \<not> list_all is_dict es then (Inl (std_error ''AttributeError''), inbox)
               else if filter unread es = [] then (Inr [], inbox)
               else (Inr (map mark_read (filter unread es)),
                     Some (join_with [newline] (map (\<lambda>e. dumps (mark_read e)) es) @ [newline]))))"

definition append_inbox :: "(pyval \<Rightarrow> string) \<Rightarrow> pyval \<Rightarrow> string option \<Rightarrow> string option" where
  "append_inbox dumps entry inbox =
     Some ((case inbox of None \<Rightarrow> [] | Some content \<Rightarrow> content) @ dumps entry @ [newline])"

text \<open>\<open>peek_unread\<close> of the responder, which only looks.\<close>

fun peek_lines :: "platform \<Rightarrow> string list \<Rightarrow> exn + pyval list" where
  "peek_lines P [] = Inr []"
| "peek_lines P (x # xs) =
     (if strip_space x = [] then peek_lines P xs
      else case p_json_loads P (strip_space x) of
        Inl e \<Rightarrow> if exn_cls e = StdError ''JSONDecodeError'' then peek_lines P xs else Inl e
      | Inr entry \<Rightarrow>
          if \<not> is_dict entry then Inl (std_error ''AttributeError'')
          else bindE (peek_lines P xs) (\<lambda>es. Inr (if unread entry then entry # es else es)))"

definition peek_unread :: "platform \<Rightarrow> string option \<Rightarrow> exn + pyval list" where
  "peek_unread P inbox = (case inbox of None \<Rightarrow> Inr [] | Some content \<Rightarrow> peek_lines P (splitlines [] content))"


section \<open>Receiving\<close>

record mail =
  ms_stamp :: string
  ms_from :: string
  ms_name :: string
  ms_body :: pyval

definition entry_of :: "bool \<Rightarrow> mail \<Rightarrow> pyval" where
  "entry_of r m =
     PDict [(''ts'', PStr (ms_stamp m)), (''from'', PStr (ms_from m)), (''from_name'', PStr (ms_name m)),
            (''body'', ms_body m), (''read'', PBool r)]"

text \<open>\<open>(req.params or {}).get("body", "")\<close>\<close>

definition request_body :: "mcp_request \<Rightarrow> exn + pyval" where
  "request_body r =
     (if \<not> truthy (mq_params r) then Inr (PStr [])
      else if \<not> is_dict (mq_params r) then Inl (std_error ''AttributeError'')
      else Inr (case map_of (dict_of (mq_params r)) ''body'' of None \<Rightarrow> PStr [] | Some v \<Rightarrow> v))"

text \<open>A frame and the clock readings while it is handled: by the loop, by the replay cache and for the
  time stamp.\<close>

record arrival =
  ar_payload :: string
  ar_now :: datetime
  ar_wall :: datetime
  ar_stamp :: datetime

type_synonym 'k audit_step = "audit_fields \<Rightarrow> 'k \<Rightarrow> exn option \<times> 'k"

record 'k bridge =
  br_replay :: replay_cache
  br_audit :: 'k
  br_inbox :: "string option"

definition bridge_deps :: "bridge_config \<Rightarrow> 'k audit_step \<Rightarrow> datetime \<Rightarrow> (replay_cache, 'k) deps" where
  "bridge_deps cfg rc wall =
     \<lparr>d_key_lookup = agent_key_lookup (bc_agents cfg), d_issuer_lookup = agent_issuer_lookup (bc_agents cfg),
      d_mark_if_new = atomic_cache mem_mark_if_new wall, d_audit = Some rc, d_revocation = None\<rparr>"

definition receive_message ::
  "platform \<Rightarrow> bridge_config \<Rightarrow> 'k audit_step \<Rightarrow> arrival \<Rightarrow> replay_cache \<Rightarrow> 'k \<Rightarrow> (exn + mail) \<times> replay_cache \<times> 'k" where
  "receive_message P cfg rc a c k =
     (case envelope_from_json P (ar_payload a) of
        Inl e \<Rightarrow> (Inl e, c, k)
      | Inr env \<Rightarrow>
          (case verify_envelope P (bridge_deps cfg rc (ar_wall a)) DEFAULT_CONFIG (ar_now a) (PDict env) c k of
             (Inl e, c', k') \<Rightarrow> (Inl e, c', k')
           | (Inr claims, c', k') \<Rightarrow>
               (bindE (unwrap_request env) (\<lambda>req.
                bindE (request_body req) (\<lambda>body.
                Inr \<lparr>ms_stamp = p_isoformat P (ar_stamp a), ms_from = cl_sub claims,
                     ms_name = name_of_spiffe (bc_agents cfg) (cl_sub claims), ms_body = body\<rparr>)),
                c', k')))"

text \<open>One round of \<open>_receive_loop\<close>: every exception drops the frame.\<close>

definition receive_step ::
  "platform \<Rightarrow> (pyval \<Rightarrow> string) \<Rightarrow> bridge_config \<Rightarrow> 'k audit_step \<Rightarrow> arrival \<Rightarrow> 'k bridge \<Rightarrow> 'k bridge" where
  "receive_step P dumps cfg rc a b =
     (case receive_message P cfg rc a (br_replay b) (br_audit b) of
        (Inl e, c, k) \<Rightarrow> b\<lparr>br_replay := c, br_audit := k\<rparr>
      | (Inr m, c, k) \<Rightarrow>
          b\<lparr>br_replay := c, br_audit := k, br_inbox := append_inbox dumps (entry_of False m) (br_inbox b)\<rparr>)"


section \<open>Sending\<close>

text \<open>What \<open>send_message\<close> draws: the time, the random bytes of the token and of the message id, the hex
  digits of the nonce, and the successive contents of the peer's address file until the deadline.\<close>

record draws =
  dw_now :: datetime
  dw_token_bytes :: string
  dw_id_bytes :: string
  dw_nonce_hex :: string
  dw_address_file :: "string option list"

definition MSG_SCOPE :: string where
  "MSG_SCOPE = ''agent_message''"

definition message_request :: "string \<Rightarrow> pyval \<Rightarrow> exn + mcp_request" where
  "message_request name body =
     new_mcp_request (PStr MSG_SCOPE) (PDict [(''body'', body), (''from'', PStr name)]) (PInt 1)"

fun peer_addr :: "string option list \<Rightarrow> exn + string" where
  "peer_addr [] = Inl (std_error ''RuntimeError'')"
| "peer_addr (None # rest) = peer_addr rest"
| "peer_addr (Some content # rest) =
     (if strip_space content = [] then peer_addr rest else Inr (strip_space content))"

definition message_fields :: "bridge_config \<Rightarrow> string \<Rightarrow> string \<Rightarrow> string \<Rightarrow> draws \<Rightarrow> envelope_fields" where
  "message_fields cfg recipient cap message_id d =
     \<lparr>ef_sender_spiffe_id = bc_spiffe_id cfg, ef_recipient_spiffe_id = PStr recipient, ef_purpose_of_use = MSG_SCOPE,
      ef_kid = bc_env_kid cfg, ef_capability_token = cap, ef_message_id = message_id,
      ef_nonce = ''n-'' @ dw_nonce_hex d, ef_issued_at = dw_now d, ef_ttl = minutes 5\<rparr>"

definition make_message ::
  "platform \<Rightarrow> (rat \<Rightarrow> rat) \<Rightarrow> (pyval \<Rightarrow> string) \<Rightarrow> bridge_config \<Rightarrow> string \<Rightarrow> pyval \<Rightarrow> draws \<Rightarrow>
   exn + (string \<times> pyval) list" where
  "make_message P rnd compact_dumps cfg recipient body d =
     bindE (message_request (bc_name cfg) body) (\<lambda>req.
     let payload = mcp_request_to_payload req in
     bindE (p_canon P payload) (\<lambda>bytes.
     bindE (fst (issue rnd compact_dumps (bc_issuer_sign cfg) None (bc_issuer cfg) (bc_spiffe_id cfg) recipient MSG_SCOPE
              (p_sha256 P bytes) None None (dw_now d) (dw_token_bytes d) None ())) (\<lambda>cap.
     bindE (generate_uuidv7 rnd (dw_now d) (dw_id_bytes d)) (\<lambda>message_id.
     bindE (new_envelope_fields (message_fields cfg recipient cap message_id d)) (\<lambda>fields.
     bindE (build_envelope P payload fields) (\<lambda>env.
     sign_envelope P (bc_env_sign cfg) env))))))"

definition send_message ::
  "platform \<Rightarrow> (rat \<Rightarrow> rat) \<Rightarrow> (pyval \<Rightarrow> string) \<Rightarrow> ('c, 'w) tcp \<Rightarrow> bridge_config \<Rightarrow> string \<Rightarrow> pyval \<Rightarrow> pyval \<Rightarrow> draws \<Rightarrow> 'w \<Rightarrow>
   (exn + string \<times> string) \<times> 'w" where
  "send_message P rnd compact_dumps N cfg peer body to d w =
     (case bindE (resolve_name (bc_agents cfg) (if truthy to then to else PStr peer)) (\<lambda>target.
           bindE (spiffe_of (bc_agents cfg) (PStr target)) (\<lambda>recipient.
           bindE (make_message P rnd compact_dumps cfg recipient body d) (\<lambda>env.
           bindE (peer_addr (dw_address_file d)) (\<lambda>addr.
           Inr (target, recipient, addr, envelope_to_json compact_dumps env))))) of
        Inl e \<Rightarrow> (Inl e, w)
      | Inr (target, recipient, addr, data) \<Rightarrow>
          (case socket_send N addr data w of
             (Inl e, w') \<Rightarrow> (Inl e, w')
           | (Inr _, w') \<Rightarrow> (Inr (target, recipient), w')))"


section \<open>The tool server\<close>

text \<open>\<open>str(v)\<close>, with the texts of values other than strings as a parameter.\<close>

definition shown_text :: "(pyval \<Rightarrow> string) \<Rightarrow> pyval \<Rightarrow> string" where
  "shown_text shown v = (case v of PStr s \<Rightarrow> s | _ \<Rightarrow> shown v)"

definition mail_line :: "(pyval \<Rightarrow> string) \<Rightarrow> pyval \<Rightarrow> exn + string" where
  "mail_line shown e =
     bindE (getitem (dict_of e) ''from_name'') (\<lambda>n.
     bindE (getitem (dict_of e) ''body'') (\<lambda>body.
     Inr (''[from '' @ shown_text shown n @ ''] '' @ shown_text shown body)))"

fun mail_lines :: "(pyval \<Rightarrow> string) \<Rightarrow> pyval list \<Rightarrow> exn + string list" where
  "mail_lines shown [] = Inr []"
| "mail_lines shown (e # es) = bindE (mail_line shown e) (\<lambda>l. bindE (mail_lines shown es) (\<lambda>ls. Inr (l # ls)))"

definition check_inbox ::
  "platform \<Rightarrow> (pyval \<Rightarrow> string) \<Rightarrow> (pyval \<Rightarrow> string) \<Rightarrow> 'k bridge \<Rightarrow> (exn + string) \<times> 'k bridge" where
  "check_inbox P dumps shown b =
     (case read_unread P dumps (br_inbox b) of
        (Inl e, i) \<Rightarrow> (Inl e, b\<lparr>br_inbox := i\<rparr>)
      | (Inr fresh, i) \<Rightarrow>
          (if fresh = [] then Inr ''(no new messages)''
           else bindE (mail_lines shown fresh) (\<lambda>ls. Inr (join_with [newline] ls)),
           b\<lparr>br_inbox := i\<rparr>))"

text \<open>The other texts, worded by the parameter \<open>say\<close>.\<close>

datatype wording = NeedsBody | SentTo string string | SendFailed exn | UnknownTool pyval
  | MethodNotFound pyval | InternalError exn

record ('c, 'w) stdio =
  sd_say :: "wording \<Rightarrow> string"
  sd_shown :: "pyval \<Rightarrow> string"
  sd_net :: "('c, 'w) tcp"

definition TOOLS :: pyval where
  "TOOLS = PList
     [PDict
       [(''name'', PStr ''send_message''),
        (''description'', PStr (''Send a signed message to your peer agent over the secure mesh. '' @
           ''The peer cryptographically verifies it came from you.'')),
        (''inputSchema'', PDict
          [(''type'', PStr ''object''),
           (''properties'', PDict
             [(''body'', PDict [(''type'', PStr ''string''), (''description'', PStr ''message text to send'')]),
              (''to'', PDict
                [(''type'', PStr ''string''),
                 (''description'', PStr ''peer name (optional; defaults to your configured peer)'')])]),
           (''required'', PList [PStr ''body''])])],
      PDict
       [(''name'', PStr ''check_inbox''),
        (''description'', PStr (''Return messages received from peers since the last check. Only '' @
           ''cryptographically verified messages appear here.'')),
        (''inputSchema'', PDict [(''type'', PStr ''object''), (''properties'', PDict [])])]]"

definition text_result :: "string \<Rightarrow> bool \<Rightarrow> pyval" where
  "text_result t is_error =
     PDict [(''content'', PList [PDict [(''type'', PStr ''text''), (''text'', PStr t)]]), (''isError'', PBool is_error)]"

definition result_reply :: "pyval \<Rightarrow> pyval \<Rightarrow> pyval" where
  "result_reply mid r = PDict [(''jsonrpc'', PStr ''2.0''), (''id'', mid), (''result'', r)]"

definition bridge_error :: "pyval \<Rightarrow> int \<Rightarrow> string \<Rightarrow> pyval" where
  "bridge_error mid code m =
     PDict [(''jsonrpc'', PStr ''2.0''), (''id'', mid), (''error'', PDict [(''code'', PInt code), (''message'', PStr m)])]"

text \<open>\<open>d.get(k) or {}\<close>, and \<open>.get\<close> on the result.\<close>

definition get_or_dict :: "(string \<times> pyval) list \<Rightarrow> string \<Rightarrow> pyval" where
  "get_or_dict d k = (let v = get_or_none d k in if truthy v then v else PDict [])"

definition attr_get :: "pyval \<Rightarrow> string \<Rightarrow> exn + pyval" where
  "attr_get v k = (if is_dict v then Inr (get_or_none (dict_of v) k) else Inl (std_error ''AttributeError''))"

definition dispatch_tool ::
  "platform \<Rightarrow> (rat \<Rightarrow> rat) \<Rightarrow> (pyval \<Rightarrow> string) \<Rightarrow> (pyval \<Rightarrow> string) \<Rightarrow> ('c, 'w) stdio \<Rightarrow> bridge_config \<Rightarrow> string \<Rightarrow> draws \<Rightarrow>
   pyval \<Rightarrow> 'k bridge \<Rightarrow> 'w \<Rightarrow> (exn + pyval) \<times> 'k bridge \<times> 'w" where
  "dispatch_tool P rnd compact_dumps dumps S cfg peer d params b w =
     (case attr_get params ''name'' of
        Inl e \<Rightarrow> (Inl e, b, w)
      | Inr name \<Rightarrow>
          let args = get_or_dict (dict_of params) ''arguments'' in
          if py_eq (PStr ''send_message'') name then
            (case bindE (attr_get args ''body'') (\<lambda>body. bindE (attr_get args ''to'') (\<lambda>to. Inr (body, to))) of
               Inl e \<Rightarrow> (Inl e, b, w)
             | Inr (body, to) \<Rightarrow>
                 if \<not> str_test nonempty body then (Inr (text_result (sd_say S NeedsBody) True), b, w)
                 else (case send_message P rnd compact_dumps (sd_net S) cfg peer body to d w of
                         (Inl e, w') \<Rightarrow> (Inr (text_result (sd_say S (SendFailed e)) True), b, w')
                       | (Inr (target, recipient), w') \<Rightarrow>
                           (Inr (text_result (sd_say S (SentTo target recipient)) False), b, w')))
          else if py_eq (PStr ''check_inbox'') name then
            (case check_inbox P dumps (sd_shown S) b of
               (r, b') \<Rightarrow> (bindE r (\<lambda>t. Inr (text_result t False)), b', w))
          else (Inr (text_result (sd_say S (UnknownTool name)) True), b, w))"

definition PROTOCOL_FALLBACK :: string where
  "PROTOCOL_FALLBACK = ''2025-06-18''"

definition initialize_result :: "pyval \<Rightarrow> exn + pyval" where
  "initialize_result params =
     (if \<not> is_dict params then Inl (std_error ''AttributeError'')
      else Inr (PDict
        [(''protocolVersion'', case map_of (dict_of params) ''protocolVersion'' of
            None \<Rightarrow> PStr PROTOCOL_FALLBACK | Some v \<Rightarrow> v),
         (''capabilities'', PDict [(''tools'', PDict [(''listChanged'', PBool False)])]),
         (''serverInfo'', PDict [(''name'', PStr ''walkietalkie-mesh-bridge''), (''version'', PStr ''0.1.0'')])]))"

text \<open>The body of the \<open>try\<close> of \<open>serve_stdio\<close>: a reply, or none for an unknown notification.\<close>

definition serve_method ::
  "platform \<Rightarrow> (rat \<Rightarrow> rat) \<Rightarrow> (pyval \<Rightarrow> string) \<Rightarrow> (pyval \<Rightarrow> string) \<Rightarrow> ('c, 'w) stdio \<Rightarrow> bridge_config \<Rightarrow> string \<Rightarrow> draws \<Rightarrow>
   (string \<times> pyval) list \<Rightarrow> 'k bridge \<Rightarrow> 'w \<Rightarrow> (exn + pyval option) \<times> 'k bridge \<times> 'w" where
  "serve_method P rnd compact_dumps dumps S cfg peer d msg b w =
     (let m = get_or_none msg ''method''; mid = get_or_none msg ''id'' in
      if py_eq (PStr ''initialize'') m then
        (bindE (initialize_result (get_or_dict msg ''params'')) (\<lambda>r. Inr (Some (result_reply mid r))), b, w)
      else if py_eq (PStr ''tools/list'') m then
        (Inr (Some (result_reply mid (PDict [(''tools'', TOOLS)]))), b, w)
      else if py_eq (PStr ''tools/call'') m then
        (case dispatch_tool P rnd compact_dumps dumps S cfg peer d (get_or_dict msg ''params'') b w of
           (r, b', w') \<Rightarrow> (bindE r (\<lambda>v. Inr (Some (result_reply mid v))), b', w'))
      else if py_eq (PStr ''ping'') m then (Inr (Some (result_reply mid (PDict []))), b, w)
      else if \<not> has_key msg ''id'' then (Inr None, b, w)
      else (Inr (Some (bridge_error mid (- 32601) (sd_say S (MethodNotFound m)))), b, w))"

text \<open>One line of standard input: the reply written, if any, or the exception that ends the server.\<close>

definition serve_line ::
  "platform \<Rightarrow> (rat \<Rightarrow> rat) \<Rightarrow> (pyval \<Rightarrow> string) \<Rightarrow> (pyval \<Rightarrow> string) \<Rightarrow> ('c, 'w) stdio \<Rightarrow> bridge_config \<Rightarrow> string \<Rightarrow> draws \<Rightarrow>
   string \<Rightarrow> 'k bridge \<Rightarrow> 'w \<Rightarrow> (exn + pyval option) \<times> 'k bridge \<times> 'w" where
  "serve_line P rnd compact_dumps dumps S cfg peer d line b w =
     (if strip_space line = [] then (Inr None, b, w)
      else case p_json_loads P (strip_space line) of
        Inl e \<Rightarrow> (if exn_cls e = StdError ''JSONDecodeError'' then Inr None else Inl e, b, w)
      | Inr msg \<Rightarrow>
          if \<not> is_dict msg then (Inl (std_error ''AttributeError''), b, w)
          else case serve_method P rnd compact_dumps dumps S cfg peer d (dict_of msg) b w of
            (Inr reply, b', w') \<Rightarrow> (Inr reply, b', w')
          | (Inl e, b', w') \<Rightarrow>
              (Inr (if \<not> has_key (dict_of msg) ''id'' then None
                    else Some (bridge_error (get_or_none (dict_of msg) ''id'') (- 32603) (sd_say S (InternalError e)))), b', w'))"


section \<open>The inbox is a mailbox\<close>

datatype 'm mail_op = Put 'm | Take

fun mail_run :: "('m \<Rightarrow> 's \<Rightarrow> 's) \<Rightarrow> ('s \<Rightarrow> 'e list \<times> 's) \<Rightarrow> 'm mail_op list \<Rightarrow> 's \<Rightarrow> 'e list \<times> 's" where
  "mail_run put take_all [] s = ([], s)"
| "mail_run put take_all (Put m # ops) s = mail_run put take_all ops (put m s)"
| "mail_run put take_all (Take # ops) s =
     (case take_all s of (es, s') \<Rightarrow> case mail_run put take_all ops s' of (es', s'') \<Rightarrow> (es @ es', s''))"

fun puts :: "'m mail_op list \<Rightarrow> 'm list" where
  "puts [] = []"
| "puts (Put m # ops) = m # puts ops"
| "puts (Take # ops) = puts ops"

definition unread_of :: "(bool \<times> 'm) list \<Rightarrow> 'm list" where
  "unread_of ms = map snd (filter (\<lambda>p. \<not> fst p) ms)"

text \<open>The contract of an inbox shared by its writer and its readers: \<open>rep s ms\<close> says that the store
  \<open>s\<close> holds the messages \<open>ms\<close>, each with the mark whether it was read.\<close>

locale mailbox =
  fixes put :: "'m \<Rightarrow> 's \<Rightarrow> 's"
    and take_all :: "'s \<Rightarrow> 'e list \<times> 's"
    and shown :: "'m \<Rightarrow> 'e"
    and rep :: "'s \<Rightarrow> (bool \<times> 'm) list \<Rightarrow> bool"
    and ok :: "'m \<Rightarrow> bool"
  assumes rep_put: "rep s ms \<Longrightarrow> ok m \<Longrightarrow> rep (put m s) (ms @ [(False, m)])"
    and rep_take: "rep s ms \<Longrightarrow> \<exists>s'. take_all s = (map shown (unread_of ms), s') \<and> rep s' (map (\<lambda>p. (True, snd p)) ms)"
begin

lemma unread_of_marked: "unread_of (map (\<lambda>p. (True, snd p)) ms) = []"
  by (simp add: unread_of_def filter_empty_conv)

lemma unread_of_put: "unread_of (ms @ [(False, m)]) = unread_of ms @ [m]"
  by (simp add: unread_of_def)

lemma exactly_once:
  assumes "rep s ms" "\<forall>m\<in>set (puts ops). ok m"
  shows "\<exists>s' ms' es. mail_run put take_all ops s = (es, s') \<and> rep s' ms' \<and>
    es @ map shown (unread_of ms') = map shown (unread_of ms @ puts ops)"
  using assms
proof (induction ops arbitrary: s ms)
  case (Cons op ops)
  show ?case
  proof (cases op)
    case (Put m)
    then show ?thesis using Cons.IH[OF rep_put[OF Cons.prems(1)]] Cons.prems(2) by (simp add: unread_of_put)
  next
    case Take
    obtain s1 where t: "take_all s = (map shown (unread_of ms), s1)" "rep s1 (map (\<lambda>p. (True, snd p)) ms)"
      using rep_take[OF Cons.prems(1)] by blast
    obtain s2 ms' es where "mail_run put take_all ops s1 = (es, s2)" "rep s2 ms'"
      "es @ map shown (unread_of ms') = map shown (puts ops)"
      using Cons.IH[OF t(2)] Cons.prems(2) Take by (auto simp: unread_of_marked)
    then show ?thesis using t(1) Take by auto
  qed
qed auto

end

text \<open>The inbox file: one line for each entry. \<open>mail_ok\<close> is what \<open>json.dumps\<close> promises of an entry: one
  line without surrounding space that decodes to the entry.\<close>

definition mail_ok :: "platform \<Rightarrow> (pyval \<Rightarrow> string) \<Rightarrow> mail \<Rightarrow> bool" where
  "mail_ok P dumps m \<longleftrightarrow> (\<forall>r. let t = dumps (entry_of r m) in
     p_json_loads P t = Inr (entry_of r m) \<and> t \<noteq> [] \<and> strip_space t = t \<and> (\<forall>c\<in>set t. \<not> is_break c))"

definition inbox_text :: "(pyval \<Rightarrow> string) \<Rightarrow> (bool \<times> mail) list \<Rightarrow> string" where
  "inbox_text dumps ms = concat (map (\<lambda>p. dumps (entry_of (fst p) (snd p)) @ [newline]) ms)"

definition inbox_holds :: "platform \<Rightarrow> (pyval \<Rightarrow> string) \<Rightarrow> string option \<Rightarrow> (bool \<times> mail) list \<Rightarrow> bool" where
  "inbox_holds P dumps inbox ms \<longleftrightarrow>
     (case inbox of None \<Rightarrow> ms = [] | Some content \<Rightarrow> content = inbox_text dumps ms) \<and> (\<forall>p\<in>set ms. mail_ok P dumps (snd p))"

definition take_mail :: "platform \<Rightarrow> (pyval \<Rightarrow> string) \<Rightarrow> string option \<Rightarrow> pyval list \<times> string option" where
  "take_mail P dumps inbox =
     (case read_unread P dumps inbox of (Inl e, i) \<Rightarrow> ([], i) | (Inr es, i) \<Rightarrow> (es, i))"

lemma splitlines_line:
  "\<forall>c\<in>set t. \<not> is_break c \<Longrightarrow> splitlines buf (t @ newline # rest) = (buf @ t) # splitlines [] rest"
proof (induction t arbitrary: buf)
  case Nil
  then show ?case by (cases rest) (simp_all add: newline_def is_break_def)
next
  case (Cons c t)
  have "c \<noteq> CHR 0x0D" using Cons.prems by (auto simp: is_break_def)
  then show ?case using Cons by (cases t) simp_all
qed

lemma splitlines_inbox:
  "\<forall>p\<in>set ms. mail_ok P dumps (snd p) \<Longrightarrow>
     splitlines [] (inbox_text dumps ms) = map (\<lambda>p. dumps (entry_of (fst p) (snd p))) ms"
  by (induction ms) (auto simp: inbox_text_def mail_ok_def Let_def splitlines_line)

lemma load_entries_inbox:
  "\<forall>p\<in>set ms. mail_ok P dumps (snd p) \<Longrightarrow>
     load_entries P (map (\<lambda>p. dumps (entry_of (fst p) (snd p))) ms) = Inr (map (\<lambda>p. entry_of (fst p) (snd p)) ms)"
  by (induction ms) (auto simp: mail_ok_def Let_def)

lemma entry_facts [simp]:
  "unread (entry_of r m) \<longleftrightarrow> \<not> r" "mark_read (entry_of r m) = entry_of True m" "is_dict (entry_of r m)"
  by (simp_all add: unread_def mark_read_def entry_of_def get_or_none_def)

lemma peek_lines_inbox:
  "\<forall>p\<in>set ms. mail_ok P dumps (snd p) \<Longrightarrow>
     peek_lines P (map (\<lambda>p. dumps (entry_of (fst p) (snd p))) ms) = Inr (map (entry_of False) (unread_of ms))"
  by (induction ms) (auto simp: mail_ok_def Let_def unread_of_def)

lemma join_lines_text: "xs \<noteq> [] \<Longrightarrow> join_with [newline] xs @ [newline] = concat (map (\<lambda>x. x @ [newline]) xs)"
  by (induction "[newline]" xs rule: join_with.induct) auto

lemma read_unread_inbox:
  assumes "inbox_holds P dumps inbox ms"
  shows "\<exists>inbox'. read_unread P dumps inbox = (Inr (map (entry_of True) (unread_of ms)), inbox') \<and>
    inbox_holds P dumps inbox' (map (\<lambda>p. (True, snd p)) ms)"
proof (cases inbox)
  case None
  then show ?thesis using assms by (simp add: inbox_holds_def read_unread_def unread_of_def)
next
  case (Some content)
  have ok: "\<forall>p\<in>set ms. mail_ok P dumps (snd p)" and content: "content = inbox_text dumps ms"
    using assms Some by (simp_all add: inbox_holds_def)
  have es: "load_entries P (splitlines [] content) = Inr (map (\<lambda>p. entry_of (fst p) (snd p)) ms)"
    by (simp add: content splitlines_inbox[OF ok] load_entries_inbox[OF ok])
  have fresh: "map mark_read (filter unread (map (\<lambda>p. entry_of (fst p) (snd p)) ms)) = map (entry_of True) (unread_of ms)"
    by (simp add: filter_map o_def unread_of_def)
  show ?thesis
  proof (cases "unread_of ms = []")
    case True
    then have "map (\<lambda>p. (True, snd p)) ms = ms" by (induction ms) (auto simp: unread_of_def split: if_splits)
    then show ?thesis using assms True Some es
      by (simp add: read_unread_def list_all_iff filter_map o_def unread_of_def)
  next
    case False
    then have "ms \<noteq> []" by (auto simp: unread_of_def)
    then have "join_with [newline] (map (\<lambda>e. dumps (mark_read e)) (map (\<lambda>p. entry_of (fst p) (snd p)) ms)) @ [newline] =
        inbox_text dumps (map (\<lambda>p. (True, snd p)) ms)"
      by (subst join_lines_text) (simp_all add: inbox_text_def o_def)
    moreover have "filter unread (map (\<lambda>p. entry_of (fst p) (snd p)) ms) \<noteq> []" using fresh False by auto
    ultimately show ?thesis using Some es fresh ok
      by (simp add: read_unread_def list_all_iff inbox_holds_def o_def)
  qed
qed

interpretation inbox: mailbox "\<lambda>m. append_inbox dumps (entry_of False m)" "take_mail P dumps" "entry_of True"
    "inbox_holds P dumps" "mail_ok P dumps"
  for P dumps
proof
  show "inbox_holds P dumps (append_inbox dumps (entry_of False m) s) (ms @ [(False, m)])"
    if "inbox_holds P dumps s ms" "mail_ok P dumps m" for s ms m
    using that by (auto simp: inbox_holds_def append_inbox_def inbox_text_def split: option.splits)
  show "\<exists>s'. take_mail P dumps s = (map (entry_of True) (unread_of ms), s') \<and>
      inbox_holds P dumps s' (map (\<lambda>p. (True, snd p)) ms)"
    if "inbox_holds P dumps s ms" for s ms
    using read_unread_inbox[OF that] by (auto simp: take_mail_def)
qed


section \<open>What the agent reads\<close>

datatype bridge_event = Arrive arrival | ReadInbox

fun bridge_run ::
  "platform \<Rightarrow> (pyval \<Rightarrow> string) \<Rightarrow> bridge_config \<Rightarrow> 'k audit_step \<Rightarrow> bridge_event list \<Rightarrow> 'k bridge \<Rightarrow> pyval list \<times> 'k bridge" where
  "bridge_run P dumps cfg rc [] b = ([], b)"
| "bridge_run P dumps cfg rc (Arrive a # evs) b = bridge_run P dumps cfg rc evs (receive_step P dumps cfg rc a b)"
| "bridge_run P dumps cfg rc (ReadInbox # evs) b =
     (case take_mail P dumps (br_inbox b) of (es, i) \<Rightarrow>
      case bridge_run P dumps cfg rc evs (b\<lparr>br_inbox := i\<rparr>) of (es', b') \<Rightarrow> (es @ es', b'))"

text \<open>The messages accepted, each with the frame it came from, and what they do to the inbox.\<close>

fun accepted ::
  "platform \<Rightarrow> bridge_config \<Rightarrow> 'k audit_step \<Rightarrow> bridge_event list \<Rightarrow> replay_cache \<Rightarrow> 'k \<Rightarrow> (arrival \<times> mail) mail_op list" where
  "accepted P cfg rc [] c k = []"
| "accepted P cfg rc (Arrive a # evs) c k =
     (case receive_message P cfg rc a c k of
        (Inl e, c', k') \<Rightarrow> accepted P cfg rc evs c' k'
      | (Inr m, c', k') \<Rightarrow> Put (a, m) # accepted P cfg rc evs c' k')"
| "accepted P cfg rc (ReadInbox # evs) c k = Take # accepted P cfg rc evs c k"

definition mails ::
  "platform \<Rightarrow> bridge_config \<Rightarrow> 'k audit_step \<Rightarrow> bridge_event list \<Rightarrow> 'k bridge \<Rightarrow> (arrival \<times> mail) list" where
  "mails P cfg rc evs b = puts (accepted P cfg rc evs (br_replay b) (br_audit b))"

lemma puts_map_mail_op: "puts (map (map_mail_op f) ops) = map f (puts ops)"
  by (induction ops rule: puts.induct) simp_all

lemma bridge_run_inbox:
  "mail_run (\<lambda>m. append_inbox dumps (entry_of False m)) (take_mail P dumps)
     (map (map_mail_op snd) (accepted P cfg rc evs (br_replay b) (br_audit b))) (br_inbox b) =
   (case bridge_run P dumps cfg rc evs b of (es, b') \<Rightarrow> (es, br_inbox b'))"
proof (induction P dumps cfg rc evs b rule: bridge_run.induct)
  case (2 P dumps cfg rc a evs b)
  then show ?case by (auto simp: receive_step_def split: prod.splits sum.splits)
next
  case (3 P dumps cfg rc evs b)
  then show ?case by (cases "take_mail P dumps (br_inbox b)") (simp split: prod.splits)
qed simp

definition vouched ::
  "platform \<Rightarrow> bridge_config \<Rightarrow> 'k audit_step \<Rightarrow> arrival \<Rightarrow> mail \<Rightarrow> bool" where
  "vouched P cfg rc a m \<longleftrightarrow>
     (\<exists>env cl c k c' k' req.
        envelope_from_json P (ar_payload a) = Inr env \<and>
        verify_envelope P (bridge_deps cfg rc (ar_wall a)) DEFAULT_CONFIG (ar_now a) (PDict env) c k = (Inr cl, c', k') \<and>
        unwrap_request env = Inr req \<and> request_body req = Inr (ms_body m) \<and>
        ms_from m = cl_sub cl \<and> ms_name m = name_of_spiffe (bc_agents cfg) (cl_sub cl))"

lemma receive_message_vouched:
  assumes "receive_message P cfg rc a c k = (Inr m, c', k')"
  shows "vouched P cfg rc a m"
proof -
  obtain env where env: "envelope_from_json P (ar_payload a) = Inr env"
    using assms by (cases "envelope_from_json P (ar_payload a)") (simp_all add: receive_message_def)
  obtain r c1 k1 where v: "verify_envelope P (bridge_deps cfg rc (ar_wall a)) DEFAULT_CONFIG (ar_now a) (PDict env) c k = (r, c1, k1)"
    by (rule prod_cases3)
  then show ?thesis using assms env
    by (cases r) (auto simp: receive_message_def vouched_def intro!: exI)
qed

lemma accepted_vouched:
  "(a, m) \<in> set (puts (accepted P cfg rc evs c k)) \<Longrightarrow> Arrive a \<in> set evs \<and> vouched P cfg rc a m"
  by (induction P cfg rc evs c k rule: accepted.induct)
     (auto split: prod.splits sum.splits dest: receive_message_vouched)


text \<open>C10. The inbox hands every verified message to the agent exactly once, in the order of arrival, and
  nothing else: what the reads returned, marked as read, followed by what the responder still sees as
  unread are the entries of the accepted messages; and each of these is the body of a request in an
  envelope that arrived and that the verifier accepted, under the sender the verifier established.\<close>

theorem inbox_exactly_once:
  assumes "br_inbox b = None" "bridge_run P dumps cfg rc evs b = (out, b')"
    and "\<forall>p\<in>set (mails P cfg rc evs b). mail_ok P dumps (snd p)"
  shows "(\<exists>rest. peek_unread P (br_inbox b') = Inr (map (entry_of False) rest) \<and>
      out @ map (entry_of True) rest = map (entry_of True \<circ> snd) (mails P cfg rc evs b)) \<and>
    (\<forall>(a, m)\<in>set (mails P cfg rc evs b). Arrive a \<in> set evs \<and> vouched P cfg rc a m)"
proof -
  let ?ops = "map (map_mail_op snd) (accepted P cfg rc evs (br_replay b) (br_audit b))"
  have puts: "puts ?ops = map snd (mails P cfg rc evs b)" by (simp add: puts_map_mail_op mails_def)
  have "inbox_holds P dumps (br_inbox b) []" using assms(1) by (simp add: inbox_holds_def)
  from inbox.exactly_once[OF this, of ?ops] obtain ms where
    ms: "inbox_holds P dumps (br_inbox b') ms" "out @ map (entry_of True) (unread_of ms) = map (entry_of True) (puts ?ops)"
    using assms(2,3) puts by (auto simp: bridge_run_inbox unread_of_def)
  have "peek_unread P (br_inbox b') = Inr (map (entry_of False) (unread_of ms))"
    using ms(1) by (auto simp: inbox_holds_def peek_unread_def unread_of_def splitlines_inbox peek_lines_inbox
        split: option.splits)
  then show ?thesis
    using ms(2) puts accepted_vouched by (fastforce simp: mails_def)
qed

text \<open>A text from a peer is not escaped when the inbox is shown: one message can look like two, the
  second from anybody.\<close>

lemma body_forges_message:
  "mail_line shown (entry_of True \<lparr>ms_stamp = ts, ms_from = f, ms_name = ''eve'',
      ms_body = PStr (text @ newline # ''[from bob] '' @ forged)\<rparr>) =
   Inr (join_with [newline] [''[from eve] '' @ text, ''[from bob] '' @ forged])"
  by (simp add: mail_line_def entry_of_def getitem_def shown_text_def)

text \<open>Outside the \<open>try\<close>, a line whose JSON is not an object ends the server.\<close>

lemma array_ends_server:
  assumes "p_json_loads P (strip_space line) = Inr (PList xs)" "strip_space line \<noteq> []"
  shows "serve_line P rnd compact_dumps dumps S cfg peer d line b w = (Inl (std_error ''AttributeError''), b, w)"
  using assms by (simp add: serve_line_def)

text \<open>The generator accepts letters outside ASCII, which the issuer then rejects.\<close>

lemma generated_name_rejected:
  "generate_agents [([CHR 0xE9], e, i)] [] = Inr [([CHR 0xE9], generated_agent [CHR 0xE9] e i)] \<and>
   new_bridge_config [([CHR 0xE9], generated_agent [CHR 0xE9] e i)] [CHR 0xE9] s s' = Inl (std_error ''ValueError'')"
  by (simp add: py_isalnum_def is_alnum_def in_range_def new_bridge_config_def new_issuer_def generated_agent_def
      TRUST_DOMAIN_def pattern_defs guards.simps)


section \<open>What a peer understands\<close>

lemma map_of_last:
  assumes "distinct (map key xs)" "x \<in> set xs"
  shows "map_of (rev (map (\<lambda>a. (key a, val a)) xs)) (key x) = Some (val x)"
proof (rule map_of_is_SomeI)
  show "distinct (map fst (rev (map (\<lambda>a. (key a, val a)) xs)))"
    using assms(1) by (simp add: rev_map o_def flip: rev_map)
qed (use assms(2) in auto)

text \<open>The manifest the generator writes: every agent has its own keys and its own identity.\<close>

lemma generate_agents_wf:
  assumes "generate_agents gen agents0 = Inr agents" "distinct (map fst agents0)"
    and "\<forall>p\<in>set agents0. \<exists>e i. snd p = generated_agent (fst p) e i"
  shows "distinct (map fst agents) \<and> (\<forall>p\<in>set agents. \<exists>e i. snd p = generated_agent (fst p) e i)"
  using assms
proof (induction gen agents0 rule: generate_agents.induct)
  case (2 name e i rest agents0)
  have "set (dset name (generated_agent name e i) agents0) \<subseteq> insert (name, generated_agent name e i) (set agents0)"
    by (induction agents0) auto
  then have "\<exists>e i. snd p = generated_agent (fst p) e i" if "p \<in> set (dset name (generated_agent name e i) agents0)" for p
    using 2(4) that by (metis (no_types, lifting) fst_conv insert_iff snd_conv subsetD)
  then show ?case using 2(1-3) by (simp add: distinct_update split: if_splits)
qed simp

lemma generated_lookups:
  assumes "generate_agents gen [] = Inr agents" "dget agents n = Some a"
  shows "a = generated_agent n (ag_env_pub_pem a) (ag_issuer_pub_pem a)"
    "agent_key_lookup agents (ag_env_kid a) = Inr (ag_env_pub_pem a)"
    "agent_issuer_lookup agents (ag_issuer_iss a) (ag_issuer_kid a) = Inr (ag_issuer_pub_pem a)"
    "name_of_spiffe agents (ag_spiffe_id a) = n"
proof -
  have wf: "distinct (map fst agents)" and form: "\<And>p. p \<in> set agents \<Longrightarrow> \<exists>e i. snd p = generated_agent (fst p) e i"
    using generate_agents_wf[OF assms(1)] by auto
  have mem: "(n, a) \<in> set agents" using assms(2) by (rule map_of_SomeD)
  have own: "ag_env_kid (snd p) = fst p @ ''-env'' \<and> ag_issuer_iss (snd p) = ''spiffe://'' @ TRUST_DOMAIN @ ''/'' @ fst p @ ''/issuer'' \<and>
      ag_issuer_kid (snd p) = fst p @ ''-iss'' \<and> ag_spiffe_id (snd p) = ''spiffe://'' @ TRUST_DOMAIN @ ''/'' @ fst p"
    if "p \<in> set agents" for p
    using form[OF that] by (auto simp: generated_agent_def)
  obtain e i where a: "a = generated_agent n e i" using form[OF mem] by auto
  then show "a = generated_agent n (ag_env_pub_pem a) (ag_issuer_pub_pem a)" by (simp add: generated_agent_def)
  have inj: "inj_on fst (set agents)" using wf by (simp add: distinct_map)
  have "distinct (map (\<lambda>p. ag_env_kid (snd p)) agents)"
    using wf own inj by (simp add: distinct_map inj_on_def)
  from map_of_last[OF this mem, of "\<lambda>p. ag_env_pub_pem (snd p)"] show "agent_key_lookup agents (ag_env_kid a) = Inr (ag_env_pub_pem a)"
    by (simp add: agent_key_lookup_def)
  have "distinct (map (\<lambda>p. (ag_issuer_iss (snd p), ag_issuer_kid (snd p))) agents)"
    using wf own inj by (simp add: distinct_map inj_on_def)
  from map_of_last[OF this mem, of "\<lambda>p. ag_issuer_pub_pem (snd p)"] show "agent_issuer_lookup agents (ag_issuer_iss a) (ag_issuer_kid a) = Inr (ag_issuer_pub_pem a)"
    by (simp add: agent_issuer_lookup_def)
  have only: "fst p = n" if "p \<in> set agents" "ag_spiffe_id (snd p) = ag_spiffe_id a" for p
    using own[OF that(1)] own[OF mem] that(2) by simp
  show "name_of_spiffe agents (ag_spiffe_id a) = n"
  proof (cases "find (\<lambda>p. ag_spiffe_id (snd p) = ag_spiffe_id a) agents")
    case None
    then show ?thesis using mem by (force simp: find_None_iff)
  next
    case (Some p)
    then have "p \<in> set agents" "ag_spiffe_id (snd p) = ag_spiffe_id a" by (auto simp: find_Some_iff)
    then show ?thesis using Some only by (simp add: name_of_spiffe_def)
  qed
qed

lemma kid_re_env: "kid_re (n @ ''-iss'') \<Longrightarrow> kid_re (n @ ''-env'')"
  by (auto simp: kid_re_def re_dollar_def newline_def is_id_char_def is_alnum_def in_range_def)

lemma issue_default:
  "issue rnd dumps sign sink I sub aud scope digest jti None t rb resource k =
   issue rnd dumps sign sink I sub aud scope digest jti (Some (is_default_ttl I)) t rb resource k"
  by (simp add: issue_def)

lemma make_message_Inr:
  assumes "make_message P rnd compact_dumps cfg recipient body d = Inr env"
  obtains req bytes cap message_id env0 where
    "message_request (bc_name cfg) body = Inr req" "p_canon P (mcp_request_to_payload req) = Inr bytes"
    "issue rnd compact_dumps (bc_issuer_sign cfg) None (bc_issuer cfg) (bc_spiffe_id cfg) recipient MSG_SCOPE
       (p_sha256 P bytes) None (Some (is_default_ttl (bc_issuer cfg))) (dw_now d) (dw_token_bytes d) None () = (Inr cap, ())"
    "generate_uuidv7 rnd (dw_now d) (dw_id_bytes d) = Inr message_id"
    "build_envelope P (mcp_request_to_payload req) (message_fields cfg recipient cap message_id d) = Inr env0"
    "sign_envelope P (bc_env_sign cfg) env0 = Inr env"
proof -
  obtain req bytes cap message_id fields env0 where r: "message_request (bc_name cfg) body = Inr req"
    "p_canon P (mcp_request_to_payload req) = Inr bytes"
    "fst (issue rnd compact_dumps (bc_issuer_sign cfg) None (bc_issuer cfg) (bc_spiffe_id cfg) recipient MSG_SCOPE
       (p_sha256 P bytes) None None (dw_now d) (dw_token_bytes d) None ()) = Inr cap"
    "generate_uuidv7 rnd (dw_now d) (dw_id_bytes d) = Inr message_id"
    "new_envelope_fields (message_fields cfg recipient cap message_id d) = Inr fields"
    "build_envelope P (mcp_request_to_payload req) fields = Inr env0"
    "sign_envelope P (bc_env_sign cfg) env0 = Inr env"
    using assms by (auto simp: make_message_def Let_def)
  have "fields = message_fields cfg recipient cap message_id d"
    using r(5) by (simp add: new_envelope_fields_def)
  moreover have "issue rnd compact_dumps (bc_issuer_sign cfg) None (bc_issuer cfg) (bc_spiffe_id cfg) recipient MSG_SCOPE
       (p_sha256 P bytes) None (Some (is_default_ttl (bc_issuer cfg))) (dw_now d) (dw_token_bytes d) None () = (Inr cap, ())"
    using r(3) by (simp add: issue_default prod_eq_iff)
  ultimately show thesis using that r by blast
qed


text \<open>Messages of an agent \<open>E\<close> of the manifest, with any sender \<open>s\<close> written into them: what the bridge
  of another agent makes of the bytes on the wire. \<open>wire_ok\<close> collects what is assumed of the libraries
  for these values: \<open>json.dumps\<close> and \<open>json.loads\<close> are inverse, \<open>isoformat\<close> is read back.\<close>

definition payload_of :: "string \<Rightarrow> string \<Rightarrow> pyval" where
  "payload_of name text =
     PDict [(''jsonrpc'', PStr ''2.0''), (''method'', PStr MSG_SCOPE),
            (''params'', PDict [(''body'', PStr text), (''from'', PStr name)]), (''id'', PInt 1)]"

definition wire_ok ::
  "platform \<Rightarrow> (rat \<Rightarrow> rat) \<Rightarrow> (pyval \<Rightarrow> string) \<Rightarrow> bridge_config \<Rightarrow> string \<Rightarrow> string \<Rightarrow> draws \<Rightarrow> (string \<times> pyval) list \<Rightarrow> bool" where
  "wire_ok P rnd compact_dumps cfg recipient text d env \<longleftrightarrow>
     canon_ignores_order P \<and> float_seconds_exact rnd \<and> seconds 30 \<le> dw_now d \<and> dw_now d + minutes 5 < 2 ^ 52 \<and>
     nonce_re (''n-'' @ dw_nonce_hex d) \<and>
     parse_rfc3339 P (PStr (p_isoformat P (dw_now d))) = Inr (dw_now d) \<and>
     parse_rfc3339 P (PStr (p_isoformat P (dw_now d + minutes 5))) = Inr (dw_now d + minutes 5) \<and>
     json_faithful P compact_dumps (token_header (bc_issuer cfg)) \<and>
     (\<forall>bytes j. p_canon P (payload_of (bc_name cfg) text) = Inr bytes \<longrightarrow>
        generate_uuidv7 rnd (dw_now d) (dw_token_bytes d) = Inr j \<longrightarrow>
        json_faithful P compact_dumps
          (token_payload (bc_issuer cfg) (bc_spiffe_id cfg) recipient MSG_SCOPE ((dw_now d - seconds 30) div 1000000)
             ((dw_now d - seconds 30) div 1000000 + 300) j (p_sha256 P bytes) None)) \<and>
     json_faithful P compact_dumps (sort_keys (PDict env)) \<and>
     (\<forall>cap. map_of env ''capability_token'' = Some (PStr cap) \<longrightarrow> utf8_length cap \<le> MAX_TOKEN_BYTES)"

lemma message_request_Inr:
  "message_request name (PStr text) = Inr req \<longleftrightarrow>
     req = \<lparr>mq_method = MSG_SCOPE, mq_params = PDict [(''body'', PStr text), (''from'', PStr name)], mq_id = PInt 1\<rparr>"
  by (auto simp: message_request_def new_mcp_request_Inr MSG_SCOPE_def)

lemma new_bridge_config_Inr:
  assumes "new_bridge_config agents n es iss_sign = Inr E"
  obtains a where "dget agents n = Some a" "bc_name E = n" "bc_agents E = agents" "bc_spiffe_id E = ag_spiffe_id a"
    "bc_env_kid E = ag_env_kid a" "bc_env_sign E = es" "bc_issuer_sign E = iss_sign"
    "new_issuer (ag_issuer_iss a) (ag_issuer_kid a) (minutes 5) (seconds 30) allow_all_policy = Inr (bc_issuer E)"
    "is_default_ttl (bc_issuer E) = minutes 5" "is_clock_skew (bc_issuer E) = seconds 30" "kid_re (ag_issuer_kid a)"
  using assms
  by (auto simp: new_bridge_config_def new_issuer_def split: option.splits)

lemma unwrapped_body:
  assumes "map_of env ''payload'' = Some (payload_of name text)" "distinct (map fst env)"
  shows "\<exists>req. unwrap_request (sorted_items env) = Inr req \<and> request_body req = Inr (PStr text)"
proof -
  let ?params = "[(''body'', PStr text), (''from'', PStr name)]"
  have "map_of (sorted_items ?params) ''body'' = Some (PStr text)" by (simp add: map_of_sorted_items)
  then have body: "request_body \<lparr>mq_method = MSG_SCOPE, mq_params = PDict (sorted_items ?params), mq_id = PInt 1\<rparr> = Inr (PStr text)"
    by (auto simp: request_body_def)
  have "getitem (sorted_items env) ''payload'' = Inr (sort_keys (payload_of name text))"
    using assms by (simp add: getitem_def map_of_sorted_items)
  moreover have "payload_to_mcp_request (sort_keys (payload_of name text)) =
      Inr \<lparr>mq_method = MSG_SCOPE, mq_params = PDict (sorted_items ?params), mq_id = PInt 1\<rparr>"
    by (simp add: payload_of_def sort_keys_dict payload_to_mcp_request_def get_or_none_def has_key_def item_def
        map_of_sorted_items Let_def new_mcp_request_Inr MSG_SCOPE_def)
  ultimately show ?thesis using body by (auto simp: unwrap_request_def)
qed


definition keys_held :: "platform \<Rightarrow> agent \<Rightarrow> (string \<Rightarrow> string) \<Rightarrow> (string \<Rightarrow> string) \<Rightarrow> bool" where
  "keys_held P a env_sign issuer_sign \<longleftrightarrow>
     (\<exists>key. key_pair P env_sign key \<and> p_load_pem P (ag_env_pub_pem a) = Inr (Ed25519Key key)) \<and>
     (\<exists>key. key_pair P issuer_sign key \<and> p_load_pem P (ag_issuer_pub_pem a) = Inr (Ed25519Key key))"

lemma made_message_front:
  assumes "generate_agents gen [] = Inr agents" "new_bridge_config agents n es iss_sign = Inr E" "dget agents n = Some a"
    and "keys_held P a es iss_sign" "cfg = E\<lparr>bc_spiffe_id := s\<rparr>"
    and "make_message P rnd compact_dumps cfg recipient (PStr text) d = Inr env"
    and "wire_ok P rnd compact_dumps cfg recipient text d env"
    and "bc_agents B = agents" "dw_now d \<le> t" "t \<le> dw_now d + minutes 5"
    and "issue rnd compact_dumps iss_sign None (bc_issuer E) s recipient MSG_SCOPE (p_sha256 P bytes) None
       (Some (minutes 5)) (dw_now d) (dw_token_bytes d) None () = (Inr cap, ())"
    and "p_canon P (payload_of n text) = Inr bytes" "generate_uuidv7 rnd (dw_now d) (dw_id_bytes d) = Inr mid"
    and "build_envelope P (payload_of n text) (message_fields cfg recipient cap mid d) = Inr env0" "sign_envelope P es env0 = Inr env"
  shows "front_ok P (bridge_deps B rc wall) DEFAULT_CONFIG t (PDict env) (dw_now d) (dw_now d + minutes 5)"
    "\<exists>sig. env = envelope_dict P (payload_of n text) (message_fields cfg recipient cap mid d) (p_sha256 P bytes) @ [(''signature'', PStr sig)]"
proof -
  let ?f = "message_fields cfg recipient cap mid d"
  obtain ekey where ekey: "key_pair P es ekey" "p_load_pem P (ag_env_pub_pem a) = Inr (Ed25519Key ekey)"
    using assms(4) by (auto simp: keys_held_def)
  have E: "bc_env_kid E = ag_env_kid a" "kid_re (ag_issuer_kid a)"
    using new_bridge_config_Inr[OF assms(2)] assms(3) by (metis option.inject)+
  have names: "ag_env_kid a = n @ ''-env''" "ag_issuer_kid a = n @ ''-iss''"
    using generated_lookups(1)[OF assms(1,3)] by (metis agent.simps generated_agent_def)+
  have f: "ef_sender_spiffe_id ?f = s" "ef_recipient_spiffe_id ?f = PStr recipient" "ef_kid ?f = ag_env_kid a"
    "ef_message_id ?f = mid" "ef_nonce ?f = ''n-'' @ dw_nonce_hex d" "ef_issued_at ?f = dw_now d" "ef_ttl ?f = minutes 5"
    by (simp_all add: message_fields_def assms(5) E)
  have lookup: "d_key_lookup (bridge_deps B rc wall) (ef_kid ?f) = Inr (ag_env_pub_pem a)"
    using generated_lookups(2)[OF assms(1,3)] by (simp add: bridge_deps_def assms(8) f)
  note req = issue_Inr(1)[OF assms(11), simplified, unfolded request_ok_Inr]
  have wire: "nonce_re (ef_nonce ?f)" "parse_rfc3339 P (PStr (p_isoformat P (ef_issued_at ?f))) = Inr (ef_issued_at ?f)"
    "parse_rfc3339 P (PStr (p_isoformat P (ef_issued_at ?f + ef_ttl ?f))) = Inr (ef_issued_at ?f + ef_ttl ?f)"
    using assms(7) by (simp_all add: wire_ok_def f)
  have kid: "kid_re (ef_kid ?f)" using E(2) by (simp add: f names kid_re_env)
  have uuid: "uuid_v7_re (ef_message_id ?f)" using generated_uuid_wellformed_core[OF assms(13)] by (simp add: f)
  have depth: "int (json_depth (payload_of n text)) < max_json_depth DEFAULT_CONFIG"
    by (simp add: payload_of_def DEFAULT_CONFIG_def)
  have window: "check_window DEFAULT_CONFIG (ef_issued_at ?f) (ef_issued_at ?f + ef_ttl ?f) t = Inr ()"
    using assms(9,10) by (simp add: check_window_Inr f DEFAULT_CONFIG_def seconds_def minutes_def)
  show "front_ok P (bridge_deps B rc wall) DEFAULT_CONFIG t (PDict env) (dw_now d) (dw_now d + minutes 5)"
    "\<exists>sig. env = envelope_dict P (payload_of n text) ?f (p_sha256 P bytes) @ [(''signature'', PStr sig)]"
    using honest_front[OF assms(14,15,12) _ _ f(2) _ ekey(1) lookup ekey(2) uuid wire(1) kid depth wire(2,3) window] req
    by (simp_all add: f)
qed

text \<open>The bridge that receives them accepts such messages under the sender written into them, whoever
  made them.\<close>

lemma made_message_accepted:
  assumes "generate_agents gen [] = Inr agents" "new_bridge_config agents n es iss_sign = Inr E" "dget agents n = Some a"
    and "keys_held P a es iss_sign" "cfg = E\<lparr>bc_spiffe_id := s\<rparr>"
    and "make_message P rnd compact_dumps cfg recipient (PStr text) d = Inr env"
    and "wire_ok P rnd compact_dumps cfg recipient text d env"
    and "bc_agents B = agents" "dw_now d \<le> t" "t \<le> dw_now d + seconds 270"
    and "c (s, ''n-'' @ dw_nonce_hex d) = None" "\<forall>f k. fst (rc f k) = None"
  shows "\<exists>cl c' k' req. verify_envelope P (bridge_deps B rc wall) DEFAULT_CONFIG t (PDict (sorted_items env)) c k = (Inr cl, c', k') \<and>
    cl_sub cl = s \<and> unwrap_request (sorted_items env) = Inr req \<and> request_body req = Inr (PStr text)"
proof -
  obtain a' where E: "bc_name E = n" "bc_env_sign E = es" "bc_issuer_sign E = iss_sign"
    "new_issuer (ag_issuer_iss a') (ag_issuer_kid a') (minutes 5) (seconds 30) allow_all_policy = Inr (bc_issuer E)"
    "is_default_ttl (bc_issuer E) = minutes 5" "is_clock_skew (bc_issuer E) = seconds 30" "a' = a"
    using new_bridge_config_Inr[OF assms(2)] assms(3) by (metis option.inject)
  obtain ikey where ikey: "key_pair P iss_sign ikey" "p_load_pem P (ag_issuer_pub_pem a) = Inr (Ed25519Key ikey)"
    using assms(4) by (auto simp: keys_held_def)
  obtain req bytes cap mid env0 where m: "message_request n (PStr text) = Inr req" "p_canon P (mcp_request_to_payload req) = Inr bytes"
    "issue rnd compact_dumps iss_sign None (bc_issuer E) s recipient MSG_SCOPE (p_sha256 P bytes) None
       (Some (minutes 5)) (dw_now d) (dw_token_bytes d) None () = (Inr cap, ())"
    "generate_uuidv7 rnd (dw_now d) (dw_id_bytes d) = Inr mid"
    "build_envelope P (mcp_request_to_payload req) (message_fields cfg recipient cap mid d) = Inr env0"
    "sign_envelope P es env0 = Inr env"
    by (rule make_message_Inr[OF assms(6)]) (simp add: assms(5) E)
  have payload: "mcp_request_to_payload req = payload_of n text"
    using m(1) by (simp add: message_request_Inr mcp_request_to_payload_def payload_of_def MSG_SCOPE_def)
  have t5: "t \<le> dw_now d + minutes 5" using assms(10) by (simp add: seconds_def minutes_def)
  note front = made_message_front[OF assms(1-9) t5 m(3) m(2)[unfolded payload] m(4) m(5)[unfolded payload] m(6)]
  obtain sig where env: "env = envelope_dict P (payload_of n text) (message_fields cfg recipient cap mid d) (p_sha256 P bytes) @ [(''signature'', PStr sig)]"
    using front(2) by blast
  have keys: "distinct (map fst env)" by (simp add: env envelope_dict_def)
  note w = assms(7)[unfolded wire_ok_def assms(5), simplified, unfolded E(1)]
  obtain j where j: "generate_uuidv7 rnd (dw_now d) (dw_token_bytes d) = Inr j"
    using issue_Inr(3)[OF m(3)] by (auto simp: issue_jti_def)
  have fields: "map_of (sorted_items env) ''sender_spiffe_id'' = Some (PStr s)"
    "map_of (sorted_items env) ''recipient_spiffe_id'' = Some (PStr recipient)"
    "map_of (sorted_items env) ''purpose_of_use'' = Some (PStr MSG_SCOPE)"
    "map_of (sorted_items env) ''payload_digest'' = Some (PStr (p_sha256 P bytes))"
    "map_of (sorted_items env) ''capability_token'' = Some (PStr cap)"
    "map_of (sorted_items env) ''nonce'' = Some (PStr (''n-'' @ dw_nonce_hex d))"
    by (simp_all only: map_of_sorted_items[OF keys]) (simp_all add: env envelope_dict_def message_fields_def assms(5))
  have capability: "utf8_length cap \<le> MAX_TOKEN_BYTES"
    using w by (simp add: env envelope_dict_def message_fields_def)
  obtain c' where mark: "d_mark_if_new (bridge_deps B rc wall) (s, ''n-'' @ dw_nonce_hex d)
      (max (dw_now d + minutes 5 - t) (seconds 0)) c = (Inr True, c')"
    using assms(11) by (simp add: bridge_deps_def atomic_cache_def mem_mark_if_new_def mem_purge_def Let_def)
  have logs: "\<forall>g q. fst (record_event (bridge_deps B rc wall) g q) = Inr ()"
    using assms(12) by (auto simp: record_event_def bridge_deps_def split: prod.splits option.splits) (metis fst_conv option.distinct(1))
  have sorted: "front_ok P (bridge_deps B rc wall) DEFAULT_CONFIG t (PDict (sorted_items env)) (dw_now d) (dw_now d + minutes 5)"
    using front_ok_sorted[OF front(1) keys] w by blast
  obtain req' where unwrap: "unwrap_request (sorted_items env) = Inr req'" "request_body req' = Inr (PStr text)"
    using unwrapped_body[of env n "text"] keys by (auto simp: env envelope_dict_def)
  have five: "seconds 300 = minutes 5" by (simp add: seconds_def minutes_def)
  have "\<exists>cl k'. verify_envelope P (bridge_deps B rc wall) DEFAULT_CONFIG t (PDict (sorted_items env)) c k = (Inr cl, c', k') \<and>
      cl_iss cl = ag_issuer_iss a \<and> cl_sub cl = s \<and> cl_aud cl = recipient \<and> cl_scope cl = MSG_SCOPE \<and>
      cl_envelope_digest cl = p_sha256 P bytes \<and> cl_jti cl = j"
    by (rule issued_envelope_accepted[where n = 300 and D = "bridge_deps B rc wall", unfolded five,
          OF m(3) E(4)[unfolded E(7)] _ _ _ _ _ _ _ _ ikey(1) _ ikey(2) capability _ _ _ sorted fields mark logs])
      (use w j m(2) payload assms(9,10) generated_lookups(3)[OF assms(1,3)] assms(8) E(6) in
        \<open>simp_all add: issue_jti_def DEFAULT_CONFIG_def seconds_def minutes_def bridge_deps_def check_revocation_def\<close>)
  then show ?thesis using unwrap by blast
qed


lemma made_message_read:
  assumes "generate_agents gen [] = Inr agents" "new_bridge_config agents n es iss_sign = Inr E" "dget agents n = Some a"
    and "keys_held P a es iss_sign" "make_message P rnd compact_dumps (E\<lparr>bc_spiffe_id := s\<rparr>) recipient (PStr text) d = Inr env"
    and "wire_ok P rnd compact_dumps (E\<lparr>bc_spiffe_id := s\<rparr>) recipient text d env"
    and "bc_agents B = agents" "dget agents v = Some victim" "s = ag_spiffe_id victim"
    and "dw_now d \<le> ar_now ar" "ar_now ar \<le> dw_now d + seconds 270" "ar_payload ar = envelope_to_json compact_dumps env"
    and "br_replay b (s, ''n-'' @ dw_nonce_hex d) = None" "\<forall>f k. fst (rc f k) = None"
  shows "\<exists>c' k'. receive_message P B rc ar (br_replay b) (br_audit b) =
    (Inr \<lparr>ms_stamp = p_isoformat P (ar_stamp ar), ms_from = s, ms_name = v, ms_body = PStr text\<rparr>, c', k')"
proof -
  obtain cl c' k' req where v: "verify_envelope P (bridge_deps B rc (ar_wall ar)) DEFAULT_CONFIG (ar_now ar)
      (PDict (sorted_items env)) (br_replay b) (br_audit b) = (Inr cl, c', k')" "cl_sub cl = s"
    "unwrap_request (sorted_items env) = Inr req" "request_body req = Inr (PStr text)"
    using made_message_accepted[where c = "br_replay b" and k = "br_audit b" and wall = "ar_wall ar",
        OF assms(1-4) refl assms(5-7,10,11,13,14)] by blast
  have "p_json_loads P (ar_payload ar) = Inr (PDict (sorted_items env))"
    using assms(6,12) by (simp add: wire_ok_def json_faithful_def envelope_to_json_def sort_keys_dict)
  then have "envelope_from_json P (ar_payload ar) = Inr (sorted_items env)" by (simp add: envelope_from_json_def)
  moreover have "name_of_spiffe (bc_agents B) s = v" using generated_lookups(4)[OF assms(1,8)] assms(7,9) by simp
  ultimately show ?thesis using v by (simp add: receive_message_def)
qed

lemma made_message_received:
  assumes "generate_agents gen [] = Inr agents" "new_bridge_config agents n es iss_sign = Inr E" "dget agents n = Some a"
    and "keys_held P a es iss_sign" "make_message P rnd compact_dumps (E\<lparr>bc_spiffe_id := s\<rparr>) recipient (PStr text) d = Inr env"
    and "wire_ok P rnd compact_dumps (E\<lparr>bc_spiffe_id := s\<rparr>) recipient text d env"
    and "bc_agents B = agents" "dget agents v = Some victim" "s = ag_spiffe_id victim"
    and "dw_now d \<le> ar_now ar" "ar_now ar \<le> dw_now d + seconds 270" "ar_payload ar = envelope_to_json compact_dumps env"
    and "br_replay b (s, ''n-'' @ dw_nonce_hex d) = None" "\<forall>f k. fst (rc f k) = None"
  shows "br_inbox (receive_step P dumps B rc ar b) = append_inbox dumps
    (entry_of False \<lparr>ms_stamp = p_isoformat P (ar_stamp ar), ms_from = s, ms_name = v, ms_body = PStr text\<rparr>) (br_inbox b)"
  using made_message_read[OF assms(1-8) assms(9-14)] by (auto simp: receive_step_def)

lemma served_frame:
  assumes "length data \<le> MAX_FRAME" "concat segments = frame_bytes data" "so_serving st" "so_inbox st = []"
  shows "\<exists>f. fst (socket_receive (socket_serve (segments, reset) st)) = Some f \<and> fr_payload f = data"
proof -
  obtain c where "read_frame False (segments, reset) = (Inr (Some data), c)"
    using read_frame_some[of data "(segments, reset)" "[]" False] assms(1,2) by (auto simp: arriving_def)
  then show ?thesis using assms(3,4) by (simp add: socket_serve_def socket_receive_def)
qed

lemma send_message_Inr:
  assumes "send_message P rnd compact_dumps N cfg peer body to d w = (Inr (target, recipient), w')"
  shows "\<exists>env addr. make_message P rnd compact_dumps cfg recipient body d = Inr env \<and>
    spiffe_of (bc_agents cfg) (PStr target) = Inr recipient \<and>
    socket_send N addr (envelope_to_json compact_dumps env) w = (Inr (), w')"
  using assms by (auto simp: send_message_def split: sum.splits prod.splits dest!: bindE_Inr[THEN iffD1])

text \<open>C1. A message is understood: when \<open>send_message\<close> of an agent of the generated manifest reports success, it
  has handed one frame with its signed envelope to the network; however the bytes of that frame are cut
  into segments, the transport of the peer takes the frame out again, and the peer's bridge appends to
  its inbox exactly the text, under the name and the identity of the sender, at any time in the four and a half
  minutes after sending, provided the nonce is not in its cache and its audit log can be written.\<close>

theorem message_delivered:
  assumes "generate_agents gen [] = Inr agents" "new_bridge_config agents n es iss_sign = Inr A" "dget agents n = Some a"
    and "keys_held P a es iss_sign" "bc_agents B = agents"
    and "send_message P rnd compact_dumps N A peer (PStr text) to d w = (Inr (target, recipient), w')"
    and "make_message P rnd compact_dumps A recipient (PStr text) d = Inr env"
    and "wire_ok P rnd compact_dumps A recipient text d env"
    and "concat segments = frame_bytes (envelope_to_json compact_dumps env)" "so_serving st" "so_inbox st = []"
    and "dw_now d \<le> ar_now ar" "ar_now ar \<le> dw_now d + seconds 270"
    and "br_replay b (bc_spiffe_id A, ''n-'' @ dw_nonce_hex d) = None" "\<forall>f k. fst (rc f k) = None"
  shows "(\<exists>addr. socket_send N addr (envelope_to_json compact_dumps env) w = (Inr (), w')) \<and>
    (\<exists>f. fst (socket_receive (socket_serve (segments, reset) st)) = Some f \<and>
      br_inbox (receive_step P dumps B rc (ar\<lparr>ar_payload := fr_payload f\<rparr>) b) = append_inbox dumps
        (entry_of False \<lparr>ms_stamp = p_isoformat P (ar_stamp ar), ms_from = bc_spiffe_id A, ms_name = n,
           ms_body = PStr text\<rparr>) (br_inbox b))"
proof -
  have A: "bc_spiffe_id A = ag_spiffe_id a" using new_bridge_config_Inr[OF assms(2)] assms(3) by (metis option.inject)
  then have same: "A\<lparr>bc_spiffe_id := ag_spiffe_id a\<rparr> = A" by (cases A) simp
  obtain addr where addr: "socket_send N addr (envelope_to_json compact_dumps env) w = (Inr (), w')"
    using send_message_Inr[OF assms(6)] assms(7) by auto
  then have "length (envelope_to_json compact_dumps env) \<le> MAX_FRAME"
    by (auto simp: socket_send_def split: if_splits)
  from served_frame[OF this assms(9-11)] obtain f where
    f: "fst (socket_receive (socket_serve (segments, reset) st)) = Some f" "fr_payload f = envelope_to_json compact_dumps env" by blast
  have "br_inbox (receive_step P dumps B rc (ar\<lparr>ar_payload := fr_payload f\<rparr>) b) = append_inbox dumps
      (entry_of False \<lparr>ms_stamp = p_isoformat P (ar_stamp ar), ms_from = ag_spiffe_id a, ms_name = n, ms_body = PStr text\<rparr>)
      (br_inbox b)"
    using made_message_received[OF assms(1-4), of rnd compact_dumps "ag_spiffe_id a" recipient "text" d env B n a
        "ar\<lparr>ar_payload := fr_payload f\<rparr>" b rc dumps] assms(3,5,7,8,12-15) f(2)
    by (simp add: same A)
  then show ?thesis using addr f(1) A by auto
qed

text \<open>Nothing ties the signing key or the issuer to the sender: any agent of the manifest can send as any
  other, and its message is delivered under the other's name.\<close>

lemma insider_impersonates:
  assumes "generate_agents gen [] = Inr agents" "new_bridge_config agents n es iss_sign = Inr E" "dget agents n = Some a"
    and "keys_held P a es iss_sign" "bc_agents B = agents" "dget agents v = Some victim"
    and "make_message P rnd compact_dumps (E\<lparr>bc_spiffe_id := ag_spiffe_id victim\<rparr>) recipient (PStr text) d = Inr env"
    and "wire_ok P rnd compact_dumps (E\<lparr>bc_spiffe_id := ag_spiffe_id victim\<rparr>) recipient text d env"
    and "dw_now d \<le> ar_now ar" "ar_now ar \<le> dw_now d + seconds 270" "ar_payload ar = envelope_to_json compact_dumps env"
    and "br_replay b (ag_spiffe_id victim, ''n-'' @ dw_nonce_hex d) = None" "\<forall>f k. fst (rc f k) = None"
  shows "br_inbox (receive_step P dumps B rc ar b) = append_inbox dumps
    (entry_of False \<lparr>ms_stamp = p_isoformat P (ar_stamp ar), ms_from = ag_spiffe_id victim, ms_name = v,
       ms_body = PStr text\<rparr>) (br_inbox b)"
  by (rule made_message_received[OF assms(1-4,7,8,5,6) refl assms(9-13)])


section \<open>A concrete exchange\<close>

abbreviation mesh_names :: "(string \<times> string \<times> string) list" where
  "mesh_names \<equiv> [(''al'', ''pem'', ''pem''), (''bo'', ''pem'', ''pem'')]"

definition mesh_agents :: trust_manifest where
  "mesh_agents = map (\<lambda>n. (n, generated_agent n ''pem'' ''pem'')) [''al'', ''bo'']"

definition mesh_config :: "string \<Rightarrow> bridge_config" where
  "mesh_config n =
     (let a = generated_agent n ''pem'' ''pem'' in
      \<lparr>bc_name = n, bc_agents = mesh_agents, bc_spiffe_id = ag_spiffe_id a, bc_env_kid = ag_env_kid a,
       bc_issuer = \<lparr>is_iss = ag_issuer_iss a, is_kid = ag_issuer_kid a, is_default_ttl = minutes 5,
         is_clock_skew = seconds 30, is_policy = allow_all_policy\<rparr>,
       bc_env_sign = (\<lambda>m. [CHR 0x00]), bc_issuer_sign = (\<lambda>m. [CHR 0x00])\<rparr>)"

definition mesh_draws :: draws where
  "mesh_draws = \<lparr>dw_now = seconds 1000, dw_token_bytes = replicate 10 CHR 0x00, dw_id_bytes = replicate 10 CHR 0x00,
     dw_nonce_hex = replicate 32 CHR ''0'', dw_address_file = [None, Some ''h:1'']\<rparr>"

definition mesh_jti :: string where
  "mesh_jti = (case generate_uuidv7 id (seconds 1000) (replicate 10 CHR 0x00) of Inr j \<Rightarrow> j | Inl e \<Rightarrow> [])"

definition mesh_payload :: pyval where
  "mesh_payload = token_payload (bc_issuer (mesh_config ''al'')) ''spiffe://mesh.local/al'' ''spiffe://mesh.local/bo'' MSG_SCOPE
     970 1270 mesh_jti demo_digest None"

definition mesh_header :: pyval where
  "mesh_header = token_header (bc_issuer (mesh_config ''al''))"

definition mesh_dumps :: "pyval \<Rightarrow> string" where
  "mesh_dumps v = (if v = mesh_header then ''h'' else if v = mesh_payload then ''p'' else ''E'')"

definition mesh_message :: mail where
  "mesh_message = \<lparr>ms_stamp = ''t0'', ms_from = ''spiffe://mesh.local/al'', ms_name = ''al'', ms_body = PStr ''hi''\<rparr>"

definition mesh_platform :: "pyval \<Rightarrow> platform" where
  "mesh_platform v = meeting_platform\<lparr>p_json_loads :=
     (\<lambda>s. Inr (if s = ''h'' then mesh_header else if s = ''p'' then mesh_payload
             else if s = ''E'' then v else entry_of (s = ''T'') mesh_message))\<rparr>"

definition mesh_envelope :: "(string \<times> pyval) list" where
  "mesh_envelope = (case make_message (mesh_platform PNone) id mesh_dumps (mesh_config ''al'') ''spiffe://mesh.local/bo''
     (PStr ''hi'') mesh_draws of Inr env \<Rightarrow> env | Inl e \<Rightarrow> [])"

abbreviation bo_platform :: platform where
  "bo_platform \<equiv> mesh_platform (sort_keys (PDict mesh_envelope))"

lemma mesh_agents_generated: "generate_agents mesh_names [] = Inr mesh_agents"
  by (simp add: mesh_agents_def py_isalnum_def is_alnum_def in_range_def)

lemma mesh_config_new:
  "new_bridge_config mesh_agents ''al'' (\<lambda>m. [CHR 0x00]) (\<lambda>m. [CHR 0x00]) = Inr (mesh_config ''al'')"
  by (simp add: new_bridge_config_def mesh_agents_def mesh_config_def new_issuer_def generated_agent_def TRUST_DOMAIN_def
      minutes_def seconds_def Let_def) (simp add: pattern_defs)

lemma mesh_jti_generated: "generate_uuidv7 id (seconds 1000) (replicate 10 CHR 0x00) = Inr mesh_jti"
proof -
  obtain j where "generate_uuidv7 id (seconds 1000) (replicate 10 CHR 0x00) = Inr j"
    by (simp add: generate_uuidv7_def Let_def)
  then show ?thesis by (simp add: mesh_jti_def)
qed

lemma mesh_facts:
  "p_canon (mesh_platform v) x = Inr ''c''" "p_sha256 (mesh_platform v) b = demo_digest"
  "p_isoformat (mesh_platform v) = p_isoformat meeting_platform"
  "parse_rfc3339 (mesh_platform v) = parse_rfc3339 meeting_platform"
  by (simp_all add: mesh_platform_def meeting_platform_def issued_platform_def demo_platform_def parse_rfc3339_def fun_eq_iff)

lemma mesh_times: "int_timestamp id (seconds 970) = 970" "int_timestamp id (seconds 1270) = 1270"
  using int_timestamp_exact[OF id_seconds_exact, of "seconds 970"] int_timestamp_exact[OF id_seconds_exact, of "seconds 1270"]
  by (simp_all add: seconds_def)

definition mesh_token :: string where
  "mesh_token = signed_token mesh_dumps (\<lambda>m. [CHR 0x00]) mesh_header mesh_payload"

lemma mesh_issued:
  "issue id mesh_dumps (\<lambda>m. [CHR 0x00]) None (bc_issuer (mesh_config ''al'')) ''spiffe://mesh.local/al'' ''spiffe://mesh.local/bo''
     MSG_SCOPE demo_digest None None (seconds 1000) (replicate 10 CHR 0x00) None () = (Inr mesh_token, ())"
proof -
  have "request_ok ''spiffe://mesh.local/al'' ''spiffe://mesh.local/bo'' MSG_SCOPE demo_digest None (minutes 5) = Inr ()"
    by (simp add: request_ok_Inr demo_digest_ok minutes_def seconds_def MSG_SCOPE_def) (simp add: pattern_defs)
  moreover have "is_default_ttl (bc_issuer (mesh_config ''al'')) = minutes 5" "is_clock_skew (bc_issuer (mesh_config ''al'')) = seconds 30"
    "is_policy (bc_issuer (mesh_config ''al'')) = allow_all_policy"
    by (simp_all add: mesh_config_def Let_def)
  moreover have "seconds 1000 - seconds 30 = seconds 970" "seconds 970 + minutes 5 = seconds 1270"
    by (simp_all add: seconds_def minutes_def)
  ultimately show ?thesis
    by (simp add: issue_def allow_all_policy_def issue_jti_def mesh_jti_generated mesh_times emit_raw_def
        mesh_token_def mesh_header_def mesh_payload_def)
qed


lemma mesh_made:
  "make_message (mesh_platform v) id mesh_dumps (mesh_config ''al'') ''spiffe://mesh.local/bo'' (PStr ''hi'') mesh_draws =
     Inr mesh_envelope" (is ?made)
  "\<exists>sig. mesh_envelope = envelope_dict meeting_platform (payload_of ''al'' ''hi'')
     (message_fields (mesh_config ''al'') ''spiffe://mesh.local/bo'' mesh_token mesh_jti mesh_draws) demo_digest @ [(''signature'', sig)]"
proof -
  let ?f = "message_fields (mesh_config ''al'') ''spiffe://mesh.local/bo'' mesh_token mesh_jti mesh_draws"
  have payload: "\<exists>r. message_request ''al'' (PStr ''hi'') = Inr r \<and> mcp_request_to_payload r = payload_of ''al'' ''hi''"
    by (simp add: message_request_Inr mcp_request_to_payload_def payload_of_def MSG_SCOPE_def)
  have d: "dw_now mesh_draws = seconds 1000" "dw_token_bytes mesh_draws = replicate 10 CHR 0x00"
    "dw_id_bytes mesh_draws = replicate 10 CHR 0x00" by (simp_all add: mesh_draws_def)
  have c: "bc_name (mesh_config ''al'') = ''al''" "bc_env_sign (mesh_config ''al'') = (\<lambda>m. [CHR 0x00])"
    "bc_issuer_sign (mesh_config ''al'') = (\<lambda>m. [CHR 0x00])" "bc_spiffe_id (mesh_config ''al'') = ''spiffe://mesh.local/al''"
    by (simp_all add: mesh_config_def generated_agent_def TRUST_DOMAIN_def Let_def)
  have j: "generate_uuidv7 id (seconds 1000) (replicate 10 CHR 0x00) = Inr mesh_jti" "mesh_jti \<noteq> []"
    using mesh_jti_generated generated_uuid_wellformed_core[OF mesh_jti_generated] by auto
  have fields: "new_envelope_fields ?f = Inr ?f"
    using j(2) by (simp add: new_envelope_fields_def message_fields_def mesh_config_def generated_agent_def MSG_SCOPE_def
        mesh_token_def signed_token_def minutes_def seconds_def Let_def)
  have build: "build_envelope (mesh_platform u) (payload_of ''al'' ''hi'') ?f =
      Inr (envelope_dict meeting_platform (payload_of ''al'' ''hi'') ?f demo_digest)" for u
    by (simp add: build_envelope_def mesh_facts envelope_dict_def) (simp add: payload_of_def)
  have sign: "sign_envelope (mesh_platform u) (\<lambda>m. [CHR 0x00]) (envelope_dict meeting_platform (payload_of ''al'' ''hi'') ?f demo_digest) =
      Inr (envelope_dict meeting_platform (payload_of ''al'' ''hi'') ?f demo_digest @ [(''signature'', PStr (b64url [CHR 0x00]))])" for u
    by (simp add: sign_envelope_def envelope_dict_unsigned sign_body_def mesh_facts)
  have made: "make_message (mesh_platform u) id mesh_dumps (mesh_config ''al'') ''spiffe://mesh.local/bo'' (PStr ''hi'') mesh_draws =
      Inr (envelope_dict meeting_platform (payload_of ''al'' ''hi'') ?f demo_digest @ [(''signature'', PStr (b64url [CHR 0x00]))])" for u
    using payload by (auto simp: make_message_def Let_def c d mesh_facts mesh_issued j fields build sign)
  then show ?made by (simp add: mesh_envelope_def)
  show "\<exists>sig. mesh_envelope = envelope_dict meeting_platform (payload_of ''al'' ''hi'') ?f demo_digest @ [(''signature'', sig)]"
    by (simp add: mesh_envelope_def made)
qed

lemma mesh_envelope_text: "mesh_dumps (sort_keys (PDict mesh_envelope)) = ''E''"
proof -
  obtain sig where env: "mesh_envelope = envelope_dict meeting_platform (payload_of ''al'' ''hi'')
      (message_fields (mesh_config ''al'') ''spiffe://mesh.local/bo'' mesh_token mesh_jti mesh_draws) demo_digest @ [(''signature'', sig)]"
    using mesh_made(2) by blast
  have "has_key mesh_envelope ''nonce''" "distinct (map fst mesh_envelope)"
    by (simp_all add: env envelope_dict_def has_key_def)
  then have "has_key (sorted_items mesh_envelope) ''nonce''" by (simp add: has_key_def map_of_sorted_items)
  then have "sort_keys (PDict mesh_envelope) \<noteq> mesh_header" "sort_keys (PDict mesh_envelope) \<noteq> mesh_payload"
    by (auto simp: sort_keys_dict mesh_header_def token_header_def mesh_payload_def token_payload_def has_key_def)
  then show ?thesis by (simp add: mesh_dumps_def)
qed


lemma mesh_wire_ok:
  "wire_ok bo_platform id mesh_dumps (mesh_config ''al'') ''spiffe://mesh.local/bo'' ''hi'' mesh_draws mesh_envelope"
proof -
  obtain sig where env: "mesh_envelope = envelope_dict meeting_platform (payload_of ''al'' ''hi'')
      (message_fields (mesh_config ''al'') ''spiffe://mesh.local/bo'' mesh_token mesh_jti mesh_draws) demo_digest @ [(''signature'', sig)]"
    using mesh_made(2) by blast
  have c: "bc_name (mesh_config ''al'') = ''al''" "bc_spiffe_id (mesh_config ''al'') = ''spiffe://mesh.local/al''"
    by (simp_all add: mesh_config_def generated_agent_def TRUST_DOMAIN_def Let_def)
  have d: "dw_now mesh_draws = seconds 1000" "dw_token_bytes mesh_draws = replicate 10 CHR 0x00"
    "dw_nonce_hex mesh_draws = replicate 32 CHR ''0''" by (simp_all add: mesh_draws_def)
  have token: "utf8_length mesh_token \<le> MAX_TOKEN_BYTES"
    by (simp add: mesh_token_def signed_token_def mesh_dumps_def b64_char_def utf8_length_def MAX_TOKEN_BYTES_def Let_def)
  have "mesh_payload \<noteq> mesh_header" by (simp add: mesh_payload_def mesh_header_def token_header_def token_payload_def)
  then have json: "json_faithful bo_platform mesh_dumps mesh_header" "json_faithful bo_platform mesh_dumps mesh_payload"
    "json_faithful bo_platform mesh_dumps (sort_keys (PDict mesh_envelope))"
    using mesh_envelope_text by (simp_all add: json_faithful_def mesh_platform_def) (simp_all add: mesh_dumps_def)
  have nonce: "nonce_re (''n-'' @ replicate 32 CHR ''0'')" by (simp add: pattern_defs list_all_iff)
  have times: "parse_rfc3339 bo_platform (PStr (p_isoformat bo_platform (seconds 1000))) = Inr (seconds 1000)"
    "parse_rfc3339 bo_platform (PStr (p_isoformat bo_platform (seconds 1000 + minutes 5))) = Inr (seconds 1000 + minutes 5)"
    by (simp_all add: mesh_facts meeting_platform_def parse_rfc3339_def astimezone_utc_def datetime_min_def datetime_max_def
        seconds_def minutes_def)
  have "\<forall>cap. map_of mesh_envelope ''capability_token'' = Some (PStr cap) \<longrightarrow> utf8_length cap \<le> MAX_TOKEN_BYTES"
    using token by (simp add: env envelope_dict_def message_fields_def)
  moreover have "seconds 30 \<le> seconds 1000" "seconds 1000 + minutes 5 < 2 ^ 52"
    "(seconds 1000 - seconds 30) div 1000000 = 970" by (simp_all add: seconds_def minutes_def)
  ultimately show ?thesis
    using json nonce times id_seconds_exact mesh_jti_generated
    by (simp add: wire_ok_def canon_ignores_order_def mesh_facts c d) (simp add: mesh_header_def mesh_payload_def)
qed

definition quiet_net :: "(unit, string list) tcp" where
  "quiet_net = \<lparr>tc_dial = (\<lambda>t w. (Inr (), w)), tc_sendall = (\<lambda>c bytes w. (Inr (), w @ [bytes])), tc_close = (\<lambda>c w. w)\<rparr>"

definition bo_bridge :: "unit bridge" where
  "bo_bridge = \<lparr>br_replay = mem_empty, br_audit = (), br_inbox = None\<rparr>"

definition mesh_arrival :: arrival where
  "mesh_arrival = \<lparr>ar_payload = ''E'', ar_now = seconds 1001, ar_wall = seconds 1001, ar_stamp = seconds 1000\<rparr>"

lemma mesh_keys_held: "keys_held bo_platform (generated_agent ''al'' ''pem'' ''pem'') (\<lambda>m. [CHR 0x00]) (\<lambda>m. [CHR 0x00])"
  by (auto simp: keys_held_def generated_agent_def key_pair_def mesh_platform_def meeting_platform_def issued_platform_def
      demo_platform_def)

lemma mesh_sent:
  "send_message bo_platform id mesh_dumps quiet_net (mesh_config ''al'') ''bo'' (PStr ''hi'') (PStr ''BO'') mesh_draws [] =
     (Inr (''bo'', ''spiffe://mesh.local/bo''), [frame_bytes ''E''])"
proof -
  have "py_lower ''BO'' = ''bo''" "py_lower ''al'' = ''al''" "py_lower ''bo'' = ''bo''" by code_simp+
  then have "resolve_name mesh_agents (PStr ''BO'') = Inr ''bo''"
    by (simp add: resolve_name_def mesh_agents_def)
  moreover have "spiffe_of mesh_agents (PStr ''bo'') = Inr ''spiffe://mesh.local/bo''"
    by (simp add: spiffe_of_def resolve_name_def mesh_agents_def generated_agent_def TRUST_DOMAIN_def)
  moreover have "bc_agents (mesh_config ''al'') = mesh_agents" by (simp add: mesh_config_def Let_def)
  moreover have "peer_addr (dw_address_file mesh_draws) = Inr ''h:1''"
    by (simp add: mesh_draws_def strip_space_def is_space_def)
  moreover have "parse_dest ''h:1'' = Inr (''h'', 1)" by code_simp
  then have "socket_send quiet_net ''h:1'' ''E'' [] = (Inr (), [frame_bytes ''E''])"
    by (simp add: socket_send_def quiet_net_def MAX_FRAME_def)
  ultimately show ?thesis
    using mesh_envelope_text by (simp add: send_message_def mesh_made(1) envelope_to_json_def)
qed


theorem message_delivered_witness:
  "snd (send_message bo_platform id mesh_dumps quiet_net (mesh_config ''al'') ''bo'' (PStr ''hi'') (PStr ''BO'') mesh_draws []) =
     [frame_bytes ''E''] \<and>
   (\<exists>f. fst (socket_receive (socket_serve ([frame_bytes ''E''], False)
        \<lparr>so_source = ''bo'', so_inbox = [], so_serving = True\<rparr>)) = Some f \<and>
      br_inbox (receive_step bo_platform mesh_dumps (mesh_config ''bo'') (\<lambda>f k. (None, k))
        (mesh_arrival\<lparr>ar_payload := fr_payload f\<rparr>) bo_bridge) =
      append_inbox mesh_dumps (entry_of False mesh_message) None)"
proof -
  have a: "dget mesh_agents ''al'' = Some (generated_agent ''al'' ''pem'' ''pem'')" "bc_agents (mesh_config ''bo'') = mesh_agents"
    by (simp_all add: mesh_agents_def mesh_config_def Let_def)
  have wire: "envelope_to_json mesh_dumps mesh_envelope = ''E''"
    using mesh_envelope_text by (simp add: envelope_to_json_def)
  have t: "dw_now mesh_draws \<le> ar_now mesh_arrival" "ar_now mesh_arrival \<le> dw_now mesh_draws + seconds 270"
    by (simp_all add: mesh_draws_def mesh_arrival_def seconds_def)
  have m: "\<lparr>ms_stamp = p_isoformat bo_platform (ar_stamp mesh_arrival), ms_from = bc_spiffe_id (mesh_config ''al''),
      ms_name = ''al'', ms_body = PStr ''hi''\<rparr> = mesh_message"
    by (simp add: mesh_message_def mesh_facts mesh_arrival_def meeting_platform_def mesh_config_def generated_agent_def
        TRUST_DOMAIN_def Let_def)
  have "br_replay bo_bridge (bc_spiffe_id (mesh_config ''al''), ''n-'' @ dw_nonce_hex mesh_draws) = None" "br_inbox bo_bridge = None"
    by (simp_all add: bo_bridge_def mem_empty_def)
  then show ?thesis
    using message_delivered[OF mesh_agents_generated mesh_config_new a(1) mesh_keys_held a(2) mesh_sent mesh_made(1) mesh_wire_ok,
        of "[frame_bytes ''E'']" "\<lparr>so_source = ''bo'', so_inbox = [], so_serving = True\<rparr>" mesh_arrival bo_bridge
        "\<lambda>f k. (None, k)" False mesh_dumps] t
    by (simp add: wire mesh_sent m)
qed

text \<open>The text of an inbox entry before and after it was read.\<close>

definition entry_dumps :: "pyval \<Rightarrow> string" where
  "entry_dumps e = (if e = entry_of True mesh_message then ''T'' else ''F'')"

theorem inbox_exactly_once_witness:
  "\<exists>out b' rest. bridge_run bo_platform entry_dumps (mesh_config ''bo'') (\<lambda>f k. (None, k))
      [Arrive mesh_arrival, ReadInbox] bo_bridge = (out, b') \<and>
    peek_unread bo_platform (br_inbox b') = Inr (map (entry_of False) rest) \<and>
    out @ map (entry_of True) rest = [entry_of True mesh_message]"
proof -
  let ?rc = "\<lambda>(f :: audit_fields) (k :: unit). (None :: exn option, k)"
  let ?evs = "[Arrive mesh_arrival, ReadInbox]"
  have al: "dget mesh_agents ''al'' = Some (generated_agent ''al'' ''pem'' ''pem'')" "bc_agents (mesh_config ''bo'') = mesh_agents"
    by (simp_all add: mesh_agents_def mesh_config_def Let_def)
  have s: "(mesh_config ''al'')\<lparr>bc_spiffe_id := ag_spiffe_id (generated_agent ''al'' ''pem'' ''pem'')\<rparr> = mesh_config ''al''"
    by (simp add: mesh_config_def Let_def)
  have t: "dw_now mesh_draws \<le> ar_now mesh_arrival" "ar_now mesh_arrival \<le> dw_now mesh_draws + seconds 270"
    "ar_payload mesh_arrival = envelope_to_json mesh_dumps mesh_envelope"
    using mesh_envelope_text by (simp_all add: mesh_draws_def mesh_arrival_def seconds_def envelope_to_json_def)
  have m: "\<lparr>ms_stamp = p_isoformat bo_platform (ar_stamp mesh_arrival),
      ms_from = ag_spiffe_id (generated_agent ''al'' ''pem'' ''pem''), ms_name = ''al'', ms_body = PStr ''hi''\<rparr> = mesh_message"
    by (simp add: mesh_message_def mesh_facts mesh_arrival_def meeting_platform_def generated_agent_def TRUST_DOMAIN_def)
  have b: "br_replay bo_bridge k = None" "br_inbox bo_bridge = None" for k by (simp_all add: bo_bridge_def mem_empty_def)
  have made: "make_message bo_platform id mesh_dumps ((mesh_config ''al'')\<lparr>bc_spiffe_id := ag_spiffe_id (generated_agent ''al'' ''pem'' ''pem'')\<rparr>)
      ''spiffe://mesh.local/bo'' (PStr ''hi'') mesh_draws = Inr mesh_envelope"
    "wire_ok bo_platform id mesh_dumps ((mesh_config ''al'')\<lparr>bc_spiffe_id := ag_spiffe_id (generated_agent ''al'' ''pem'' ''pem'')\<rparr>)
      ''spiffe://mesh.local/bo'' ''hi'' mesh_draws mesh_envelope"
    unfolding s by (rule mesh_made(1) mesh_wire_ok)+
  obtain c k where "receive_message bo_platform (mesh_config ''bo'') ?rc mesh_arrival (br_replay bo_bridge) (br_audit bo_bridge) =
      (Inr mesh_message, c, k)"
    using made_message_read[OF mesh_agents_generated mesh_config_new al(1) mesh_keys_held made al(2) al(1) refl
        t b(1), of ?rc] unfolding m by auto
  then have mails: "mails bo_platform (mesh_config ''bo'') ?rc ?evs bo_bridge = [(mesh_arrival, mesh_message)]"
    by (simp add: mails_def)
  have "entry_of True mesh_message \<noteq> entry_of False mesh_message" by (simp add: entry_of_def)
  then have ok: "mail_ok bo_platform entry_dumps mesh_message"
    by (simp add: mail_ok_def all_bool_eq Let_def entry_dumps_def mesh_platform_def strip_space_def is_space_def is_break_def)
  obtain out b' where run: "bridge_run bo_platform entry_dumps (mesh_config ''bo'') ?rc ?evs bo_bridge = (out, b')"
    by (metis surj_pair)
  from inbox_exactly_once[OF b(2) run] mails ok run show ?thesis by auto
qed

end
