(* ===== verification/AuditStream.thy ===== *)
theory AuditStream
  imports AuditLog Eclipse
begin

text \<open>
  What is done with audit events besides storing them: the threshold alerts of \<open>alerting.py\<close>, with the
  sink that feeds them, and the filters of \<open>audit_query.py\<close>. The rounding of a float is the parameter
  \<open>rnd\<close>, the callback of the operator \<open>on_alert\<close> a function on a state that may raise.
\<close>

section \<open>Alerts\<close>

definition REPEATED_VALIDATION_FAILURE :: string where
  "REPEATED_VALIDATION_FAILURE = ''repeated_validation_failure''"

definition ABNORMAL_ISSUANCE_VOLUME :: string where
  "ABNORMAL_ISSUANCE_VOLUME = ''abnormal_issuance_volume''"

record alert =
  al_kind :: string
  al_identity :: string
  al_count :: nat
  al_window_seconds :: int
  al_triggered_at :: datetime

record threshold_policy =
  tp_window :: timedelta
  tp_repeated_deny :: int
  tp_issuance_volume :: int

definition threshold_policy_ok :: "threshold_policy \<Rightarrow> exn + unit" where
  "threshold_policy_ok p =
     guards [(\<not> tp_window p \<le> 0, std_error ''ValueError''), (\<not> tp_repeated_deny p < 1, std_error ''ValueError''),
             (\<not> tp_issuance_volume p < 1, std_error ''ValueError'')]"

type_synonym alert_buckets = "string \<rightharpoonup> datetime list"

record alert_state =
  as_deny :: alert_buckets
  as_issuance :: alert_buckets

text \<open>The part that is the same for both event types: \<open>setdefault\<close>, \<open>_purge\<close>, \<open>append\<close>, and the alert
  that clears the bucket.\<close>

definition feed_bucket ::
  "(rat \<Rightarrow> rat) \<Rightarrow> threshold_policy \<Rightarrow> string \<Rightarrow> int \<Rightarrow> string \<Rightarrow> datetime \<Rightarrow> alert_buckets \<Rightarrow> alert list \<times> alert_buckets" where
  "feed_bucket rnd p kind threshold sender ts b =
     (let q = trim_before (ts - tp_window p) (case b sender of None \<Rightarrow> [] | Some q \<Rightarrow> q) @ [ts] in
      if int (length q) \<ge> threshold then
        ([\<lparr>al_kind = kind, al_identity = sender, al_count = length q,
           al_window_seconds = trunc (rnd (of_int (tp_window p) / 1000000)), al_triggered_at = ts\<rparr>], b(sender \<mapsto> []))
      else ([], b(sender \<mapsto> q)))"

definition observe_event ::
  "(rat \<Rightarrow> rat) \<Rightarrow> platform \<Rightarrow> threshold_policy \<Rightarrow> audit_event \<Rightarrow> alert_state \<Rightarrow> (exn + alert list) \<times> alert_state" where
  "observe_event rnd P p ev st =
     (if ev_timestamp ev = [] then (Inr [], st)
      else case parse_rfc3339 P (PStr (ev_timestamp ev)) of
        Inl e \<Rightarrow> (Inl e, st)
      | Inr ts \<Rightarrow>
          if ts - tp_window p < datetime_min then (Inl (std_error ''OverflowError''), st)
          else
            let (alerts1, st1) =
              (if ev_event_type ev = ''envelope.verify'' \<and> ev_outcome ev = ''deny'' \<and> ev_sender ev \<noteq> [] then
                 case feed_bucket rnd p REPEATED_VALIDATION_FAILURE (tp_repeated_deny p) (ev_sender ev) ts (as_deny st) of
                   (a, b) \<Rightarrow> (a, st\<lparr>as_deny := b\<rparr>)
               else ([], st));
              (alerts2, st2) =
              (if ev_event_type ev = ''capability.issue'' \<and> ev_outcome ev = ''allow'' \<and> ev_sender ev \<noteq> [] then
                 case feed_bucket rnd p ABNORMAL_ISSUANCE_VOLUME (tp_issuance_volume p) (ev_sender ev) ts (as_issuance st1) of
                   (a, b) \<Rightarrow> (a, st1\<lparr>as_issuance := b\<rparr>)
               else ([], st1))
            in (Inr (alerts1 @ alerts2), st2))"

text \<open>\<open>AlertingAuditSink\<close>: the state is that of the inner sink, of the policy and of the operator.\<close>

fun call_all :: "('a \<Rightarrow> 'o \<Rightarrow> exn option \<times> 'o) \<Rightarrow> 'a list \<Rightarrow> 'o \<Rightarrow> exn option \<times> 'o" where
  "call_all on_alert [] w = (None, w)"
| "call_all on_alert (a # as) w =
     (case on_alert a w of (Some e, w') \<Rightarrow> (Some e, w') | (None, w') \<Rightarrow> call_all on_alert as w')"

definition alerting_tail_hash :: "('s \<Rightarrow> exn + string) \<Rightarrow> 's \<times> alert_state \<times> 'o \<Rightarrow> exn + string" where
  "alerting_tail_hash tail_hash = (\<lambda>(s, st, w). tail_hash s)"

definition alerting_append ::
  "(rat \<Rightarrow> rat) \<Rightarrow> platform \<Rightarrow> threshold_policy \<Rightarrow> (alert \<Rightarrow> 'o \<Rightarrow> exn option \<times> 'o) \<Rightarrow>
   (audit_event \<Rightarrow> 's \<Rightarrow> exn option \<times> 's) \<Rightarrow> audit_event \<Rightarrow> 's \<times> alert_state \<times> 'o \<Rightarrow> exn option \<times> 's \<times> alert_state \<times> 'o" where
  "alerting_append rnd P p on_alert push ev = (\<lambda>(s, st, w).
     case push ev s of
       (Some e, s') \<Rightarrow> (Some e, s', st, w)
     | (None, s') \<Rightarrow>
         (case observe_event rnd P p ev st of
            (Inl e, st') \<Rightarrow> (Some e, s', st', w)
          | (Inr alerts, st') \<Rightarrow> (case call_all on_alert alerts w of (r, w') \<Rightarrow> (r, s', st', w'))))"


section \<open>Queries\<close>

definition allowed_events :: "audit_event list \<Rightarrow> audit_event list" where
  "allowed_events = filter (\<lambda>e. ev_outcome e = ''allow'')"

definition denied_events :: "audit_event list \<Rightarrow> audit_event list" where
  "denied_events = filter (\<lambda>e. ev_outcome e = ''deny'')"

definition with_event_type :: "string \<Rightarrow> audit_event list \<Rightarrow> audit_event list" where
  "with_event_type t = filter (\<lambda>e. ev_event_type e = t)"

definition with_reason_code :: "string \<Rightarrow> audit_event list \<Rightarrow> audit_event list" where
  "with_reason_code c = filter (\<lambda>e. ev_reason_code e = c)"

definition with_sender :: "string \<Rightarrow> audit_event list \<Rightarrow> audit_event list" where
  "with_sender s = filter (\<lambda>e. ev_sender e = s)"

definition with_recipient :: "string \<Rightarrow> audit_event list \<Rightarrow> audit_event list" where
  "with_recipient r = filter (\<lambda>e. ev_recipient e = r)"

definition with_message_id :: "string \<Rightarrow> audit_event list \<Rightarrow> audit_event list" where
  "with_message_id m = filter (\<lambda>e. ev_message_id e = m)"

definition replays :: "audit_event list \<Rightarrow> audit_event list" where
  "replays = with_reason_code ''replay_detected''"

definition cross_tenant_attempts :: "audit_event list \<Rightarrow> audit_event list" where
  "cross_tenant_attempts = filter (\<lambda>e.
     case (trust_domain_of (ev_sender e), trust_domain_of (ev_recipient e)) of
       (Some s, Some r) \<Rightarrow> s \<noteq> [] \<and> r \<noteq> [] \<and> s \<noteq> r
     | _ \<Rightarrow> False)"

definition starts_with :: "string \<Rightarrow> string \<Rightarrow> bool" where
  "starts_with p s \<longleftrightarrow> take (length p) s = p"

definition break_glass_attempts :: "audit_event list \<Rightarrow> audit_event list" where
  "break_glass_attempts = filter (\<lambda>e.
     starts_with ''break_glass.'' (ev_event_type e) \<or> starts_with ''break_glass_'' (ev_reason_code e))"


section \<open>The specification of an alert\<close>

text \<open>The times of one identity alone: an alert whenever the last window holds \<open>n\<close> events that no
  earlier alert counted.\<close>

fun bursts :: "timedelta \<Rightarrow> int \<Rightarrow> datetime list \<Rightarrow> datetime list \<Rightarrow> (datetime \<times> nat) list" where
  "bursts width n q [] = []"
| "bursts width n q (t # ts) =
     (let q' = filter (\<lambda>u. t - width \<le> u) q @ [t] in
      if n \<le> int (length q') then (t, length q') # bursts width n [] ts else bursts width n q' ts)"

text \<open>Every alert counts events of its window, and no window with \<open>n\<close> events passes without an alert.\<close>

lemma bursts_sound:
  assumes "0 \<le> width" "sorted (q @ ts)" "(t, c) \<in> set (bursts width n q ts)"
  shows "n \<le> int c \<and> c \<le> length (filter (\<lambda>u. t - width \<le> u \<and> u \<le> t) (q @ ts))"
  using assms(2,3)
proof (induction ts arbitrary: q)
  case (Cons s ts)
  let ?q = "filter (\<lambda>u. s - width \<le> u) q @ [s]"
  have sorted: "sorted (?q @ ts)" "sorted ([] @ ts)" using Cons.prems(1) by (auto simp: sorted_append sorted_wrt_filter)
  have grow: "length (filter p (?q @ ts)) \<le> length (filter p (q @ s # ts))" "length (filter p ([] @ ts)) \<le> length (filter p (q @ s # ts))" for p
    by (simp_all add: length_filter_le) (metis (no_types, lifting) filter_filter length_filter_le conj_commute filter_cong)+
  show ?case
  proof (cases "n \<le> int (length ?q)")
    case True
    then consider "t = s \<and> c = length ?q" | "(t, c) \<in> set (bursts width n [] ts)" using Cons.prems(2) by (auto simp: Let_def)
    then show ?thesis
    proof cases
      case 1
      have "filter (\<lambda>u. s - width \<le> u \<and> u \<le> s) q = filter (\<lambda>u. s - width \<le> u) q"
        using Cons.prems(1) by (intro filter_cong) (auto simp: sorted_append)
      then show ?thesis using 1 True assms(1) by simp
    next
      case 2
      then show ?thesis using Cons.IH[OF sorted(2) 2] grow(2) order_trans by blast
    qed
  next
    case False
    then have "(t, c) \<in> set (bursts width n ?q ts)" using Cons.prems(2) by (simp add: Let_def)
    then show ?thesis using Cons.IH[OF sorted(1)] grow(1) order_trans by blast
  qed
qed simp

lemma bursts_complete:
  assumes "sorted (q @ ts)" "int (length q) < n"
    and "n \<le> int (length (filter (\<lambda>u. a \<le> u) q)) + int (length (filter (\<lambda>u. a \<le> u \<and> u \<le> a + width) ts))"
  shows "\<exists>(t, c)\<in>set (bursts width n q ts). a \<le> t \<and> t \<le> a + width"
  using assms
proof (induction ts arbitrary: q)
  case Nil
  then show ?case using length_filter_le[of "\<lambda>u. a \<le> u" q] by simp
next
  case (Cons t ts)
  let ?q = "filter (\<lambda>u. t - width \<le> u) q @ [t]"
  have sorted: "sorted (?q @ ts)" "sorted ([] @ ts)" and later: "\<forall>u\<in>set ts. t \<le> u" and earlier: "\<forall>u\<in>set q. u \<le> t"
    using Cons.prems(1) by (auto simp: sorted_append sorted_wrt_filter)
  have small: "int (length (filter (\<lambda>u. a \<le> u) q)) < n"
    using length_filter_le[of "\<lambda>u. a \<le> u" q] Cons.prems(2) by linarith
  show ?case
  proof (cases "t \<le> a + width")
    case False
    then have "filter (\<lambda>u. a \<le> u \<and> u \<le> a + width) (t # ts) = []" using later by (force simp: filter_empty_conv)
    then show ?thesis using Cons.prems(3) small by simp
  next
    case in_time: True
    show ?thesis
    proof (cases "a \<le> t")
      case False
      then have none: "filter (\<lambda>u. a \<le> u) q = []" "filter (\<lambda>u. a \<le> u) ?q = []" using earlier by (force simp: filter_empty_conv)+
      show ?thesis
      proof (cases "n \<le> int (length ?q)")
        case True
        moreover have "0 < n" using Cons.prems(2) by linarith
        ultimately show ?thesis using Cons.IH[OF sorted(2)] Cons.prems(3) none False by (auto simp: Let_def)
      next
        case False
        then show ?thesis using Cons.IH[OF sorted(1)] Cons.prems(3) none \<open>\<not> a \<le> t\<close> by (auto simp: Let_def)
      qed
    next
      case True
      show ?thesis
      proof (cases "n \<le> int (length ?q)")
        case True
        then show ?thesis using in_time \<open>a \<le> t\<close> by (auto simp: Let_def)
      next
        case False
        have "filter (\<lambda>u. a \<le> u) ?q = filter (\<lambda>u. a \<le> u) q @ [t]"
          using in_time True by (auto intro: filter_cong)
        then show ?thesis using Cons.IH[OF sorted(1)] Cons.prems(3) False True in_time by (auto simp: Let_def)
      qed
    qed
  qed
qed


section \<open>What alerts mean\<close>

definition event_kind :: "audit_event \<Rightarrow> string option" where
  "event_kind ev =
     (if ev_event_type ev = ''envelope.verify'' \<and> ev_outcome ev = ''deny'' \<and> ev_sender ev \<noteq> []
      then Some REPEATED_VALIDATION_FAILURE
      else if ev_event_type ev = ''capability.issue'' \<and> ev_outcome ev = ''allow'' \<and> ev_sender ev \<noteq> []
      then Some ABNORMAL_ISSUANCE_VOLUME
      else None)"

definition event_time :: "platform \<Rightarrow> audit_event \<Rightarrow> datetime" where
  "event_time P ev = (case parse_rfc3339 P (PStr (ev_timestamp ev)) of Inr t \<Rightarrow> t | Inl e \<Rightarrow> 0)"

definition readable_time :: "platform \<Rightarrow> threshold_policy \<Rightarrow> audit_event \<Rightarrow> bool" where
  "readable_time P p ev \<longleftrightarrow> ev_timestamp ev \<noteq> [] \<and> parse_rfc3339 P (PStr (ev_timestamp ev)) = Inr (event_time P ev) \<and>
     datetime_min \<le> event_time P ev - tp_window p"

definition threshold_of :: "threshold_policy \<Rightarrow> string \<Rightarrow> int" where
  "threshold_of p kind = (if kind = REPEATED_VALIDATION_FAILURE then tp_repeated_deny p else tp_issuance_volume p)"

definition bucket_of :: "string \<Rightarrow> alert_state \<Rightarrow> alert_buckets" where
  "bucket_of kind st = (if kind = REPEATED_VALIDATION_FAILURE then as_deny st else as_issuance st)"

definition queued :: "string \<Rightarrow> string \<Rightarrow> alert_state \<Rightarrow> datetime list" where
  "queued kind s st = (case bucket_of kind st s of None \<Rightarrow> [] | Some q \<Rightarrow> q)"

definition times_of :: "platform \<Rightarrow> string \<Rightarrow> string \<Rightarrow> audit_event list \<Rightarrow> datetime list" where
  "times_of P kind s evs = map (event_time P) (filter (\<lambda>ev. event_kind ev = Some kind \<and> ev_sender ev = s) evs)"

fun observe_all :: "(rat \<Rightarrow> rat) \<Rightarrow> platform \<Rightarrow> threshold_policy \<Rightarrow> audit_event list \<Rightarrow> alert_state \<Rightarrow> alert list" where
  "observe_all rnd P p [] st = []"
| "observe_all rnd P p (ev # evs) st =
     (case observe_event rnd P p ev st of
        (Inl e, st') \<Rightarrow> observe_all rnd P p evs st'
      | (Inr alerts, st') \<Rightarrow> alerts @ observe_all rnd P p evs st')"

definition no_alerts :: alert_state where
  "no_alerts = \<lparr>as_deny = (\<lambda>s. None), as_issuance = (\<lambda>s. None)\<rparr>"

lemma kinds_differ: "ABNORMAL_ISSUANCE_VOLUME \<noteq> REPEATED_VALIDATION_FAILURE"
  by (simp add: ABNORMAL_ISSUANCE_VOLUME_def REPEATED_VALIDATION_FAILURE_def)

lemma event_kind_cases: "event_kind ev = Some kind \<Longrightarrow> kind \<in> {REPEATED_VALIDATION_FAILURE, ABNORMAL_ISSUANCE_VOLUME}"
  by (auto simp: event_kind_def split: if_splits)

definition set_bucket :: "string \<Rightarrow> alert_buckets \<Rightarrow> alert_state \<Rightarrow> alert_state" where
  "set_bucket kind b st = (if kind = REPEATED_VALIDATION_FAILURE then st\<lparr>as_deny := b\<rparr> else st\<lparr>as_issuance := b\<rparr>)"

lemma observe_event_kind:
  assumes "readable_time P p ev"
  shows "observe_event rnd P p ev st =
    (case event_kind ev of
       None \<Rightarrow> (Inr [], st)
     | Some k \<Rightarrow> (case feed_bucket rnd p k (threshold_of p k) (ev_sender ev) (event_time P ev) (bucket_of k st) of
                   (a, b) \<Rightarrow> (Inr a, set_bucket k b st)))"
proof -
  have time: "parse_rfc3339 P (PStr (ev_timestamp ev)) = Inr (event_time P ev)" "ev_timestamp ev \<noteq> []"
    "\<not> event_time P ev - tp_window p < datetime_min"
    using assms by (simp_all add: readable_time_def)
  consider "ev_event_type ev = ''envelope.verify'' \<and> ev_outcome ev = ''deny'' \<and> ev_sender ev \<noteq> []"
    | "ev_event_type ev = ''capability.issue'' \<and> ev_outcome ev = ''allow'' \<and> ev_sender ev \<noteq> []"
    | "\<not> (ev_event_type ev = ''envelope.verify'' \<and> ev_outcome ev = ''deny'' \<and> ev_sender ev \<noteq> [])"
      "\<not> (ev_event_type ev = ''capability.issue'' \<and> ev_outcome ev = ''allow'' \<and> ev_sender ev \<noteq> [])"
    by blast
  then show ?thesis
  proof cases
    case 1
    then show ?thesis
      by (simp add: observe_event_def time event_kind_def threshold_of_def bucket_of_def set_bucket_def case_prod_beta')
  next
    case 2
    then show ?thesis using kinds_differ
      by (simp add: observe_event_def time event_kind_def threshold_of_def bucket_of_def set_bucket_def case_prod_beta')
  next
    case 3
    then show ?thesis
      unfolding observe_event_def event_kind_def by (simp only: time if_False sum.case option.case Let_def prod.case) simp
  qed
qed

text \<open>One event and one identity: an event of another kind or identity changes nothing.\<close>

lemma queued_set:
  assumes "kind \<in> {REPEATED_VALIDATION_FAILURE, ABNORMAL_ISSUANCE_VOLUME}" "k \<in> {REPEATED_VALIDATION_FAILURE, ABNORMAL_ISSUANCE_VOLUME}"
  shows "queued kind s (set_bucket k ((bucket_of k st)(s' \<mapsto> q)) st) = (if kind = k \<and> s = s' then q else queued kind s st)"
  using assms kinds_differ by (auto simp: queued_def set_bucket_def bucket_of_def)

lemma observe_event_hit:
  assumes "readable_time P p ev" "event_kind ev = Some kind" "sorted (queued kind (ev_sender ev) st)"
  defines "q \<equiv> filter (\<lambda>u. event_time P ev - tp_window p \<le> u) (queued kind (ev_sender ev) st) @ [event_time P ev]"
  shows "observe_event rnd P p ev st =
    (if threshold_of p kind \<le> int (length q)
     then (Inr [\<lparr>al_kind = kind, al_identity = ev_sender ev, al_count = length q,
             al_window_seconds = trunc (rnd (of_int (tp_window p) / 1000000)), al_triggered_at = event_time P ev\<rparr>],
           set_bucket kind ((bucket_of kind st)(ev_sender ev \<mapsto> [])) st)
     else (Inr [], set_bucket kind ((bucket_of kind st)(ev_sender ev \<mapsto> q)) st))"
  using trim_before_filter[OF assms(3)]
  by (simp add: observe_event_kind[OF assms(1)] assms(2) feed_bucket_def q_def queued_def Let_def)

lemma observe_event_miss:
  assumes "readable_time P p ev" "kind \<in> {REPEATED_VALIDATION_FAILURE, ABNORMAL_ISSUANCE_VOLUME}"
    and "\<not> (event_kind ev = Some kind \<and> ev_sender ev = s)"
  shows "\<exists>alerts st'. observe_event rnd P p ev st = (Inr alerts, st') \<and> queued kind s st' = queued kind s st \<and>
    filter (\<lambda>a. al_kind a = kind \<and> al_identity a = s) alerts = []"
proof (cases "event_kind ev")
  case (Some k)
  then show ?thesis
    using assms(3) queued_set[OF assms(2) event_kind_cases[OF Some]]
    by (auto simp: observe_event_kind[OF assms(1)] feed_bucket_def Let_def)
qed (simp add: observe_event_kind[OF assms(1)])

lemma observe_all_bursts:
  assumes "\<forall>ev\<in>set evs. readable_time P p ev" "kind \<in> {REPEATED_VALIDATION_FAILURE, ABNORMAL_ISSUANCE_VOLUME}"
    and "sorted (queued kind s st @ times_of P kind s evs)"
  shows "filter (\<lambda>a. al_kind a = kind \<and> al_identity a = s) (observe_all rnd P p evs st) =
    map (\<lambda>(t, c). \<lparr>al_kind = kind, al_identity = s, al_count = c,
           al_window_seconds = trunc (rnd (of_int (tp_window p) / 1000000)), al_triggered_at = t\<rparr>)
      (bursts (tp_window p) (threshold_of p kind) (queued kind s st) (times_of P kind s evs))"
  using assms(1,3)
proof (induction evs arbitrary: st)
  case (Cons ev evs)
  have readable: "readable_time P p ev" "\<forall>ev\<in>set evs. readable_time P p ev" using Cons.prems(1) by auto
  show ?case
  proof (cases "event_kind ev = Some kind \<and> ev_sender ev = s")
    case True
    let ?q = "filter (\<lambda>u. event_time P ev - tp_window p \<le> u) (queued kind s st) @ [event_time P ev]"
    have times: "times_of P kind s (ev # evs) = event_time P ev # times_of P kind s evs" using True by (simp add: times_of_def)
    then have sorted: "sorted (queued kind s st)" "sorted (?q @ times_of P kind s evs)" "sorted (times_of P kind s evs)"
      using Cons.prems(2) by (auto simp: sorted_append sorted_wrt_filter)
    have hit: "observe_event rnd P p ev st =
      (if threshold_of p kind \<le> int (length ?q)
       then (Inr [\<lparr>al_kind = kind, al_identity = s, al_count = length ?q,
             al_window_seconds = trunc (rnd (of_int (tp_window p) / 1000000)), al_triggered_at = event_time P ev\<rparr>],
           set_bucket kind ((bucket_of kind st)(s \<mapsto> [])) st)
       else (Inr [], set_bucket kind ((bucket_of kind st)(s \<mapsto> ?q)) st))"
      using observe_event_hit[OF readable(1)] True sorted(1) by blast
    have queue: "queued kind s (set_bucket kind ((bucket_of kind st)(s \<mapsto> q)) st) = q" for q
      using queued_set[OF assms(2,2)] by simp
    show ?thesis
    proof (cases "threshold_of p kind \<le> int (length ?q)")
      case alert: True
      then show ?thesis
        using hit times Cons.IH[OF readable(2), of "set_bucket kind ((bucket_of kind st)(s \<mapsto> [])) st"] sorted(3)
        by (simp only: observe_all.simps if_True case_prod_conv sum.case queue bursts.simps Let_def) simp
    next
      case quiet: False
      then show ?thesis
        using hit times Cons.IH[OF readable(2), of "set_bucket kind ((bucket_of kind st)(s \<mapsto> ?q)) st"] sorted(2)
        by (simp only: observe_all.simps if_False case_prod_conv sum.case queue bursts.simps Let_def) simp
    qed
  next
    case False
    obtain alerts st' where o: "observe_event rnd P p ev st = (Inr alerts, st')" "queued kind s st' = queued kind s st"
      "filter (\<lambda>a. al_kind a = kind \<and> al_identity a = s) alerts = []"
      using observe_event_miss[OF readable(1) assms(2) False] by blast
    have "times_of P kind s (ev # evs) = times_of P kind s evs" using False by (auto simp: times_of_def)
    then show ?thesis using o Cons.IH[OF readable(2), of st'] Cons.prems(2) by simp
  qed
qed (simp add: times_of_def)


lemma sorted_times: "sorted (map (event_time P) evs) \<Longrightarrow> sorted (times_of P kind s evs)"
  by (simp add: times_of_def sorted_map sorted_wrt_filter)

text \<open>C34. Alerts are exact: over every stream of events with readable times in order, an alert of a kind for
  an identity counts at least the threshold of events of that kind and identity, all within the window
  that ends at the alert; and no window of any identity holds as many events as the threshold without an
  alert for that identity in it, whatever the other identities do.\<close>

theorem alerts_exact:
  assumes "threshold_policy_ok p = Inr ()" "kind \<in> {REPEATED_VALIDATION_FAILURE, ABNORMAL_ISSUANCE_VOLUME}"
    and "\<forall>ev\<in>set evs. readable_time P p ev" "sorted (map (event_time P) evs)"
  shows "(\<forall>al\<in>set (observe_all rnd P p evs no_alerts). al_kind al = kind \<longrightarrow>
      threshold_of p kind \<le> int (al_count al) \<and>
      al_count al \<le> length (filter (\<lambda>u. al_triggered_at al - tp_window p \<le> u \<and> u \<le> al_triggered_at al)
        (times_of P kind (al_identity al) evs))) \<and>
    (\<forall>s a. threshold_of p kind \<le> int (length (filter (\<lambda>u. a \<le> u \<and> u \<le> a + tp_window p) (times_of P kind s evs))) \<longrightarrow>
      (\<exists>al\<in>set (observe_all rnd P p evs no_alerts). al_kind al = kind \<and> al_identity al = s \<and>
        a \<le> al_triggered_at al \<and> al_triggered_at al \<le> a + tp_window p))"
proof -
  have policy: "0 < tp_window p" "0 < threshold_of p kind"
    using assms(1) by (auto simp: threshold_policy_ok_def threshold_of_def)
  have sorted: "sorted ([] @ times_of P kind s evs)" for s using sorted_times[OF assms(4)] by simp
  have empty: "queued kind s no_alerts = []" for s by (simp add: queued_def no_alerts_def bucket_of_def)
  note all = observe_all_bursts[OF assms(3,2), of s no_alerts rnd for s, unfolded empty, OF sorted]
  have sound: "threshold_of p kind \<le> int (al_count al) \<and>
      al_count al \<le> length (filter (\<lambda>u. al_triggered_at al - tp_window p \<le> u \<and> u \<le> al_triggered_at al)
        (times_of P kind (al_identity al) evs))"
    if "al \<in> set (observe_all rnd P p evs no_alerts)" "al_kind al = kind" for al
  proof -
    have "al \<in> set (filter (\<lambda>a. al_kind a = kind \<and> al_identity a = al_identity al) (observe_all rnd P p evs no_alerts))"
      using that by simp
    then obtain tc where m: "tc \<in> set (bursts (tp_window p) (threshold_of p kind) [] (times_of P kind (al_identity al) evs))"
      "al = (case tc of (t, c) \<Rightarrow> \<lparr>al_kind = kind, al_identity = al_identity al, al_count = c,
        al_window_seconds = trunc (rnd (of_int (tp_window p) / 1000000)), al_triggered_at = t\<rparr>)"
      unfolding all set_map image_iff by blast
    obtain t c where "tc = (t, c)" by (cases tc)
    then have tc: "(t, c) \<in> set (bursts (tp_window p) (threshold_of p kind) [] (times_of P kind (al_identity al) evs))"
      and al: "al = \<lparr>al_kind = kind, al_identity = al_identity al, al_count = c,
        al_window_seconds = trunc (rnd (of_int (tp_window p) / 1000000)), al_triggered_at = t\<rparr>"
      using m by simp_all
    have "al_count al = c" "al_triggered_at al = t" using arg_cong[OF al, of al_count] arg_cong[OF al, of al_triggered_at] by simp_all
    show ?thesis using bursts_sound[OF _ sorted tc] policy(1) \<open>al_count al = c\<close> \<open>al_triggered_at al = t\<close> by simp
  qed
  have complete: "\<exists>al\<in>set (observe_all rnd P p evs no_alerts). al_kind al = kind \<and> al_identity al = s \<and>
        a \<le> al_triggered_at al \<and> al_triggered_at al \<le> a + tp_window p"
    if busy: "threshold_of p kind \<le> int (length (filter (\<lambda>u. a \<le> u \<and> u \<le> a + tp_window p) (times_of P kind s evs)))" for s a
  proof -
    obtain t c where tc: "(t, c) \<in> set (bursts (tp_window p) (threshold_of p kind) [] (times_of P kind s evs))"
      "a \<le> t" "t \<le> a + tp_window p"
      using bursts_complete[OF sorted, of "threshold_of p kind" a "tp_window p" s] policy(2) busy by auto
    let ?al = "\<lparr>al_kind = kind, al_identity = s, al_count = c,
        al_window_seconds = trunc (rnd (of_int (tp_window p) / 1000000)), al_triggered_at = t\<rparr>"
    have "?al \<in> set (filter (\<lambda>a. al_kind a = kind \<and> al_identity a = s) (observe_all rnd P p evs no_alerts))"
      unfolding all using tc(1) by force
    then show ?thesis using tc(2,3) by force
  qed
  show ?thesis using sound complete by blast
qed

text \<open>The sink in front stores what the sink behind it stores, whatever the alerts do; but an alert that
  cannot be delivered is reported as a failure to record the event that is stored.\<close>

lemma alerting_sink_stores:
  assumes "sink_record (alerting_tail_hash tail_hash) (alerting_append rnd P p on_alert push) Q now f (s, st, w) = (r, s', st', w')"
  shows "snd (sink_record tail_hash push Q now f s) = s' \<and>
    (r = fst (sink_record tail_hash push Q now f s) \<or> returned (fst (sink_record tail_hash push Q now f s)) \<and> \<not> returned r)"
  using assms
  by (auto simp: sink_record_def alerting_tail_hash_def alerting_append_def split: sum.splits prod.splits option.splits)

lemma undelivered_alert_fails_record:
  assumes "tail_hash s = Inr prev" "build_event Q prev (f\<lparr>ev_timestamp := utc_stamp Q now\<rparr>) = Inr ev" "push ev s = (None, s')"
    and "observe_event rnd P p ev st = (Inr [a], st')" "on_alert a w = (Some e, w')"
  shows "sink_record (alerting_tail_hash tail_hash) (alerting_append rnd P p on_alert push) Q now f (s, st, w) = (Inl e, s', st', w')"
  using assms by (simp add: sink_record_def alerting_tail_hash_def alerting_append_def)

text \<open>Two denials in one window, with threshold two.\<close>

definition denial :: "string \<Rightarrow> audit_event" where
  "denial s = audit_fields.extend
     \<lparr>ev_timestamp = ''t0'', ev_event_type = ''envelope.verify'', ev_outcome = ''deny'', ev_reason = [], ev_message_id = [],
      ev_sender = s, ev_recipient = [], ev_envelope_kid = [], ev_issuer_iss = [], ev_issuer_kid = [],
      ev_reason_code = [], ev_artifact_version = []\<rparr>
     \<lparr>ev_prev_hash = [], ev_this_hash = []\<rparr>"

definition zero_time :: platform where
  "zero_time = toy_platform\<lparr>p_fromisoformat := (\<lambda>s. Some (Aware 0 0))\<rparr>"

theorem alerts_exact_witness:
  "\<exists>al\<in>set (observe_all id zero_time \<lparr>tp_window = minutes 5, tp_repeated_deny = 2, tp_issuance_volume = 100\<rparr>
      [denial ''a'', denial ''b'', denial ''a''] no_alerts).
     al_kind al = REPEATED_VALIDATION_FAILURE \<and> al_identity al = ''a''"
proof -
  let ?p = "\<lparr>tp_window = minutes 5, tp_repeated_deny = 2, tp_issuance_volume = 100\<rparr>"
  have parse: "parse_rfc3339 zero_time (PStr ''t0'') = Inr 0"
    by (simp add: parse_rfc3339_def zero_time_def astimezone_utc_def datetime_min_def datetime_max_def seconds_def)
  have d: "ev_timestamp (denial s) = ''t0''" "ev_sender (denial s) = s" "ev_event_type (denial s) = ''envelope.verify''"
    "ev_outcome (denial s) = ''deny''" for s
    by (simp_all add: denial_def audit_fields.extend_def)
  have times: "event_time zero_time (denial s) = 0" "readable_time zero_time ?p (denial s)" for s
    by (simp_all add: event_time_def readable_time_def d parse datetime_min_def minutes_def seconds_def)
  let ?evs = "[denial ''a'', denial ''b'', denial ''a'']"
  have "event_kind (denial ''a'') = Some REPEATED_VALIDATION_FAILURE" by (simp add: event_kind_def d)
  then have busy: "threshold_of ?p REPEATED_VALIDATION_FAILURE \<le> int (length (filter (\<lambda>u. 0 \<le> u \<and> u \<le> 0 + tp_window ?p)
      (times_of zero_time REPEATED_VALIDATION_FAILURE ''a'' ?evs)))"
    by (simp add: times_of_def times d threshold_of_def minutes_def seconds_def)
  have policy: "threshold_policy_ok ?p = Inr ()" by (simp add: threshold_policy_ok_def minutes_def seconds_def)
  have "\<exists>al\<in>set (observe_all id zero_time ?p ?evs no_alerts). al_kind al = REPEATED_VALIDATION_FAILURE \<and>
      al_identity al = ''a'' \<and> 0 \<le> al_triggered_at al \<and> al_triggered_at al \<le> 0 + tp_window ?p"
    by (rule conjunct2[OF alerts_exact[OF policy], rule_format, OF _ _ _ busy]) (auto simp: times)
  then show ?thesis by blast
qed

end
