(* ===== verification/AttestedRuntime.thy ===== *)
theory AttestedRuntime
  imports Demo "HOL-Library.List_Lexorder" "HOL-Library.Char_ord"
begin

text \<open>
  What a workload may be: the image it runs (\<open>image_attestation.py\<close>: detached signatures of image
  digests) and its confinement (\<open>runtime_profile.py\<close>: profiles and the seccomp document made from
  them). A frozenset is a finite set.
\<close>

section \<open>Image signatures\<close>

abbreviation ierr :: "deny_reason \<Rightarrow> exn" where
  "ierr r \<equiv> raise_as ImageSignatureError r"

record image_signature =
  im_digest :: pyval
  im_signer_id :: pyval
  im_signer_kid :: pyval
  im_signature :: pyval

definition image_object :: "image_signature \<Rightarrow> pyval" where
  "image_object s =
     PDict [(''image_digest'', im_digest s), (''signer_id'', im_signer_id s), (''signer_kid'', im_signer_kid s),
            (''signature'', im_signature s)]"

definition image_body :: "image_signature \<Rightarrow> pyval" where
  "image_body s =
     PDict [(''typ'', PStr ''wt-image-sig/v0''), (''image_digest'', im_digest s), (''signer_id'', im_signer_id s),
            (''signer_kid'', im_signer_kid s)]"

definition sign_image_signature ::
  "platform \<Rightarrow> (string \<Rightarrow> string) \<Rightarrow> image_signature \<Rightarrow> exn + image_signature" where
  "sign_image_signature P sign s = bindE (sign_body P sign (image_body s)) (\<lambda>v. Inr (s\<lparr>im_signature := v\<rparr>))"

definition image_from_json :: "platform \<Rightarrow> string \<Rightarrow> exn + image_signature" where
  "image_from_json P data =
     (case p_json_loads P data of
        Inl e \<Rightarrow> Inl (if value_or_type_error e then ierr IMAGE_SIG_MALFORMED else e)
      | Inr obj \<Rightarrow>
          if \<not> is_dict obj then Inl (ierr IMAGE_SIG_MALFORMED)
          else let d = dict_of obj in
            if filter (\<lambda>k. \<not> has_key d k) [''image_digest'', ''signer_id'', ''signer_kid'', ''signature''] \<noteq> []
            then Inl (ierr IMAGE_SIG_MALFORMED)
            else Inr \<lparr>im_digest = item d ''image_digest'', im_signer_id = item d ''signer_id'',
                      im_signer_kid = item d ''signer_kid'', im_signature = item d ''signature''\<rparr>)"

interpretation images: signed_artifact image_body im_signature sign_image_signature image_object image_from_json
  by unfold_locales (auto simp: sign_image_signature_def image_body_def image_object_def image_from_json_def
      has_key_def item_def Let_def)

definition image_shape :: "image_signature \<Rightarrow> exn + unit" where
  "image_shape s =
     guards [(str_test hex_sha256_re (im_digest s), ierr IMAGE_SIG_MALFORMED),
             (str_test spiffe_id_re (im_signer_id s), ierr IMAGE_SIG_MALFORMED),
             (str_test kid_re (im_signer_kid s), ierr IMAGE_SIG_MALFORMED)]"

definition verify_image_signature ::
  "platform \<Rightarrow> (string \<Rightarrow> string \<Rightarrow> exn + string) \<Rightarrow> pyval \<Rightarrow> image_signature \<Rightarrow> exn + image_signature" where
  "verify_image_signature P issuer_lookup expected_digest s =
     bindE (image_shape s) (\<lambda>_.
     bindE (guards [(str_test hex_sha256_re expected_digest, ierr IMAGE_SIG_MALFORMED),
                    (im_digest s = expected_digest, ierr IMAGE_SIG_DIGEST_MISMATCH),
                    (truthy (im_signature s), ierr IMAGE_SIG_MALFORMED)]) (\<lambda>_.
     bindE (catch_all (ierr IMAGE_SIG_MALFORMED) (decode_base64url (im_signature s))) (\<lambda>sig_bytes.
     bindE (catch_all (ierr IMAGE_SIG_UNKNOWN_SIGNER) (issuer_lookup (str_of (im_signer_id s)) (str_of (im_signer_kid s)))) (\<lambda>pem.
     bindE (catch_all (ierr IMAGE_SIG_UNKNOWN_SIGNER) (load_ed25519_public_key P pem)) (\<lambda>key.
     bindE (p_canon P (image_body s)) (\<lambda>input.
     bindE (guard (p_verify P key sig_bytes input) (ierr IMAGE_SIG_INVALID)) (\<lambda>_.
     Inr s)))))))"

definition image_ok :: "platform \<Rightarrow> (string \<Rightarrow> string \<Rightarrow> exn + string) \<Rightarrow> image_signature \<Rightarrow> bool" where
  "image_ok P issuer_lookup s \<longleftrightarrow> image_shape s = Inr () \<and> truthy (im_signature s) \<and>
     signed_by P issuer_lookup (str_of (im_signer_id s)) (str_of (im_signer_kid s)) (im_signature s) (image_body s)"

lemma verify_image_Inr:
  "verify_image_signature P issuer_lookup e s = Inr s' \<longleftrightarrow> s' = s \<and> e = im_digest s \<and> image_ok P issuer_lookup s"
  by (auto simp: verify_image_signature_def image_ok_def signed_by_def image_shape_def load_key_Inr)

text \<open>Only attested images run: a check against a digest succeeds exactly if the signature has the right
  form, names that digest and is the signer's signature of it; and a signature made under a signer's key
  and sent as JSON passes the check against its own digest and against no other.\<close>

lemma attested_images_only:
  assumes "sign_image_signature P sign s = Inr s'" "image_shape s = Inr ()" "key_pair P sign key"
    and "issuer_lookup (str_of (im_signer_id s)) (str_of (im_signer_kid s)) = Inr pem" "p_load_pem P pem = Inr (Ed25519Key key)"
    and "p_json_loads P data = Inr (image_object s')"
  shows "(\<exists>t. image_from_json P data = Inr t \<and> (\<forall>e. returned (verify_image_signature P issuer_lookup e t) \<longleftrightarrow> e = im_digest s)) \<and>
    (\<forall>t e t'. verify_image_signature P issuer_lookup e t = Inr t' \<longrightarrow> t' = t \<and> e = im_digest t \<and>
       signed_by P issuer_lookup (str_of (im_signer_id t)) (str_of (im_signer_kid t)) (im_signature t) (image_body t))"
proof -
  obtain input where s': "p_canon P (image_body s) = Inr input" "s' = s\<lparr>im_signature := PStr (b64url (sign input))\<rparr>"
    using assms(1) by (auto simp: sign_image_signature_def sign_body_def)
  note sent = images.transmitted[where issuer_lookup = issuer_lookup and iss = "str_of (im_signer_id s)" and kid = "str_of (im_signer_kid s)",
      OF assms(1,3,4,5,6)]
  have "truthy (im_signature s')" using assms(3) by (simp add: s'(2) key_pair_def b64url_nonempty)
  moreover have "image_shape s' = Inr ()" using assms(2) by (simp add: image_shape_def s'(2))
  ultimately have "image_ok P issuer_lookup s'" using sent by (simp add: image_ok_def s'(2))
  moreover have "im_digest s' = im_digest s" by (simp add: s'(2))
  ultimately have "returned (verify_image_signature P issuer_lookup e s') \<longleftrightarrow> e = im_digest s" for e
    unfolding returned_iff verify_image_Inr by auto
  then have "\<exists>t. image_from_json P data = Inr t \<and> (\<forall>e. returned (verify_image_signature P issuer_lookup e t) \<longleftrightarrow> e = im_digest s)"
    using sent by blast
  then show ?thesis unfolding verify_image_Inr image_ok_def by blast
qed

definition release_image :: image_signature where
  "release_image = \<lparr>im_digest = PStr demo_digest, im_signer_id = PStr ''spiffe://ci'', im_signer_kid = PStr ''k'', im_signature = PStr []\<rparr>"

definition release_platform :: platform where
  "release_platform = demo_platform\<lparr>p_json_loads := (\<lambda>s. Inr (image_object (release_image\<lparr>im_signature := PStr (b64url [CHR 0x00])\<rparr>)))\<rparr>"

section \<open>Runtime profiles\<close>

abbreviation profile_error :: exn where
  "profile_error \<equiv> repo_error ''RuntimeProfileError''"

datatype trust_tier = Strict | Standard | Limited_Trust

datatype egress_posture = Deny_All | Egress_Allowlist | Allow_All

record runtime_profile =
  rf_tier :: trust_tier
  rf_allowed_syscalls :: "string set"
  rf_writable_paths :: "string set"
  rf_egress :: egress_posture
  rf_egress_allowlist :: "string set"
  rf_secret_scopes :: "string set"

definition new_runtime_profile :: "runtime_profile \<Rightarrow> exn + runtime_profile" where
  "new_runtime_profile p =
     bindE (guards
       [([] \<notin> rf_allowed_syscalls p, profile_error), ([] \<notin> rf_writable_paths p, profile_error),
        ([] \<notin> rf_egress_allowlist p, profile_error), ([] \<notin> rf_secret_scopes p, profile_error),
        (\<not> (rf_egress p = Egress_Allowlist \<and> rf_egress_allowlist p = {}), profile_error),
        (\<not> (rf_egress p \<noteq> Egress_Allowlist \<and> rf_egress_allowlist p \<noteq> {}), profile_error)]) (\<lambda>_. Inr p)"

definition BASE_SYSCALLS :: "string set" where
  "BASE_SYSCALLS = set [''read'', ''write'', ''close'', ''exit'', ''exit_group'', ''brk'', ''mmap'', ''munmap'']"

definition strict_profile :: "string set \<Rightarrow> exn + runtime_profile" where
  "strict_profile secret_scopes = new_runtime_profile
     \<lparr>rf_tier = Strict, rf_allowed_syscalls = BASE_SYSCALLS, rf_writable_paths = {''/tmp''}, rf_egress = Deny_All,
      rf_egress_allowlist = {}, rf_secret_scopes = secret_scopes\<rparr>"

definition standard_profile :: "string set \<Rightarrow> string set \<Rightarrow> string set \<Rightarrow> exn + runtime_profile" where
  "standard_profile egress_allowlist writable_paths secret_scopes = new_runtime_profile
     \<lparr>rf_tier = Standard,
      rf_allowed_syscalls = BASE_SYSCALLS \<union>
        set [''openat'', ''fstat'', ''lseek'', ''poll'', ''futex'', ''socket'', ''connect''],
      rf_writable_paths = writable_paths, rf_egress = Egress_Allowlist, rf_egress_allowlist = egress_allowlist,
      rf_secret_scopes = secret_scopes\<rparr>"

definition limited_trust_profile :: "string set \<Rightarrow> string set \<Rightarrow> exn + runtime_profile" where
  "limited_trust_profile allowed_syscalls secret_scopes = new_runtime_profile
     \<lparr>rf_tier = Limited_Trust, rf_allowed_syscalls = BASE_SYSCALLS \<union> allowed_syscalls, rf_writable_paths = {},
      rf_egress = Deny_All, rf_egress_allowlist = {}, rf_secret_scopes = secret_scopes\<rparr>"

definition SECCOMP_ARCHITECTURES :: "string list" where
  "SECCOMP_ARCHITECTURES = [''SCMP_ARCH_X86_64'', ''SCMP_ARCH_X86'', ''SCMP_ARCH_X32'']"

definition generate_seccomp :: "runtime_profile \<Rightarrow> pyval" where
  "generate_seccomp p =
     PDict [(''defaultAction'', PStr ''SCMP_ACT_ERRNO''), (''architectures'', PList (map PStr SECCOMP_ARCHITECTURES)),
            (''syscalls'', PList [PDict
              [(''names'', PList (map PStr (sorted_list_of_set (rf_allowed_syscalls p)))),
               (''action'', PStr ''SCMP_ACT_ALLOW'')]])]"

text \<open>How a runtime reads such a document: the action of the first rule that names the call, else the
  default action.\<close>

definition seccomp_action :: "pyval \<Rightarrow> string \<Rightarrow> pyval" where
  "seccomp_action doc call =
     (case item (dict_of doc) ''syscalls'' of
        PList rules \<Rightarrow>
          (case find (\<lambda>r. item (dict_of r) ''names'' \<noteq> PNone \<and>
                (case item (dict_of r) ''names'' of PList ns \<Rightarrow> PStr call \<in> set ns | _ \<Rightarrow> False)) rules of
             Some r \<Rightarrow> item (dict_of r) ''action''
           | None \<Rightarrow> item (dict_of doc) ''defaultAction'')
      | _ \<Rightarrow> item (dict_of doc) ''defaultAction'')"

lemma seccomp_exact:
  assumes "finite (rf_allowed_syscalls p)"
  shows "seccomp_action (generate_seccomp p) call =
    PStr (if call \<in> rf_allowed_syscalls p then ''SCMP_ACT_ALLOW'' else ''SCMP_ACT_ERRNO'')"
  using assms by (auto simp: seccomp_action_def generate_seccomp_def item_def)

lemma seccomp_allows:
  "finite (rf_allowed_syscalls p) \<Longrightarrow>
     seccomp_action (generate_seccomp p) call = PStr ''SCMP_ACT_ALLOW'' \<longleftrightarrow> call \<in> rf_allowed_syscalls p"
  by (simp add: seccomp_exact)

lemma base_syscalls: "finite BASE_SYSCALLS" "[] \<notin> BASE_SYSCALLS"
  by (simp_all add: BASE_SYSCALLS_def)

text \<open>The generated document denies by default and allows exactly the calls of the profile; with the
  built-in profiles the base set is always allowed, a strict workload gets nothing else, no network and
  one writable path, and a workload of limited trust cannot write or reach the network at all.\<close>

lemma built_in_profiles:
  assumes "finite calls"
  shows "strict_profile scopes = Inr p \<Longrightarrow> rf_egress p = Deny_All \<and> rf_writable_paths p = {''/tmp''} \<and>
      (seccomp_action (generate_seccomp p) call = PStr ''SCMP_ACT_ALLOW'' \<longleftrightarrow> call \<in> BASE_SYSCALLS)"
    "limited_trust_profile calls scopes = Inr p \<Longrightarrow> rf_egress p = Deny_All \<and> rf_writable_paths p = {} \<and>
      (seccomp_action (generate_seccomp p) call = PStr ''SCMP_ACT_ALLOW'' \<longleftrightarrow> call \<in> BASE_SYSCALLS \<union> calls)"
    "standard_profile hosts paths scopes = Inr p \<Longrightarrow> rf_egress p = Egress_Allowlist \<and> rf_egress_allowlist p = hosts \<and> hosts \<noteq> {} \<and>
      (seccomp_action (generate_seccomp p) call = PStr ''SCMP_ACT_ALLOW'' \<longrightarrow> call \<in> BASE_SYSCALLS \<union>
        {''openat'', ''fstat'', ''lseek'', ''poll'', ''futex'', ''socket'', ''connect''})"
  using assms base_syscalls
  by (auto simp: strict_profile_def limited_trust_profile_def standard_profile_def new_runtime_profile_def seccomp_allows)

end
