(* ===== verification/Frames.thy ===== *)
theory Frames
  imports Bridge
begin

text \<open>
  What the small protocols over the mesh transports share (\<open>integrations/mcp/workspace/\<close> and
  \<open>integrations/mcp/federation/\<close>): a JSON object per frame, and a client that sends a request with an id
  and polls its transport for the reply. The contract of \<open>receive\<close> is a locale, interpreted on the three
  transports of \<open>Sockets\<close>.
\<close>

section \<open>One frame\<close>

text \<open>\<open>json.loads(frame.payload)\<close> where \<open>ValueError\<close> and \<open>TypeError\<close> skip the frame (\<open>None\<close>), and the
  first \<open>.get\<close> on the result. Both happen outside any other handler.\<close>

definition frame_dict :: "platform \<Rightarrow> string \<Rightarrow> exn + (string \<times> pyval) list option" where
  "frame_dict P payload =
     (case p_json_loads P payload of
        Inl e \<Rightarrow> if value_or_type_error e then Inr None else Inl e
      | Inr v \<Rightarrow> if is_dict v then Inr (Some (dict_of v)) else Inl (std_error ''AttributeError''))"

lemma frame_dict_faithful: "json_faithful P dumps (PDict d) \<Longrightarrow> frame_dict P (dumps (PDict d)) = Inr (Some d)"
  by (simp add: frame_dict_def json_faithful_def)

text \<open>\<open>d.get(k, default)\<close>\<close>

definition get_or :: "(string \<times> pyval) list \<Rightarrow> string \<Rightarrow> pyval \<Rightarrow> pyval" where
  "get_or d k dflt = (case map_of d k of None \<Rightarrow> dflt | Some v \<Rightarrow> v)"

text \<open>\<open>str(n)\<close> of a counter.\<close>

fun digits_of :: "nat \<Rightarrow> string" where
  "digits_of n = (if n < 10 then [] else digits_of (n div 10)) @ [char_of (48 + n mod 10)]"

declare digits_of.simps [simp del]

lemma digits_of_nonempty [simp]: "digits_of n \<noteq> []" "[] \<noteq> digits_of n"
  by (subst digits_of.simps, simp)+

lemma digits_of_inj: "digits_of m = digits_of n \<longleftrightarrow> m = n"
proof
  show "digits_of m = digits_of n \<Longrightarrow> m = n"
  proof (induction m arbitrary: n rule: digits_of.induct)
    case (1 m)
    have c: "(char_of (48 + m mod 10) :: char) = char_of (48 + n mod 10) \<longleftrightarrow> m mod 10 = n mod 10"
      proof -
      have "of_char (char_of (48 + k mod 10) :: char) = 48 + k mod (10 :: nat)" for k
        using pos_mod_bound[of 10 k] by (simp add: take_bit_nat_eq_self)
      then show ?thesis by (metis add_left_cancel)
    qed
    have split: "digits_of k = (if k < 10 then [] else digits_of (k div 10)) @ [char_of (48 + k mod 10)]" for k
      by (rule digits_of.simps)
    have eq: "m mod 10 = n mod 10" "(if m < 10 then [] else digits_of (m div 10)) = (if n < 10 then [] else digits_of (n div 10))"
      using 1(2) c by (simp_all add: split[of m] split[of n])
    show ?case
    proof (cases "m < 10 \<or> n < 10")
      case True
      then show ?thesis using eq by (auto split: if_splits)
    next
      case False
      then have "m div 10 = n div 10" using eq(2) 1(1) by simp
      then show ?thesis using eq(1) by (metis div_mult_mod_eq)
    qed
  qed
qed simp

text \<open>The registry directory: \<open>except (ValueError, KeyError, OSError)\<close> around reading one of its files.\<close>

definition registry_error :: "exn \<Rightarrow> bool" where
  "registry_error e \<longleftrightarrow>
     is_oserror e \<or> exn_cls e = StdError ''KeyError'' \<or> value_or_type_error e \<and> exn_cls e \<noteq> StdError ''TypeError''"

text \<open>\<open>transport.send\<close> with an address from a decoded object: one that is no string has no \<open>rsplit\<close>.\<close>

definition send_to_value :: "('c, 'w) tcp \<Rightarrow> pyval \<Rightarrow> string \<Rightarrow> 'w \<Rightarrow> (exn + unit) \<times> 'w" where
  "send_to_value N dest payload w =
     (case dest of PStr d \<Rightarrow> socket_send N d payload w | _ \<Rightarrow> (Inl transport_error, w))"


section \<open>The contract of receive\<close>

locale frame_source =
  fixes receive :: "'t \<Rightarrow> frame option \<times> 't" and pending :: "'t \<Rightarrow> frame list"
  assumes receive_none: "pending t = [] \<Longrightarrow> receive t = (None, t)"
    and receive_some: "pending t = f # q \<Longrightarrow> fst (receive t) = Some f \<and> pending (snd (receive t)) = q"

interpretation socket: frame_source socket_receive so_inbox
  by unfold_locales (simp_all add: socket_receive_def)

interpretation tls: frame_source tls_receive tt_inbox
  by unfold_locales (simp_all add: tls_receive_def)

interpretation pooled_source: frame_source pool_receive po_inbox
  by unfold_locales (simp_all add: pool_receive_def)


section \<open>Awaiting a reply\<close>

text \<open>The loop until the deadline: before each round the transport's thread may have worked (\<open>work\<close>); a
  frame whose object has the id \<open>rid\<close> is the reply, others are dropped. \<open>None\<close> is the time-out.\<close>

fun await_reply ::
  "platform \<Rightarrow> ('t \<Rightarrow> frame option \<times> 't) \<Rightarrow> string \<Rightarrow> ('t \<Rightarrow> 't) list \<Rightarrow> 't \<Rightarrow>
   (exn + (string \<times> pyval) list option) \<times> 't" where
  "await_reply P receive rid [] t = (Inr None, t)"
| "await_reply P receive rid (work # rounds) t =
     (case receive (work t) of
        (None, t') \<Rightarrow> await_reply P receive rid rounds t'
      | (Some f, t') \<Rightarrow>
          (case frame_dict P (fr_payload f) of
             Inl e \<Rightarrow> (Inl e, t')
           | Inr None \<Rightarrow> await_reply P receive rid rounds t'
           | Inr (Some resp) \<Rightarrow>
               if py_eq (get_or_none resp ''id'') (PStr rid) then (Inr (Some resp), t')
               else await_reply P receive rid rounds t'))"

text \<open>The frames taken during the rounds, and the first of them that ends the loop.\<close>

fun taken :: "('t \<Rightarrow> frame option \<times> 't) \<Rightarrow> ('t \<Rightarrow> 't) list \<Rightarrow> 't \<Rightarrow> frame list" where
  "taken receive [] t = []"
| "taken receive (work # rounds) t =
     (case receive (work t) of
        (None, t') \<Rightarrow> taken receive rounds t'
      | (Some f, t') \<Rightarrow> f # taken receive rounds t')"

fun first_reply :: "platform \<Rightarrow> string \<Rightarrow> frame list \<Rightarrow> exn + (string \<times> pyval) list option" where
  "first_reply P rid [] = Inr None"
| "first_reply P rid (f # fs) =
     bindE (frame_dict P (fr_payload f)) (\<lambda>r.
     case r of
       Some resp \<Rightarrow> if get_or_none resp ''id'' = PStr rid then Inr (Some resp) else first_reply P rid fs
     | None \<Rightarrow> first_reply P rid fs)"

lemma await_first: "fst (await_reply P receive rid rounds t) = first_reply P rid (taken receive rounds t)"
  by (induction P receive rid rounds t rule: await_reply.induct)
    (auto simp: py_eq_string split: prod.splits option.splits sum.splits)

text \<open>Frames that are no replies to this id are passed over.\<close>

definition passed_over :: "platform \<Rightarrow> string \<Rightarrow> frame \<Rightarrow> bool" where
  "passed_over P rid f \<longleftrightarrow>
     (\<exists>r. frame_dict P (fr_payload f) = Inr r \<and> (\<forall>resp. r = Some resp \<longrightarrow> get_or_none resp ''id'' \<noteq> PStr rid))"

lemma first_reply_found:
  assumes "\<forall>f\<in>set before. passed_over P rid f" "frame_dict P (fr_payload f) = Inr (Some resp)" "get_or_none resp ''id'' = PStr rid"
  shows "first_reply P rid (before @ f # after) = Inr (Some resp)"
  using assms by (induction before) (auto simp: passed_over_def split: option.splits)

lemma first_reply_id:
  assumes "first_reply P rid fs = Inr (Some resp)"
  shows "get_or_none resp ''id'' = PStr rid \<and> (\<exists>f\<in>set fs. frame_dict P (fr_payload f) = Inr (Some resp))"
  using assms by (induction fs) (auto split: option.splits if_splits)

text \<open>The ids count up from 1 and the sender of a frame is not looked at: whoever sends the object with the
  id 1 first has answered the first request.\<close>

lemma forged_reply:
  assumes "taken receive rounds t = f # after" "frame_dict P (fr_payload f) = Inr (Some resp)"
    and "get_or_none resp ''id'' = PStr ''1''"
  shows "fst (await_reply P receive (digits_of 1) rounds t) = Inr (Some resp)"
proof -
  have "digits_of 1 = ''1''" by (subst digits_of.simps) code_simp
  then show ?thesis
    using first_reply_found[of "[]" P "digits_of 1" f resp after] assms by (simp add: await_first)
qed

context frame_source
begin

text \<open>With nothing new arriving, the rounds take the pending frames from the front.\<close>

lemma taken_quiet:
  "taken receive (replicate n id) t = take n (pending t)"
proof (induction n arbitrary: t)
  case (Suc n)
  show ?case
  proof (cases "pending t")
    case Nil
    then show ?thesis using Suc[of t] receive_none[of t] by simp
  next
    case (Cons f q)
    then show ?thesis
      using receive_some[OF Cons] Suc[of "snd (receive t)"] by (cases "receive t") auto
  qed
qed simp

text \<open>A reply that is pending is found if there are rounds enough to reach it.\<close>

lemma pending_reply_found:
  assumes "pending t = before @ f # after" "length before < n" "\<forall>g\<in>set before. passed_over P rid g"
    and "frame_dict P (fr_payload f) = Inr (Some resp)" "get_or_none resp ''id'' = PStr rid"
  shows "fst (await_reply P receive rid (replicate n id) t) = Inr (Some resp)"
proof -
  obtain k where "n = length before + Suc k" using assms(2) less_iff_Suc_add[of "length before" n] by auto
  then have "take n (pending t) = before @ f # take k after" using assms(1) by simp
  then show ?thesis
    using first_reply_found[OF assms(3-5)] by (simp add: await_first taken_quiet)
qed

end

end
