(* ===== verification/Workspace.thy ===== *)
theory Workspace
  imports Frames
begin

text \<open>
  The status server of a workspace and its watcher (\<open>integrations/mcp/workspace/workspace_server.py\<close> and
  \<open>watch.py\<close>). The commands of \<open>subprocess.run\<close> are a function from the argument list to the exit code and
  the output, decoded; \<open>resolve\<close> is \<open>Path.resolve\<close>, the clock texts and the messages are arguments. The
  transport is any with the contract of \<open>Frames\<close>.
\<close>

section \<open>The status\<close>

datatype visibility = SUMMARY | STANDARD | DETAILED

definition visibility_value :: "visibility \<Rightarrow> string" where
  "visibility_value v = (case v of SUMMARY \<Rightarrow> ''summary'' | STANDARD \<Rightarrow> ''standard'' | DETAILED \<Rightarrow> ''detailed'')"

record access_event =
  ae_watcher :: pyval
  ae_when :: string
  ae_granted :: bool

record workspace_server =
  ws_workspace :: string
  ws_name :: string
  ws_allow :: "string set"
  ws_visibility :: visibility
  ws_note :: string
  ws_access_log :: "access_event list"


definition load_note :: "string option \<Rightarrow> string" where
  "load_note contents = (case contents of None \<Rightarrow> [] | Some s \<Rightarrow> strip_space s)"

type_synonym commands = "string list \<Rightarrow> exn + int \<times> string"

definition is_subprocess_error :: "exn \<Rightarrow> bool" where
  "is_subprocess_error e \<longleftrightarrow> exn_cls e \<in> {StdError ''SubprocessError'', StdError ''TimeoutExpired''}"

definition git_command :: "string \<Rightarrow> string list \<Rightarrow> string list" where
  "git_command workspace args = [''git'', ''-C'', workspace] @ args"

definition git :: "commands \<Rightarrow> workspace_server \<Rightarrow> string list \<Rightarrow> exn + string" where
  "git run s args =
     (case run (git_command (ws_workspace s) args) of
        Inl e \<Rightarrow> if is_oserror e \<or> is_subprocess_error e then Inr [] else Inl e
      | Inr (code, out) \<Rightarrow> Inr (if code = 0 then strip_space out else []))"

text \<open>\<open>line.split(maxsplit=1)[1]\<close> where there are two parts.\<close>

definition second_part :: "string \<Rightarrow> string option" where
  "second_part line =
     (let rest = dropWhile is_space (dropWhile (\<lambda>c. \<not> is_space c) (dropWhile is_space line)) in
      if rest = [] then None else Some rest)"

definition BRANCH_ARGS :: "string list" where
  "BRANCH_ARGS = [''rev-parse'', ''--abbrev-ref'', ''HEAD'']"

definition LOG_ARGS :: "string list" where
  "LOG_ARGS = [''log'', ''-n'', ''5'', ''--format=%s'']"

definition STATUS_ARGS :: "string list" where
  "STATUS_ARGS = [''status'', ''--porcelain'']"

definition str_list :: "string list \<Rightarrow> pyval" where
  "str_list xs = PList (map PStr xs)"

definition recent_commits :: "string \<Rightarrow> string list" where
  "recent_commits commits = (if commits = [] then [] else splitlines [] commits)"

definition changed_files :: "string \<Rightarrow> string list" where
  "changed_files porcelain = List.map_filter second_part (splitlines [] porcelain)"

definition build_status :: "commands \<Rightarrow> workspace_server \<Rightarrow> string \<Rightarrow> exn + (string \<times> pyval) list" where
  "build_status run s updated_at =
     bindE (git run s BRANCH_ARGS) (\<lambda>branch.
     bindE (if ws_visibility s \<in> {STANDARD, DETAILED}
            then bindE (git run s LOG_ARGS) (\<lambda>commits. Inr [(''recent_commits'', str_list (recent_commits commits))])
            else Inr []) (\<lambda>commits.
     bindE (if ws_visibility s = DETAILED
            then bindE (git run s STATUS_ARGS) (\<lambda>porcelain. Inr [(''changed_files'', str_list (changed_files porcelain))])
            else Inr []) (\<lambda>files.
     Inr ([(''workspace'', PStr (ws_name s)), (''visibility'', PStr (visibility_value (ws_visibility s))),
           (''branch'', PStr (if branch = [] then ''(unknown)'' else branch)), (''note'', PStr (ws_note s)),
           (''updated_at'', PStr updated_at)] @ commits @ files))))"


section \<open>Requests\<close>

text \<open>\<open>effective in self.allow\<close>: a list or an object is not hashable.\<close>

definition in_allow :: "workspace_server \<Rightarrow> pyval \<Rightarrow> exn + bool" where
  "in_allow s v =
     (if is_container v then Inl (std_error ''TypeError'') else Inr (str_test (\<lambda>i. i \<in> ws_allow s) v))"

definition NOT_AUTHORIZED :: "(string \<times> pyval) list" where
  "NOT_AUTHORIZED = [(''error'', PStr ''not authorized for this workspace''), (''denied'', PBool True)]"

text \<open>The two clock readings are for the access event and the status.\<close>

definition handle_status_request ::
  "commands \<Rightarrow> (pyval \<Rightarrow> string) \<Rightarrow> pyval \<Rightarrow> pyval \<Rightarrow> string option \<Rightarrow> string \<Rightarrow> string \<Rightarrow> workspace_server \<Rightarrow>
   (exn + (string \<times> pyval) list) \<times> workspace_server" where
  "handle_status_request run unknown_tool requester tool verified_identity now updated_at s =
     (let effective = (case verified_identity of None \<Rightarrow> requester | Some i \<Rightarrow> PStr i) in
      case in_allow s effective of
        Inl e \<Rightarrow> (Inl e, s)
      | Inr granted \<Rightarrow>
          let s' = s\<lparr>ws_access_log := ws_access_log s @ [\<lparr>ae_watcher = effective, ae_when = now, ae_granted = granted\<rparr>]\<rparr> in
          if \<not> granted then (Inr NOT_AUTHORIZED, s')
          else if py_eq tool (PStr ''get_status'') then
            (bindE (build_status run s' updated_at) (\<lambda>status. Inr [(''result'', PDict status)]), s')
          else (Inr [(''error'', PStr (unknown_tool tool))], s'))"

definition who_is_watching :: "workspace_server \<Rightarrow> pyval list" where
  "who_is_watching s =
     map (\<lambda>e. PDict [(''watcher'', ae_watcher e), (''when'', PStr (ae_when e)), (''granted'', PBool (ae_granted e))])
       (ws_access_log s)"


section \<open>The node\<close>

definition published_address :: "(pyval \<Rightarrow> string) \<Rightarrow> string \<Rightarrow> string \<Rightarrow> string" where
  "published_address dumps name addr = dumps (PDict [(''name'', PStr name), (''address'', PStr addr)])"

record 't workspace_node =
  wn_server :: workspace_server
  wn_transport :: 't
  wn_trust :: bool
  wn_serving :: bool

record ('t, 'w) node_env =
  ne_run :: commands
  ne_unknown_tool :: "pyval \<Rightarrow> string"
  ne_dumps :: "pyval \<Rightarrow> string"
  ne_receive :: "'t \<Rightarrow> frame option \<times> 't"
  ne_send :: "'t \<Rightarrow> string \<Rightarrow> string \<Rightarrow> 'w \<Rightarrow> (exn + unit) \<times> 'w"

text \<open>The reply is sent if \<open>reply_to\<close> is given; every exception of \<open>send\<close> is suppressed, that for an
  address that is no string too.\<close>

definition send_reply ::
  "('t, 'w) node_env \<Rightarrow> 't \<Rightarrow> pyval \<Rightarrow> (string \<times> pyval) list \<Rightarrow> 'w \<Rightarrow> 'w" where
  "send_reply E t reply_to resp w =
     (case reply_to of
        PStr addr \<Rightarrow> if addr = [] then w else snd (ne_send E t addr (ne_dumps E (PDict resp)) w)
      | _ \<Rightarrow> w)"

text \<open>One frame in \<open>_serve\<close>; an exception ends the thread.\<close>

definition serve_status_frame ::
  "platform \<Rightarrow> ('t, 'w) node_env \<Rightarrow> string \<Rightarrow> string \<Rightarrow> frame \<Rightarrow> 't workspace_node \<Rightarrow> 'w \<Rightarrow> 't workspace_node \<times> 'w" where
  "serve_status_frame P E now updated_at f n w =
     (case frame_dict P (fr_payload f) of
        Inl e \<Rightarrow> (n\<lparr>wn_serving := False\<rparr>, w)
      | Inr None \<Rightarrow> (n, w)
      | Inr (Some req) \<Rightarrow>
          if \<not> py_eq (get_or_none req ''op'') (PStr ''call'') then (n, w)
          else
            (case handle_status_request (ne_run E) (ne_unknown_tool E) (get_or req ''requester'' (PStr ''(anonymous)''))
                    (get_or req ''tool'' (PStr [])) (if wn_trust n then Some (fr_source f) else None) now updated_at (wn_server n) of
               (Inl e, s) \<Rightarrow> (n\<lparr>wn_server := s, wn_serving := False\<rparr>, w)
             | (Inr resp, s) \<Rightarrow>
                 (n\<lparr>wn_server := s\<rparr>,
                  send_reply E (wn_transport n) (get_or_none req ''reply_to'')
                    (dset ''id'' (get_or_none req ''id'') resp) w)))"



section \<open>The watcher\<close>

definition NEWS_FIELDS :: "string list" where
  "NEWS_FIELDS = [''branch'', ''note'', ''recent_commits'', ''changed_files'']"

record 't workspace_watcher =
  ww_id :: string
  ww_transport :: 't
  ww_counter :: nat
  ww_last :: "string \<rightharpoonup> (string \<times> pyval) list"

text \<open>\<open>_resolve\<close>, given what the registry file holds, if it exists.\<close>

definition resolve_published :: "platform \<Rightarrow> (exn + string) option \<Rightarrow> exn + pyval" where
  "resolve_published P contents =
     (case contents of
        None \<Rightarrow> Inr PNone
      | Some r \<Rightarrow>
          (case bindE r (\<lambda>c. bindE (p_json_loads P c) (\<lambda>v.
                 if is_dict v then getitem (dict_of v) ''address'' else Inl (std_error ''TypeError''))) of
             Inr a \<Rightarrow> Inr a
           | Inl e \<Rightarrow>
               if registry_error e then Inr PNone else Inl e))"

datatype watch_wording = NotPublished string | CouldNotReach string exn

record ('t, 'w) watch_env =
  we_say :: "watch_wording \<Rightarrow> string"
  we_dumps :: "pyval \<Rightarrow> string"
  we_address :: string
  we_receive :: "'t \<Rightarrow> frame option \<times> 't"
  we_send :: "'t \<Rightarrow> pyval \<Rightarrow> string \<Rightarrow> 'w \<Rightarrow> (exn + unit) \<times> 'w"

definition error_dict :: "string \<Rightarrow> (string \<times> pyval) list" where
  "error_dict m = [(''error'', PStr m)]"

definition status_request :: "string \<Rightarrow> string \<Rightarrow> string \<Rightarrow> pyval" where
  "status_request watcher rid addr =
     PDict [(''op'', PStr ''call''), (''tool'', PStr ''get_status''), (''requester'', PStr watcher), (''id'', PStr rid),
            (''reply_to'', PStr addr)]"

definition poll ::
  "platform \<Rightarrow> ('t, 'w) watch_env \<Rightarrow> (exn + string) option \<Rightarrow> ('t \<Rightarrow> 't) list \<Rightarrow> string \<Rightarrow> 't workspace_watcher \<Rightarrow> 'w \<Rightarrow>
   (exn + (string \<times> pyval) list) \<times> 't workspace_watcher \<times> 'w" where
  "poll P E contents rounds name ww w =
     (case resolve_published P contents of
        Inl e \<Rightarrow> (Inl e, ww, w)
      | Inr addr \<Rightarrow>
          if addr = PNone then (Inr (error_dict (we_say E (NotPublished name))), ww, w)
          else
            let n = Suc (ww_counter ww); rid = digits_of n; ww1 = ww\<lparr>ww_counter := n\<rparr> in
            (case we_send E (ww_transport ww1) addr (we_dumps E (status_request (ww_id ww) rid (we_address E))) w of
               (Inl e, w') \<Rightarrow> (Inr (error_dict (we_say E (CouldNotReach name e))), ww1, w')
             | (Inr _, w') \<Rightarrow>
                 (case await_reply P (we_receive E) rid rounds (ww_transport ww1) of
                    (r, t) \<Rightarrow>
                      (bindE r (\<lambda>reply. Inr (case reply of None \<Rightarrow> error_dict ''timed out'' | Some resp \<Rightarrow> resp)),
                       ww1\<lparr>ww_transport := t\<rparr>, w'))))"

definition news_of :: "(string \<times> pyval) list \<Rightarrow> (string \<times> pyval) list" where
  "news_of status = map (\<lambda>k. (k, get_or_none status k)) NEWS_FIELDS"

text \<open>\<open>check\<close>, after its call of \<open>poll\<close>.\<close>

definition digest_reply ::
  "string \<Rightarrow> (string \<times> pyval) list \<Rightarrow> 't workspace_watcher \<Rightarrow>
   (exn + bool \<times> (string \<times> pyval) list) \<times> 't workspace_watcher" where
  "digest_reply name resp ww =
     (case map_of resp ''result'' of
        None \<Rightarrow> (Inr (False, resp), ww)
      | Some status \<Rightarrow>
          if \<not> is_dict status then (Inl (std_error ''AttributeError''), ww)
          else
            let news = news_of (dict_of status);
                changed = (case ww_last ww name of None \<Rightarrow> True | Some old \<Rightarrow> \<not> py_eq (PDict old) (PDict news)) in
            (Inr (changed, resp), if changed then ww\<lparr>ww_last := (ww_last ww)(name \<mapsto> news)\<rparr> else ww))"

definition check ::
  "platform \<Rightarrow> ('t, 'w) watch_env \<Rightarrow> (exn + string) option \<Rightarrow> ('t \<Rightarrow> 't) list \<Rightarrow> string \<Rightarrow> 't workspace_watcher \<Rightarrow> 'w \<Rightarrow>
   (exn + bool \<times> (string \<times> pyval) list) \<times> 't workspace_watcher \<times> 'w" where
  "check P E contents rounds name ww w =
     (case poll P E contents rounds name ww w of
        (Inl e, ww', w') \<Rightarrow> (Inl e, ww', w')
      | (Inr resp, ww', w') \<Rightarrow> (case digest_reply name resp ww' of (r, ww'') \<Rightarrow> (r, ww'', w')))"


section \<open>What a status depends on\<close>



text \<open>The owner's choices, which no request changes.\<close>

definition same_config :: "workspace_server \<Rightarrow> workspace_server \<Rightarrow> bool" where
  "same_config s s' \<longleftrightarrow> s'\<lparr>ws_access_log := []\<rparr> = s\<lparr>ws_access_log := []\<rparr>"


lemma same_config_refl [simp]: "same_config s s" "same_config s (s\<lparr>ws_access_log := l\<rparr>)"
  by (simp_all add: same_config_def)




text \<open>The keys of a status are those of its level.\<close>

definition status_keys :: "visibility \<Rightarrow> string list" where
  "status_keys v =
     [''workspace'', ''visibility'', ''branch'', ''note'', ''updated_at''] @
     (if v \<in> {STANDARD, DETAILED} then [''recent_commits''] else []) @ (if v = DETAILED then [''changed_files''] else [])"

lemma build_status_keys: "build_status run s at' = Inr status \<Longrightarrow> map fst status = status_keys (ws_visibility s)"
  by (auto simp: build_status_def status_keys_def split: if_splits)

text \<open>A changed file is listed by what follows the first word of its line, and nothing else of the output
  is released.\<close>

lemma changed_files_second: "x \<in> set (changed_files out) \<Longrightarrow> \<exists>line\<in>set (splitlines [] out). second_part line = Some x"
  by (auto simp: changed_files_def List.map_filter_def)


section \<open>Requests are authorized and logged\<close>



lemma status_released:
  assumes "fst (handle_status_request run u r tool v now at' s) = Inr resp" "has_key resp ''result''"
  shows "\<exists>i status. (case v of None \<Rightarrow> r | Some i \<Rightarrow> PStr i) = PStr i \<and> i \<in> ws_allow s \<and> tool = PStr ''get_status'' \<and>
     resp = [(''result'', PDict status)] \<and> map fst status = status_keys (ws_visibility s)"
  using assms
  by (auto simp: handle_status_request_def in_allow_def Let_def py_eq_string str_test_iff has_key_def NOT_AUTHORIZED_def
      split: sum.splits if_splits)
    (auto dest!: build_status_keys)



section \<open>Runs of a node on verified identities\<close>












section \<open>Runs that look the same\<close>











section \<open>Every call is logged\<close>









section \<open>The watcher reports exactly the news\<close>

lemma digest_exact:
  assumes "map_of resp ''result'' = Some (PDict status)"
  shows "digest_reply name resp ww =
     (Inr (ww_last ww name \<noteq> Some (news_of status), resp),
      if ww_last ww name = Some (news_of status) then ww else ww\<lparr>ww_last := (ww_last ww)(name \<mapsto> news_of status)\<rparr>)"
  using assms by (auto simp: digest_reply_def Let_def py_eq_def split: option.splits)

text \<open>An idle workspace causes no churn: after a status has been digested, one that differs only in other
  fields than the news is not reported again.\<close>

lemma no_churn:
  assumes "map_of resp ''result'' = Some (PDict status)" "map_of resp' ''result'' = Some (PDict status')"
    and "\<forall>k\<in>set NEWS_FIELDS. map_of status' k = map_of status k"
  shows "fst (digest_reply name resp' (snd (digest_reply name resp ww))) = Inr (False, resp')"
proof -
  have "news_of status' = news_of status" using assms(3) by (simp add: news_of_def get_or_none_def)
  then show ?thesis by (simp add: digest_exact[OF assms(1)] digest_exact[OF assms(2)])
qed

text \<open>The address in the published file is the one the watcher sends to.\<close>

lemma published_resolved:
  assumes "json_faithful P dumps (PDict [(''name'', PStr name), (''address'', PStr addr)])"
  shows "resolve_published P (Some (Inr (published_address dumps name addr))) = Inr (PStr addr)"
  using assms by (simp add: resolve_published_def published_address_def json_faithful_def getitem_def)

text \<open>A pull: the request that \<open>poll\<close> sends is answered by the server with the status, if the watcher is on
  the list, and the answer ends the pull.\<close>

lemma request_answered:
  assumes "json_faithful P dumps (status_request watcher rid addr)" "addr \<noteq> []"
    and "effective = (if wn_trust n then fr_source f else watcher)" "effective \<in> ws_allow (wn_server n)"
    and "fr_payload f = dumps (status_request watcher rid addr)" "build_status (ne_run E) (wn_server n) at' = Inr status"
  shows "snd (serve_status_frame P E now at' f n w) =
     snd (ne_send E (wn_transport n) addr (ne_dumps E (PDict [(''result'', PDict status), (''id'', PStr rid)])) w)"
proof -
  have "git run (s\<lparr>ws_access_log := l\<rparr>) args = git run s args" for run s l args by (simp add: git_def)
  then have b: "build_status (ne_run E) (wn_server n\<lparr>ws_access_log := l\<rparr>) at' = Inr status" for l
    using assms(6) by (simp add: build_status_def cong: if_cong)
  have r: "frame_dict P (fr_payload f) = Inr (Some (dict_of (status_request watcher rid addr)))"
    using frame_dict_faithful[of P dumps "dict_of (status_request watcher rid addr)"] assms(1,5) by (simp add: status_request_def)
  show ?thesis
    using assms(2-4) b
    by (cases "wn_trust n") (simp_all add: serve_status_frame_def r status_request_def get_or_def get_or_none_def handle_status_request_def in_allow_def
        send_reply_def Let_def)
qed

lemma answer_ends_pull:
  assumes "json_faithful P dumps (PDict [(''result'', PDict status), (''id'', PStr (digits_of (Suc (ww_counter ww))))])"
    and "resolve_published P contents = Inr (PStr addr)" "fst (we_send E (ww_transport ww) (PStr addr)
      (we_dumps E (status_request (ww_id ww) (digits_of (Suc (ww_counter ww))) (we_address E))) w) = Inr ()"
    and "taken (we_receive E) rounds (ww_transport ww) = before @ f # after"
    and "\<forall>g\<in>set before. passed_over P (digits_of (Suc (ww_counter ww))) g"
    and "fr_payload f = dumps (PDict [(''result'', PDict status), (''id'', PStr (digits_of (Suc (ww_counter ww))))])"
  shows "\<exists>ww' w'. check P E contents rounds name ww w =
     (Inr (ww_last ww name \<noteq> Some (news_of status),
           [(''result'', PDict status), (''id'', PStr (digits_of (Suc (ww_counter ww))))]), ww', w')"
proof -
  let ?rid = "digits_of (Suc (ww_counter ww))" and ?resp = "[(''result'', PDict status), (''id'', PStr (digits_of (Suc (ww_counter ww))))]"
  have "first_reply P ?rid (taken (we_receive E) rounds (ww_transport ww)) = Inr (Some ?resp)"
    unfolding assms(4)
    by (rule first_reply_found[OF assms(5)]) (use frame_dict_faithful[OF assms(1)] assms(6) in \<open>simp_all add: get_or_none_def\<close>)
  then obtain t where a: "await_reply P (we_receive E) ?rid rounds (ww_transport ww) = (Inr (Some ?resp), t)"
    using await_first[of P "we_receive E" ?rid rounds "ww_transport ww"]
    by (cases "await_reply P (we_receive E) ?rid rounds (ww_transport ww)") simp
  obtain w' where "we_send E (ww_transport ww) (PStr addr) (we_dumps E (status_request (ww_id ww) ?rid (we_address E))) w = (Inr (), w')"
    using assms(3) by (cases "we_send E (ww_transport ww) (PStr addr) (we_dumps E (status_request (ww_id ww) ?rid (we_address E))) w") simp
  let ?ww = "ww\<lparr>ww_counter := Suc (ww_counter ww), ww_transport := t\<rparr>"
  have "poll P E contents rounds name ww w = (Inr ?resp, ?ww, w')"
    using assms(2) a \<open>we_send E _ _ _ _ = _\<close> by (simp add: poll_def Let_def)
  moreover obtain ww2 where "digest_reply name ?resp ?ww = (Inr (ww_last ww name \<noteq> Some (news_of status), ?resp), ww2)"
    using digest_exact[of ?resp status name ?ww] by simp
  ultimately show ?thesis by (simp add: check_def)
qed


section \<open>Where the promises end\<close>

text \<open>One frame that holds no object ends the serving thread, whoever sends it.\<close>

lemma array_ends_status_server:
  assumes "p_json_loads P (fr_payload f) = Inr v" "\<not> is_dict v"
  shows "serve_status_frame P E now at' f n w = (n\<lparr>wn_serving := False\<rparr>, w)"
  using assms by (simp add: serve_status_frame_def frame_dict_def)

text \<open>So does a requester that is a list; this attempt is not logged.\<close>

lemma unhashable_requester:
  assumes "frame_dict P (fr_payload f) = Inr (Some req)" "get_or_none req ''op'' = PStr ''call''"
    and "map_of req ''requester'' = Some (PList xs)" "\<not> wn_trust n"
  shows "serve_status_frame P E now at' f n w = (n\<lparr>wn_serving := False\<rparr>, w)"
  using assms by (cases n) (simp add: serve_status_frame_def get_or_def handle_status_request_def in_allow_def)

text \<open>The watcher crashes on a frame that holds no object.\<close>

lemma array_crashes_watcher:
  assumes "taken receive rounds t = f # after" "p_json_loads P (fr_payload f) = Inr v" "\<not> is_dict v"
  shows "fst (await_reply P receive rid rounds t) = Inl (std_error ''AttributeError'')"
  using assms by (simp add: await_first frame_dict_def)


section \<open>An example\<close>








end
