(* ===== verification/Federation.thy ===== *)
theory Federation
  imports Frames
begin

text \<open>
  The federation of tool servers behind one gateway (\<open>integrations/mcp/federation/tool_server.py\<close> and
  \<open>mcp_gateway.py\<close>). The registry directory is a list of file names with what reading the file yields.
  \<open>dumps\<close> is \<open>json.dumps\<close>, \<open>pretty\<close> the one with \<open>indent=2\<close>; the messages of errors are parameters. Both
  ends use the socket transport of \<open>Sockets\<close>.
\<close>

section \<open>Tool servers\<close>

record mesh_tool =
  mt_description :: string
  mt_schema :: pyval
  mt_handler :: "pyval \<Rightarrow> exn + pyval"

record tool_server =
  ts_name :: string
  ts_tools :: "(string \<times> mesh_tool) list"
  ts_address :: string
  ts_transport :: socket_transport
  ts_serving :: bool

definition server_manifest :: "tool_server \<Rightarrow> (string \<times> pyval) list" where
  "server_manifest ts =
     [(''name'', PStr (ts_name ts)), (''address'', PStr (ts_address ts)),
      (''tools'', PList (map (\<lambda>(n, t). PDict [(''name'', PStr n), (''description'', PStr (mt_description t)),
                                                (''inputSchema'', mt_schema t)]) (ts_tools ts)))]"

type_synonym registry_dir = "(string \<times> (exn + string)) list"

definition announce :: "(pyval \<Rightarrow> string) \<Rightarrow> tool_server \<Rightarrow> string \<times> (exn + string)" where
  "announce pretty ts = (''backend-'' @ ts_name ts @ ''.json'', Inr (pretty (PDict (server_manifest ts))))"

text \<open>\<open>tool_exn\<close> is \<open>str(exc)\<close>, \<open>unknown_tool\<close> the message for a name that is no tool.\<close>

record server_texts =
  st_dumps :: "pyval \<Rightarrow> string"
  st_exn :: "exn \<Rightarrow> string"
  st_unknown :: "pyval \<Rightarrow> string"

definition find_tool :: "tool_server \<Rightarrow> pyval \<Rightarrow> mesh_tool option" where
  "find_tool ts tool = (case tool of PStr n \<Rightarrow> dget (ts_tools ts) n | _ \<Rightarrow> None)"

definition call_response :: "server_texts \<Rightarrow> tool_server \<Rightarrow> pyval \<Rightarrow> pyval \<Rightarrow> pyval \<Rightarrow> (string \<times> pyval) list" where
  "call_response T ts rid tool args =
     [(''id'', rid), (''server'', PStr (ts_name ts)),
      (case find_tool ts tool of
         None \<Rightarrow> (''error'', PStr (st_unknown T tool))
       | Some t \<Rightarrow>
           (case mt_handler t args of
              Inl e \<Rightarrow> (''error'', PStr (st_exn T e))
            | Inr result \<Rightarrow> (''result'', result)))]"

text \<open>One frame in \<open>_serve\<close>. \<open>tool in self.tools\<close> is outside the handlers; errors of \<open>send\<close> are only
  printed.\<close>

definition serve_call_frame ::
  "platform \<Rightarrow> server_texts \<Rightarrow> ('c, 'w) tcp \<Rightarrow> frame \<Rightarrow> tool_server \<Rightarrow> 'w \<Rightarrow> tool_server \<times> 'w" where
  "serve_call_frame P T N f ts w =
     (case frame_dict P (fr_payload f) of
        Inl e \<Rightarrow> (ts\<lparr>ts_serving := False\<rparr>, w)
      | Inr None \<Rightarrow> (ts, w)
      | Inr (Some req) \<Rightarrow>
          if \<not> py_eq (get_or_none req ''op'') (PStr ''call'') then (ts, w)
          else if is_container (get_or_none req ''tool'') then (ts\<lparr>ts_serving := False\<rparr>, w)
          else
            let resp = call_response T ts (get_or_none req ''id'') (get_or_none req ''tool'') (get_or_dict req ''args'');
                reply_to = get_or_none req ''reply_to'' in
            (ts, if truthy reply_to then snd (send_to_value N reply_to (st_dumps T (PDict resp)) w) else w))"

definition tool_server_round ::
  "platform \<Rightarrow> server_texts \<Rightarrow> ('c, 'w) tcp \<Rightarrow> tool_server \<Rightarrow> 'w \<Rightarrow> tool_server \<times> 'w" where
  "tool_server_round P T N ts w =
     (if \<not> ts_serving ts then (ts, w)
      else case socket_receive (ts_transport ts) of
        (None, t) \<Rightarrow> (ts\<lparr>ts_transport := t\<rparr>, w)
      | (Some f, t) \<Rightarrow> serve_call_frame P T N f (ts\<lparr>ts_transport := t\<rparr>) w)"

text \<open>The stub tools.\<close>

definition NO_ARGS_SCHEMA :: pyval where
  "NO_ARGS_SCHEMA = PDict [(''type'', PStr ''object''), (''properties'', PDict [])]"

definition REPO_TOOLS :: "(pyval \<Rightarrow> string) \<Rightarrow> (string \<times> mesh_tool) list" where
  "REPO_TOOLS shown =
     [(''list_files'', \<lparr>mt_description = ''List the files in the repository.'', mt_schema = NO_ARGS_SCHEMA,
         mt_handler = (\<lambda>a. Inr (PDict [(''files'', PList [PStr ''README.md'', PStr ''src/app.py'', PStr ''src/util.py''])]))\<rparr>),
      (''read_file'', \<lparr>mt_description = ''Read a file from the repository.'',
         mt_schema = PDict [(''type'', PStr ''object''),
           (''properties'', PDict [(''path'', PDict [(''type'', PStr ''string'')])]), (''required'', PList [PStr ''path''])],
         mt_handler = (\<lambda>a. bindE (attr_get a ''path'') (\<lambda>path.
           Inr (PDict [(''path'', path),
             (''contents'', PStr (''# stub contents of '' @ shown_text shown path @ [newline] @ ''print('' @ [CHR 0x27] @ ''hello'' @
                [CHR 0x27] @ '')'' @ [newline]))])))\<rparr>)]"

definition DEPLOY_TOOLS :: "(string \<times> mesh_tool) list" where
  "DEPLOY_TOOLS =
     [(''status'', \<lparr>mt_description = ''Current deployment status by environment.'', mt_schema = NO_ARGS_SCHEMA,
         mt_handler = (\<lambda>a. Inr (PDict [(''staging'', PStr ''healthy''), (''prod'', PStr ''healthy'')]))\<rparr>),
      (''history'', \<lparr>mt_description = ''Recent deployments.'', mt_schema = NO_ARGS_SCHEMA,
         mt_handler = (\<lambda>a. Inr (PDict [(''recent'', PList
           [PDict [(''env'', PStr ''staging''), (''sha'', PStr ''abc123''), (''when'', PStr ''2h ago'')],
            PDict [(''env'', PStr ''prod''), (''sha'', PStr ''def456''), (''when'', PStr ''yesterday'')]])]))\<rparr>)]"


section \<open>Discovery\<close>

text \<open>\<open>sorted(registry.glob("backend-*.json"))\<close>\<close>

definition is_announcement :: "string \<Rightarrow> bool" where
  "is_announcement n \<longleftrightarrow>
     take 8 n = ''backend-'' \<and> drop (length n - 5) n = ''.json'' \<and> 13 \<le> length n"

definition announce_files :: "registry_dir \<Rightarrow> (exn + string) list" where
  "announce_files reg = map snd (sort_key fst (filter (\<lambda>f. is_announcement (fst f)) reg))"

text \<open>A dict whose keys are decoded values.\<close>

fun value_set :: "pyval \<Rightarrow> 'v \<Rightarrow> (pyval \<times> 'v) list \<Rightarrow> (pyval \<times> 'v) list" where
  "value_set k v [] = [(k, v)]"
| "value_set k v ((k', v') # d) = (if py_eq k' k then (k', v) # d else (k', v') # value_set k v d)"

definition value_get :: "(pyval \<times> 'v) list \<Rightarrow> pyval \<Rightarrow> 'v option" where
  "value_get d k = map_option snd (find (\<lambda>e. py_eq (fst e) k) d)"

type_synonym backends = "(pyval \<times> (string \<times> pyval) list) list"

definition read_manifest :: "platform \<Rightarrow> exn + string \<Rightarrow> exn + pyval \<times> (string \<times> pyval) list" where
  "read_manifest P contents =
     bindE contents (\<lambda>c.
     bindE (p_json_loads P c) (\<lambda>m.
     if \<not> is_dict m then Inl (std_error ''TypeError'')
     else bindE (getitem (dict_of m) ''name'') (\<lambda>n.
       if is_container n then Inl (std_error ''TypeError'') else Inr (n, dict_of m))))"

fun discover_files :: "platform \<Rightarrow> (exn + string) list \<Rightarrow> backends \<Rightarrow> exn + backends" where
  "discover_files P [] bs = Inr bs"
| "discover_files P (c # cs) bs =
     (case read_manifest P c of
        Inr (n, m) \<Rightarrow> discover_files P cs (value_set n m bs)
      | Inl e \<Rightarrow> if registry_error e then discover_files P cs bs else Inl e)"

definition discover :: "platform \<Rightarrow> registry_dir \<Rightarrow> exn + backends" where
  "discover P reg = discover_files P (announce_files reg) []"


section \<open>The gateway\<close>

definition NS :: string where
  "NS = ''__''"

text \<open>Iteration over a value.\<close>

definition elements :: "pyval \<Rightarrow> exn + pyval list" where
  "elements v =
     (case v of
        PList xs \<Rightarrow> Inr xs
      | PStr s \<Rightarrow> Inr (map (\<lambda>c. PStr [c]) s)
      | PDict d \<Rightarrow> Inr (map (PStr \<circ> fst) d)
      | _ \<Rightarrow> Inl (std_error ''TypeError''))"

definition list_tool :: "(pyval \<Rightarrow> string) \<Rightarrow> pyval \<Rightarrow> pyval \<Rightarrow> exn + pyval" where
  "list_tool shown bname t =
     (if \<not> is_dict t then Inl (std_error ''TypeError'')
      else bindE (getitem (dict_of t) ''name'') (\<lambda>n.
        Inr (PDict
          [(''name'', PStr (shown_text shown bname @ NS @ shown_text shown n)),
           (''description'', PStr (''['' @ shown_text shown bname @ ''] '' @ shown_text shown (get_or (dict_of t) ''description'' (PStr [])))),
           (''inputSchema'', get_or (dict_of t) ''inputSchema'' (PDict [(''type'', PStr ''object'')]))])))"

fun map_all :: "('a \<Rightarrow> exn + 'b) \<Rightarrow> 'a list \<Rightarrow> exn + 'b list" where
  "map_all f [] = Inr []"
| "map_all f (x # xs) = bindE (f x) (\<lambda>y. bindE (map_all f xs) (\<lambda>ys. Inr (y # ys)))"

definition backend_tools :: "(pyval \<Rightarrow> string) \<Rightarrow> pyval \<times> (string \<times> pyval) list \<Rightarrow> exn + pyval list" where
  "backend_tools shown b =
     bindE (elements (get_or (snd b) ''tools'' (PList []))) (map_all (list_tool shown (fst b)))"

definition list_tools :: "platform \<Rightarrow> (pyval \<Rightarrow> string) \<Rightarrow> registry_dir \<Rightarrow> exn + pyval list" where
  "list_tools P shown reg =
     bindE (discover P reg) (\<lambda>bs. bindE (map_all (backend_tools shown) bs) (\<lambda>tss. Inr (concat tss)))"

text \<open>\<open>namespaced.partition("__")\<close>\<close>

fun partition_ns :: "string \<Rightarrow> (string \<times> string) option" where
  "partition_ns (c # d # cs) =
     (if c = CHR ''_'' \<and> d = CHR ''_'' then Some ([], cs)
      else map_option (\<lambda>p. (c # fst p, snd p)) (partition_ns (d # cs)))"
| "partition_ns _ = None"

text \<open>\<open>sorted(backends)\<close> in a message: strings compare with strings, numbers with numbers.\<close>

definition is_number :: "pyval \<Rightarrow> bool" where
  "is_number v \<longleftrightarrow> (case v of PBool b \<Rightarrow> True | PInt n \<Rightarrow> True | PFloat x \<Rightarrow> True | _ \<Rightarrow> False)"

definition sortable :: "pyval list \<Rightarrow> bool" where
  "sortable ks \<longleftrightarrow> length ks \<le> 1 \<or> list_all is_str ks \<or> list_all is_number ks"

datatype gateway_wording = BadName string | NoBackend string "pyval list" | Unreachable string exn | BackendTimeout
  | ToolError pyval | NoMethod pyval | GatewayError exn

record gateway_texts =
  gt_say :: "gateway_wording \<Rightarrow> string"
  gt_shown :: "pyval \<Rightarrow> string"
  gt_dumps :: "pyval \<Rightarrow> string"
  gt_pretty :: "pyval \<Rightarrow> string"

record gateway =
  gw_transport :: socket_transport
  gw_address :: string
  gw_counter :: nat

definition call_request :: "string \<Rightarrow> pyval \<Rightarrow> string \<Rightarrow> string \<Rightarrow> pyval" where
  "call_request tool args rid reply_to =
     PDict [(''op'', PStr ''call''), (''tool'', PStr tool), (''args'', args), (''id'', PStr rid), (''reply_to'', PStr reply_to)]"

definition gateway_error :: "string \<Rightarrow> (string \<times> pyval) list" where
  "gateway_error m = [(''error'', PStr m)]"

text \<open>\<open>call\<close>, with the work of the transport's thread in the rounds of \<open>_await\<close>.\<close>

definition gateway_call ::
  "platform \<Rightarrow> gateway_texts \<Rightarrow> ('c, 'w) tcp \<Rightarrow> registry_dir \<Rightarrow> (socket_transport \<Rightarrow> socket_transport) list \<Rightarrow> pyval \<Rightarrow> pyval \<Rightarrow>
   gateway \<Rightarrow> 'w \<Rightarrow> (exn + (string \<times> pyval) list) \<times> gateway \<times> 'w" where
  "gateway_call P T N reg rounds namespaced args g w =
     (if \<not> is_str namespaced then (Inl (std_error ''AttributeError''), g, w)
      else case partition_ns (str_of namespaced) of
        None \<Rightarrow> (Inr (gateway_error (gt_say T (BadName (str_of namespaced)))), g, w)
      | Some (bname, tool) \<Rightarrow>
          (case discover P reg of
             Inl e \<Rightarrow> (Inl e, g, w)
           | Inr bs \<Rightarrow>
               (case value_get bs (PStr bname) of
                  None \<Rightarrow>
                    (if sortable (map fst bs) then Inr (gateway_error (gt_say T (NoBackend bname (map fst bs))))
                     else Inl (std_error ''TypeError''), g, w)
                | Some m \<Rightarrow>
                    (case getitem m ''address'' of
                       Inl e \<Rightarrow> (Inl e, g, w)
                     | Inr addr \<Rightarrow>
                         let n = Suc (gw_counter g); rid = digits_of n; g1 = g\<lparr>gw_counter := n\<rparr> in
                         (case send_to_value N addr (gt_dumps T (call_request tool args rid (gw_address g))) w of
                            (Inl e, w') \<Rightarrow> (Inr (gateway_error (gt_say T (Unreachable bname e))), g1, w')
                          | (Inr _, w') \<Rightarrow>
                              (case await_reply P socket_receive rid rounds (gw_transport g1) of
                                 (r, t) \<Rightarrow>
                                   (bindE r (\<lambda>reply. Inr (case reply of
                                        None \<Rightarrow> gateway_error (gt_say T BackendTimeout) | Some resp \<Rightarrow> resp)),
                                    g1\<lparr>gw_transport := t\<rparr>, w')))))))"

definition gateway_dispatch ::
  "platform \<Rightarrow> gateway_texts \<Rightarrow> ('c, 'w) tcp \<Rightarrow> registry_dir \<Rightarrow> (socket_transport \<Rightarrow> socket_transport) list \<Rightarrow> pyval \<Rightarrow>
   gateway \<Rightarrow> 'w \<Rightarrow> (exn + pyval) \<times> gateway \<times> 'w" where
  "gateway_dispatch P T N reg rounds params g w =
     (if \<not> is_dict params then (Inl (std_error ''AttributeError''), g, w)
      else case gateway_call P T N reg rounds (get_or (dict_of params) ''name'' (PStr [])) (get_or_dict (dict_of params) ''arguments'') g w of
        (r, g', w') \<Rightarrow>
          (bindE r (\<lambda>resp. Inr
             (case map_of resp ''error'' of
                Some e \<Rightarrow> text_result (gt_say T (ToolError e)) True
              | None \<Rightarrow> text_result (gt_pretty T (get_or_none resp ''result'')) False)), g', w'))"

definition gateway_initialize :: "pyval \<Rightarrow> exn + pyval" where
  "gateway_initialize params =
     (if \<not> is_dict params then Inl (std_error ''AttributeError'')
      else Inr (PDict
        [(''protocolVersion'', get_or (dict_of params) ''protocolVersion'' (PStr PROTOCOL_FALLBACK)),
         (''capabilities'', PDict [(''tools'', PDict [(''listChanged'', PBool False)])]),
         (''serverInfo'', PDict [(''name'', PStr ''walkietalkie-mcp-gateway''), (''version'', PStr ''0.1.0'')])]))"

definition gateway_method ::
  "platform \<Rightarrow> gateway_texts \<Rightarrow> ('c, 'w) tcp \<Rightarrow> registry_dir \<Rightarrow> (socket_transport \<Rightarrow> socket_transport) list \<Rightarrow>
   (string \<times> pyval) list \<Rightarrow> gateway \<Rightarrow> 'w \<Rightarrow> (exn + pyval option) \<times> gateway \<times> 'w" where
  "gateway_method P T N reg rounds msg g w =
     (let m = get_or_none msg ''method''; mid = get_or_none msg ''id'' in
      if py_eq (PStr ''initialize'') m then
        (bindE (gateway_initialize (get_or_dict msg ''params'')) (\<lambda>r. Inr (Some (result_reply mid r))), g, w)
      else if py_eq (PStr ''tools/list'') m then
        (bindE (list_tools P (gt_shown T) reg) (\<lambda>ts. Inr (Some (result_reply mid (PDict [(''tools'', PList ts)])))), g, w)
      else if py_eq (PStr ''tools/call'') m then
        (case gateway_dispatch P T N reg rounds (get_or_dict msg ''params'') g w of
           (r, g', w') \<Rightarrow> (bindE r (\<lambda>v. Inr (Some (result_reply mid v))), g', w'))
      else if py_eq (PStr ''ping'') m then (Inr (Some (result_reply mid (PDict []))), g, w)
      else if \<not> has_key msg ''id'' then (Inr None, g, w)
      else (Inr (Some (bridge_error mid (- 32601) (gt_say T (NoMethod m)))), g, w))"

definition gateway_line ::
  "platform \<Rightarrow> gateway_texts \<Rightarrow> ('c, 'w) tcp \<Rightarrow> registry_dir \<Rightarrow> (socket_transport \<Rightarrow> socket_transport) list \<Rightarrow> string \<Rightarrow>
   gateway \<Rightarrow> 'w \<Rightarrow> (exn + pyval option) \<times> gateway \<times> 'w" where
  "gateway_line P T N reg rounds line g w =
     (if strip_space line = [] then (Inr None, g, w)
      else case p_json_loads P (strip_space line) of
        Inl e \<Rightarrow> (if exn_cls e = StdError ''JSONDecodeError'' then Inr None else Inl e, g, w)
      | Inr msg \<Rightarrow>
          if \<not> is_dict msg then (Inl (std_error ''AttributeError''), g, w)
          else case gateway_method P T N reg rounds (dict_of msg) g w of
            (Inr reply, g', w') \<Rightarrow> (Inr reply, g', w')
          | (Inl e, g', w') \<Rightarrow>
              (Inr (if \<not> has_key (dict_of msg) ''id'' then None
                    else Some (bridge_error (get_or_none (dict_of msg) ''id'') (- 32603) (gt_say T (GatewayError e)))), g', w'))"


section \<open>Names\<close>

text \<open>A backend name that the first separator cannot cut.\<close>

definition ns_safe :: "string \<Rightarrow> bool" where
  "ns_safe name \<longleftrightarrow> partition_ns (name @ ''_'') = None"

lemma partition_append:
  "partition_ns s = Some (a, b) \<Longrightarrow> partition_ns (s @ t) = Some (a, b @ t)"
proof (induction s arbitrary: a rule: partition_ns.induct)
  case (1 c d cs)
  then show ?case by (auto split: if_splits)
qed auto

lemma partition_safe: "ns_safe name \<Longrightarrow> partition_ns (name @ NS @ tool) = Some (name, tool)"
  unfolding ns_safe_def NS_def
proof (induction name rule: partition_ns.induct)
  case (1 c d cs)
  then show ?case by (auto split: if_splits)
qed (auto split: if_splits)

text \<open>Any other name is cut at another place: a call of one of its tools goes elsewhere.\<close>

lemma partition_fst_length:
  "partition_ns s = Some (a, b) \<Longrightarrow> s = a @ NS @ b"
  by (induction s arbitrary: a rule: partition_ns.induct) (auto simp: NS_def split: if_splits)

lemma partition_unsafe:
  assumes "\<not> ns_safe name"
  shows "\<exists>other rest. partition_ns (name @ NS @ tool) = Some (other, rest) \<and> length other < length name"
proof -
  obtain a b where p: "partition_ns (name @ ''_'') = Some (a, b)" using assms unfolding ns_safe_def by auto
  have "partition_ns (name @ NS @ tool) = Some (a, b @ ''_'' @ tool)"
    using partition_append[OF p, of "''_'' @ tool"] by (simp add: NS_def)
  moreover have "length name + 1 = length a + 2 + length b"
    using arg_cong[OF partition_fst_length[OF p], of length] by (simp add: NS_def)
  ultimately show ?thesis by auto
qed


section \<open>Discovery of announced servers\<close>

lemma value_set_new: "\<forall>e\<in>set d. \<not> py_eq (fst e) k \<Longrightarrow> value_set k v d = d @ [(k, v)]"
  by (induction d) auto

definition announced :: "platform \<Rightarrow> (pyval \<Rightarrow> string) \<Rightarrow> tool_server list \<Rightarrow> bool" where
  "announced P pretty ss \<longleftrightarrow>
     distinct (map ts_name ss) \<and> (\<forall>s\<in>set ss. json_faithful P pretty (PDict (server_manifest s)))"

lemma read_announced:
  "json_faithful P pretty (PDict (server_manifest s)) \<Longrightarrow>
   read_manifest P (snd (announce pretty s)) = Inr (PStr (ts_name s), server_manifest s)"
  by (simp add: read_manifest_def announce_def json_faithful_def getitem_def server_manifest_def)

lemma discover_announced:
  assumes "distinct (map ts_name ss)" "\<forall>s\<in>set ss. json_faithful P pretty (PDict (server_manifest s))"
    and "\<forall>e\<in>set bs. \<forall>s\<in>set ss. fst e \<noteq> PStr (ts_name s)"
  shows "discover_files P (map (\<lambda>s. snd (announce pretty s)) ss) bs = Inr (bs @ map (\<lambda>s. (PStr (ts_name s), server_manifest s)) ss)"
  using assms
proof (induction ss arbitrary: bs)
  case (Cons s ss)
  have "value_set (PStr (ts_name s)) (server_manifest s) bs = bs @ [(PStr (ts_name s), server_manifest s)]"
    by (rule value_set_new) (use Cons.prems(3) in \<open>auto simp: py_eq_string\<close>)
  then show ?case
    using Cons.IH[of "bs @ [(PStr (ts_name s), server_manifest s)]"] Cons.prems read_announced[of P pretty s] by auto
qed simp

lemma sort_key_map: "sort_key f (map g xs) = map g (sort_key (f \<circ> g) xs)"
proof (induction xs)
  case (Cons x xs)
  have "insort_key f (g x) (map g ys) = map g (insort_key (f \<circ> g) x ys)" for ys by (induction ys) auto
  from this[of "sort_key (f \<circ> g) xs"] show ?case using Cons by (simp add: comp_def)
qed simp

definition server_order :: "(pyval \<Rightarrow> string) \<Rightarrow> tool_server list \<Rightarrow> tool_server list" where
  "server_order pretty ss = sort_key (fst \<circ> announce pretty) ss"

lemma server_order_set [simp]: "set (server_order pretty ss) = set ss"
  by (simp add: server_order_def)

lemma server_order_distinct: "distinct (map ts_name ss) \<Longrightarrow> distinct (map ts_name (server_order pretty ss))"
  by (simp add: distinct_map server_order_def)

lemma discovered:
  assumes "announced P pretty ss"
  shows "discover P (map (announce pretty) ss) = Inr (map (\<lambda>s. (PStr (ts_name s), server_manifest s)) (server_order pretty ss))"
proof -
  have "is_announcement (fst (announce pretty s))" for s
    by (simp add: is_announcement_def announce_def)
  then have "filter (\<lambda>f. is_announcement (fst f)) (map (announce pretty) ss) = map (announce pretty) ss"
    by (simp add: filter_map comp_def)
  then have "announce_files (map (announce pretty) ss) = map (\<lambda>s. snd (announce pretty s)) (server_order pretty ss)"
    by (simp add: announce_files_def server_order_def sort_key_map)
  then show ?thesis
    using assms discover_announced[of "server_order pretty ss" P pretty "[]"] server_order_distinct[of ss pretty]
    by (simp add: discover_def announced_def)
qed

lemma find_unique:
  assumes "distinct (map ts_name ss)" "s \<in> set ss"
  shows "value_get (map (\<lambda>s. (PStr (ts_name s), server_manifest s)) ss) (PStr (ts_name s)) = Some (server_manifest s)"
  using assms by (induction ss) (auto simp: value_get_def py_eq_string)

lemma backend_found:
  assumes "announced P pretty ss" "s \<in> set ss"
  shows "\<exists>bs. discover P (map (announce pretty) ss) = Inr bs \<and> value_get bs (PStr (ts_name s)) = Some (server_manifest s)"
proof -
  have "distinct (map ts_name (server_order pretty ss))" "s \<in> set (server_order pretty ss)"
    using assms server_order_distinct by (auto simp: announced_def)
  then show ?thesis using discovered[OF assms(1)] find_unique by blast
qed

text \<open>The tools listed are exactly those of the servers, under their server's name.\<close>

definition listed_tool :: "tool_server \<Rightarrow> string \<times> mesh_tool \<Rightarrow> pyval" where
  "listed_tool s nt =
     PDict [(''name'', PStr (ts_name s @ NS @ fst nt)),
            (''description'', PStr (''['' @ ts_name s @ ''] '' @ mt_description (snd nt))), (''inputSchema'', mt_schema (snd nt))]"

lemma tools_listed:
  assumes "announced P pretty ss"
  shows "list_tools P shown (map (announce pretty) ss) =
     Inr (concat (map (\<lambda>s. map (listed_tool s) (ts_tools s)) (server_order pretty ss)))"
proof -
  have "map_all (list_tool shown (PStr (ts_name s)))
      (map (\<lambda>(n, t). PDict [(''name'', PStr n), (''description'', PStr (mt_description t)), (''inputSchema'', mt_schema t)]) ts) =
      Inr (map (listed_tool s) ts)" for s ts
    by (induction ts) (auto simp: list_tool_def getitem_def shown_text_def get_or_def listed_tool_def)
  then have "backend_tools shown (PStr (ts_name s), server_manifest s) = Inr (map (listed_tool s) (ts_tools s))" for s
    by (simp add: backend_tools_def get_or_def server_manifest_def elements_def)
  then have "map_all (backend_tools shown) (map (\<lambda>s. (PStr (ts_name s), server_manifest s)) xs) =
      Inr (map (\<lambda>s. map (listed_tool s) (ts_tools s)) xs)" for xs
    by (induction xs) simp_all
  then show ?thesis by (simp add: list_tools_def discovered[OF assms])
qed


section \<open>A call through the gateway\<close>

definition tool_reply :: "server_texts \<Rightarrow> tool_server \<Rightarrow> string \<Rightarrow> mesh_tool \<Rightarrow> pyval \<Rightarrow> (string \<times> pyval) list" where
  "tool_reply T ts rid t args =
     [(''id'', PStr rid), (''server'', PStr (ts_name ts)),
      (case mt_handler t args of Inl e \<Rightarrow> (''error'', PStr (st_exn T e)) | Inr result \<Rightarrow> (''result'', result))]"

definition next_id :: "gateway \<Rightarrow> string" where
  "next_id g = digits_of (Suc (gw_counter g))"

lemma call_sends:
  assumes "announced P pretty ss" "ts \<in> set ss" "ns_safe (ts_name ts)"
  shows "gateway_call P G N (map (announce pretty) ss) rounds (PStr (ts_name ts @ NS @ tool)) args g w =
     (case socket_send N (ts_address ts) (gt_dumps G (call_request tool args (next_id g) (gw_address g))) w of
        (Inl e, w') \<Rightarrow> (Inr (gateway_error (gt_say G (Unreachable (ts_name ts) e))), g\<lparr>gw_counter := Suc (gw_counter g)\<rparr>, w')
      | (Inr _, w') \<Rightarrow>
          (case await_reply P socket_receive (next_id g) rounds (gw_transport g) of
             (r, t) \<Rightarrow>
               (bindE r (\<lambda>reply. Inr (case reply of None \<Rightarrow> gateway_error (gt_say G BackendTimeout) | Some resp \<Rightarrow> resp)),
                g\<lparr>gw_counter := Suc (gw_counter g), gw_transport := t\<rparr>, w')))"
proof -
  obtain bs where bs: "discover P (map (announce pretty) ss) = Inr bs"
    "value_get bs (PStr (ts_name ts)) = Some (server_manifest ts)"
    using backend_found[OF assms(1,2)] by blast
  have a: "getitem (server_manifest ts) ''address'' = Inr (PStr (ts_address ts))" by (simp add: server_manifest_def)
  show ?thesis
    by (simp add: gateway_call_def partition_safe[OF assms(3)] bs a send_to_value_def next_id_def Let_def
        split: sum.split prod.split)
qed

lemma call_served:
  assumes "json_faithful P dumps (call_request tool args rid addr)" "fr_payload f = dumps (call_request tool args rid addr)"
    and "dget (ts_tools ts) tool = Some t" "addr \<noteq> []"
  shows "serve_call_frame P T N f ts w =
     (ts, snd (socket_send N addr (st_dumps T (PDict (tool_reply T ts rid t (if truthy args then args else PDict [])))) w))"
proof -
  have r: "frame_dict P (fr_payload f) = Inr (Some (dict_of (call_request tool args rid addr)))"
    using frame_dict_faithful[of P dumps "dict_of (call_request tool args rid addr)"] assms(1,2) by (simp add: call_request_def)
  show ?thesis
    using assms(3,4)
    by (simp add: serve_call_frame_def r call_request_def get_or_none_def get_or_dict_def call_response_def find_tool_def
        tool_reply_def send_to_value_def Let_def)
qed

lemma reply_awaited:
  assumes "json_faithful P dumps (PDict (tool_reply T ts rid t args))"
    and "taken receive rounds t0 = before @ f # after" "\<forall>h\<in>set before. passed_over P rid h"
    and "fr_payload f = dumps (PDict (tool_reply T ts rid t args))"
  shows "fst (await_reply P receive rid rounds t0) = Inr (Some (tool_reply T ts rid t args))"
  unfolding await_first assms(2)
  by (rule first_reply_found[OF assms(3)])
    (use frame_dict_faithful[OF assms(1)] assms(4) in \<open>simp_all add: get_or_none_def tool_reply_def\<close>)

text \<open>A reply that already waits in the inbox is reached if the deadline leaves rounds enough.\<close>

lemma waiting_reply_awaited:
  assumes "json_faithful P dumps (PDict (tool_reply T ts rid t args))" "so_inbox st = before @ f # after" "length before < n"
    and "\<forall>h\<in>set before. passed_over P rid h" "fr_payload f = dumps (PDict (tool_reply T ts rid t args))"
  shows "fst (await_reply P socket_receive rid (replicate n id) st) = Inr (Some (tool_reply T ts rid t args))"
  by (rule socket.pending_reply_found[OF assms(2-4)])
    (use frame_dict_faithful[OF assms(1)] assms(5) in \<open>simp_all add: get_or_none_def tool_reply_def\<close>)

definition tool_answer :: "gateway_texts \<Rightarrow> server_texts \<Rightarrow> mesh_tool \<Rightarrow> pyval \<Rightarrow> pyval" where
  "tool_answer G T t args =
     (case mt_handler t args of
        Inr result \<Rightarrow> text_result (gt_pretty G result) False
      | Inl e \<Rightarrow> text_result (gt_say G (ToolError (PStr (st_exn T e)))) True)"

text \<open>C28. The federation routes every listed tool to its own server. For any set of announced servers with
  distinct names the gateway lists exactly their tools, each as \<open>server__tool\<close>. If no separator cuts the
  server's name, a call of such a tool sends one request, to this server; the server applies the handler of
  this tool to these arguments and sends the outcome back to the gateway under the id of the request; and as
  soon as this frame arrives, whatever other objects arrived before, the call returns the handler's result,
  or its error as an error.\<close>

theorem federated_call:
  assumes "announced P pretty ss" "ts \<in> set ss" "ns_safe (ts_name ts)" "dget (ts_tools ts) tool = Some t"
    and "args' = (if truthy args then args else PDict [])" "req = call_request tool args' (next_id g) (gw_address g)"
    and "gw_address g \<noteq> []" "json_faithful P (gt_dumps G) req"
    and "resp = PDict (tool_reply T ts (next_id g) t args')" "json_faithful P (st_dumps T) resp"
    and "params = PDict [(''name'', PStr (ts_name ts @ NS @ tool)), (''arguments'', args)]"
  shows "(\<exists>tools. list_tools P (gt_shown G) (map (announce pretty) ss) = Inr tools \<and>
       set tools = {listed_tool s nt | s nt. s \<in> set ss \<and> nt \<in> set (ts_tools s)}) \<and>
    snd (snd (gateway_dispatch P G N (map (announce pretty) ss) rounds params g w)) =
      snd (socket_send N (ts_address ts) (gt_dumps G req) w) \<and>
    (\<forall>f w'. fr_payload f = gt_dumps G req \<longrightarrow>
       serve_call_frame P T N f ts w' = (ts, snd (socket_send N (gw_address g) (st_dumps T resp) w'))) \<and>
    (\<forall>before f after.
       fst (socket_send N (ts_address ts) (gt_dumps G req) w) = Inr () \<and>
       taken socket_receive rounds (gw_transport g) = before @ f # after \<and>
       (\<forall>h\<in>set before. passed_over P (next_id g) h) \<and> fr_payload f = st_dumps T resp \<longrightarrow>
       fst (gateway_dispatch P G N (map (announce pretty) ss) rounds params g w) = Inr (tool_answer G T t args'))"
    (is "?listed \<and> ?sent \<and> ?served \<and> ?answered")
proof -
  note call = call_sends[OF assms(1-3), of G N rounds tool args' g w, folded assms(6)]
  have d: "gateway_dispatch P G N (map (announce pretty) ss) rounds params g w =
      (case gateway_call P G N (map (announce pretty) ss) rounds (PStr (ts_name ts @ NS @ tool)) args' g w of
         (r, g', w') \<Rightarrow> (bindE r (\<lambda>resp. Inr
           (case map_of resp ''error'' of
              Some e \<Rightarrow> text_result (gt_say G (ToolError e)) True
            | None \<Rightarrow> text_result (gt_pretty G (get_or_none resp ''result'')) False)), g', w'))"
    by (simp add: gateway_dispatch_def assms(5,11) get_or_def get_or_dict_def get_or_none_def)
  have "?listed"
    using tools_listed[OF assms(1)] by (auto simp: set_concat)
  moreover have "?sent"
    unfolding d call by (auto split: prod.splits sum.splits)
  moreover have "?served"
    using call_served[OF assms(8)[unfolded assms(6)] _ assms(4,7)] assms(5,6,9) by auto
  moreover have "?answered"
  proof (intro allI impI)
    fix before f after
    assume a: "fst (socket_send N (ts_address ts) (gt_dumps G req) w) = Inr () \<and>
       taken socket_receive rounds (gw_transport g) = before @ f # after \<and>
       (\<forall>h\<in>set before. passed_over P (next_id g) h) \<and> fr_payload f = st_dumps T resp"
    then have "fst (await_reply P socket_receive (next_id g) rounds (gw_transport g)) = Inr (Some (tool_reply T ts (next_id g) t args'))"
      using reply_awaited[OF assms(10)[unfolded assms(9)], of socket_receive rounds "gw_transport g" before f after] assms(9)
      by simp
    then obtain t' where "await_reply P socket_receive (next_id g) rounds (gw_transport g) =
        (Inr (Some (tool_reply T ts (next_id g) t args')), t')"
      by (cases "await_reply P socket_receive (next_id g) rounds (gw_transport g)") simp
    then show "fst (gateway_dispatch P G N (map (announce pretty) ss) rounds params g w) = Inr (tool_answer G T t args')"
      using a unfolding d call
      by (auto simp: tool_reply_def tool_answer_def get_or_none_def split: prod.splits sum.splits)
  qed
  ultimately show ?thesis by blast
qed


section \<open>Where the federation gives way\<close>

text \<open>An announcement that is JSON but no object is not skipped: no tool is listed and no call routed.\<close>

lemma array_announcement:
  assumes "p_json_loads P c = Inr v" "\<not> is_dict v"
  shows "discover_files P (Inr c # cs) bs = Inl (std_error ''TypeError'')"
  using assms by (simp add: read_manifest_def registry_error_def is_oserror_def value_or_type_error_def std_error_def)

text \<open>Two servers can own the same listed name, and the call goes to the one with the shorter name.\<close>

lemma listed_name_ambiguous:
  "''a__b'' @ NS @ ''t'' = ''a'' @ NS @ ''b__t'' \<and> partition_ns (''a__b'' @ NS @ ''t'') = Some (''a'', ''b__t'')"
  by (simp add: NS_def)

text \<open>One frame ends a server: no object, or a tool name that is a list.\<close>

lemma frame_ends_tool_server:
  "p_json_loads P (fr_payload f) = Inr v \<Longrightarrow> \<not> is_dict v \<Longrightarrow> serve_call_frame P T N f ts w = (ts\<lparr>ts_serving := False\<rparr>, w)"
  "frame_dict P (fr_payload f) = Inr (Some req) \<Longrightarrow> get_or_none req ''op'' = PStr ''call'' \<Longrightarrow> get_or_none req ''tool'' = PList xs \<Longrightarrow>
     serve_call_frame P T N f ts w = (ts\<lparr>ts_serving := False\<rparr>, w)"
  by (simp_all add: serve_call_frame_def frame_dict_def)


section \<open>An example\<close>

definition repo_server :: tool_server where
  "repo_server =
     \<lparr>ts_name = ''repo'', ts_tools = REPO_TOOLS (\<lambda>v. ''?''), ts_address = ''h:1'',
      ts_transport = \<lparr>so_source = ''repo'', so_inbox = [], so_serving = True\<rparr>, ts_serving = True\<rparr>"

definition repo_request :: pyval where
  "repo_request = call_request ''list_files'' (PDict []) (digits_of 1) ''h:2''"

definition repo_files :: pyval where
  "repo_files = PDict [(''files'', PList [PStr ''README.md'', PStr ''src/app.py'', PStr ''src/util.py''])]"

definition repo_dumps :: "pyval \<Rightarrow> string" where
  "repo_dumps v = (if v = PDict (server_manifest repo_server) then ''M'' else if v = repo_request then ''Q'' else ''R'')"

definition repo_texts :: server_texts where
  "repo_texts = \<lparr>st_dumps = repo_dumps, st_exn = (\<lambda>e. ''error''), st_unknown = (\<lambda>v. ''unknown'')\<rparr>"

definition repo_reply :: pyval where
  "repo_reply = PDict [(''id'', PStr (digits_of 1)), (''server'', PStr ''repo''), (''result'', repo_files)]"

definition repo_platform :: platform where
  "repo_platform = demo_platform\<lparr>p_json_loads := (\<lambda>s.
     Inr (if s = ''M'' then PDict (server_manifest repo_server) else if s = ''Q'' then repo_request else repo_reply))\<rparr>"

definition repo_gateway_texts :: gateway_texts where
  "repo_gateway_texts = \<lparr>gt_say = (\<lambda>m. ''?''), gt_shown = (\<lambda>v. ''?''), gt_dumps = repo_dumps,
     gt_pretty = (\<lambda>v. if v = repo_files then ''files'' else ''?'')\<rparr>"

definition repo_gateway :: gateway where
  "repo_gateway = \<lparr>gw_transport = \<lparr>so_source = ''gateway'', so_inbox = [], so_serving = True\<rparr>, gw_address = ''h:2'', gw_counter = 0\<rparr>"

definition repo_params :: pyval where
  "repo_params = PDict [(''name'', PStr ''repo__list_files''), (''arguments'', PNone)]"

theorem federated_call_witness:
  "fst (gateway_dispatch repo_platform repo_gateway_texts quiet_net [announce repo_dumps repo_server]
     [socket_serve ([frame_bytes ''R''], False)] repo_params repo_gateway []) = Inr (text_result ''files'' False) \<and>
   serve_call_frame repo_platform repo_texts quiet_net \<lparr>fr_source = ''repo'', fr_payload = ''Q''\<rparr> repo_server [] =
     (repo_server, [frame_bytes ''R''])"
proof -
  obtain t where t: "dget (ts_tools repo_server) ''list_files'' = Some t" "mt_handler t (PDict []) = Inr repo_files"
    by (simp add: repo_server_def REPO_TOOLS_def repo_files_def)
  have names: "ts_name repo_server = ''repo''" "ts_address repo_server = ''h:1''" "gw_address repo_gateway = ''h:2''"
    "next_id repo_gateway = digits_of 1"
    by (simp_all add: repo_server_def repo_gateway_def next_id_def)
  have texts: "st_dumps repo_texts = repo_dumps" "gt_dumps repo_gateway_texts = repo_dumps"
    by (simp_all add: repo_texts_def repo_gateway_texts_def)
  have reply: "PDict (tool_reply repo_texts repo_server (digits_of 1) t (PDict [])) = repo_reply"
    by (simp add: tool_reply_def repo_reply_def t names)
  have ne: "repo_request \<noteq> PDict (server_manifest repo_server)" "repo_reply \<noteq> PDict (server_manifest repo_server)"
    "repo_reply \<noteq> repo_request"
    by (simp_all add: repo_request_def repo_reply_def call_request_def server_manifest_def)
  have wire: "json_faithful repo_platform repo_dumps (PDict (server_manifest repo_server))"
    "json_faithful repo_platform repo_dumps repo_request" "json_faithful repo_platform repo_dumps repo_reply"
    "repo_dumps repo_request = ''Q''" "repo_dumps repo_reply = ''R''"
    using ne by (simp_all add: json_faithful_def repo_platform_def repo_dumps_def)
  have safe: "ns_safe (ts_name repo_server)" by (simp add: names ns_safe_def)
  have net: "parse_dest ''h:1'' = Inr (''h'', 1)" "parse_dest ''h:2'' = Inr (''h'', 2)" by code_simp+
  then have send: "socket_send quiet_net ''h:1'' ''Q'' [] = (Inr (), [frame_bytes ''Q''])"
    "socket_send quiet_net ''h:2'' ''R'' [] = (Inr (), [frame_bytes ''R''])"
    by (simp_all add: socket_send_def quiet_net_def MAX_FRAME_def)
  have "fst (read_frame False ([frame_bytes ''R''], False)) = Inr (Some ''R'')"
    using read_frame_some[of "''R''" "([frame_bytes ''R''], False)" "[]" False] by (auto simp: arriving_def MAX_FRAME_def)
  then have taken: "taken socket_receive [socket_serve ([frame_bytes ''R''], False)] (gw_transport repo_gateway) =
      [] @ \<lparr>fr_source = ''gateway'', fr_payload = ''R''\<rparr> # []"
    by (simp add: socket_serve_def repo_gateway_def socket_receive_def)
  have start: "announced repo_platform repo_dumps [repo_server]" "repo_server \<in> set [repo_server]"
    using wire by (simp_all add: announced_def)
  have eqs: "PDict [] = (if truthy PNone then PNone else PDict [])"
    "repo_request = call_request ''list_files'' (PDict []) (next_id repo_gateway) (gw_address repo_gateway)"
    "repo_reply = PDict (tool_reply repo_texts repo_server (next_id repo_gateway) t (PDict []))"
    "repo_params = PDict [(''name'', PStr (ts_name repo_server @ NS @ ''list_files'')), (''arguments'', PNone)]"
    using reply by (simp_all add: repo_request_def names repo_params_def NS_def)
  have wire': "json_faithful repo_platform (gt_dumps repo_gateway_texts) repo_request"
    "json_faithful repo_platform (st_dumps repo_texts) repo_reply" "gw_address repo_gateway \<noteq> []"
    using wire by (simp_all add: texts names)
  note fc = federated_call[OF start safe t(1) eqs(1,2) wire'(3,1) eqs(3) wire'(2) eqs(4),
      where N = quiet_net and rounds = "[socket_serve ([frame_bytes ''R''], False)]" and w = "[]"]
  have "serve_call_frame repo_platform repo_texts quiet_net \<lparr>fr_source = ''repo'', fr_payload = ''Q''\<rparr> repo_server [] =
      (repo_server, snd (socket_send quiet_net ''h:2'' ''R'' []))"
    using fc[THEN conjunct2, THEN conjunct2, THEN conjunct1, rule_format, of "\<lparr>fr_source = ''repo'', fr_payload = ''Q''\<rparr>" "[]"]
    by (simp add: texts names wire(4,5))
  moreover have "fst (gateway_dispatch repo_platform repo_gateway_texts quiet_net (map (announce repo_dumps) [repo_server])
       [socket_serve ([frame_bytes ''R''], False)] repo_params repo_gateway []) =
      Inr (tool_answer repo_gateway_texts repo_texts t (PDict []))"
    by (rule fc[THEN conjunct2, THEN conjunct2, THEN conjunct2, rule_format, of "[]" "\<lparr>fr_source = ''gateway'', fr_payload = ''R''\<rparr>" "[]"])
      (simp add: taken texts names send wire(4,5) del: taken.simps)
  moreover have "tool_answer repo_gateway_texts repo_texts t (PDict []) = text_result ''files'' False"
    by (simp add: tool_answer_def t repo_gateway_texts_def)
  ultimately show ?thesis using send by simp
qed

end
