(* ===== verification/SecretPatterns.thy ===== *)
theory SecretPatterns
  imports OutputScan Bridge
begin

text \<open>
  The built-in patterns of \<open>output_scanning.py\<close>. Their regular expressions are sequences of literals,
  repeated character classes, groups of literals, word boundaries and one negative lookahead; \<open>ends\<close> and
  \<open>match_seq\<close> are the backtracking matcher of \<open>re\<close> on such sequences, \<open>finditer\<close> its leftmost,
  non-overlapping scan.
\<close>

section \<open>Expressions\<close>

text \<open>\<open>Class p m k\<close> is a greedy repetition of at least \<open>m\<close> characters, at most \<open>k\<close> if given; \<open>OptGroup\<close> is
  \<open>(?:...|...)?\<close>.\<close>

datatype re_item = Lit string | Class "char \<Rightarrow> bool" nat "nat option" | Group "string list" | OptGroup "string list"
  | Boundary | NotAhead string

definition at_literal :: "string \<Rightarrow> string \<Rightarrow> nat \<Rightarrow> bool" where
  "at_literal l s i \<longleftrightarrow> take (length l) (drop i s) = l"

definition is_word :: "char \<Rightarrow> bool" where
  "is_word c \<longleftrightarrow> py_isalnum [c] \<or> c = CHR ''_''"

text \<open>\<open>\b\<close>: exactly one side is a word character.\<close>

definition at_boundary :: "string \<Rightarrow> nat \<Rightarrow> bool" where
  "at_boundary s i \<longleftrightarrow> (0 < i \<and> is_word (s ! (i - 1))) \<noteq> (i < length s \<and> is_word (s ! i))"

definition run_length :: "(char \<Rightarrow> bool) \<Rightarrow> string \<Rightarrow> nat \<Rightarrow> nat" where
  "run_length p s i = length (takeWhile p (drop i s))"

text \<open>Where an item that starts at \<open>i\<close> can end, in the order in which they are tried.\<close>

fun ends :: "string \<Rightarrow> re_item \<Rightarrow> nat \<Rightarrow> nat list" where
  "ends s (Lit l) i = (if at_literal l s i then [i + length l] else [])"
| "ends s (Class p m k) i =
     (let n = run_length p s i; top = (case k of None \<Rightarrow> n | Some k \<Rightarrow> min n k) in rev [i + m..<i + top + 1])"
| "ends s (Group ls) i = map (\<lambda>l. i + length l) (filter (\<lambda>l. at_literal l s i) ls)"
| "ends s (OptGroup ls) i = map (\<lambda>l. i + length l) (filter (\<lambda>l. at_literal l s i) ls) @ [i]"
| "ends s Boundary i = (if at_boundary s i then [i] else [])"
| "ends s (NotAhead l) i = (if at_literal l s i then [] else [i])"

fun first_some :: "('a \<Rightarrow> 'b option) \<Rightarrow> 'a list \<Rightarrow> 'b option" where
  "first_some f [] = None"
| "first_some f (x # xs) = (case f x of None \<Rightarrow> first_some f xs | Some y \<Rightarrow> Some y)"

fun match_seq :: "string \<Rightarrow> re_item list \<Rightarrow> nat \<Rightarrow> nat option" where
  "match_seq s [] i = Some i"
| "match_seq s (r # rs) i = first_some (match_seq s rs) (ends s r i)"

text \<open>\<open>finditer\<close>: the next match is looked for where the last one ended, and one place further after an
  empty match.\<close>

function find_from :: "string \<Rightarrow> re_item list \<Rightarrow> nat \<Rightarrow> (nat \<times> nat) list" where
  "find_from s rs i =
     (if length s < i then []
      else case match_seq s rs i of
        None \<Rightarrow> find_from s rs (Suc i)
      | Some j \<Rightarrow> (i, j) # find_from s rs (if i < j then j else Suc i))"
  by pat_completeness auto

termination
  by (relation "measure (\<lambda>(s, rs, i). Suc (length s) - i)") auto

declare find_from.simps [simp del]

definition finditer :: "re_item list \<Rightarrow> string \<Rightarrow> (nat \<times> nat) list" where
  "finditer rs s = find_from s rs 0"


section \<open>The built-in patterns\<close>

definition is_upper_alnum :: "char \<Rightarrow> bool" where
  "is_upper_alnum c \<longleftrightarrow> is_digit c \<or> in_range 65 90 c"

definition is_base64url :: "char \<Rightarrow> bool" where
  "is_base64url c \<longleftrightarrow> is_alnum c \<or> c = CHR ''_'' \<or> c = CHR ''-''"

definition AWS_ACCESS_KEY_ID :: "re_item list" where
  "AWS_ACCESS_KEY_ID = [Boundary, Group [''AKIA'', ''ASIA''], Class is_upper_alnum 16 (Some 16), Boundary]"

definition PEM_PRIVATE_KEY :: "re_item list" where
  "PEM_PRIVATE_KEY =
     [Lit ''-----BEGIN '', OptGroup [''RSA '', ''DSA '', ''EC '', ''OPENSSH '', ''ENCRYPTED '', ''PGP ''], Lit ''PRIVATE KEY-----'']"

definition ANTHROPIC_API_KEY :: "re_item list" where
  "ANTHROPIC_API_KEY =
     [Boundary, Lit ''sk-ant-'', Group [''api'', ''admin'', ''sid''], Class is_base64url 20 None, Boundary]"

definition OPENAI_API_KEY :: "re_item list" where
  "OPENAI_API_KEY =
     [Boundary, Lit ''sk-'', NotAhead ''ant-'', OptGroup [''proj-'', ''svcacct-''], Class is_base64url 32 None, Boundary]"

definition GITHUB_PERSONAL_TOKEN :: "re_item list" where
  "GITHUB_PERSONAL_TOKEN = [Boundary, Lit ''ghp_'', Class is_alnum 36 (Some 36), Boundary]"

definition GITHUB_FINE_GRAINED_PAT :: "re_item list" where
  "GITHUB_FINE_GRAINED_PAT = [Boundary, Lit ''github_pat_'', Class (\<lambda>c. is_alnum c \<or> c = CHR ''_'') 22 None, Boundary]"

definition STRIPE_LIVE_SECRET_KEY :: "re_item list" where
  "STRIPE_LIVE_SECRET_KEY = [Boundary, Lit ''sk_live_'', Class is_alnum 24 None, Boundary]"

definition JWT_TOKEN :: "re_item list" where
  "JWT_TOKEN =
     [Boundary, Lit ''eyJ'', Class is_base64url 10 None, Lit ''.'', Class is_base64url 10 None, Lit ''.'',
      Class is_base64url 10 None, Boundary]"

definition builtin_table :: "(string \<times> re_item list \<times> risk_level) list" where
  "builtin_table =
     [(''aws_access_key_id'', AWS_ACCESS_KEY_ID, RISK_CRITICAL), (''pem_private_key'', PEM_PRIVATE_KEY, RISK_CRITICAL),
      (''anthropic_api_key'', ANTHROPIC_API_KEY, RISK_HIGH), (''openai_api_key'', OPENAI_API_KEY, RISK_HIGH),
      (''github_personal_token'', GITHUB_PERSONAL_TOKEN, RISK_HIGH),
      (''github_fine_grained_pat'', GITHUB_FINE_GRAINED_PAT, RISK_HIGH),
      (''stripe_live_secret_key'', STRIPE_LIVE_SECRET_KEY, RISK_HIGH), (''jwt_token'', JWT_TOKEN, RISK_MEDIUM)]"

definition compiled :: "string \<times> re_item list \<times> risk_level \<Rightarrow> secret_pattern" where
  "compiled t = (case t of (n, rs, v) \<Rightarrow> \<lparr>sp_name = n, sp_finditer = finditer rs, sp_severity = v\<rparr>)"

definition BUILTIN_PATTERNS :: "secret_pattern list" where
  "BUILTIN_PATTERNS = map compiled builtin_table"

definition builtin_registry :: "exn + secret_pattern list" where
  "builtin_registry = new_registry BUILTIN_PATTERNS"

lemma builtin_registry_ok: "builtin_registry = Inr BUILTIN_PATTERNS" "\<forall>p\<in>set BUILTIN_PATTERNS. secret_pattern_ok p"
  by (simp_all add: builtin_registry_def new_registry_def BUILTIN_PATTERNS_def builtin_table_def compiled_def secret_pattern_ok_def)


section \<open>The scan\<close>

lemma first_some_mem: "first_some f xs = Some y \<Longrightarrow> \<exists>x\<in>set xs. f x = Some y"
  by (induction xs) (auto split: option.splits)

text \<open>What an expression means, without the order of the search.\<close>

fun item_spans :: "string \<Rightarrow> re_item \<Rightarrow> nat \<Rightarrow> nat \<Rightarrow> bool" where
  "item_spans s (Lit l) i j \<longleftrightarrow> at_literal l s i \<and> j = i + length l"
| "item_spans s (Class p m k) i j \<longleftrightarrow>
     i + m \<le> j \<and> j \<le> length s \<and> (\<forall>x. i \<le> x \<and> x < j \<longrightarrow> p (s ! x)) \<and> (\<forall>n. k = Some n \<longrightarrow> j \<le> i + n)"
| "item_spans s (Group ls) i j \<longleftrightarrow> (\<exists>l\<in>set ls. at_literal l s i \<and> j = i + length l)"
| "item_spans s (OptGroup ls) i j \<longleftrightarrow> j = i \<or> (\<exists>l\<in>set ls. at_literal l s i \<and> j = i + length l)"
| "item_spans s Boundary i j \<longleftrightarrow> at_boundary s i \<and> j = i"
| "item_spans s (NotAhead l) i j \<longleftrightarrow> \<not> at_literal l s i \<and> j = i"

fun spans :: "string \<Rightarrow> re_item list \<Rightarrow> nat \<Rightarrow> nat \<Rightarrow> bool" where
  "spans s [] i j \<longleftrightarrow> i = j"
| "spans s (r # rs) i j \<longleftrightarrow> (\<exists>k. item_spans s r i k \<and> spans s rs k j)"

lemma run_length_iff:
  assumes "i \<le> length s"
  shows "j \<le> i + run_length p s i \<longleftrightarrow> j \<le> i \<or> j \<le> length s \<and> (\<forall>x. i \<le> x \<and> x < j \<longrightarrow> p (s ! x))"
proof -
  let ?d = "drop i s"
  have "n \<le> length (takeWhile p d) \<longleftrightarrow> n \<le> length d \<and> (\<forall>y<n. p (d ! y))" for n and d :: string
  proof (induction d arbitrary: n)
    case (Cons a d)
    show ?case by (cases n) (auto simp: All_less_Suc2 Cons)
  qed auto
  from this[of "j - i" ?d] have "j - i \<le> run_length p s i \<longleftrightarrow> j - i \<le> length s - i \<and> (\<forall>y<j - i. p (s ! (i + y)))"
    using assms by (simp add: run_length_def)
  also have "(\<forall>y<j - i. p (s ! (i + y))) \<longleftrightarrow> (\<forall>x. i \<le> x \<and> x < j \<longrightarrow> p (s ! x))"
    (is "?l = ?r")
  proof
    show "?l \<Longrightarrow> ?r" by (metis diff_less_mono le_add_diff_inverse)
    show "?r \<Longrightarrow> ?l" by (simp add: less_diff_conv add.commute)
  qed
  finally show ?thesis using assms by auto
qed

lemma ends_spans:
  assumes "i \<le> length s"
  shows "j \<in> set (ends s r i) \<longleftrightarrow> item_spans s r i j"
proof (cases r)
  case (Class p m k)
  have "j \<in> set (ends s r i) \<longleftrightarrow> i + m \<le> j \<and> j \<le> i + run_length p s i \<and> (\<forall>n. k = Some n \<longrightarrow> j \<le> i + n)"
    using Class by (auto simp: Let_def split: option.splits)
  then show ?thesis
    using Class run_length_iff[OF assms, of j p] assms by auto
qed auto

lemma at_literal_length: "at_literal l s i \<Longrightarrow> i \<le> length s \<Longrightarrow> i + length l \<le> length s"
proof -
  assume l: "at_literal l s i" "i \<le> length s"
  have "length (take (length l) (drop i s)) \<le> length s - i" by simp
  then have "length l \<le> length s - i" using l(1) unfolding at_literal_def by simp
  then show ?thesis using l(2) by simp
qed

definition item_min :: "re_item \<Rightarrow> nat" where
  "item_min r = (case r of Lit l \<Rightarrow> length l | Class p m k \<Rightarrow> m | _ \<Rightarrow> 0)"

lemma item_spans_bounds:
  "item_spans s r i j \<Longrightarrow> i \<le> length s \<Longrightarrow> i + item_min r \<le> j \<and> j \<le> length s"
  by (cases r) (auto simp: item_min_def dest: at_literal_length)

lemma spans_bounds: "spans s rs i j \<Longrightarrow> i \<le> length s \<Longrightarrow> i + sum_list (map item_min rs) \<le> j \<and> j \<le> length s"
proof (induction rs arbitrary: i)
  case (Cons r rs)
  then obtain k where k: "item_spans s r i k" "spans s rs k j" by auto
  then show ?case using item_spans_bounds[OF k(1)] Cons.IH[OF k(2)] Cons.prems(2) by simp
qed simp

text \<open>The matcher finds a match wherever there is one.\<close>

lemma first_some_None: "first_some f xs = None \<longleftrightarrow> (\<forall>x\<in>set xs. f x = None)"
  by (induction xs) (auto split: option.splits)

lemma match_seq_spans: "match_seq s rs i = Some j \<Longrightarrow> i \<le> length s \<Longrightarrow> spans s rs i j"
proof (induction rs arbitrary: i)
  case (Cons r rs)
  obtain k where k: "k \<in> set (ends s r i)" "match_seq s rs k = Some j" using first_some_mem Cons.prems(1) by fastforce
  then have "item_spans s r i k" using ends_spans[OF Cons.prems(2)] by blast
  then show ?case using Cons.IH[OF k(2)] item_spans_bounds Cons.prems(2) by auto
qed simp

lemma match_seq_complete: "spans s rs i j \<Longrightarrow> i \<le> length s \<Longrightarrow> \<exists>j'. match_seq s rs i = Some j'"
proof (induction rs arbitrary: i)
  case (Cons r rs)
  then obtain k where k: "item_spans s r i k" "spans s rs k j" by auto
  then obtain j' where "match_seq s rs k = Some j'" using Cons.IH[OF k(2)] item_spans_bounds[OF k(1) Cons.prems(2)] by auto
  moreover have "k \<in> set (ends s r i)" using k(1) ends_spans[OF Cons.prems(2)] by blast
  ultimately have "first_some (match_seq s rs) (ends s r i) \<noteq> None" by (auto simp: first_some_None)
  then show ?case by auto
qed simp

text \<open>What \<open>finditer\<close> reports are matches, and every match starts in one that is reported.\<close>

lemma find_from_sound:
  "(a, b) \<in> set (find_from s rs i) \<Longrightarrow> i \<le> a \<and> a \<le> length s \<and> match_seq s rs a = Some b"
proof (induction s rs i rule: find_from.induct)
  case (1 s rs i)
  then show ?case by (subst (asm) find_from.simps) (auto split: if_splits option.splits)
qed

lemma find_from_complete:
  assumes "0 < sum_list (map item_min rs)" "spans s rs k j" "i \<le> k" "k \<le> length s"
  shows "\<exists>a b. (a, b) \<in> set (find_from s rs i) \<and> a \<le> k \<and> k < b"
  using assms
proof (induction s rs i rule: find_from.induct)
  case (1 s rs i)
  have i: "\<not> length s < i" using 1 by simp
  show ?case
  proof (cases "match_seq s rs i")
    case None
    then have "i \<noteq> k" using match_seq_complete[OF "1.prems"(2,4)] by auto
    then show ?thesis using "1.IH"(1)[OF i None] "1.prems" None i by (subst find_from.simps) auto
  next
    case (Some e)
    then have e: "i < e" using spans_bounds[OF match_seq_spans[OF Some]] "1.prems" by auto
    show ?thesis
    proof (cases "k < e")
      case True
      then show ?thesis using "1.prems"(3) Some i by (subst find_from.simps) auto
    next
      case False
      then show ?thesis using "1.IH"(2)[OF i Some] "1.prems" Some i e by (subst find_from.simps) auto
    qed
  qed
qed


section \<open>No built-in secret goes unnoticed\<close>

lemma collect_matches_ok:
  "\<forall>(a, b)\<in>set sp. a \<le> b \<Longrightarrow>
   collect_matches n v sp = Inr (map (\<lambda>(a, b). \<lparr>sm_name = n, sm_severity = v, sm_start = a, sm_end = b\<rparr>) sp)"
  by (induction sp) (auto simp: new_match_def)

definition table_matches :: "string \<Rightarrow> (string \<times> re_item list \<times> risk_level) list \<Rightarrow> scan_match list" where
  "table_matches s tab = concat (map (\<lambda>(n, rs, v).
     map (\<lambda>(a, b). \<lparr>sm_name = n, sm_severity = v, sm_start = a, sm_end = b\<rparr>) (finditer rs s)) tab)"

lemma scan_table: "scan (map compiled tab) s = Inr \<lparr>sr_text = s, sr_matches = table_matches s tab\<rparr>"
proof -
  have "\<forall>(a, b)\<in>set (finditer rs s). a \<le> b" for rs
    using find_from_sound match_seq_spans spans_bounds by (fastforce simp: finditer_def)
  then have "scan_patterns s (map compiled tab) = Inr (table_matches s tab)"
    by (induction tab) (auto simp: compiled_def table_matches_def collect_matches_ok)
  then show ?thesis by (simp add: scan_def)
qed

lemma builtin_consumes: "(n, rs, v) \<in> set builtin_table \<Longrightarrow> 0 < sum_list (map item_min rs)"
  by (auto simp: builtin_table_def AWS_ACCESS_KEY_ID_def PEM_PRIVATE_KEY_def ANTHROPIC_API_KEY_def OPENAI_API_KEY_def
      GITHUB_PERSONAL_TOKEN_def GITHUB_FINE_GRAINED_PAT_def STRIPE_LIVE_SECRET_KEY_def JWT_TOKEN_def item_min_def)

text \<open>C31. The scan with the built-in patterns is sound and complete for what the expressions mean: it never
  fails, every match it reports is an occurrence of the pattern it names, every place where an occurrence
  of a pattern starts lies in a match that names this pattern, and the risk of the text is at least the
  severity of each pattern that occurs.\<close>

theorem builtin_scan_exact:
  "\<exists>ms. scan BUILTIN_PATTERNS s = Inr \<lparr>sr_text = s, sr_matches = ms\<rparr> \<and>
     (\<forall>m\<in>set ms. \<exists>rs. (sm_name m, rs, sm_severity m) \<in> set builtin_table \<and> spans s rs (sm_start m) (sm_end m) \<and>
        sm_start m < sm_end m \<and> sm_end m \<le> length s) \<and>
     (\<forall>n rs v i j. (n, rs, v) \<in> set builtin_table \<and> i \<le> length s \<and> spans s rs i j \<longrightarrow>
        (\<exists>m\<in>set ms. sm_name m = n \<and> sm_severity m = v \<and> covers m i) \<and>
        v \<le> scan_risk \<lparr>sr_text = s, sr_matches = ms\<rparr>)"
proof (intro exI conjI)
  let ?ms = "table_matches s builtin_table"
  show "scan BUILTIN_PATTERNS s = Inr \<lparr>sr_text = s, sr_matches = ?ms\<rparr>"
    unfolding BUILTIN_PATTERNS_def by (rule scan_table)
  show "\<forall>m\<in>set ?ms. \<exists>rs. (sm_name m, rs, sm_severity m) \<in> set builtin_table \<and> spans s rs (sm_start m) (sm_end m) \<and>
      sm_start m < sm_end m \<and> sm_end m \<le> length s"
  proof
    fix m assume "m \<in> set ?ms"
    then obtain n rs v a b where m: "(n, rs, v) \<in> set builtin_table" "(a, b) \<in> set (finditer rs s)"
      "m = \<lparr>sm_name = n, sm_severity = v, sm_start = a, sm_end = b\<rparr>"
      by (auto simp: table_matches_def)
    have "a \<le> length s" "spans s rs a b"
      using find_from_sound[of a b s rs 0] match_seq_spans m(2) by (auto simp: finditer_def)
    then show "\<exists>rs. (sm_name m, rs, sm_severity m) \<in> set builtin_table \<and> spans s rs (sm_start m) (sm_end m) \<and>
        sm_start m < sm_end m \<and> sm_end m \<le> length s"
      using m spans_bounds[of s rs a b] builtin_consumes[OF m(1)] by (intro exI[of _ rs]) auto
  qed
  show "\<forall>n rs v i j. (n, rs, v) \<in> set builtin_table \<and> i \<le> length s \<and> spans s rs i j \<longrightarrow>
      (\<exists>m\<in>set ?ms. sm_name m = n \<and> sm_severity m = v \<and> covers m i) \<and>
      v \<le> scan_risk \<lparr>sr_text = s, sr_matches = ?ms\<rparr>"
  proof (intro allI impI)
    fix n rs v i j
    assume a: "(n, rs, v) \<in> set builtin_table \<and> i \<le> length s \<and> spans s rs i j"
    then obtain x y where xy: "(x, y) \<in> set (finditer rs s)" "x \<le> i" "i < y"
      using find_from_complete[of rs s i j 0] builtin_consumes[of n rs v] by (auto simp: finditer_def)
    then have "\<lparr>sm_name = n, sm_severity = v, sm_start = x, sm_end = y\<rparr> \<in> set ?ms"
      using a by (force simp: table_matches_def)
    then have mem: "\<exists>m\<in>set ?ms. sm_name m = n \<and> sm_severity m = v \<and> covers m i"
      using xy by (intro bexI[of _ "\<lparr>sm_name = n, sm_severity = v, sm_start = x, sm_end = y\<rparr>"]) (simp_all add: covers_def)
    then have "v \<in> set (map sm_severity ?ms)" by auto
    then have "v \<le> max_risk (map sm_severity ?ms)" by (rule max_risk.worst_upper)
    moreover have "?ms \<noteq> []" using mem by auto
    ultimately show "(\<exists>m\<in>set ?ms. sm_name m = n \<and> sm_severity m = v \<and> covers m i) \<and>
        v \<le> scan_risk \<lparr>sr_text = s, sr_matches = ?ms\<rparr>"
      using mem by (simp add: scan_risk_def)
  qed
qed

definition aws_text :: string where
  "aws_text = ''x AKIA0123456789ABCDEF y''"

lemma aws_matched: "match_seq aws_text AWS_ACCESS_KEY_ID 2 = Some 22"
  by code_simp

theorem builtin_scan_exact_witness:
  "\<exists>ms. scan BUILTIN_PATTERNS aws_text = Inr \<lparr>sr_text = aws_text, sr_matches = ms\<rparr> \<and>
     (\<exists>m\<in>set ms. sm_name m = ''aws_access_key_id'' \<and> covers m 2 \<and> sm_end m \<le> 24) \<and>
     RISK_CRITICAL \<le> scan_risk \<lparr>sr_text = aws_text, sr_matches = ms\<rparr>"
proof -
  have t: "length aws_text = 24" "(''aws_access_key_id'', AWS_ACCESS_KEY_ID, RISK_CRITICAL) \<in> set builtin_table"
    by (simp_all add: aws_text_def builtin_table_def)
  then have "spans aws_text AWS_ACCESS_KEY_ID 2 22" using match_seq_spans[OF aws_matched] by simp
  moreover obtain ms where ms: "scan BUILTIN_PATTERNS aws_text = Inr \<lparr>sr_text = aws_text, sr_matches = ms\<rparr>"
    "\<forall>m\<in>set ms. sm_end m \<le> length aws_text"
    "\<forall>n rs v i j. (n, rs, v) \<in> set builtin_table \<and> i \<le> length aws_text \<and> spans aws_text rs i j \<longrightarrow>
        (\<exists>m\<in>set ms. sm_name m = n \<and> sm_severity m = v \<and> covers m i) \<and>
        v \<le> scan_risk \<lparr>sr_text = aws_text, sr_matches = ms\<rparr>"
    using builtin_scan_exact[of aws_text] by blast
  ultimately have "(\<exists>m\<in>set ms. sm_name m = ''aws_access_key_id'' \<and> sm_severity m = RISK_CRITICAL \<and> covers m 2) \<and>
      RISK_CRITICAL \<le> scan_risk \<lparr>sr_text = aws_text, sr_matches = ms\<rparr>"
    using ms(3)[rule_format, of "''aws_access_key_id''" AWS_ACCESS_KEY_ID RISK_CRITICAL 2 22] t by simp
  then show ?thesis using ms(1,2) t(1) by auto
qed

text \<open>Redaction takes one of two matches that overlap. Here a token follows a key after a hyphen: the key
  match swallows the token's first segment, the token match is skipped, and its other segments stay.\<close>

definition key_token_text :: string where
  "key_token_text = ''sk-'' @ replicate 32 CHR ''a'' @ ''-eyJ'' @ replicate 10 CHR ''b'' @ ''.'' @ replicate 10 CHR ''c'' @ ''.'' @
     replicate 10 CHR ''d''"

lemma key_then_token:
  "match_seq key_token_text OPENAI_API_KEY 0 = Some 49" "match_seq key_token_text JWT_TOKEN 36 = Some 71"
  by code_simp+

lemma token_after_key_leaks:
  "redact \<lparr>sr_text = key_token_text, sr_matches =
     [\<lparr>sm_name = ''openai_api_key'', sm_severity = RISK_HIGH, sm_start = 0, sm_end = 49\<rparr>,
      \<lparr>sm_name = ''jwt_token'', sm_severity = RISK_MEDIUM, sm_start = 36, sm_end = 71\<rparr>]\<rparr> =
   ''[REDACTED:openai_api_key].'' @ replicate 10 CHR ''c'' @ ''.'' @ replicate 10 CHR ''d''"
  by (simp add: redact_def match_key_def redaction_tag_def key_token_text_def numeral_eq_Suc)

end
