(* ===== verification/Obligations.thy ===== *)
theory Obligations
  imports Platform
begin

text \<open>
  The operations of the registry of proof obligations (\<open>proof_obligations.py\<close>): the checks of an entry,
  the queries, and the resolution of the test that an entry names. The registry is an argument; what
  \<open>importlib.import_module\<close> loads is a parameter, a module's or a class's attributes by name.
\<close>

datatype phase = PHASE_0 | PHASE_1 | PHASE_2 | PHASE_3 | PHASE_4 | PHASE_5 | PHASE_6

record obligation =
  ob_name :: string
  ob_phase :: phase
  ob_track :: string
  ob_statement :: string
  ob_canonical_test :: string

abbreviation obligation_error :: exn where
  "obligation_error \<equiv> repo_error ''ProofObligationError''"

definition new_obligation :: "obligation \<Rightarrow> exn + obligation" where
  "new_obligation ob =
     bindE (guards
       [(ob_name ob \<noteq> [], obligation_error), (ob_track ob \<noteq> [], obligation_error),
        (ob_statement ob \<noteq> [], obligation_error), (CHR ''.'' \<in> set (ob_canonical_test ob), obligation_error)]) (\<lambda>_. Inr ob)"

section \<open>Resolution\<close>

text \<open>Attributes: a class with attributes of its own, another callable, or anything else.\<close>

datatype attribute = ClassAttr "string \<Rightarrow> attribute option" | CallableAttr | OtherAttr

definition is_callable :: "attribute \<Rightarrow> bool" where
  "is_callable a \<longleftrightarrow> a \<noteq> OtherAttr"

definition is_import_error :: "exn \<Rightarrow> bool" where
  "is_import_error e \<longleftrightarrow> exn_cls e \<in> {StdError ''ImportError'', StdError ''ModuleNotFoundError''}"

definition last_dot :: "string \<Rightarrow> (string \<times> string) option" where
  "last_dot s =
     (if CHR ''.'' \<notin> set s then None
      else let b = rev (takeWhile (\<lambda>c. c \<noteq> CHR ''.'') (rev s)) in Some (take (length s - length b - 1) s, b))"

text \<open>\<open>s.rsplit(".", 2)\<close> with three parts.\<close>

definition rsplit_dots :: "string \<Rightarrow> (string \<times> string \<times> string) option" where
  "rsplit_dots s =
     (case last_dot s of
        None \<Rightarrow> None
      | Some (front, c) \<Rightarrow> (case last_dot front of None \<Rightarrow> None | Some (a, b) \<Rightarrow> Some (a, b, c)))"

definition resolve_test :: "(string \<Rightarrow> exn + (string \<Rightarrow> attribute option)) \<Rightarrow> string \<Rightarrow> exn + attribute" where
  "resolve_test import_module canonical_test =
     (case rsplit_dots canonical_test of
        None \<Rightarrow> Inl obligation_error
      | Some (module_name, class_name, method_name) \<Rightarrow>
          (case import_module module_name of
             Inl e \<Rightarrow> Inl (if is_import_error e then obligation_error else e)
           | Inr loaded \<Rightarrow>
               (case loaded class_name of
                  Some (ClassAttr attrs) \<Rightarrow>
                    (case attrs method_name of
                       None \<Rightarrow> Inl obligation_error
                     | Some a \<Rightarrow> if is_callable a then Inr a else Inl obligation_error)
                | _ \<Rightarrow> Inl obligation_error)))"

section \<open>Queries\<close>

definition by_phase :: "obligation list \<Rightarrow> phase \<Rightarrow> obligation list" where
  "by_phase obs p = filter (\<lambda>ob. ob_phase ob = p) obs"

definition by_track :: "obligation list \<Rightarrow> string \<Rightarrow> obligation list" where
  "by_track obs t = filter (\<lambda>ob. ob_track ob = t) obs"

fun find_obligation :: "obligation list \<Rightarrow> string \<Rightarrow> exn + obligation" where
  "find_obligation [] name = Inl obligation_error"
| "find_obligation (ob # obs) name = (if ob_name ob = name then Inr ob else find_obligation obs name)"

section \<open>What they guarantee\<close>

lemma last_dot_iff: "last_dot s = Some (a, b) \<longleftrightarrow> s = a @ ''.'' @ b \<and> CHR ''.'' \<notin> set b"
proof
  assume l: "last_dot s = Some (a, b)"
  let ?t = "takeWhile (\<lambda>c. c \<noteq> CHR ''.'') (rev s)" and ?d = "dropWhile (\<lambda>c. c \<noteq> CHR ''.'') (rev s)"
  have dot: "CHR ''.'' \<in> set s" and b: "b = rev ?t" and a: "a = take (length s - length ?t - 1) s"
    using l by (auto simp: last_dot_def Let_def split: if_splits)
  have "?d \<noteq> []" using dot by (simp add: dropWhile_eq_Nil_conv)
  moreover from this have "hd ?d = CHR ''.''" using hd_dropWhile[of "\<lambda>c. c \<noteq> CHR ''.''" "rev s"] by blast
  ultimately obtain d where d: "?d = CHR ''.'' # d" by (cases ?d) auto
  have "rev s = ?t @ CHR ''.'' # d" by (metis d takeWhile_dropWhile_id)
  then have s: "s = rev d @ ''.'' @ rev ?t" by (metis append.assoc append_Cons append_Nil rev.simps(2) rev_append rev_rev_ident)
  then have "length s - length ?t - 1 = length (rev d)" by (metis add_diff_cancel_right' diff_diff_left length_append length_rev
        list.size(3,4) One_nat_def add.commute add_Suc_right Nat.add_0_right)
  then have "a = rev d" using s a by (metis append_eq_conv_conj)
  then show "s = a @ ''.'' @ b \<and> CHR ''.'' \<notin> set b"
    using s b by (auto dest: set_takeWhileD)
next
  assume s: "s = a @ ''.'' @ b \<and> CHR ''.'' \<notin> set b"
  then have "takeWhile (\<lambda>c. c \<noteq> CHR ''.'') (rev s) = rev b"
    using takeWhile_append2[of "rev b" "\<lambda>c. c \<noteq> CHR ''.''" "''.'' @ rev a"] by auto
  then show "last_dot s = Some (a, b)" using s by (simp add: last_dot_def)
qed

text \<open>A test resolves exactly if the last two components name a callable attribute of a class of the
  module that the rest names; in every other case, unless the import itself fails otherwise, the
  registry's own error is raised.\<close>

lemma resolves_iff:
  "resolve_test imp t = Inr a \<longleftrightarrow>
     (\<exists>m c f loaded attrs. t = m @ ''.'' @ c @ ''.'' @ f \<and> CHR ''.'' \<notin> set c \<and> CHR ''.'' \<notin> set f \<and>
        imp m = Inr loaded \<and> loaded c = Some (ClassAttr attrs) \<and> attrs f = Some a \<and> is_callable a)"
  (is "_ \<longleftrightarrow> ?r")
proof -
  have dots: "rsplit_dots t = Some (m, c, f) \<longleftrightarrow> t = m @ ''.'' @ c @ ''.'' @ f \<and> CHR ''.'' \<notin> set c \<and> CHR ''.'' \<notin> set f" for m c f
  proof -
    have "rsplit_dots t = Some (m, c, f) \<longleftrightarrow> (\<exists>front. last_dot t = Some (front, f) \<and> last_dot front = Some (m, c))"
      by (auto simp: rsplit_dots_def split: option.splits)
    then show ?thesis unfolding last_dot_iff by auto
  qed
  show ?thesis
  proof
    assume "resolve_test imp t = Inr a"
    then obtain m c f loaded attrs where "rsplit_dots t = Some (m, c, f)" "imp m = Inr loaded"
      "loaded c = Some (ClassAttr attrs)" "attrs f = Some a" "is_callable a"
      by (auto simp: resolve_test_def split: option.splits sum.splits attribute.splits if_splits)
    then show "?r" unfolding dots by blast
  next
    assume "?r"
    then obtain m c f loaded attrs where "rsplit_dots t = Some (m, c, f)" "imp m = Inr loaded"
      "loaded c = Some (ClassAttr attrs)" "attrs f = Some a" "is_callable a"
      unfolding dots by blast
    then show "resolve_test imp t = Inr a" by (simp add: resolve_test_def)
  qed
qed

text \<open>Any class will do: that it is a \<open>TestCase\<close>, as the comment says, is not checked.\<close>

lemma resolve_any_class:
  "imp ''m'' = Inr (\<lambda>n. Some (ClassAttr (\<lambda>n. Some CallableAttr))) \<Longrightarrow> resolve_test imp ''m.C.f'' = Inr CallableAttr"
  unfolding resolves_iff
  by (rule exI[of _ "''m''"], rule exI[of _ "''C''"], rule exI[of _ "''f''"]) (simp add: is_callable_def)

lemma find_by_name:
  assumes "distinct (map ob_name obs)"
  shows "find_obligation obs n = Inr ob \<longleftrightarrow> ob \<in> set obs \<and> ob_name ob = n"
  using assms by (induction obs) force+

lemma phases_partition: "ob \<in> set obs \<longleftrightarrow> (\<exists>!p. ob \<in> set (by_phase obs p))"
  by (auto simp: by_phase_def)

end
