(* ===== verification/Spec2Isabelle.thy ===== *)
theory Spec2Isabelle
  imports EnvelopeProps AuditFile Delegation Session SignedSafeMode Rebalancer RateLimiter Mesh
    Issuance DataPolicy OutputScan ToolGate PolicyEngine Sybil
    Checkpoint KeyRotation Review Readmission McpHost Prompt PolicyBundle Convergence PolicyAudit
    AdmissionCoupling TrustAnchors Sockets Bridge AuditStream AttestedRuntime Workspace Federation
    SecretPatterns Obligations
begin

text \<open>
  WalkieTalkie is a zero-trust messaging kernel for software agents: every message is a signed envelope
  that carries a capability token, every decision is denied by default and audited, and the parts around
  the kernel (policies, capacity, discovery, a peer-to-peer mesh, adapters for the model context protocol)
  accept nothing that these checks have not established. The code is in Python under
  \<open>security-foundations/\<close>: the kernel and the policies in \<open>envelope/\<close>, the network in \<open>mesh/\<close>, the adapters in
  \<open>integrations/mcp/\<close>. This development models it module by module.

  \<^bold>\<open>How the code is read.\<close> A value decoded from JSON or passed by a tool call is a \<open>pyval\<close> (theory
  \<open>Prelude\<close>), and the \<open>isinstance\<close> guards on it are branches; what the code itself passes between its parts
  is typed. A \<open>str\<close> or \<open>bytes\<close> is a \<open>string\<close>, code points up to 255; an \<open>int\<close> is an \<open>int\<close>, without bound as in
  Python; a \<open>datetime\<close> is an \<open>int\<close> of microseconds; a dictionary is an association list in the order of
  insertion, or a map where the order cannot be seen. A class is a record of its fields, a method is a
  definition that takes the state and returns it changed. An exception is a value of type \<open>exn\<close>
  (\<open>Deny_Reason\<close>), the class and the deny reason; results are sums with the exception on the left, and
  the guards of a function stand in the order of the source. The texts meant for people are left out, or
  worded by a parameter where the code returns them. A lock makes an operation one step, so threads are
  sequences of steps.

  \<^bold>\<open>Parameters.\<close> What is not in the repository is an argument: the record \<open>platform\<close> (the canonical form of
  RFC 8785, SHA-256, PEM loading, the Ed25519 check, the JSON decoder, the ISO 8601 reader and printer),
  \<open>codec\<close> (JSON and base64 of the mesh messages), \<open>x509\<close> (certificate building), \<open>tcp\<close> and \<open>tls\<close> (outgoing
  connections), \<open>dumps\<close> and its variants (\<open>json.dumps\<close>), \<open>rnd\<close> (the rounding of a real number to a float),
  signing functions, clocks, random bytes, and the sinks, tools and callbacks that a caller supplies.
  What a theorem needs of them is a named hypothesis: \<open>key_pair\<close> (signatures verify), \<open>json_faithful\<close> (a
  value is read back as it was written), \<open>canon_ignores_order\<close>, \<open>chain_platform\<close> (canonical texts differ and
  a digest has 64 characters), \<open>tcp_tracks\<close>. The theories \<open>Demo\<close>,
  \<open>EnvelopeDemo\<close> and the last section of each theory hold the concrete instances on which theorems with
  hypotheses are applied.

  \<^bold>\<open>The kernel.\<close>
  \<^item> \<open>Platform\<close>, \<open>Replay\<close>, \<open>CapabilityToken\<close>, \<open>Envelope\<close>, \<open>EnvelopeProps\<close>: \<open>verify_envelope.py\<close>,
    \<open>capability_token.py\<close>, \<open>trust_store.py\<close>, \<open>verifier.py\<close>. The whole of \<open>verify_envelope\<close>, with its cache and
    its sink as state. Shown: what acceptance establishes of every field, that every failure is an
    \<open>EnvelopeVerificationError\<close>, that no acceptance goes unaudited, that a nonce is refused until its
    reservation ends (for both caches, over the locale \<open>replay_reservation\<close>), and that the iterative
    depth check computes the nesting depth.
  \<^item> \<open>AuditLog\<close>, \<open>AuditFile\<close>, \<open>AuditStream\<close>: \<open>audit.py\<close>, \<open>alerting.py\<close>, \<open>audit_query.py\<close>. The hash chain and both
    stores (locale \<open>audit_store\<close>), reading the file backwards in blocks, the filters, the alerts. Shown: a
    log written by \<open>record\<close> verifies; two logs with the same end are equal or two of their own events
    collide under the digest; an alert is raised exactly for a burst.
  \<^item> \<open>Issuance\<close>, \<open>PolicyBundle\<close>, \<open>KeyRotation\<close>, \<open>Revocation\<close>, \<open>TrustAnchors\<close>, \<open>WorkloadCA\<close>: \<open>capability_issuer.py\<close>,
    \<open>issuance_policy.py\<close>, \<open>policy_bundle.py\<close>, \<open>canary_policy.py\<close>, \<open>key_rotation.py\<close>, \<open>revocation_list.py\<close>,
    \<open>trust_store.py\<close>, \<open>issuer_trust_store.py\<close>, \<open>bootstrap_bundle.py\<close>, \<open>workload_ca.py\<close>. Where tokens, policies,
    keys and certificates come from, and how they are withdrawn. The outcome of \<open>issue\<close> is given for every
    request, with the claims of the token and the event; an accepted version is never followed by an older
    one, in the file and in memory; a line of the revocation file may be torn, and then no token passes.
  \<^item> \<open>EnvelopeAdapter\<close>, \<open>EndToEnd\<close>, \<open>WireFormat\<close>: \<open>envelope_adapter.py\<close>. The sender's side, and its composition
    with the issuer and the verifier: the messages of honest parties are accepted, also after the
    reordering of keys by the wire format.

  \<^bold>\<open>Signed artifacts\<close> share the theory \<open>Artifact\<close>, whose locale \<open>signed_artifact\<close> has one interpretation per
  artifact: \<open>Delegation\<close> (\<open>delegation_receipt.py\<close>, no escalation along a chain), \<open>Session\<close>
  (\<open>session_token.py\<close>, a chain of resumes is one session), \<open>SignedSafeMode\<close>, \<open>Review\<close>
  (\<open>reviewer_workflow.py\<close>), \<open>Readmission\<close> (\<open>recovery_readmission.py\<close>), \<open>ToolGate\<close>, \<open>PolicyBundle\<close>, \<open>TrustAnchors\<close>,
  \<open>Discovery\<close>, \<open>AttestedRuntime\<close> (\<open>image_attestation.py\<close>, with the profiles of \<open>runtime_profile.py\<close>).

  \<^bold>\<open>Policies.\<close> \<open>DataPolicy\<close> (\<open>data_classification.py\<close>, \<open>retrieval_policy.py\<close>, \<open>egress_policy.py\<close>), \<open>OutputScan\<close> and
  \<open>SecretPatterns\<close> (\<open>output_scanning.py\<close>, whose regular expressions are given a meaning that the matcher is
  shown to compute), \<open>PolicyEngine\<close> and \<open>PolicyAudit\<close> (\<open>policy_engine.py\<close>, \<open>policy_audit.py\<close>), \<open>ToolGate\<close>
  (\<open>tool_policy_gate.py\<close>), \<open>Prompt\<close> (\<open>prompt_assembly.py\<close>, \<open>instruction_isolation.py\<close>: the rendered prompt
  determines its segments), \<open>Checkpoint\<close> (\<open>checkpointed_execution.py\<close>). Rule lists are instances of the
  locale \<open>first_match\<close>, ordered levels of \<open>severity_scale\<close>.

  \<^bold>\<open>Resilience.\<close> \<open>SafeMode\<close> (\<open>safe_mode_engine.py\<close>), \<open>Budgets\<close> and \<open>Rebalancer\<close> (\<open>capacity_budgets.py\<close>,
  \<open>capacity_rebalancer.py\<close>, over the locale \<open>quota_controller\<close>), \<open>RateLimiter\<close> (\<open>rate_limiter.py\<close>, an instance
  of \<open>sliding_window\<close>), \<open>Sybil\<close> (\<open>sybil_deterrence.py\<close>), \<open>Convergence\<close> (\<open>revocation_convergence.py\<close>).

  \<^bold>\<open>The mesh.\<close> \<open>Transport\<close>, \<open>Sockets\<close> (\<open>transport.py\<close>, \<open>socket_transport.py\<close>, \<open>tls_transport.py\<close>,
  \<open>connection_pool.py\<close>: frames survive any segmentation, TLS frames carry a verified identity, the pool
  keeps its bound), \<open>PeerAdmission\<close>, \<open>Discovery\<close>, \<open>AdmissionCoupling\<close>, \<open>Eclipse\<close>, \<open>Membership\<close> (\<open>membership.py\<close>:
  gossip converges to the greatest claim, runs of ticks detect failures on time, a tick ends), \<open>Routing\<close> (\<open>routing.py\<close>), and \<open>Mesh\<close>
  (\<open>gossip_discovery.py\<close>, \<open>node.py\<close>), which composes them.

  \<^bold>\<open>The adapters.\<close> \<open>McpHost\<close> (\<open>host.py\<close>, \<open>host_support.py\<close>, \<open>default_tools.py\<close>) runs one envelope through the
  verifier, the rate limiter, the tool gate, the tool, the scan and the egress matrix; error replies carry
  the host's prefix and the text of the exception or decision, for a tool the text it raised with. \<open>Bridge\<close>
  (\<open>bridge/\<close>) carries the messages of agents over sockets into an inbox. \<open>Frames\<close> holds what the two small
  protocols share (its locale \<open>frame_source\<close> is the contract of the transports), \<open>Workspace\<close>
  (\<open>workspace/\<close>) the status server and its watcher, \<open>Federation\<close> (\<open>federation/\<close>) the tool servers and their
  gateway. \<open>Obligations\<close> has the operations of \<open>proof_obligations.py\<close>.

  \<^bold>\<open>Loops and bounds.\<close> Every definition is total. Recursion that is not structural has a measure: the bytes
  still to arrive (\<open>recv_exactly\<close>, \<open>read_frames\<close>), the rest of a text (\<open>find_from\<close>), the
    time to live of a message (\<open>relay\<close>), the weight of a worklist (\<open>depth_loop\<close>).
  \<open>tick\<close> of \<open>Membership\<close> drains a network that it also fills, so its loop is a \<open>partial_function\<close> and that it
  returns is the theorem \<open>tick_terminates\<close>. A loop that waits for a deadline recurs over the rounds that fit
  before it. No fuel is used.

  \<^bold>\<open>Where the code does not keep a promise\<close> a lemma says so and the section of the theory names it, for
  example \<open>insider_impersonates\<close> and \<open>body_forges_message\<close> in \<open>Bridge\<close>, \<open>reset_stops_server\<close> in \<open>Sockets\<close>,
  \<open>overlap_leaks\<close> in \<open>OutputScan\<close>, \<open>tool_exception_unscanned\<close> in \<open>McpHost\<close>,
  \<open>combined_tenants_leak\<close> in \<open>DataPolicy\<close>, \<open>array_ends_status_server\<close> in \<open>Workspace\<close>, \<open>array_announcement\<close> in
  \<open>Federation\<close>.

  \<^bold>\<open>Not modelled.\<close> The command lines (\<open>main\<close>) and the loops around them, which parse arguments, start threads
  and print; \<open>__repr__\<close> and the digest texts for people; the removal of rendezvous files on close; the
  table of \<open>proof_obligations.py\<close>, which is prose with the names of tests; the scripts that write keys, test
  vectors and sample logs, and the demonstrations, which only call the modules modelled here; the tests.
\<close>

end
